(* ===== verification/Py_Float.thy ===== *)
theory Py_Float
  imports Complex_Main "HOL-Library.Log_Nat"
begin

text \<open>
  Python's \<open>float\<close> is an IEEE 754 binary64 number.  The pipeline computes its
  scores and confidences with it, so the sums are rounded sums and the comparisons
  against thresholds are comparisons of rounded values.  A finite float is modelled
  by the rational number it denotes; every arithmetic operation is the exact
  rational operation followed by \<open>fl\<close>, which rounds to the nearest
  binary64 value, ties to even, with the subnormal range included.  Overflow to
  infinity is outside the model: the modelled code stays within single digits.
  A literal such as \<open>0.15\<close> is \<open>fl (15/100)\<close>.
\<close>

section \<open>Rounding to an integer, ties to even\<close>

definition rhe :: "rat \<Rightarrow> int" where
  "rhe x = (let f = \<lfloor>x\<rfloor>; d = x - of_int f in
     if d < 1/2 then f else if 1/2 < d then f + 1
     else if even f then f else f + 1)"

lemma rhe_of_int [simp]: "rhe (of_int n) = n"
  by (simp add: rhe_def)

lemma rhe_cases: "rhe x = \<lfloor>x\<rfloor> \<or> rhe x = \<lfloor>x\<rfloor> + 1"
  by (simp add: rhe_def Let_def)

lemma rhe_mono:
  assumes "x \<le> y" shows "rhe x \<le> rhe y"
proof (cases "\<lfloor>x\<rfloor> = \<lfloor>y\<rfloor>")
  case True
  then show ?thesis using assms by (auto simp: rhe_def Let_def)
next
  case False
  then have "\<lfloor>x\<rfloor> + 1 \<le> \<lfloor>y\<rfloor>" using floor_mono [OF assms] by simp
  then show ?thesis using rhe_cases [of x] rhe_cases [of y] by auto
qed

lemma rhe_0 [simp]: "rhe 0 = 0"
  using rhe_of_int [of 0] by (simp del: rhe_of_int)

section \<open>The binary exponent of a positive rational\<close>

definition bexp :: "rat \<Rightarrow> int" where
  "bexp x = (case quotient_of x of (p, q) \<Rightarrow>
     let k = bitlen p - bitlen q in if 2 powi k \<le> x then k else k - 1)"

lemma bitlen_powi:
  assumes "0 < p"
  shows "2 powi (bitlen p - 1) \<le> (of_int p :: rat)" "(of_int p :: rat) < 2 powi (bitlen p)"
proof -
  have b: "2 ^ nat (bitlen p - 1) \<le> p \<and> p < 2 ^ nat (bitlen p)"
    using bitlen_bounds [OF assms] .
  have pos: "0 < bitlen p"
    using assms bitlen_nonneg [of p] bitlen_eq_zero_iff [of p] by linarith
  have "(2 :: rat) ^ nat (bitlen p - 1) \<le> of_int p"
    using b by (metis of_int_le_iff of_int_numeral of_int_power)
  then show "2 powi (bitlen p - 1) \<le> (of_int p :: rat)"
    using pos by (simp add: power_int_def)
  have "of_int p < (2 :: rat) ^ nat (bitlen p)"
    using b by (metis of_int_less_iff of_int_numeral of_int_power)
  then show "(of_int p :: rat) < 2 powi (bitlen p)"
    using pos by (simp add: power_int_def)
qed

lemma bexp_bounds:
  assumes "0 < x"
  shows "2 powi (bexp x) \<le> x" "x < 2 powi (bexp x + 1)"
proof -
  obtain p q where pq: "quotient_of x = (p, q)" by fastforce
  have q: "0 < q" using quotient_of_denom_pos [OF pq] .
  have x: "x = of_int p / of_int q" using quotient_of_div [OF pq] .
  have p: "0 < p" using assms x q by (simp add: zero_less_divide_iff)
  let ?k = "bitlen p - bitlen q"
  note P = bitlen_powi [OF p] and Q = bitlen_powi [OF q]
  have Q0: "(0 :: rat) < of_int q" using q by simp
  have "of_int p < (2 :: rat) powi (?k + 1) * 2 powi (bitlen q - 1)"
    using P(2) by (simp flip: power_int_add)
  also have "\<dots> \<le> 2 powi (?k + 1) * of_int q"
    using Q(1) by (intro mult_left_mono) auto
  finally have up: "x < 2 powi (?k + 1)" using Q0 by (simp add: x divide_less_eq)
  have "(2 :: rat) powi (?k - 1) * of_int q \<le> 2 powi (?k - 1) * 2 powi (bitlen q)"
    using Q(2) by (intro mult_left_mono) auto
  also have "\<dots> = 2 powi (bitlen p - 1)" by (simp flip: power_int_add)
  also have "\<dots> \<le> of_int p" by (rule P(1))
  finally have lo: "2 powi (?k - 1) \<le> x" using Q0 by (simp add: x le_divide_eq)
  show "2 powi (bexp x) \<le> x" "x < 2 powi (bexp x + 1)"
    using up lo by (auto simp: bexp_def pq Let_def)
qed

lemma powi_less_iff: "(2 :: rat) powi a < 2 powi b \<longleftrightarrow> a < b"
proof
  show "a < b \<Longrightarrow> (2 :: rat) powi a < 2 powi b"
    by (intro power_int_strict_increasing) auto
  show "(2 :: rat) powi a < 2 powi b \<Longrightarrow> a < b"
    using power_int_increasing [of b a "2 :: rat"] by fastforce
qed

lemma bexp_unique:
  assumes "2 powi e \<le> x" "x < 2 powi (e + 1)" shows "bexp x = e"
proof -
  have "(0 :: rat) < 2 powi e" by simp
  then have x: "0 < x" using assms(1) by (rule less_le_trans)
  note b = bexp_bounds [OF x]
  have "(2 :: rat) powi e < 2 powi (bexp x + 1)" using assms b by simp
  moreover have "(2 :: rat) powi (bexp x) < 2 powi (e + 1)" using assms b by simp
  ultimately show ?thesis by (auto simp: powi_less_iff)
qed

lemma bexp_mono:
  assumes "0 < x" "x \<le> y" shows "bexp x \<le> bexp y"
proof -
  have "(2 :: rat) powi (bexp x) < 2 powi (bexp y + 1)"
    using bexp_bounds [of x] bexp_bounds [of y] assms by simp
  then show ?thesis by (simp add: powi_less_iff)
qed

section \<open>Rounding to binary64\<close>

definition qexp :: "rat \<Rightarrow> int" where
  "qexp x = max (bexp x - 52) (- 1074)"

definition flp :: "rat \<Rightarrow> rat" where
  "flp x = of_int (rhe (x / 2 powi (qexp x))) * 2 powi (qexp x)"

definition fl :: "rat \<Rightarrow> rat" where
  "fl x = (if x = 0 then 0 else if 0 < x then flp x else - flp (- x))"


lemma bexp_powi [simp]: "bexp (2 powi e) = e"
  by (rule bexp_unique) (auto simp: powi_less_iff)

lemma powi_split: "(2 :: rat) powi a = 2 ^ nat (a - b) * 2 powi b" if "b \<le> a"
proof -
  have "(2 :: rat) powi a = 2 powi (a - b) * 2 powi b" by (simp flip: power_int_add)
  also have "2 powi (a - b) = (2 :: rat) ^ nat (a - b)" using that by (simp add: power_int_def)
  finally show ?thesis .
qed

lemma qexp_le_Suc: "0 < x \<Longrightarrow> - 1074 \<le> bexp x + 1 \<Longrightarrow> qexp x \<le> bexp x + 1"
  by (simp add: qexp_def)

text \<open>A multiple of the quantum is a fixed point.\<close>

lemma flp_grid: "x = of_int m * 2 powi (qexp x) \<Longrightarrow> flp x = x"
  unfolding flp_def
  by (metis nonzero_mult_div_cancel_right power_int_not_zero rhe_of_int zero_neq_numeral)

lemma flp_powi: "- 1074 \<le> e \<Longrightarrow> flp (2 powi e) = 2 powi e"
proof (rule flp_grid)
  assume e: "- 1074 \<le> e"
  have "qexp (2 powi e) \<le> e" using e by (simp add: qexp_def)
  from powi_split [OF this]
  show "(2 :: rat) powi e = of_int (2 ^ nat (e - qexp (2 powi e))) * 2 powi (qexp (2 powi e))" by simp
qed

lemma flp_same: "qexp x = qexp y \<Longrightarrow> x \<le> y \<Longrightarrow> flp x \<le> flp y"
  unfolding flp_def by (auto intro!: mult_right_mono rhe_mono divide_right_mono)

lemma flp_ge_powi:
  assumes "- 1074 \<le> bexp x" "0 < x" shows "2 powi (bexp x) \<le> flp x"
proof -
  have "flp (2 powi (bexp x)) \<le> flp x"
    by (rule flp_same) (use assms bexp_bounds(1) in \<open>auto simp: qexp_def\<close>)
  then show ?thesis using flp_powi assms(1) by simp
qed

lemma rhe_le_int: "x \<le> of_int n \<Longrightarrow> rhe x \<le> n"
  using rhe_mono [of x "of_int n"] by simp

lemma flp_le_powi:
  assumes "0 < x" "- 1074 \<le> e" "bexp x < e" shows "flp x \<le> 2 powi e"
proof -
  have q: "qexp x \<le> e" using assms by (simp add: qexp_def)
  have "(2 :: rat) powi (bexp x + 1) \<le> 2 powi e"
    using assms by (intro power_int_increasing) auto
  then have "x \<le> 2 powi e" using bexp_bounds(2) [OF assms(1)] by simp
  also have "\<dots> = of_int (2 ^ nat (e - qexp x)) * 2 powi (qexp x)"
    using powi_split [OF q] by simp
  finally have "x / 2 powi (qexp x) \<le> of_int (2 ^ nat (e - qexp x))"
    by (simp add: divide_le_eq)
  then have "rhe (x / 2 powi (qexp x)) \<le> 2 ^ nat (e - qexp x)" by (rule rhe_le_int)
  then have "of_int (rhe (x / 2 powi (qexp x))) \<le> (2 :: rat) ^ nat (e - qexp x)"
    by (metis of_int_le_iff of_int_numeral of_int_power)
  then show ?thesis unfolding flp_def using powi_split [OF q] by (simp add: mult_right_mono)
qed

lemma flp_mono:
  assumes "0 < x" "x \<le> y" shows "flp x \<le> flp y"
proof (cases "qexp x = qexp y")
  case True
  then show ?thesis using assms(2) by (rule flp_same)
next
  case False
  have "bexp x \<le> bexp y" using assms by (rule bexp_mono)
  with False have lt: "bexp x < bexp y" and n: "- 1074 \<le> bexp y"
    by (auto simp: qexp_def max_def split: if_splits)
  have "flp x \<le> 2 powi (bexp y)" by (rule flp_le_powi [OF assms(1) n lt])
  also have "\<dots> \<le> flp y" using assms n by (intro flp_ge_powi) auto
  finally show ?thesis .
qed

lemma flp_nonneg: "0 < x \<Longrightarrow> 0 \<le> flp x"
  unfolding flp_def using rhe_mono [of 0 "x / 2 powi (qexp x)"] by simp

text \<open>Rounding a float changes nothing.\<close>

lemma flp_idem:
  assumes x: "0 < x" and y: "0 < flp x"
  shows "flp (flp x) = flp x"
proof (cases "qexp (flp x) \<le> qexp x")
  case True
  show ?thesis
  proof (rule flp_grid)
    have "flp x = of_int (rhe (x / 2 powi (qexp x))) * 2 powi (qexp x)" by (simp only: flp_def)
    also have "\<dots> = of_int (rhe (x / 2 powi (qexp x)) * 2 ^ nat (qexp x - qexp (flp x))) * 2 powi (qexp (flp x))"
      unfolding powi_split [OF True] by (simp add: mult.assoc)
    finally show "flp x = of_int (rhe (x / 2 powi (qexp x)) * 2 ^ nat (qexp x - qexp (flp x))) * 2 powi (qexp (flp x))" .
  qed
next
  case False
  then have b: "bexp x < bexp (flp x)" "- 1074 < bexp (flp x) - 52" by (auto simp: qexp_def)
  have e: "- 1074 \<le> bexp x + 1"
  proof (rule ccontr)
    assume "\<not> - 1074 \<le> bexp x + 1"
    then have "flp x \<le> 2 powi (- 1074)" by (intro flp_le_powi [OF x]) simp_all
    then have "bexp (flp x) \<le> bexp (2 powi (- 1074))" by (rule bexp_mono [OF y])
    then show False using b(2) by (simp only: bexp_powi)
  qed
  have "flp x \<le> 2 powi (bexp x + 1)" by (rule flp_le_powi [OF x e]) simp
  moreover have "(2 :: rat) powi (bexp x + 1) \<le> 2 powi (bexp (flp x))"
    using b(1) by (intro power_int_increasing) auto
  moreover have "2 powi (bexp (flp x)) \<le> flp x" by (rule bexp_bounds(1) [OF y])
  ultimately have "flp x = 2 powi (bexp x + 1)" by linarith
  then show ?thesis using flp_powi [OF e] by simp
qed

section \<open>The laws the components use\<close>

lemma fl_0 [simp]: "fl 0 = 0"
  by (simp add: fl_def)

lemma fl_mono: "x \<le> y \<Longrightarrow> fl x \<le> fl y"
  by (cases x "0 :: rat" rule: linorder_cases; cases y "0 :: rat" rule: linorder_cases)
    (auto simp: fl_def flp_mono flp_nonneg intro: order_trans [of "- flp (- x)" 0])

lemma fl_idem [simp]: "fl (fl x) = fl x"
proof -
  have p: "fl (flp z) = flp z" if "0 < z" for z
    using flp_nonneg [OF that] flp_idem [OF that] by (simp add: fl_def order_less_le)
  have m: "fl (- z) = - fl z" for z by (simp add: fl_def)
  show ?thesis using p [of x] p [of "- x"] m [of "flp (- x)"] by (auto simp: fl_def [of x])
qed

text \<open>Integers below \<open>2 ^ 53\<close> are floats.\<close>

lemma flp_int: "0 < n \<Longrightarrow> n < 2 ^ 53 \<Longrightarrow> flp (of_int n) = of_int n"
proof (rule flp_grid)
  assume n: "0 < n" "n < 2 ^ 53"
  have "(of_int n :: rat) < of_int (2 ^ 53)" using n by (subst of_int_less_iff)
  then have "(2 :: rat) powi (bexp (of_int n)) < 2 powi 53"
    using bexp_bounds(1) [of "of_int n"] n by simp
  then have q: "qexp (of_int n) \<le> 0" by (simp only: powi_less_iff) (simp add: qexp_def)
  have one: "2 ^ nat (0 - qexp (of_int n)) * 2 powi (qexp (of_int n)) = (1 :: rat)"
    using powi_split [OF q] by simp
  have "of_int (n * 2 ^ nat (0 - qexp (of_int n))) * 2 powi (qexp (of_int n))
      = of_int n * (2 ^ nat (0 - qexp (of_int n)) * 2 powi (qexp (of_int n)) :: rat)"
    by (simp add: mult.assoc)
  then show "(of_int n :: rat) = of_int (n * 2 ^ nat (0 - qexp (of_int n))) * 2 powi (qexp (of_int n))"
    by (simp only: one mult_1_right)
qed

lemma fl_int: "\<bar>n\<bar> < 2 ^ 53 \<Longrightarrow> fl (of_int n) = of_int n"
  using flp_int [of n] flp_int [of "- n"] by (auto simp: fl_def)

lemma fl_1 [simp]: "fl 1 = 1"
  using fl_int [of 1] by simp

lemma fl_numeral: "numeral k < (2 :: int) ^ 53 \<Longrightarrow> fl (numeral k) = numeral k"
  using fl_int [of "numeral k"] by simp

lemma fl_nonneg: "0 \<le> x \<Longrightarrow> 0 \<le> fl x"
  using fl_mono [of 0 x] by simp

lemma fl_le_1: "x \<le> 1 \<Longrightarrow> fl x \<le> 1"
  using fl_mono [of x 1] by simp

text \<open>The rounding error below 2.\<close>

lemma rhe_error: "\<bar>of_int (rhe x) - x\<bar> \<le> 1 / 2" for x :: rat
proof -
  have "of_int \<lfloor>x\<rfloor> \<le> x" "x < of_int \<lfloor>x\<rfloor> + 1" by linarith+
  then show ?thesis by (auto simp: rhe_def Let_def abs_le_iff split: if_splits)
qed

lemma rhe_nearest: "\<bar>x - of_int n\<bar> < 1 / 2 \<Longrightarrow> rhe x = n" for x :: rat
proof -
  assume a: "\<bar>x - of_int n\<bar> < 1 / 2"
  have "\<bar>of_int (rhe x) - of_int n\<bar> < (1 :: rat)" using rhe_error [of x] a by linarith
  then have "\<bar>rhe x - n\<bar> < 1" by (metis of_int_abs of_int_diff of_int_less_1_iff)
  then show "rhe x = n" by simp
qed

lemma flp_error:
  assumes "0 < x" "x < 2"
  shows "\<bar>flp x - x\<bar> \<le> 2 powi (- 53)"
proof -
  have "(2 :: rat) powi (bexp x) < 2 powi 1" using bexp_bounds(1) [OF assms(1)] assms(2) by simp
  then have q: "qexp x \<le> - 52" by (simp only: powi_less_iff) (simp add: qexp_def)
  let ?q = "2 powi (qexp x) :: rat"
  have "flp x - x = (of_int (rhe (x / ?q)) - x / ?q) * ?q"
    unfolding flp_def by (simp add: left_diff_distrib)
  then have "\<bar>flp x - x\<bar> = \<bar>of_int (rhe (x / ?q)) - x / ?q\<bar> * ?q" by (simp add: abs_mult)
  also have "\<dots> \<le> 1 / 2 * ?q" by (intro mult_right_mono rhe_error) simp
  also have "\<dots> \<le> 1 / 2 * 2 powi (- 52)"
    using q by (intro mult_left_mono power_int_increasing) auto
  also have "(1 :: rat) / 2 * 2 powi (- 52) = 2 powi (- 53)"
    using power_int_add_1 [of "2 :: rat" "- 53"] by simp
  finally show ?thesis .
qed

lemma fl_error: "0 \<le> x \<Longrightarrow> x < 2 \<Longrightarrow> \<bar>fl x - x\<bar> \<le> 2 powi (- 53)"
  using flp_error [of x] by (auto simp: fl_def)

section \<open>Python's operations\<close>

definition fadd :: "rat \<Rightarrow> rat \<Rightarrow> rat" where "fadd a b = fl (a + b)"
definition fsub :: "rat \<Rightarrow> rat \<Rightarrow> rat" where "fsub a b = fl (a - b)"
definition fmul :: "rat \<Rightarrow> rat \<Rightarrow> rat" where "fmul a b = fl (a * b)"
definition fdiv :: "rat \<Rightarrow> rat \<Rightarrow> rat" where "fdiv a b = fl (a / b)"

text \<open>\<open>round(x, n)\<close>: the decimal with \<open>n\<close> places nearest to the exact value of the
  float (ties to even), converted back to a float.\<close>

definition pyround :: "nat \<Rightarrow> rat \<Rightarrow> rat" where
  "pyround n x = fl (of_int (rhe (x * 10 ^ n)) / 10 ^ n)"

lemma pyround_mono: "x \<le> y \<Longrightarrow> pyround n x \<le> pyround n y"
  unfolding pyround_def
  by (intro fl_mono divide_right_mono) (auto intro!: rhe_mono mult_right_mono)

lemma pyround_int: "\<bar>k\<bar> < 2 ^ 53 \<Longrightarrow> pyround n (of_int k) = of_int k"
proof -
  assume k: "\<bar>k\<bar> < 2 ^ 53"
  have "(of_int k * 10 ^ n :: rat) = of_int (k * 10 ^ n)" by simp
  then have "rhe (of_int k * 10 ^ n) = k * 10 ^ n" by (simp only: rhe_of_int)
  then show ?thesis using fl_int [OF k] by (simp add: pyround_def)
qed

lemma pyround_0 [simp]: "pyround n 0 = 0"
  using pyround_int [of 0] by simp

lemma pyround_1 [simp]: "pyround n 1 = 1"
  using pyround_int [of 1] by simp

lemma pyround_unit: "0 \<le> x \<Longrightarrow> x \<le> 1 \<Longrightarrow> 0 \<le> pyround n x \<and> pyround n x \<le> 1"
  using pyround_mono [of 0 x n] pyround_mono [of x 1 n] by simp

lemma fadd_mono: "a \<le> b \<Longrightarrow> c \<le> d \<Longrightarrow> fadd a c \<le> fadd b d"
  unfolding fadd_def by (intro fl_mono) simp

lemma fadd_nonneg: "0 \<le> a \<Longrightarrow> 0 \<le> b \<Longrightarrow> 0 \<le> fadd a b"
  unfolding fadd_def by (intro fl_nonneg) simp

end
