(* ===== verification/Py_String.thy ===== *)
theory Py_String
  imports Main "HOL-Library.Char_ord" "HOL-Library.List_Lexorder" "HOL-Library.Product_Lexorder"
begin

text \<open>
  The operations on \<open>str\<close> and on collections of strings that the pipeline uses.  A
  string is a list of \<open>char\<close>, read as the code points 0 to 255: on these the
  definitions below compute what Python computes (\<open>strip\<close>, \<open>lower\<close>,
  \<open>upper\<close>, \<open>json.dumps\<close>, comparison by code point), with the exceptions
  stated at \<open>py_upper\<close>.
\<close>

section \<open>Truthiness, joining, searching\<close>

text \<open>\<open>a or b\<close> on strings.\<close>

definition str_or :: "string \<Rightarrow> string \<Rightarrow> string" where
  "str_or a b = (if a = [] then b else a)"

lemma str_or_Nil [simp]: "str_or [] b = b"
  by (simp add: str_or_def)

lemma str_or_Cons [simp]: "str_or (c # a) b = c # a"
  by (simp add: str_or_def)

fun join :: "string \<Rightarrow> string list \<Rightarrow> string" where
  "join sep [] = []"
| "join sep [s] = s"
| "join sep (s # t # ss) = s @ sep @ join sep (t # ss)"

definition starts_with :: "string \<Rightarrow> string \<Rightarrow> bool" where
  "starts_with p s \<longleftrightarrow> take (length p) s = p"

fun contains :: "string \<Rightarrow> string \<Rightarrow> bool" where
  "contains p [] = (p = [])"
| "contains p (c # s) = (starts_with p (c # s) \<or> contains p s)"

lemma contains_split: "contains p s \<longleftrightarrow> (\<exists>a b. s = a @ p @ b)"
proof (induction s)
  case (Cons c s)
  have st: "starts_with p (c # s) \<longleftrightarrow> (\<exists>b. c # s = p @ b)"
    unfolding starts_with_def by (metis append_eq_conv_conj append_take_drop_id)
  have "(\<exists>a b. c # s = a @ p @ b) \<longleftrightarrow> (\<exists>b. c # s = p @ b) \<or> (\<exists>a b. s = a @ p @ b)"
    by (metis append_Cons append_Nil list.exhaust list.inject)
  then show ?case using Cons st by simp
qed auto

text \<open>\<open>s.partition(c)\<close> for a one-character separator; the second component is None
  when the separator does not occur.\<close>

fun partition_at :: "char \<Rightarrow> string \<Rightarrow> string \<times> string option" where
  "partition_at c [] = ([], None)"
| "partition_at c (x # xs) =
     (if x = c then ([], Some xs)
      else (case partition_at c xs of (a, b) \<Rightarrow> (x # a, b)))"

section \<open>Case and white space\<close>

definition is_space :: "char \<Rightarrow> bool" where
  "is_space c = (let n = (of_char c :: nat) in
     (9 \<le> n \<and> n \<le> 13) \<or> (28 \<le> n \<and> n \<le> 32) \<or> n = 133 \<or> n = 160)"

definition py_strip :: "string \<Rightarrow> string" where
  "py_strip s = rev (dropWhile is_space (rev (dropWhile is_space s)))"

definition lower_char :: "char \<Rightarrow> char" where
  "lower_char c = (let n = (of_char c :: nat) in
     if (65 \<le> n \<and> n \<le> 90) \<or> (192 \<le> n \<and> n \<le> 222 \<and> n \<noteq> 215)
     then char_of (n + 32) else c)"

definition py_lower :: "string \<Rightarrow> string" where
  "py_lower s = map lower_char s"

text \<open>\<open>upper\<close> takes three of the 256 code points elsewhere: the sharp s (two
  letters) is expanded; the micro sign and y with diaeresis, whose capitals lie beyond
  code point 255, are left as they are.  The code only compares the result with ASCII
  table keys.\<close>

definition upper_char :: "char \<Rightarrow> string" where
  "upper_char c = (let n = (of_char c :: nat) in
     if (97 \<le> n \<and> n \<le> 122) \<or> (224 \<le> n \<and> n \<le> 254 \<and> n \<noteq> 247)
     then [char_of (n - 32)] else if n = 223 then ''SS'' else [c])"

definition py_upper :: "string \<Rightarrow> string" where
  "py_upper s = concat (map upper_char s)"

lemma lower_char_idem [simp]: "lower_char (lower_char c) = lower_char c"
  by (auto simp: lower_char_def Let_def of_char_of)

lemma py_lower_idem [simp]: "py_lower (py_lower s) = py_lower s"
  by (simp add: py_lower_def)

lemma py_lower_Nil [simp]: "py_lower [] = []" "py_lower s = [] \<longleftrightarrow> s = []"
  by (simp_all add: py_lower_def)

lemma py_lower_append [simp]: "py_lower (s @ t) = py_lower s @ py_lower t"
  by (simp add: py_lower_def)

lemma dropWhile_idem: "dropWhile P (dropWhile P xs) = dropWhile P xs"
  by (induction xs) auto

lemma dropWhile_rev_front:
  "dropWhile P xs = xs \<Longrightarrow> dropWhile P (rev (dropWhile P (rev xs))) = rev (dropWhile P (rev xs))"
proof (cases xs)
  case (Cons a as)
  assume d: "dropWhile P xs = xs"
  have na: "\<not> P a" using d Cons by (metis dropWhile.simps(2) impossible_Cons length_dropWhile_le)
  have "rev (dropWhile P (rev xs)) = a # rev (if \<forall>x\<in>set as. P x then [] else dropWhile P (rev as))"
    using Cons na by (auto simp: dropWhile_append)
  then show ?thesis using na by simp
qed simp

lemma py_strip_idem [simp]: "py_strip (py_strip s) = py_strip s"
  unfolding py_strip_def
  using dropWhile_rev_front [OF dropWhile_idem [of is_space s]] dropWhile_idem
  by (metis rev_rev_ident)

section \<open>Decimal numerals\<close>

definition digit :: "nat \<Rightarrow> char" where
  "digit d = char_of (48 + d)"

fun dec :: "nat \<Rightarrow> string" where
  "dec n = (if n < 10 then [digit n] else dec (n div 10) @ [digit (n mod 10)])"

declare dec.simps [simp del]

text \<open>The format \<open>06d\<close> of a natural number.\<close>

definition fmt06 :: "nat \<Rightarrow> string" where
  "fmt06 n = replicate (6 - length (dec n)) (CHR ''0'') @ dec n"

definition dec_val :: "string \<Rightarrow> nat" where
  "dec_val s = foldl (\<lambda>v c. 10 * v + (of_char c - 48)) 0 s"

lemma of_char_digit: "d < 10 \<Longrightarrow> of_char (digit d) = 48 + d"
  by (simp add: digit_def of_char_of)

lemma dec_val_dec [simp]: "dec_val (dec n) = n"
proof (induction n rule: dec.induct)
  case (1 n)
  show ?case
  proof (cases "n < 10")
    case True
    then show ?thesis by (simp add: dec.simps [of n] dec_val_def of_char_digit)
  next
    case False
    with 1 have "dec_val (dec (n div 10)) = n div 10" by simp
    with False show ?thesis
      by (simp add: dec.simps [of n] dec_val_def of_char_digit)
  qed
qed

lemma dec_val_zeros: "dec_val (replicate k (CHR ''0'') @ s) = dec_val s"
  by (induction k) (simp_all add: dec_val_def)

lemma dec_val_fmt06 [simp]: "dec_val (fmt06 n) = n"
  by (simp add: fmt06_def dec_val_zeros)

lemma fmt06_inj [simp]: "fmt06 m = fmt06 n \<longleftrightarrow> m = n"
  by (metis dec_val_fmt06)

section \<open>Serialisation by json.dumps\<close>

definition hex_digit :: "nat \<Rightarrow> char" where
  "hex_digit d = (if d < 10 then char_of (48 + d) else char_of (87 + d))"

text \<open>\<open>json.dumps\<close> with its default \<open>ensure_ascii\<close>: quote and backslash are
  escaped, five control characters have short forms, everything else outside the
  printable ASCII range becomes a four-digit escape.\<close>

definition json_char :: "char \<Rightarrow> string" where
  "json_char c = (let n = (of_char c :: nat) in
     if n = 34 then [CHR 0x5C, CHR 0x22]
     else if n = 92 then [CHR 0x5C, CHR 0x5C]
     else if n = 10 then [CHR 0x5C, CHR ''n'']
     else if n = 13 then [CHR 0x5C, CHR ''r'']
     else if n = 9 then [CHR 0x5C, CHR ''t'']
     else if n = 12 then [CHR 0x5C, CHR ''f'']
     else if n = 8 then [CHR 0x5C, CHR ''b'']
     else if 32 \<le> n \<and> n \<le> 126 then [c]
     else [CHR 0x5C, CHR ''u'', CHR ''0'', CHR ''0'', hex_digit (n div 16), hex_digit (n mod 16)])"

definition json_str :: "string \<Rightarrow> string" where
  "json_str s = [CHR 0x22] @ concat (map json_char s) @ [CHR 0x22]"

text \<open>Containers, with the compact separators \<open>(",", ":")\<close>; the caller lists the
  keys of an object in sorted order, as \<open>sort_keys\<close> does.\<close>

definition json_arr :: "string list \<Rightarrow> string" where
  "json_arr vs = ''['' @ join '','' vs @ '']''"

definition json_obj :: "(string \<times> string) list \<Rightarrow> string" where
  "json_obj kvs = ''{'' @ join '','' (map (\<lambda>(k, v). json_str k @ '':'' @ v) kvs) @ ''}''"

text \<open>No encoded character is a prefix of another one, and none starts with the
  closing quote.  So an encoded string followed by anything determines the string.\<close>

definition json_head :: "string \<Rightarrow> (nat \<times> string) option" where
  "json_head s = (case s of
       [] \<Rightarrow> None
     | c # r \<Rightarrow>
        if of_char c = (34 :: nat) then None
        else if of_char c \<noteq> (92 :: nat) then Some (of_char c, r)
        else (case r of
            [] \<Rightarrow> None
          | e # q \<Rightarrow>
             if e = CHR ''n'' then Some (10, q) else if e = CHR ''r'' then Some (13, q)
             else if e = CHR ''t'' then Some (9, q) else if e = CHR ''f'' then Some (12, q)
             else if e = CHR ''b'' then Some (8, q)
             else if e = CHR ''u'' then
               (let h = (\<lambda>c. let n = (of_char c :: nat) in if n < 58 then n - 48 else n - 87)
                in Some (16 * h (q ! 2) + h (q ! 3), drop 4 q))
             else Some (of_char e, q)))"

lemma hex_digit_val: "d < 16 \<Longrightarrow>
    (let n = (of_char (hex_digit d) :: nat) in if n < 58 then n - 48 else n - 87) = d"
  by (auto simp: hex_digit_def Let_def of_char_of)

lemma of_char_less_256: "(of_char c :: nat) < 256"
  using of_char_mod_256 [of c, where ?'a = nat] by (metis mod_less_divisor zero_less_numeral)

lemma json_head_json_char: "json_head (json_char c @ r) = Some (of_char c, r)"
proof -
  let ?n = "of_char c :: nat"
  have "?n < 256" by (rule of_char_less_256)
  then have h: "?n div 16 < 16" "?n mod 16 < 16" by (simp_all add: less_mult_imp_div_less)
  show ?thesis
    using hex_digit_val [OF h(1)] hex_digit_val [OF h(2)]
    by (auto simp: json_head_def json_char_def Let_def of_char_of)
qed

lemma json_char_inj: "json_char c @ r = json_char d @ q \<Longrightarrow> c = d \<and> r = q"
  by (metis json_head_json_char of_char_eq_iff option.inject prod.inject)

lemma json_chars_inj:
  "concat (map json_char s) @ CHR 0x22 # r = concat (map json_char t) @ CHR 0x22 # q
   \<Longrightarrow> s = t \<and> r = q"
proof (induction s arbitrary: t)
  case Nil
  show ?case
  proof (cases t)
    case (Cons d t')
    have "json_head (CHR 0x22 # r) = None" by (simp add: json_head_def)
    moreover have "CHR 0x22 # r = json_char d @ concat (map json_char t') @ CHR 0x22 # q"
      using Nil.prems Cons by simp
    ultimately show ?thesis by (metis json_head_json_char option.distinct(1))
  qed (use Nil.prems in simp)
next
  case (Cons c s)
  show ?case
  proof (cases t)
    case Nil
    with Cons.prems have "json_head (json_char c @ concat (map json_char s) @ CHR 0x22 # r) = None"
      by (simp add: json_head_def)
    then show ?thesis by (simp add: json_head_json_char)
  next
    case (Cons d t')
    with Cons.prems have "json_char c @ (concat (map json_char s) @ CHR 0x22 # r)
        = json_char d @ (concat (map json_char t') @ CHR 0x22 # q)" by simp
    from json_char_inj [OF this] Cons.IH Cons show ?thesis by blast
  qed
qed

lemma json_str_inj: "json_str s @ r = json_str t @ q \<longleftrightarrow> s = t \<and> r = q"
  using json_chars_inj [of s r t q] by (auto simp: json_str_def)

lemma json_str_inj' [simp]: "json_str s = json_str t \<longleftrightarrow> s = t"
  using json_str_inj [of s "[]" t "[]"] by simp

text \<open>Items that cannot be confused with what follows them determine an array.\<close>

lemma json_items_cancel:
  fixes ren :: "'a \<Rightarrow> string"
  assumes cancel: "\<And>x y r q. ren x @ r = ren y @ q \<Longrightarrow> x = y \<and> r = q"
    and start: "\<And>x r q. ren x @ r \<noteq> CHR '']'' # q"
  shows "join '','' (map ren xs) @ '']'' @ r = join '','' (map ren ys) @ '']'' @ q \<Longrightarrow> xs = ys \<and> r = q"
proof (induction xs arbitrary: ys)
  case Nil
  show ?case
  proof (cases ys)
    case (Cons y zs)
    then obtain s where "join '','' (map ren ys) @ '']'' @ q = ren y @ s" by (cases zs) auto
    then show ?thesis using Nil start [of y s r] by simp
  qed (use Nil in simp)
next
  case (Cons x xs)
  define tailx where "tailx = (if xs = [] then '']'' @ r else '','' @ join '','' (map ren xs) @ '']'' @ r)"
  have x: "join '','' (map ren (x # xs)) @ '']'' @ r = ren x @ tailx" by (cases xs) (simp_all add: tailx_def)
  show ?case
  proof (cases ys)
    case Nil
    then show ?thesis using Cons.prems x start [of x tailx q] by simp
  next
    case (Cons y zs)
    define taily where "taily = (if zs = [] then '']'' @ q else '','' @ join '','' (map ren zs) @ '']'' @ q)"
    have y: "join '','' (map ren ys) @ '']'' @ q = ren y @ taily" unfolding Cons by (cases zs) (simp_all add: taily_def)
    have e: "x = y" "tailx = taily" using cancel [of x tailx y taily] Cons.prems unfolding x y by blast+
    show ?thesis
    proof (cases "xs = [] \<or> zs = []")
      case True
      then show ?thesis using e Cons by (auto simp: tailx_def taily_def split: if_splits)
    next
      case False
      then have "join '','' (map ren xs) @ '']'' @ r = join '','' (map ren zs) @ '']'' @ q"
        using e(2) by (simp add: tailx_def taily_def)
      then show ?thesis using Cons.IH e(1) Cons by blast
    qed
  qed
qed

lemma json_str_cancel: "json_str s @ r = json_str t @ q \<Longrightarrow> s = t \<and> r = q"
  by (simp add: json_str_inj)

lemma json_str_start: "json_str s @ r \<noteq> CHR '']'' # q"
  by (simp add: json_str_def)

lemma json_strs_inj: "json_arr (map json_str xs) = json_arr (map json_str ys) \<longleftrightarrow> xs = ys"
  using json_items_cancel [where ren = json_str and xs = xs and ys = ys and r = "[]" and q = "[]", OF json_str_cancel json_str_start]
  by (auto simp: json_arr_def)

section \<open>Collections of strings\<close>

text \<open>A Python \<open>set\<close> of strings that the code only tests, compares, intersects or
  sorts: its elements in increasing order.\<close>

definition pyset :: "string list \<Rightarrow> string list" where
  "pyset xs = sort (remdups xs)"

lemma set_pyset [simp]: "set (pyset xs) = set xs"
  by (simp add: pyset_def)

lemma distinct_pyset [simp]: "distinct (pyset xs)"
  by (simp add: pyset_def)

lemma sorted_pyset [simp]: "sorted (pyset xs)"
  by (simp add: pyset_def)

lemma pyset_eq_iff: "pyset xs = pyset ys \<longleftrightarrow> set xs = set ys"
  by (metis distinct_pyset set_pyset sorted_distinct_set_unique sorted_pyset)

lemma pyset_idem [simp]: "pyset (pyset xs) = pyset xs"
  by (simp add: pyset_eq_iff)

text \<open>\<open>list(dict.fromkeys(xs))\<close>: first occurrences, in order.\<close>

definition uniq_first :: "'a list \<Rightarrow> 'a list" where
  "uniq_first xs = rev (remdups (rev xs))"

lemma set_uniq_first [simp]: "set (uniq_first xs) = set xs"
  by (simp add: uniq_first_def)

lemma distinct_uniq_first [simp]: "distinct (uniq_first xs)"
  by (simp add: uniq_first_def)

lemma uniq_first_distinct: "distinct xs \<Longrightarrow> uniq_first xs = xs"
  by (simp add: uniq_first_def distinct_remdups_id)

lemma uniq_first_idem [simp]: "uniq_first (uniq_first xs) = uniq_first xs"
  by (simp add: uniq_first_distinct)

lemma uniq_first_absorb: "distinct xs \<Longrightarrow> set ys \<subseteq> set xs \<Longrightarrow> uniq_first (xs @ ys) = xs"
proof -
  assume d: "distinct xs" and s: "set ys \<subseteq> set xs"
  have "remdups (rev ys @ rev xs) = remdups (rev xs)"
  proof -
    have "remdups (us @ vs) = remdups vs" if "set us \<subseteq> set vs" for us vs :: "'a list"
      using that by (induction us) auto
    then show ?thesis using s by simp
  qed
  then show ?thesis using d by (simp add: uniq_first_def distinct_remdups_id)
qed

end
