(* ===== verification/Prelude.thy ===== *)
theory Prelude
  imports Py_Float Py_String
begin

text \<open>
  What every component of the v2 pipeline shares: instants and durations, the errors
  the code raises, the session's view of a table (rows with a serial id), and the gate
  that keeps the v2 engines away from the production database.  The collections
  \<open>cfg\<close> (tables of \<open>backend/config.py\<close>) and \<open>rows\<close> (facts on
  row updates) feed the proofs of all components.
\<close>

named_theorems cfg "configuration tables"
named_theorems rows "updates of rows"

section \<open>Time\<close>

text \<open>An aware \<open>datetime\<close> is its distance in microseconds from the epoch, a
  \<open>timedelta\<close> is a number of microseconds: both are exact in Python.\<close>

type_synonym time = int

definition minutes :: "int \<Rightarrow> time" where "minutes m = m * 60000000"
definition seconds :: "int \<Rightarrow> time" where "seconds s = s * 1000000"
definition days :: "int \<Rightarrow> time" where "days d = d * 86400000000"

lemma minutes_mono [simp]: "minutes a \<le> minutes b \<longleftrightarrow> a \<le> b"
  by (simp add: minutes_def)

text \<open>\<open>now = now or datetime.now(UTC)\<close>, with the reading \<open>wall\<close> of the clock.\<close>

definition now_or :: "time \<Rightarrow> time option \<Rightarrow> time" where
  "now_or wall now = (case now of None \<Rightarrow> wall | Some t \<Rightarrow> t)"

lemma now_or_simps [simp]: "now_or w None = w" "now_or w (Some t) = t"
  by (simp_all add: now_or_def)

section \<open>Errors\<close>

datatype py_error =
    ValueError string
  | RuntimeError string
  | IllegalTransition string string
  | HTTPException nat
  | KeyError string
  | TypeError string
  | IntegrityError string
  | AttributeError string

section \<open>Values without a fixed type\<close>

text \<open>Values of evidence and of audit details.  \<open>VOther\<close> carries the printed form
  of a value the model does not look into (a float or a container).\<close>

datatype pyval =
    VStr string
  | VInt int
  | VBool bool
  | VNone
  | VOther string

fun py_str :: "pyval \<Rightarrow> string" where
  "py_str (VStr s) = s"
| "py_str (VInt n) = (if n < 0 then CHR ''-'' # dec (nat (- n)) else dec (nat n))"
| "py_str (VBool b) = (if b then ''True'' else ''False'')"
| "py_str VNone = ''None''"
| "py_str (VOther s) = s"

lemma dec_head: "dec n \<noteq> [] \<and> hd (dec n) \<noteq> CHR ''-''"
proof (induction n rule: dec.induct)
  case (1 n)
  have "digit d \<noteq> CHR ''-''" if "d < 10" for d
  proof
    assume "digit d = CHR ''-''"
    then have "(of_char (CHR ''-'') :: nat) = 48 + d" using of_char_digit [OF that] by (metis (no_types))
    then show False by simp
  qed
  then show ?case using 1 by (simp add: dec.simps [of n])
qed

lemma dec_inj [simp]: "dec m = dec n \<longleftrightarrow> m = n"
  by (metis dec_val_dec)

lemma py_str_int_inj [simp]: "py_str (VInt m) = py_str (VInt n) \<longleftrightarrow> m = n"
proof -
  have "CHR ''-'' # s \<noteq> dec k" for s k
    using dec_head [of k] by (metis list.sel(1))
  then have "CHR ''-'' # s \<noteq> dec k" "dec k \<noteq> CHR ''-'' # s" for s k by metis+
  then show ?thesis by (cases "m < 0"; cases "n < 0") auto
qed

section \<open>Severities\<close>

text \<open>\<open>_SEVERITY_RANK.get(s, 0)\<close>, the table shared by alerting, aggregation and
  correlation: an unknown severity ranks with \<open>low\<close>.\<close>

definition severity_rank :: "string \<Rightarrow> nat" where
  "severity_rank s =
     (if s = ''critical'' then 3 else if s = ''high'' then 2
      else if s = ''medium'' then 1 else 0)"

lemma severity_rank_simps [simp]:
  "severity_rank ''low'' = 0" "severity_rank ''medium'' = 1"
  "severity_rank ''high'' = 2" "severity_rank ''critical'' = 3"
  by (simp_all add: severity_rank_def)

lemma severity_rank_le [simp]: "severity_rank s \<le> 3"
  by (simp add: severity_rank_def)

abbreviation severities :: "string list" where
  "severities \<equiv> [''low'', ''medium'', ''high'', ''critical'']"

lemma severity_rank_inj:
  "s \<in> set severities \<Longrightarrow> t \<in> set severities \<Longrightarrow> severity_rank s = severity_rank t \<Longrightarrow> s = t"
  by (auto simp: severity_rank_def)

section \<open>Tables\<close>

text \<open>A table is the list of its rows in the order of insertion.  \<open>rid\<close> is the
  serial primary key.  A row is changed in place by its id.\<close>

definition update_row :: "('r \<Rightarrow> nat) \<Rightarrow> nat \<Rightarrow> ('r \<Rightarrow> 'r) \<Rightarrow> 'r list \<Rightarrow> 'r list" where
  "update_row rid i f rs = map (\<lambda>r. if rid r = i then f r else r) rs"

text \<open>\<open>order_by(id.desc()).limit(1)\<close>: the largest id, 0 for an empty table.\<close>

definition last_id :: "('r \<Rightarrow> nat) \<Rightarrow> 'r list \<Rightarrow> nat" where
  "last_id rid rs = foldr (\<lambda>r m. max (rid r) m) rs 0"

lemma update_row_Nil [simp]: "update_row rid i f [] = []"
  by (simp add: update_row_def)

lemma length_update_row [simp]: "length (update_row rid i f rs) = length rs"
  by (simp add: update_row_def)

lemma update_row_append [simp]:
  "update_row rid i f (rs @ qs) = update_row rid i f rs @ update_row rid i f qs"
  by (simp add: update_row_def)

lemma map_update_row [rows]:
  "(\<And>r. rid r = i \<Longrightarrow> g (f r) = g r) \<Longrightarrow> map g (update_row rid i f rs) = map g rs"
  by (simp add: update_row_def)

lemma update_row_idle: "\<forall>r\<in>set rs. rid r \<noteq> i \<Longrightarrow> update_row rid i f rs = rs"
  by (induction rs) (auto simp: update_row_def)

lemma update_row_cong:
  "(\<And>r. r \<in> set rs \<Longrightarrow> rid r = i \<Longrightarrow> f r = g r) \<Longrightarrow> update_row rid i f rs = update_row rid i g rs"
  by (auto simp: update_row_def)

lemma set_update_row:
  "r \<in> set (update_row rid i f rs) \<longleftrightarrow>
   (\<exists>q\<in>set rs. r = (if rid q = i then f q else q))"
  unfolding update_row_def set_map image_iff ..

lemma last_id_ge: "r \<in> set rs \<Longrightarrow> rid r \<le> last_id rid rs"
  unfolding last_id_def by (induction rs) auto

lemma last_id_le: "(\<And>r. r \<in> set rs \<Longrightarrow> rid r \<le> n) \<Longrightarrow> last_id rid rs \<le> n"
  unfolding last_id_def by (induction rs) auto

lemma last_id_Nil [simp]: "last_id rid [] = 0"
  by (simp add: last_id_def)

lemma filter_update_row [rows]:
  "(\<And>r. rid r = i \<Longrightarrow> P (f r) = P r) \<Longrightarrow>
   filter P (update_row rid i f rs) = update_row rid i f (filter P rs)"
  by (induction rs) (auto simp: update_row_def)

lemma find_SomeD: "List.find P xs = Some x \<Longrightarrow> x \<in> set xs \<and> P x"
  by (induction xs) (auto split: if_splits)

lemma find_None_iff': "List.find P xs = None \<longleftrightarrow> (\<forall>x\<in>set xs. \<not> P x)"
  by (induction xs) auto

lemma distinct_map_inj: "distinct (map f xs) \<Longrightarrow> a \<in> set xs \<Longrightarrow> b \<in> set xs \<Longrightarrow> f a = f b \<Longrightarrow> a = b"
  by (auto simp: distinct_map inj_on_def)

section \<open>The gate in front of the production database\<close>

record engine_config =
  cfg_allow_prod :: bool
  cfg_database :: string
  cfg_suppression_max_days :: int

definition PRODUCTION_DB_NAME :: string where "PRODUCTION_DB_NAME = ''sentinel''"

definition ensure_not_production_db :: "string \<Rightarrow> engine_config \<Rightarrow> py_error + unit" where
  "ensure_not_production_db engine c =
     (if \<not> cfg_allow_prod c \<and> cfg_database c = PRODUCTION_DB_NAME
      then Inl (RuntimeError (engine @ '' engine refuses the v1 production database''))
      else Inr ())"


text \<open>A configuration of a development host, for the concrete examples.\<close>

definition dev_config :: engine_config where
  "dev_config = \<lparr>cfg_allow_prod = False, cfg_database = ''baraq'', cfg_suppression_max_days = 90\<rparr>"

lemma ensure_dev [simp]: "ensure_not_production_db e dev_config = Inr ()"
  by (simp add: ensure_not_production_db_def dev_config_def PRODUCTION_DB_NAME_def)

lemma ensure_prod:
  "ensure_not_production_db e c = Inr u \<longleftrightarrow> cfg_allow_prod c \<or> cfg_database c \<noteq> ''sentinel''"
  by (simp add: ensure_not_production_db_def PRODUCTION_DB_NAME_def)

end
