(* ===== verification/Detection.thy ===== *)
theory Detection
  imports Prelude
begin

text \<open>
  The detection contract, \<open>backend/detection/contract.py\<close>: the frozen data class
  \<open>DETECTION\<close>, its validation and normalisation on construction, and the
  deterministic detection id.  The SHA-256 digest in hexadecimal is the parameter
  \<open>H\<close> of the definitions that use it.
\<close>

record evidence =
  ev_field :: string
  ev_value :: pyval
  ev_reason :: string

text \<open>An observable is a dictionary (what the detectors emit) or a string (what the
  aggregation layer expects); the type keeps both.\<close>

datatype observable = ObsDict "(string \<times> pyval) list" | ObsStr string

record detection =
  det_detector_id :: string
  det_detector_version :: string
  det_event_id :: string
  det_event_ids :: "string list"
  det_timestamp :: "time option"
  det_first_seen :: time
  det_last_seen :: time
  det_event_type :: string
  det_host_id :: string
  det_host_name :: string
  det_user_id :: string
  det_username :: string
  det_source_ip :: string
  det_destination_ip :: string
  det_title :: string
  det_description :: string
  det_severity :: string
  det_confidence :: rat
  det_mitre_tactic :: string
  det_mitre_technique :: string
  det_evidence :: "evidence list"
  det_observables :: "observable list"
  det_status :: string
  det_detection_id :: string

definition DETECTION_STATUSES :: "string list" where
  "DETECTION_STATUSES = [''new'', ''expired'', ''suppressed'']"

definition clamp_confidence :: "rat \<Rightarrow> rat" where
  "clamp_confidence v = pyround 3 (min 1 (max 0 v))"

definition make_detection_id :: "(string \<Rightarrow> string) \<Rightarrow> string \<Rightarrow> string list \<Rightarrow> string" where
  "make_detection_id H detector_id parts =
     detector_id @ ''-'' @ take 12 (H (join ''|'' parts))"

text \<open>\<open>DETECTION.__post_init__\<close>: the two membership tests, then the normalisation
  of confidence and event ids and the derived id.\<close>

definition detection_init :: "(string \<Rightarrow> string) \<Rightarrow> detection \<Rightarrow> py_error + detection" where
  "detection_init H d =
     (if det_severity d \<notin> set severities then Inl (ValueError ''severity'')
      else if det_status d \<notin> set DETECTION_STATUSES then Inl (ValueError ''status'')
      else Inr (d\<lparr>det_confidence := clamp_confidence (det_confidence d),
                 det_event_ids := pyset (det_event_ids d),
                 det_detection_id :=
                   (if det_detection_id d = []
                    then make_detection_id H (det_detector_id d) [det_event_id d, det_title d]
                    else det_detection_id d)\<rparr>))"

text \<open>What every constructed detection satisfies.\<close>

definition detection_ok :: "detection \<Rightarrow> bool" where
  "detection_ok d \<longleftrightarrow>
     det_severity d \<in> set severities \<and> det_status d \<in> set DETECTION_STATUSES
     \<and> 0 \<le> det_confidence d \<and> det_confidence d \<le> 1
     \<and> sorted (det_event_ids d) \<and> distinct (det_event_ids d)"

lemma clamp_confidence_unit: "0 \<le> clamp_confidence v \<and> clamp_confidence v \<le> 1"
  unfolding clamp_confidence_def by (rule pyround_unit) auto

lemma clamp_confidence_mono: "v \<le> w \<Longrightarrow> clamp_confidence v \<le> clamp_confidence w"
  unfolding clamp_confidence_def by (intro pyround_mono) auto

lemma detection_init_cases:
  "detection_init H d = Inr d' \<Longrightarrow> det_severity d \<in> set severities \<and> det_status d \<in> set DETECTION_STATUSES
   \<and> det_severity d' = det_severity d \<and> det_status d' = det_status d"
  by (auto simp: detection_init_def split: if_splits)

lemma detection_init_ok: "detection_init H d = Inr d' \<Longrightarrow> detection_ok d'"
  using clamp_confidence_unit [of "det_confidence d"]
  by (auto simp: detection_init_def detection_ok_def split: if_splits)

text \<open>A detection with default fields, the base of the concrete examples.\<close>

definition blank_detection :: detection where
  "blank_detection = \<lparr>det_detector_id = [], det_detector_version = ''1.0.0'', det_event_id = [],
     det_event_ids = [], det_timestamp = None, det_first_seen = 0, det_last_seen = 0,
     det_event_type = [], det_host_id = [], det_host_name = [], det_user_id = [],
     det_username = [], det_source_ip = [], det_destination_ip = [], det_title = [],
     det_description = [], det_severity = ''medium'', det_confidence = fl (5/10),
     det_mitre_tactic = [], det_mitre_technique = [], det_evidence = [], det_observables = [],
     det_status = ''new'', det_detection_id = []\<rparr>"

section \<open>The ids of a detection\<close>

text \<open>\<open>_event_ids\<close> of the alert engine: the event ids, with the primary event id
  added when it is missing.\<close>

definition event_ids_of :: "detection \<Rightarrow> string list" where
  "event_ids_of d =
     (if det_event_id d \<noteq> [] \<and> det_event_id d \<notin> set (det_event_ids d)
      then det_event_ids d @ [det_event_id d] else det_event_ids d)"

lemma event_ids_of_distinct: "distinct (det_event_ids d) \<Longrightarrow> distinct (event_ids_of d)"
  by (simp add: event_ids_of_def)

lemma event_ids_of_set:
  "set (event_ids_of d) = set (det_event_ids d) \<union> (if det_event_id d = [] then {} else {det_event_id d})"
  by (auto simp: event_ids_of_def)

section \<open>Properties\<close>

text \<open>Constructing a detection either raises, exactly when the severity or the
  status is not one of the allowed values, or yields a detection whose confidence lies
  in [0, 1] after rounding to three places, whose event ids are sorted and without
  duplicates (and are the given ones), and whose id is filled in.\<close>

theorem detection_init_spec:
  "case detection_init H d of
     Inl e \<Rightarrow> \<not> (det_severity d \<in> set severities \<and> det_status d \<in> set DETECTION_STATUSES)
   | Inr d' \<Rightarrow> det_severity d \<in> set severities \<and> det_status d \<in> set DETECTION_STATUSES
        \<and> detection_ok d' \<and> set (det_event_ids d') = set (det_event_ids d)
        \<and> det_detection_id d' = (if det_detection_id d = []
             then det_detector_id d @ ''-'' @ take 12 (H (det_event_id d @ ''|'' @ det_title d))
             else det_detection_id d)"
proof (cases "detection_init H d")
  case (Inl e)
  then show ?thesis by (auto simp: detection_init_def split: if_splits)
next
  case (Inr d')
  from Inr have "set (det_event_ids d') = set (det_event_ids d)"
    "det_detection_id d' = (if det_detection_id d = []
       then det_detector_id d @ ''-'' @ take 12 (H (det_event_id d @ ''|'' @ det_title d))
       else det_detection_id d)"
    by (auto simp: detection_init_def make_detection_id_def split: if_splits)
  then show ?thesis
    using Inr detection_init_ok [OF Inr] detection_init_cases [OF Inr] by simp
qed

end
