(* ===== verification/Row_Store.thy ===== *)
theory Row_Store
  imports Prelude
begin

text \<open>
  The contracts that alerts, behavior groups and correlation findings share.
  \<^item> \<open>serial_rows\<close>: a table whose ids grow; the largest id gives a fresh number.
  \<^item> \<open>claimed_rows\<close>: rows that claim a fingerprint while they are live (the
    partial unique index of the code) and that change status through a transition
    function; a dead row never changes status again.
  \<^item> \<open>lifecycle\<close> and \<open>terminal_lifecycle\<close>: a table of transitions, with a
    status that nothing leaves.
  Every locale is interpreted by the component that implements it.
\<close>

section \<open>Rows with a serial id\<close>

locale serial_rows =
  fixes rid :: "'r \<Rightarrow> nat" and set_id :: "nat \<Rightarrow> 'r \<Rightarrow> 'r"
  assumes rid_set_id: "rid (set_id n r) = n"
begin

definition ids_ok :: "'r list \<Rightarrow> nat \<Rightarrow> bool" where
  "ids_ok rs seq \<longleftrightarrow> sorted_wrt (<) (map rid rs) \<and> (\<forall>r\<in>set rs. 0 < rid r \<and> rid r \<le> seq)"

lemma ids_ok_Nil: "ids_ok [] n"
  by (simp add: ids_ok_def)

lemma ids_ok_append: "ids_ok rs seq \<Longrightarrow> seq < n \<Longrightarrow> ids_ok (rs @ [set_id n r]) n"
  by (fastforce simp: ids_ok_def rid_set_id sorted_wrt_append)

lemma ids_ok_seq: "ids_ok rs seq \<Longrightarrow> seq \<le> n \<Longrightarrow> ids_ok rs n"
  by (fastforce simp: ids_ok_def)

lemma ids_ok_update: "(\<And>r. rid (f r) = rid r) \<Longrightarrow> ids_ok rs seq \<Longrightarrow> ids_ok (update_row rid i f rs) seq"
  by (auto simp: ids_ok_def rows set_update_row)

lemma ids_ok_map: "(\<And>r. rid (f r) = rid r) \<Longrightarrow> ids_ok rs seq \<Longrightarrow> ids_ok (map f rs) seq"
  by (auto simp: ids_ok_def comp_def)

lemma ids_ok_cong: "map rid rs = map rid qs \<Longrightarrow> ids_ok rs seq = ids_ok qs seq"
proof -
  assume m: "map rid rs = map rid qs"
  have "(\<forall>r\<in>set xs. 0 < rid r \<and> rid r \<le> seq) = (\<forall>i\<in>set (map rid xs). 0 < i \<and> i \<le> seq)" for xs
    by simp
  then show ?thesis unfolding ids_ok_def m by (simp only: m)
qed

lemma ids_distinct: "ids_ok rs seq \<Longrightarrow> distinct (map rid rs)"
  by (simp add: ids_ok_def strict_sorted_iff)

lemma same_row: "ids_ok rs seq \<Longrightarrow> a \<in> set rs \<Longrightarrow> b \<in> set rs \<Longrightarrow> rid a = rid b \<Longrightarrow> a = b"
  using distinct_map_inj [of rid rs a b] ids_distinct by blast

lemma last_id_le_seq: "ids_ok rs seq \<Longrightarrow> last_id rid rs \<le> seq"
  by (auto simp: ids_ok_def intro!: last_id_le)

end

section \<open>Lifecycles\<close>

locale lifecycle =
  fixes tr :: "string \<Rightarrow> string \<Rightarrow> string option" and statuses :: "string list"
  assumes tr_target: "tr s t = Some a \<Longrightarrow> t \<in> set statuses"
begin

fun walk :: "string \<Rightarrow> string list \<Rightarrow> string option" where
  "walk s [] = Some s"
| "walk s (t # ts) = (case tr s t of None \<Rightarrow> None | Some a \<Rightarrow> walk t ts)"

lemma walk_status: "s \<in> set statuses \<Longrightarrow> walk s ts = Some u \<Longrightarrow> u \<in> set statuses"
  by (induction ts arbitrary: s) (auto split: option.splits dest: tr_target)

lemma walk_append: "walk s (ts @ us) = Option.bind (walk s ts) (\<lambda>u. walk u us)"
  by (induction ts arbitrary: s) (auto split: option.splits)

end

locale terminal_lifecycle = lifecycle +
  fixes final :: string
  assumes tr_final: "tr final t = None"
begin

lemma walk_final: "walk final ts = Some u \<longleftrightarrow> ts = [] \<and> u = final"
  by (cases ts) (auto simp: tr_final)

lemma walk_through_final: "walk s (ts @ us) = Some u \<Longrightarrow> walk s ts = Some final \<Longrightarrow> us = [] \<and> u = final"
  by (simp add: walk_append walk_final)

end

section \<open>Rows that claim a fingerprint\<close>

locale claimed_rows = serial_rows rid set_id
  for rid :: "'r \<Rightarrow> nat" and set_id :: "nat \<Rightarrow> 'r \<Rightarrow> 'r" +
  fixes key :: "'r \<Rightarrow> string" and live :: "'r \<Rightarrow> bool"
    and move :: "'r \<Rightarrow> string \<Rightarrow> time \<Rightarrow> py_error + 'r"
  assumes key_set_id: "key (set_id n r) = key r"
    and live_set_id: "live (set_id n r) = live r"
    and move_id: "move r t now = Inr q \<Longrightarrow> rid q = rid r \<and> key q = key r"
    and move_dead: "\<not> live r \<Longrightarrow> \<exists>e. move r t now = Inl e"
begin

text \<open>At most one live row per fingerprint.\<close>

definition one_live :: "'r list \<Rightarrow> bool" where
  "one_live rs \<longleftrightarrow> (\<forall>a\<in>set rs. \<forall>b\<in>set rs. live a \<and> live b \<and> key a = key b \<longrightarrow> rid a = rid b)"

definition live_for :: "'r list \<Rightarrow> string \<Rightarrow> 'r option" where
  "live_for rs k = List.find (\<lambda>r. key r = k \<and> live r) rs"

text \<open>\<open>INSERT \<dots> ON CONFLICT (fingerprint) WHERE live DO NOTHING\<close>, with the
  number the sequence hands out.\<close>

definition claim :: "'r list \<Rightarrow> nat \<Rightarrow> 'r \<Rightarrow> 'r list" where
  "claim rs n r = (if \<exists>q\<in>set rs. live q \<and> key q = key r then rs else rs @ [set_id n r])"

lemma one_live_Nil: "one_live []"
  by (simp add: one_live_def)

lemma one_live_claim: "one_live rs \<Longrightarrow> live r \<Longrightarrow> one_live (claim rs n r)"
proof (cases "\<exists>q\<in>set rs. live q \<and> key q = key r")
  case False
  assume o: "one_live rs"
  have "rid a = rid b" if "a \<in> set rs \<or> a = set_id n r" "b \<in> set rs \<or> b = set_id n r"
      "live a" "live b" "key a = key b" for a b
    using that
  proof (elim disjE)
    assume "a \<in> set rs" "b \<in> set rs"
    with o that(3-5) show ?thesis unfolding one_live_def by blast
  qed (use False that(3-5) in \<open>simp_all add: key_set_id, metis+\<close>)
  then show ?thesis using False by (simp add: one_live_def claim_def)
qed (simp add: claim_def)

lemma one_live_update:
  assumes "one_live rs" and "\<And>r. rid (f r) = rid r \<and> key (f r) = key r \<and> (live (f r) \<longrightarrow> live r)"
  shows "one_live (map f rs)"
proof -
  have "rid (f a) = rid (f b)"
    if "a \<in> set rs" "b \<in> set rs" "live (f a)" "live (f b)" "key (f a) = key (f b)" for a b
  proof -
    have "live a" "live b" "key a = key b"
      using assms(2) [of a] assms(2) [of b] that(3-5) by auto
    with assms(1) that(1,2) have "rid a = rid b" unfolding one_live_def by blast
    then show ?thesis by (simp add: assms(2))
  qed
  then show ?thesis unfolding one_live_def set_map by blast
qed

lemma ids_ok_claim: "ids_ok rs seq \<Longrightarrow> ids_ok (claim rs (Suc seq) r) (Suc seq)"
  using ids_ok_append [of rs seq "Suc seq" r] ids_ok_seq [of rs seq "Suc seq"] by (simp add: claim_def)

lemma claim_has_live: "live r \<Longrightarrow> \<exists>q\<in>set (claim rs n r). live q \<and> key q = key r"
  by (auto simp: claim_def live_set_id key_set_id)

lemma live_for_unique:
  "ids_ok rs seq \<Longrightarrow> one_live rs \<Longrightarrow> r \<in> set rs \<Longrightarrow> live r \<Longrightarrow> live_for rs (key r) = Some r"
proof -
  assume a: "ids_ok rs seq" "one_live rs" "r \<in> set rs" "live r"
  then obtain q where q: "live_for rs (key r) = Some q"
    unfolding live_for_def by (metis (mono_tags, lifting) find_None_iff' not_Some_eq)
  then have "q \<in> set rs" "key q = key r" "live q"
    unfolding live_for_def by (auto dest: find_SomeD)
  with a(2,3,4) have "rid q = rid r" unfolding one_live_def by blast
  with a q \<open>q \<in> set rs\<close> show ?thesis using same_row by blast
qed

lemma live_for_None: "live_for rs k = None \<longleftrightarrow> (\<forall>r\<in>set rs. live r \<longrightarrow> key r \<noteq> k)"
  by (auto simp: live_for_def find_None_iff')

end

end
