(* ===== verification/Alert_Policy.thy ===== *)
theory Alert_Policy
  imports Detection Row_Store
begin

text \<open>
  Which detections become alerts (\<open>backend/alerting/eligibility.py\<close>) and how the
  status of an alert may change (\<open>backend/alerting/lifecycle.py\<close>).
\<close>

section \<open>Eligibility\<close>

record alert_policy =
  pol_policy_id :: string
  pol_detector_id :: string
  pol_min_severity :: string
  pol_min_confidence :: rat
  pol_reason :: string

definition ALERT_POLICIES :: "(string \<times> alert_policy) list" where
  "ALERT_POLICIES =
    [(''D001'', \<lparr>pol_policy_id = ''ALERT-POLICY-001'', pol_detector_id = ''D001'',
        pol_min_severity = ''high'', pol_min_confidence = 0,
        pol_reason = ''High-severity detection with sufficient confidence''\<rparr>),
     (''D005'', \<lparr>pol_policy_id = ''ALERT-POLICY-002'', pol_detector_id = ''D005'',
        pol_min_severity = ''medium'', pol_min_confidence = fl (5/10),
        pol_reason = ''Behavioral ransomware evidence warrants a lower alert threshold''\<rparr>),
     (''D002'', \<lparr>pol_policy_id = ''ALERT-POLICY-003'', pol_detector_id = ''D002'',
        pol_min_severity = ''medium'', pol_min_confidence = fl (6/10),
        pol_reason = ''Window-based credential attack evidence meets alert threshold''\<rparr>),
     (''D003'', \<lparr>pol_policy_id = ''ALERT-POLICY-004'', pol_detector_id = ''D003'',
        pol_min_severity = ''high'', pol_min_confidence = 0,
        pol_reason = ''Stricter alert threshold for PowerShell behavior''\<rparr>),
     (''D004'', \<lparr>pol_policy_id = ''ALERT-POLICY-005'', pol_detector_id = ''D004'',
        pol_min_severity = ''medium'', pol_min_confidence = fl (7/10),
        pol_reason = ''Stricter alert threshold for python-on-writable-path''\<rparr>)]"

definition DEFAULT_POLICY :: alert_policy where
  "DEFAULT_POLICY = \<lparr>pol_policy_id = ''ALERT-POLICY-000'', pol_detector_id = ''*'',
     pol_min_severity = ''high'', pol_min_confidence = fl (8/10),
     pol_reason = ''Unknown detector - fail closed to a strict alert threshold''\<rparr>"

definition policy_for :: "string \<Rightarrow> alert_policy" where
  "policy_for d = (case map_of ALERT_POLICIES d of None \<Rightarrow> DEFAULT_POLICY | Some p \<Rightarrow> p)"

record eligibility_result =
  el_eligible :: bool
  el_reason :: string
  el_policy_id :: string

text \<open>The format \<open>.kf\<close> of a non-negative float.\<close>

definition fmt_fixed :: "nat \<Rightarrow> rat \<Rightarrow> string" where
  "fmt_fixed k x = (let n = nat (rhe (x * 10 ^ k)); f = dec (n mod 10 ^ k) in
     dec (n div 10 ^ k) @ ''.'' @ replicate (k - length f) (CHR ''0'') @ f)"

definition below_reason :: "detection \<Rightarrow> alert_policy \<Rightarrow> string" where
  "below_reason d p =
     ''Below alert threshold for '' @ pol_policy_id p @ '' (severity '' @ det_severity d @ ''/''
     @ pol_min_severity p @ '', confidence '' @ fmt_fixed 3 (det_confidence d) @ ''/''
     @ fmt_fixed 1 (pol_min_confidence p) @ '')''"

definition evaluate_detection :: "detection \<Rightarrow> eligibility_result" where
  "evaluate_detection d = (let p = policy_for (det_detector_id d) in
     if severity_rank (pol_min_severity p) \<le> severity_rank (det_severity d)
        \<and> pol_min_confidence p \<le> det_confidence d
     then \<lparr>el_eligible = True, el_reason = pol_reason p, el_policy_id = pol_policy_id p\<rparr>
     else \<lparr>el_eligible = False, el_reason = below_reason d p, el_policy_id = pol_policy_id p\<rparr>)"

lemma eligible_iff:
  "el_eligible (evaluate_detection d) \<longleftrightarrow>
     severity_rank (pol_min_severity (policy_for (det_detector_id d))) \<le> severity_rank (det_severity d)
     \<and> pol_min_confidence (policy_for (det_detector_id d)) \<le> det_confidence d"
  by (simp add: evaluate_detection_def Let_def)

lemma policy_for_simps [cfg]:
  "policy_for ''D001'' = the (map_of ALERT_POLICIES ''D001'')"
  "policy_for ''D002'' = the (map_of ALERT_POLICIES ''D002'')"
  "policy_for ''D003'' = the (map_of ALERT_POLICIES ''D003'')"
  "policy_for ''D004'' = the (map_of ALERT_POLICIES ''D004'')"
  "policy_for ''D005'' = the (map_of ALERT_POLICIES ''D005'')"
  by (simp_all add: policy_for_def ALERT_POLICIES_def)

lemma policy_for_unknown [cfg]:
  "d \<notin> {''D001'', ''D002'', ''D003'', ''D004'', ''D005''} \<Longrightarrow> policy_for d = DEFAULT_POLICY"
  by (simp add: policy_for_def ALERT_POLICIES_def)

text \<open>No policy admits a low-severity detection, and a detector without a policy of
  its own must reach high severity and the float 0.8.\<close>

theorem eligibility_fails_closed:
  "el_eligible (evaluate_detection d) \<Longrightarrow>
     det_severity d \<in> {''medium'', ''high'', ''critical''}
     \<and> (det_detector_id d \<notin> {''D001'', ''D002'', ''D003'', ''D004'', ''D005''} \<longrightarrow>
          det_severity d \<in> {''high'', ''critical''} \<and> fl (8/10) \<le> det_confidence d)"
proof -
  assume e: "el_eligible (evaluate_detection d)"
  have r: "0 < severity_rank s \<Longrightarrow> s \<in> {''medium'', ''high'', ''critical''}" 
    "2 \<le> severity_rank s \<Longrightarrow> s \<in> {''high'', ''critical''}" for s
    by (auto simp: severity_rank_def split: if_splits)
  show ?thesis
  proof (cases "det_detector_id d \<in> {''D001'', ''D002'', ''D003'', ''D004'', ''D005''}")
    case True
    then have "0 < severity_rank (pol_min_severity (policy_for (det_detector_id d)))"
      by (auto simp: cfg ALERT_POLICIES_def)
    with e have "0 < severity_rank (det_severity d)" by (simp add: eligible_iff)
    with True r show ?thesis by blast
  next
    case False
    with e have "2 \<le> severity_rank (det_severity d)" "fl (8/10) \<le> det_confidence d"
      by (simp_all add: eligible_iff cfg DEFAULT_POLICY_def)
    moreover from this have "0 < severity_rank (det_severity d)" by simp
    ultimately show ?thesis using r by blast
  qed
qed

theorem eligibility_fails_closed_witness:
  "\<exists>d. el_eligible (evaluate_detection d) \<and> det_detector_id d = ''D999''
       \<and> det_severity d = ''high'' \<and> fl (8/10) \<le> det_confidence d"
proof -
  let ?d = "blank_detection\<lparr>det_detector_id := ''D999'', det_severity := ''high'',
     det_confidence := fl (8/10)\<rparr>"
  have e: "el_eligible (evaluate_detection ?d)"
    by (simp add: eligible_iff cfg DEFAULT_POLICY_def)
  show ?thesis
    using e eligibility_fails_closed [OF e] by (intro exI [of _ ?d]) simp
qed

text \<open>Raising the severity or the confidence of a detection never costs it its
  eligibility.\<close>

theorem eligibility_monotone:
  "det_detector_id d = det_detector_id e \<Longrightarrow> severity_rank (det_severity d) \<le> severity_rank (det_severity e)
   \<Longrightarrow> det_confidence d \<le> det_confidence e \<Longrightarrow> el_eligible (evaluate_detection d)
   \<Longrightarrow> el_eligible (evaluate_detection e)"
  by (simp add: eligible_iff)

theorem eligibility_monotone_witness:
  "let d = blank_detection\<lparr>det_detector_id := ''D001'', det_severity := ''high''\<rparr>;
       e = d\<lparr>det_severity := ''critical'', det_confidence := 1\<rparr>
   in el_eligible (evaluate_detection d) \<and> el_eligible (evaluate_detection e)"
proof -
  let ?d = "blank_detection\<lparr>det_detector_id := ''D001'', det_severity := ''high''\<rparr>"
  have d: "el_eligible (evaluate_detection ?d)"
    by (simp add: eligible_iff cfg ALERT_POLICIES_def blank_detection_def fl_nonneg)
  have "el_eligible (evaluate_detection (?d\<lparr>det_severity := ''critical'', det_confidence := 1\<rparr>))"
    by (rule eligibility_monotone [of ?d]) (use d in \<open>simp_all add: blank_detection_def fl_le_1\<close>)
  with d show ?thesis by (simp add: Let_def)
qed

section \<open>Lifecycle\<close>

definition ALERT_STATUSES :: "string list" where
  "ALERT_STATUSES =
     [''OPEN'', ''ACKNOWLEDGED'', ''IN_PROGRESS'', ''RESOLVED'', ''CLOSED'', ''SUPPRESSED'']"

definition ALERT_TRANSITIONS :: "(string \<times> string list) list" where
  "ALERT_TRANSITIONS =
    [(''OPEN'', [''ACKNOWLEDGED'', ''IN_PROGRESS'', ''RESOLVED'', ''SUPPRESSED'']),
     (''ACKNOWLEDGED'', [''IN_PROGRESS'', ''RESOLVED'', ''SUPPRESSED'']),
     (''IN_PROGRESS'', [''RESOLVED'', ''SUPPRESSED'']),
     (''RESOLVED'', [''CLOSED'', ''OPEN'']),
     (''CLOSED'', [''OPEN'']),
     (''SUPPRESSED'', [''OPEN''])]"

record alert_transition =
  at_action :: string
  at_previous :: string
  at_new :: string

definition can_alert_transition :: "string \<Rightarrow> string \<Rightarrow> bool" where
  "can_alert_transition current target \<longleftrightarrow>
     (case map_of ALERT_TRANSITIONS current of None \<Rightarrow> False | Some ts \<Rightarrow> target \<in> set ts)"

definition alert_transition_to :: "string \<Rightarrow> string \<Rightarrow> bool \<Rightarrow> py_error + alert_transition" where
  "alert_transition_to current target reopen =
     (if current \<notin> set ALERT_STATUSES then Inl (IllegalTransition current target)
      else if \<not> can_alert_transition current target then Inl (IllegalTransition current target)
      else if target = ''OPEN'' \<and> current \<in> {''RESOLVED'', ''CLOSED'', ''SUPPRESSED''}
      then (if \<not> reopen then Inl (IllegalTransition current target)
            else Inr \<lparr>at_action = ''REOPENED'', at_previous = current, at_new = target\<rparr>)
      else Inr \<lparr>at_action = target, at_previous = current, at_new = target\<rparr>)"

definition alert_step :: "string \<Rightarrow> string \<Rightarrow> string option" where
  "alert_step s t = (case alert_transition_to s t True of Inl _ \<Rightarrow> None | Inr x \<Rightarrow> Some (at_action x))"

lemma map_of_SomeD_keys: "map_of xs k = Some v \<Longrightarrow> (k, v) \<in> set xs"
  by (rule map_of_SomeD)

lemma can_alert_transition_cases:
  "can_alert_transition s t \<Longrightarrow> (s, t) \<in>
     {(''OPEN'', ''ACKNOWLEDGED''), (''OPEN'', ''IN_PROGRESS''), (''OPEN'', ''RESOLVED''),
      (''OPEN'', ''SUPPRESSED''), (''ACKNOWLEDGED'', ''IN_PROGRESS''),
      (''ACKNOWLEDGED'', ''RESOLVED''), (''ACKNOWLEDGED'', ''SUPPRESSED''),
      (''IN_PROGRESS'', ''RESOLVED''), (''IN_PROGRESS'', ''SUPPRESSED''),
      (''RESOLVED'', ''CLOSED''), (''RESOLVED'', ''OPEN''), (''CLOSED'', ''OPEN''),
      (''SUPPRESSED'', ''OPEN'')}"
  by (auto simp: can_alert_transition_def ALERT_TRANSITIONS_def split: if_splits)

lemma can_alert_transition_status:
  "can_alert_transition s t \<Longrightarrow> s \<in> set ALERT_STATUSES \<and> t \<in> set ALERT_STATUSES"
  by (drule can_alert_transition_cases) (auto simp: ALERT_STATUSES_def)

interpretation alc: lifecycle alert_step ALERT_STATUSES
  by unfold_locales
    (auto simp: alert_step_def alert_transition_to_def dest: can_alert_transition_status split: if_splits)

text \<open>An alert transition succeeds exactly along the table, and into OPEN only with
  the explicit reopen flag, where it is recorded as REOPENED; on success the previous
  status is the current one and the new status is an alert status; every other request
  raises.\<close>

theorem alert_transition_spec:
  "case alert_transition_to s t reopen of
     Inl e \<Rightarrow> e = IllegalTransition s t \<and> \<not> (can_alert_transition s t \<and> \<not> (t = ''OPEN'' \<and> \<not> reopen))
   | Inr x \<Rightarrow> can_alert_transition s t \<and> \<not> (t = ''OPEN'' \<and> \<not> reopen)
       \<and> at_previous x = s \<and> at_new x = t \<and> t \<in> set ALERT_STATUSES
       \<and> at_action x = (if t = ''OPEN'' then ''REOPENED'' else t)"
proof -
  have "can_alert_transition s ''OPEN'' \<Longrightarrow> s \<in> {''RESOLVED'', ''CLOSED'', ''SUPPRESSED''}"
    by (drule can_alert_transition_cases) auto
  then show ?thesis
    using can_alert_transition_status [of s t]
    by (auto simp: alert_transition_to_def)
qed

text \<open>The table, read as steps; both directions between OPEN and any other status.\<close>

lemma walk_to_open:
  "alc.walk ''OPEN'' [] = Some ''OPEN''"
  "alc.walk ''ACKNOWLEDGED'' [''RESOLVED'', ''OPEN''] = Some ''OPEN''"
  "alc.walk ''IN_PROGRESS'' [''RESOLVED'', ''OPEN''] = Some ''OPEN''"
  "alc.walk ''RESOLVED'' [''OPEN''] = Some ''OPEN''"
  "alc.walk ''CLOSED'' [''OPEN''] = Some ''OPEN''"
  "alc.walk ''SUPPRESSED'' [''OPEN''] = Some ''OPEN''"
  by (simp_all add: alert_step_def alert_transition_to_def can_alert_transition_def
      ALERT_TRANSITIONS_def ALERT_STATUSES_def)

lemma walk_from_open:
  "alc.walk ''OPEN'' [''ACKNOWLEDGED''] = Some ''ACKNOWLEDGED''"
  "alc.walk ''OPEN'' [''IN_PROGRESS''] = Some ''IN_PROGRESS''"
  "alc.walk ''OPEN'' [''RESOLVED''] = Some ''RESOLVED''"
  "alc.walk ''OPEN'' [''RESOLVED'', ''CLOSED''] = Some ''CLOSED''"
  "alc.walk ''OPEN'' [''SUPPRESSED''] = Some ''SUPPRESSED''"
  by (simp_all add: alert_step_def alert_transition_to_def can_alert_transition_def
      ALERT_TRANSITIONS_def ALERT_STATUSES_def)

lemma reaches_open: "s \<in> set ALERT_STATUSES \<Longrightarrow> \<exists>ts. alc.walk s ts = Some ''OPEN''"
  unfolding ALERT_STATUSES_def using walk_to_open by (simp, elim disjE) (metis)+

lemma reached_from_open: "s \<in> set ALERT_STATUSES \<Longrightarrow> \<exists>ts. alc.walk ''OPEN'' ts = Some s"
  unfolding ALERT_STATUSES_def using walk_from_open walk_to_open(1) by (simp, elim disjE) (metis)+

text \<open>No alert status is a dead end: every status can reach every other one by
  legal steps.\<close>

theorem alert_lifecycle_connected:
  "\<forall>s u. s \<in> set ALERT_STATUSES \<longrightarrow> u \<in> set ALERT_STATUSES \<longrightarrow> (\<exists>ts. alc.walk s ts = Some u)"
proof (intro allI impI)
  fix s u
  assume "s \<in> set ALERT_STATUSES" "u \<in> set ALERT_STATUSES"
  then obtain ts us where "alc.walk s ts = Some ''OPEN''" "alc.walk ''OPEN'' us = Some u"
    using reaches_open reached_from_open by blast
  then have "alc.walk s (ts @ us) = Some u" by (simp add: alc.walk_append)
  then show "\<exists>ts. alc.walk s ts = Some u" by blast
qed

theorem alert_lifecycle_connected_witness:
  "\<exists>ts. alc.walk ''CLOSED'' ts = Some ''IN_PROGRESS''"
proof -
  have "''CLOSED'' \<in> set ALERT_STATUSES" "''IN_PROGRESS'' \<in> set ALERT_STATUSES"
    by (simp_all add: ALERT_STATUSES_def)
  then show ?thesis using alert_lifecycle_connected by blast
qed

end
