(* ===== verification/Py_Ip.thy ===== *)
theory Py_Ip
  imports Py_String
begin

text \<open>
  The part of the standard module \<open>ipaddress\<close> that the suppression rules and the
  evidence helpers use: \<open>ip_address\<close>, \<open>ip_network(\<dots>, strict=False)\<close> and
  membership of an address in a network.  An address is its version and its value; a
  \<open>ValueError\<close> is None.
\<close>

fun split_on :: "char \<Rightarrow> string \<Rightarrow> string list" where
  "split_on c [] = [[]]"
| "split_on c (x # xs) =
     (if x = c then [] # split_on c xs
      else (case split_on c xs of [] \<Rightarrow> [[x]] | p # ps \<Rightarrow> (x # p) # ps))"

definition is_digit :: "char \<Rightarrow> bool" where
  "is_digit c = (let n = (of_char c :: nat) in 48 \<le> n \<and> n \<le> 57)"

definition hex_val :: "char \<Rightarrow> nat option" where
  "hex_val c = (let n = (of_char c :: nat) in
     if 48 \<le> n \<and> n \<le> 57 then Some (n - 48)
     else if 65 \<le> n \<and> n \<le> 70 then Some (n - 55)
     else if 97 \<le> n \<and> n \<le> 102 then Some (n - 87) else None)"

section \<open>IPv4\<close>

definition parse_octet :: "string \<Rightarrow> nat option" where
  "parse_octet s =
     (if s = [] \<or> \<not> list_all is_digit s \<or> 3 < length s \<or> (s \<noteq> ''0'' \<and> hd s = CHR ''0'')
        \<or> 255 < dec_val s then None else Some (dec_val s))"

fun those_list :: "'a option list \<Rightarrow> 'a list option" where
  "those_list [] = Some []"
| "those_list (None # xs) = None"
| "those_list (Some x # xs) = map_option ((#) x) (those_list xs)"

definition parse_ipv4 :: "string \<Rightarrow> nat option" where
  "parse_ipv4 s = (let ps = split_on (CHR ''.'') s in
     if length ps \<noteq> 4 then None
     else map_option (foldl (\<lambda>v o'. 256 * v + o') 0) (those_list (map parse_octet ps)))"

section \<open>IPv6\<close>

definition parse_hextet :: "string \<Rightarrow> nat option" where
  "parse_hextet s =
     (if 4 < length s then None
      else map_option (foldl (\<lambda>v d. 16 * v + d) 0) (those_list (map hex_val s)))"

text \<open>The positions \<open>1 \<dots> n - 2\<close> of empty parts: at most one may exist, it is the
  \<open>::\<close>.\<close>

definition inner_gaps :: "string list \<Rightarrow> nat list" where
  "inner_gaps ps = filter (\<lambda>i. ps ! i = []) [1..<length ps - 1]"

definition hextets :: "string list \<Rightarrow> nat list option" where
  "hextets ps = those_list (map parse_hextet ps)"

definition parse_ipv6_parts :: "string list \<Rightarrow> nat list option" where
  "parse_ipv6_parts ps =
     (if length ps < 3 \<or> 9 < length ps then None
      else (case inner_gaps ps of
          [] \<Rightarrow> if length ps \<noteq> 8 \<or> hd ps = [] \<or> last ps = [] then None else hextets ps
        | [i] \<Rightarrow>
           (let hi0 = i; lo0 = length ps - i - 1;
                hi = (if hd ps = [] then hi0 - 1 else hi0);
                lo = (if last ps = [] then lo0 - 1 else lo0) in
            if hd ps = [] \<and> hi \<noteq> 0 \<or> last ps = [] \<and> lo \<noteq> 0 \<or> 8 < hi + lo + 1 then None
            else (case (hextets (take hi ps), hextets (drop (length ps - lo) ps)) of
                (Some h, Some l) \<Rightarrow> Some (h @ replicate (8 - (hi + lo)) 0 @ l)
              | _ \<Rightarrow> None))
        | _ \<Rightarrow> None))"

definition parse_ipv6_int :: "string \<Rightarrow> nat option" where
  "parse_ipv6_int s = (let ps = split_on (CHR '':'') s in
     if length ps < 3 then None
     else if CHR ''.'' \<in> set (last ps)
     then (case parse_ipv4 (last ps) of
         None \<Rightarrow> None
       | Some v \<Rightarrow>
          (case parse_ipv6_parts (butlast ps @ [''0'', ''0'']) of
             None \<Rightarrow> None
           | Some hs \<Rightarrow> Some (foldl (\<lambda>a h. 65536 * a + h) 0 hs + v)))
     else map_option (foldl (\<lambda>a h. 65536 * a + h) 0) (parse_ipv6_parts ps))"

text \<open>A scope identifier after \<open>%\<close> must be non-empty and hold no second \<open>%\<close>;
  it does not take part in membership tests.\<close>

definition parse_ipv6 :: "string \<Rightarrow> nat option" where
  "parse_ipv6 s = (case partition_at (CHR ''%'') s of
       (a, None) \<Rightarrow> parse_ipv6_int a
     | (a, Some z) \<Rightarrow> if z = [] \<or> CHR ''%'' \<in> set z then None else parse_ipv6_int a)"

section \<open>Addresses and networks\<close>

datatype ip = V4 nat | V6 nat

definition ip_address :: "string \<Rightarrow> ip option" where
  "ip_address s = (case parse_ipv4 s of
       Some n \<Rightarrow> Some (V4 n)
     | None \<Rightarrow> if CHR ''/'' \<in> set s then None else map_option V6 (parse_ipv6 s))"

definition parse_prefix :: "nat \<Rightarrow> string \<Rightarrow> nat option" where
  "parse_prefix w s =
     (if s = [] \<or> \<not> list_all is_digit s \<or> w < dec_val s then None else Some (dec_val s))"

text \<open>The prefix length of a contiguous mask.\<close>

definition mask_prefix :: "nat \<Rightarrow> nat option" where
  "mask_prefix m = List.find (\<lambda>p. m = (2 ^ p - 1) * 2 ^ (32 - p)) [0..<33]"

definition parse_netmask4 :: "string \<Rightarrow> nat option" where
  "parse_netmask4 s = (case parse_prefix 32 s of
       Some p \<Rightarrow> Some p
     | None \<Rightarrow> (case parse_ipv4 s of
         None \<Rightarrow> None
       | Some m \<Rightarrow> (case mask_prefix m of
            Some p \<Rightarrow> Some p
          | None \<Rightarrow> mask_prefix (2 ^ 32 - 1 - m))))"

datatype ip_net = Net4 nat nat | Net6 nat nat

definition ip_network :: "string \<Rightarrow> ip_net option" where
  "ip_network s = (let ps = split_on (CHR ''/'') s in
     if 2 < length ps then None
     else let a = hd ps;
              m4 = (if length ps = 2 then parse_netmask4 (last ps) else Some 32);
              m6 = (if length ps = 2 then parse_prefix 128 (last ps) else Some 128) in
       (case (parse_ipv4 a, m4) of
          (Some n, Some p) \<Rightarrow> Some (Net4 n p)
        | _ \<Rightarrow> (case (parse_ipv6 a, m6) of
             (Some n, Some p) \<Rightarrow> Some (Net6 n p)
           | _ \<Rightarrow> None)))"

text \<open>Membership compares the first \<open>p\<close> bits; the versions must agree.\<close>

fun ip_in :: "ip \<Rightarrow> ip_net \<Rightarrow> bool" where
  "ip_in (V4 a) (Net4 n p) = (a div 2 ^ (32 - p) = n div 2 ^ (32 - p))"
| "ip_in (V6 a) (Net6 n p) = (a div 2 ^ (128 - p) = n div 2 ^ (128 - p))"
| "ip_in _ _ = False"

end
