(* ===== verification/Alert_Store.thy ===== *)
theory Alert_Store
  imports Alert_Policy Py_Ip
begin

text \<open>
  The five alert tables (\<open>backend/alerting/models.py\<close>), the deterministic
  fingerprint (\<open>fingerprint.py\<close>) and controlled suppression
  (\<open>suppression.py\<close>).  A nullable JSON column that the code always reads as
  \<open>x or []\<close> is a list.  The \<open>created_at\<close> stamps that the database layer
  fills in by default are left out of the child tables.
\<close>

section \<open>Tables\<close>

record alert =
  al_id :: nat
  al_alert_id :: string
  al_fingerprint :: string
  al_detector_id :: string
  al_detector_version :: string
  al_title :: string
  al_description :: string
  al_severity :: string
  al_confidence :: rat
  al_status :: string
  al_first_seen :: time
  al_last_seen :: time
  al_occurrence_count :: nat
  al_host_id :: string
  al_host_name :: string
  al_user_id :: string
  al_username :: string
  al_source_ip :: string
  al_destination_ip :: string
  al_mitre_tactic :: string
  al_mitre_technique :: string
  al_evidence :: "evidence list"
  al_observables :: "observable list"
  al_detection_ids :: "string list"
  al_created_at :: time
  al_updated_at :: time
  al_assigned_to :: "string option"
  al_assigned_at :: "time option"
  al_acknowledged_at :: "time option"
  al_acknowledged_by :: "string option"
  al_resolved_at :: "time option"
  al_feedback :: "string option"

record occurrence =
  oc_alert_id :: string
  oc_detection_id :: string
  oc_event_ids :: "string list"
  oc_timestamp :: time
  oc_evidence :: "evidence list"

record alert_feedback =
  fb_alert_id :: string
  fb_feedback_type :: string
  fb_analyst_id :: string
  fb_comment :: string

record alert_audit =
  aa_alert_id :: string
  aa_action :: string
  aa_previous_status :: string
  aa_new_status :: string
  aa_actor :: string
  aa_details :: "(string \<times> pyval) list"

record suppression_rule =
  sr_id :: nat
  sr_policy_id :: string
  sr_reason :: string
  sr_created_by :: string
  sr_expires_at :: time
  sr_scope :: "(string \<times> string) list"
  sr_suppressed_count :: nat

record alert_db =
  adb_alerts :: "alert list"
  adb_seq :: nat
  adb_occurrences :: "occurrence list"
  adb_feedback :: "alert_feedback list"
  adb_audit :: "alert_audit list"
  adb_rules :: "suppression_rule list"
  adb_rule_seq :: nat

definition empty_alert_db :: alert_db where
  "empty_alert_db = \<lparr>adb_alerts = [], adb_seq = 0, adb_occurrences = [], adb_feedback = [],
     adb_audit = [], adb_rules = [], adb_rule_seq = 0\<rparr>"

text \<open>\<open>audit.record\<close>.\<close>

definition alert_audit_record ::
  "string \<Rightarrow> string \<Rightarrow> string \<Rightarrow> string \<Rightarrow> string \<Rightarrow> (string \<times> pyval) list \<Rightarrow> alert_db \<Rightarrow> alert_db" where
  "alert_audit_record aid action prev new actor details db =
     db\<lparr>adb_audit := adb_audit db @ [\<lparr>aa_alert_id = aid, aa_action = action,
        aa_previous_status = prev, aa_new_status = new, aa_actor = actor, aa_details = details\<rparr>]\<rparr>"

lemma alert_audit_record_frame [simp]:
  "adb_alerts (alert_audit_record a b c d e f db) = adb_alerts db"
  "adb_seq (alert_audit_record a b c d e f db) = adb_seq db"
  "adb_occurrences (alert_audit_record a b c d e f db) = adb_occurrences db"
  "adb_feedback (alert_audit_record a b c d e f db) = adb_feedback db"
  "adb_rules (alert_audit_record a b c d e f db) = adb_rules db"
  "adb_rule_seq (alert_audit_record a b c d e f db) = adb_rule_seq db"
  by (simp_all add: alert_audit_record_def)

lemma alert_audit_record_audit:
  "adb_audit (alert_audit_record a b c d e f db) =
   adb_audit db @ [\<lparr>aa_alert_id = a, aa_action = b, aa_previous_status = c, aa_new_status = d,
     aa_actor = e, aa_details = f\<rparr>]"
  by (simp add: alert_audit_record_def)

section \<open>Fingerprint\<close>

text \<open>The payload in the order of its sorted keys.\<close>

definition alert_payload :: "detection \<Rightarrow> string" where
  "alert_payload d = json_obj
     [(''detector_id'', json_str (det_detector_id d)),
      (''host_id'', json_str (str_or (det_host_id d) (det_host_name d))),
      (''mitre_technique'', json_str (det_mitre_technique d)),
      (''source_ip'', json_str (det_source_ip d)),
      (''user_id'', json_str (str_or (det_user_id d) (det_username d)))]"

definition alert_fingerprint :: "(string \<Rightarrow> string) \<Rightarrow> detection \<Rightarrow> string" where
  "alert_fingerprint H d = H (alert_payload d)"

text \<open>The identity the fingerprint stands for.\<close>

definition alert_identity :: "detection \<Rightarrow> string \<times> string \<times> string \<times> string \<times> string" where
  "alert_identity d = (det_detector_id d, str_or (det_host_id d) (det_host_name d),
     str_or (det_user_id d) (det_username d), det_source_ip d, det_mitre_technique d)"

lemma alert_payload_inj: "alert_payload d = alert_payload e \<longleftrightarrow> alert_identity d = alert_identity e"
  by (auto simp: alert_payload_def json_obj_def alert_identity_def json_str_inj)

text \<open>Two detections have the same fingerprint exactly when they agree on detector,
  host, user, source and technique, provided the digest does not collide on the two
  serialised identities.\<close>

theorem alert_fingerprint_identity:
  assumes "H (alert_payload d) = H (alert_payload e) \<Longrightarrow> alert_payload d = alert_payload e"
  shows "alert_fingerprint H d = alert_fingerprint H e \<longleftrightarrow> alert_identity d = alert_identity e"
  unfolding alert_fingerprint_def alert_payload_inj [symmetric] using assms by metis

theorem alert_fingerprint_identity_witness:
  "let d = blank_detection\<lparr>det_detector_id := ''D001'', det_host_name := ''h1''\<rparr>;
       e = blank_detection\<lparr>det_detector_id := ''D001'', det_host_id := ''h1''\<rparr>
   in alert_fingerprint id d = alert_fingerprint id e"
proof -
  let ?d = "blank_detection\<lparr>det_detector_id := ''D001'', det_host_name := ''h1''\<rparr>"
  let ?e = "blank_detection\<lparr>det_detector_id := ''D001'', det_host_id := ''h1''\<rparr>"
  have "alert_identity ?d = alert_identity ?e"
    by (simp add: alert_identity_def blank_detection_def)
  then show ?thesis
    unfolding Let_def by (subst alert_fingerprint_identity) simp_all
qed

section \<open>Suppression\<close>

definition sup_match :: "string \<Rightarrow> string \<Rightarrow> bool" where
  "sup_match value pattern = (if pattern = ''*'' \<or> pattern = [] then True else value = pattern)"

definition sup_match_ip :: "string \<Rightarrow> string \<Rightarrow> bool" where
  "sup_match_ip value pattern =
     (if value = [] \<or> pattern = ''*'' \<or> pattern = [] then True
      else (case (ip_address (hd (split_on (CHR ''/'') value)), ip_network pattern) of
          (Some a, Some n) \<Rightarrow> ip_in a n
        | _ \<Rightarrow> value = pattern))"

text \<open>\<open>scope.get(k)\<close>: a missing key and an empty value are both false.\<close>

definition scope_get :: "(string \<times> string) list \<Rightarrow> string \<Rightarrow> string" where
  "scope_get sc k = (case map_of sc k of None \<Rightarrow> [] | Some v \<Rightarrow> v)"

definition sup_matches :: "suppression_rule \<Rightarrow> detection \<Rightarrow> bool" where
  "sup_matches rule d = (let scope = sr_scope rule in
     if scope_get scope ''detector_id'' \<noteq> []
        \<and> \<not> sup_match (det_detector_id d) (scope_get scope ''detector_id'') then False
     else if scope_get scope ''host'' \<noteq> []
        \<and> \<not> sup_match (det_host_name d) (scope_get scope ''host'') then False
     else if scope_get scope ''user'' \<noteq> []
        \<and> \<not> sup_match (str_or (det_username d) (det_user_id d)) (scope_get scope ''user'') then False
     else \<not> (scope_get scope ''source_ip'' \<noteq> []
        \<and> \<not> sup_match_ip (det_source_ip d) (scope_get scope ''source_ip'')))"

text \<open>The order of the rules is the order in which the query returns them.\<close>

definition is_suppressed :: "alert_db \<Rightarrow> detection \<Rightarrow> time \<Rightarrow> suppression_rule option" where
  "is_suppressed db d now =
     List.find (\<lambda>r. sup_matches r d) (filter (\<lambda>r. now < sr_expires_at r) (adb_rules db))"

definition create_rule ::
  "engine_config \<Rightarrow> alert_db \<Rightarrow> string \<Rightarrow> string \<Rightarrow> time \<Rightarrow> (string \<times> string) list \<Rightarrow> string \<Rightarrow> time
   \<Rightarrow> py_error + (alert_db \<times> suppression_rule)" where
  "create_rule cfg db policy_id reason expires_at scope created_by now =
     (if py_strip reason = [] then Inl (ValueError ''a suppression rule needs a documented reason'')
      else if expires_at \<le> now then Inl (ValueError ''a suppression rule must expire in the future'')
      else if now + days (cfg_suppression_max_days cfg) < expires_at
      then Inl (ValueError ''a suppression rule cannot exceed the maximum lifetime'')
      else if \<exists>r\<in>set (adb_rules db). sr_policy_id r = policy_id
      then Inl (IntegrityError ''policy_id'')
      else let rule = \<lparr>sr_id = Suc (adb_rule_seq db), sr_policy_id = policy_id,
             sr_reason = py_strip reason, sr_created_by = created_by,
             sr_expires_at = expires_at, sr_scope = scope, sr_suppressed_count = 0\<rparr>
           in Inr (db\<lparr>adb_rules := adb_rules db @ [rule], adb_rule_seq := Suc (adb_rule_seq db)\<rparr>, rule))"

lemma is_suppressed_Some:
  "is_suppressed db d now = Some r \<Longrightarrow> r \<in> set (adb_rules db) \<and> now < sr_expires_at r \<and> sup_matches r d"
  by (auto simp: is_suppressed_def dest: find_SomeD)

lemma is_suppressed_None:
  "is_suppressed db d now = None \<longleftrightarrow> (\<forall>r\<in>set (adb_rules db). now < sr_expires_at r \<longrightarrow> \<not> sup_matches r d)"
  by (auto simp: is_suppressed_def find_None_iff')

text \<open>A rule that was accepted carries a reason, starts to act at once, and cannot
  act for longer than the configured number of days: from its expiry on, no detection is
  suppressed by it.\<close>

theorem create_rule_bounded:
  assumes "create_rule cfg db policy_id reason expires_at scope created_by now = Inr (db', rule)"
  shows "sr_reason rule \<noteq> [] \<and> now < sr_expires_at rule
     \<and> sr_expires_at rule \<le> now + days (cfg_suppression_max_days cfg)
     \<and> adb_rules db' = adb_rules db @ [rule]
     \<and> (\<forall>d later. now + days (cfg_suppression_max_days cfg) \<le> later \<longrightarrow>
            is_suppressed db' d later \<noteq> Some rule)"
proof -
  have r: "sr_reason rule = py_strip reason" "sr_expires_at rule = expires_at"
    "adb_rules db' = adb_rules db @ [rule]"
    and c: "py_strip reason \<noteq> []" "now < expires_at" "expires_at \<le> now + days (cfg_suppression_max_days cfg)"
    using assms by (auto simp: create_rule_def Let_def split: if_splits)
  have "is_suppressed db' d later \<noteq> Some rule"
    if "now + days (cfg_suppression_max_days cfg) \<le> later" for d later
    using is_suppressed_Some [of db' d later rule] that r(2) c(3) by auto
  with r c show ?thesis by simp
qed

theorem create_rule_bounded_witness:
  "\<exists>db' rule. create_rule dev_config empty_alert_db ''SUP-1'' ''planned maintenance'' (days 2) [(''host'', ''h1'')] ''analyst'' 0
       = Inr (db', rule)
     \<and> sr_reason rule \<noteq> [] \<and> sr_expires_at rule \<le> days 90"
proof -
  obtain db' rule where r: "create_rule dev_config empty_alert_db ''SUP-1'' ''planned maintenance'' (days 2)
      [(''host'', ''h1'')] ''analyst'' 0 = Inr (db', rule)"
    by (simp add: create_rule_def empty_alert_db_def days_def py_strip_def is_space_def dev_config_def Let_def)
  show ?thesis using r create_rule_bounded [OF r] by (auto simp: dev_config_def)
qed

text \<open>A rule whose scope names nothing but a source address suppresses every
  detection that has no source address at all, whatever its detector, host or user.\<close>

theorem source_scope_covers_sourceless:
  "(\<forall>k. k \<noteq> ''source_ip'' \<longrightarrow> scope_get (sr_scope rule) k = []) \<Longrightarrow> det_source_ip d = [] \<Longrightarrow> sup_matches rule d"
  by (simp add: sup_matches_def sup_match_ip_def)

theorem source_scope_covers_sourceless_witness:
  "let rule = \<lparr>sr_id = 1, sr_policy_id = ''SUP-1'', sr_reason = ''scanner'', sr_created_by = ''a'',
        sr_expires_at = 10, sr_scope = [(''source_ip'', ''10.0.0.5'')], sr_suppressed_count = 0\<rparr>;
       d = blank_detection\<lparr>det_detector_id := ''D005'', det_severity := ''critical''\<rparr>
   in sup_matches rule d \<and> is_suppressed (empty_alert_db\<lparr>adb_rules := [rule]\<rparr>) d 0 = Some rule"
proof -
  let ?r = "\<lparr>sr_id = 1, sr_policy_id = ''SUP-1'', sr_reason = ''scanner'', sr_created_by = ''a'',
        sr_expires_at = 10, sr_scope = [(''source_ip'', ''10.0.0.5'')], sr_suppressed_count = 0\<rparr>"
  let ?d = "blank_detection\<lparr>det_detector_id := ''D005'', det_severity := ''critical''\<rparr>"
  have "sup_matches ?r ?d"
    by (rule source_scope_covers_sourceless) (simp_all add: scope_get_def blank_detection_def)
  then show ?thesis by (simp add: Let_def is_suppressed_def)
qed

end
