(* ===== verification/Alert_Engine.thy ===== *)
theory Alert_Engine
  imports Alert_Store
begin

text \<open>
  The Detection -> Alert pipeline: deduplication (\<open>backend/alerting/deduplication.py\<close>)
  and the engine (\<open>backend/alerting/engine.py\<close>).  \<open>wall\<close> is the reading of
  the clock where the code calls \<open>datetime.now\<close>.
\<close>

section \<open>Deduplication\<close>

definition ALERT_DEDUP_WINDOW_MINUTES :: "(string \<times> int) list" where
  "ALERT_DEDUP_WINDOW_MINUTES =
     [(''D001'', 15), (''D002'', 15), (''D003'', 10), (''D004'', 10), (''D005'', 5)]"

definition ALERT_DEDUP_WINDOW_DEFAULT_MINUTES :: int where
  "ALERT_DEDUP_WINDOW_DEFAULT_MINUTES = 10"

definition dedup_window_minutes :: "string \<Rightarrow> int" where
  "dedup_window_minutes d = (case map_of ALERT_DEDUP_WINDOW_MINUTES d of
     None \<Rightarrow> ALERT_DEDUP_WINDOW_DEFAULT_MINUTES | Some m \<Rightarrow> m)"

definition MERGEABLE_STATUSES :: "string list" where
  "MERGEABLE_STATUSES = [''OPEN'', ''ACKNOWLEDGED'', ''IN_PROGRESS'']"

definition mergeable :: "string \<Rightarrow> string \<Rightarrow> time \<Rightarrow> alert \<Rightarrow> bool" where
  "mergeable fp detector_id now a \<longleftrightarrow>
     al_fingerprint a = fp \<and> al_status a \<in> set MERGEABLE_STATUSES
     \<and> now - minutes (dedup_window_minutes detector_id) \<le> al_last_seen a"

text \<open>\<open>order_by(last_seen.desc(), id.desc())\<close>, first row.\<close>

definition find_existing :: "alert_db \<Rightarrow> string \<Rightarrow> string \<Rightarrow> time \<Rightarrow> alert option" where
  "find_existing db fp detector_id now =
     (case sort_key (\<lambda>a. (- al_last_seen a, - int (al_id a)))
             (filter (mergeable fp detector_id now) (adb_alerts db)) of
        [] \<Rightarrow> None | a # _ \<Rightarrow> Some a)"

definition alert_merge :: "time \<Rightarrow> time \<Rightarrow> alert \<Rightarrow> alert" where
  "alert_merge wall detection_time a =
     a\<lparr>al_occurrence_count := Suc (al_occurrence_count a),
       al_last_seen := max (al_last_seen a) detection_time,
       al_updated_at := wall\<rparr>"

section \<open>The engine\<close>

definition alert_public_id :: "nat \<Rightarrow> string" where
  "alert_public_id n = ''ALR-'' @ fmt06 n"

definition next_alert_id :: "alert_db \<Rightarrow> string" where
  "next_alert_id db = alert_public_id (last_id al_id (adb_alerts db) + 1)"

definition add_occurrence :: "string \<Rightarrow> detection \<Rightarrow> time \<Rightarrow> alert_db \<Rightarrow> alert_db" where
  "add_occurrence aid d t db =
     db\<lparr>adb_occurrences := adb_occurrences db @ [\<lparr>oc_alert_id = aid,
        oc_detection_id = det_detection_id d, oc_event_ids = event_ids_of d,
        oc_timestamp = t, oc_evidence = det_evidence d\<rparr>]\<rparr>"

text \<open>Step 2, the suppressed branch.\<close>

definition count_suppressed :: "alert_db \<Rightarrow> suppression_rule \<Rightarrow> detection \<Rightarrow> string \<Rightarrow> alert_db" where
  "count_suppressed db rule d actor =
     alert_audit_record ''-'' ''SUPPRESSED'' [] [] actor
       [(''policy_id'', VStr (sr_policy_id rule)), (''detection_id'', VStr (det_detection_id d))]
       (db\<lparr>adb_rules := update_row sr_id (sr_id rule)
             (\<lambda>r. r\<lparr>sr_suppressed_count := Suc (sr_suppressed_count r)\<rparr>) (adb_rules db)\<rparr>)"

text \<open>Step 4, merging: the changed row.\<close>

definition merged_alert :: "time \<Rightarrow> time \<Rightarrow> detection \<Rightarrow> alert \<Rightarrow> alert" where
  "merged_alert wall t d a = (let m = alert_merge wall t a in
     if det_detection_id d \<in> set (al_detection_ids m) then m
     else m\<lparr>al_detection_ids := al_detection_ids m @ [det_detection_id d]\<rparr>)"

definition merge_detection ::
  "alert_db \<Rightarrow> alert \<Rightarrow> detection \<Rightarrow> time \<Rightarrow> time \<Rightarrow> string \<Rightarrow> alert_db \<times> alert" where
  "merge_detection db existing d wall t actor =
     (let a = merged_alert wall t d existing;
          db1 = db\<lparr>adb_alerts := update_row al_id (al_id existing) (\<lambda>_. a) (adb_alerts db)\<rparr>;
          db2 = add_occurrence (al_alert_id a) d t db1
      in (alert_audit_record (al_alert_id a) ''OCCURRENCE'' (al_status a) (al_status a) actor
            [(''detection_id'', VStr (det_detection_id d)),
             (''occurrence_count'', VInt (int (al_occurrence_count a)))] db2, a))"

text \<open>Step 5, creation: the row as inserted; its public id comes from its own id.\<close>

definition new_alert :: "string \<Rightarrow> detection \<Rightarrow> time \<Rightarrow> time \<Rightarrow> nat \<Rightarrow> alert" where
  "new_alert fp d t now n =
     \<lparr>al_id = n, al_alert_id = alert_public_id n, al_fingerprint = fp,
      al_detector_id = det_detector_id d, al_detector_version = det_detector_version d,
      al_title = det_title d, al_description = det_description d,
      al_severity = det_severity d, al_confidence = det_confidence d, al_status = ''OPEN'',
      al_first_seen = t, al_last_seen = t, al_occurrence_count = 1,
      al_host_id = det_host_id d, al_host_name = det_host_name d, al_user_id = det_user_id d,
      al_username = det_username d, al_source_ip = det_source_ip d,
      al_destination_ip = det_destination_ip d, al_mitre_tactic = det_mitre_tactic d,
      al_mitre_technique = det_mitre_technique d, al_evidence = det_evidence d,
      al_observables = det_observables d, al_detection_ids = [det_detection_id d],
      al_created_at = now, al_updated_at = now, al_assigned_to = None, al_assigned_at = None,
      al_acknowledged_at = None, al_acknowledged_by = None, al_resolved_at = None,
      al_feedback = None\<rparr>"

definition create_alert ::
  "alert_db \<Rightarrow> string \<Rightarrow> detection \<Rightarrow> time \<Rightarrow> time \<Rightarrow> string \<Rightarrow> string \<Rightarrow> alert_db \<times> alert" where
  "create_alert db fp d t now policy_id actor =
     (let n = Suc (adb_seq db); a = new_alert fp d t now n;
          db1 = db\<lparr>adb_alerts := adb_alerts db @ [a], adb_seq := n\<rparr>;
          db2 = add_occurrence (al_alert_id a) d t db1
      in (alert_audit_record (al_alert_id a) ''CREATED'' [] ''OPEN'' actor
            [(''detection_id'', VStr (det_detection_id d)), (''policy_id'', VStr policy_id)] db2, a))"

definition detection_time :: "detection \<Rightarrow> time \<Rightarrow> time" where
  "detection_time d now = (case det_timestamp d of None \<Rightarrow> now | Some t \<Rightarrow> t)"

definition process_detection ::
  "engine_config \<Rightarrow> (string \<Rightarrow> string) \<Rightarrow> time \<Rightarrow> alert_db \<Rightarrow> detection \<Rightarrow> time option \<Rightarrow> string
   \<Rightarrow> py_error + (alert_db \<times> alert option)" where
  "process_detection cfg H wall db d now0 actor =
     (case ensure_not_production_db ''alert'' cfg of
        Inl e \<Rightarrow> Inl e
      | Inr _ \<Rightarrow>
        (let now = now_or wall now0; t = detection_time d now; decision = evaluate_detection d in
         if \<not> el_eligible decision then Inr (db, None)
         else (case is_suppressed db d now of
             Some rule \<Rightarrow> Inr (count_suppressed db rule d actor, None)
           | None \<Rightarrow>
             (let fp = alert_fingerprint H d in
              case find_existing db fp (det_detector_id d) now of
                Some existing \<Rightarrow>
                  (case merge_detection db existing d wall t actor of (db', a) \<Rightarrow> Inr (db', Some a))
              | None \<Rightarrow>
                  (case create_alert db fp d t now (el_policy_id decision) actor of
                     (db', a) \<Rightarrow> Inr (db', Some a))))))"

fun process_detections ::
  "engine_config \<Rightarrow> (string \<Rightarrow> string) \<Rightarrow> time \<Rightarrow> alert_db \<Rightarrow> detection list \<Rightarrow> time option \<Rightarrow> string
   \<Rightarrow> py_error + (alert_db \<times> alert list)" where
  "process_detections cfg H wall db [] now actor = Inr (db, [])"
| "process_detections cfg H wall db (d # ds) now actor =
     (case process_detection cfg H wall db d now actor of
        Inl e \<Rightarrow> Inl e
      | Inr (db1, r) \<Rightarrow>
        (case process_detections cfg H wall db1 ds now actor of
           Inl e \<Rightarrow> Inl e
         | Inr (db2, as) \<Rightarrow> Inr (db2, (case r of None \<Rightarrow> as | Some a \<Rightarrow> a # as))))"

section \<open>Facts on the steps\<close>

lemma detection_time_simps [simp]:
  "det_timestamp d = Some t \<Longrightarrow> detection_time d now = t"
  "det_timestamp d = None \<Longrightarrow> detection_time d now = now"
  by (simp_all add: detection_time_def)

lemma add_occurrence_frame [simp]:
  "adb_alerts (add_occurrence aid d t db) = adb_alerts db"
  "adb_seq (add_occurrence aid d t db) = adb_seq db"
  "adb_rules (add_occurrence aid d t db) = adb_rules db"
  "adb_audit (add_occurrence aid d t db) = adb_audit db"
  "adb_feedback (add_occurrence aid d t db) = adb_feedback db"
  by (simp_all add: add_occurrence_def)

lemma merged_alert_simps [simp]:
  "al_id (merged_alert w t d a) = al_id a"
  "al_alert_id (merged_alert w t d a) = al_alert_id a"
  "al_fingerprint (merged_alert w t d a) = al_fingerprint a"
  "al_status (merged_alert w t d a) = al_status a"
  "al_severity (merged_alert w t d a) = al_severity a"
  "al_confidence (merged_alert w t d a) = al_confidence a"
  "al_first_seen (merged_alert w t d a) = al_first_seen a"
  "al_last_seen (merged_alert w t d a) = max (al_last_seen a) t"
  "al_occurrence_count (merged_alert w t d a) = Suc (al_occurrence_count a)"
  "al_host_name (merged_alert w t d a) = al_host_name a"
  "al_host_id (merged_alert w t d a) = al_host_id a"
  "al_detector_id (merged_alert w t d a) = al_detector_id a"
  by (simp_all add: merged_alert_def alert_merge_def Let_def)

lemma merged_alert_detection_ids:
  "al_detection_ids (merged_alert w t d a) =
     (if det_detection_id d \<in> set (al_detection_ids a) then al_detection_ids a
      else al_detection_ids a @ [det_detection_id d])"
  by (simp add: merged_alert_def alert_merge_def Let_def)

lemma find_existing_Some:
  "find_existing db fp det now = Some a \<Longrightarrow> a \<in> set (adb_alerts db) \<and> mergeable fp det now a"
proof -
  assume f: "find_existing db fp det now = Some a"
  let ?k = "\<lambda>a. (- al_last_seen a, - int (al_id a))"
  let ?xs = "filter (mergeable fp det now) (adb_alerts db)"
  from f obtain r where "sort_key ?k ?xs = a # r"
    by (auto simp: find_existing_def split: list.splits)
  then have "a \<in> set (sort_key ?k ?xs)" by simp
  then show ?thesis by simp
qed

lemma find_existing_None:
  "find_existing db fp det now = None \<longleftrightarrow> (\<forall>a\<in>set (adb_alerts db). \<not> mergeable fp det now a)"
proof -
  let ?k = "\<lambda>a. (- al_last_seen a, - int (al_id a))"
  let ?xs = "filter (mergeable fp det now) (adb_alerts db)"
  have "find_existing db fp det now = None \<longleftrightarrow> sort_key ?k ?xs = []"
    by (auto simp: find_existing_def split: list.splits)
  also have "\<dots> \<longleftrightarrow> ?xs = []" by (metis length_0_conv length_sort)
  finally show ?thesis by (simp add: filter_empty_conv)
qed

text \<open>The chosen alert is the one seen last.\<close>

lemma find_existing_latest:
  assumes "find_existing db fp det now = Some a" "b \<in> set (adb_alerts db)" "mergeable fp det now b"
  shows "al_last_seen b \<le> al_last_seen a"
proof -
  let ?k = "\<lambda>a. (- al_last_seen a, - int (al_id a))"
  let ?xs = "filter (mergeable fp det now) (adb_alerts db)"
  obtain r where r: "sort_key ?k ?xs = a # r"
    using assms(1) by (auto simp: find_existing_def split: list.splits)
  have "b \<in> set (a # r)" using assms(2,3) by (simp flip: r)
  moreover have "sorted (map ?k (a # r))" by (simp flip: r)
  ultimately have "b = a \<or> ?k a \<le> ?k b" by auto
  then show ?thesis by (auto simp: less_eq_prod_def)
qed

interpretation als: serial_rows al_id "\<lambda>n a. a\<lparr>al_id := n\<rparr>"
  by unfold_locales simp

section \<open>The invariant of the store\<close>

definition occs_of :: "alert_db \<Rightarrow> string \<Rightarrow> occurrence list" where
  "occs_of db aid = filter (\<lambda>o'. oc_alert_id o' = aid) (adb_occurrences db)"

definition alert_ok :: "alert_db \<Rightarrow> alert \<Rightarrow> bool" where
  "alert_ok db a \<longleftrightarrow>
     al_alert_id a = alert_public_id (al_id a)
     \<and> al_status a \<in> set ALERT_STATUSES \<and> al_severity a \<in> set severities
     \<and> 0 \<le> al_confidence a \<and> al_confidence a \<le> 1
     \<and> al_first_seen a \<le> al_last_seen a
     \<and> al_occurrence_count a = length (occs_of db (al_alert_id a)) \<and> 0 < al_occurrence_count a
     \<and> distinct (al_detection_ids a)
     \<and> set (al_detection_ids a) = oc_detection_id ` set (occs_of db (al_alert_id a))"

definition alert_db_ok :: "alert_db \<Rightarrow> bool" where
  "alert_db_ok db \<longleftrightarrow>
     als.ids_ok (adb_alerts db) (adb_seq db) \<and> (\<forall>a\<in>set (adb_alerts db). alert_ok db a)
     \<and> (\<forall>o'\<in>set (adb_occurrences db). \<exists>a\<in>set (adb_alerts db). oc_alert_id o' = al_alert_id a)"

lemma alert_db_ok_empty: "alert_db_ok empty_alert_db"
  by (simp add: alert_db_ok_def empty_alert_db_def als.ids_ok_Nil)

lemma alert_public_id_inj [simp]: "alert_public_id m = alert_public_id n \<longleftrightarrow> m = n"
  by (simp add: alert_public_id_def)

lemma alert_db_okD:
  assumes "alert_db_ok db"
  shows "als.ids_ok (adb_alerts db) (adb_seq db)"
    and "a \<in> set (adb_alerts db) \<Longrightarrow> alert_ok db a"
    and "a \<in> set (adb_alerts db) \<Longrightarrow> al_alert_id a = alert_public_id (al_id a)"
    and "o' \<in> set (adb_occurrences db) \<Longrightarrow> \<exists>a\<in>set (adb_alerts db). oc_alert_id o' = al_alert_id a"
  using assms unfolding alert_db_ok_def alert_ok_def by blast+

lemma alert_ids_agree:
  "alert_db_ok db \<Longrightarrow> a \<in> set (adb_alerts db) \<Longrightarrow> b \<in> set (adb_alerts db)
   \<Longrightarrow> al_alert_id a = al_alert_id b \<longleftrightarrow> al_id a = al_id b"
  by (simp add: alert_db_okD(3))

lemma alert_ids_distinct: "alert_db_ok db \<Longrightarrow> distinct (map al_alert_id (adb_alerts db))"
proof -
  assume ok: "alert_db_ok db"
  then have "distinct (map al_id (adb_alerts db))" using als.ids_distinct alert_db_okD(1) by blast
  moreover have "map al_alert_id (adb_alerts db) = map alert_public_id (map al_id (adb_alerts db))"
    using alert_db_okD(3) [OF ok] by simp
  ultimately show ?thesis by (simp add: distinct_map inj_on_def)
qed

lemma occs_of_frame:
  "adb_occurrences db' = adb_occurrences db \<Longrightarrow> occs_of db' aid = occs_of db aid"
  by (simp add: occs_of_def)

lemma alert_ok_frame:
  "adb_occurrences db' = adb_occurrences db \<Longrightarrow> alert_ok db' a = alert_ok db a"
  by (simp add: alert_ok_def occs_of_frame [of db' db])

lemma occs_of_add [simp]:
  "occs_of (add_occurrence aid d t db) b = occs_of db b @
     (if aid = b then [\<lparr>oc_alert_id = aid, oc_detection_id = det_detection_id d,
        oc_event_ids = event_ids_of d, oc_timestamp = t, oc_evidence = det_evidence d\<rparr>] else [])"
  by (simp add: occs_of_def add_occurrence_def)

lemma count_suppressed_frame [simp]:
  "adb_alerts (count_suppressed db r d actor) = adb_alerts db"
  "adb_seq (count_suppressed db r d actor) = adb_seq db"
  "adb_occurrences (count_suppressed db r d actor) = adb_occurrences db"
  by (simp_all add: count_suppressed_def)

lemma alert_db_ok_frame:
  "adb_alerts db' = adb_alerts db \<Longrightarrow> adb_seq db' = adb_seq db \<Longrightarrow> adb_occurrences db' = adb_occurrences db
   \<Longrightarrow> alert_db_ok db' = alert_db_ok db"
  unfolding alert_db_ok_def by (simp add: alert_ok_frame [of db' db])


section \<open>Every step keeps the invariant\<close>

lemma alert_ok_other:
  assumes "alert_ok db b" "occs_of db' (al_alert_id b) = occs_of db (al_alert_id b)"
  shows "alert_ok db' b"
  using assms(1) unfolding alert_ok_def assms(2) .

lemma merge_detection_ok:
  assumes ok: "alert_db_ok db" and a: "a \<in> set (adb_alerts db)"
  shows "alert_db_ok (fst (merge_detection db a d wall t actor))"
proof -
  let ?m = "merged_alert wall t d a"
  let ?db' = "fst (merge_detection db a d wall t actor)"
  have alerts: "adb_alerts ?db' = update_row al_id (al_id a) (\<lambda>_. ?m) (adb_alerts db)"
    and seq: "adb_seq ?db' = adb_seq db"
    by (simp_all add: merge_detection_def Let_def)
  have occ: "occs_of ?db' b = occs_of db b @
     (if al_alert_id a = b then [\<lparr>oc_alert_id = al_alert_id a, oc_detection_id = det_detection_id d,
        oc_event_ids = event_ids_of d, oc_timestamp = t, oc_evidence = det_evidence d\<rparr>] else [])" for b
    by (simp add: merge_detection_def Let_def occs_of_def alert_audit_record_def add_occurrence_def)
  have ids: "map al_id (adb_alerts ?db') = map al_id (adb_alerts db)"
    unfolding alerts by (rule map_update_row) simp
  have aids: "al_alert_id ` set (adb_alerts ?db') = al_alert_id ` set (adb_alerts db)"
  proof -
    have "b \<in> set (adb_alerts db) \<Longrightarrow> al_id b = al_id a \<Longrightarrow> b = a" for b
      using als.same_row [OF alert_db_okD(1) [OF ok]] a by blast
    then have "map al_alert_id (adb_alerts ?db') = map al_alert_id (adb_alerts db)"
      unfolding alerts update_row_def by auto
    then show ?thesis by (metis image_set)
  qed
  have A: "als.ids_ok (adb_alerts ?db') (adb_seq ?db')"
    using alert_db_okD(1) [OF ok] als.ids_ok_cong [OF ids] seq by simp
  have m_ok: "alert_ok ?db' ?m"
  proof -
    have o': "occs_of ?db' (al_alert_id a) = occs_of db (al_alert_id a) @
        [\<lparr>oc_alert_id = al_alert_id a, oc_detection_id = det_detection_id d,
        oc_event_ids = event_ids_of d, oc_timestamp = t, oc_evidence = det_evidence d\<rparr>]"
      using occ [of "al_alert_id a"] by simp
    show ?thesis
      using alert_db_okD(2) [OF ok a]
      unfolding alert_ok_def merged_alert_simps merged_alert_detection_ids o'
      by auto
  qed
  have B: "alert_ok ?db' b" if "b \<in> set (adb_alerts ?db')" for b
  proof -
    from that obtain c where c: "c \<in> set (adb_alerts db)" "b = (if al_id c = al_id a then ?m else c)"
      unfolding alerts set_update_row by blast
    show ?thesis
    proof (cases "al_id c = al_id a")
      case False
      then have "al_alert_id c \<noteq> al_alert_id a" using alert_ids_agree [OF ok c(1) a] by simp
      then have "occs_of ?db' (al_alert_id c) = occs_of db (al_alert_id c)" using occ by simp
      with False c alert_db_okD(2) [OF ok c(1)] show ?thesis by (simp add: alert_ok_other)
    qed (use c m_ok in simp)
  qed
  have C: "\<exists>b\<in>set (adb_alerts ?db'). oc_alert_id o' = al_alert_id b"
    if "o' \<in> set (adb_occurrences ?db')" for o'
  proof -
    from that have "o' \<in> set (adb_occurrences db) \<or> oc_alert_id o' = al_alert_id a"
      by (auto simp: merge_detection_def Let_def alert_audit_record_def add_occurrence_def)
    then have "oc_alert_id o' \<in> al_alert_id ` set (adb_alerts db)"
      using alert_db_okD(4) [OF ok] a by auto
    then show ?thesis by (simp flip: aids add: image_iff)
  qed
  from A B C show ?thesis unfolding alert_db_ok_def by blast
qed

lemma create_alert_ok:
  assumes ok: "alert_db_ok db" and d: "detection_ok d"
  shows "alert_db_ok (fst (create_alert db fp d t now p actor))"
proof -
  let ?n = "Suc (adb_seq db)"
  let ?a = "new_alert fp d t now ?n"
  let ?db' = "fst (create_alert db fp d t now p actor)"
  have alerts: "adb_alerts ?db' = adb_alerts db @ [?a]" and seq: "adb_seq ?db' = ?n"
    by (simp_all add: create_alert_def Let_def)
  have occ: "occs_of ?db' b = occs_of db b @
     (if al_alert_id ?a = b then [\<lparr>oc_alert_id = al_alert_id ?a, oc_detection_id = det_detection_id d,
        oc_event_ids = event_ids_of d, oc_timestamp = t, oc_evidence = det_evidence d\<rparr>] else [])" for b
    by (simp add: create_alert_def Let_def occs_of_def alert_audit_record_def add_occurrence_def)
  have fresh: "al_alert_id b \<noteq> al_alert_id ?a" if "b \<in> set (adb_alerts db)" for b
    using alert_db_okD(1,3) [OF ok] that by (fastforce simp: als.ids_ok_def new_alert_def)
  have none: "occs_of db (al_alert_id ?a) = []"
    using alert_db_okD(4) [OF ok] fresh by (fastforce simp: occs_of_def filter_empty_conv)
  have A: "als.ids_ok (adb_alerts ?db') (adb_seq ?db')"
    using als.ids_ok_append [OF alert_db_okD(1) [OF ok], of ?n ?a] unfolding alerts seq
    by (simp add: new_alert_def)
  have new_ok: "alert_ok ?db' ?a"
    using d occ [of "al_alert_id ?a"] none
    by (simp add: alert_ok_def new_alert_def detection_ok_def ALERT_STATUSES_def)
  have B: "alert_ok ?db' b" if "b \<in> set (adb_alerts ?db')" for b
  proof (cases "b = ?a")
    case False
    with that have b: "b \<in> set (adb_alerts db)" unfolding alerts by simp
    with fresh [OF b] have "occs_of ?db' (al_alert_id b) = occs_of db (al_alert_id b)"
      unfolding occ by simp
    with alert_db_okD(2) [OF ok b] show ?thesis by (rule alert_ok_other)
  qed (simp add: new_ok)
  have C: "\<exists>b\<in>set (adb_alerts ?db'). oc_alert_id o' = al_alert_id b"
    if "o' \<in> set (adb_occurrences ?db')" for o'
  proof -
    from that have "o' \<in> set (adb_occurrences db) \<or> oc_alert_id o' = al_alert_id ?a"
      by (auto simp: create_alert_def Let_def alert_audit_record_def add_occurrence_def)
    then show ?thesis using alert_db_okD(4) [OF ok] unfolding alerts by auto
  qed
  from A B C show ?thesis unfolding alert_db_ok_def by blast
qed

text \<open>The four outcomes of one detection, each with the state it leaves.\<close>

lemma process_detection_cases:
  assumes "process_detection cfg H wall db d now0 actor = Inr (db', r)"
  obtains (ineligible) "\<not> el_eligible (evaluate_detection d)" "db' = db" "r = None"
  | (suppressed) rule where "el_eligible (evaluate_detection d)"
      "is_suppressed db d (now_or wall now0) = Some rule"
      "db' = count_suppressed db rule d actor" "r = None"
  | (merged) a where "el_eligible (evaluate_detection d)" "is_suppressed db d (now_or wall now0) = None"
      "find_existing db (alert_fingerprint H d) (det_detector_id d) (now_or wall now0) = Some a"
      "db' = fst (merge_detection db a d wall (detection_time d (now_or wall now0)) actor)"
      "r = Some (merged_alert wall (detection_time d (now_or wall now0)) d a)"
  | (created) "el_eligible (evaluate_detection d)" "is_suppressed db d (now_or wall now0) = None"
      "find_existing db (alert_fingerprint H d) (det_detector_id d) (now_or wall now0) = None"
      "db' = fst (create_alert db (alert_fingerprint H d) d (detection_time d (now_or wall now0))
               (now_or wall now0) (el_policy_id (evaluate_detection d)) actor)"
      "r = Some (new_alert (alert_fingerprint H d) d (detection_time d (now_or wall now0))
               (now_or wall now0) (Suc (adb_seq db)))"
  using assms
  by (auto simp: process_detection_def Let_def merge_detection_def create_alert_def
      split: sum.splits option.splits if_splits)

lemma process_detection_keeps_ok:
  assumes "alert_db_ok db" "detection_ok d"
    "process_detection cfg H wall db d now0 actor = Inr (db', r)"
  shows "alert_db_ok db'"
  using assms(3)
proof (cases rule: process_detection_cases)
  case (suppressed rule)
  then show ?thesis using assms(1) alert_db_ok_frame [of db' db] by simp
next
  case (merged a)
  then show ?thesis using merge_detection_ok [OF assms(1)] find_existing_Some by metis
next
  case created
  then show ?thesis using create_alert_ok [OF assms(1,2)] by simp
qed (use assms(1) in simp)


section \<open>Batches\<close>

lemma process_detections_keeps_ok:
  "alert_db_ok db \<Longrightarrow> list_all detection_ok ds
   \<Longrightarrow> process_detections cfg H wall db ds now actor = Inr (db', as) \<Longrightarrow> alert_db_ok db'"
proof (induction ds arbitrary: db as)
  case (Cons d ds)
  then obtain db1 r as1 where
    "process_detection cfg H wall db d now actor = Inr (db1, r)"
    "process_detections cfg H wall db1 ds now actor = Inr (db', as1)"
    by (auto split: sum.splits)
  moreover from this have "alert_db_ok db1"
    using process_detection_keeps_ok [OF Cons.prems(1)] Cons.prems(2) by (metis list.pred_inject(2))
  ultimately show ?case using Cons.IH [of db1 as1] Cons.prems(2) by simp
qed simp

text \<open>A row that may not absorb detections is not touched by any outcome.\<close>

lemma process_detection_frozen:
  assumes ok: "alert_db_ok db" and p: "process_detection cfg H wall db d now actor = Inr (db', r)"
    and a: "a \<in> set (adb_alerts db)" "al_status a \<notin> set MERGEABLE_STATUSES"
  shows "a \<in> set (adb_alerts db')"
  using p
proof (cases rule: process_detection_cases)
  case (merged b)
  then have b: "b \<in> set (adb_alerts db)" "mergeable (alert_fingerprint H d) (det_detector_id d) (now_or wall now) b"
    using find_existing_Some by blast+
  then have "al_id a \<noteq> al_id b"
    using als.same_row [OF alert_db_okD(1) [OF ok] a(1) b(1)] a(2) by (auto simp: mergeable_def)
  then have "a \<in> set (update_row al_id (al_id b) f (adb_alerts db))" for f
    using a(1) by (auto simp: set_update_row)
  then show ?thesis using merged by (simp add: merge_detection_def Let_def)
next
  case created
  then show ?thesis using a by (simp add: create_alert_def Let_def)
qed (use a in simp_all)

lemma process_detection_occurrences:
  assumes "process_detection cfg H wall db d now actor = Inr (db', r)"
  shows "length (adb_occurrences db') = length (adb_occurrences db) + (case r of None \<Rightarrow> 0 | Some _ \<Rightarrow> 1)"
  using assms
  by (cases rule: process_detection_cases)
    (simp_all add: merge_detection_def create_alert_def add_occurrence_def alert_audit_record_def Let_def)

lemma process_detection_total:
  "ensure_not_production_db ''alert'' cfg = Inr () \<Longrightarrow> \<exists>db' r. process_detection cfg H wall db d now actor = Inr (db', r)"
  by (simp add: process_detection_def Let_def split: option.splits prod.splits)

lemma process_detections_total:
  "ensure_not_production_db ''alert'' cfg = Inr () \<Longrightarrow> \<exists>db' as. process_detections cfg H wall db ds now actor = Inr (db', as)"
proof (induction ds arbitrary: db)
  case (Cons d ds)
  then obtain db1 r where "process_detection cfg H wall db d now actor = Inr (db1, r)"
    using process_detection_total by blast
  moreover obtain db2 as where "process_detections cfg H wall db1 ds now actor = Inr (db2, as)"
    using Cons by blast
  ultimately show ?case by simp
qed simp

section \<open>Properties\<close>

text \<open>C4: the invariant of the alert store.  Whatever valid detections are processed,
  starting from the empty store: ids are unique, the public id is derived from the row's
  own id, every alert counts exactly its occurrence rows and lists exactly the detections
  in them, without repetition, its confidence lies in [0, 1] and first_seen never exceeds
  last_seen.\<close>

theorem alert_store_invariant:
  assumes "list_all detection_ok ds"
    and "process_detections cfg H wall empty_alert_db ds now actor = Inr (db, as)"
  shows "alert_db_ok db \<and> distinct (map al_alert_id (adb_alerts db))
     \<and> (\<forall>a\<in>set (adb_alerts db).
          al_occurrence_count a = length (filter (\<lambda>o'. oc_alert_id o' = al_alert_id a) (adb_occurrences db)))"
proof -
  have ok: "alert_db_ok db"
    using process_detections_keeps_ok [OF alert_db_ok_empty assms] .
  then show ?thesis
    using alert_ids_distinct alert_db_okD(2) unfolding alert_ok_def occs_of_def by blast
qed

text \<open>C19: what one detection does.  It yields no alert exactly when the policy or a
  suppression rule stops it, and then leaves alerts and occurrences alone.  Otherwise, if
  some alert with its fingerprint is active and inside the window, exactly one such alert
  absorbs it: its count grows by one, severity and confidence stay; if there is none, one
  OPEN alert with one occurrence is appended.\<close>

theorem process_detection_outcome:
  assumes ok: "alert_db_ok db"
    and p: "process_detection cfg H wall db d now0 actor = Inr (db', r)"
    and now: "now = now_or wall now0" and fp: "fp = alert_fingerprint H d"
  shows "(r = None \<longleftrightarrow> \<not> el_eligible (evaluate_detection d) \<or> is_suppressed db d now \<noteq> None)
     \<and> (r = None \<longrightarrow> adb_alerts db' = adb_alerts db \<and> adb_occurrences db' = adb_occurrences db)
     \<and> (\<forall>a. r = Some a \<longrightarrow>
          (if \<exists>b\<in>set (adb_alerts db). mergeable fp (det_detector_id d) now b
           then \<exists>b\<in>set (adb_alerts db). mergeable fp (det_detector_id d) now b
                  \<and> adb_alerts db' = update_row al_id (al_id b) (\<lambda>_. a) (adb_alerts db)
                  \<and> al_id a = al_id b \<and> al_occurrence_count a = Suc (al_occurrence_count b)
                  \<and> al_severity a = al_severity b \<and> al_confidence a = al_confidence b
           else adb_alerts db' = adb_alerts db @ [a] \<and> al_fingerprint a = fp
                  \<and> al_status a = ''OPEN'' \<and> al_occurrence_count a = 1))"
  using p
proof (cases rule: process_detection_cases)
  case (suppressed rule)
  then show ?thesis using now by simp
next
  case (merged a)
  then have "a \<in> set (adb_alerts db)" "mergeable fp (det_detector_id d) now a"
    using find_existing_Some now fp by blast+
  with merged show ?thesis
    using now fp by (auto simp: merge_detection_def Let_def)
next
  case created
  then have none: "\<not> (\<exists>b\<in>set (adb_alerts db). mergeable fp (det_detector_id d) now b)"
    using find_existing_None now fp by blast
  then show ?thesis
    using created now fp by (simp add: create_alert_def Let_def new_alert_def)
qed (use now in simp)

text \<open>A resolved, closed or suppressed alert never absorbs a later detection: no
  batch changes its row.\<close>

theorem inactive_alert_frozen:
  assumes "alert_db_ok db" and "list_all detection_ok ds"
    and "process_detections cfg H wall db ds now actor = Inr (db', as)"
    and "a \<in> set (adb_alerts db)" and "al_status a \<in> {''RESOLVED'', ''CLOSED'', ''SUPPRESSED''}"
  shows "a \<in> set (adb_alerts db')"
  using assms(1-4)
proof (induction ds arbitrary: db as)
  case (Cons d ds)
  from Cons.prems(3) obtain db1 r as1 where s:
    "process_detection cfg H wall db d now actor = Inr (db1, r)"
    "process_detections cfg H wall db1 ds now actor = Inr (db', as1)"
    by (auto split: sum.splits)
  have "al_status a \<notin> set MERGEABLE_STATUSES" using assms(5) by (auto simp: MERGEABLE_STATUSES_def)
  then have "a \<in> set (adb_alerts db1)" using process_detection_frozen [OF Cons.prems(1) s(1) Cons.prems(4)] by blast
  moreover have "alert_db_ok db1" "list_all detection_ok ds"
    using process_detection_keeps_ok [OF Cons.prems(1) _ s(1)] Cons.prems(2) by auto
  ultimately show ?case using Cons.IH s(2) by blast
qed simp

text \<open>Accounting of a batch: every returned alert stands for exactly one new
  occurrence row, so nothing that was surfaced is lost and nothing is counted twice.\<close>

theorem batch_accounting:
  "process_detections cfg H wall db ds now actor = Inr (db', as) \<Longrightarrow>
     length (adb_occurrences db') = length (adb_occurrences db) + length as \<and> length as \<le> length ds"
proof (induction ds arbitrary: db as)
  case (Cons d ds)
  from Cons.prems obtain db1 r as1 where s:
    "process_detection cfg H wall db d now actor = Inr (db1, r)"
    "process_detections cfg H wall db1 ds now actor = Inr (db', as1)"
    "as = (case r of None \<Rightarrow> as1 | Some a \<Rightarrow> a # as1)"
    by (auto split: sum.splits)
  show ?case
    using process_detection_occurrences [OF s(1)] Cons.IH [OF s(2)] s(3)
    by (auto split: option.splits)
qed simp

text \<open>The witnesses run a brute-force style detection on a development host.\<close>

definition example_detection :: detection where
  "example_detection = blank_detection\<lparr>det_detector_id := ''D001'', det_severity := ''high'',
     det_host_name := ''h1'', det_username := ''alice'', det_source_ip := ''8.8.8.8'',
     det_detection_id := ''D001-1'', det_timestamp := Some 0\<rparr>"

lemma example_detection_ok: "detection_ok example_detection"
  by (simp add: detection_ok_def example_detection_def blank_detection_def DETECTION_STATUSES_def
      fl_nonneg fl_le_1)

lemma example_detection_eligible: "el_eligible (evaluate_detection example_detection)"
  by (simp add: eligible_iff example_detection_def blank_detection_def cfg ALERT_POLICIES_def fl_nonneg)

theorem alert_store_invariant_witness:
  "\<exists>db as. process_detections dev_config id 0 empty_alert_db [example_detection, example_detection]
      (Some 0) ''system'' = Inr (db, as) \<and> alert_db_ok db"
proof -
  let ?ds = "[example_detection, example_detection]"
  obtain db as where p: "process_detections dev_config id 0 empty_alert_db ?ds (Some 0) ''system'' = Inr (db, as)"
    using process_detections_total [OF ensure_dev] by blast
  have "list_all detection_ok ?ds" by (simp add: example_detection_ok)
  from alert_store_invariant [OF this p] p show ?thesis by blast
qed

theorem process_detection_outcome_witness:
  "\<exists>db r. process_detection dev_config id 0 empty_alert_db example_detection (Some 0) ''system'' = Inr (db, Some r)
      \<and> adb_alerts db = [r] \<and> al_occurrence_count r = 1"
proof -
  obtain db r where p: "process_detection dev_config id 0 empty_alert_db example_detection (Some 0) ''system'' = Inr (db, r)"
    using process_detection_total [OF ensure_dev] by blast
  have "r \<noteq> None"
    using process_detection_outcome [OF alert_db_ok_empty p refl refl] example_detection_eligible
    by (auto simp: is_suppressed_def empty_alert_db_def)
  then show ?thesis
    using process_detection_outcome [OF alert_db_ok_empty p refl refl] p
    by (auto simp: empty_alert_db_def)
qed

text \<open>A store with one closed alert.\<close>

definition closed_alert_db :: alert_db where
  "closed_alert_db = empty_alert_db\<lparr>adb_alerts := [new_alert [] example_detection 0 0 1\<lparr>al_status := ''CLOSED''\<rparr>],
     adb_seq := 1, adb_occurrences := [\<lparr>oc_alert_id = alert_public_id 1, oc_detection_id = ''D001-1'',
       oc_event_ids = [], oc_timestamp = 0, oc_evidence = []\<rparr>]\<rparr>"

lemma closed_alert_db_ok: "alert_db_ok closed_alert_db"
  using example_detection_ok
  by (simp add: alert_db_ok_def closed_alert_db_def empty_alert_db_def als.ids_ok_def alert_ok_def
      new_alert_def occs_of_def ALERT_STATUSES_def detection_ok_def)
    (simp add: example_detection_def)

theorem inactive_alert_frozen_witness:
  "\<exists>db as. process_detections dev_config id 0 closed_alert_db [example_detection] (Some 0) ''system'' = Inr (db, as)
      \<and> new_alert [] example_detection 0 0 1\<lparr>al_status := ''CLOSED''\<rparr> \<in> set (adb_alerts db)"
proof -
  let ?a = "new_alert [] example_detection 0 0 1\<lparr>al_status := ''CLOSED''\<rparr>"
  obtain db as where p: "process_detections dev_config id 0 closed_alert_db [example_detection] (Some 0) ''system'' = Inr (db, as)"
    using process_detections_total [OF ensure_dev] by blast
  have d: "list_all detection_ok [example_detection]" by (simp add: example_detection_ok)
  have a: "?a \<in> set (adb_alerts closed_alert_db)" by (simp add: closed_alert_db_def)
  have "al_status ?a \<in> {''RESOLVED'', ''CLOSED'', ''SUPPRESSED''}" by simp
  from inactive_alert_frozen [OF closed_alert_db_ok d p a this] p show ?thesis by blast
qed

theorem batch_accounting_witness:
  "\<exists>db as. process_detections dev_config id 0 closed_alert_db [example_detection] (Some 0) ''system'' = Inr (db, as)
      \<and> length (adb_occurrences db) = 1 + length as"
proof -
  obtain db as where p: "process_detections dev_config id 0 closed_alert_db [example_detection] (Some 0) ''system'' = Inr (db, as)"
    using process_detections_total [OF ensure_dev] by blast
  from batch_accounting [OF p] p show ?thesis by (auto simp: closed_alert_db_def)
qed

text \<open>The dedup window is anchored at the processing time, not at the detections'
  own times: a backlog of detections processed later than the window never merges, however
  close together the detections are.  Each of them becomes an alert of its own.\<close>

theorem backlog_not_deduplicated:
  assumes gate: "ensure_not_production_db ''alert'' cfg = Inr ()"
    and rules: "adb_rules db = []"
    and old: "\<forall>a\<in>set (adb_alerts db). al_last_seen a < now - minutes 15"
    and ds: "\<forall>d\<in>set ds. el_eligible (evaluate_detection d) \<and> (\<exists>t. det_timestamp d = Some t \<and> t < now - minutes 15)"
  shows "\<exists>db' as. process_detections cfg H wall db ds (Some now) actor = Inr (db', as)
     \<and> length (adb_alerts db') = length (adb_alerts db) + length ds"
  using rules old ds
proof (induction ds arbitrary: db)
  case (Cons d ds)
  let ?fp = "alert_fingerprint H d"
  obtain t where t: "det_timestamp d = Some t" "t < now - minutes 15" and e: "el_eligible (evaluate_detection d)"
    using Cons.prems(3) by auto
  have "dedup_window_minutes x \<le> 15" for x
    by (simp add: dedup_window_minutes_def ALERT_DEDUP_WINDOW_MINUTES_def ALERT_DEDUP_WINDOW_DEFAULT_MINUTES_def)
  then have w: "minutes (dedup_window_minutes x) \<le> minutes 15" for x by simp
  have n: "find_existing db ?fp (det_detector_id d) now = None"
  proof -
    have "\<not> now - minutes (dedup_window_minutes (det_detector_id d)) \<le> al_last_seen a"
      if "a \<in> set (adb_alerts db)" for a
      using bspec [OF Cons.prems(2) that] w [of "det_detector_id d"] by linarith
    then show ?thesis unfolding find_existing_None mergeable_def by blast
  qed
  have s: "is_suppressed db d now = None" using Cons.prems(1) by (simp add: is_suppressed_None)
  let ?c = "create_alert db ?fp d t now (el_policy_id (evaluate_detection d)) actor"
  have p: "process_detection cfg H wall db d (Some now) actor = Inr (fst ?c, Some (snd ?c))"
    using gate e n s t by (simp add: process_detection_def Let_def split: prod.splits)
  have c: "adb_rules (fst ?c) = []" "adb_alerts (fst ?c) = adb_alerts db @ [new_alert ?fp d t now (Suc (adb_seq db))]"
    using Cons.prems(1) by (simp_all add: create_alert_def Let_def)
  then have "\<forall>a\<in>set (adb_alerts (fst ?c)). al_last_seen a < now - minutes 15"
    using Cons.prems(2) t(2) by (auto simp: new_alert_def)
  then obtain db' as where "process_detections cfg H wall (fst ?c) ds (Some now) actor = Inr (db', as)"
      "length (adb_alerts db') = length (adb_alerts (fst ?c)) + length ds"
    using Cons.IH [of "fst ?c"] c(1) Cons.prems(3) by (metis list.set_intros(2))
  then show ?case using p c(2) by simp
qed simp

theorem backlog_not_deduplicated_witness:
  "\<exists>db as. process_detections dev_config id 0 empty_alert_db
       [example_detection, example_detection\<lparr>det_timestamp := Some (minutes 1)\<rparr>] (Some (minutes 20)) ''system''
       = Inr (db, as) \<and> length (adb_alerts db) = 2"
proof -
  let ?ds = "[example_detection, example_detection\<lparr>det_timestamp := Some (minutes 1)\<rparr>]"
  have "el_eligible (evaluate_detection (example_detection\<lparr>det_timestamp := x\<rparr>))" for x
    using example_detection_eligible by (simp add: eligible_iff)
  then have "\<forall>d\<in>set ?ds. el_eligible (evaluate_detection d)
      \<and> (\<exists>t. det_timestamp d = Some t \<and> t < minutes 20 - minutes 15)"
    using example_detection_eligible by (simp add: minutes_def) (simp add: example_detection_def)
  from backlog_not_deduplicated [OF ensure_dev _ _ this, of empty_alert_db id 0 "''system''"]
  show ?thesis by (auto simp: empty_alert_db_def)
qed

end
