(* ===== verification/Alert_Desk.thy ===== *)
theory Alert_Desk
  imports Alert_Engine
begin

text \<open>
  The analyst's desk, \<open>backend/api/alerting.py\<close>: the endpoints that change an alert,
  structured feedback (\<open>backend/alerting/feedback.py\<close>), the filtered queue, and the
  audit trail that desk and engine write together.  Authentication and JSON stand outside:
  a request carries the already decoded values, \<open>actor\<close> is \<open>actor_name(request)\<close>
  and \<open>now\<close> the clock.
\<close>

section \<open>Feedback\<close>

definition FEEDBACK_TYPES :: "string list" where
  "FEEDBACK_TYPES =
     [''TRUE_POSITIVE'', ''FALSE_POSITIVE'', ''BENIGN'', ''DUPLICATE'', ''EXPECTED_ACTIVITY'', ''UNKNOWN'']"

definition ALERT_MIN_LABELED_FOR_FPR :: nat where "ALERT_MIN_LABELED_FOR_FPR = 10"

definition feedback_submit ::
  "alert_db \<Rightarrow> string \<Rightarrow> string \<Rightarrow> string \<Rightarrow> string \<Rightarrow> py_error + (alert_db \<times> alert_feedback)" where
  "feedback_submit db aid feedback_type analyst comment =
     (if feedback_type \<notin> set FEEDBACK_TYPES then Inl (ValueError ''invalid feedback type'')
      else let row = \<lparr>fb_alert_id = aid, fb_feedback_type = feedback_type, fb_analyst_id = analyst,
             fb_comment = comment\<rparr>
           in Inr (db\<lparr>adb_feedback := adb_feedback db @ [row]\<rparr>, row))"

definition count_feedback :: "string \<Rightarrow> alert_feedback list \<Rightarrow> nat" where
  "count_feedback k rows = length (filter (\<lambda>r. fb_feedback_type r = k) rows)"

record feedback_stats =
  fs_total :: nat
  fs_true_positives :: nat
  fs_false_positives :: nat
  fs_labeled :: nat
  fs_false_positive_rate :: "rat option"

definition feedback_stats_of :: "alert_feedback list \<Rightarrow> nat \<Rightarrow> feedback_stats" where
  "feedback_stats_of rows min_labeled =
     (let tp = count_feedback ''TRUE_POSITIVE'' rows; fp = count_feedback ''FALSE_POSITIVE'' rows;
          labeled = tp + fp
      in \<lparr>fs_total = length rows, fs_true_positives = tp, fs_false_positives = fp, fs_labeled = labeled,
          fs_false_positive_rate =
            (if min_labeled \<le> labeled \<and> 0 < labeled
             then Some (pyround 4 (fl (of_nat fp / of_nat labeled))) else None)\<rparr>)"

section \<open>The endpoints\<close>

definition fetch_alert :: "alert_db \<Rightarrow> string \<Rightarrow> py_error + alert" where
  "fetch_alert db aid = (case List.find (\<lambda>a. al_alert_id a = aid) (adb_alerts db) of
     None \<Rightarrow> Inl (HTTPException 404) | Some a \<Rightarrow> Inr a)"

text \<open>\<open>_apply_transition\<close>: the changed row.\<close>

definition moved_alert :: "alert_transition \<Rightarrow> string \<Rightarrow> time \<Rightarrow> alert \<Rightarrow> alert" where
  "moved_alert t actor now row =
     (let r1 = row\<lparr>al_status := at_new t, al_updated_at := now\<rparr>;
          r2 = (if at_new t = ''ACKNOWLEDGED''
                then r1\<lparr>al_acknowledged_at := Some now, al_acknowledged_by := Some actor\<rparr> else r1)
      in if at_new t = ''RESOLVED'' then r2\<lparr>al_resolved_at := Some now\<rparr> else r2)"

definition desk_transition ::
  "alert_db \<Rightarrow> alert \<Rightarrow> string \<Rightarrow> string \<Rightarrow> string \<Rightarrow> time \<Rightarrow> py_error + (alert_db \<times> alert)" where
  "desk_transition db row target action actor now =
     (case alert_transition_to (al_status row) target (action = ''REOPENED'') of
        Inl _ \<Rightarrow> Inl (HTTPException 409)
      | Inr t \<Rightarrow>
         (let r = moved_alert t actor now row
          in Inr (alert_audit_record (al_alert_id row) (at_action t) (at_previous t) (at_new t) actor []
                (db\<lparr>adb_alerts := update_row al_id (al_id row) (\<lambda>_. r) (adb_alerts db)\<rparr>), r)))"

definition desk_assign ::
  "alert_db \<Rightarrow> alert \<Rightarrow> string \<Rightarrow> string \<Rightarrow> time \<Rightarrow> py_error + (alert_db \<times> alert)" where
  "desk_assign db row payload actor now =
     (let assigned_to = py_strip payload in
      if assigned_to = [] then Inl (HTTPException 422)
      else let r = row\<lparr>al_assigned_to := Some assigned_to, al_assigned_at := Some now, al_updated_at := now\<rparr>
        in Inr (alert_audit_record (al_alert_id row) ''ASSIGNED'' (al_status row) (al_status row) actor
              [(''assigned_to'', VStr assigned_to)]
              (db\<lparr>adb_alerts := update_row al_id (al_id row) (\<lambda>_. r) (adb_alerts db)\<rparr>), r))"

definition desk_feedback ::
  "alert_db \<Rightarrow> alert \<Rightarrow> string \<Rightarrow> string \<Rightarrow> string \<Rightarrow> time \<Rightarrow> py_error + (alert_db \<times> alert)" where
  "desk_feedback db row payload_type payload_comment actor now =
     (let feedback_type = py_upper payload_type in
      if feedback_type \<notin> {''TRUE_POSITIVE'', ''FALSE_POSITIVE'', ''BENIGN'', ''DUPLICATE'',
           ''EXPECTED_ACTIVITY'', ''UNKNOWN''} then Inl (HTTPException 422)
      else (case feedback_submit db (al_alert_id row) feedback_type actor (py_strip payload_comment) of
          Inl e \<Rightarrow> Inl e
        | Inr (db1, _) \<Rightarrow>
           (let r = row\<lparr>al_feedback := Some feedback_type, al_updated_at := now\<rparr>
            in Inr (alert_audit_record (al_alert_id row) ''FEEDBACK'' (al_status row) (al_status row) actor
                  [(''feedback_type'', VStr feedback_type)]
                  (db1\<lparr>adb_alerts := update_row al_id (al_id row) (\<lambda>_. r) (adb_alerts db1)\<rparr>), r))))"

datatype desk_request =
    Acknowledge | InProgress | Resolve | CloseAlert | Reopen | SuppressAlert
  | Assign string
  | Feedback string string

fun desk_action :: "alert_db \<Rightarrow> alert \<Rightarrow> desk_request \<Rightarrow> string \<Rightarrow> time \<Rightarrow> py_error + (alert_db \<times> alert)" where
  "desk_action db row Acknowledge = desk_transition db row ''ACKNOWLEDGED'' ''ACKNOWLEDGED''"
| "desk_action db row InProgress = desk_transition db row ''IN_PROGRESS'' ''IN_PROGRESS''"
| "desk_action db row Resolve = desk_transition db row ''RESOLVED'' ''RESOLVED''"
| "desk_action db row CloseAlert = desk_transition db row ''CLOSED'' ''CLOSED''"
| "desk_action db row Reopen = desk_transition db row ''OPEN'' ''REOPENED''"
| "desk_action db row SuppressAlert = desk_transition db row ''SUPPRESSED'' ''SUPPRESSED''"
| "desk_action db row (Assign who) = desk_assign db row who"
| "desk_action db row (Feedback kind comment) = desk_feedback db row kind comment"

text \<open>An endpoint: inert unless \<open>ALERTS_V2_ENABLED\<close>, 404 for an unknown alert.\<close>

definition desk_endpoint ::
  "bool \<Rightarrow> alert_db \<Rightarrow> string \<Rightarrow> desk_request \<Rightarrow> string \<Rightarrow> time \<Rightarrow> py_error + (alert_db \<times> alert option)" where
  "desk_endpoint enabled db aid req actor now =
     (if \<not> enabled then Inr (db, None)
      else (case fetch_alert db aid of
          Inl e \<Rightarrow> Inl e
        | Inr row \<Rightarrow> map_sum id (map_prod id Some) (desk_action db row req actor now)))"

section \<open>The queue\<close>

record alert_query =
  aq_severity :: "string option"
  aq_status :: "string option"
  aq_detector :: "string option"
  aq_mitre :: "string option"
  aq_host :: "string option"
  aq_user :: "string option"
  aq_source_ip :: "string option"
  aq_assigned_to :: "string option"
  aq_feedback :: "string option"
  aq_from :: "time option"
  aq_to :: "time option"

text \<open>A filter is applied when the parameter is neither absent nor empty.\<close>

definition wants :: "string option \<Rightarrow> string \<Rightarrow> bool" where
  "wants p v \<longleftrightarrow> (case p of None \<Rightarrow> True | Some s \<Rightarrow> s = [] \<or> s = v)"

definition wants_opt :: "string option \<Rightarrow> string option \<Rightarrow> bool" where
  "wants_opt p v \<longleftrightarrow> (case p of None \<Rightarrow> True | Some s \<Rightarrow> s = [] \<or> v = Some s)"

definition query_matches :: "alert_query \<Rightarrow> alert \<Rightarrow> bool" where
  "query_matches q a \<longleftrightarrow>
     wants (aq_severity q) (al_severity a) \<and> wants (aq_status q) (al_status a)
     \<and> wants (aq_detector q) (al_detector_id a) \<and> wants (aq_mitre q) (al_mitre_technique a)
     \<and> wants (aq_host q) (al_host_name a) \<and> wants (aq_user q) (al_username a)
     \<and> wants (aq_source_ip q) (al_source_ip a) \<and> wants_opt (aq_assigned_to q) (al_assigned_to a)
     \<and> wants_opt (aq_feedback q) (al_feedback a)
     \<and> (case aq_from q of None \<Rightarrow> True | Some t \<Rightarrow> t \<le> al_first_seen a)
     \<and> (case aq_to q of None \<Rightarrow> True | Some t \<Rightarrow> al_first_seen a \<le> t)"

text \<open>\<open>sql_order\<close> is the database's \<open>ORDER BY first_seen DESC\<close>, which leaves
  the order of equal times open.\<close>

definition list_alerts ::
  "(alert list \<Rightarrow> alert list) \<Rightarrow> bool \<Rightarrow> alert_db \<Rightarrow> alert_query \<Rightarrow> nat \<Rightarrow> nat \<Rightarrow> py_error + alert list" where
  "list_alerts sql_order enabled db q limit offset =
     (if limit < 1 \<or> 500 < limit then Inl (HTTPException 422)
      else if \<not> enabled then Inr []
      else if (case aq_severity q of None \<Rightarrow> False | Some s \<Rightarrow> s \<noteq> [] \<and> s \<notin> set severities)
      then Inl (HTTPException 422)
      else if (case aq_status q of None \<Rightarrow> False | Some s \<Rightarrow> s \<noteq> [] \<and> s \<notin> set ALERT_STATUSES)
      then Inl (HTTPException 422)
      else Inr (take limit (drop offset (sql_order (filter (query_matches q) (adb_alerts db))))))"

definition age_label :: "int \<Rightarrow> string" where
  "age_label age_seconds =
     (if age_seconds < 900 then ''0-15m'' else if age_seconds < 3600 then ''15-60m''
      else if age_seconds < 14400 then ''1-4h'' else ''4h+'')"

section \<open>The audit trail\<close>

definition trail :: "alert_db \<Rightarrow> string \<Rightarrow> alert_audit list" where
  "trail db aid = filter (\<lambda>e. aa_alert_id e = aid) (adb_audit db)"

text \<open>Replaying a trail: every event starts where the one before it ended, and either
  keeps the status, creates the alert, or is a legal step.\<close>

definition legal_event :: "string \<Rightarrow> string \<Rightarrow> bool" where
  "legal_event s t \<longleftrightarrow> t = s \<or> (s = [] \<and> t = ''OPEN'') \<or> alert_step s t \<noteq> None"

fun replay :: "string \<Rightarrow> alert_audit list \<Rightarrow> string option" where
  "replay s [] = Some s"
| "replay s (e # es) = (if aa_previous_status e = s \<and> legal_event s (aa_new_status e)
     then replay (aa_new_status e) es else None)"

lemma replay_append: "replay s (xs @ ys) = Option.bind (replay s xs) (\<lambda>t. replay t ys)"
  by (induction xs arbitrary: s) auto

definition audit_ok :: "alert_db \<Rightarrow> bool" where
  "audit_ok db \<longleftrightarrow> (\<forall>a\<in>set (adb_alerts db). replay [] (trail db (al_alert_id a)) = Some (al_status a))
     \<and> (\<forall>e\<in>set (adb_audit db). aa_alert_id e = ''-'' \<or> (\<exists>a\<in>set (adb_alerts db). al_alert_id a = aa_alert_id e))"

lemma audit_okD:
  assumes "audit_ok db"
  shows "a \<in> set (adb_alerts db) \<Longrightarrow> replay [] (trail db (al_alert_id a)) = Some (al_status a)"
    and "e \<in> set (adb_audit db) \<Longrightarrow> aa_alert_id e = ''-'' \<or> (\<exists>a\<in>set (adb_alerts db). al_alert_id a = aa_alert_id e)"
  using assms unfolding audit_ok_def by blast+

lemma audit_ok_empty: "audit_ok empty_alert_db"
  by (simp add: audit_ok_def empty_alert_db_def)

lemma trail_snoc:
  "adb_audit db' = adb_audit db @ [e] \<Longrightarrow>
   trail db' aid = trail db aid @ (if aa_alert_id e = aid then [e] else [])"
  by (simp add: trail_def)

text \<open>Changing one row and recording it.\<close>

lemma audit_ok_update:
  assumes ok: "alert_db_ok db" and au: "audit_ok db" and a: "a \<in> set (adb_alerts db)"
    and rows: "adb_alerts db' = update_row al_id (al_id a) (\<lambda>_. b) (adb_alerts db)" "al_alert_id b = al_alert_id a"
    and ev: "adb_audit db' = adb_audit db @ [e]" "aa_alert_id e = al_alert_id a"
      "aa_previous_status e = al_status a" "aa_new_status e = al_status b"
    and legal: "legal_event (al_status a) (al_status b)"
  shows "audit_ok db'"
proof -
  note T = trail_snoc [OF ev(1)]
  have A: "replay [] (trail db' (al_alert_id c)) = Some (al_status c)" if "c \<in> set (adb_alerts db')" for c
  proof -
    from that have "\<exists>d\<in>set (adb_alerts db). c = (if al_id d = al_id a then b else d)"
      unfolding rows(1) set_update_row .
    then obtain d where d: "d \<in> set (adb_alerts db)" "c = (if al_id d = al_id a then b else d)" by (rule bexE)
    show ?thesis
    proof (cases "al_id d = al_id a")
      case True
      then have "c = b" using d(2) by simp
      moreover have "replay [] (trail db' (al_alert_id a)) = Some (al_status b)"
        using audit_okD(1) [OF au a] by (simp add: T ev replay_append legal)
      ultimately show ?thesis using rows(2) by simp
    next
      case False
      then have "al_alert_id d \<noteq> al_alert_id a" using alert_ids_agree [OF ok d(1) a] by simp
      then show ?thesis using d False audit_okD(1) [OF au d(1)] ev(2) by (simp add: T)
    qed
  qed
  have ids: "al_alert_id ` set (adb_alerts db) \<subseteq> al_alert_id ` set (adb_alerts db')"
  proof
    fix k assume "k \<in> al_alert_id ` set (adb_alerts db)"
    then obtain d where d: "d \<in> set (adb_alerts db)" "k = al_alert_id d" by blast
    let ?d = "if al_id d = al_id a then b else d"
    have "?d \<in> set (adb_alerts db')" unfolding rows(1) set_update_row using d(1) by blast
    moreover have "al_alert_id ?d = k"
      using d(2) alert_ids_agree [OF ok d(1) a] rows(2) by (cases "al_id d = al_id a") simp_all
    ultimately show "k \<in> al_alert_id ` set (adb_alerts db')" by blast
  qed
  have B: "aa_alert_id x = ''-'' \<or> (\<exists>c\<in>set (adb_alerts db'). al_alert_id c = aa_alert_id x)"
    if "x \<in> set (adb_audit db')" for x
  proof (cases "x = e")
    case True
    have "al_alert_id a \<in> al_alert_id ` set (adb_alerts db')" using ids a by blast
    then show ?thesis using True ev(2) by auto
  next
    case False
    then have "x \<in> set (adb_audit db)" using that ev(1) by simp
    then show ?thesis using audit_okD(2) [OF au] ids by (metis image_eqI image_iff subsetD)
  qed
  from A B show ?thesis unfolding audit_ok_def by blast
qed

lemma process_detection_audit:
  assumes ok: "alert_db_ok db" and au: "audit_ok db"
    and p: "process_detection cfg H wall db d now0 actor = Inr (db', r)"
  shows "audit_ok db'"
  using p
proof (cases rule: process_detection_cases)
  case (suppressed rule)
  have "trail db' (al_alert_id a) = trail db (al_alert_id a)" if "a \<in> set (adb_alerts db)" for a
    using alert_db_okD(3) [OF ok that] suppressed(3)
    by (simp add: trail_def count_suppressed_def alert_audit_record_audit alert_public_id_def)
  moreover have "adb_alerts db' = adb_alerts db" using suppressed(3) by simp
  moreover have "adb_audit db' = adb_audit db @ [\<lparr>aa_alert_id = ''-'', aa_action = ''SUPPRESSED'', aa_previous_status = [],
      aa_new_status = [], aa_actor = actor, aa_details = [(''policy_id'', VStr (sr_policy_id rule)),
      (''detection_id'', VStr (det_detection_id d))]\<rparr>]"
    using suppressed(3) by (simp add: count_suppressed_def alert_audit_record_audit)
  ultimately show ?thesis using au by (simp add: audit_ok_def)
next
  case (merged a)
  then have a: "a \<in> set (adb_alerts db)" using find_existing_Some by blast
  let ?t = "detection_time d (now_or wall now0)"
  obtain e where e: "adb_audit db' = adb_audit db @ [e]" "aa_alert_id e = al_alert_id a"
    "aa_previous_status e = al_status a" "aa_new_status e = al_status a"
    unfolding merged(4) by (simp add: merge_detection_def Let_def alert_audit_record_audit)
  have "adb_alerts db' = update_row al_id (al_id a) (\<lambda>_. merged_alert wall ?t d a) (adb_alerts db)"
    unfolding merged(4) by (simp add: merge_detection_def Let_def)
  from audit_ok_update [OF ok au a this _ e(1,2,3)] e(4) show ?thesis by (simp add: legal_event_def)
next
  case created
  let ?n = "new_alert (alert_fingerprint H d) d (detection_time d (now_or wall now0)) (now_or wall now0) (Suc (adb_seq db))"
  have rows: "adb_alerts db' = adb_alerts db @ [?n]"
    unfolding created(4) by (simp add: create_alert_def Let_def)
  obtain e where e: "adb_audit db' = adb_audit db @ [e]" "aa_alert_id e = al_alert_id ?n"
    "aa_previous_status e = []" "aa_new_status e = ''OPEN''"
    unfolding created(4) by (simp add: create_alert_def Let_def alert_audit_record_audit)
  have id: "al_alert_id ?n = alert_public_id (Suc (adb_seq db))" "al_status ?n = ''OPEN''" by (simp_all add: new_alert_def)
  have fresh: "al_alert_id a \<noteq> al_alert_id ?n" if "a \<in> set (adb_alerts db)" for a
    using alert_db_okD(1,3) [OF ok] that id(1) by (force simp: als.ids_ok_def)
  have none: "trail db (al_alert_id ?n) = []"
    unfolding trail_def filter_empty_conv
  proof (intro ballI notI)
    fix x assume x: "x \<in> set (adb_audit db)" "aa_alert_id x = al_alert_id ?n"
    then show False using audit_okD(2) [OF au x(1)] fresh id(1) by (auto simp: alert_public_id_def)
  qed
  have "replay [] (trail db' (al_alert_id a)) = Some (al_status a)" if "a \<in> set (adb_alerts db')" for a
  proof (cases "a = ?n")
    case True
    then show ?thesis using none e id(2) by (simp add: trail_snoc [OF e(1)] legal_event_def)
  next
    case False
    then have a: "a \<in> set (adb_alerts db)" using that rows by simp
    then show ?thesis using fresh [OF a] e(2) audit_okD(1) [OF au a] by (simp add: trail_snoc [OF e(1)])
  qed
  moreover have "aa_alert_id x = ''-'' \<or> (\<exists>a\<in>set (adb_alerts db'). al_alert_id a = aa_alert_id x)"
    if "x \<in> set (adb_audit db')" for x
    using that audit_okD(2) [OF au, of x] e(1,2) rows by auto
  ultimately show ?thesis unfolding audit_ok_def by blast
qed (use au in simp)


lemma process_detections_audit:
  "alert_db_ok db \<Longrightarrow> audit_ok db \<Longrightarrow> list_all detection_ok ds
   \<Longrightarrow> process_detections cfg H wall db ds now actor = Inr (db', as) \<Longrightarrow> alert_db_ok db' \<and> audit_ok db'"
proof (induction ds arbitrary: db as)
  case (Cons d ds)
  then obtain db1 r as1 where s:
    "process_detection cfg H wall db d now actor = Inr (db1, r)"
    "process_detections cfg H wall db1 ds now actor = Inr (db', as1)"
    by (auto split: sum.splits)
  have d: "detection_ok d" "list_all detection_ok ds" using Cons.prems(3) by simp_all
  show ?case
    using Cons.IH [OF process_detection_keeps_ok [OF Cons.prems(1) d(1) s(1)]
        process_detection_audit [OF Cons.prems(1,2) s(1)] d(2) s(2)] .
qed simp

section \<open>What a request does\<close>

text \<open>The row a successful request leaves, and the event it records.\<close>

lemma alert_transition_to_Inr:
  "alert_transition_to s t reopen = Inr x \<Longrightarrow> at_previous x = s \<and> at_new x = t \<and> t \<in> set ALERT_STATUSES \<and> legal_event s t"
  using alert_transition_spec [of s t reopen]
  by (auto simp: legal_event_def alert_step_def alert_transition_to_def split: if_splits)

lemma moved_alert_simps [simp]:
  "al_id (moved_alert t actor now a) = al_id a" "al_alert_id (moved_alert t actor now a) = al_alert_id a"
  "al_status (moved_alert t actor now a) = at_new t" "al_severity (moved_alert t actor now a) = al_severity a"
  "al_confidence (moved_alert t actor now a) = al_confidence a"
  "al_first_seen (moved_alert t actor now a) = al_first_seen a" "al_last_seen (moved_alert t actor now a) = al_last_seen a"
  "al_occurrence_count (moved_alert t actor now a) = al_occurrence_count a"
  "al_detection_ids (moved_alert t actor now a) = al_detection_ids a"
  "al_fingerprint (moved_alert t actor now a) = al_fingerprint a"
  "al_evidence (moved_alert t actor now a) = al_evidence a"
  by (simp_all add: moved_alert_def Let_def)

text \<open>The columns a request may not touch.\<close>

definition same_facts :: "alert \<Rightarrow> alert \<Rightarrow> bool" where
  "same_facts a b \<longleftrightarrow> al_id b = al_id a \<and> al_alert_id b = al_alert_id a \<and> al_fingerprint b = al_fingerprint a
     \<and> al_severity b = al_severity a \<and> al_confidence b = al_confidence a \<and> al_evidence b = al_evidence a
     \<and> al_first_seen b = al_first_seen a \<and> al_last_seen b = al_last_seen a
     \<and> al_occurrence_count b = al_occurrence_count a \<and> al_detection_ids b = al_detection_ids a"

lemma desk_transition_Inr:
  assumes "desk_transition db a target action actor now = Inr (db', b)"
  shows "\<exists>t. alert_transition_to (al_status a) target (action = ''REOPENED'') = Inr t \<and> b = moved_alert t actor now a
     \<and> db' = alert_audit_record (al_alert_id a) (at_action t) (at_previous t) (at_new t) actor []
                (db\<lparr>adb_alerts := update_row al_id (al_id a) (\<lambda>_. b) (adb_alerts db)\<rparr>)"
proof (cases "alert_transition_to (al_status a) target (action = ''REOPENED'')")
  case (Inr t)
  with assms show ?thesis by (intro exI [of _ t]) (auto simp: desk_transition_def Let_def)
qed (use assms in \<open>simp add: desk_transition_def\<close>)

lemma desk_action_effect:
  assumes "desk_action db a req actor now = Inr (db', b)"
  shows "\<exists>e. adb_alerts db' = update_row al_id (al_id a) (\<lambda>_. b) (adb_alerts db) \<and> adb_audit db' = adb_audit db @ [e]
     \<and> aa_alert_id e = al_alert_id a \<and> aa_previous_status e = al_status a \<and> aa_new_status e = al_status b
     \<and> aa_actor e = actor \<and> legal_event (al_status a) (al_status b) \<and> same_facts a b
     \<and> (al_status b = al_status a \<or> al_status b \<in> set ALERT_STATUSES)
     \<and> adb_seq db' = adb_seq db \<and> adb_occurrences db' = adb_occurrences db \<and> al_updated_at b = now"
proof -
  have move: ?thesis if tr: "desk_transition db a target action actor now = Inr (db', b)" for target action
  proof -
    obtain t where t: "alert_transition_to (al_status a) target (action = ''REOPENED'') = Inr t"
      "b = moved_alert t actor now a"
      "db' = alert_audit_record (al_alert_id a) (at_action t) (at_previous t) (at_new t) actor []
                (db\<lparr>adb_alerts := update_row al_id (al_id a) (\<lambda>_. b) (adb_alerts db)\<rparr>)"
      using desk_transition_Inr [OF tr] by blast
    show ?thesis
      using alert_transition_to_Inr [OF t(1)] t(2,3)
      by (simp add: alert_audit_record_audit same_facts_def) (simp add: moved_alert_def Let_def)
  qed
  show ?thesis
  proof (cases req)
    case (Assign who)
    then show ?thesis
      using assms by (auto simp: desk_assign_def Let_def alert_audit_record_audit same_facts_def legal_event_def split: if_splits)
  next
    case (Feedback kind comment)
    then show ?thesis
      using assms by (auto simp: desk_feedback_def feedback_submit_def Let_def alert_audit_record_audit
          same_facts_def legal_event_def split: if_splits)
  qed (use assms move in auto)
qed

lemma alert_db_ok_update:
  assumes ok: "alert_db_ok db" and a: "a \<in> set (adb_alerts db)" and same: "same_facts a b"
    and st: "al_status b \<in> set ALERT_STATUSES"
    and rows: "adb_alerts db' = update_row al_id (al_id a) (\<lambda>_. b) (adb_alerts db)"
    and rest: "adb_seq db' = adb_seq db" "adb_occurrences db' = adb_occurrences db"
  shows "alert_db_ok db'"
proof -
  have row: "c = a" if "c \<in> set (adb_alerts db)" "al_id c = al_id a" for c
    using als.same_row [OF alert_db_okD(1) [OF ok] that(1) a that(2)] .
  have eqs: "al_id b = al_id a" "al_alert_id b = al_alert_id a" using same by (simp_all add: same_facts_def)
  have facts: "al_id b = al_id a" "al_alert_id b = al_alert_id a" "al_severity b = al_severity a"
    "al_confidence b = al_confidence a" "al_first_seen b = al_first_seen a" "al_last_seen b = al_last_seen a"
    "al_occurrence_count b = al_occurrence_count a" "al_detection_ids b = al_detection_ids a"
    using same unfolding same_facts_def by blast+
  have maps: "map k (adb_alerts db') = map k (adb_alerts db)" if "k b = k a" for k :: "alert \<Rightarrow> 'x"
    unfolding rows update_row_def using that row by auto
  have A: "als.ids_ok (adb_alerts db') (adb_seq db')"
    using als.ids_ok_cong [OF maps [of al_id]] alert_db_okD(1) [OF ok] eqs rest(1) by simp
  have B: "alert_ok db' c" if "c \<in> set (adb_alerts db')" for c
  proof -
    from that have "\<exists>d\<in>set (adb_alerts db). c = (if al_id d = al_id a then b else d)"
      unfolding rows set_update_row .
    then obtain d where d: "d \<in> set (adb_alerts db)" "c = (if al_id d = al_id a then b else d)" by (rule bexE)
    have "alert_ok db b"
      using alert_db_okD(2) [OF ok a] st unfolding alert_ok_def facts by blast
    then have "alert_ok db c" using alert_db_okD(2) [OF ok d(1)] d(2) by simp
    then show ?thesis using alert_ok_frame [OF rest(2)] by simp
  qed
  have C: "\<exists>c\<in>set (adb_alerts db'). oc_alert_id o' = al_alert_id c" if "o' \<in> set (adb_occurrences db')" for o'
  proof -
    have "oc_alert_id o' \<in> set (map al_alert_id (adb_alerts db))"
      using alert_db_okD(4) [OF ok] that rest(2) by auto
    then have "oc_alert_id o' \<in> set (map al_alert_id (adb_alerts db'))" using maps [of al_alert_id] eqs(2) by simp
    then show ?thesis by auto
  qed
  from A B C show ?thesis unfolding alert_db_ok_def by blast
qed

lemma fetch_alert_Inr: "fetch_alert db aid = Inr a \<Longrightarrow> a \<in> set (adb_alerts db) \<and> al_alert_id a = aid"
  by (auto simp: fetch_alert_def split: option.splits dest: find_SomeD)

lemma desk_endpoint_ok:
  assumes ok: "alert_db_ok db" and au: "audit_ok db"
    and r: "desk_endpoint enabled db aid req actor now = Inr (db', x)"
  shows "alert_db_ok db' \<and> audit_ok db'"
proof (cases "enabled")
  case False
  then show ?thesis using r ok au by (simp add: desk_endpoint_def)
next
  case True
  then obtain a b where f: "fetch_alert db aid = Inr a" "desk_action db a req actor now = Inr (db', b)"
    using r by (auto simp: desk_endpoint_def map_sum_def split: sum.splits)
  have a: "a \<in> set (adb_alerts db)" using fetch_alert_Inr [OF f(1)] by blast
  obtain e where e: "adb_alerts db' = update_row al_id (al_id a) (\<lambda>_. b) (adb_alerts db)" "adb_audit db' = adb_audit db @ [e]"
      "aa_alert_id e = al_alert_id a" "aa_previous_status e = al_status a" "aa_new_status e = al_status b"
      "legal_event (al_status a) (al_status b)" "same_facts a b" "al_status b = al_status a \<or> al_status b \<in> set ALERT_STATUSES"
      "adb_seq db' = adb_seq db" "adb_occurrences db' = adb_occurrences db"
    using desk_action_effect [OF f(2)] by blast
  have st: "al_status b \<in> set ALERT_STATUSES"
    using e(8) alert_db_okD(2) [OF ok a] by (auto simp: alert_ok_def)
  have "al_alert_id b = al_alert_id a" using e(7) by (simp add: same_facts_def)
  then show ?thesis
    using alert_db_ok_update [OF ok a e(7) st e(1,9,10)] audit_ok_update [OF ok au a e(1) _ e(2-6)] by blast
qed

section \<open>Properties\<close>

text \<open>A session: the engine's batches and the analysts' requests, in any order.  A request
  that raises leaves the store as it is.\<close>

datatype session_step =
    Batch "detection list" "time option" string
  | Request string desk_request string time

fun session_run ::
  "engine_config \<Rightarrow> (string \<Rightarrow> string) \<Rightarrow> bool \<Rightarrow> time \<Rightarrow> alert_db \<Rightarrow> session_step list \<Rightarrow> alert_db" where
  "session_run cfg H enabled wall db [] = db"
| "session_run cfg H enabled wall db (Batch ds now actor # ss) =
     (case process_detections cfg H wall db ds now actor of
        Inl _ \<Rightarrow> session_run cfg H enabled wall db ss
      | Inr (db', _) \<Rightarrow> session_run cfg H enabled wall db' ss)"
| "session_run cfg H enabled wall db (Request aid req actor now # ss) =
     (case desk_endpoint enabled db aid req actor now of
        Inl _ \<Rightarrow> session_run cfg H enabled wall db ss
      | Inr (db', _) \<Rightarrow> session_run cfg H enabled wall db' ss)"

fun step_ok :: "session_step \<Rightarrow> bool" where
  "step_ok (Batch ds now actor) = list_all detection_ok ds"
| "step_ok (Request aid req actor now) = True"

lemma session_run_ok:
  "list_all step_ok ss \<Longrightarrow> alert_db_ok db \<Longrightarrow> audit_ok db \<Longrightarrow>
   alert_db_ok (session_run cfg H enabled wall db ss) \<and> audit_ok (session_run cfg H enabled wall db ss)"
proof (induction ss arbitrary: db)
  case (Cons s ss)
  show ?case
  proof (cases s)
    case (Batch ds now actor)
    show ?thesis
    proof (cases "process_detections cfg H wall db ds now actor")
      case (Inr p)
      then obtain db' as where p: "process_detections cfg H wall db ds now actor = Inr (db', as)" by (cases p) auto
      have "alert_db_ok db' \<and> audit_ok db'"
        using process_detections_audit [OF Cons.prems(2,3) _ p] Cons.prems(1) Batch by simp
      then show ?thesis using Cons.IH [of db'] Cons.prems(1) Batch p by simp
    qed (use Cons Batch in simp)
  next
    case (Request aid req actor now)
    show ?thesis
    proof (cases "desk_endpoint enabled db aid req actor now")
      case (Inr p)
      then obtain db' x where p: "desk_endpoint enabled db aid req actor now = Inr (db', x)" by (cases p) auto
      then show ?thesis using Cons.IH [of db'] desk_endpoint_ok [OF Cons.prems(2,3) p] Cons.prems(1) Request by simp
    qed (use Cons Request in simp)
  qed
qed simp

text \<open>C39: whatever batches of detections and analyst requests arrive, in whatever order, the
  audit trail of every alert replays its life: it starts with the creation, every event
  starts in the status the one before it left, every change of status is a legal step, and
  the trail ends in the alert's present status.  The store invariant holds throughout.\<close>

theorem audit_trail_replays_lifecycle:
  assumes "list_all step_ok ss"
  shows "alert_db_ok (session_run cfg H enabled wall empty_alert_db ss)
     \<and> audit_ok (session_run cfg H enabled wall empty_alert_db ss)"
  using session_run_ok [OF assms alert_db_ok_empty audit_ok_empty] .

theorem audit_trail_replays_lifecycle_witness:
  "audit_ok (session_run dev_config id True 0 empty_alert_db
     [Batch [example_detection] (Some 0) ''system'', Request ''ALR-000001'' Acknowledge ''alice'' 5,
      Request ''ALR-000001'' Reopen ''bob'' 6])"
proof -
  have "list_all step_ok [Batch [example_detection] (Some 0) ''system'', Request ''ALR-000001'' Acknowledge ''alice'' 5,
      Request ''ALR-000001'' Reopen ''bob'' 6]" by (simp add: example_detection_ok)
  from audit_trail_replays_lifecycle [OF this] show ?thesis by blast
qed

text \<open>A request either raises, with 404 exactly when the alert does not exist, 409 for an
  illegal transition and 422 for a bad value, or it changes the one alert it names: no
  fact of the detection (severity, confidence, evidence, times, counts) changes, the
  change is stamped, and exactly one audit event records it under the caller's name.\<close>

theorem desk_request_effect:
  assumes ok: "alert_db_ok db"
  shows "case desk_endpoint True db aid req actor now of
     Inl e \<Rightarrow> (if \<exists>a\<in>set (adb_alerts db). al_alert_id a = aid
               then e \<in> {HTTPException 409, HTTPException 422} else e = HTTPException 404)
   | Inr (db', r) \<Rightarrow> (\<exists>a b e. a \<in> set (adb_alerts db) \<and> al_alert_id a = aid \<and> r = Some b \<and> same_facts a b
        \<and> adb_alerts db' = update_row al_id (al_id a) (\<lambda>_. b) (adb_alerts db) \<and> al_updated_at b = now
        \<and> adb_audit db' = adb_audit db @ [e] \<and> aa_alert_id e = aid \<and> aa_actor e = actor
        \<and> aa_previous_status e = al_status a \<and> aa_new_status e = al_status b)"
proof (cases "fetch_alert db aid")
  case (Inl e)
  then show ?thesis by (auto simp: desk_endpoint_def fetch_alert_def find_None_iff' split: option.splits)
next
  case (Inr a)
  note a = fetch_alert_Inr [OF Inr]
  have tr: "desk_transition db a target action actor now = Inl e \<Longrightarrow> e = HTTPException 409" for target action e
    by (auto simp: desk_transition_def Let_def split: sum.splits)
  show ?thesis
  proof (cases "desk_action db a req actor now")
    case (Inl e)
    have "e \<in> {HTTPException 409, HTTPException 422}"
    proof (cases req)
      case (Assign who)
      then show ?thesis using Inl by (auto simp: desk_assign_def Let_def split: if_splits)
    next
      case (Feedback kind comment)
      then show ?thesis
        using Inl by (auto simp: desk_feedback_def feedback_submit_def FEEDBACK_TYPES_def Let_def split: if_splits)
    qed (use Inl tr in auto)
    then show ?thesis using Inl Inr a by (auto simp: desk_endpoint_def)
  next
    case r: (Inr p)
    then obtain db' b where p: "desk_action db a req actor now = Inr (db', b)" by (cases p) auto
    then show ?thesis using desk_action_effect [OF p] Inr a by (auto simp: desk_endpoint_def)
  qed
qed

theorem desk_request_effect_witness:
  "desk_endpoint True empty_alert_db ''ALR-000009'' Resolve ''alice'' 0 = Inl (HTTPException 404)"
  using desk_request_effect [OF alert_db_ok_empty, where aid = "''ALR-000009''" and req = Resolve and actor = "''alice''" and now = 0]
  by (simp add: empty_alert_db_def split: sum.splits prod.splits)

text \<open>A false-positive rate is published only over at least the required number of
  labelled alerts, and it is then a value in [0, 1]; 0 when no alert was labelled false.\<close>

theorem fpr_only_when_labeled:
  "case fs_false_positive_rate (feedback_stats_of rows n) of
     None \<Rightarrow> fs_labeled (feedback_stats_of rows n) < n \<or> fs_labeled (feedback_stats_of rows n) = 0
   | Some r \<Rightarrow> n \<le> fs_labeled (feedback_stats_of rows n) \<and> 0 < fs_labeled (feedback_stats_of rows n) \<and> 0 \<le> r \<and> r \<le> 1"
proof -
  have "0 \<le> pyround 4 (fl (of_nat p / of_nat (t + p))) \<and> pyround 4 (fl (of_nat p / of_nat (t + p))) \<le> 1" for p t :: nat
    by (rule pyround_unit) (auto intro!: fl_nonneg fl_le_1 divide_le_eq_1 [THEN iffD2] simp: divide_le_eq_1)
  then show ?thesis by (simp add: feedback_stats_of_def Let_def) linarith
qed

end
