(* ===== verification/Group_Policy.thy ===== *)
theory Group_Policy
  imports Alert_Store
begin

text \<open>
  What identifies a behavior group and how long it lives: families, titles, windows and
  weights (\<open>backend/config.py\<close>, \<open>backend/aggregation/contract.py\<close>,
  \<open>grouping.py\<close>, \<open>windows.py\<close>), the fingerprint (\<open>fingerprint.py\<close>),
  the stored row (\<open>models.py\<close>) and its lifecycle (\<open>lifecycle.py\<close>).
\<close>

section \<open>Families, titles, windows\<close>

definition BEHAVIOR_FAMILIES :: "string list" where
  "BEHAVIOR_FAMILIES = [''authentication'', ''execution'', ''encryption'', ''unknown'']"

definition DETECTOR_BEHAVIOR_FAMILIES :: "(string \<times> string) list" where
  "DETECTOR_BEHAVIOR_FAMILIES =
     [(''D001'', ''authentication''), (''D002'', ''authentication''), (''D003'', ''execution''),
      (''D004'', ''execution''), (''D005'', ''encryption'')]"

definition BEHAVIOR_FAMILY_DEFAULT :: string where
  "BEHAVIOR_FAMILY_DEFAULT = ''unknown''"

definition FAMILY_TITLES :: "(string \<times> string) list" where
  "FAMILY_TITLES =
     [(''authentication'', ''Remote Authentication Activity''),
      (''execution'', ''Suspicious Execution Activity''),
      (''encryption'', ''Potential Data Encryption Activity''),
      (''unknown'', ''Suspicious Activity'')]"

definition BANNED_TITLE_PHRASES :: "string list" where
  "BANNED_TITLE_PHRASES =
     [''confirmed'', ''attack'', ''compromised'', ''compromise'', ''intrusion'', ''breach'',
      ''proves'', ''exfiltration'', ''ransomware attack'']"

definition GROUP_STATUSES :: "string list" where
  "GROUP_STATUSES = [''ACTIVE'', ''QUIET'', ''CLOSED'']"

definition group_title :: "string \<Rightarrow> string" where
  "group_title family = (case map_of FAMILY_TITLES family of
     Some t \<Rightarrow> t | None \<Rightarrow> the (map_of FAMILY_TITLES ''unknown''))"

definition behavior_family :: "alert \<Rightarrow> string option \<Rightarrow> string" where
  "behavior_family a detector_id =
     (let key = str_or (case detector_id of None \<Rightarrow> [] | Some d \<Rightarrow> d) (al_detector_id a) in
      case map_of DETECTOR_BEHAVIOR_FAMILIES key of
        None \<Rightarrow> BEHAVIOR_FAMILY_DEFAULT
      | Some f \<Rightarrow> if f \<in> set BEHAVIOR_FAMILIES then f else BEHAVIOR_FAMILY_DEFAULT)"

definition AGGREGATION_WINDOWS_MINUTES :: "(string \<times> int) list" where
  "AGGREGATION_WINDOWS_MINUTES =
     [(''authentication'', 15), (''execution'', 30), (''encryption'', 10), (''unknown'', 30)]"

definition AGGREGATION_WINDOW_DEFAULT_MINUTES :: int where
  "AGGREGATION_WINDOW_DEFAULT_MINUTES = 30"

definition group_window_minutes :: "string \<Rightarrow> int" where
  "group_window_minutes family = (case map_of AGGREGATION_WINDOWS_MINUTES family of
     None \<Rightarrow> AGGREGATION_WINDOW_DEFAULT_MINUTES | Some m \<Rightarrow> m)"

definition within_group_window :: "time \<Rightarrow> time \<Rightarrow> string \<Rightarrow> bool" where
  "within_group_window last_seen alert_time family \<longleftrightarrow>
     alert_time \<le> last_seen + minutes (group_window_minutes family)"

text \<open>\<open>quiet_cutoff\<close> and \<open>close_cutoff\<close> are the same comparison.\<close>

definition quiet_cutoff :: "time \<Rightarrow> time \<Rightarrow> int \<Rightarrow> bool" where
  "quiet_cutoff last_seen now quiet_after_minutes \<longleftrightarrow> last_seen + minutes quiet_after_minutes < now"

definition close_cutoff :: "time \<Rightarrow> time \<Rightarrow> int \<Rightarrow> bool" where
  "close_cutoff last_seen now close_after_minutes \<longleftrightarrow> last_seen + minutes close_after_minutes < now"

lemma group_title_cases:
  "group_title f \<in> {''Remote Authentication Activity'', ''Suspicious Execution Activity'',
     ''Potential Data Encryption Activity'', ''Suspicious Activity''}"
  by (auto simp: group_title_def FAMILY_TITLES_def)

lemma behavior_family_known: "behavior_family a d \<in> set BEHAVIOR_FAMILIES"
  by (auto simp: behavior_family_def BEHAVIOR_FAMILIES_def BEHAVIOR_FAMILY_DEFAULT_def Let_def
      split: option.splits)

section \<open>The fingerprint of a group\<close>

definition primary_host :: "alert \<Rightarrow> string" where
  "primary_host a = str_or (py_lower (py_strip
     (str_or (str_or (al_host_name a) (al_host_id a)) ''none''))) ''none''"

definition primary_user :: "alert \<Rightarrow> string" where
  "primary_user a = str_or (py_lower (py_strip
     (str_or (str_or (al_username a) (al_user_id a)) ''none''))) ''none''"

definition normalized_source :: "alert \<Rightarrow> string" where
  "normalized_source a = str_or (py_lower (py_strip (str_or (al_source_ip a) ''none''))) ''none''"

definition group_payload :: "alert \<Rightarrow> string \<Rightarrow> string" where
  "group_payload a family = json_obj
     [(''behavior_family'', json_str family),
      (''normalized_source'', json_str (normalized_source a)),
      (''primary_host'', json_str (primary_host a)),
      (''primary_user'', json_str (primary_user a))]"

definition group_fingerprint :: "(string \<Rightarrow> string) \<Rightarrow> alert \<Rightarrow> string \<Rightarrow> string" where
  "group_fingerprint H a family = H (group_payload a family)"

definition fingerprint_for :: "(string \<Rightarrow> string) \<Rightarrow> alert \<Rightarrow> string option \<Rightarrow> string" where
  "fingerprint_for H a detector_id = group_fingerprint H a (behavior_family a detector_id)"

lemma group_payload_inj:
  "group_payload a f = group_payload b g \<longleftrightarrow>
     primary_host a = primary_host b \<and> primary_user a = primary_user b
     \<and> normalized_source a = normalized_source b \<and> f = g"
  by (auto simp: group_payload_def json_obj_def json_str_inj)

text \<open>Two alerts share a group fingerprint exactly when they agree on normalised host,
  user and source and on the behavior family, provided the digest does not collide on the
  two payloads.  So grouping never crosses hosts, users or families.\<close>

theorem group_fingerprint_identity:
  assumes "H (group_payload a f) = H (group_payload b g) \<Longrightarrow> group_payload a f = group_payload b g"
  shows "group_fingerprint H a f = group_fingerprint H b g \<longleftrightarrow>
     primary_host a = primary_host b \<and> primary_user a = primary_user b
     \<and> normalized_source a = normalized_source b \<and> f = g"
  unfolding group_fingerprint_def group_payload_inj [symmetric] using assms by metis


text \<open>A stored brute-force alert, for the concrete examples.\<close>

definition example_alert :: alert where
  "example_alert = \<lparr>al_id = 1, al_alert_id = ''ALR-000001'', al_fingerprint = [], al_detector_id = ''D001'',
     al_detector_version = ''1'', al_title = ''Brute force'', al_description = [], al_severity = ''high'',
     al_confidence = 0, al_status = ''OPEN'', al_first_seen = 0, al_last_seen = 0, al_occurrence_count = 1,
     al_host_id = [], al_host_name = ''h1'', al_user_id = [], al_username = ''alice'',
     al_source_ip = ''8.8.8.8'', al_destination_ip = [], al_mitre_tactic = [], al_mitre_technique = [],
     al_evidence = [], al_observables = [], al_detection_ids = [], al_created_at = 0, al_updated_at = 0,
     al_assigned_to = None, al_assigned_at = None, al_acknowledged_at = None, al_acknowledged_by = None,
     al_resolved_at = None, al_feedback = None\<rparr>"

theorem group_fingerprint_identity_witness:
  "group_fingerprint id example_alert ''execution'' \<noteq> group_fingerprint id example_alert ''encryption''"
  using group_fingerprint_identity [of id example_alert "''execution''" example_alert "''encryption''"] by simp

section \<open>Membership\<close>

definition AGGREGATION_MEMBERSHIP_WEIGHTS :: "string \<Rightarrow> rat" where
  "AGGREGATION_MEMBERSHIP_WEIGHTS k =
     (if k = ''host'' then fl (40/100) else if k = ''user'' then fl (25/100)
      else if k = ''source'' then fl (20/100) else fl (15/100))"

definition AGGREGATION_MIN_RELATIONSHIPS :: nat where "AGGREGATION_MIN_RELATIONSHIPS = 2"

definition minimum_relationships :: "string \<Rightarrow> nat" where
  "minimum_relationships family = (if family = ''unknown'' then 4 else AGGREGATION_MIN_RELATIONSHIPS)"

definition membership_score :: "alert \<Rightarrow> string \<Rightarrow> rat" where
  "membership_score a family = (let w = AGGREGATION_MEMBERSHIP_WEIGHTS;
       base = fadd (fadd (w ''host'') (w ''user'')) (w ''source'') in
     if family = ''unknown'' then min 1 (fadd base (w ''time''))
     else min 1 (fadd base (w ''time'')))"

definition membership_reason :: "alert \<Rightarrow> string \<Rightarrow> int \<Rightarrow> string" where
  "membership_reason a family window = join '' + ''
     [''same host ('' @ primary_host a @ '')'', ''same user ('' @ primary_user a @ '')'',
      ''same source ('' @ normalized_source a @ '')'', ''same behavior family ('' @ family @ '')'',
      ''within '' @ dec (nat window) @ ''-minute aggregation window'']"

lemma membership_score_1: "membership_score a f = 1"
proof -
  have "min 1 (fadd (fadd (fadd (fl (40/100)) (fl (25/100))) (fl (20/100))) (fl (15/100))) = 1"
    by code_simp
  then show ?thesis by (simp add: membership_score_def AGGREGATION_MEMBERSHIP_WEIGHTS_def Let_def)
qed

section \<open>The stored group\<close>

type_synonym observables = "(string \<times> string list) list"

record group =
  bg_id :: nat
  bg_group_id :: string
  bg_fingerprint :: string
  bg_title :: string
  bg_description :: string
  bg_status :: string
  bg_first_seen :: time
  bg_last_seen :: time
  bg_alert_count :: nat
  bg_occurrence_count :: nat
  bg_alert_ids :: "string list"
  bg_host_ids :: "string list"
  bg_user_ids :: "string list"
  bg_source_ips :: "string list"
  bg_mitre_tactics :: "string list"
  bg_mitre_techniques :: "string list"
  bg_observables :: observables
  bg_confidence :: rat
  bg_highest_severity :: string
  bg_created_at :: time
  bg_updated_at :: time
  bg_closed_at :: "time option"

text \<open>The checks of \<open>BehaviorGroup.__post_init__\<close>, on a stored row.\<close>

definition behavior_group_init :: "group \<Rightarrow> py_error + group" where
  "behavior_group_init g =
     (if \<not> starts_with ''BG-'' (bg_group_id g) then Inl (ValueError ''behavior_group_id'')
      else if bg_status g \<notin> set GROUP_STATUSES then Inl (ValueError ''status'')
      else if bg_highest_severity g \<notin> set severities then Inl (ValueError ''highest_severity'')
      else if \<not> (0 \<le> bg_confidence g \<and> bg_confidence g \<le> 1) then Inl (ValueError ''confidence'')
      else if \<exists>p\<in>set BANNED_TITLE_PHRASES. contains p (py_lower (bg_title g))
      then Inl (ValueError ''title'')
      else Inr g)"

section \<open>Lifecycle\<close>

definition GROUP_TRANSITIONS :: "((string \<times> string) \<times> string) list" where
  "GROUP_TRANSITIONS =
     [((''ACTIVE'', ''QUIET''), ''GROUP_QUIET''), ((''QUIET'', ''ACTIVE''), ''GROUP_REACTIVATED''),
      ((''QUIET'', ''CLOSED''), ''GROUP_CLOSED''), ((''ACTIVE'', ''CLOSED''), ''GROUP_CLOSED'')]"

definition can_group_transition :: "string \<Rightarrow> string \<Rightarrow> bool" where
  "can_group_transition current target \<longleftrightarrow> map_of GROUP_TRANSITIONS (current, target) \<noteq> None"

definition group_transition :: "string \<Rightarrow> string \<Rightarrow> py_error + string" where
  "group_transition current target = (case map_of GROUP_TRANSITIONS (current, target) of
     None \<Rightarrow> Inl (IllegalTransition current target) | Some action \<Rightarrow> Inr action)"

text \<open>\<open>apply_transition\<close> returns the changed row with the audit action.\<close>

definition group_apply_transition :: "group \<Rightarrow> string \<Rightarrow> time \<Rightarrow> py_error + (group \<times> string)" where
  "group_apply_transition g target now =
     (case group_transition (bg_status g) target of
        Inl e \<Rightarrow> Inl e
      | Inr action \<Rightarrow>
         let g1 = g\<lparr>bg_status := target, bg_updated_at := now\<rparr> in
         Inr (if target = ''CLOSED'' then g1\<lparr>bg_closed_at := Some now\<rparr> else g1, action))"

definition group_live :: "group \<Rightarrow> bool" where
  "group_live g \<longleftrightarrow> bg_status g \<in> {''ACTIVE'', ''QUIET''}"

definition group_move :: "group \<Rightarrow> string \<Rightarrow> time \<Rightarrow> py_error + group" where
  "group_move g target now = map_sum id fst (group_apply_transition g target now)"

definition group_step :: "string \<Rightarrow> string \<Rightarrow> string option" where
  "group_step s t = map_of GROUP_TRANSITIONS (s, t)"

lemma group_step_cases:
  "group_step s t = Some a \<Longrightarrow> (s, t, a) \<in>
     {(''ACTIVE'', ''QUIET'', ''GROUP_QUIET''), (''QUIET'', ''ACTIVE'', ''GROUP_REACTIVATED''),
      (''QUIET'', ''CLOSED'', ''GROUP_CLOSED''), (''ACTIVE'', ''CLOSED'', ''GROUP_CLOSED'')}"
  by (auto simp: group_step_def GROUP_TRANSITIONS_def split: if_splits)

interpretation glc: terminal_lifecycle group_step GROUP_STATUSES "''CLOSED''"
proof unfold_locales
  show "group_step s t = Some a \<Longrightarrow> t \<in> set GROUP_STATUSES" for s t a
    by (drule group_step_cases) (auto simp: GROUP_STATUSES_def)
  show "group_step ''CLOSED'' t = None" for t
    by (auto simp: group_step_def GROUP_TRANSITIONS_def)
qed

lemma group_apply_transition_Inr:
  "group_apply_transition g t now = Inr (g', action) \<longleftrightarrow>
     group_step (bg_status g) t = Some action \<and>
     g' = g\<lparr>bg_status := t, bg_updated_at := now, bg_closed_at := (if t = ''CLOSED'' then Some now else bg_closed_at g)\<rparr>"
  by (auto simp: group_apply_transition_def group_transition_def group_step_def Let_def split: option.splits)

lemma group_apply_transition_simps:
  "bg_status g = ''QUIET'' \<Longrightarrow> group_apply_transition g ''ACTIVE'' now =
     Inr (g\<lparr>bg_status := ''ACTIVE'', bg_updated_at := now\<rparr>, ''GROUP_REACTIVATED'')"
  "bg_status g = ''ACTIVE'' \<Longrightarrow> group_apply_transition g ''QUIET'' now =
     Inr (g\<lparr>bg_status := ''QUIET'', bg_updated_at := now\<rparr>, ''GROUP_QUIET'')"
  "group_live g \<Longrightarrow> group_apply_transition g ''CLOSED'' now =
     Inr (g\<lparr>bg_status := ''CLOSED'', bg_updated_at := now, bg_closed_at := Some now\<rparr>, ''GROUP_CLOSED'')"
  by (auto simp: group_apply_transition_def group_transition_def GROUP_TRANSITIONS_def Let_def group_live_def)

interpretation gcl: claimed_rows bg_id "\<lambda>n g. g\<lparr>bg_id := n\<rparr>" bg_fingerprint group_live group_move
proof unfold_locales
  show "group_move r t now = Inr q \<Longrightarrow> bg_id q = bg_id r \<and> bg_fingerprint q = bg_fingerprint r" for r t now q
    by (cases "group_apply_transition r t now") (auto simp: group_move_def group_apply_transition_Inr)
  show "\<not> group_live r \<Longrightarrow> \<exists>e. group_move r t now = Inl e" for r t now
    by (auto simp: group_move_def group_apply_transition_def group_transition_def GROUP_TRANSITIONS_def group_live_def)
qed (simp_all add: group_live_def)

end
