(* ===== verification/Group_Evidence.thy ===== *)
theory Group_Evidence
  imports Group_Policy
begin

text \<open>
  Evidence rows and observables of a group (\<open>backend/aggregation/evidence.py\<close>), and
  the list merge of the engine (\<open>_merge_unique\<close>).  A dictionary from categories to
  sorted lists is an association list in insertion order.
\<close>

section \<open>Evidence rows\<close>

record evidence_row =
  er_field :: string
  er_value :: string
  er_reason :: string

definition evidence_rows :: "alert \<Rightarrow> evidence_row list" where
  "evidence_rows a =
     (let rs = map (\<lambda>e. \<lparr>er_field = ev_field e, er_value = py_str (ev_value e),
                 er_reason = str_or (ev_reason e) (''Alert '' @ al_alert_id a)\<rparr>) (al_evidence a)
      in if rs = [] then [\<lparr>er_field = ''alert'', er_value = al_title a,
                           er_reason = ''Alert '' @ al_alert_id a\<rparr>] else rs)"

lemma evidence_rows_nonempty: "evidence_rows a \<noteq> []"
  by (simp add: evidence_rows_def Let_def)

lemma length_evidence_rows: "length (evidence_rows a) = max 1 (length (al_evidence a))"
  by (cases "al_evidence a") (simp_all add: evidence_rows_def)

section \<open>Observables\<close>

definition OBSERVABLE_KEYS :: "string list" where
  "OBSERVABLE_KEYS = [''hosts'', ''users'', ''source_ips'', ''destination_ips'', ''processes'',
     ''file_paths'', ''domains'']"

definition category_map :: "(string \<times> string) list" where
  "category_map = [(''host'', ''hosts''), (''user'', ''users''), (''ip'', ''source_ips''),
     (''src'', ''source_ips''), (''source'', ''source_ips''), (''dest'', ''destination_ips''),
     (''dst'', ''destination_ips''), (''process'', ''processes''), (''file'', ''file_paths''),
     (''path'', ''file_paths''), (''domain'', ''domains'')]"

text \<open>The bucket and the value one observable adds; a dictionary is skipped.\<close>

fun scan_observable :: "observable \<Rightarrow> (string \<times> string) list" where
  "scan_observable (ObsDict _) = []"
| "scan_observable (ObsStr obs) =
     (case partition_at (CHR '':'') obs of
        (category, Some value) \<Rightarrow>
          (case map_of category_map (py_lower (py_strip category)) of
             Some target \<Rightarrow> [(target, py_strip value)]
           | None \<Rightarrow> [(''raw'', obs)])
      | (_, None) \<Rightarrow> [(''raw'', obs)])"

definition field_observables :: "alert \<Rightarrow> (string \<times> string) list" where
  "field_observables a =
     (if str_or (al_host_name a) (al_host_id a) \<noteq> []
      then [(''hosts'', str_or (al_host_name a) (al_host_id a))] else [])
   @ (if str_or (al_username a) (al_user_id a) \<noteq> []
      then [(''users'', str_or (al_username a) (al_user_id a))] else [])
   @ (if al_source_ip a \<noteq> [] then [(''source_ips'', al_source_ip a)] else [])
   @ (if al_destination_ip a \<noteq> [] then [(''destination_ips'', al_destination_ip a)] else [])"

definition scan_observables :: "alert \<Rightarrow> (string \<times> string) list" where
  "scan_observables a = concat (map scan_observable (al_observables a))"

definition bucket :: "string \<Rightarrow> (string \<times> string) list \<Rightarrow> string list" where
  "bucket k adds = map snd (filter (\<lambda>kv. fst kv = k) adds)"

definition aggregate_observables :: "alert list \<Rightarrow> observables" where
  "aggregate_observables as =
     (let adds = concat (map (\<lambda>a. field_observables a @ scan_observables a) as) in
      map (\<lambda>k. (k, pyset (bucket k adds))) OBSERVABLE_KEYS
      @ (if bucket ''raw'' adds \<noteq> [] then [(''raw'', pyset (bucket ''raw'' adds))] else []))"

definition obs_get :: "observables \<Rightarrow> string \<Rightarrow> string list" where
  "obs_get m k = (case map_of m k of None \<Rightarrow> [] | Some vs \<Rightarrow> vs)"

definition merge_observables :: "observables \<Rightarrow> observables \<Rightarrow> observables" where
  "merge_observables existing new =
     map (\<lambda>k. (k, pyset (obs_get existing k @ obs_get new k)))
         (uniq_first (map fst existing @ map fst new))"

lemma map_of_keyed: "map_of (map (\<lambda>k. (k, f k)) ks) k = (if k \<in> set ks then Some (f k) else None)"
  by (induction ks) auto

lemma obs_get_notin: "k \<notin> fst ` set m \<Longrightarrow> obs_get m k = []"
  by (simp add: obs_get_def map_of_eq_None_iff [THEN iffD2])

lemma keys_merge_observables:
  "map fst (merge_observables m n) = uniq_first (map fst m @ map fst n)"
  by (simp add: merge_observables_def comp_def)

lemma obs_get_merge: "obs_get (merge_observables m n) k = pyset (obs_get m k @ obs_get n k)"
proof (cases "k \<in> fst ` set m \<union> fst ` set n")
  case True
  then show ?thesis by (auto simp: obs_get_def merge_observables_def map_of_keyed)
next
  case False
  then have "obs_get (merge_observables m n) k = []"
    by (intro obs_get_notin) (metis image_set keys_merge_observables set_append set_uniq_first)
  with False show ?thesis by (simp add: obs_get_notin pyset_def)
qed

lemma merge_observables_keyed:
  "merge_observables m n = map (\<lambda>k. (k, obs_get (merge_observables m n) k)) (map fst (merge_observables m n))"
  by (subst (1) merge_observables_def)
    (simp add: keys_merge_observables obs_get_merge)

text \<open>Merging observables is a union: every category holds exactly the values of both
  sides, sorted and without duplicates, and merging the same observables again changes
  nothing.\<close>

theorem merge_observables_union:
  "set (obs_get (merge_observables m n) k) = set (obs_get m k) \<union> set (obs_get n k)
   \<and> sorted (obs_get (merge_observables m n) k) \<and> distinct (obs_get (merge_observables m n) k)
   \<and> merge_observables (merge_observables m n) n = merge_observables m n"
proof -
  have k: "map fst (merge_observables (merge_observables m n) n) = map fst (merge_observables m n)"
    unfolding keys_merge_observables [of "merge_observables m n"] unfolding keys_merge_observables
    by (rule uniq_first_absorb) auto
  have g: "obs_get (merge_observables (merge_observables m n) n) k = obs_get (merge_observables m n) k" for k
    by (auto simp: obs_get_merge pyset_eq_iff)
  have "merge_observables (merge_observables m n) n = merge_observables m n"
    by (subst (1 2) merge_observables_keyed) (simp only: k g)
  then show ?thesis by (simp add: obs_get_merge)
qed

text \<open>An observable emitted as a dictionary, the form all detectors use, leaves no
  trace: the aggregated observables are those of the alert without it, so an alert with
  nothing but dictionaries contributes only its host, user and address fields.\<close>

theorem dict_observables_dropped:
  "aggregate_observables [a] =
     aggregate_observables [a\<lparr>al_observables := filter (\<lambda>x. case x of ObsStr _ \<Rightarrow> True | ObsDict _ \<Rightarrow> False) (al_observables a)\<rparr>]"
proof -
  let ?p = "\<lambda>x. case x of ObsStr _ \<Rightarrow> True | ObsDict _ \<Rightarrow> False"
  have "concat (map scan_observable (filter ?p xs)) = concat (map scan_observable xs)" for xs
  proof (induction xs)
    case (Cons x xs)
    then show ?case by (cases x) simp_all
  qed simp
  then show ?thesis by (simp add: aggregate_observables_def scan_observables_def field_observables_def)
qed

section \<open>Merging lists of names\<close>

definition merge_unique :: "string list \<Rightarrow> string list \<Rightarrow> string list" where
  "merge_unique current values =
     foldl (\<lambda>m v. if v \<noteq> [] \<and> v \<notin> set m then m @ [v] else m)
           (uniq_first (filter (\<lambda>v. v \<noteq> []) current)) values"

lemma merge_unique_foldl:
  "distinct m \<Longrightarrow> [] \<notin> set m \<Longrightarrow>
   let r = foldl (\<lambda>m v. if v \<noteq> [] \<and> v \<notin> set m then m @ [v] else m) m vs in
   distinct r \<and> [] \<notin> set r \<and> set r = set m \<union> (set vs - {[]}) \<and> take (length m) r = m"
proof (induction vs arbitrary: m)
  case (Cons v vs)
  show ?case
  proof (cases "v \<noteq> [] \<and> v \<notin> set m")
    case True
    let ?r = "foldl (\<lambda>m v. if v \<noteq> [] \<and> v \<notin> set m then m @ [v] else m) (m @ [v]) vs"
    have "distinct ?r \<and> [] \<notin> set ?r \<and> set ?r = set (m @ [v]) \<union> (set vs - {[]}) \<and> take (length (m @ [v])) ?r = m @ [v]"
      using Cons.IH [of "m @ [v]"] Cons.prems True by (auto simp: Let_def)
    moreover have "take (length m) ?r = m" if "take (length (m @ [v])) ?r = m @ [v]"
      using arg_cong [OF that, of "take (length m)"] by simp
    ultimately show ?thesis using True by (auto simp: Let_def)
  next
    case False
    then show ?thesis using Cons by (auto simp: Let_def)
  qed
qed simp

text \<open>The merged list has no duplicates and no empty names, holds exactly the
  non-empty names of both sides, keeps the order of what was there and is a fixed point.\<close>

theorem merge_unique_spec:
  "distinct (merge_unique xs ys) \<and> set (merge_unique xs ys) = (set xs \<union> set ys) - {[]}
   \<and> take (length (uniq_first (filter (\<lambda>v. v \<noteq> []) xs))) (merge_unique xs ys) = uniq_first (filter (\<lambda>v. v \<noteq> []) xs)
   \<and> merge_unique (merge_unique xs ys) ys = merge_unique xs ys"
proof -
  let ?u = "uniq_first (filter (\<lambda>v. v \<noteq> []) xs)"
  have r: "distinct (merge_unique xs ys)" "set (merge_unique xs ys) = (set xs \<union> set ys) - {[]}"
      "take (length ?u) (merge_unique xs ys) = ?u"
    using merge_unique_foldl [of ?u ys] by (auto simp: merge_unique_def Let_def)
  have idle: "foldl (\<lambda>m v. if v \<noteq> [] \<and> v \<notin> set m then m @ [v] else m) m vs = m"
    if "set vs - {[]} \<subseteq> set m" for m vs
    using that by (induction vs) auto
  have "merge_unique (merge_unique xs ys) ys
      = foldl (\<lambda>m v. if v \<noteq> [] \<and> v \<notin> set m then m @ [v] else m) (merge_unique xs ys) ys"
  proof -
    have "filter (\<lambda>v. v \<noteq> []) (merge_unique xs ys) = merge_unique xs ys"
      using r(2) by (auto simp: filter_id_conv)
    then show ?thesis
      unfolding merge_unique_def [of "merge_unique xs ys"] by (simp add: uniq_first_distinct r(1))
  qed
  also have "\<dots> = merge_unique xs ys" using r(2) by (intro idle) auto
  finally show ?thesis using r by simp
qed

end
