(* ===== verification/Group_Engine.thy ===== *)
theory Group_Engine
  imports Group_Evidence
begin

text \<open>
  The Alert -> Behavior Group engine, \<open>backend/aggregation/engine.py\<close>: the four
  tables it writes, the claim of a fingerprint, attaching an alert, one pass over a batch
  of alerts and the inactivity pass.
\<close>

section \<open>Tables\<close>

record group_member =
  gm_group_id :: string
  gm_alert_id :: string
  gm_reason :: string
  gm_score :: rat
  gm_created_at :: time

record group_evidence =
  ge_group_id :: string
  ge_alert_id :: string
  ge_row :: evidence_row
  ge_created_at :: time

record group_audit =
  ga_group_id :: string
  ga_action :: string
  ga_actor :: string
  ga_details :: "(string \<times> pyval) list"

record group_db =
  gdb_groups :: "group list"
  gdb_seq :: nat
  gdb_members :: "group_member list"
  gdb_evidence :: "group_evidence list"
  gdb_audit :: "group_audit list"

definition empty_group_db :: group_db where
  "empty_group_db = \<lparr>gdb_groups = [], gdb_seq = 0, gdb_members = [], gdb_evidence = [], gdb_audit = []\<rparr>"

definition group_audit_record ::
  "string \<Rightarrow> string \<Rightarrow> string \<Rightarrow> (string \<times> pyval) list \<Rightarrow> group_db \<Rightarrow> group_db" where
  "group_audit_record gid action actor details db =
     db\<lparr>gdb_audit := gdb_audit db @ [\<lparr>ga_group_id = gid, ga_action = action, ga_actor = actor,
        ga_details = details\<rparr>]\<rparr>"

lemma group_audit_record_frame [simp]:
  "gdb_groups (group_audit_record g a b c db) = gdb_groups db"
  "gdb_seq (group_audit_record g a b c db) = gdb_seq db"
  "gdb_members (group_audit_record g a b c db) = gdb_members db"
  "gdb_evidence (group_audit_record g a b c db) = gdb_evidence db"
  by (simp_all add: group_audit_record_def)

section \<open>Queries\<close>

definition group_public_id :: "nat \<Rightarrow> string" where
  "group_public_id n = ''BG-'' @ fmt06 n"

definition next_group_id :: "group_db \<Rightarrow> string" where
  "next_group_id db = group_public_id (last_id bg_id (gdb_groups db) + 1)"

definition live_group_for :: "group_db \<Rightarrow> string \<Rightarrow> group option" where
  "live_group_for db fp = List.find (\<lambda>g. bg_fingerprint g = fp \<and> group_live g) (gdb_groups db)"

text \<open>\<open>_closed_group_for\<close>: the row with the largest id among those with the fingerprint.\<close>

definition closed_group_for :: "group_db \<Rightarrow> string \<Rightarrow> group option" where
  "closed_group_for db fp = (let gs = filter (\<lambda>g. bg_fingerprint g = fp) (gdb_groups db) in
     List.find (\<lambda>g. bg_id g = last_id bg_id gs) gs)"

definition already_member :: "group_db \<Rightarrow> string \<Rightarrow> bool" where
  "already_member db alert_id \<longleftrightarrow> (\<exists>m\<in>set (gdb_members db). gm_alert_id m = alert_id)"

section \<open>Claiming a fingerprint\<close>

definition candidate_group :: "string \<Rightarrow> string \<Rightarrow> alert \<Rightarrow> string \<Rightarrow> time \<Rightarrow> group" where
  "candidate_group gid fp a family now =
     \<lparr>bg_id = 0, bg_group_id = gid, bg_fingerprint = fp, bg_title = group_title family,
      bg_description = [], bg_status = ''ACTIVE'', bg_first_seen = al_first_seen a,
      bg_last_seen = al_first_seen a, bg_alert_count = 0, bg_occurrence_count = 0,
      bg_alert_ids = [], bg_host_ids = [], bg_user_ids = [], bg_source_ips = [],
      bg_mitre_tactics = [], bg_mitre_techniques = [], bg_observables = [], bg_confidence = 0,
      bg_highest_severity = ''low'', bg_created_at = now, bg_updated_at = now, bg_closed_at = None\<rparr>"

text \<open>\<open>INSERT \<dots> ON CONFLICT (group_fingerprint) WHERE status IN (\<dots>) DO
  NOTHING\<close>.  The sequence number is consumed in either case; a collision on the
  unique public id is an \<open>IntegrityError\<close>.\<close>

definition insert_group :: "group_db \<Rightarrow> group \<Rightarrow> py_error + group_db" where
  "insert_group db g =
     (if \<exists>q\<in>set (gdb_groups db). bg_fingerprint q = bg_fingerprint g \<and> group_live q
      then Inr (db\<lparr>gdb_seq := Suc (gdb_seq db)\<rparr>)
      else if \<exists>q\<in>set (gdb_groups db). bg_group_id q = bg_group_id g
      then Inl (IntegrityError ''behavior_group_id'')
      else Inr (db\<lparr>gdb_groups := gdb_groups db @ [g\<lparr>bg_id := Suc (gdb_seq db)\<rparr>],
                  gdb_seq := Suc (gdb_seq db)\<rparr>))"

text \<open>\<open>_claim_group\<close>: two attempts; an \<open>IntegrityError\<close> rolls the session back
  to the last commit, \<open>base\<close>.\<close>

fun claim_attempts ::
  "nat \<Rightarrow> group_db \<Rightarrow> group_db \<Rightarrow> string \<Rightarrow> alert \<Rightarrow> string \<Rightarrow> time \<Rightarrow> py_error + (group_db \<times> group \<times> bool)" where
  "claim_attempts 0 base db fp a family now = Inl (RuntimeError ''could not claim group fingerprint'')"
| "claim_attempts (Suc k) base db fp a family now =
     (let candidate = candidate_group (next_group_id db) fp a family now in
      case insert_group db candidate of
        Inl e \<Rightarrow> claim_attempts k base base fp a family now
      | Inr db1 \<Rightarrow>
         (case live_group_for db1 fp of
            None \<Rightarrow> Inl (RuntimeError ''could not claim group fingerprint'')
          | Some existing \<Rightarrow>
              Inr (db1, existing, bg_group_id existing = bg_group_id candidate)))"

definition claim_group ::
  "group_db \<Rightarrow> group_db \<Rightarrow> string \<Rightarrow> alert \<Rightarrow> string \<Rightarrow> time \<Rightarrow> py_error + (group_db \<times> group \<times> bool)" where
  "claim_group = claim_attempts 2"

section \<open>Attaching an alert\<close>

definition describe_group :: "group \<Rightarrow> string" where
  "describe_group g =
     (let host = str_or (join '' '' (bg_host_ids g)) ''an unknown host'';
          user = str_or (join '' '' (bg_user_ids g)) ''an unknown user'';
          source = str_or (join '' '' (bg_source_ips g)) ''an unknown source''
      in dec (bg_alert_count g) @ '' related alert(s) involving '' @ user @ '' on '' @ host
         @ '' from '' @ source @ '' were observed within the aggregation window.'')"

text \<open>The confidence column and the count are read after the count was increased.\<close>

definition recompute_confidence :: "group \<Rightarrow> alert \<Rightarrow> rat" where
  "recompute_confidence g a =
     (let strongest = max (bg_confidence g) (al_confidence a) in
      if 1 < bg_alert_count g then min 1 (fadd strongest (fl (15/100)))
      else max 0 (min 1 strongest))"

definition stronger_severity :: "string \<Rightarrow> string \<Rightarrow> string" where
  "stronger_severity current new = (if severity_rank current < severity_rank new then new else current)"

text \<open>The assignments of \<open>_attach\<close> to the row, in order.\<close>

definition attached_group :: "alert \<Rightarrow> time \<Rightarrow> group \<Rightarrow> group" where
  "attached_group a now g0 =
     (let g1 = g0\<lparr>bg_alert_count := Suc (bg_alert_count g0),
                 bg_occurrence_count := bg_occurrence_count g0
                   + (if al_occurrence_count a = 0 then 1 else al_occurrence_count a),
                 bg_last_seen := max (bg_last_seen g0) (al_first_seen a),
                 bg_alert_ids := (if al_alert_id a \<notin> set (bg_alert_ids g0)
                    then bg_alert_ids g0 @ [al_alert_id a] else bg_alert_ids g0),
                 bg_host_ids := merge_unique (bg_host_ids g0) [str_or (al_host_id a) (al_host_name a)],
                 bg_user_ids := merge_unique (bg_user_ids g0) [str_or (al_user_id a) (al_username a)],
                 bg_source_ips := merge_unique (bg_source_ips g0) [al_source_ip a],
                 bg_mitre_tactics := merge_unique (bg_mitre_tactics g0) [al_mitre_tactic a],
                 bg_mitre_techniques := merge_unique (bg_mitre_techniques g0) [al_mitre_technique a],
                 bg_observables := merge_observables (bg_observables g0) (aggregate_observables [a])\<rparr>;
          g2 = g1\<lparr>bg_confidence := recompute_confidence g1 a\<rparr>;
          g3 = g2\<lparr>bg_highest_severity := stronger_severity (bg_highest_severity g2) (al_severity a)\<rparr>
      in g3\<lparr>bg_description := describe_group g3, bg_updated_at := now\<rparr>)"

definition add_member :: "group_member \<Rightarrow> group_member list \<Rightarrow> group_member list" where
  "add_member m ms =
     (if \<exists>q\<in>set ms. gm_group_id q = gm_group_id m \<and> gm_alert_id q = gm_alert_id m
      then ms else ms @ [m])"

definition attach ::
  "group_db \<Rightarrow> group \<Rightarrow> alert \<Rightarrow> string \<Rightarrow> time \<Rightarrow> string \<Rightarrow> py_error + (group_db \<times> string)" where
  "attach db g a family now actor =
     (let window = group_window_minutes family;
          reason = membership_reason a family window;
          score = membership_score a family;
          db1 = db\<lparr>gdb_members := add_member \<lparr>gm_group_id = bg_group_id g, gm_alert_id = al_alert_id a,
                    gm_reason = reason, gm_score = score, gm_created_at = now\<rparr> (gdb_members db)\<rparr>;
          was_quiet = (bg_status g = ''QUIET'')
      in case (if was_quiet then map_sum id fst (group_apply_transition g ''ACTIVE'' now) else Inr g) of
           Inl e \<Rightarrow> Inl e
         | Inr g0 \<Rightarrow>
            (let g1 = attached_group a now g0;
                 db2 = db1\<lparr>gdb_groups := update_row bg_id (bg_id g) (\<lambda>_. g1) (gdb_groups db1)\<rparr>;
                 db3 = db2\<lparr>gdb_evidence := gdb_evidence db2 @ map (\<lambda>r. \<lparr>ge_group_id = bg_group_id g,
                         ge_alert_id = al_alert_id a, ge_row = r, ge_created_at = now\<rparr>) (evidence_rows a)\<rparr>;
                 action = (if was_quiet then ''GROUP_REACTIVATED'' else ''ALERT_ADDED'')
             in Inr (group_audit_record (bg_group_id g) action actor
                  [(''alert_id'', VStr (al_alert_id a)), (''membership_reason'', VStr reason),
                   (''membership_score'', VOther (fmt_fixed 1 score)),
                   (''alert_count'', VInt (int (bg_alert_count g1)))] db3, action)))"

section \<open>One alert, a batch, the result\<close>

text \<open>The expiry of a live group whose window has passed.\<close>

definition close_expired ::
  "group_db \<Rightarrow> group \<Rightarrow> alert \<Rightarrow> time \<Rightarrow> string \<Rightarrow> py_error + group_db" where
  "close_expired db g a now actor =
     (case group_apply_transition g ''CLOSED'' now of
        Inl e \<Rightarrow> Inl e
      | Inr (g', _) \<Rightarrow>
         Inr (group_audit_record (bg_group_id g) ''GROUP_CLOSED'' actor
            [(''reason'', VStr ''aggregation window expired''), (''alert_id'', VStr (al_alert_id a))]
            (db\<lparr>gdb_groups := update_row bg_id (bg_id g) (\<lambda>_. g') (gdb_groups db)\<rparr>)))"

definition note_rejected :: "group_db \<Rightarrow> string \<Rightarrow> alert \<Rightarrow> string \<Rightarrow> group_db" where
  "note_rejected db fp a actor = (case closed_group_for db fp of
     None \<Rightarrow> db
   | Some g \<Rightarrow> group_audit_record (bg_group_id g) ''GROUP_REOPEN_REJECTED'' actor
       [(''alert_id'', VStr (al_alert_id a)), (''decision'', VStr ''new group created'')] db)"

definition start_episode ::
  "group_db \<Rightarrow> group_db \<Rightarrow> string \<Rightarrow> alert \<Rightarrow> string \<Rightarrow> time \<Rightarrow> string \<Rightarrow> py_error + (group_db \<times> string)" where
  "start_episode base db fp a family now actor =
     (case claim_group base (note_rejected db fp a actor) fp a family now of
        Inl e \<Rightarrow> Inl e
      | Inr (db1, g, created) \<Rightarrow>
         (let db2 = (if created then group_audit_record (bg_group_id g) ''GROUP_CREATED'' actor
                [(''alert_id'', VStr (al_alert_id a)), (''behavior_family'', VStr family),
                 (''primary_host'', VStr (primary_host a)), (''primary_user'', VStr (primary_user a)),
                 (''source'', VStr (normalized_source a))] db1 else db1)
          in case attach db2 g a family now actor of
               Inl e \<Rightarrow> Inl e | Inr (db3, _) \<Rightarrow> Inr (db3, bg_group_id g)))"

definition process_alert ::
  "(string \<Rightarrow> string) \<Rightarrow> group_db \<Rightarrow> group_db \<Rightarrow> alert \<Rightarrow> time \<Rightarrow> string \<Rightarrow> py_error + (group_db \<times> string option)" where
  "process_alert H base db a now actor =
     (if al_status a = ''SUPPRESSED'' then Inr (db, None)
      else if already_member db (al_alert_id a) then Inr (db, None)
      else let family = behavior_family a None; fp = group_fingerprint H a family in
        case live_group_for db fp of
          None \<Rightarrow> map_sum id (map_prod id Some) (start_episode base db fp a family now actor)
        | Some g \<Rightarrow>
           (if within_group_window (bg_last_seen g) (al_first_seen a) family
            then map_sum id (\<lambda>(db', _). (db', Some (bg_group_id g))) (attach db g a family now actor)
            else (case close_expired db g a now actor of
                    Inl e \<Rightarrow> Inl e
                  | Inr db1 \<Rightarrow> map_sum id (map_prod id Some) (start_episode base db1 fp a family now actor))))"

fun process_sorted ::
  "(string \<Rightarrow> string) \<Rightarrow> group_db \<Rightarrow> group_db \<Rightarrow> alert list \<Rightarrow> time \<Rightarrow> string \<Rightarrow> py_error + (group_db \<times> string list)" where
  "process_sorted H base db [] now actor = Inr (db, [])"
| "process_sorted H base db (a # as) now actor =
     (case process_alert H base db a now actor of
        Inl e \<Rightarrow> Inl e
      | Inr (db1, r) \<Rightarrow>
        (case process_sorted H base db1 as now actor of
           Inl e \<Rightarrow> Inl e
         | Inr (db2, ts) \<Rightarrow> Inr (db2, (case r of None \<Rightarrow> ts | Some g \<Rightarrow> g # ts))))"

text \<open>The touched groups are returned once each, in creation order, by public id.\<close>

definition process_alerts ::
  "engine_config \<Rightarrow> (string \<Rightarrow> string) \<Rightarrow> time \<Rightarrow> group_db \<Rightarrow> alert list \<Rightarrow> time option \<Rightarrow> string
   \<Rightarrow> py_error + (group_db \<times> string list)" where
  "process_alerts cfg H wall db as now0 actor =
     (case ensure_not_production_db ''aggregation'' cfg of
        Inl e \<Rightarrow> Inl e
      | Inr _ \<Rightarrow> map_sum id (map_prod id uniq_first)
          (process_sorted H db db (sort_key (\<lambda>a. (al_first_seen a, al_alert_id a)) as) (now_or wall now0) actor))"

section \<open>Inactivity\<close>

definition AGGREGATION_QUIET_AFTER_MINUTES :: int where "AGGREGATION_QUIET_AFTER_MINUTES = 30"
definition AGGREGATION_CLOSE_AFTER_MINUTES :: int where "AGGREGATION_CLOSE_AFTER_MINUTES = 60"

text \<open>The body of the loop: the new row and the audit event, or None when untouched.\<close>

definition expire_group :: "group \<Rightarrow> time \<Rightarrow> string \<Rightarrow> py_error + (group \<times> group_audit) option" where
  "expire_group g now actor =
     (if bg_status g = ''ACTIVE'' \<and> quiet_cutoff (bg_last_seen g) now AGGREGATION_QUIET_AFTER_MINUTES
      then map_sum id (\<lambda>(g', action). Some (g', \<lparr>ga_group_id = bg_group_id g, ga_action = action,
             ga_actor = actor, ga_details = [(''inactive_minutes'', VInt AGGREGATION_QUIET_AFTER_MINUTES)]\<rparr>))
           (group_apply_transition g ''QUIET'' now)
      else if bg_status g = ''QUIET'' \<and> close_cutoff (bg_last_seen g) now AGGREGATION_CLOSE_AFTER_MINUTES
      then map_sum id (\<lambda>(g', action). Some (g', \<lparr>ga_group_id = bg_group_id g, ga_action = action,
             ga_actor = actor, ga_details = [(''inactive_minutes'', VInt AGGREGATION_CLOSE_AFTER_MINUTES)]\<rparr>))
           (group_apply_transition g ''CLOSED'' now)
      else Inr None)"

fun expire_rows ::
  "group list \<Rightarrow> time \<Rightarrow> string \<Rightarrow> py_error + (group list \<times> group_audit list \<times> group list)" where
  "expire_rows [] now actor = Inr ([], [], [])"
| "expire_rows (g # gs) now actor =
     (case expire_group g now actor of
        Inl e \<Rightarrow> Inl e
      | Inr r \<Rightarrow>
        (case expire_rows gs now actor of
           Inl e \<Rightarrow> Inl e
         | Inr (rows', audits, touched) \<Rightarrow>
            (case r of
               None \<Rightarrow> Inr (g # rows', audits, touched)
             | Some (g', au) \<Rightarrow> Inr (g' # rows', au # audits, g' # touched))))"

definition expire_groups ::
  "engine_config \<Rightarrow> time \<Rightarrow> group_db \<Rightarrow> time option \<Rightarrow> string \<Rightarrow> py_error + (group_db \<times> group list)" where
  "expire_groups cfg wall db now0 actor =
     (case ensure_not_production_db ''aggregation'' cfg of
        Inl e \<Rightarrow> Inl e
      | Inr _ \<Rightarrow> map_sum id (\<lambda>(gs, audits, touched).
            (db\<lparr>gdb_groups := gs, gdb_audit := gdb_audit db @ audits\<rparr>, touched))
          (expire_rows (gdb_groups db) (now_or wall now0) actor))"

end
