(* ===== verification/Group_Invariant.thy ===== *)
theory Group_Invariant
  imports Group_Engine
begin

text \<open>
  The invariant of the four group tables and its preservation by every step of the
  engine.
\<close>

section \<open>The invariant\<close>

definition grp_num :: "group \<Rightarrow> nat" where
  "grp_num g = dec_val (drop 3 (bg_group_id g))"

definition members_of :: "group_db \<Rightarrow> string \<Rightarrow> string list" where
  "members_of db gid = map gm_alert_id (filter (\<lambda>m. gm_group_id m = gid) (gdb_members db))"

definition group_ok :: "group_db \<Rightarrow> group \<Rightarrow> bool" where
  "group_ok db g \<longleftrightarrow>
     bg_group_id g = group_public_id (grp_num g) \<and> grp_num g \<le> bg_id g
     \<and> bg_status g \<in> set GROUP_STATUSES \<and> bg_highest_severity g \<in> set severities
     \<and> 0 \<le> bg_confidence g \<and> bg_confidence g \<le> 1 \<and> (\<exists>f. bg_title g = group_title f)
     \<and> bg_first_seen g \<le> bg_last_seen g
     \<and> bg_alert_count g = length (bg_alert_ids g) \<and> bg_alert_ids g = members_of db (bg_group_id g)"

definition group_db_ok :: "group_db \<Rightarrow> bool" where
  "group_db_ok db \<longleftrightarrow>
     gcl.ids_ok (gdb_groups db) (gdb_seq db) \<and> gcl.one_live (gdb_groups db)
     \<and> (\<forall>g\<in>set (gdb_groups db). group_ok db g)
     \<and> sorted_wrt (<) (map grp_num (gdb_groups db))
     \<and> distinct (map gm_alert_id (gdb_members db))
     \<and> (\<forall>m\<in>set (gdb_members db). \<exists>g\<in>set (gdb_groups db). bg_group_id g = gm_group_id m)"

lemma group_db_okD:
  assumes "group_db_ok db"
  shows "gcl.ids_ok (gdb_groups db) (gdb_seq db)" "gcl.one_live (gdb_groups db)"
    "g \<in> set (gdb_groups db) \<Longrightarrow> group_ok db g"
    "sorted_wrt (<) (map grp_num (gdb_groups db))"
    "distinct (map gm_alert_id (gdb_members db))"
    "m \<in> set (gdb_members db) \<Longrightarrow> \<exists>g\<in>set (gdb_groups db). bg_group_id g = gm_group_id m"
    "g \<in> set (gdb_groups db) \<Longrightarrow> bg_group_id g = group_public_id (grp_num g)"
    "g \<in> set (gdb_groups db) \<Longrightarrow> grp_num g \<le> bg_id g"
  using assms unfolding group_db_ok_def group_ok_def by blast+

lemma group_db_ok_empty: "group_db_ok empty_group_db"
  by (simp add: group_db_ok_def empty_group_db_def gcl.ids_ok_Nil gcl.one_live_Nil)

lemma group_public_id_num [simp]: "dec_val (drop 3 (group_public_id n)) = n"
  by (simp add: group_public_id_def)

lemma group_public_id_inj [simp]: "group_public_id m = group_public_id n \<longleftrightarrow> m = n"
  by (metis group_public_id_num)

lemma grp_num_inj:
  assumes ok: "group_db_ok db" and g: "g \<in> set (gdb_groups db)" "h \<in> set (gdb_groups db)"
  shows "bg_group_id g = bg_group_id h \<longleftrightarrow> g = h"
proof
  assume "bg_group_id g = bg_group_id h"
  then have "grp_num g = grp_num h" by (simp add: grp_num_def)
  moreover have "distinct (map grp_num (gdb_groups db))"
    using group_db_okD(4) [OF ok] by (simp add: strict_sorted_iff)
  ultimately show "g = h" using distinct_map_inj g by metis
qed simp

section \<open>The changed row\<close>

definition activated :: "group \<Rightarrow> time \<Rightarrow> group" where
  "activated g now = (if bg_status g = ''QUIET'' then g\<lparr>bg_status := ''ACTIVE'', bg_updated_at := now\<rparr> else g)"

lemma activated_simps [simp]:
  "bg_id (activated g now) = bg_id g" "bg_group_id (activated g now) = bg_group_id g"
  "bg_fingerprint (activated g now) = bg_fingerprint g" "bg_title (activated g now) = bg_title g"
  "bg_first_seen (activated g now) = bg_first_seen g" "bg_last_seen (activated g now) = bg_last_seen g"
  "bg_alert_count (activated g now) = bg_alert_count g" "bg_alert_ids (activated g now) = bg_alert_ids g"
  "bg_occurrence_count (activated g now) = bg_occurrence_count g"
  "bg_confidence (activated g now) = bg_confidence g"
  "bg_highest_severity (activated g now) = bg_highest_severity g"
  "bg_closed_at (activated g now) = bg_closed_at g"
  by (simp_all add: activated_def)

lemma activated_live: "group_live g \<Longrightarrow> bg_status (activated g now) = ''ACTIVE''"
  by (auto simp: activated_def group_live_def)

lemma attached_group_simps [simp]:
  "bg_id (attached_group a now g) = bg_id g" "bg_group_id (attached_group a now g) = bg_group_id g"
  "bg_fingerprint (attached_group a now g) = bg_fingerprint g"
  "bg_title (attached_group a now g) = bg_title g"
  "bg_status (attached_group a now g) = bg_status g"
  "bg_first_seen (attached_group a now g) = bg_first_seen g"
  "bg_last_seen (attached_group a now g) = max (bg_last_seen g) (al_first_seen a)"
  "bg_alert_count (attached_group a now g) = Suc (bg_alert_count g)"
  "bg_highest_severity (attached_group a now g) = stronger_severity (bg_highest_severity g) (al_severity a)"
  "bg_closed_at (attached_group a now g) = bg_closed_at g"
  by (simp_all add: attached_group_def Let_def)

lemma attached_group_alert_ids:
  "bg_alert_ids (attached_group a now g) =
     (if al_alert_id a \<in> set (bg_alert_ids g) then bg_alert_ids g else bg_alert_ids g @ [al_alert_id a])"
  by (simp add: attached_group_def Let_def)

lemma attached_group_confidence:
  "bg_confidence (attached_group a now g) =
     (if 0 < bg_alert_count g then min 1 (fadd (max (bg_confidence g) (al_confidence a)) (fl (15/100)))
      else max 0 (min 1 (max (bg_confidence g) (al_confidence a))))"
  by (simp add: attached_group_def recompute_confidence_def Let_def)

lemma attached_confidence_unit:
  "0 \<le> bg_confidence g \<Longrightarrow> 0 \<le> bg_confidence (attached_group a now g) \<and> bg_confidence (attached_group a now g) \<le> 1"
  unfolding attached_group_confidence by (auto intro!: fadd_nonneg fl_nonneg simp: le_max_iff_disj)

lemma stronger_severity_ok:
  "s \<in> set severities \<Longrightarrow> stronger_severity s t \<in> set severities"
  by (auto simp: stronger_severity_def severity_rank_def split: if_splits)

lemma stronger_severity_rank [simp]:
  "severity_rank (stronger_severity s t) = max (severity_rank s) (severity_rank t)"
  by (simp add: stronger_severity_def)

section \<open>Attaching\<close>

lemma attach_live:
  assumes "group_live g"
  shows "\<exists>db'. attach db g a family now actor =
           Inr (db', if bg_status g = ''QUIET'' then ''GROUP_REACTIVATED'' else ''ALERT_ADDED'')
     \<and> gdb_groups db' = update_row bg_id (bg_id g) (\<lambda>_. attached_group a now (activated g now)) (gdb_groups db)
     \<and> gdb_seq db' = gdb_seq db
     \<and> gdb_members db' = add_member \<lparr>gm_group_id = bg_group_id g, gm_alert_id = al_alert_id a,
          gm_reason = membership_reason a family (group_window_minutes family),
          gm_score = membership_score a family, gm_created_at = now\<rparr> (gdb_members db)
     \<and> length (gdb_evidence db') = length (gdb_evidence db) + length (evidence_rows a)"
  by (cases "bg_status g = ''QUIET''")
    (simp_all add: attach_def Let_def group_apply_transition_simps activated_def)

lemma attach_Inr:
  assumes "group_live g" "attach db g a family now actor = Inr (db', action)"
  shows "gdb_groups db' = update_row bg_id (bg_id g) (\<lambda>_. attached_group a now (activated g now)) (gdb_groups db)"
    and "gdb_seq db' = gdb_seq db"
    and "gdb_members db' = add_member \<lparr>gm_group_id = bg_group_id g, gm_alert_id = al_alert_id a,
          gm_reason = membership_reason a family (group_window_minutes family),
          gm_score = membership_score a family, gm_created_at = now\<rparr> (gdb_members db)"
  using attach_live [OF assms(1), of db a family now actor] assms(2) by auto

lemma members_of_add:
  "\<not> already_member db (al_alert_id a) \<Longrightarrow>
   gdb_members db' = add_member \<lparr>gm_group_id = gid, gm_alert_id = al_alert_id a, gm_reason = r,
      gm_score = s, gm_created_at = t\<rparr> (gdb_members db) \<Longrightarrow>
   members_of db' k = members_of db k @ (if k = gid then [al_alert_id a] else [])
   \<and> map gm_alert_id (gdb_members db') = map gm_alert_id (gdb_members db) @ [al_alert_id a]
   \<and> gm_group_id ` set (gdb_members db') = insert gid (gm_group_id ` set (gdb_members db))"
  by (auto simp: members_of_def add_member_def already_member_def)

lemma members_of_subset: "set (members_of db k) \<subseteq> gm_alert_id ` set (gdb_members db)"
  by (auto simp: members_of_def)

lemma attach_ok:
  assumes ok: "group_db_ok db" and g: "g \<in> set (gdb_groups db)" "group_live g"
    and new: "\<not> already_member db (al_alert_id a)"
    and r: "attach db g a family now actor = Inr (db', action)"
  shows "group_db_ok db'"
proof -
  let ?g = "attached_group a now (activated g now)"
  note groups = attach_Inr(1) [OF g(2) r] and seq = attach_Inr(2) [OF g(2) r]
    and mem = attach_Inr(3) [OF g(2) r]
  note M = members_of_add [OF new mem]
  have row: "c = g" if "c \<in> set (gdb_groups db)" "bg_id c = bg_id g" for c
    using gcl.same_row [OF group_db_okD(1) [OF ok]] that g(1) by blast
  have same: "map f (gdb_groups db') = map f (gdb_groups db)" if "f ?g = f g" for f :: "group \<Rightarrow> 'x"
    unfolding groups update_row_def using that row by auto
  have A: "gcl.ids_ok (gdb_groups db') (gdb_seq db')"
    using group_db_okD(1) [OF ok] gcl.ids_ok_cong [OF same [of bg_id]] seq by simp
  have B: "gcl.one_live (gdb_groups db')"
  proof -
    have "gdb_groups db' = map (\<lambda>c. if c = g then ?g else c) (gdb_groups db)"
      unfolding groups update_row_def using row by auto
    then show ?thesis
      using gcl.one_live_update [OF group_db_okD(2) [OF ok], of "\<lambda>c. if c = g then ?g else c"] g(2) by simp
  qed
  have not_in: "al_alert_id a \<notin> set (bg_alert_ids g)"
    using group_db_okD(3) [OF ok g(1)] new members_of_subset [of db "bg_group_id g"]
    unfolding group_ok_def already_member_def by force
  have g_ok: "group_ok db' ?g"
    using group_db_okD(3) [OF ok g(1)] M not_in attached_confidence_unit [of "activated g now" a now]
      stronger_severity_ok [of "bg_highest_severity g" "al_severity a"] activated_live [OF g(2), of now]
    unfolding group_ok_def by (simp add: attached_group_alert_ids grp_num_def GROUP_STATUSES_def le_max_iff_disj)
  have C: "group_ok db' c" if "c \<in> set (gdb_groups db')" for c
  proof -
    from that obtain b where b: "b \<in> set (gdb_groups db)" "c = (if bg_id b = bg_id g then ?g else b)"
      unfolding groups set_update_row by blast
    show ?thesis
    proof (cases "bg_id b = bg_id g")
      case False
      then have "bg_group_id b \<noteq> bg_group_id g" using grp_num_inj [OF ok b(1) g(1)] by auto
      then have "members_of db' (bg_group_id b) = members_of db (bg_group_id b)" using M by simp
      then show ?thesis using False b group_db_okD(3) [OF ok b(1)] unfolding group_ok_def by simp
    qed (use b g_ok in simp)
  qed
  have D: "sorted_wrt (<) (map grp_num (gdb_groups db'))"
    using group_db_okD(4) [OF ok] same [of grp_num] by (simp add: grp_num_def)
  have E: "distinct (map gm_alert_id (gdb_members db'))"
    using group_db_okD(5) [OF ok] M new by (auto simp: already_member_def)
  have F: "\<exists>c\<in>set (gdb_groups db'). bg_group_id c = gm_group_id m" if "m \<in> set (gdb_members db')" for m
  proof -
    have "gm_group_id m = bg_group_id g \<or> gm_group_id m \<in> gm_group_id ` set (gdb_members db)"
      using M that by blast
    then have "gm_group_id m \<in> set (map bg_group_id (gdb_groups db))"
      using group_db_okD(6) [OF ok] g(1) by force
    then have "gm_group_id m \<in> set (map bg_group_id (gdb_groups db'))" using same [of bg_group_id] by simp
    then show ?thesis by force
  qed
  from A B C D E F show ?thesis unfolding group_db_ok_def by blast
qed


section \<open>Closing and claiming\<close>

lemma group_db_ok_frame:
  "gdb_groups db' = gdb_groups db \<Longrightarrow> gdb_seq db' = gdb_seq db \<Longrightarrow> gdb_members db' = gdb_members db
   \<Longrightarrow> group_db_ok db' = group_db_ok db"
  by (simp add: group_db_ok_def group_ok_def members_of_def)

lemma group_ok_status:
  "group_ok db g \<Longrightarrow> s \<in> set GROUP_STATUSES \<Longrightarrow>
   group_ok db (g\<lparr>bg_status := s, bg_updated_at := t, bg_closed_at := c\<rparr>)"
  by (simp add: group_ok_def grp_num_def)

text \<open>Moving one row along the lifecycle, out of or within the live statuses.\<close>

definition restatus :: "string \<Rightarrow> time \<Rightarrow> time option \<Rightarrow> group \<Rightarrow> group" where
  "restatus s t c g = g\<lparr>bg_status := s, bg_updated_at := t, bg_closed_at := c\<rparr>"

lemma map_restatus_ok:
  assumes ok: "group_db_ok db"
    and f: "\<And>g. g \<in> set (gdb_groups db) \<Longrightarrow> f g = g \<or> (\<exists>s t c. f g = restatus s t c g
        \<and> s \<in> set GROUP_STATUSES \<and> (s \<noteq> ''CLOSED'' \<longrightarrow> group_live g))"
  shows "group_db_ok (db\<lparr>gdb_groups := map f (gdb_groups db)\<rparr>)"
proof -
  let ?h = "\<lambda>g. if g \<in> set (gdb_groups db) then f g else g"
  have same: "k (f g) = k g" if "g \<in> set (gdb_groups db)" "\<And>s t c. k (restatus s t c g) = k g" for g and k :: "group \<Rightarrow> 'x"
    using f [OF that(1)] that(2) by auto
  have maps: "map k (map f (gdb_groups db)) = map k (gdb_groups db)"
    if "\<And>g s t c. k (restatus s t c g) = k g" for k :: "group \<Rightarrow> 'x"
    using same [of _ k] that by auto
  have live: "group_live (f g) \<Longrightarrow> group_live g" if "g \<in> set (gdb_groups db)" for g
    using f [OF that] by (auto simp: restatus_def group_live_def)
  have m: "map f (gdb_groups db) = map ?h (gdb_groups db)" by simp
  have A: "gcl.ids_ok (map f (gdb_groups db)) (gdb_seq db)"
    using group_db_okD(1) [OF ok] gcl.ids_ok_cong [OF maps [of bg_id]] by (simp add: restatus_def)
  have B: "gcl.one_live (map f (gdb_groups db))"
    unfolding m
  proof (rule gcl.one_live_update [OF group_db_okD(2) [OF ok]])
    show "bg_id (?h g) = bg_id g \<and> bg_fingerprint (?h g) = bg_fingerprint g \<and> (group_live (?h g) \<longrightarrow> group_live g)" for g
      using live [of g] same [of g bg_id] same [of g bg_fingerprint] by (auto simp: restatus_def)
  qed
  have C: "group_ok db (f g)" if "g \<in> set (gdb_groups db)" for g
    using f [OF that] group_db_okD(3) [OF ok that] group_ok_status unfolding restatus_def by metis
  have D: "sorted_wrt (<) (map grp_num (map f (gdb_groups db)))"
  proof -
    have "grp_num (restatus s t c g) = grp_num g" for s t c g by (simp add: restatus_def grp_num_def)
    from maps [OF this] show ?thesis using group_db_okD(4) [OF ok] by (simp only:)
  qed
  have F: "\<exists>c\<in>set (map f (gdb_groups db)). bg_group_id c = gm_group_id m" if "m \<in> set (gdb_members db)" for m
  proof -
    have "gm_group_id m \<in> set (map bg_group_id (gdb_groups db))" using group_db_okD(6) [OF ok that] by force
    then show ?thesis using maps [of bg_group_id] by (force simp: restatus_def)
  qed
  show ?thesis
    using A B C D F group_db_okD(5) [OF ok]
    unfolding group_db_ok_def by (auto simp: group_ok_def members_of_def)
qed

lemma close_expired_live:
  assumes "group_live g"
  shows "close_expired db g a now actor = Inr (group_audit_record (bg_group_id g) ''GROUP_CLOSED'' actor
       [(''reason'', VStr ''aggregation window expired''), (''alert_id'', VStr (al_alert_id a))]
       (db\<lparr>gdb_groups := update_row bg_id (bg_id g) (\<lambda>_. restatus ''CLOSED'' now (Some now) g) (gdb_groups db)\<rparr>))"
  using assms by (simp add: close_expired_def group_apply_transition_simps restatus_def)

lemma close_expired_ok:
  assumes ok: "group_db_ok db" and g: "g \<in> set (gdb_groups db)" "group_live g"
    and r: "close_expired db g a now actor = Inr db'"
  shows "group_db_ok db'" "live_group_for db' (bg_fingerprint g) = None"
    "gdb_members db' = gdb_members db"
    "gdb_groups db' = map (\<lambda>c. if bg_id c = bg_id g then restatus ''CLOSED'' now (Some now) c else c) (gdb_groups db)"
proof -
  have row: "c = g" if "c \<in> set (gdb_groups db)" "bg_id c = bg_id g" for c
    using gcl.same_row [OF group_db_okD(1) [OF ok]] that g(1) by blast
  let ?f = "\<lambda>c. if bg_id c = bg_id g then restatus ''CLOSED'' now (Some now) c else c"
  show eq: "gdb_groups db' = map ?f (gdb_groups db)"
  proof -
    have "gdb_groups db' = update_row bg_id (bg_id g) (\<lambda>_. restatus ''CLOSED'' now (Some now) g) (gdb_groups db)"
      using r unfolding close_expired_live [OF g(2)] by auto
    also have "\<dots> = map ?f (gdb_groups db)"
      unfolding update_row_def by (rule map_cong) (use row in auto)
    finally show ?thesis .
  qed
  show mem: "gdb_members db' = gdb_members db"
    using r unfolding close_expired_live [OF g(2)] by auto
  have seq: "gdb_seq db' = gdb_seq db"
    using r unfolding close_expired_live [OF g(2)] by auto
  have "group_db_ok (db\<lparr>gdb_groups := map ?f (gdb_groups db)\<rparr>)"
    by (rule map_restatus_ok [OF ok]) (auto simp: GROUP_STATUSES_def)
  then show "group_db_ok db'"
    using group_db_ok_frame [of db' "db\<lparr>gdb_groups := map ?f (gdb_groups db)\<rparr>"] eq mem seq by simp
  show "live_group_for db' (bg_fingerprint g) = None"
  proof -
    have "\<not> (bg_fingerprint (?f c) = bg_fingerprint g \<and> group_live (?f c))" if "c \<in> set (gdb_groups db)" for c
    proof (cases "bg_id c = bg_id g")
      case False
      have "bg_id c = bg_id g" if "bg_fingerprint c = bg_fingerprint g" "group_live c"
        using group_db_okD(2) [OF ok] g that \<open>c \<in> set (gdb_groups db)\<close> unfolding gcl.one_live_def by blast
      with False show ?thesis by auto
    qed (simp add: restatus_def group_live_def)
    then show ?thesis unfolding live_group_for_def find_None_iff' eq set_map by blast
  qed
qed

lemma note_rejected_frame [simp]:
  "gdb_groups (note_rejected db fp a actor) = gdb_groups db"
  "gdb_seq (note_rejected db fp a actor) = gdb_seq db"
  "gdb_members (note_rejected db fp a actor) = gdb_members db"
  "gdb_evidence (note_rejected db fp a actor) = gdb_evidence db"
  by (simp_all add: note_rejected_def split: option.splits)

lemma live_group_for_frame: "gdb_groups db' = gdb_groups db \<Longrightarrow> live_group_for db' fp = live_group_for db fp"
  by (simp add: live_group_for_def)

definition fresh_group :: "group_db \<Rightarrow> string \<Rightarrow> alert \<Rightarrow> string \<Rightarrow> time \<Rightarrow> group" where
  "fresh_group db fp a family now =
     (candidate_group (next_group_id db) fp a family now)\<lparr>bg_id := Suc (gdb_seq db)\<rparr>"

lemma fresh_group_simps [simp]:
  "bg_id (fresh_group db fp a f now) = Suc (gdb_seq db)"
  "bg_group_id (fresh_group db fp a f now) = next_group_id db"
  "bg_fingerprint (fresh_group db fp a f now) = fp"
  "bg_status (fresh_group db fp a f now) = ''ACTIVE''"
  "group_live (fresh_group db fp a f now)"
  "bg_alert_count (fresh_group db fp a f now) = 0" "bg_alert_ids (fresh_group db fp a f now) = []"
  "bg_last_seen (fresh_group db fp a f now) = al_first_seen a"
  "bg_confidence (fresh_group db fp a f now) = 0"
  "bg_highest_severity (fresh_group db fp a f now) = ''low''"
  by (simp_all add: fresh_group_def candidate_group_def group_live_def)

lemma candidate_group_id [simp]: "bg_group_id (candidate_group gid fp a f now) = gid"
  by (simp add: candidate_group_def)

lemma public_id_fresh:
  assumes ok: "group_db_ok db" and g: "g \<in> set (gdb_groups db)"
  shows "bg_group_id g \<noteq> next_group_id db"
proof -
  have "grp_num g \<le> last_id bg_id (gdb_groups db)"
    using group_db_okD(8) [OF ok g] last_id_ge [OF g, of bg_id] by simp
  then show ?thesis using group_db_okD(7) [OF ok g] by (simp add: next_group_id_def)
qed

text \<open>In a consistent store a free fingerprint is claimed at the first attempt.\<close>

lemma claim_group_free:
  assumes ok: "group_db_ok db" and free: "live_group_for db fp = None"
  shows "claim_group base db fp a family now =
     Inr (db\<lparr>gdb_groups := gdb_groups db @ [fresh_group db fp a family now], gdb_seq := Suc (gdb_seq db)\<rparr>,
          fresh_group db fp a family now, True)"
proof -
  have nolive: "\<forall>q\<in>set (gdb_groups db). \<not> (bg_fingerprint q = fp \<and> group_live q)"
    using free by (auto simp: live_group_for_def find_None_iff')
  have ins: "insert_group db (candidate_group (next_group_id db) fp a family now) =
     Inr (db\<lparr>gdb_groups := gdb_groups db @ [fresh_group db fp a family now], gdb_seq := Suc (gdb_seq db)\<rparr>)"
    using nolive public_id_fresh [OF ok]
    by (auto simp: insert_group_def fresh_group_def candidate_group_def)
  have "List.find P (xs @ [x]) = Some x" if "\<forall>q\<in>set xs. \<not> P q" "P x" for P :: "group \<Rightarrow> bool" and xs x
    using that by (induction xs) auto
  then have "live_group_for (db\<lparr>gdb_groups := gdb_groups db @ [fresh_group db fp a family now],
      gdb_seq := Suc (gdb_seq db)\<rparr>) fp = Some (fresh_group db fp a family now)"
    using nolive by (simp add: live_group_for_def)
  then show ?thesis
    by (simp add: claim_group_def numeral_2_eq_2 ins Let_def)
qed

lemma claimed_ok:
  assumes ok: "group_db_ok db" and free: "live_group_for db fp = None"
  shows "group_db_ok (db\<lparr>gdb_groups := gdb_groups db @ [fresh_group db fp a family now], gdb_seq := Suc (gdb_seq db)\<rparr>)"
proof -
  let ?g = "fresh_group db fp a family now"
  let ?d = "db\<lparr>gdb_groups := gdb_groups db @ [?g], gdb_seq := Suc (gdb_seq db)\<rparr>"
  have num: "grp_num ?g = Suc (last_id bg_id (gdb_groups db))"
    by (simp add: grp_num_def next_group_id_def)
  have le: "last_id bg_id (gdb_groups db) \<le> gdb_seq db"
    using gcl.last_id_le_seq [OF group_db_okD(1) [OF ok]] .
  have A: "gcl.ids_ok (gdb_groups db @ [?g]) (Suc (gdb_seq db))"
    using gcl.ids_ok_append [OF group_db_okD(1) [OF ok], of "Suc (gdb_seq db)" ?g]
    by (simp add: fresh_group_def)
  have B: "gcl.one_live (gdb_groups db @ [?g])"
  proof -
    have "\<not> (\<exists>q\<in>set (gdb_groups db). group_live q \<and> bg_fingerprint q = bg_fingerprint ?g)"
      using free by (auto simp: live_group_for_def find_None_iff')
    then have "gcl.claim (gdb_groups db) (Suc (gdb_seq db)) ?g = gdb_groups db @ [?g]"
      by (simp add: gcl.claim_def fresh_group_def)
    then show ?thesis
      using gcl.one_live_claim [OF group_db_okD(2) [OF ok], of ?g "Suc (gdb_seq db)"] by simp
  qed
  have none: "members_of db (next_group_id db) = []"
  proof -
    have "gm_group_id m \<noteq> next_group_id db" if "m \<in> set (gdb_members db)" for m
      using group_db_okD(6) [OF ok that] public_id_fresh [OF ok] by metis
    then show ?thesis by (simp add: members_of_def filter_empty_conv)
  qed
  have C: "group_ok ?d ?g"
    using none num le
    by (simp add: group_ok_def members_of_def GROUP_STATUSES_def fresh_group_def candidate_group_def
        next_group_id_def) blast
  have D: "sorted_wrt (<) (map grp_num (gdb_groups db @ [?g]))"
  proof -
    have "grp_num c < grp_num ?g" if "c \<in> set (gdb_groups db)" for c
      using group_db_okD(8) [OF ok that] last_id_ge [OF that, of bg_id] num by simp
    then show ?thesis using group_db_okD(4) [OF ok] by (auto simp: sorted_wrt_append)
  qed
  show ?thesis
    using A B C D group_db_okD(3,5,6) [OF ok]
    unfolding group_db_ok_def by (auto simp: group_ok_def members_of_def)
qed


section \<open>Every step keeps the invariant\<close>

lemma live_group_for_Some:
  "live_group_for db fp = Some g \<Longrightarrow> g \<in> set (gdb_groups db) \<and> bg_fingerprint g = fp \<and> group_live g"
  by (auto simp: live_group_for_def dest: find_SomeD)

text \<open>Starting an episode: one new row, with the alert attached to it.\<close>

lemma start_episode_free:
  assumes ok: "group_db_ok db" and free: "live_group_for db fp = None"
    and new: "\<not> already_member db (al_alert_id a)"
  obtains db' where "start_episode base db fp a family now actor = Inr (db', next_group_id db)"
    "group_db_ok db'"
    "gdb_groups db' = gdb_groups db @ [attached_group a now (fresh_group db fp a family now)]"
    "gdb_members db' = gdb_members db @ [\<lparr>gm_group_id = next_group_id db, gm_alert_id = al_alert_id a,
          gm_reason = membership_reason a family (group_window_minutes family),
          gm_score = membership_score a family, gm_created_at = now\<rparr>]"
proof -
  let ?n = "note_rejected db fp a actor"
  let ?g = "fresh_group db fp a family now"
  have nok: "group_db_ok ?n" using ok group_db_ok_frame [of ?n db] by simp
  have nfree: "live_group_for ?n fp = None" using free live_group_for_frame [of ?n db] by simp
  have nid: "next_group_id ?n = next_group_id db" by (simp add: next_group_id_def)
  have fresh: "fresh_group ?n fp a family now = ?g" by (simp add: fresh_group_def nid)
  let ?c = "?n\<lparr>gdb_groups := gdb_groups db @ [?g], gdb_seq := Suc (gdb_seq db)\<rparr>"
  let ?d = "group_audit_record (bg_group_id ?g) ''GROUP_CREATED'' actor
                [(''alert_id'', VStr (al_alert_id a)), (''behavior_family'', VStr family),
                 (''primary_host'', VStr (primary_host a)), (''primary_user'', VStr (primary_user a)),
                 (''source'', VStr (normalized_source a))] ?c"
  have cok: "group_db_ok ?c" using claimed_ok [OF nok nfree, of a family now] by (simp add: fresh)
  then have dok: "group_db_ok ?d" using group_db_ok_frame [of ?d ?c] by simp
  have gin: "?g \<in> set (gdb_groups ?d)" by simp
  have dnew: "\<not> already_member ?d (al_alert_id a)" using new by (simp add: already_member_def)
  obtain db' act where att: "attach ?d ?g a family now actor = Inr (db', act)"
    using attach_live [of ?g ?d a family now actor] by auto
  have ok': "group_db_ok db'" using attach_ok [OF dok gin _ dnew att] by simp
  have idn: "\<forall>c\<in>set (gdb_groups db). bg_id c \<noteq> Suc (gdb_seq db)"
    using group_db_okD(1) [OF ok] by (auto simp: gcl.ids_ok_def)
  have act: "activated ?g now = ?g" by (simp add: activated_def)
  have groups: "gdb_groups db' = gdb_groups db @ [attached_group a now ?g]"
    using attach_Inr(1) [OF _ att] idn by (simp add: act update_row_idle) (simp add: update_row_def)
  have "\<not> (\<exists>q\<in>set (gdb_members db). gm_alert_id q = al_alert_id a)"
    using new by (simp add: already_member_def)
  then have mem: "gdb_members db' = gdb_members db @ [\<lparr>gm_group_id = next_group_id db, gm_alert_id = al_alert_id a,
          gm_reason = membership_reason a family (group_window_minutes family),
          gm_score = membership_score a family, gm_created_at = now\<rparr>]"
    using attach_Inr(3) [OF _ att] by (simp add: add_member_def)
  have "start_episode base db fp a family now actor = Inr (db', next_group_id db)"
    using claim_group_free [OF nok nfree, of base a family now] att by (simp add: start_episode_def fresh)
  then show ?thesis using that ok' groups mem by blast
qed

text \<open>The outcomes of one alert on a consistent store.\<close>

lemma process_alert_cases:
  assumes ok: "group_db_ok db"
  obtains (skipped) "process_alert H base db a now actor = Inr (db, None)"
      "al_status a = ''SUPPRESSED'' \<or> already_member db (al_alert_id a)"
  | (joined) g db' act where "al_status a \<noteq> ''SUPPRESSED''" "\<not> already_member db (al_alert_id a)"
      "live_group_for db (group_fingerprint H a (behavior_family a None)) = Some g"
      "within_group_window (bg_last_seen g) (al_first_seen a) (behavior_family a None)"
      "attach db g a (behavior_family a None) now actor = Inr (db', act)"
      "process_alert H base db a now actor = Inr (db', Some (bg_group_id g))"
  | (opened) db1 db' where "al_status a \<noteq> ''SUPPRESSED''" "\<not> already_member db (al_alert_id a)"
      "db1 = db \<and> live_group_for db (group_fingerprint H a (behavior_family a None)) = None \<or>
       (\<exists>g. live_group_for db (group_fingerprint H a (behavior_family a None)) = Some g
          \<and> \<not> within_group_window (bg_last_seen g) (al_first_seen a) (behavior_family a None)
          \<and> close_expired db g a now actor = Inr db1)"
      "group_db_ok db1" "gdb_members db1 = gdb_members db"
      "live_group_for db1 (group_fingerprint H a (behavior_family a None)) = None"
      "start_episode base db1 (group_fingerprint H a (behavior_family a None)) a (behavior_family a None) now actor
         = Inr (db', next_group_id db1)"
      "process_alert H base db a now actor = Inr (db', Some (next_group_id db1))"
proof -
  let ?f = "behavior_family a None"
  let ?fp = "group_fingerprint H a ?f"
  show thesis
  proof (cases "al_status a = ''SUPPRESSED'' \<or> already_member db (al_alert_id a)")
    case True
    then have "process_alert H base db a now actor = Inr (db, None)" by (auto simp: process_alert_def)
    then show ?thesis using skipped True by blast
  next
    case False
    then have ns: "al_status a \<noteq> ''SUPPRESSED''" and nm: "\<not> already_member db (al_alert_id a)" by auto
    show ?thesis
    proof (cases "live_group_for db ?fp")
      case None
      obtain db' where "start_episode base db ?fp a ?f now actor = Inr (db', next_group_id db)"
        using start_episode_free [OF ok None nm] by metis
      then show ?thesis
        using opened [of db db'] ns nm None ok by (simp add: process_alert_def Let_def)
    next
      case (Some g)
      then have g: "g \<in> set (gdb_groups db)" "group_live g" "bg_fingerprint g = ?fp"
        using live_group_for_Some by blast+
      show ?thesis
      proof (cases "within_group_window (bg_last_seen g) (al_first_seen a) ?f")
        case True
        obtain db' act where "attach db g a ?f now actor = Inr (db', act)"
          using attach_live [OF g(2)] by blast
        then show ?thesis using joined [of g db' act] ns nm Some True by (simp add: process_alert_def Let_def)
      next
        case False
        obtain db1 where c: "close_expired db g a now actor = Inr db1"
          using close_expired_live [OF g(2)] by blast
        note c' = close_expired_ok [OF ok g(1,2) c]
        have nm1: "\<not> already_member db1 (al_alert_id a)" using nm c'(3) by (simp add: already_member_def)
        obtain db' where "start_episode base db1 ?fp a ?f now actor = Inr (db', next_group_id db1)"
          using start_episode_free [OF c'(1) _ nm1] c'(2) g(3) by metis
        then show ?thesis
          using opened [of db1 db'] ns nm Some False c c' g(3) by (simp add: process_alert_def Let_def)
      qed
    qed
  qed
qed

lemma process_alert_ok:
  assumes ok: "group_db_ok db"
  obtains db' r where "process_alert H base db a now actor = Inr (db', r)" "group_db_ok db'"
  using ok
proof (cases rule: process_alert_cases [where H = H and base = base and a = a and now = now and actor = actor])
  case skipped
  then show ?thesis using that ok by blast
next
  case (joined g db' act)
  then show ?thesis
    using that attach_ok [OF ok _ _ joined(2,5)] live_group_for_Some by blast
next
  case (opened db1 db')
  have "\<not> already_member db1 (al_alert_id a)" using opened(2,5) by (simp add: already_member_def)
  then have "group_db_ok db'"
    using start_episode_free [OF opened(4,6)] opened(7) by (metis Inr_inject prod.inject)
  then show ?thesis using that opened(8) by blast
qed

lemma process_sorted_ok:
  "group_db_ok db \<Longrightarrow> \<exists>db' ts. process_sorted H base db as now actor = Inr (db', ts) \<and> group_db_ok db'"
proof (induction as arbitrary: db)
  case (Cons a as)
  obtain db1 r where 1: "process_alert H base db a now actor = Inr (db1, r)" "group_db_ok db1"
    using process_alert_ok [OF Cons.prems] .
  obtain db2 ts where "process_sorted H base db1 as now actor = Inr (db2, ts)" "group_db_ok db2"
    using Cons.IH [OF 1(2)] by blast
  with 1 show ?case by simp
qed simp

text \<open>The new row of the inactivity pass.\<close>

definition expired_row :: "time \<Rightarrow> group \<Rightarrow> group" where
  "expired_row now g =
     (if bg_status g = ''ACTIVE'' \<and> quiet_cutoff (bg_last_seen g) now AGGREGATION_QUIET_AFTER_MINUTES
      then restatus ''QUIET'' now (bg_closed_at g) g
      else if bg_status g = ''QUIET'' \<and> close_cutoff (bg_last_seen g) now AGGREGATION_CLOSE_AFTER_MINUTES
      then restatus ''CLOSED'' now (Some now) g else g)"

lemma expire_group_row:
  "\<exists>r. expire_group g now actor = Inr r \<and> (case r of None \<Rightarrow> g | Some (g', _) \<Rightarrow> g') = expired_row now g
     \<and> (r = None \<longrightarrow> bg_status (expired_row now g) = bg_status g)
     \<and> (\<forall>g' au. r = Some (g', au) \<longrightarrow> bg_status g' \<noteq> bg_status g)"
proof -
  consider (q) "bg_status g = ''ACTIVE''" "quiet_cutoff (bg_last_seen g) now AGGREGATION_QUIET_AFTER_MINUTES"
    | (c) "bg_status g = ''QUIET''" "close_cutoff (bg_last_seen g) now AGGREGATION_CLOSE_AFTER_MINUTES"
    | (n) "\<not> (bg_status g = ''ACTIVE'' \<and> quiet_cutoff (bg_last_seen g) now AGGREGATION_QUIET_AFTER_MINUTES)"
        "\<not> (bg_status g = ''QUIET'' \<and> close_cutoff (bg_last_seen g) now AGGREGATION_CLOSE_AFTER_MINUTES)"
    by blast
  then show ?thesis
  proof cases
    case q
    then show ?thesis
      by (simp add: expire_group_def expired_row_def group_apply_transition_simps restatus_def)
  next
    case c
    then show ?thesis
      by (simp add: expire_group_def expired_row_def group_apply_transition_simps restatus_def group_live_def)
  next
    case n
    have "expire_group g now actor = Inr None" unfolding expire_group_def using n by (simp only: if_False)
    moreover have "expired_row now g = g" unfolding expired_row_def using n by (simp only: if_False)
    ultimately show ?thesis by simp
  qed
qed

lemma expire_rows_map:
  "\<exists>au ts. expire_rows gs now actor = Inr (map (expired_row now) gs, au, ts)"
proof (induction gs)
  case (Cons g gs)
  then obtain au ts where "expire_rows gs now actor = Inr (map (expired_row now) gs, au, ts)" by blast
  moreover obtain r where "expire_group g now actor = Inr r"
      "(case r of None \<Rightarrow> g | Some (g', _) \<Rightarrow> g') = expired_row now g"
    using expire_group_row by blast
  ultimately show ?case by (cases r) auto
qed simp

lemma expire_groups_ok:
  assumes ok: "group_db_ok db" and "ensure_not_production_db ''aggregation'' cfg = Inr ()"
  shows "\<exists>db' ts. expire_groups cfg wall db now0 actor = Inr (db', ts) \<and> group_db_ok db'
     \<and> gdb_groups db' = map (expired_row (now_or wall now0)) (gdb_groups db)"
proof -
  let ?now = "now_or wall now0"
  obtain au ts where r: "expire_rows (gdb_groups db) ?now actor = Inr (map (expired_row ?now) (gdb_groups db), au, ts)"
    using expire_rows_map by blast
  let ?d = "db\<lparr>gdb_groups := map (expired_row ?now) (gdb_groups db)\<rparr>"
  have "group_db_ok ?d"
    by (rule map_restatus_ok [OF ok]) (auto simp: expired_row_def GROUP_STATUSES_def group_live_def)
  then have "group_db_ok (?d\<lparr>gdb_audit := gdb_audit db @ au\<rparr>)"
    using group_db_ok_frame [of "?d\<lparr>gdb_audit := gdb_audit db @ au\<rparr>" ?d] by simp
  then show ?thesis using assms(2) r by (simp add: expire_groups_def)
qed


lemma expire_groups_Inr:
  assumes "expire_groups cfg wall db now0 actor = Inr (db', us)"
  shows "gdb_groups db' = map (expired_row (now_or wall now0)) (gdb_groups db)"
proof -
  obtain au ts where r: "expire_rows (gdb_groups db) (now_or wall now0) actor
      = Inr (map (expired_row (now_or wall now0)) (gdb_groups db), au, ts)"
    using expire_rows_map by blast
  show ?thesis using assms unfolding expire_groups_def r by (auto split: sum.splits)
qed

lemma group_public_id_prefix: "starts_with ''BG-'' (group_public_id n)"
  by (simp add: group_public_id_def starts_with_def)

lemma lower_titles:
  "py_lower ''Remote Authentication Activity'' = ''remote authentication activity''"
  "py_lower ''Suspicious Execution Activity'' = ''suspicious execution activity''"
  "py_lower ''Potential Data Encryption Activity'' = ''potential data encryption activity''"
  "py_lower ''Suspicious Activity'' = ''suspicious activity''"
  by (simp_all add: py_lower_def lower_char_def char_of_def bit_iff_odd)

lemma lower_titles_clean:
  "\<forall>s\<in>{''remote authentication activity'', ''suspicious execution activity'',
       ''potential data encryption activity'', ''suspicious activity''}.
     \<forall>p\<in>set BANNED_TITLE_PHRASES. \<not> contains p s"
  by (simp add: BANNED_TITLE_PHRASES_def starts_with_def)

lemma group_title_not_banned:
  "\<not> (\<exists>p\<in>set BANNED_TITLE_PHRASES. contains p (py_lower (group_title f)))"
proof -
  have "py_lower (group_title f) \<in> {''remote authentication activity'', ''suspicious execution activity'',
       ''potential data encryption activity'', ''suspicious activity''}"
    using group_title_cases [of f] lower_titles by (elim insertE) simp_all
  with lower_titles_clean show ?thesis by blast
qed


lemma live_group_for_unique:
  assumes "group_db_ok db" "g \<in> set (gdb_groups db)" "group_live g"
  shows "live_group_for db (bg_fingerprint g) = Some g"
  using gcl.live_for_unique [OF group_db_okD(1,2) [OF assms(1)] assms(2,3)]
  unfolding gcl.live_for_def live_group_for_def by (simp add: conj_commute)

end
