(* ===== verification/Group_Props.thy ===== *)
theory Group_Props
  imports Group_Invariant "HOL-Library.Multiset"
begin

text \<open>
  What the group engine guarantees: the invariant over any batch, membership, idempotence,
  independence of the input order, frozen closed episodes, the shape of an episode, the
  inactivity pass, and workers that interleave on one store.
\<close>

lemma foldl_max_Max: "foldl max x xs = Max (insert x (set xs))" for x :: "'a::linorder"
proof (induction xs arbitrary: x)
  case (Cons a xs)
  then show ?case by (cases "xs = []") (simp_all add: max.assoc)
qed simp

section \<open>The effect of one alert\<close>

text \<open>What a run may do to the stored tables: member ids grow by exactly \<open>ids\<close> and
  rows that are not live stay as they are.\<close>

definition grown :: "group_db \<Rightarrow> group_db \<Rightarrow> string set \<Rightarrow> bool" where
  "grown db db' ids \<longleftrightarrow> gm_alert_id ` set (gdb_members db') = gm_alert_id ` set (gdb_members db) \<union> ids
     \<and> (\<forall>g\<in>set (gdb_groups db). \<not> group_live g \<longrightarrow> g \<in> set (gdb_groups db'))"

lemma grown_refl [intro]: "grown db db {}"
  by (simp add: grown_def)

lemma grown_trans: "grown a b A \<Longrightarrow> grown b c B \<Longrightarrow> grown a c (A \<union> B)"
  unfolding grown_def by (simp add: Un_assoc)

lemma grown_known: "B \<subseteq> gm_alert_id ` set (gdb_members a) \<Longrightarrow> grown a a B"
  by (simp add: grown_def sup_absorb1)

definition run_ids :: "alert list \<Rightarrow> string set" where
  "run_ids as = set (map al_alert_id (filter (\<lambda>a. al_status a \<noteq> ''SUPPRESSED'') as))"

lemma run_ids_simps [simp]:
  "run_ids [] = {}"
  "run_ids (a # as) = (if al_status a = ''SUPPRESSED'' then run_ids as else insert (al_alert_id a) (run_ids as))"
  by (simp_all add: run_ids_def)

lemma attach_grown:
  assumes ok: "group_db_ok db" and g: "g \<in> set (gdb_groups db)" "group_live g"
    and new: "\<not> already_member db (al_alert_id a)"
    and r: "attach db g a family now actor = Inr (db', action)"
  shows "grown db db' {al_alert_id a}"
proof -
  have "map gm_alert_id (gdb_members db') = map gm_alert_id (gdb_members db) @ [al_alert_id a]"
    using members_of_add [OF new attach_Inr(3) [OF g(2) r]] by blast
  then have "gm_alert_id ` set (gdb_members db') = gm_alert_id ` set (gdb_members db) \<union> {al_alert_id a}"
    by (metis list.set_map set_append list.set(1,2))
  moreover have "c \<in> set (gdb_groups db')" if "c \<in> set (gdb_groups db)" "\<not> group_live c" for c
  proof -
    have "bg_id c \<noteq> bg_id g" using gcl.same_row [OF group_db_okD(1) [OF ok] that(1) g(1)] that(2) g(2) by blast
    then show ?thesis unfolding attach_Inr(1) [OF g(2) r] set_update_row using that(1) by auto
  qed
  ultimately show ?thesis unfolding grown_def by blast
qed

lemma close_grown:
  assumes ok: "group_db_ok db" and g: "g \<in> set (gdb_groups db)" "group_live g"
    and r: "close_expired db g a now actor = Inr db'"
  shows "grown db db' {}"
proof -
  note c = close_expired_ok [OF ok g r]
  have "b \<in> set (gdb_groups db')" if "b \<in> set (gdb_groups db)" "\<not> group_live b" for b
  proof -
    have "bg_id b \<noteq> bg_id g" using gcl.same_row [OF group_db_okD(1) [OF ok] that(1) g(1)] that(2) g(2) by blast
    then show ?thesis unfolding c(4) using that(1) by force
  qed
  then show ?thesis unfolding grown_def c(3) by blast
qed

lemma start_grown:
  assumes ok: "group_db_ok db" and free: "live_group_for db fp = None"
    and new: "\<not> already_member db (al_alert_id a)"
    and r: "start_episode base db fp a family now actor = Inr (db', gid)"
  shows "grown db db' {al_alert_id a}"
proof -
  obtain db1 where s: "start_episode base db fp a family now actor = Inr (db1, next_group_id db)"
    "gdb_groups db1 = gdb_groups db @ [attached_group a now (fresh_group db fp a family now)]"
    "gdb_members db1 = gdb_members db @ [\<lparr>gm_group_id = next_group_id db, gm_alert_id = al_alert_id a,
          gm_reason = membership_reason a family (group_window_minutes family),
          gm_score = membership_score a family, gm_created_at = now\<rparr>]"
    using start_episode_free [OF ok free new] by metis
  have "db1 = db'" using s(1) r by simp
  then show ?thesis using s(2,3) unfolding grown_def by auto
qed

lemma process_alert_grown:
  assumes ok: "group_db_ok db" and r: "process_alert H base db a now actor = Inr (db', t)"
  shows "grown db db' (run_ids [a]) \<and> (already_member db (al_alert_id a) \<or> al_status a = ''SUPPRESSED'' \<longleftrightarrow> t = None)"
  using ok
proof (cases rule: process_alert_cases [where H = H and base = base and a = a and now = now and actor = actor])
  case skipped
  then have e: "db' = db" "t = None" using r by simp_all
  have "al_alert_id a \<in> gm_alert_id ` set (gdb_members db)" if "al_status a \<noteq> ''SUPPRESSED''"
    using skipped(2) that unfolding already_member_def by force
  then have "grown db db (run_ids [a])"
    by (intro grown_known) simp
  then show ?thesis using e skipped by auto
next
  case (joined g db1 act)
  then have e: "db1 = db'" "t \<noteq> None" using r by auto
  have "g \<in> set (gdb_groups db)" "group_live g" using joined(3) live_group_for_Some by blast+
  then have "grown db db' {al_alert_id a}" using attach_grown [OF ok _ _ joined(2,5)] e by blast
  then show ?thesis using e joined(1,2) by simp
next
  case (opened db1 db2)
  then have e: "db2 = db'" "t \<noteq> None" using r by auto
  have c: "grown db db1 {}"
    using opened(3) close_grown [OF ok] live_group_for_Some by blast
  have "\<not> already_member db1 (al_alert_id a)" using opened(2,5) by (simp add: already_member_def)
  from grown_trans [OF c start_grown [OF opened(4,6) this opened(7)]]
  show ?thesis using e opened(1,2) by simp
qed

lemma process_sorted_grown:
  "group_db_ok db \<Longrightarrow> process_sorted H base db as now actor = Inr (db', ts) \<Longrightarrow> grown db db' (run_ids as)"
proof (induction as arbitrary: db ts)
  case Nil
  then show ?case by auto
next
  case (Cons a as)
  from Cons.prems(2) obtain db1 r ts1 where s:
    "process_alert H base db a now actor = Inr (db1, r)" "process_sorted H base db1 as now actor = Inr (db', ts1)"
    by (auto split: sum.splits)
  have ok1: "group_db_ok db1" using process_alert_ok [OF Cons.prems(1)] s(1) by (metis Inr_inject prod.inject)
  from grown_trans [OF conjunct1 [OF process_alert_grown [OF Cons.prems(1) s(1)]] Cons.IH [OF ok1 s(2)]]
  show ?case by (cases "al_status a = ''SUPPRESSED''") simp_all
qed

lemma process_alerts_Inr:
  "process_alerts cfg H wall db as now0 actor = Inr (db', ts) \<longleftrightarrow>
     ensure_not_production_db ''aggregation'' cfg = Inr () \<and>
     (\<exists>ts0. process_sorted H db db (sort_key (\<lambda>a. (al_first_seen a, al_alert_id a)) as) (now_or wall now0) actor
         = Inr (db', ts0) \<and> ts = uniq_first ts0)"
  by (auto simp: process_alerts_def map_sum_def map_prod_def split: sum.splits)

lemma run_ids_sort [simp]: "run_ids (sort_key f as) = run_ids as"
  by (simp add: run_ids_def filter_sort)

lemma process_alerts_grown:
  "group_db_ok db \<Longrightarrow> process_alerts cfg H wall db as now0 actor = Inr (db', ts) \<Longrightarrow> grown db db' (run_ids as)"
  unfolding process_alerts_Inr using process_sorted_grown by (metis run_ids_sort)

lemma process_alerts_total:
  assumes ok: "group_db_ok db" and gate: "ensure_not_production_db ''aggregation'' cfg = Inr ()"
  shows "\<exists>db' ts. process_alerts cfg H wall db as now0 actor = Inr (db', ts) \<and> group_db_ok db'"
proof -
  obtain db' ts where "process_sorted H db db (sort_key (\<lambda>a. (al_first_seen a, al_alert_id a)) as) (now_or wall now0) actor
      = Inr (db', ts)" "group_db_ok db'"
    using process_sorted_ok [OF ok] by blast
  then show ?thesis unfolding process_alerts_Inr using gate by blast
qed

lemma process_alerts_ok:
  assumes ok: "group_db_ok db" and r: "process_alerts cfg H wall db as now0 actor = Inr (db', ts)"
  shows "group_db_ok db'"
proof -
  have "ensure_not_production_db ''aggregation'' cfg = Inr ()" using r unfolding process_alerts_Inr by blast
  from process_alerts_total [OF ok this, of H wall as now0 actor] r show ?thesis by auto
qed


section \<open>Properties of a run\<close>

text \<open>C1: on a consistent store a run over any batch of alerts returns, and the store
  stays consistent: at most one live group per fingerprint, increasing public ids, no
  alert in two groups, alert_count equal to the number of member rows, confidences in
  [0, 1], first_seen not after last_seen, severities and statuses of the contract.\<close>

theorem group_store_invariant:
  assumes "group_db_ok db" "ensure_not_production_db ''aggregation'' cfg = Inr ()"
  shows "\<exists>db' ts. process_alerts cfg H wall db as now0 actor = Inr (db', ts) \<and> group_db_ok db'"
  using process_alerts_total [OF assms] by blast

lemma member_in_one_group:
  assumes ok: "group_db_ok db" and k: "k \<in> gm_alert_id ` set (gdb_members db)"
  shows "\<exists>!g. g \<in> set (gdb_groups db) \<and> k \<in> set (bg_alert_ids g)"
proof -
  have ids: "k \<in> set (bg_alert_ids g) \<longleftrightarrow> (\<exists>m\<in>set (gdb_members db). gm_group_id m = bg_group_id g \<and> gm_alert_id m = k)"
    if "g \<in> set (gdb_groups db)" for g
    using group_db_okD(3) [OF ok that] unfolding group_ok_def members_of_def by auto
  obtain m where m: "m \<in> set (gdb_members db)" "gm_alert_id m = k" using k by blast
  obtain g where g: "g \<in> set (gdb_groups db)" "bg_group_id g = gm_group_id m"
    using group_db_okD(6) [OF ok m(1)] by blast
  show ?thesis
  proof (rule ex1I [of _ g])
    show "g \<in> set (gdb_groups db) \<and> k \<in> set (bg_alert_ids g)" using ids [OF g(1)] g m by metis
    fix h assume h: "h \<in> set (gdb_groups db) \<and> k \<in> set (bg_alert_ids h)"
    then obtain n where n: "n \<in> set (gdb_members db)" "gm_group_id n = bg_group_id h" "gm_alert_id n = k"
      using ids by blast
    then have "n = m" using distinct_map_inj [OF group_db_okD(5) [OF ok]] m by metis
    then show "h = g" using n(2) g h grp_num_inj [OF ok] by metis
  qed
qed

text \<open>After a run every alert of the batch that is not suppressed belongs to exactly
  one group, and the run adds no other alert to any group: suppressed alerts are never
  grouped.\<close>

theorem group_membership:
  assumes ok: "group_db_ok db" and r: "process_alerts cfg H wall db as now0 actor = Inr (db', ts)"
  shows "gm_alert_id ` set (gdb_members db') = gm_alert_id ` set (gdb_members db) \<union> run_ids as
    \<and> (\<forall>k\<in>run_ids as. \<exists>!g. g \<in> set (gdb_groups db') \<and> k \<in> set (bg_alert_ids g))"
proof
  show m: "gm_alert_id ` set (gdb_members db') = gm_alert_id ` set (gdb_members db) \<union> run_ids as"
    using process_alerts_grown [OF ok r] unfolding grown_def by (rule conjunct1)
  show "\<forall>k\<in>run_ids as. \<exists>!g. g \<in> set (gdb_groups db') \<and> k \<in> set (bg_alert_ids g)"
  proof
    fix k assume "k \<in> run_ids as"
    then have "k \<in> gm_alert_id ` set (gdb_members db')" unfolding m by (rule UnI2)
    then show "\<exists>!g. g \<in> set (gdb_groups db') \<and> k \<in> set (bg_alert_ids g)"
      by (rule member_in_one_group [OF process_alerts_ok [OF ok r]])
  qed
qed

lemma process_sorted_known:
  "run_ids as \<subseteq> gm_alert_id ` set (gdb_members db) \<Longrightarrow> process_sorted H base db as now actor = Inr (db, [])"
proof (induction as)
  case (Cons a as)
  have "process_alert H base db a now actor = Inr (db, None)"
  proof (cases "al_status a = ''SUPPRESSED''")
    case False
    then have "already_member db (al_alert_id a)" using Cons.prems by (auto simp: already_member_def)
    then show ?thesis by (simp add: process_alert_def)
  qed (simp add: process_alert_def)
  moreover have "run_ids as \<subseteq> gm_alert_id ` set (gdb_members db)"
    using Cons.prems by (cases "al_status a = ''SUPPRESSED''") simp_all
  ultimately show ?case using Cons.IH by simp
qed simp

text \<open>Running the engine again on the same alerts, or on any of them, in any order and
  at any later time, changes nothing at all and touches no group: not even an audit event
  is added.\<close>

theorem group_run_idempotent:
  assumes "group_db_ok db" "process_alerts cfg H wall db as now0 actor = Inr (db', ts)"
    and "set bs \<subseteq> set as"
  shows "process_alerts cfg H wall' db' bs now1 actor' = Inr (db', [])"
proof -
  have "run_ids bs \<subseteq> run_ids as" using assms(3) by (auto simp: run_ids_def)
  then have "run_ids bs \<subseteq> gm_alert_id ` set (gdb_members db')"
    using process_alerts_grown [OF assms(1,2)] unfolding grown_def by blast
  moreover have "ensure_not_production_db ''aggregation'' cfg = Inr ()" using assms(2) unfolding process_alerts_Inr by blast
  ultimately show ?thesis
    unfolding process_alerts_Inr by (simp add: process_sorted_known uniq_first_def)
qed

text \<open>The result does not depend on the order in which the alerts are handed over, as
  long as no two of them have the same first-seen time and public id.\<close>

theorem group_order_independent:
  assumes "mset as = mset bs" "distinct (map (\<lambda>a. (al_first_seen a, al_alert_id a)) as)"
  shows "process_alerts cfg H wall db as now0 actor = process_alerts cfg H wall db bs now0 actor"
proof -
  let ?k = "\<lambda>a. (al_first_seen a, al_alert_id a)"
  have "inj_on ?k (set as)" using assms(2) by (simp add: distinct_map)
  then have "sort_key ?k bs = sort_key ?k as"
    using sort_key_inj_key_eq [of as "sort_key ?k bs" ?k] assms(1) by simp
  then show ?thesis unfolding process_alerts_def by (simp only:)
qed

text \<open>A closed episode is never touched again: neither a run nor an inactivity pass
  changes any column of a CLOSED group.\<close>

theorem closed_group_frozen:
  assumes "group_db_ok db" "g \<in> set (gdb_groups db)" "bg_status g = ''CLOSED''"
    and "process_alerts cfg H wall db as now0 actor = Inr (db1, ts)"
    and "expire_groups cfg wall' db1 now1 actor' = Inr (db2, us)"
  shows "g \<in> set (gdb_groups db1) \<and> g \<in> set (gdb_groups db2)"
proof -
  have g1: "g \<in> set (gdb_groups db1)"
    using process_alerts_grown [OF assms(1,4)] assms(2,3) unfolding grown_def by (simp add: group_live_def)
  have "gdb_groups db2 = map (expired_row (now_or wall' now1)) (gdb_groups db1)"
    using expire_groups_Inr [OF assms(5)] .
  moreover have "expired_row (now_or wall' now1) g = g" using assms(3) by (simp add: expired_row_def)
  ultimately show ?thesis using g1 by (metis imageI set_map)
qed

text \<open>Every row of a consistent store satisfies the public contract of a behavior
  group: constructing a \<open>BehaviorGroup\<close> from it raises nothing.\<close>

theorem group_rows_meet_contract:
  assumes "group_db_ok db" "g \<in> set (gdb_groups db)"
  shows "behavior_group_init g = Inr g"
proof -
  have ok: "group_ok db g" using group_db_okD(3) assms by blast
  then obtain f where t: "bg_title g = group_title f" unfolding group_ok_def by blast
  have b: "\<not> (\<exists>p\<in>set BANNED_TITLE_PHRASES. contains p (py_lower (bg_title g)))"
    unfolding t by (rule group_title_not_banned)
  have i: "starts_with ''BG-'' (bg_group_id g)"
    using ok unfolding group_ok_def by (metis group_public_id_prefix)
  show ?thesis
    using ok i b unfolding group_ok_def behavior_group_init_def by simp
qed

text \<open>The inactivity pass, row by row: an ACTIVE group silent for more than 30 minutes
  becomes QUIET (even when it has been silent for more than 60), a QUIET group silent for
  more than 60 minutes is CLOSED, nothing else changes; so a live group that gets no alert
  is closed after at most two passes later than 60 minutes.\<close>

theorem expire_two_passes_close:
  assumes ok: "group_db_ok db"
    and r1: "expire_groups cfg wall db (Some t1) actor = Inr (db1, us1)"
    and r2: "expire_groups cfg wall db1 (Some t2) actor = Inr (db2, us2)"
    and g: "g \<in> set (gdb_groups db)" "group_live g"
    and late: "bg_last_seen g + minutes 60 < t1" "t1 \<le> t2"
  shows "\<exists>g1\<in>set (gdb_groups db1). bg_id g1 = bg_id g \<and> bg_status g1 \<in> {''QUIET'', ''CLOSED''}
     \<and> (\<exists>g2\<in>set (gdb_groups db2). bg_id g2 = bg_id g \<and> bg_status g2 = ''CLOSED'' \<and> bg_alert_ids g2 = bg_alert_ids g)"
proof -
  let ?g1 = "expired_row t1 g" and ?g2 = "expired_row t2 (expired_row t1 g)"
  have "gdb_groups db1 = map (expired_row t1) (gdb_groups db)"
    using expire_groups_Inr [OF r1] by simp
  then have 1: "?g1 \<in> set (gdb_groups db1)" using g(1) by simp
  have "gdb_groups db2 = map (expired_row t2) (gdb_groups db1)"
    using expire_groups_Inr [OF r2] by simp
  then have 2: "?g2 \<in> set (gdb_groups db2)" using 1 by simp
  have q: "quiet_cutoff (bg_last_seen g) t1 AGGREGATION_QUIET_AFTER_MINUTES"
    "close_cutoff (bg_last_seen g) t1 AGGREGATION_CLOSE_AFTER_MINUTES"
    "close_cutoff (bg_last_seen g) t2 AGGREGATION_CLOSE_AFTER_MINUTES"
    using late by (simp_all add: quiet_cutoff_def close_cutoff_def AGGREGATION_QUIET_AFTER_MINUTES_def
        AGGREGATION_CLOSE_AFTER_MINUTES_def minutes_def)
  have s: "bg_id ?g1 = bg_id g \<and> bg_status ?g1 \<in> {''QUIET'', ''CLOSED''}
      \<and> bg_id ?g2 = bg_id g \<and> bg_status ?g2 = ''CLOSED'' \<and> bg_alert_ids ?g2 = bg_alert_ids g"
  proof (cases "bg_status g = ''ACTIVE''")
    case True
    then have "?g1 = restatus ''QUIET'' t1 (bg_closed_at g) g" using q(1) by (simp add: expired_row_def)
    moreover have "expired_row t2 (restatus ''QUIET'' t1 (bg_closed_at g) g) =
        restatus ''CLOSED'' t2 (Some t2) (restatus ''QUIET'' t1 (bg_closed_at g) g)"
      using q(3) by (simp add: expired_row_def restatus_def)
    ultimately show ?thesis by (simp add: restatus_def)
  next
    case False
    then have "bg_status g = ''QUIET''" using g(2) by (simp add: group_live_def)
    then have "?g1 = restatus ''CLOSED'' t1 (Some t1) g" using q(2) by (simp add: expired_row_def)
    moreover have "expired_row t2 (restatus ''CLOSED'' t1 (Some t1) g) = restatus ''CLOSED'' t1 (Some t1) g"
      by (simp add: expired_row_def restatus_def)
    ultimately show ?thesis by (simp add: restatus_def)
  qed
  then show ?thesis using 1 2 by blast
qed


section \<open>The shape of an episode\<close>

text \<open>Alerts in order, each within the window of the last activity before it.\<close>

fun chained :: "string \<Rightarrow> time \<Rightarrow> alert list \<Rightarrow> bool" where
  "chained family seen [] = True"
| "chained family seen (a # as) =
     (within_group_window seen (al_first_seen a) family \<and> chained family (max seen (al_first_seen a)) as)"

definition episode_alert :: "(string \<Rightarrow> string) \<Rightarrow> group_db \<Rightarrow> string \<Rightarrow> string \<Rightarrow> alert \<Rightarrow> bool" where
  "episode_alert H db family fp a \<longleftrightarrow> al_status a \<noteq> ''SUPPRESSED'' \<and> \<not> already_member db (al_alert_id a)
     \<and> behavior_family a None = family \<and> group_fingerprint H a family = fp"

definition episode_input :: "(string \<Rightarrow> string) \<Rightarrow> group_db \<Rightarrow> alert \<Rightarrow> alert list \<Rightarrow> bool" where
  "episode_input H db a as \<longleftrightarrow>
     (let family = behavior_family a None; fp = group_fingerprint H a family in
       live_group_for db fp = None \<and> (\<forall>b\<in>set (a # as). episode_alert H db family fp b)
       \<and> distinct (map al_alert_id (a # as)) \<and> sorted (map (\<lambda>a. (al_first_seen a, al_alert_id a)) (a # as))
       \<and> chained family (al_first_seen a) as)"

definition episode :: "time \<Rightarrow> group \<Rightarrow> alert list \<Rightarrow> group" where
  "episode now = foldl (\<lambda>g a. attached_group a now g)"

lemma episode_simps [simp]:
  "episode now g [] = g" "episode now g (a # as) = episode now (attached_group a now g) as"
  by (simp_all add: episode_def)

lemma episode_fields [simp]:
  "bg_id (episode now g as) = bg_id g" "bg_group_id (episode now g as) = bg_group_id g"
  "bg_fingerprint (episode now g as) = bg_fingerprint g" "bg_status (episode now g as) = bg_status g"
  "bg_first_seen (episode now g as) = bg_first_seen g"
  "bg_alert_count (episode now g as) = bg_alert_count g + length as"
  "bg_last_seen (episode now g as) = foldl max (bg_last_seen g) (map al_first_seen as)"
  "severity_rank (bg_highest_severity (episode now g as)) =
     foldl max (severity_rank (bg_highest_severity g)) (map (\<lambda>a. severity_rank (al_severity a)) as)"
  by (induction as arbitrary: g) simp_all

lemma episode_alert_ids:
  "distinct (bg_alert_ids g @ map al_alert_id as) \<Longrightarrow>
   bg_alert_ids (episode now g as) = bg_alert_ids g @ map al_alert_id as"
  by (induction as arbitrary: g) (auto simp: attached_group_alert_ids)

lemma already_member_iff: "already_member db k \<longleftrightarrow> k \<in> gm_alert_id ` set (gdb_members db)"
  by (auto simp: already_member_def)

lemma process_sorted_episode:
  assumes "group_db_ok db" "g \<in> set (gdb_groups db)" "bg_status g = ''ACTIVE''" "bg_fingerprint g = fp"
    and "\<forall>b\<in>set as. episode_alert H db family fp b" "distinct (map al_alert_id as)"
    and "chained family (bg_last_seen g) as"
  shows "\<exists>db'. process_sorted H base db as now actor = Inr (db', replicate (length as) (bg_group_id g))
     \<and> gdb_groups db' = update_row bg_id (bg_id g) (\<lambda>_. episode now g as) (gdb_groups db)"
  using assms
proof (induction as arbitrary: db g)
  case Nil
  have "gdb_groups db = update_row bg_id (bg_id g) (\<lambda>_. g) (gdb_groups db)"
    unfolding update_row_def
    by (rule map_idI [symmetric]) (use gcl.same_row [OF group_db_okD(1) [OF Nil(1)]] Nil(2) in auto)
  then show ?case by simp
next
  case (Cons a as)
  note ok = Cons.prems(1) and g = Cons.prems(2-4)
  have live: "group_live g" using g(2) by (simp add: group_live_def)
  have a: "al_status a \<noteq> ''SUPPRESSED''" "\<not> already_member db (al_alert_id a)"
    "behavior_family a None = family" "group_fingerprint H a family = fp"
    using Cons.prems(5) by (simp_all add: episode_alert_def)
  have lg: "live_group_for db fp = Some g" using live_group_for_unique [OF ok g(1) live] g(3) by simp
  let ?g = "attached_group a now g"
  have act: "activated g now = g" using g(2) by (simp add: activated_def)
  obtain db1 action where at: "attach db g a family now actor = Inr (db1, action)"
    using attach_live [OF live, of db a family now actor] by blast
  have w: "within_group_window (bg_last_seen g) (al_first_seen a) family" using Cons.prems(7) by simp
  have p: "process_alert H base db a now actor = Inr (db1, Some (bg_group_id g))"
    using a lg at w by (simp add: process_alert_def Let_def)
  have groups: "gdb_groups db1 = update_row bg_id (bg_id g) (\<lambda>_. ?g) (gdb_groups db)"
    using attach_Inr(1) [OF live at] act by simp
  have gin: "?g \<in> set (gdb_groups db1)" unfolding groups set_update_row using g(1) by force
  have ids: "gm_alert_id ` set (gdb_members db1) = gm_alert_id ` set (gdb_members db) \<union> {al_alert_id a}"
    using attach_grown [OF ok g(1) live a(2) at] unfolding grown_def by (rule conjunct1)
  have rest: "\<forall>b\<in>set as. episode_alert H db1 family fp b"
  proof
    fix b assume b: "b \<in> set as"
    moreover have "al_alert_id a \<notin> al_alert_id ` set as" using Cons.prems(6) by simp
    ultimately have "al_alert_id b \<noteq> al_alert_id a" by (metis imageI)
    moreover have "episode_alert H db family fp b" using Cons.prems(5) b by simp
    moreover have "already_member db1 k \<longleftrightarrow> k = al_alert_id a \<or> already_member db k" for k
      using ids unfolding already_member_iff by simp
    ultimately show "episode_alert H db1 family fp b" unfolding episode_alert_def by blast
  qed
  have d: "distinct (map al_alert_id as)" using Cons.prems(6) by simp
  have c: "chained family (bg_last_seen ?g) as" using Cons.prems(7) by simp
  have st: "bg_status ?g = ''ACTIVE''" "bg_fingerprint ?g = fp" using g by simp_all
  obtain db' where "process_sorted H base db1 as now actor = Inr (db', replicate (length as) (bg_group_id ?g))"
    "gdb_groups db' = update_row bg_id (bg_id ?g) (\<lambda>_. episode now ?g as) (gdb_groups db1)"
    using Cons.IH [OF attach_ok [OF ok g(1) live a(2) at] gin st rest d c] by blast
  moreover have "update_row bg_id (bg_id g) (\<lambda>_. episode now ?g as) (update_row bg_id (bg_id g) (\<lambda>_. ?g) (gdb_groups db))
      = update_row bg_id (bg_id g) (\<lambda>_. episode now ?g as) (gdb_groups db)"
    by (simp add: update_row_def)
  ultimately show ?case using p by (simp add: groups)
qed


lemma process_alerts_episode:
  assumes ok: "group_db_ok db" and gate: "ensure_not_production_db ''aggregation'' cfg = Inr ()"
    and e: "episode_input H db a as"
  shows "\<exists>db'. process_alerts cfg H wall db (a # as) (Some now) actor = Inr (db', [next_group_id db])
     \<and> gdb_groups db' = gdb_groups db @ [episode now (fresh_group db (group_fingerprint H a (behavior_family a None)) a
          (behavior_family a None) now) (a # as)]"
proof -
  let ?f = "behavior_family a None"
  let ?fp = "group_fingerprint H a ?f"
  let ?g = "attached_group a now (fresh_group db ?fp a ?f now)"
  have free: "live_group_for db ?fp = None" and al: "\<forall>b\<in>set (a # as). episode_alert H db ?f ?fp b"
    and dist: "distinct (map al_alert_id (a # as))" and ch: "chained ?f (al_first_seen a) as"
    and sorted: "sorted (map (\<lambda>a. (al_first_seen a, al_alert_id a)) (a # as))"
    using e unfolding episode_input_def Let_def by blast+
  have a: "al_status a \<noteq> ''SUPPRESSED''" "\<not> already_member db (al_alert_id a)"
    using al by (simp_all add: episode_alert_def)
  obtain db1 where s: "start_episode db db ?fp a ?f now actor = Inr (db1, next_group_id db)" "group_db_ok db1"
    "gdb_groups db1 = gdb_groups db @ [?g]"
    "gdb_members db1 = gdb_members db @ [\<lparr>gm_group_id = next_group_id db, gm_alert_id = al_alert_id a,
          gm_reason = membership_reason a ?f (group_window_minutes ?f),
          gm_score = membership_score a ?f, gm_created_at = now\<rparr>]"
    using start_episode_free [OF ok free a(2)] by metis
  have p: "process_alert H db db a now actor = Inr (db1, Some (next_group_id db))"
    using a free s(1) by (simp add: process_alert_def Let_def)
  have al1: "\<forall>b\<in>set as. episode_alert H db1 ?f ?fp b"
  proof
    fix b assume b: "b \<in> set as"
    moreover have "al_alert_id a \<notin> al_alert_id ` set as" using dist by simp
    ultimately have "al_alert_id a \<noteq> al_alert_id b" by (metis imageI)
    then have "already_member db1 (al_alert_id b) = already_member db (al_alert_id b)"
      by (auto simp: already_member_def s(4))
    then show "episode_alert H db1 ?f ?fp b" using al b by (simp add: episode_alert_def)
  qed
  obtain db2 where q: "process_sorted H db db1 as now actor = Inr (db2, replicate (length as) (next_group_id db))"
    "gdb_groups db2 = update_row bg_id (bg_id ?g) (\<lambda>_. episode now ?g as) (gdb_groups db1)"
    using process_sorted_episode [OF s(2), of ?g ?fp as H ?f db now actor] al1 dist ch s(3) by auto
  have idle: "update_row bg_id (Suc (gdb_seq db)) F (gdb_groups db) = gdb_groups db" for F
  proof (rule update_row_idle)
    show "\<forall>r\<in>set (gdb_groups db). bg_id r \<noteq> Suc (gdb_seq db)"
      using group_db_okD(1) [OF ok] by (auto simp: gcl.ids_ok_def)
  qed
  have "sort_key (\<lambda>a. (al_first_seen a, al_alert_id a)) (a # as) = a # as"
    by (rule sort_key_id_if_sorted [OF sorted])
  then have "process_alerts cfg H wall db (a # as) (Some now) actor
      = Inr (db2, uniq_first (next_group_id db # replicate (length as) (next_group_id db)))"
    unfolding process_alerts_Inr using gate p q(1) by auto
  moreover have "uniq_first (x # replicate n x) = [x]" for x :: string and n
  proof -
    have "remdups (replicate n x @ [x]) = [x]" by (induction n) auto
    then show ?thesis by (simp add: uniq_first_def)
  qed
  moreover have "gdb_groups db2 = gdb_groups db @ [episode now ?g as]"
    unfolding q(2) s(3) using idle by (simp add: update_row_def)
  ultimately show ?thesis by simp
qed

text \<open>C12: alerts of one identity (host, user, source, family) whose gaps stay within the
  window form exactly one new group, however long the episode: its alert list is the
  alerts in order, it starts with the first and ends with the last one, it counts them
  all, and its severity is the strongest severity of its members, never a higher one.\<close>

theorem episode_one_group:
  assumes "group_db_ok db" "ensure_not_production_db ''aggregation'' cfg = Inr ()"
    and e: "episode_input H db a as"
  shows "\<exists>db' g. process_alerts cfg H wall db (a # as) (Some now) actor = Inr (db', [bg_group_id g])
     \<and> gdb_groups db' = gdb_groups db @ [g] \<and> bg_status g = ''ACTIVE''
     \<and> bg_alert_ids g = map al_alert_id (a # as) \<and> bg_alert_count g = length (a # as)
     \<and> bg_first_seen g = al_first_seen a \<and> bg_last_seen g = Max (al_first_seen ` set (a # as))
     \<and> severity_rank (bg_highest_severity g) = Max ((\<lambda>b. severity_rank (al_severity b)) ` set (a # as))"
proof -
  let ?f = "behavior_family a None"
  let ?fresh = "fresh_group db (group_fingerprint H a ?f) a ?f now"
  let ?g = "episode now ?fresh (a # as)"
  obtain db' where r: "process_alerts cfg H wall db (a # as) (Some now) actor = Inr (db', [next_group_id db])"
    "gdb_groups db' = gdb_groups db @ [?g]"
    using process_alerts_episode [OF assms] by blast
  have dist: "distinct (bg_alert_ids ?fresh @ map al_alert_id (a # as))"
    using e by (simp add: episode_input_def Let_def)
  have "bg_last_seen ?g = foldl max (al_first_seen a) (map al_first_seen as)" by simp
  also have "\<dots> = Max (al_first_seen ` set (a # as))" by (simp add: foldl_max_Max)
  finally have l: "bg_last_seen ?g = Max (al_first_seen ` set (a # as))" .
  have "severity_rank (bg_highest_severity ?g) = foldl max (severity_rank (al_severity a)) (map (\<lambda>b. severity_rank (al_severity b)) as)"
    by simp
  also have "\<dots> = Max ((\<lambda>b. severity_rank (al_severity b)) ` set (a # as))" by (simp only: foldl_max_Max set_map list.set image_insert)
  finally have s: "severity_rank (bg_highest_severity ?g) = Max ((\<lambda>b. severity_rank (al_severity b)) ` set (a # as))" .
  have f: "bg_first_seen ?g = al_first_seen a" by (simp add: fresh_group_def candidate_group_def)
  have i: "bg_alert_ids ?g = map al_alert_id (a # as)" using episode_alert_ids [OF dist] by simp
  have "bg_group_id ?g = next_group_id db" "bg_status ?g = ''ACTIVE''" "bg_alert_count ?g = length (a # as)" by simp_all
  then show ?thesis using r l s f i by metis
qed

section \<open>Where the engine departs from its documentation\<close>

text \<open>A lower bound of the confidence of a group of n alerts, whatever their own
  confidences are.\<close>

fun conf_floor :: "nat \<Rightarrow> rat" where
  "conf_floor 0 = 0"
| "conf_floor (Suc n) = min 1 (fadd (conf_floor n) (fl (15/100)))"

lemma conf_floor_7: "conf_floor 7 = 1"
proof -
  have "conf_floor (Suc (Suc (Suc (Suc (Suc (Suc (Suc 0))))))) = 1" by code_simp
  then show ?thesis by (simp add: numeral_eq_Suc del: conf_floor.simps)
qed

lemma episode_conf_floor:
  "0 < bg_alert_count g \<Longrightarrow> 0 \<le> bg_confidence g \<Longrightarrow> bg_confidence g \<le> 1 \<Longrightarrow> conf_floor n \<le> bg_confidence g \<Longrightarrow>
   conf_floor (n + length as) \<le> bg_confidence (episode now g as) \<and> bg_confidence (episode now g as) \<le> 1"
proof (induction as arbitrary: g n)
  case (Cons a as)
  let ?g = "attached_group a now g"
  have "conf_floor n \<le> max (bg_confidence g) (al_confidence a)" using Cons.prems(4) by simp
  then have "conf_floor (Suc n) \<le> bg_confidence ?g"
    using Cons.prems(1) fadd_mono [of "conf_floor n" "max (bg_confidence g) (al_confidence a)" "fl (15/100)" "fl (15/100)"]
    by (simp add: attached_group_confidence)
  moreover have "0 \<le> bg_confidence ?g" "bg_confidence ?g \<le> 1" using attached_confidence_unit [OF Cons.prems(2)] by blast+
  ultimately show ?case using Cons.IH [of ?g "Suc n"] by simp
qed simp

text \<open>The consistency bonus of 0.15 is added to a confidence that already contains it,
  once per further alert: an episode of eight or more alerts has confidence 1.0 whatever
  the confidences of its alerts are, even if every one of them is 0.0.  (The documentation
  of the engine gives the strongest member's confidence plus 0.15.)\<close>

theorem eight_alerts_reach_certainty:
  assumes "group_db_ok db" "ensure_not_production_db ''aggregation'' cfg = Inr ()"
    and "episode_input H db a as" and n: "7 \<le> length as"
  shows "\<exists>db' g. process_alerts cfg H wall db (a # as) (Some now) actor = Inr (db', [bg_group_id g])
     \<and> gdb_groups db' = gdb_groups db @ [g] \<and> bg_confidence g = 1"
proof -
  let ?f = "behavior_family a None"
  let ?fresh = "fresh_group db (group_fingerprint H a ?f) a ?f now"
  let ?g = "attached_group a now ?fresh"
  have u: "0 \<le> bg_confidence ?g" "bg_confidence ?g \<le> 1" using attached_confidence_unit [of ?fresh] by simp_all
  have c: "conf_floor (0 + length as) \<le> bg_confidence (episode now ?g as) \<and> bg_confidence (episode now ?g as) \<le> 1"
    by (rule episode_conf_floor) (use u in simp_all)
  have "conf_floor (7 + k) = 1" for k
  proof (induction k)
    case (Suc k)
    have "(1::rat) \<le> fadd 1 (fl (15/100))" by code_simp
    then show ?case using Suc by (simp only: add_Suc_right conf_floor.simps min_absorb1)
  qed (simp add: conf_floor_7)
  from this [of "length as - 7"] have "conf_floor (length as) = 1" using n by simp
  then have "bg_confidence (episode now ?g as) = 1" using c by simp
  moreover have "bg_group_id (episode now ?g as) = next_group_id db" by simp
  ultimately show ?thesis using process_alerts_episode [OF assms(1-3)] by (metis episode_simps(2))
qed

text \<open>The window only bounds how late an alert may come: an alert older than the group,
  by any amount, joins a live group of its identity, and the group's first_seen is not
  lowered, so the group then holds an alert older than its own start.\<close>

theorem late_alert_joins_group:
  assumes ok: "group_db_ok db" and g: "g \<in> set (gdb_groups db)" "group_live g"
    and a: "al_status a \<noteq> ''SUPPRESSED''" "\<not> already_member db (al_alert_id a)"
      "bg_fingerprint g = group_fingerprint H a (behavior_family a None)"
    and old: "al_first_seen a < bg_first_seen g"
    and gate: "ensure_not_production_db ''aggregation'' cfg = Inr ()"
  shows "\<exists>db' g'. process_alerts cfg H wall db [a] (Some now) actor = Inr (db', [bg_group_id g])
     \<and> g' \<in> set (gdb_groups db') \<and> bg_id g' = bg_id g \<and> al_alert_id a \<in> set (bg_alert_ids g')
     \<and> al_first_seen a < bg_first_seen g' \<and> bg_last_seen g' = bg_last_seen g"
proof -
  let ?f = "behavior_family a None"
  have le: "al_first_seen a < bg_last_seen g"
    using group_db_okD(3) [OF ok g(1)] old unfolding group_ok_def by linarith
  have "0 \<le> minutes (group_window_minutes ?f)"
    by (simp add: group_window_minutes_def AGGREGATION_WINDOWS_MINUTES_def AGGREGATION_WINDOW_DEFAULT_MINUTES_def minutes_def)
  then have w: "within_group_window (bg_last_seen g) (al_first_seen a) ?f"
    using le by (simp add: within_group_window_def)
  obtain db1 action where at: "attach db g a ?f now actor = Inr (db1, action)"
    using attach_live [OF g(2), of db a ?f now actor] by blast
  have "live_group_for db (group_fingerprint H a ?f) = Some g"
    using live_group_for_unique [OF ok g] a(3) by simp
  then have "process_alert H db db a now actor = Inr (db1, Some (bg_group_id g))"
    using a(1,2) at w by (simp add: process_alert_def Let_def)
  then have p: "process_alerts cfg H wall db [a] (Some now) actor = Inr (db1, [bg_group_id g])"
    using gate by (simp add: process_alerts_def uniq_first_def)
  let ?g = "attached_group a now (activated g now)"
  have "?g \<in> set (gdb_groups db1)" unfolding attach_Inr(1) [OF g(2) at] set_update_row using g(1) by force
  moreover have "al_alert_id a \<in> set (bg_alert_ids ?g)" by (simp add: attached_group_alert_ids)
  moreover have "al_first_seen a < bg_first_seen ?g" "bg_last_seen ?g = bg_last_seen g" "bg_id ?g = bg_id g"
    using old le by simp_all
  ultimately show ?thesis using p by blast
qed


section \<open>Concrete runs\<close>

text \<open>Alert number n of one brute-force episode, one second after the one before it.\<close>

definition nth_alert :: "nat \<Rightarrow> alert" where
  "nth_alert n = example_alert\<lparr>al_alert_id := ''ALR-'' @ replicate n (CHR ''1''), al_first_seen := seconds (int n)\<rparr>"

lemma nth_alert_simps [simp]:
  "al_alert_id (nth_alert n) = ''ALR-'' @ replicate n (CHR ''1'')" "al_first_seen (nth_alert n) = seconds (int n)"
  "al_status (nth_alert n) = ''OPEN''" "behavior_family (nth_alert n) None = ''authentication''"
  "group_fingerprint H (nth_alert n) f = group_fingerprint H example_alert f"
  by (simp_all add: nth_alert_def example_alert_def behavior_family_def str_or_def DETECTOR_BEHAVIOR_FAMILIES_def
      BEHAVIOR_FAMILIES_def group_fingerprint_def group_payload_def primary_host_def primary_user_def normalized_source_def)

lemma nth_alert_chained: "m \<le> n \<Longrightarrow> n \<le> Suc m \<Longrightarrow> chained ''authentication'' (seconds (int m)) (map nth_alert [n..<n + k])"
proof (induction k arbitrary: m n)
  case (Suc k)
  have e: "[n..<n + Suc k] = n # [Suc n..<Suc n + k]" by (simp add: upt_conv_Cons)
  have w: "within_group_window (seconds (int m)) (seconds (int n)) ''authentication''"
    using Suc.prems by (simp add: within_group_window_def group_window_minutes_def AGGREGATION_WINDOWS_MINUTES_def
        minutes_def seconds_def)
  have "max (seconds (int m)) (seconds (int n)) = seconds (int n)" using Suc.prems by (simp add: seconds_def)
  then show ?case unfolding e using w Suc.IH [of n "Suc n"] by simp
qed simp

lemma nth_alert_sorted: "sorted (map (\<lambda>a. (al_first_seen a, al_alert_id a)) (map nth_alert [m..<n]))"
  by (simp add: sorted_map sorted_wrt_iff_nth_less seconds_def)

lemma nth_alert_episode: "episode_input id empty_group_db (nth_alert 0) (map nth_alert [1..<Suc k])"
proof -
  have l: "nth_alert 0 # map nth_alert [1..<Suc k] = map nth_alert [0..<Suc k]"
    by (simp add: upt_conv_Cons del: upt_Suc)
  have d: "distinct (map al_alert_id (map nth_alert [0..<Suc k]))"
    by (simp add: distinct_map inj_on_def del: upt_Suc)
  have c: "chained ''authentication'' (seconds 0) (map nth_alert [1..<Suc k])"
    using nth_alert_chained [of 0 1 k] by simp
  show ?thesis
    unfolding episode_input_def Let_def l
    using d c nth_alert_sorted [of 0 "Suc k"]
    by (auto simp: live_group_for_def empty_group_db_def episode_alert_def already_member_def)
qed

theorem group_store_invariant_witness:
  "\<exists>db ts. process_alerts dev_config id 0 empty_group_db [nth_alert 0] (Some 0) ''system'' = Inr (db, ts) \<and> group_db_ok db"
  by (rule group_store_invariant [OF group_db_ok_empty ensure_dev])

lemma example_run:
  obtains db ts where "process_alerts dev_config id 0 empty_group_db [nth_alert 0] (Some 0) ''system'' = Inr (db, ts)"
  using process_alerts_total [OF group_db_ok_empty ensure_dev] by blast

theorem group_membership_witness:
  "\<exists>db ts. process_alerts dev_config id 0 empty_group_db [nth_alert 0] (Some 0) ''system'' = Inr (db, ts)
     \<and> (\<exists>!g. g \<in> set (gdb_groups db) \<and> ''ALR-'' \<in> set (bg_alert_ids g))"
proof -
  obtain db ts where r: "process_alerts dev_config id 0 empty_group_db [nth_alert 0] (Some 0) ''system'' = Inr (db, ts)"
    by (rule example_run)
  have "''ALR-'' \<in> run_ids [nth_alert 0]" by simp
  with group_membership [OF group_db_ok_empty r] r show ?thesis by blast
qed

theorem group_run_idempotent_witness:
  "\<exists>db ts. process_alerts dev_config id 0 empty_group_db [nth_alert 0] (Some 0) ''system'' = Inr (db, ts)
     \<and> process_alerts dev_config id 9 db [nth_alert 0, nth_alert 0] None ''worker'' = Inr (db, [])"
proof -
  obtain db ts where r: "process_alerts dev_config id 0 empty_group_db [nth_alert 0] (Some 0) ''system'' = Inr (db, ts)"
    by (rule example_run)
  have "set [nth_alert 0, nth_alert 0] \<subseteq> set [nth_alert 0]" by simp
  from group_run_idempotent [OF group_db_ok_empty r this, of 9 None "''worker''"] r show ?thesis by blast
qed

theorem group_order_independent_witness:
  "process_alerts dev_config id 0 empty_group_db [nth_alert 1, nth_alert 0] (Some 0) ''system''
   = process_alerts dev_config id 0 empty_group_db [nth_alert 0, nth_alert 1] (Some 0) ''system''"
  by (rule group_order_independent) (simp_all add: seconds_def)

theorem episode_one_group_witness:
  "\<exists>db g. process_alerts dev_config id 0 empty_group_db (nth_alert 0 # map nth_alert [1..<Suc 2]) (Some 0) ''system''
       = Inr (db, [bg_group_id g]) \<and> gdb_groups db = [g] \<and> bg_alert_count g = 3"
proof -
  obtain db g where "process_alerts dev_config id 0 empty_group_db (nth_alert 0 # map nth_alert [1..<Suc 2]) (Some 0) ''system''
       = Inr (db, [bg_group_id g])" "gdb_groups db = gdb_groups empty_group_db @ [g]"
      "bg_alert_count g = length (nth_alert 0 # map nth_alert [1..<Suc 2])"
    using episode_one_group [OF group_db_ok_empty ensure_dev nth_alert_episode [of 2], where wall = 0 and now = 0 and actor = "''system''"]
    by blast
  then show ?thesis by (intro exI [of _ db] exI [of _ g]) (simp add: empty_group_db_def)
qed

theorem eight_alerts_reach_certainty_witness:
  "\<exists>db g. process_alerts dev_config id 0 empty_group_db (nth_alert 0 # map nth_alert [1..<Suc 7]) (Some 0) ''system''
       = Inr (db, [bg_group_id g]) \<and> gdb_groups db = [g] \<and> bg_confidence g = 1"
proof -
  have n: "7 \<le> length (map nth_alert [1..<Suc 7])" by simp
  obtain db g where "process_alerts dev_config id 0 empty_group_db (nth_alert 0 # map nth_alert [1..<Suc 7]) (Some 0) ''system''
       = Inr (db, [bg_group_id g])" "gdb_groups db = gdb_groups empty_group_db @ [g]" "bg_confidence g = 1"
    using eight_alerts_reach_certainty [OF group_db_ok_empty ensure_dev nth_alert_episode [of 7] n,
        where wall = 0 and now = 0 and actor = "''system''"] by blast
  then show ?thesis by (intro exI [of _ db] exI [of _ g]) (simp add: empty_group_db_def)
qed

text \<open>A store with one live group, left by one run.\<close>

lemma one_group_run:
  obtains db g where "group_db_ok db" "gdb_groups db = [g]" "bg_status g = ''ACTIVE''" "bg_last_seen g = seconds 5"
    "bg_first_seen g = seconds 5" "bg_fingerprint g = group_fingerprint id example_alert ''authentication''"
    "gm_alert_id ` set (gdb_members db) = {''ALR-11111''}"
proof -
  have e: "episode_input id empty_group_db (nth_alert 5) []"
    by (simp add: episode_input_def Let_def live_group_for_def empty_group_db_def episode_alert_def already_member_def)
  obtain db where r: "process_alerts dev_config id 0 empty_group_db [nth_alert 5] (Some 0) ''system'' = Inr (db, [next_group_id empty_group_db])"
    "gdb_groups db = gdb_groups empty_group_db @ [episode 0 (fresh_group empty_group_db (group_fingerprint id (nth_alert 5) (behavior_family (nth_alert 5) None)) (nth_alert 5)
          (behavior_family (nth_alert 5) None) 0) [nth_alert 5]]"
    using process_alerts_episode [OF group_db_ok_empty ensure_dev e, of 0 0 "''system''"] by blast
  have ok: "group_db_ok db" using process_alerts_ok [OF group_db_ok_empty r(1)] .
  have m: "gm_alert_id ` set (gdb_members db) = {''ALR-11111''}"
    using process_alerts_grown [OF group_db_ok_empty r(1)]
    by (simp add: grown_def empty_group_db_def numeral_eq_Suc)
  let ?g = "episode 0 (fresh_group empty_group_db (group_fingerprint id (nth_alert 5) (behavior_family (nth_alert 5) None)) (nth_alert 5)
          (behavior_family (nth_alert 5) None) 0) [nth_alert 5]"
  have "gdb_groups db = [?g]" using r(2) by (simp add: empty_group_db_def)
  moreover have "bg_first_seen ?g = seconds 5"
    by (simp add: fresh_group_def candidate_group_def)
  moreover have "bg_fingerprint ?g = group_fingerprint id example_alert ''authentication''" by simp
  moreover have "bg_last_seen ?g = seconds 5" "bg_status ?g = ''ACTIVE''" by simp_all
  ultimately show ?thesis using that [OF ok _ _ _ _ _ m] by blast
qed

theorem late_alert_joins_group_witness:
  "\<exists>db g db' g'. g \<in> set (gdb_groups db) \<and>
     process_alerts dev_config id 0 db [nth_alert 0] (Some 0) ''system'' = Inr (db', [bg_group_id g])
     \<and> g' \<in> set (gdb_groups db') \<and> ''ALR-'' \<in> set (bg_alert_ids g') \<and> 0 < bg_first_seen g'"
proof -
  obtain db g where g: "group_db_ok db" "gdb_groups db = [g]" "bg_status g = ''ACTIVE''" "bg_last_seen g = seconds 5"
    "bg_first_seen g = seconds 5" "bg_fingerprint g = group_fingerprint id example_alert ''authentication''"
    "gm_alert_id ` set (gdb_members db) = {''ALR-11111''}"
    by (rule one_group_run)
  have in_db: "g \<in> set (gdb_groups db)" "group_live g" using g(2,3) by (simp_all add: group_live_def)
  have new: "\<not> already_member db (al_alert_id (nth_alert 0))" using g(7) by (simp add: already_member_iff)
  have st: "al_status (nth_alert 0) \<noteq> ''SUPPRESSED''" by simp
  have fp: "bg_fingerprint g = group_fingerprint id (nth_alert 0) (behavior_family (nth_alert 0) None)" using g(6) by simp
  have old: "al_first_seen (nth_alert 0) < bg_first_seen g" using g(5) by (simp add: seconds_def)
  from late_alert_joins_group [OF g(1) in_db st new fp old ensure_dev, of 0 0 "''system''"] in_db(1)
  show ?thesis by (auto simp: seconds_def)
qed

theorem expire_two_passes_close_witness:
  "\<exists>db g db1 us1 db2 us2. expire_groups dev_config 0 db (Some (minutes 66)) ''system'' = Inr (db1, us1)
     \<and> expire_groups dev_config 0 db1 (Some (minutes 67)) ''system'' = Inr (db2, us2)
     \<and> g \<in> set (gdb_groups db) \<and> (\<exists>g2\<in>set (gdb_groups db2). bg_id g2 = bg_id g \<and> bg_status g2 = ''CLOSED'')"
proof -
  obtain db g where g: "group_db_ok db" "gdb_groups db = [g]" "bg_status g = ''ACTIVE''" "bg_last_seen g = seconds 5"
    by (rule one_group_run)
  have in_db: "g \<in> set (gdb_groups db)" "group_live g" using g(2,3) by (simp_all add: group_live_def)
  obtain db1 us1 where r1: "expire_groups dev_config 0 db (Some (minutes 66)) ''system'' = Inr (db1, us1)" "group_db_ok db1"
    using expire_groups_ok [OF g(1) ensure_dev] by blast
  obtain db2 us2 where r2: "expire_groups dev_config 0 db1 (Some (minutes 67)) ''system'' = Inr (db2, us2)"
    using expire_groups_ok [OF r1(2) ensure_dev] by blast
  have t: "bg_last_seen g + minutes 60 < minutes 66" "minutes 66 \<le> minutes 67"
    using g(4) by (simp_all add: minutes_def seconds_def)
  from expire_two_passes_close [OF g(1) r1(1) r2 in_db t] r1(1) r2 in_db(1) show ?thesis by blast
qed

theorem group_rows_meet_contract_witness:
  "\<exists>(db :: group_db) g. gdb_groups db = [g] \<and> behavior_group_init g = Inr g"
proof -
  obtain db g where g: "group_db_ok db" "gdb_groups db = [g]" by (rule one_group_run)
  have "g \<in> set (gdb_groups db)" using g(2) by simp
  from group_rows_meet_contract [OF g(1) this] g(2) show ?thesis
    by (intro exI [of _ db] exI [of _ g]) simp
qed

theorem closed_group_frozen_witness:
  "\<exists>db g db1 ts. bg_status g = ''CLOSED'' \<and> g \<in> set (gdb_groups db)
     \<and> process_alerts dev_config id 0 db [nth_alert 6] (Some 0) ''system'' = Inr (db1, ts)
     \<and> g \<in> set (gdb_groups db1)"
proof -
  obtain db g where g: "group_db_ok db" "gdb_groups db = [g]" "bg_status g = ''ACTIVE''" "bg_last_seen g = seconds 5"
    by (rule one_group_run)
  let ?c = "restatus ''CLOSED'' 0 (Some 0) g" and ?db = "db\<lparr>gdb_groups := map (restatus ''CLOSED'' 0 (Some 0)) (gdb_groups db)\<rparr>"
  have ok: "group_db_ok ?db"
    by (rule map_restatus_ok [OF g(1)]) (auto simp: GROUP_STATUSES_def)
  have c: "?c \<in> set (gdb_groups ?db)" "bg_status ?c = ''CLOSED''" using g(2) by (simp_all add: restatus_def)
  obtain db1 ts where r1: "process_alerts dev_config id 0 ?db [nth_alert 6] (Some 0) ''system'' = Inr (db1, ts)" "group_db_ok db1"
    using process_alerts_total [OF ok ensure_dev] by blast
  obtain db2 us where r2: "expire_groups dev_config 0 db1 (Some 0) ''system'' = Inr (db2, us)"
    using expire_groups_ok [OF r1(2) ensure_dev] by blast
  from closed_group_frozen [OF ok c r1(1) r2] r1(1) c show ?thesis by blast
qed

end
