(* ===== verification/Group_Workers.thy ===== *)
theory Group_Workers
  imports Group_Props
begin

text \<open>
  Several workers on one store.  Each worker is a run of \<open>process_alerts\<close> of
  \<open>backend/aggregation/engine.py\<close> on one alert, in a session of its own.  The database
  shows a session what the others have committed (PostgreSQL's READ COMMITTED), so a step
  of a worker is either one query, or the rest of its transaction from the first write that
  locks a row up to the commit.  Between two steps of a worker any other worker may run: the
  rows a worker has loaded may be out of date when it writes them back.
\<close>

section \<open>The session of a worker\<close>

text \<open>\<open>UPDATE\<close> of a loaded row: the session writes the columns whose value differs
  from the loaded one, and only those.\<close>

definition changed_column :: "(group \<Rightarrow> 'c) \<Rightarrow> group \<Rightarrow> group \<Rightarrow> group \<Rightarrow> 'c" where
  "changed_column f old new cur = (if f new = f old then f cur else f new)"

definition write_back :: "group \<Rightarrow> group \<Rightarrow> group \<Rightarrow> group" where
  "write_back old new cur = cur\<lparr>
     bg_description := changed_column bg_description old new cur,
     bg_status := changed_column bg_status old new cur,
     bg_last_seen := changed_column bg_last_seen old new cur,
     bg_alert_count := changed_column bg_alert_count old new cur,
     bg_occurrence_count := changed_column bg_occurrence_count old new cur,
     bg_alert_ids := changed_column bg_alert_ids old new cur,
     bg_host_ids := changed_column bg_host_ids old new cur,
     bg_user_ids := changed_column bg_user_ids old new cur,
     bg_source_ips := changed_column bg_source_ips old new cur,
     bg_mitre_tactics := changed_column bg_mitre_tactics old new cur,
     bg_mitre_techniques := changed_column bg_mitre_techniques old new cur,
     bg_observables := changed_column bg_observables old new cur,
     bg_confidence := changed_column bg_confidence old new cur,
     bg_highest_severity := changed_column bg_highest_severity old new cur,
     bg_updated_at := changed_column bg_updated_at old new cur,
     bg_closed_at := changed_column bg_closed_at old new cur\<rparr>"

lemma write_back_simps [simp]:
  "bg_id (write_back old new cur) = bg_id cur" "bg_group_id (write_back old new cur) = bg_group_id cur"
  "bg_fingerprint (write_back old new cur) = bg_fingerprint cur"
  "bg_status (write_back old new cur) = (if bg_status new = bg_status old then bg_status cur else bg_status new)"
  "bg_last_seen (write_back old new cur) =
     (if bg_last_seen new = bg_last_seen old then bg_last_seen cur else bg_last_seen new)"
  by (simp_all add: write_back_def changed_column_def)

text \<open>What a session has not written yet: the loaded rows it has changed, each with its new
  value, and the audit events it has added.\<close>

record session =
  se_dirty :: "(group \<times> group) list"
  se_audit :: "group_audit list"

definition empty_session :: session where
  "empty_session = \<lparr>se_dirty = [], se_audit = []\<rparr>"

definition add_audits :: "group_audit list \<Rightarrow> group_db \<Rightarrow> group_db" where
  "add_audits es db = db\<lparr>gdb_audit := gdb_audit db @ es\<rparr>"

definition dirty_rows :: "(group \<times> group) list \<Rightarrow> group list \<Rightarrow> group list" where
  "dirty_rows ds gs = fold (\<lambda>(old, new). update_row bg_id (bg_id old) (write_back old new)) ds gs"

text \<open>The flush.  An update that makes a second row of a fingerprint live breaks the partial
  unique index.\<close>

definition flush_session :: "session \<Rightarrow> group_db \<Rightarrow> py_error + group_db" where
  "flush_session s db =
     (let gs = dirty_rows (se_dirty s) (gdb_groups db) in
      if \<exists>q\<in>set gs. \<exists>r\<in>set gs. group_live q \<and> group_live r \<and> bg_fingerprint q = bg_fingerprint r \<and> bg_id q \<noteq> bg_id r
      then Inl (IntegrityError ''group_fingerprint'')
      else Inr (add_audits (se_audit s) (db\<lparr>gdb_groups := gs\<rparr>)))"

text \<open>\<open>_attach\<close> in the session: it computes the new row from the loaded one, and the
  flush at the commit writes the changed columns.\<close>

definition worker_attach ::
  "group_db \<Rightarrow> session \<Rightarrow> group \<Rightarrow> alert \<Rightarrow> time \<Rightarrow> string \<Rightarrow> py_error + group_db" where
  "worker_attach db s g a now actor =
     (case flush_session s db of
        Inl e \<Rightarrow> Inl e
      | Inr db1 \<Rightarrow>
         (case attach (db1\<lparr>gdb_groups := [g]\<rparr>) g a (behavior_family a None) now actor of
            Inl e \<Rightarrow> Inl e
          | Inr (view, _) \<Rightarrow>
              flush_session \<lparr>se_dirty = [(g, hd (gdb_groups view))], se_audit = []\<rparr>
                (view\<lparr>gdb_groups := gdb_groups db1\<rparr>)))"

text \<open>The close of a live group outside its window, before it is flushed.\<close>

definition expiry_session :: "group \<Rightarrow> alert \<Rightarrow> time \<Rightarrow> string \<Rightarrow> py_error + session" where
  "expiry_session g a now actor =
     (case close_expired (empty_group_db\<lparr>gdb_groups := [g]\<rparr>) g a now actor of
        Inl e \<Rightarrow> Inl e
      | Inr view \<Rightarrow> Inr \<lparr>se_dirty = [(g, hd (gdb_groups view))], se_audit = gdb_audit view\<rparr>)"

text \<open>The audit event about an earlier group of the fingerprint.\<close>

definition reopen_audits :: "group option \<Rightarrow> alert \<Rightarrow> string \<Rightarrow> group_audit list" where
  "reopen_audits c a actor = (case c of
     None \<Rightarrow> []
   | Some g \<Rightarrow> [\<lparr>ga_group_id = bg_group_id g, ga_action = ''GROUP_REOPEN_REJECTED'', ga_actor = actor,
       ga_details = [(''alert_id'', VStr (al_alert_id a)), (''decision'', VStr ''new group created'')]\<rparr>])"

definition created_audits :: "string \<Rightarrow> group \<Rightarrow> alert \<Rightarrow> string \<Rightarrow> group_audit list" where
  "created_audits gid g a actor =
     (if bg_group_id g = gid
      then [\<lparr>ga_group_id = bg_group_id g, ga_action = ''GROUP_CREATED'', ga_actor = actor,
        ga_details = [(''alert_id'', VStr (al_alert_id a)), (''behavior_family'', VStr (behavior_family a None)),
          (''primary_host'', VStr (primary_host a)), (''primary_user'', VStr (primary_user a)),
          (''source'', VStr (normalized_source a))]\<rparr>]
      else [])"

section \<open>Workers\<close>

datatype worker =
    Starting alert
  | Skipped alert
  | Looking alert
  | Expired alert group
  | Missed alert
  | Noted alert "group option"
  | Retrying alert
  | Beaten alert string session "group option"
  | Holding alert group session
  | Finished alert string
  | Failed alert py_error

fun worker_alert :: "worker \<Rightarrow> alert" where
  "worker_alert (Starting a) = a"
| "worker_alert (Skipped a) = a"
| "worker_alert (Looking a) = a"
| "worker_alert (Expired a g) = a"
| "worker_alert (Missed a) = a"
| "worker_alert (Noted a c) = a"
| "worker_alert (Retrying a) = a"
| "worker_alert (Beaten a gid s c) = a"
| "worker_alert (Holding a g s) = a"
| "worker_alert (Finished a gid) = a"
| "worker_alert (Failed a e) = a"

definition work_fp :: "(string \<Rightarrow> string) \<Rightarrow> alert \<Rightarrow> string" where
  "work_fp H a = group_fingerprint H a (behavior_family a None)"

definition work_candidate :: "(string \<Rightarrow> string) \<Rightarrow> string \<Rightarrow> alert \<Rightarrow> time \<Rightarrow> group" where
  "work_candidate H gid a now = candidate_group gid (work_fp H a) a (behavior_family a None) now"

text \<open>A claim that creates the row, up to the commit: the insert, the query for the live
  group, the audit event, the attachment.\<close>

definition open_episode ::
  "(string \<Rightarrow> string) \<Rightarrow> group_db \<Rightarrow> string \<Rightarrow> alert \<Rightarrow> time \<Rightarrow> string \<Rightarrow> py_error + group_db" where
  "open_episode H db gid a now actor =
     (case insert_group db (work_candidate H gid a now) of
        Inl e \<Rightarrow> Inl e
      | Inr db1 \<Rightarrow>
         (case live_group_for db1 (work_fp H a) of
            None \<Rightarrow> Inl (RuntimeError ''could not claim group fingerprint'')
          | Some g \<Rightarrow> map_sum id fst
              (attach (add_audits (created_audits gid g a actor) db1) g a (behavior_family a None) now actor)))"

text \<open>A row that the session has loaded before keeps the loaded values (the identity map).\<close>

definition loaded :: "group option \<Rightarrow> group \<Rightarrow> group" where
  "loaded c g = (case c of None \<Rightarrow> g | Some old \<Rightarrow> if bg_id old = bg_id g then old else g)"

text \<open>The sequence of the table gives out a number even when the insert does nothing.\<close>

definition next_number :: "group_db \<Rightarrow> group_db" where
  "next_number db = db\<lparr>gdb_seq := Suc (gdb_seq db)\<rparr>"

text \<open>The steps.  The public id \<open>gid\<close> is whatever the worker has computed from the
  rows it saw: two workers may have computed the same one.  A failed claim rolls the whole
  transaction back, the close and the audit events included, and is tried once more.\<close>

inductive worker_step :: "(string \<Rightarrow> string) \<Rightarrow> time \<Rightarrow> string \<Rightarrow> group_db \<Rightarrow> worker \<Rightarrow> group_db \<Rightarrow> worker \<Rightarrow> bool"
  for H now actor where
  skips: "al_status a = ''SUPPRESSED'' \<or> already_member db (al_alert_id a) \<Longrightarrow>
     worker_step H now actor db (Starting a) db (Skipped a)"
| passes: "al_status a \<noteq> ''SUPPRESSED'' \<Longrightarrow> \<not> already_member db (al_alert_id a) \<Longrightarrow>
     worker_step H now actor db (Starting a) db (Looking a)"
| hits: "live_group_for db (work_fp H a) = Some g \<Longrightarrow>
     within_group_window (bg_last_seen g) (al_first_seen a) (behavior_family a None) \<Longrightarrow>
     worker_step H now actor db (Looking a) db (Holding a g empty_session)"
| expires: "live_group_for db (work_fp H a) = Some g \<Longrightarrow>
     \<not> within_group_window (bg_last_seen g) (al_first_seen a) (behavior_family a None) \<Longrightarrow>
     worker_step H now actor db (Looking a) db (Expired a g)"
| misses: "live_group_for db (work_fp H a) = None \<Longrightarrow> worker_step H now actor db (Looking a) db (Missed a)"
| looks_back: "worker_step H now actor db (Missed a) db (Noted a (closed_group_for db (work_fp H a)))"
| creates: "live_group_for db (work_fp H a) = None \<Longrightarrow>
     open_episode H (add_audits (reopen_audits c a actor) db) gid a now actor = Inr db1 \<Longrightarrow>
     worker_step H now actor db (Noted a c) db1 (Finished a gid)"
| collides: "live_group_for db (work_fp H a) = None \<Longrightarrow>
     insert_group db (work_candidate H gid a now) = Inl e \<Longrightarrow>
     worker_step H now actor db (Noted a c) db (Retrying a)"
| yields: "live_group_for db (work_fp H a) = Some g \<Longrightarrow>
     worker_step H now actor db (Noted a c) (next_number db)
       (Beaten a gid \<lparr>se_dirty = [], se_audit = reopen_audits c a actor\<rparr> c)"
| closes: "expiry_session g a now actor = Inr s \<Longrightarrow> flush_session s db = Inr db1 \<Longrightarrow>
     live_group_for db1 (work_fp H a) = None \<Longrightarrow>
     open_episode H (add_audits (reopen_audits (closed_group_for db1 (work_fp H a)) a actor) db1) gid a now actor = Inr db2 \<Longrightarrow>
     worker_step H now actor db (Expired a g) db2 (Finished a gid)"
| closes_collides: "expiry_session g a now actor = Inr s \<Longrightarrow> flush_session s db = Inr db1 \<Longrightarrow>
     live_group_for db1 (work_fp H a) = None \<Longrightarrow>
     insert_group db1 (work_candidate H gid a now) = Inl e \<Longrightarrow>
     worker_step H now actor db (Expired a g) db (Retrying a)"
| closes_yields: "expiry_session g a now actor = Inr s \<Longrightarrow> flush_session s db = Inr db1 \<Longrightarrow>
     live_group_for db1 (work_fp H a) = Some h \<Longrightarrow>
     worker_step H now actor db (Expired a g) (next_number db)
       (Beaten a gid (s\<lparr>se_audit := se_audit s @ reopen_audits (closed_group_for db1 (work_fp H a)) a actor\<rparr>)
         (closed_group_for db1 (work_fp H a)))"
| close_refused: "expiry_session g a now actor = Inl e \<Longrightarrow> worker_step H now actor db (Expired a g) db (Failed a e)"
| close_fails: "expiry_session g a now actor = Inr s \<Longrightarrow> flush_session s db = Inl e \<Longrightarrow>
     worker_step H now actor db (Expired a g) db (Failed a e)"
| retries: "live_group_for db (work_fp H a) = None \<Longrightarrow>
     open_episode H db gid a now actor = Inr db1 \<Longrightarrow>
     worker_step H now actor db (Retrying a) db1 (Finished a gid)"
| gives_up: "live_group_for db (work_fp H a) = None \<Longrightarrow>
     insert_group db (work_candidate H gid a now) = Inl e \<Longrightarrow>
     worker_step H now actor db (Retrying a) db (Failed a (RuntimeError ''could not claim group fingerprint''))"
| retry_yields: "live_group_for db (work_fp H a) = Some g \<Longrightarrow>
     worker_step H now actor db (Retrying a) (next_number db) (Beaten a gid empty_session None)"
| finds: "live_group_for db (work_fp H a) = Some g \<Longrightarrow>
     worker_step H now actor db (Beaten a gid s c) db
       (Holding a (loaded c g) (s\<lparr>se_audit := se_audit s @ created_audits gid g a actor\<rparr>))"
| finds_nothing: "live_group_for db (work_fp H a) = None \<Longrightarrow>
     worker_step H now actor db (Beaten a gid s c) db (Failed a (RuntimeError ''could not claim group fingerprint''))"
| attaches: "worker_attach db s g a now actor = Inr db1 \<Longrightarrow>
     worker_step H now actor db (Holding a g s) db1 (Finished a (bg_group_id g))"
| attach_fails: "worker_attach db s g a now actor = Inl e \<Longrightarrow>
     worker_step H now actor db (Holding a g s) db (Failed a e)"


text \<open>Any worker may move at any time.\<close>

inductive workers_run :: "(string \<Rightarrow> string) \<Rightarrow> time \<Rightarrow> string \<Rightarrow> group_db \<times> worker list \<Rightarrow> group_db \<times> worker list \<Rightarrow> bool"
  for H now actor where
  run_refl: "workers_run H now actor s s"
| run_step: "workers_run H now actor s (db, ws) \<Longrightarrow> i < length ws \<Longrightarrow>
     worker_step H now actor db (ws ! i) db' w' \<Longrightarrow> workers_run H now actor s (db', ws[i := w'])"

lemma worker_step_alert: "worker_step H now actor db w db' w' \<Longrightarrow> worker_alert w' = worker_alert w"
  by (erule worker_step.cases) simp_all

lemma workers_run_alerts:
  "workers_run H now actor s s' \<Longrightarrow> map worker_alert (snd s') = map worker_alert (snd s)"
proof (induction rule: workers_run.induct)
  case (run_step s db ws i db' w')
  have "worker_alert w' = map worker_alert ws ! i"
    using worker_step_alert [OF run_step.hyps(3)] run_step.hyps(2) by simp
  then show ?case using run_step.IH by (simp add: map_update)
qed simp

section \<open>Writing rows back\<close>

lemma add_audits_frame [simp]:
  "gdb_groups (add_audits es db) = gdb_groups db" "gdb_seq (add_audits es db) = gdb_seq db"
  "gdb_members (add_audits es db) = gdb_members db" "gdb_evidence (add_audits es db) = gdb_evidence db"
  by (simp_all add: add_audits_def)

lemma next_number_frame [simp]:
  "gdb_groups (next_number db) = gdb_groups db" "gdb_seq (next_number db) = Suc (gdb_seq db)"
  by (simp_all add: next_number_def)

text \<open>A row that nobody else has changed gets exactly the new value.\<close>

lemma changed_column_same: "changed_column f old new old = f new"
  by (simp add: changed_column_def)

lemma write_back_fresh:
  assumes "bg_id new = bg_id old" "bg_group_id new = bg_group_id old" "bg_fingerprint new = bg_fingerprint old"
    "bg_title new = bg_title old" "bg_first_seen new = bg_first_seen old" "bg_created_at new = bg_created_at old"
  shows "write_back old new old = new"
  unfolding write_back_def changed_column_same by (intro group.equality) (simp_all add: assms)

lemma dirty_rows_map:
  fixes k :: "group \<Rightarrow> 'x"
  assumes "\<And>old new cur. k (write_back old new cur) = k cur"
  shows "map k (dirty_rows ds gs) = map k gs"
proof (induction ds arbitrary: gs)
  case (Cons d ds)
  then show ?case using assms by (cases d) (simp add: dirty_rows_def map_update_row)
qed (simp add: dirty_rows_def)

lemma flush_session_Inr:
  assumes "flush_session s db = Inr db'"
  shows "gdb_groups db' = dirty_rows (se_dirty s) (gdb_groups db)" "gdb_seq db' = gdb_seq db"
    "gcl.one_live (gdb_groups db')"
proof -
  let ?gs = "dirty_rows (se_dirty s) (gdb_groups db)"
  have u: "\<not> (\<exists>q\<in>set ?gs. \<exists>r\<in>set ?gs. group_live q \<and> group_live r \<and> bg_fingerprint q = bg_fingerprint r \<and> bg_id q \<noteq> bg_id r)"
  proof
    assume "\<exists>q\<in>set ?gs. \<exists>r\<in>set ?gs. group_live q \<and> group_live r \<and> bg_fingerprint q = bg_fingerprint r \<and> bg_id q \<noteq> bg_id r"
    then have "flush_session s db = Inl (IntegrityError ''group_fingerprint'')"
      unfolding flush_session_def Let_def by (simp only: if_True)
    with assms show False by simp
  qed
  then have d: "db' = add_audits (se_audit s) (db\<lparr>gdb_groups := ?gs\<rparr>)"
    using assms unfolding flush_session_def Let_def by (simp only: if_False sum.inject)
  show "gdb_groups db' = ?gs" "gdb_seq db' = gdb_seq db" unfolding d by simp_all
  then show "gcl.one_live (gdb_groups db')" using u unfolding gcl.one_live_def by metis
qed

lemma expiry_session_Inr:
  assumes "expiry_session g a now actor = Inr s" "group_live g"
  shows "se_dirty s = [(g, restatus ''CLOSED'' now (Some now) g)]"
    "se_audit s = [\<lparr>ga_group_id = bg_group_id g, ga_action = ''GROUP_CLOSED'', ga_actor = actor,
       ga_details = [(''reason'', VStr ''aggregation window expired''), (''alert_id'', VStr (al_alert_id a))]\<rparr>]"
  using assms by (auto simp: expiry_session_def close_expired_live update_row_def group_audit_record_def empty_group_db_def)

lemma worker_attach_Inr:
  assumes "worker_attach db s g a now actor = Inr db'"
  obtains n where "gdb_groups db' = dirty_rows (se_dirty s @ [(g, n)]) (gdb_groups db)" "gdb_seq db' = gdb_seq db"
    "gcl.one_live (gdb_groups db')" "group_live g \<Longrightarrow> n = attached_group a now (activated g now)"
proof -
  from assms obtain db1 where f: "flush_session s db = Inr db1"
    by (auto simp: worker_attach_def split: sum.splits)
  from assms obtain view ac where v: "attach (db1\<lparr>gdb_groups := [g]\<rparr>) g a (behavior_family a None) now actor = Inr (view, ac)"
    unfolding worker_attach_def f by (auto split: sum.splits)
  have seq: "gdb_seq view = gdb_seq db1"
    using v by (auto simp: attach_def Let_def split: sum.splits if_splits)
  from assms have r: "flush_session \<lparr>se_dirty = [(g, hd (gdb_groups view))], se_audit = []\<rparr>
      (view\<lparr>gdb_groups := gdb_groups db1\<rparr>) = Inr db'"
    by (simp add: worker_attach_def f v)
  have n: "hd (gdb_groups view) = attached_group a now (activated g now)" if "group_live g"
    using attach_Inr(1) [OF that v] by (simp add: update_row_def)
  show ?thesis
    using that [of "hd (gdb_groups view)"] flush_session_Inr [OF r] flush_session_Inr [OF f] n seq
    by (simp add: dirty_rows_def)
qed

section \<open>The store under any interleaving\<close>

definition store_safe :: "group_db \<Rightarrow> bool" where
  "store_safe db \<longleftrightarrow> gcl.ids_ok (gdb_groups db) (gdb_seq db) \<and> gcl.one_live (gdb_groups db)
     \<and> distinct (map bg_group_id (gdb_groups db))"

lemma store_safeD:
  assumes "store_safe db"
  shows "gcl.ids_ok (gdb_groups db) (gdb_seq db)" "gcl.one_live (gdb_groups db)"
    "distinct (map bg_group_id (gdb_groups db))"
  using assms unfolding store_safe_def by blast+

text \<open>What no step changes of a row, and the rows a loaded copy comes from.\<close>

definition group_row_key :: "group \<Rightarrow> nat \<times> string \<times> string" where
  "group_row_key g = (bg_id g, bg_group_id g, bg_fingerprint g)"

definition old_row :: "group_db \<Rightarrow> group \<Rightarrow> bool" where
  "old_row db g \<longleftrightarrow> group_row_key g \<in> group_row_key ` set (gdb_groups db)"

definition keeps :: "group_db \<Rightarrow> group_db \<Rightarrow> bool" where
  "keeps db db' \<longleftrightarrow> group_row_key ` set (gdb_groups db) \<subseteq> group_row_key ` set (gdb_groups db')"

fun copy_ok :: "group_db \<Rightarrow> string \<Rightarrow> group option \<Rightarrow> bool" where
  "copy_ok db fp None = True"
| "copy_ok db fp (Some g) = (old_row db g \<and> bg_fingerprint g = fp)"

definition session_ok :: "group_db \<Rightarrow> string \<Rightarrow> session \<Rightarrow> bool" where
  "session_ok db fp s \<longleftrightarrow> (\<forall>d\<in>set (se_dirty s). copy_ok db fp (Some (fst d)))"

fun worker_ok :: "(string \<Rightarrow> string) \<Rightarrow> group_db \<Rightarrow> worker \<Rightarrow> bool" where
  "worker_ok H db (Expired a g) = (copy_ok db (work_fp H a) (Some g) \<and> group_live g)"
| "worker_ok H db (Noted a c) = copy_ok db (work_fp H a) c"
| "worker_ok H db (Beaten a gid s c) = (session_ok db (work_fp H a) s \<and> copy_ok db (work_fp H a) c)"
| "worker_ok H db (Holding a g s) = (session_ok db (work_fp H a) s \<and> copy_ok db (work_fp H a) (Some g))"
| "worker_ok H db (Finished a gid) =
     (\<exists>c\<in>set (gdb_groups db). bg_group_id c = gid \<and> bg_fingerprint c = work_fp H a)"
| "worker_ok H db w = True"

lemma keeps_refl [simp]: "gdb_groups db' = gdb_groups db \<Longrightarrow> keeps db db'"
  by (simp add: keeps_def)

lemma keeps_trans [trans]: "keeps db1 db2 \<Longrightarrow> keeps db2 db3 \<Longrightarrow> keeps db1 db3"
  by (auto simp: keeps_def)

lemma old_row_keeps: "keeps db db' \<Longrightarrow> old_row db g \<Longrightarrow> old_row db' g"
  by (auto simp: keeps_def old_row_def)

lemma copy_ok_keeps: "keeps db db' \<Longrightarrow> copy_ok db fp c \<Longrightarrow> copy_ok db' fp c"
  by (cases c) (auto simp: keeps_def old_row_def)

lemma session_ok_keeps: "keeps db db' \<Longrightarrow> session_ok db fp s \<Longrightarrow> session_ok db' fp s"
  unfolding session_ok_def using copy_ok_keeps by blast

lemma worker_ok_keeps:
  assumes k: "keeps db db'" and w: "worker_ok H db w"
  shows "worker_ok H db' w"
proof (cases w)
  case (Finished a gid)
  then obtain c where c: "c \<in> set (gdb_groups db)" "bg_group_id c = gid" "bg_fingerprint c = work_fp H a"
    using w by auto
  then have "group_row_key c \<in> group_row_key ` set (gdb_groups db')" using k unfolding keeps_def by blast
  then obtain d where "d \<in> set (gdb_groups db')" "group_row_key d = group_row_key c" by force
  then show ?thesis using c Finished by (auto simp: group_row_key_def)
qed (use w old_row_keeps [OF k] copy_ok_keeps [OF k] session_ok_keeps [OF k] in auto)

lemma copy_ok_row: "g \<in> set (gdb_groups db) \<Longrightarrow> bg_fingerprint g = fp \<Longrightarrow> copy_ok db fp (Some g)"
  by (simp add: old_row_def)

text \<open>A flush keeps the identity of every row; the index keeps one live row.\<close>

lemma group_row_key_write_back [simp]: "group_row_key (write_back old new cur) = group_row_key cur"
  by (simp add: group_row_key_def)

lemma dirty_rows_safe:
  assumes s: "store_safe db" and g: "gdb_groups db' = dirty_rows ds (gdb_groups db)" "gdb_seq db' = gdb_seq db"
    "gcl.one_live (gdb_groups db')"
  shows "store_safe db' \<and> keeps db db'"
proof -
  have m: "map group_row_key (gdb_groups db') = map group_row_key (gdb_groups db)"
    "map bg_id (gdb_groups db') = map bg_id (gdb_groups db)"
    "map bg_group_id (gdb_groups db') = map bg_group_id (gdb_groups db)"
    unfolding g(1) by (simp_all add: dirty_rows_map)
  have "gcl.ids_ok (gdb_groups db') (gdb_seq db')"
    using store_safeD(1) [OF s] gcl.ids_ok_cong [OF m(2)] g(2) by simp
  moreover have "distinct (map bg_group_id (gdb_groups db'))" using store_safeD(3) [OF s] m(3) by simp
  moreover have "keeps db db'" using arg_cong [OF m(1), of set] by (simp add: keeps_def)
  ultimately show ?thesis using g(3) unfolding store_safe_def by blast
qed

lemma flush_session_safe: "store_safe db \<Longrightarrow> flush_session s db = Inr db' \<Longrightarrow> store_safe db' \<and> keeps db db'"
  using dirty_rows_safe flush_session_Inr by blast

lemma worker_attach_safe:
  "store_safe db \<Longrightarrow> worker_attach db s g a now actor = Inr db' \<Longrightarrow> store_safe db' \<and> keeps db db'"
  by (erule worker_attach_Inr) (rule dirty_rows_safe)

lemma add_audits_safe [simp]: "store_safe (add_audits es db) = store_safe db"
  by (simp add: store_safe_def)

lemma next_number_safe: "store_safe db \<Longrightarrow> store_safe (next_number db)"
  using gcl.ids_ok_seq [of "gdb_groups db" "gdb_seq db" "Suc (gdb_seq db)"] by (simp add: store_safe_def)

text \<open>The new row of an episode.\<close>

definition opened_group :: "(string \<Rightarrow> string) \<Rightarrow> nat \<Rightarrow> string \<Rightarrow> alert \<Rightarrow> time \<Rightarrow> group" where
  "opened_group H n gid a now = attached_group a now ((work_candidate H gid a now)\<lparr>bg_id := n\<rparr>)"

lemma opened_group_simps [simp]:
  "bg_id (opened_group H n gid a now) = n" "bg_group_id (opened_group H n gid a now) = gid"
  "bg_fingerprint (opened_group H n gid a now) = work_fp H a" "bg_status (opened_group H n gid a now) = ''ACTIVE''"
  "bg_last_seen (opened_group H n gid a now) = al_first_seen a" "group_live (opened_group H n gid a now)"
  by (simp_all add: opened_group_def work_candidate_def candidate_group_def group_live_def)

lemma insert_group_Inr:
  assumes "insert_group db g = Inr db'"
  shows "gdb_groups db' = gcl.claim (gdb_groups db) (Suc (gdb_seq db)) g" "gdb_seq db' = Suc (gdb_seq db)"
    "(\<exists>q\<in>set (gdb_groups db). bg_fingerprint q = bg_fingerprint g \<and> group_live q) \<or>
     (\<forall>q\<in>set (gdb_groups db). bg_group_id q \<noteq> bg_group_id g)"
  using assms by (auto simp: insert_group_def gcl.claim_def split: if_splits)

lemma map_sum_InrE: "map_sum id fst x = Inr y \<Longrightarrow> \<exists>z. x = Inr (y, z)"
  by (cases x) auto

lemma find_last: "\<forall>q\<in>set xs. \<not> P q \<Longrightarrow> P x \<Longrightarrow> List.find P (xs @ [x]) = Some x"
  by (induction xs) auto

lemma attach_audit:
  "attach db g a family now actor = Inr (db', action) \<Longrightarrow> set (gdb_audit db) \<subseteq> set (gdb_audit db')"
  by (auto simp: attach_def Let_def group_audit_record_def split: if_splits sum.splits)

lemma open_episode_Inr:
  assumes s: "store_safe db" and free: "live_group_for db (work_fp H a) = None"
    and r: "open_episode H db gid a now actor = Inr db'"
  shows "gdb_groups db' = gdb_groups db @ [opened_group H (Suc (gdb_seq db)) gid a now]"
    "gdb_seq db' = Suc (gdb_seq db)" "\<forall>q\<in>set (gdb_groups db). bg_group_id q \<noteq> gid"
    "\<exists>g. bg_group_id g = gid \<and> set (created_audits gid g a actor) \<subseteq> set (gdb_audit db')"
proof -
  let ?n = "(work_candidate H gid a now)\<lparr>bg_id := Suc (gdb_seq db)\<rparr>"
  have nolive: "\<forall>q\<in>set (gdb_groups db). \<not> (bg_fingerprint q = work_fp H a \<and> group_live q)"
    using free by (auto simp: live_group_for_def find_None_iff')
  have cand: "bg_fingerprint (work_candidate H gid a now) = work_fp H a" "bg_group_id (work_candidate H gid a now) = gid"
    "group_live ?n" "bg_fingerprint ?n = work_fp H a" "bg_status ?n = ''ACTIVE''"
    by (simp_all add: work_candidate_def candidate_group_def group_live_def)
  obtain db1 where i: "insert_group db (work_candidate H gid a now) = Inr db1"
    using r by (auto simp: open_episode_def split: sum.splits)
  note I = insert_group_Inr [OF i, unfolded cand]
  have nr: "\<not> (\<exists>q\<in>set (gdb_groups db). group_live q \<and> bg_fingerprint q = bg_fingerprint (work_candidate H gid a now))"
    unfolding cand(1) using nolive by blast
  have g1: "gdb_groups db1 = gdb_groups db @ [?n]" using I(1) nr unfolding gcl.claim_def by (simp only: if_False)
  show new: "\<forall>q\<in>set (gdb_groups db). bg_group_id q \<noteq> gid" using I(3) nolive by blast
  have l: "live_group_for db1 (work_fp H a) = Some ?n"
    unfolding live_group_for_def g1 by (rule find_last) (use nolive cand in auto)
  let ?d = "add_audits (created_audits gid ?n a actor) db1"
  obtain ac where att: "attach ?d ?n a (behavior_family a None) now actor = Inr (db', ac)"
    using map_sum_InrE [OF r [unfolded open_episode_def i sum.case l option.case]] by blast
  have "bg_group_id ?n = gid" using cand(2) by simp
  then show "\<exists>g. bg_group_id g = gid \<and> set (created_audits gid g a actor) \<subseteq> set (gdb_audit db')"
    using attach_audit [OF att] by (intro exI [of _ ?n]) (simp add: add_audits_def)
  have ids: "\<forall>q\<in>set (gdb_groups db). bg_id q \<noteq> Suc (gdb_seq db)"
    using store_safeD(1) [OF s] by (auto simp: gcl.ids_ok_def)
  have act: "activated ?n now = ?n" using cand(5) by (simp add: activated_def)
  show "gdb_groups db' = gdb_groups db @ [opened_group H (Suc (gdb_seq db)) gid a now]"
    using attach_Inr(1) [OF cand(3) att] ids g1 unfolding act
    by (simp add: update_row_idle opened_group_def) (simp add: update_row_def)
  show "gdb_seq db' = Suc (gdb_seq db)" using attach_Inr(2) [OF cand(3) att] I(2) by simp
qed

lemma open_episode_safe:
  assumes s: "store_safe db" and free: "live_group_for db (work_fp H a) = None"
    and r: "open_episode H db gid a now actor = Inr db'"
  shows "store_safe db' \<and> keeps db db' \<and> worker_ok H db' (Finished a gid)"
proof -
  let ?n = "opened_group H (Suc (gdb_seq db)) gid a now"
  note op = open_episode_Inr [OF s free r]
  have same: "?n\<lparr>bg_id := Suc (gdb_seq db)\<rparr> = ?n" by (intro group.equality) simp_all
  have "gcl.ids_ok (gdb_groups db') (gdb_seq db')"
    using gcl.ids_ok_append [OF store_safeD(1) [OF s], of "Suc (gdb_seq db)" ?n] unfolding op(1,2) same by simp
  moreover have "gcl.one_live (gdb_groups db')"
  proof -
    have "\<not> (\<exists>q\<in>set (gdb_groups db). group_live q \<and> bg_fingerprint q = bg_fingerprint ?n)"
      using free by (auto simp: live_group_for_def find_None_iff')
    then have "gcl.claim (gdb_groups db) (Suc (gdb_seq db)) ?n = gdb_groups db'"
      unfolding gcl.claim_def same op(1) by (simp only: if_False)
    then show ?thesis using gcl.one_live_claim [OF store_safeD(2) [OF s], of ?n "Suc (gdb_seq db)"] by simp
  qed
  moreover have "distinct (map bg_group_id (gdb_groups db'))"
    using store_safeD(3) [OF s] op(3) by (auto simp: op(1))
  ultimately show ?thesis by (auto simp: store_safe_def keeps_def op(1))
qed


lemma live_group_for_copy:
  "live_group_for db fp = Some g \<Longrightarrow> copy_ok db fp (Some g) \<and> group_live g \<and> g \<in> set (gdb_groups db)"
  using live_group_for_Some copy_ok_row by blast

lemma closed_group_for_Some:
  "closed_group_for db fp = Some g \<Longrightarrow> g \<in> set (gdb_groups db) \<and> bg_fingerprint g = fp"
  by (auto simp: closed_group_for_def Let_def dest: find_SomeD)

lemma closed_group_for_copy: "copy_ok db fp (closed_group_for db fp)"
proof (cases "closed_group_for db fp")
  case (Some g)
  then show ?thesis using closed_group_for_Some [OF Some] copy_ok_row by simp
qed simp

lemma loaded_copy: "copy_ok db fp c \<Longrightarrow> copy_ok db fp (Some g) \<Longrightarrow> copy_ok db fp (Some (loaded c g))"
  by (cases c) (auto simp: loaded_def)

lemma audits_free [simp]: "live_group_for (add_audits es db) fp = live_group_for db fp"
  by (simp add: live_group_for_def)

lemma expiry_session_ok:
  assumes "expiry_session g a now actor = Inr s" "group_live g" "copy_ok db fp (Some g)"
  shows "session_ok db fp s" "session_ok db fp (s\<lparr>se_audit := x\<rparr>)"
  using assms(3) expiry_session_Inr(1) [OF assms(1,2)] by (simp_all add: session_ok_def)

lemma worker_step_safe:
  assumes "worker_step H now actor db w db' w'" "store_safe db" "worker_ok H db w"
  shows "store_safe db' \<and> keeps db db' \<and> worker_ok H db' w'"
  using assms(1)
proof (cases rule: worker_step.cases)
  case (hits a g)
  then show ?thesis using assms(2) live_group_for_copy [of db "work_fp H a" g] by (simp add: session_ok_def empty_session_def)
next
  case (expires a g)
  then show ?thesis using assms(2) live_group_for_copy [of db "work_fp H a" g] by simp
next
  case (looks_back a)
  then show ?thesis using assms(2) closed_group_for_copy by simp
next
  case (creates a c gid)
  then show ?thesis
    using open_episode_safe [of "add_audits (reopen_audits c a actor) db" H a gid now actor db'] assms(2)
    by (simp add: keeps_def)
next
  case (yields a g c gid)
  have k: "keeps db db'" using yields by simp
  show ?thesis
    using assms(2,3) k copy_ok_keeps [OF k] next_number_safe unfolding yields by (simp add: session_ok_def)
next
  case (closes g a s db1 gid)
  note f = flush_session_safe [OF assms(2) closes(4)]
  let ?d = "add_audits (reopen_audits (closed_group_for db1 (work_fp H a)) a actor) db1"
  have "store_safe ?d" "live_group_for ?d (work_fp H a) = None" using f closes(5) by simp_all
  note o = open_episode_safe [OF this closes(6)]
  have "keeps db ?d" using f by (simp add: keeps_def)
  then show ?thesis using o keeps_trans unfolding closes(2) by blast
next
  case (closes_yields g a s db1 h gid)
  have g: "copy_ok db (work_fp H a) (Some g)" "group_live g" using assms(3) closes_yields(1) by auto
  note f = flush_session_safe [OF assms(2) closes_yields(5)]
  have "group_row_key ` set (gdb_groups db1) = group_row_key ` set (gdb_groups db)"
    using arg_cong [OF dirty_rows_map [of group_row_key "se_dirty s" "gdb_groups db"], of set] flush_session_Inr(1) [OF closes_yields(5)]
    by simp
  then have kb: "keeps db1 (next_number db)" by (simp add: keeps_def)
  have k: "keeps db (next_number db)" by simp
  note sess = session_ok_keeps [OF k expiry_session_ok(2) [OF closes_yields(4) g(2,1)]]
  show ?thesis
    using next_number_safe [OF assms(2)] k sess copy_ok_keeps [OF kb closed_group_for_copy]
    unfolding closes_yields(2,3) worker_ok.simps by blast
next
  case (retries a gid)
  then show ?thesis using open_episode_safe [OF assms(2)] by blast
next
  case (retry_yields a g gid)
  then show ?thesis using next_number_safe [OF assms(2)] by (simp add: session_ok_def empty_session_def)
next
  case (finds a g gid s c)
  then have "copy_ok db (work_fp H a) (Some (loaded c g))"
    using assms(3) loaded_copy live_group_for_copy unfolding finds(1) worker_ok.simps by blast
  then show ?thesis using finds assms(2,3) by (simp add: session_ok_def)
next
  case (attaches s g a)
  note w = worker_attach_safe [OF assms(2) attaches(3)]
  have "old_row db' g" "bg_fingerprint g = work_fp H a"
    using assms(3) attaches(1) old_row_keeps [OF conjunct2 [OF w]] by auto
  then have "worker_ok H db' (Finished a (bg_group_id g))" by (auto simp: old_row_def group_row_key_def)
  then show ?thesis using w attaches(2) by simp
qed (use assms(2) in auto)

definition workers_ok :: "(string \<Rightarrow> string) \<Rightarrow> group_db \<times> worker list \<Rightarrow> bool" where
  "workers_ok H s \<longleftrightarrow> store_safe (fst s) \<and> (\<forall>w\<in>set (snd s). worker_ok H (fst s) w)"

lemma workers_run_ok:
  "workers_run H now actor s s' \<Longrightarrow> workers_ok H s \<Longrightarrow> workers_ok H s'"
proof (induction rule: workers_run.induct)
  case (run_step s db ws i db' w')
  then have ok: "store_safe db" "\<forall>w\<in>set ws. worker_ok H db w" by (simp_all add: workers_ok_def)
  have "worker_ok H db (ws ! i)" using ok(2) run_step.hyps(2) by simp
  note st = worker_step_safe [OF run_step.hyps(3) ok(1) this]
  have "\<forall>w\<in>set (ws[i := w']). worker_ok H db' w"
    using ok(2) st worker_ok_keeps set_update_subset_insert [of ws i w'] by blast
  then show ?case using st by (simp add: workers_ok_def)
qed simp

lemma group_db_ok_safe:
  assumes ok: "group_db_ok db"
  shows "store_safe db"
proof -
  have "distinct (map grp_num (gdb_groups db))"
    using group_db_okD(4) [OF ok] by (simp add: strict_sorted_iff)
  then have "distinct (map bg_group_id (gdb_groups db))"
    using grp_num_inj [OF ok] by (simp add: distinct_map inj_on_def)
  then show ?thesis using group_db_okD(1,2) [OF ok] unfolding store_safe_def by blast
qed

section \<open>Alerts within one window\<close>

text \<open>The times a live group of the identity can have been last seen at, and the condition
  that every alert of the identity is within the window of all of them.\<close>

definition seen_times :: "(string \<Rightarrow> string) \<Rightarrow> group_db \<Rightarrow> alert list \<Rightarrow> string \<Rightarrow> time list" where
  "seen_times H db as fp =
     map bg_last_seen (filter (\<lambda>g. bg_fingerprint g = fp \<and> group_live g) (gdb_groups db))
     @ map al_first_seen (filter (\<lambda>a. work_fp H a = fp) as)"

definition in_one_window :: "(string \<Rightarrow> string) \<Rightarrow> group_db \<Rightarrow> alert list \<Rightarrow> string \<Rightarrow> bool" where
  "in_one_window H db as fp \<longleftrightarrow>
     list_all (\<lambda>a. list_all (\<lambda>t. within_group_window t (al_first_seen a) (behavior_family a None)) (seen_times H db as fp))
       (filter (\<lambda>a. work_fp H a = fp) as)"

text \<open>While this holds no group of the identity is closed: live rows have been last seen at
  one of the times, and so have the copies the workers hold.\<close>

definition steady_store :: "string \<Rightarrow> time set \<Rightarrow> group_db \<Rightarrow> bool" where
  "steady_store fp S db \<longleftrightarrow>
     (\<forall>r\<in>set (gdb_groups db). bg_fingerprint r = fp \<and> group_live r \<longrightarrow> bg_last_seen r \<in> S)"

definition steady_copy :: "time set \<Rightarrow> group_db \<Rightarrow> group \<Rightarrow> bool" where
  "steady_copy S db g \<longleftrightarrow>
     (\<forall>r\<in>set (gdb_groups db). bg_id r = bg_id g \<and> group_live r \<longrightarrow> group_live g \<and> bg_last_seen g \<in> S)"

fun steady_worker :: "string \<Rightarrow> time set \<Rightarrow> group_db \<Rightarrow> worker \<Rightarrow> bool" where
  "steady_worker fp S db (Expired a g) = False"
| "steady_worker fp S db (Noted a c) = pred_option (steady_copy S db) c"
| "steady_worker fp S db (Beaten a gid s c) = (se_dirty s = [] \<and> pred_option (steady_copy S db) c)"
| "steady_worker fp S db (Holding a g s) = (se_dirty s = [] \<and> group_live g \<and> bg_last_seen g \<in> S
     \<and> (\<exists>r\<in>set (gdb_groups db). group_row_key r = group_row_key g \<and> group_live r))"
| "steady_worker fp S db (Finished a gid) =
     (\<exists>r\<in>set (gdb_groups db). bg_group_id r = gid \<and> bg_fingerprint r = fp \<and> group_live r)"
| "steady_worker fp S db w = True"

definition evolves :: "string \<Rightarrow> group_db \<Rightarrow> group_db \<Rightarrow> bool" where
  "evolves fp db db' \<longleftrightarrow> (\<forall>r\<in>set (gdb_groups db). bg_fingerprint r = fp \<longrightarrow>
     (\<exists>r'\<in>set (gdb_groups db'). group_row_key r' = group_row_key r \<and> group_live r' = group_live r))"

lemma steady_copy_next [simp]: "steady_copy S (next_number db) = steady_copy S db"
  by (rule ext) (simp add: steady_copy_def)

lemma evolves_refl: "gdb_groups db' = gdb_groups db \<Longrightarrow> evolves fp db db'"
  by (auto simp: evolves_def)

lemma group_row_keyD: "group_row_key r = group_row_key g \<Longrightarrow> bg_id r = bg_id g \<and> bg_group_id r = bg_group_id g \<and> bg_fingerprint r = bg_fingerprint g"
  by (simp add: group_row_key_def)

lemma steady_copy_evolves:
  assumes s: "store_safe db'" and e: "evolves fp db db'" and c: "copy_ok db fp (Some g)" "steady_copy S db g"
  shows "steady_copy S db' g"
  unfolding steady_copy_def
proof (intro ballI impI)
  fix r' assume r': "r' \<in> set (gdb_groups db')" "bg_id r' = bg_id g \<and> group_live r'"
  from c(1) obtain r where r: "r \<in> set (gdb_groups db)" "group_row_key r = group_row_key g" by (force simp: old_row_def)
  moreover have "bg_fingerprint r = fp" using group_row_keyD [OF r(2)] c(1) by simp
  ultimately obtain q where q: "q \<in> set (gdb_groups db')" "group_row_key q = group_row_key r" "group_live q = group_live r"
    using e unfolding evolves_def by blast
  have "bg_id q = bg_id r'" using group_row_keyD [OF q(2)] group_row_keyD [OF r(2)] r'(2) by simp
  then have "q = r'" using gcl.same_row [OF store_safeD(1) [OF s]] q(1) r'(1) by blast
  then show "group_live g \<and> bg_last_seen g \<in> S"
    using c(2) r(1) group_row_keyD [OF r(2)] q(3) r'(2) unfolding steady_copy_def by blast
qed

lemma steady_worker_evolves:
  assumes s: "store_safe db'" and e: "evolves (work_fp H (worker_alert w)) db db'"
    and w: "worker_ok H db w" "steady_worker (work_fp H (worker_alert w)) S db w"
  shows "steady_worker (work_fp H (worker_alert w)) S db' w"
proof -
  have copy: "pred_option (steady_copy S db') c"
    if "copy_ok db (work_fp H (worker_alert w)) c" "pred_option (steady_copy S db) c" for c
    using that steady_copy_evolves [OF s e] by (cases c) (auto simp del: copy_ok.simps(2))
  show ?thesis
  proof (cases w)
    case (Holding a g se)
    then obtain r where r: "r \<in> set (gdb_groups db)" "group_row_key r = group_row_key g" "group_live r" using w(2) by auto
    have "bg_fingerprint r = work_fp H a" using group_row_keyD [OF r(2)] w(1) Holding by simp
    then obtain q where "q \<in> set (gdb_groups db')" "group_row_key q = group_row_key r" "group_live q = group_live r"
      using e r(1) Holding unfolding evolves_def by auto
    then show ?thesis using w(2) r Holding by auto
  next
    case (Finished a gid)
    then obtain r where r: "r \<in> set (gdb_groups db)" "bg_group_id r = gid" "bg_fingerprint r = work_fp H a" "group_live r"
      using w(2) by auto
    then obtain q where q: "q \<in> set (gdb_groups db')" "group_row_key q = group_row_key r" "group_live q = group_live r"
      using e Finished unfolding evolves_def by auto
    have "bg_group_id q = gid" "bg_fingerprint q = work_fp H a" using group_row_keyD [OF q(2)] r by simp_all
    then show ?thesis unfolding Finished using q(1,3) r(4) by auto
  qed (use w copy in auto)
qed

text \<open>Rows of other fingerprints do not matter.\<close>

lemma same_fp_rows:
  assumes "filter (\<lambda>r. bg_fingerprint r = fp) (gdb_groups db') = filter (\<lambda>r. bg_fingerprint r = fp) (gdb_groups db)"
  shows "evolves fp db db' \<and> (steady_store fp S db \<longrightarrow> steady_store fp S db')"
proof -
  have m: "r \<in> set (gdb_groups db') \<longleftrightarrow> r \<in> set (gdb_groups db)" if "bg_fingerprint r = fp" for r
    using arg_cong [OF assms, of set] that by auto
  have "evolves fp db db'" unfolding evolves_def using m by blast
  moreover have "steady_store fp S db'" if "steady_store fp S db" using that m unfolding steady_store_def by blast
  ultimately show ?thesis by blast
qed

lemma dirty_rows_other:
  "\<forall>d\<in>set ds. \<forall>r\<in>set gs. bg_id r = bg_id (fst d) \<longrightarrow> bg_fingerprint r \<noteq> fp \<Longrightarrow>
   filter (\<lambda>r. bg_fingerprint r = fp) (dirty_rows ds gs) = filter (\<lambda>r. bg_fingerprint r = fp) gs"
proof (induction ds arbitrary: gs)
  case (Cons d ds)
  obtain old new where d: "d = (old, new)" by (cases d)
  let ?gs = "update_row bg_id (bg_id old) (write_back old new) gs"
  have "\<forall>d\<in>set ds. \<forall>r\<in>set ?gs. bg_id r = bg_id (fst d) \<longrightarrow> bg_fingerprint r \<noteq> fp"
  proof (intro ballI impI)
    fix e r assume e: "e \<in> set ds" "r \<in> set ?gs" "bg_id r = bg_id (fst e)"
    then obtain q where q: "q \<in> set gs" "r = (if bg_id q = bg_id old then write_back old new q else q)"
      unfolding set_update_row by blast
    then have "bg_id r = bg_id q" "bg_fingerprint r = bg_fingerprint q" by auto
    then show "bg_fingerprint r \<noteq> fp" using Cons.prems e q(1) by simp
  qed
  note IH = Cons.IH [OF this]
  have "filter (\<lambda>r. bg_fingerprint r = fp) ?gs = filter (\<lambda>r. bg_fingerprint r = fp) gs"
    using Cons.prems d by (subst filter_update_row) (auto intro!: update_row_idle)
  then show ?case using IH by (simp add: dirty_rows_def d)
qed (simp add: dirty_rows_def)

lemma session_other:
  assumes s: "store_safe db" and d: "\<forall>d\<in>set ds. copy_ok db k (Some (fst d))" and k: "k \<noteq> fp"
  shows "filter (\<lambda>r. bg_fingerprint r = fp) (dirty_rows ds (gdb_groups db)) = filter (\<lambda>r. bg_fingerprint r = fp) (gdb_groups db)"
proof (rule dirty_rows_other, intro ballI impI)
  fix d r assume x: "d \<in> set ds" "r \<in> set (gdb_groups db)" "bg_id r = bg_id (fst d)"
  with d have "copy_ok db k (Some (fst d))" by blast
  then obtain q where q: "q \<in> set (gdb_groups db)" "group_row_key q = group_row_key (fst d)" "bg_fingerprint (fst d) = k"
    by (force simp: old_row_def)
  then have "q = r" using gcl.same_row [OF store_safeD(1) [OF s] q(1) x(2)] x(3) group_row_keyD by metis
  then show "bg_fingerprint r \<noteq> fp" using q k group_row_keyD by metis
qed

lemma open_episode_other:
  assumes "store_safe db" "live_group_for db (work_fp H a) = None" "open_episode H db gid a now actor = Inr db'"
    and "work_fp H a \<noteq> fp"
  shows "filter (\<lambda>r. bg_fingerprint r = fp) (gdb_groups db') = filter (\<lambda>r. bg_fingerprint r = fp) (gdb_groups db)"
  using open_episode_Inr(1) [OF assms(1-3)] assms(4) by simp

text \<open>Attaching to the live row of the identity.\<close>

lemma attach_steady:
  assumes s: "store_safe db" "store_safe db'" and st: "steady_store fp S db" and fs: "al_first_seen a \<in> S"
    and g: "group_live g" "bg_last_seen g \<in> S" "r \<in> set (gdb_groups db)" "group_row_key r = group_row_key g" "group_live r"
      "bg_fingerprint g = fp"
    and db': "gdb_groups db' = dirty_rows [(g, attached_group a now (activated g now))] (gdb_groups db)"
  shows "evolves fp db db' \<and> steady_store fp S db' \<and> steady_worker fp S db' (Finished a (bg_group_id g))"
proof -
  let ?n = "attached_group a now (activated g now)"
  let ?w = "\<lambda>q. if bg_id q = bg_id g then write_back g ?n q else q"
  have gs: "gdb_groups db' = map ?w (gdb_groups db)"
    unfolding db' by (simp add: dirty_rows_def update_row_def)
  have row: "q = r" if "q \<in> set (gdb_groups db)" "bg_id q = bg_id g" for q
    using gcl.same_row [OF store_safeD(1) [OF s(1)] that(1) g(3)] that(2) group_row_keyD [OF g(4)] by simp
  have n: "bg_status ?n = ''ACTIVE''" "bg_last_seen ?n \<in> S"
    using activated_live [OF g(1), of now] g(2) fs by (simp_all add: max_def)
  have live: "group_live (write_back g ?n r)" using g(5) n(1) by (auto simp: group_live_def)
  have key: "group_row_key (?w q) = group_row_key q" and keeps_live: "group_live (?w q) = group_live q"
    if "q \<in> set (gdb_groups db)" for q
    using row [OF that] live g(5) by auto
  have seen: "bg_last_seen (?w q) \<in> S" if "q \<in> set (gdb_groups db)" "bg_fingerprint q = fp" "group_live q" for q
    using that st n(2) unfolding steady_store_def by auto
  have e: "evolves fp db db'"
    unfolding evolves_def gs set_map using key keeps_live by blast
  moreover have "steady_store fp S db'"
    unfolding steady_store_def
  proof (intro ballI impI)
    fix x assume x: "x \<in> set (gdb_groups db')" "bg_fingerprint x = fp \<and> group_live x"
    then obtain q where q: "q \<in> set (gdb_groups db)" "x = ?w q" unfolding gs set_map by blast
    then have "bg_fingerprint q = fp" "group_live q" using x(2) group_row_keyD [OF key [OF q(1)]] keeps_live [OF q(1)] by simp_all
    then show "bg_last_seen x \<in> S" using seen q by blast
  qed
  moreover have "steady_worker fp S db' (Finished a (bg_group_id g))"
    unfolding steady_worker.simps
  proof (rule bexI [of _ "?w r"])
    show "bg_group_id (?w r) = bg_group_id g \<and> bg_fingerprint (?w r) = fp \<and> group_live (?w r)"
      using keeps_live [OF g(3)] group_row_keyD [OF g(4)] group_row_keyD [OF key [OF g(3)]] g(5,6) by metis
    show "?w r \<in> set (gdb_groups db')" unfolding gs using g(3) by simp
  qed
  ultimately show ?thesis by blast
qed

lemma open_episode_steady:
  assumes s: "store_safe db" and free: "live_group_for db (work_fp H a) = None"
    and r: "open_episode H db gid a now actor = Inr db'" and st: "steady_store (work_fp H a) S db"
    and fs: "al_first_seen a \<in> S"
  shows "evolves (work_fp H a) db db' \<and> steady_store (work_fp H a) S db'
    \<and> steady_worker (work_fp H a) S db' (Finished a gid)"
  using st fs by (auto simp: open_episode_Inr(1) [OF s free r] evolves_def steady_store_def)

lemma steady_copy_row:
  assumes s: "store_safe db" and st: "steady_store fp S db" and g: "g \<in> set (gdb_groups db)" "bg_fingerprint g = fp"
  shows "steady_copy S db g"
  unfolding steady_copy_def
proof (intro ballI impI)
  fix r assume "r \<in> set (gdb_groups db)" "bg_id r = bg_id g \<and> group_live r"
  then have "r = g" "group_live g" using gcl.same_row [OF store_safeD(1) [OF s] _ g(1)] by blast+
  then show "group_live g \<and> bg_last_seen g \<in> S" using st g unfolding steady_store_def by blast
qed

lemma steady_own:
  assumes "worker_step H now actor db w db' w'" and s: "store_safe db" "store_safe db'" and ok: "worker_ok H db w"
    and st: "steady_store fp S db" "steady_worker fp S db w" and fp: "work_fp H (worker_alert w) = fp"
    and fits: "\<forall>t\<in>S. within_group_window t (al_first_seen (worker_alert w)) (behavior_family (worker_alert w) None)"
      "al_first_seen (worker_alert w) \<in> S"
  shows "evolves fp db db' \<and> steady_store fp S db' \<and> steady_worker fp S db' w'"
  using assms(1)
proof (cases rule: worker_step.cases)
  case (hits a g)
  then have "g \<in> set (gdb_groups db)" "group_live g" "bg_fingerprint g = fp"
    using live_group_for_Some [of db "work_fp H a" g] fp by auto
  then show ?thesis using hits st(1) by (auto simp: evolves_refl empty_session_def steady_store_def)
next
  case (expires a g)
  then have "bg_last_seen g \<in> S" using live_group_for_Some [of db "work_fp H a" g] fp st(1) unfolding steady_store_def by auto
  then show ?thesis using expires fits(1) by simp
next
  case (looks_back a)
  have "pred_option (steady_copy S db) (closed_group_for db (work_fp H a))"
    using steady_copy_row [OF s(1) st(1)] closed_group_for_Some [of db "work_fp H a"] fp looks_back
    by (cases "closed_group_for db (work_fp H a)") auto
  then show ?thesis using looks_back st(1) by (simp add: evolves_refl)
next
  case (creates a c gid)
  then have w: "work_fp H a = fp" "al_first_seen a \<in> S" using fp fits(2) by auto
  from creates have free: "live_group_for (add_audits (reopen_audits c a actor) db) (work_fp H a) = None" by simp
  have sd: "store_safe (add_audits (reopen_audits c a actor) db)"
    "steady_store (work_fp H a) S (add_audits (reopen_audits c a actor) db)"
    using s st(1) w by (simp_all add: steady_store_def)
  show ?thesis
    using open_episode_steady [OF sd(1) free creates(4) sd(2) w(2)] w(1) unfolding creates by (simp add: evolves_def)
next
  case (retries a gid)
  then show ?thesis using open_episode_steady [OF s(1) retries(3,4)] st(1) fp fits(2) by auto
next
  case (finds a g gid s c)
  then have g: "g \<in> set (gdb_groups db)" "group_live g" "bg_fingerprint g = fp"
    using live_group_for_Some [of db "work_fp H a" g] fp by auto
  have dirty: "se_dirty s = []" using st(2) finds(1) by simp
  show ?thesis
  proof (cases "loaded c g = g")
    case True
    then show ?thesis using g finds st(1) dirty by (auto simp: evolves_refl steady_store_def)
  next
    case False
    then obtain old where o: "c = Some old" "bg_id old = bg_id g" "loaded c g = old"
      unfolding loaded_def by (auto split: option.splits if_splits)
    have "steady_copy S db old" using st(2) finds(1) o(1) by simp
    then have l: "group_live old" "bg_last_seen old \<in> S" using g(1,2) o(2) unfolding steady_copy_def by metis+
    have "old_row db old" using ok finds(1) o(1) by simp
    then obtain q where q: "q \<in> set (gdb_groups db)" "group_row_key q = group_row_key old" by (force simp: old_row_def)
    then have "q = g" using gcl.same_row [OF store_safeD(1) [OF \<open>store_safe db\<close>] q(1) g(1)] group_row_keyD [OF q(2)] o(2) by simp
    then show ?thesis using l q g finds st(1) dirty o(3) by (auto simp: evolves_refl)
  qed
next
  case (attaches s g a)
  have h: "se_dirty s = []" "group_live g" "bg_last_seen g \<in> S"
    "\<exists>r\<in>set (gdb_groups db). group_row_key r = group_row_key g \<and> group_live r" "bg_fingerprint g = fp" "al_first_seen a \<in> S"
    using st(2) ok fp fits(2) attaches(1) by auto
  then obtain r where r: "r \<in> set (gdb_groups db)" "group_row_key r = group_row_key g" "group_live r" by blast
  obtain n where "gdb_groups db' = dirty_rows (se_dirty s @ [(g, n)]) (gdb_groups db)"
    "group_live g \<Longrightarrow> n = attached_group a now (activated g now)"
    using worker_attach_Inr [OF attaches(3)] by metis
  then have "gdb_groups db' = dirty_rows [(g, attached_group a now (activated g now))] (gdb_groups db)"
    using h(1,2) by simp
  from attach_steady [OF \<open>store_safe db\<close> \<open>store_safe db'\<close> st(1) h(6,2,3) r h(5) this] show ?thesis using attaches(2) by simp
qed (use st in \<open>auto simp: evolves_refl steady_store_def empty_session_def\<close>)

lemma steady_rival:
  assumes "worker_step H now actor db w db' w'" and s: "store_safe db" and ok: "worker_ok H db w"
    and fp: "work_fp H (worker_alert w) \<noteq> fp"
  shows "evolves fp db db' \<and> (steady_store fp S db \<longrightarrow> steady_store fp S db')"
proof (rule same_fp_rows)
  show "filter (\<lambda>r. bg_fingerprint r = fp) (gdb_groups db') = filter (\<lambda>r. bg_fingerprint r = fp) (gdb_groups db)"
    using assms(1)
  proof (cases rule: worker_step.cases)
    case (creates a c gid)
    then show ?thesis
      using open_episode_other [of "add_audits (reopen_audits c a actor) db" H a gid now actor db' fp] s fp by simp
  next
    case (retries a gid)
    then show ?thesis using open_episode_other [OF s] fp by simp
  next
    case (closes g a s db1 gid)
    note f = flush_session_safe [OF \<open>store_safe db\<close> closes(4)]
    let ?d = "add_audits (reopen_audits (closed_group_for db1 (work_fp H a)) a actor) db1"
    have d: "store_safe ?d" "live_group_for ?d (work_fp H a) = None" using f closes(5) by simp_all
    have w: "copy_ok db (work_fp H a) (Some g)" "group_live g" "work_fp H a \<noteq> fp"
      using ok fp closes(1) by auto
    have "\<forall>d\<in>set (se_dirty s). copy_ok db (work_fp H a) (Some (fst d))"
      using expiry_session_ok(1) [OF closes(3) w(2,1)] by (simp add: session_ok_def)
    from session_other [OF \<open>store_safe db\<close> this w(3)] flush_session_Inr(1) [OF closes(4)]
    show ?thesis using open_episode_other [OF d closes(6) w(3)] by simp
  next
    case (attaches s g a)
    have w: "session_ok db (work_fp H a) s" "copy_ok db (work_fp H a) (Some g)" "work_fp H a \<noteq> fp"
      using ok fp attaches(1) by auto
    obtain n where n: "gdb_groups db' = dirty_rows (se_dirty s @ [(g, n)]) (gdb_groups db)"
      using worker_attach_Inr [OF attaches(3)] by metis
    have "\<forall>d\<in>set (se_dirty s @ [(g, n)]). copy_ok db (work_fp H a) (Some (fst d))"
      using w(1,2) unfolding session_ok_def by (auto simp del: copy_ok.simps(2))
    from session_other [OF \<open>store_safe db\<close> this w(3)] n show ?thesis by simp
  qed simp_all
qed

definition steady_state :: "(string \<Rightarrow> string) \<Rightarrow> string \<Rightarrow> time set \<Rightarrow> group_db \<times> worker list \<Rightarrow> bool" where
  "steady_state H fp S s \<longleftrightarrow> workers_ok H s \<and> steady_store fp S (fst s)
     \<and> (\<forall>w\<in>set (snd s). work_fp H (worker_alert w) = fp \<longrightarrow> steady_worker fp S (fst s) w)"

definition fitting :: "(string \<Rightarrow> string) \<Rightarrow> string \<Rightarrow> time set \<Rightarrow> alert \<Rightarrow> bool" where
  "fitting H fp S a \<longleftrightarrow> work_fp H a = fp \<longrightarrow>
     al_first_seen a \<in> S \<and> (\<forall>t\<in>S. within_group_window t (al_first_seen a) (behavior_family a None))"

lemma steady_step:
  assumes st: "worker_step H now actor db (ws ! i) db' w'" and i: "i < length ws"
    and s: "steady_state H fp S (db, ws)" and f: "fitting H fp S (worker_alert (ws ! i))"
  shows "steady_state H fp S (db', ws[i := w'])"
proof -
  have ok: "store_safe db" "\<forall>w\<in>set ws. worker_ok H db w" "steady_store fp S db"
    using s by (simp_all add: steady_state_def workers_ok_def)
  have wi: "ws ! i \<in> set ws" using i by simp
  note safe = worker_step_safe [OF st ok(1) bspec [OF ok(2) wi]]
  have "workers_run H now actor (db, ws) (db', ws[i := w'])" using run_step [OF run_refl i st] .
  then have wok: "workers_ok H (db', ws[i := w'])" using workers_run_ok s unfolding steady_state_def by blast
  have core: "evolves fp db db' \<and> steady_store fp S db' \<and> (work_fp H (worker_alert w') = fp \<longrightarrow> steady_worker fp S db' w')"
  proof (cases "work_fp H (worker_alert (ws ! i)) = fp")
    case True
    then have "steady_worker fp S db (ws ! i)" using s wi by (simp add: steady_state_def)
    then show ?thesis
      using steady_own [OF st ok(1) conjunct1 [OF safe] bspec [OF ok(2) wi] ok(3) _ True] f True by (simp add: fitting_def)
  next
    case False
    then show ?thesis
      using steady_rival [OF st ok(1) bspec [OF ok(2) wi] False] ok(3) worker_step_alert [OF st] by simp
  qed
  have others: "steady_worker fp S db' w" if w: "w \<in> set ws" "work_fp H (worker_alert w) = fp" for w
    using steady_worker_evolves [OF conjunct1 [OF safe], of H w db S] core ok(2) w s by (simp add: steady_state_def)
  have "\<forall>w\<in>set (ws[i := w']). work_fp H (worker_alert w) = fp \<longrightarrow> steady_worker fp S db' w"
    using core others set_update_subset_insert [of ws i w'] by blast
  then show ?thesis using wok core by (simp add: steady_state_def)
qed

lemma workers_run_steady:
  "workers_run H now actor s s' \<Longrightarrow> \<forall>w\<in>set (snd s). fitting H fp S (worker_alert w) \<Longrightarrow> steady_state H fp S s
   \<Longrightarrow> steady_state H fp S s'"
proof (induction rule: workers_run.induct)
  case (run_step s db ws i db' w')
  have "map worker_alert ws = map worker_alert (snd s)" using workers_run_alerts [OF run_step.hyps(1)] by simp
  then have "worker_alert (ws ! i) \<in> worker_alert ` set (snd s)"
    using run_step.hyps(2) by (metis nth_map nth_mem length_map set_map)
  then have "fitting H fp S (worker_alert (ws ! i))" using run_step.prems(1) by auto
  then show ?case using steady_step [OF run_step.hyps(3,2)] run_step.IH run_step.prems by blast
qed simp

text \<open>C14: however the statements of any number of workers interleave, there is at most one
  live group per fingerprint, and a worker that finishes has put its alert into a group of
  its identity.  Two workers of the same identity that finish in different groups have
  not left both of them live: one episode was closed.  When all alerts of the identity
  are within the window of each other and of the group that was live at the start, no
  episode is closed and both workers finish in the same live group.\<close>

theorem racing_workers_share_group:
  assumes "group_db_ok db" "workers_run H now actor (db, map Starting as) (db', ws)"
    and "Finished a g \<in> set ws" "Finished b h \<in> set ws" "work_fp H a = work_fp H b"
  shows "gcl.one_live (gdb_groups db')
     \<and> (\<exists>c\<in>set (gdb_groups db'). \<exists>d\<in>set (gdb_groups db').
          bg_group_id c = g \<and> bg_fingerprint c = work_fp H a \<and> bg_group_id d = h \<and> bg_fingerprint d = work_fp H a
        \<and> (g \<noteq> h \<longrightarrow> \<not> group_live c \<or> \<not> group_live d)
        \<and> (in_one_window H db as (work_fp H a) \<longrightarrow> c = d \<and> group_live c))"
proof -
  let ?fp = "work_fp H a"
  have start: "workers_ok H (db, map Starting as)"
    using group_db_ok_safe [OF assms(1)] by (simp add: workers_ok_def)
  then have ok: "workers_ok H (db', ws)" using workers_run_ok assms(2) by blast
  then have s: "store_safe db'" and w: "worker_ok H db' (Finished a g)" "worker_ok H db' (Finished b h)"
    using assms(3,4) by (auto simp: workers_ok_def)
  obtain c where c: "c \<in> set (gdb_groups db')" "bg_group_id c = g" "bg_fingerprint c = ?fp" using w(1) by auto
  obtain d where d: "d \<in> set (gdb_groups db')" "bg_group_id d = h" "bg_fingerprint d = ?fp" using w(2) assms(5) by auto
  have by_id: "x = y" if "x \<in> set (gdb_groups db')" "y \<in> set (gdb_groups db')" "bg_group_id x = bg_group_id y" for x y
    using distinct_map_inj [OF store_safeD(3) [OF s] that] .
  have one: "c = d" if "group_live c" "group_live d"
    using store_safeD(2) [OF s] c(1,3) d(1,3) that gcl.same_row [OF store_safeD(1) [OF s] c(1) d(1)]
    unfolding gcl.one_live_def by metis
  have steady: "c = d \<and> group_live c" if win: "in_one_window H db as ?fp"
  proof -
    let ?S = "set (seen_times H db as ?fp)"
    have "steady_state H ?fp ?S (db, map Starting as)"
      using start by (auto simp: steady_state_def steady_store_def seen_times_def)
    moreover have "\<forall>w\<in>set (snd (db, map Starting as)). fitting H ?fp ?S (worker_alert w)"
      using win by (auto simp: fitting_def in_one_window_def list_all_iff seen_times_def)
    ultimately have "steady_state H ?fp ?S (db', ws)" using workers_run_steady assms(2) by blast
    then have f: "steady_worker ?fp ?S db' (Finished a g)" "steady_worker ?fp ?S db' (Finished b h)"
      using assms(3-5) by (auto simp: steady_state_def)
    then have "group_live c" "group_live d" using by_id c(1,2) d(1,2) by (simp, metis)+
    then show ?thesis using one by blast
  qed
  have "g \<noteq> h \<longrightarrow> \<not> group_live c \<or> \<not> group_live d" using one c(2) d(2) by blast
  then show ?thesis using store_safeD(2) [OF s] c d steady by blast
qed

section \<open>A worker on its own\<close>

lemma flush_session_ok:
  assumes "gcl.one_live (dirty_rows (se_dirty s) (gdb_groups db))"
  shows "flush_session s db = Inr (add_audits (se_audit s) (db\<lparr>gdb_groups := dirty_rows (se_dirty s) (gdb_groups db)\<rparr>))"
proof -
  let ?gs = "dirty_rows (se_dirty s) (gdb_groups db)"
  have "\<not> (\<exists>q\<in>set ?gs. \<exists>r\<in>set ?gs. group_live q \<and> group_live r \<and> bg_fingerprint q = bg_fingerprint r \<and> bg_id q \<noteq> bg_id r)"
    using assms unfolding gcl.one_live_def by blast
  then show ?thesis unfolding flush_session_def Let_def by (simp only: if_False)
qed

lemma attach_view:
  assumes "group_live g" "attach db g a family now actor = Inr (db', action)"
  shows "attach (db\<lparr>gdb_groups := [g]\<rparr>) g a family now actor
     = Inr (db'\<lparr>gdb_groups := [attached_group a now (activated g now)]\<rparr>, action)"
  using assms by (cases "bg_status g = ''QUIET''")
    (auto simp: attach_def Let_def group_apply_transition_simps activated_def group_audit_record_def update_row_def)

lemma add_audits_Nil [simp]: "add_audits [] db = db"
  by (simp add: add_audits_def)

lemma fresh_rows:
  assumes s: "store_safe db" "g \<in> set (gdb_groups db)"
    and n: "bg_id n = bg_id g" "bg_group_id n = bg_group_id g" "bg_fingerprint n = bg_fingerprint g"
      "bg_title n = bg_title g" "bg_first_seen n = bg_first_seen g" "bg_created_at n = bg_created_at g"
  shows "dirty_rows [(g, n)] (gdb_groups db) = update_row bg_id (bg_id g) (\<lambda>_. n) (gdb_groups db)"
proof -
  have "update_row bg_id (bg_id g) (write_back g n) (gdb_groups db) = update_row bg_id (bg_id g) (\<lambda>_. n) (gdb_groups db)"
  proof (rule update_row_cong)
    fix r assume "r \<in> set (gdb_groups db)" "bg_id r = bg_id g"
    then have "r = g" using gcl.same_row [OF store_safeD(1) [OF s(1)] _ s(2)] by blast
    then show "write_back g n r = n" using write_back_fresh [OF n] by simp
  qed
  then show ?thesis by (simp add: dirty_rows_def)
qed

lemma attached_created [simp]: "bg_created_at (attached_group a now g) = bg_created_at g"
  by (simp add: attached_group_def Let_def)

lemma activated_created [simp]: "bg_created_at (activated g now) = bg_created_at g"
  by (simp add: activated_def)

lemma worker_attach_fresh:
  assumes ok: "group_db_ok db" and g: "g \<in> set (gdb_groups db)" "group_live g"
    and new: "\<not> already_member db (al_alert_id a)"
    and r: "attach db g a (behavior_family a None) now actor = Inr (db', action)"
  shows "worker_attach db empty_session g a now actor = Inr db'"
proof -
  let ?n = "attached_group a now (activated g now)"
  note s = group_db_ok_safe [OF ok]
  have f: "flush_session empty_session db = Inr db"
    using flush_session_ok [of empty_session db] store_safeD(2) [OF s] by (simp add: empty_session_def dirty_rows_def)
  have rows: "dirty_rows [(g, ?n)] (gdb_groups db) = gdb_groups db'"
    unfolding attach_Inr(1) [OF g(2) r] by (rule fresh_rows [OF s g(1)]) simp_all
  let ?v = "db'\<lparr>gdb_groups := [?n]\<rparr>\<lparr>gdb_groups := gdb_groups db\<rparr>"
  have "gcl.one_live (gdb_groups db')" using group_db_okD(2) [OF attach_ok [OF ok g new r]] .
  then have "flush_session \<lparr>se_dirty = [(g, ?n)], se_audit = []\<rparr> ?v = Inr db'"
    using flush_session_ok [of "\<lparr>se_dirty = [(g, ?n)], se_audit = []\<rparr>" ?v] rows by simp
  then show ?thesis by (simp add: worker_attach_def f attach_view [OF g(2) r])
qed

lemma close_fresh:
  assumes ok: "group_db_ok db" and g: "g \<in> set (gdb_groups db)" "group_live g"
    and r: "close_expired db g a now actor = Inr db'"
  obtains s where "expiry_session g a now actor = Inr s" "flush_session s db = Inr db'"
proof -
  let ?n = "restatus ''CLOSED'' now (Some now) g"
  let ?e = "\<lparr>ga_group_id = bg_group_id g, ga_action = ''GROUP_CLOSED'', ga_actor = actor,
       ga_details = [(''reason'', VStr ''aggregation window expired''), (''alert_id'', VStr (al_alert_id a))]\<rparr>"
  let ?s = "\<lparr>se_dirty = [(g, ?n)], se_audit = [?e]\<rparr>"
  have c: "expiry_session g a now actor = Inr ?s"
    by (simp add: expiry_session_def close_expired_live [OF g(2)] update_row_def group_audit_record_def empty_group_db_def)
  have rows: "dirty_rows [(g, ?n)] (gdb_groups db) = update_row bg_id (bg_id g) (\<lambda>_. ?n) (gdb_groups db)"
    by (rule fresh_rows [OF group_db_ok_safe [OF ok] g(1)]) (simp_all add: restatus_def)
  have d: "db' = add_audits [?e] (db\<lparr>gdb_groups := update_row bg_id (bg_id g) (\<lambda>_. ?n) (gdb_groups db)\<rparr>)"
    using r unfolding close_expired_live [OF g(2)] by (simp add: group_audit_record_def add_audits_def)
  have "gcl.one_live (gdb_groups db')" using group_db_okD(2) [OF close_expired_ok(1) [OF ok g r]] .
  then have "gcl.one_live (dirty_rows (se_dirty ?s) (gdb_groups db))" using rows d by simp
  from flush_session_ok [OF this] have "flush_session ?s db = Inr db'" using rows d by simp
  with that c show ?thesis by blast
qed

lemma note_rejected_audits:
  "note_rejected db fp a actor = add_audits (reopen_audits (closed_group_for db fp) a actor) db"
  by (simp add: note_rejected_def reopen_audits_def add_audits_def group_audit_record_def split: option.split)

lemma open_episode_start:
  assumes ok: "group_db_ok db" and free: "live_group_for db (work_fp H a) = None"
    and new: "\<not> already_member db (al_alert_id a)"
    and r: "start_episode base db (work_fp H a) a (behavior_family a None) now actor = Inr (db', gid)"
  shows "open_episode H (note_rejected db (work_fp H a) a actor) (next_group_id db) a now actor = Inr db'"
    "gid = next_group_id db"
proof -
  let ?f = "behavior_family a None" and ?fp = "work_fp H a"
  let ?n = "note_rejected db ?fp a actor"
  let ?g = "fresh_group ?n ?fp a ?f now"
  have nok: "group_db_ok ?n" using ok group_db_ok_frame [of ?n db] by simp
  have nfree: "live_group_for ?n ?fp = None" using free live_group_for_frame [of ?n db] by simp
  have nid: "next_group_id ?n = next_group_id db" by (simp add: next_group_id_def)
  note c = claim_group_free [OF nok nfree, of base a ?f now]
  let ?d = "?n\<lparr>gdb_groups := gdb_groups ?n @ [?g], gdb_seq := Suc (gdb_seq ?n)\<rparr>"
  have nolive: "\<forall>q\<in>set (gdb_groups ?n). \<not> (bg_fingerprint q = ?fp \<and> group_live q)"
    using nfree by (auto simp: live_group_for_def find_None_iff')
  have ins: "insert_group ?n (work_candidate H (next_group_id db) a now) = Inr ?d"
    using nolive public_id_fresh [OF nok]
    by (auto simp: insert_group_def fresh_group_def candidate_group_def work_candidate_def nid)
  have l: "live_group_for ?d ?fp = Some ?g"
    unfolding live_group_for_def by (simp, rule find_last) (use nolive in auto)
  have id: "bg_group_id ?g = next_group_id db" using nid by simp
  have e: "group_audit_record (bg_group_id ?g) ''GROUP_CREATED'' actor
                [(''alert_id'', VStr (al_alert_id a)), (''behavior_family'', VStr ?f),
                 (''primary_host'', VStr (primary_host a)), (''primary_user'', VStr (primary_user a)),
                 (''source'', VStr (normalized_source a))] ?d
      = add_audits (created_audits (next_group_id db) ?g a actor) ?d"
    using id by (simp add: group_audit_record_def add_audits_def created_audits_def)
  have "start_episode base db ?fp a ?f now actor
      = (case attach (add_audits (created_audits (next_group_id db) ?g a actor) ?d) ?g a ?f now actor of
           Inl e \<Rightarrow> Inl e | Inr (db3, _) \<Rightarrow> Inr (db3, bg_group_id ?g))"
    unfolding start_episode_def c by (simp only: sum.case prod.case Let_def if_True e)
  then obtain ac where att: "attach (add_audits (created_audits (next_group_id db) ?g a actor) ?d) ?g a ?f now actor = Inr (db', ac)"
    and g: "gid = bg_group_id ?g"
    using r by (auto split: sum.splits)
  show "gid = next_group_id db" using g id by simp
  show "open_episode H ?n (next_group_id db) a now actor = Inr db'"
    unfolding open_episode_def ins sum.case l option.case att by simp
qed

lemma run_alone:
  "workers_run H now actor s (db, [w]) \<Longrightarrow> worker_step H now actor db w db' w' \<Longrightarrow> workers_run H now actor s (db', [w'])"
  using run_step [of H now actor s db "[w]" 0] by simp

lemma run_pair:
  "workers_run H now actor s (db, [v, w]) \<Longrightarrow> worker_step H now actor db v db' v' \<Longrightarrow> workers_run H now actor s (db', [v', w])"
  "workers_run H now actor s (db, [v, w]) \<Longrightarrow> worker_step H now actor db w db' w' \<Longrightarrow> workers_run H now actor s (db', [v, w'])"
  using run_step [of H now actor s db "[v, w]" 0] run_step [of H now actor s db "[v, w]" 1] by simp_all

text \<open>Run alone, a worker does what \<open>process_alerts\<close> does on its alert, to the row.\<close>

lemma worker_alone:
  assumes ok: "group_db_ok db" and r: "process_alert H base db a now actor = Inr (db', res)"
  shows "workers_run H now actor (db, [Starting a])
    (db', [case res of None \<Rightarrow> Skipped a | Some gid \<Rightarrow> Finished a gid])"
proof -
  let ?R = "workers_run H now actor (db, [Starting a])"
  show ?thesis
    using ok
  proof (cases rule: process_alert_cases [where H = H and base = base and a = a and now = now and actor = actor])
    case skipped
    then show ?thesis using r run_alone [OF run_refl skips] by fastforce
  next
    case (joined g db1 act)
    then have l: "live_group_for db (work_fp H a) = Some g" by (simp add: work_fp_def)
    have g: "g \<in> set (gdb_groups db)" "group_live g" using live_group_for_Some [OF l] by auto
    have "?R (db, [Looking a])" using run_alone [OF run_refl passes] joined(1,2) by blast
    then have "?R (db, [Holding a g empty_session])" using run_alone hits [OF l joined(4)] by blast
    then have "?R (db1, [Finished a (bg_group_id g)])"
      using run_alone attaches [OF worker_attach_fresh [OF ok g joined(2,5)]] by blast
    then show ?thesis using r joined(6) by auto
  next
    case (opened db1 db2)
    have pass: "?R (db, [Looking a])" using run_alone [OF run_refl passes] opened(1,2) by blast
    have new: "\<not> already_member db1 (al_alert_id a)" using opened(2,5) by (simp add: already_member_def)
    have free: "live_group_for db1 (work_fp H a) = None" using opened(6) by (simp add: work_fp_def)
    note ep = open_episode_start(1) [OF opened(4) free new opened(7) [folded work_fp_def], unfolded note_rejected_audits]
    have "?R (db2, [Finished a (next_group_id db1)])"
      using opened(3)
    proof (elim disjE exE conjE)
      assume e: "db1 = db"
      then have "?R (db, [Missed a])" using run_alone [OF pass misses] free by simp
      from run_alone [OF run_alone [OF this looks_back] creates [OF _ ep [unfolded e]]] free show ?thesis by (simp add: e)
    next
      fix g assume g: "live_group_for db (group_fingerprint H a (behavior_family a None)) = Some g"
        "\<not> within_group_window (bg_last_seen g) (al_first_seen a) (behavior_family a None)"
        "close_expired db g a now actor = Inr db1"
      then have l: "live_group_for db (work_fp H a) = Some g" by (simp add: work_fp_def)
      have gi: "g \<in> set (gdb_groups db)" "group_live g" using live_group_for_Some [OF l] by auto
      obtain s where s: "expiry_session g a now actor = Inr s" "flush_session s db = Inr db1"
        by (rule close_fresh [OF ok gi g(3)])
      from run_alone [OF run_alone [OF pass expires [OF l g(2)]] closes [OF s free ep]] show ?thesis .
    qed
    then show ?thesis using r opened(8) by auto
  qed
qed

section \<open>Attachments race\<close>

lemma worker_attach_active:
  assumes g: "bg_status g = ''ACTIVE''" and s: "se_dirty s = []" and one: "gcl.one_live (gdb_groups db)"
  obtains db' where "worker_attach db s g a now actor = Inr db'"
    "gdb_groups db' = update_row bg_id (bg_id g) (write_back g (attached_group a now g)) (gdb_groups db)"
    "gdb_members db' = add_member \<lparr>gm_group_id = bg_group_id g, gm_alert_id = al_alert_id a,
          gm_reason = membership_reason a (behavior_family a None) (group_window_minutes (behavior_family a None)),
          gm_score = membership_score a (behavior_family a None), gm_created_at = now\<rparr> (gdb_members db)"
    "set (se_audit s) \<subseteq> set (gdb_audit db')" "set (gdb_audit db) \<subseteq> set (gdb_audit db')"
proof -
  let ?n = "attached_group a now g" and ?db1 = "add_audits (se_audit s) db"
  let ?f = "\<lambda>r. if bg_id r = bg_id g then write_back g ?n r else r"
  have live: "group_live g" and act: "activated g now = g" using g by (simp_all add: group_live_def activated_def)
  have f: "flush_session s db = Inr ?db1"
    using flush_session_ok [of s db] s one by (simp add: dirty_rows_def)
  obtain view ac where v: "attach (?db1\<lparr>gdb_groups := [g]\<rparr>) g a (behavior_family a None) now actor = Inr (view, ac)"
    using attach_live [OF live] by blast
  have hd: "hd (gdb_groups view) = ?n" using attach_Inr(1) [OF live v] by (simp add: act update_row_def)
  have aud: "set (se_audit s) \<union> set (gdb_audit db) \<subseteq> set (gdb_audit view)"
    using v g by (auto simp: attach_def Let_def group_audit_record_def add_audits_def split: if_splits)
  let ?s = "\<lparr>se_dirty = [(g, ?n)], se_audit = []\<rparr>" and ?v = "view\<lparr>gdb_groups := gdb_groups db\<rparr>"
  have rows: "dirty_rows [(g, ?n)] (gdb_groups db) = map ?f (gdb_groups db)"
    by (simp add: dirty_rows_def update_row_def)
  have "gcl.one_live (map ?f (gdb_groups db))"
    by (rule gcl.one_live_update [OF one]) (simp add: group_live_def g)
  then have "flush_session ?s ?v = Inr (?v\<lparr>gdb_groups := map ?f (gdb_groups db)\<rparr>)"
    using flush_session_ok [of ?s ?v] rows by simp
  then have r: "worker_attach db s g a now actor = Inr (?v\<lparr>gdb_groups := map ?f (gdb_groups db)\<rparr>)"
    by (simp add: worker_attach_def f v hd)
  show thesis
  proof (rule that [OF r])
    show "gdb_members (?v\<lparr>gdb_groups := map ?f (gdb_groups db)\<rparr>) = add_member \<lparr>gm_group_id = bg_group_id g, gm_alert_id = al_alert_id a,
          gm_reason = membership_reason a (behavior_family a None) (group_window_minutes (behavior_family a None)),
          gm_score = membership_score a (behavior_family a None), gm_created_at = now\<rparr> (gdb_members db)"
      using attach_Inr(3) [OF live v] by simp
  qed (use aud in \<open>simp_all add: update_row_def\<close>)
qed

text \<open>Two workers that load the same live group before either writes it back lose an
  update: both membership rows are stored, but the row of the group counts and lists only
  the second alert.  After that the count of the group no longer agrees with its members.\<close>

theorem concurrent_attach_loses_alert:
  assumes ok: "group_db_ok db" and g: "g \<in> set (gdb_groups db)" "bg_status g = ''ACTIVE''"
    and opn: "al_status a \<noteq> ''SUPPRESSED''" "al_status b \<noteq> ''SUPPRESSED''"
    and new: "\<not> already_member db (al_alert_id a)" "\<not> already_member db (al_alert_id b)"
      "al_alert_id a \<noteq> al_alert_id b"
    and fp: "work_fp H a = bg_fingerprint g" "work_fp H b = bg_fingerprint g"
    and win: "within_group_window (bg_last_seen g) (al_first_seen a) (behavior_family a None)"
      "within_group_window (bg_last_seen g) (al_first_seen b) (behavior_family b None)"
  shows "\<exists>db' g'. workers_run H now actor (db, map Starting [a, b])
        (db', [Finished a (bg_group_id g), Finished b (bg_group_id g)])
     \<and> g' \<in> set (gdb_groups db') \<and> bg_group_id g' = bg_group_id g
     \<and> bg_alert_count g' = Suc (bg_alert_count g) \<and> al_alert_id a \<notin> set (bg_alert_ids g')
     \<and> {al_alert_id a, al_alert_id b} \<subseteq> set (members_of db' (bg_group_id g)) \<and> \<not> group_db_ok db'"
proof -
  let ?R = "workers_run H now actor (db, [Starting a, Starting b])"
  have live: "group_live g" and act: "activated g now = g" using g(2) by (simp_all add: group_live_def activated_def)
  have lg: "live_group_for db (work_fp H a) = Some g" "live_group_for db (work_fp H b) = Some g"
    using live_group_for_unique [OF ok g(1) live] fp by simp_all
  obtain db1 ac1 where r1: "attach db g a (behavior_family a None) now actor = Inr (db1, ac1)"
    using attach_live [OF live] by blast
  note w1 = worker_attach_fresh [OF ok g(1) live new(1) r1] and ok1 = attach_ok [OF ok g(1) live new(1) r1]
  obtain db2 where w2: "worker_attach db1 empty_session g b now actor = Inr db2"
    and G2: "gdb_groups db2 = update_row bg_id (bg_id g) (write_back g (attached_group b now g)) (gdb_groups db1)"
    and M2: "gdb_members db2 = add_member \<lparr>gm_group_id = bg_group_id g, gm_alert_id = al_alert_id b,
          gm_reason = membership_reason b (behavior_family b None) (group_window_minutes (behavior_family b None)),
          gm_score = membership_score b (behavior_family b None), gm_created_at = now\<rparr> (gdb_members db1)"
    using worker_attach_active [OF g(2) _ group_db_okD(2) [OF ok1], of empty_session b now actor]
    by (auto simp: empty_session_def)
  have "?R (db, [Looking a, Looking b])"
    using run_pair(2) [OF run_pair(1) [OF run_refl passes [OF opn(1) new(1)]] passes [OF opn(2) new(2)]] .
  then have "?R (db, [Holding a g empty_session, Holding b g empty_session])"
    using run_pair(2) [OF run_pair(1) [OF _ hits [OF lg(1) win(1)]] hits [OF lg(2) win(2)]] by blast
  then have run: "?R (db2, [Finished a (bg_group_id g), Finished b (bg_group_id g)])"
    using run_pair(2) [OF run_pair(1) [OF _ attaches [OF w1]] attaches [OF w2]] by blast
  let ?a = "attached_group a now g"
  let ?g = "write_back g (attached_group b now g) ?a"
  have "?a \<in> set (gdb_groups db1)"
    unfolding attach_Inr(1) [OF live r1] act set_update_row by (intro bexI [OF _ g(1)]) simp
  then have in2: "?g \<in> set (gdb_groups db2)" unfolding G2 set_update_row by (intro bexI [of _ ?a]) simp_all
  have m1: "members_of db1 (bg_group_id g) = members_of db (bg_group_id g) @ [al_alert_id a]"
    "map gm_alert_id (gdb_members db1) = map gm_alert_id (gdb_members db) @ [al_alert_id a]"
    using members_of_add [OF new(1) attach_Inr(3) [OF live r1], of "bg_group_id g"] by simp_all
  have "gm_alert_id ` set (gdb_members db1) = gm_alert_id ` set (gdb_members db) \<union> {al_alert_id a}"
    using arg_cong [OF m1(2), of set] by simp
  then have new1: "\<not> already_member db1 (al_alert_id b)" using new by (simp add: already_member_iff)
  have m2: "members_of db2 (bg_group_id g) = members_of db (bg_group_id g) @ [al_alert_id a, al_alert_id b]"
    using members_of_add [OF new1 M2, of "bg_group_id g"] m1(1) by simp
  have ids: "bg_alert_ids g = members_of db (bg_group_id g)"
    using group_db_okD(3) [OF ok g(1)] unfolding group_ok_def by blast
  have old: "al_alert_id a \<notin> set (bg_alert_ids g)" "al_alert_id b \<notin> set (bg_alert_ids g)"
    using members_of_subset [of db "bg_group_id g"] new(1,2) ids by (auto simp: already_member_iff)
  have na: "bg_alert_ids ?g = bg_alert_ids g @ [al_alert_id b]" "bg_alert_count ?g = Suc (bg_alert_count g)"
    using old(2) by (simp_all add: write_back_def changed_column_def attached_group_alert_ids)
  then have nin: "al_alert_id a \<notin> set (bg_alert_ids ?g)" using old(1) new(3) by simp
  have "\<not> group_ok db2 ?g" using nin m2 unfolding group_ok_def by force
  then have bad: "\<not> group_db_ok db2" using group_db_okD(3) in2 by blast
  have "bg_group_id ?g = bg_group_id g" by simp
  moreover have "{al_alert_id a, al_alert_id b} \<subseteq> set (members_of db2 (bg_group_id g))" using m2 by simp
  ultimately show ?thesis
    using run in2 na(2) nin bad unfolding list.map by (intro exI [of _ db2] exI [of _ ?g]) blast
qed

theorem concurrent_attach_loses_alert_witness:
  "\<exists>(db :: group_db) g db'. group_db_ok db \<and> workers_run id 0 ''w'' (db, map Starting [nth_alert 0, nth_alert 1])
        (db', [Finished (nth_alert 0) g, Finished (nth_alert 1) g]) \<and> \<not> group_db_ok db'"
proof -
  obtain db g where g: "group_db_ok db" "gdb_groups db = [g]" "bg_status g = ''ACTIVE''" "bg_last_seen g = seconds 5"
    "bg_first_seen g = seconds 5" "bg_fingerprint g = group_fingerprint id example_alert ''authentication''"
    "gm_alert_id ` set (gdb_members db) = {''ALR-11111''}"
    by (rule one_group_run)
  have in_db: "g \<in> set (gdb_groups db)" using g(2) by simp
  have opn: "al_status (nth_alert n) \<noteq> ''SUPPRESSED''" for n by simp
  have new: "\<not> already_member db (al_alert_id (nth_alert 0))" "\<not> already_member db (al_alert_id (nth_alert 1))"
    "al_alert_id (nth_alert 0) \<noteq> al_alert_id (nth_alert 1)"
    using g(7) by (simp_all add: already_member_iff)
  have fp: "work_fp id (nth_alert 0) = bg_fingerprint g" "work_fp id (nth_alert 1) = bg_fingerprint g"
    using g(6) by (simp_all add: work_fp_def)
  have w: "within_group_window (bg_last_seen g) (al_first_seen (nth_alert n)) (behavior_family (nth_alert n) None)" if "n \<le> 1" for n
    using that g(4) by (simp add: within_group_window_def group_window_minutes_def AGGREGATION_WINDOWS_MINUTES_def
        minutes_def seconds_def)
  from concurrent_attach_loses_alert [OF g(1) in_db g(3) opn opn new fp w w, of 0 "''w''"] g(1)
  show ?thesis by blast
qed

text \<open>Two workers race for a free fingerprint: both have seen no live group and have
  computed the same next public id.  The second insert does nothing, and both alerts end in
  the group of the first.  The second worker takes the group for its own, because the live
  group carries the id it had computed: the trail records the creation twice.\<close>

definition creation_event :: "string \<Rightarrow> alert \<Rightarrow> group_audit \<Rightarrow> bool" where
  "creation_event gid a e \<longleftrightarrow> ga_group_id e = gid \<and> ga_action e = ''GROUP_CREATED''
     \<and> (''alert_id'', VStr (al_alert_id a)) \<in> set (ga_details e)"

lemma race_for_free_fingerprint:
  assumes ok: "group_db_ok db" and free: "live_group_for db (work_fp H a) = None"
    and fp: "work_fp H b = work_fp H a" and none: "closed_group_for db (work_fp H a) = None"
    and opn: "al_status a \<noteq> ''SUPPRESSED''" "al_status b \<noteq> ''SUPPRESSED''"
    and new: "\<not> already_member db (al_alert_id a)" "\<not> already_member db (al_alert_id b)"
  obtains db' where "workers_run H now actor (db, map Starting [a, b])
      (db', [Finished a (next_group_id db), Finished b (next_group_id db)])"
    "\<exists>e\<in>set (gdb_audit db'). creation_event (next_group_id db) b e"
    "\<exists>e\<in>set (gdb_audit db'). creation_event (next_group_id db) a e"
proof -
  let ?R = "workers_run H now actor (db, [Starting a, Starting b])" and ?gid = "next_group_id db"
  have free_b: "live_group_for db (work_fp H b) = None" "closed_group_for db (work_fp H b) = None" using free none fp by simp_all
  have aud: "reopen_audits None x actor = []" for x by (simp add: reopen_audits_def)
  obtain db1 where st: "start_episode db db (work_fp H a) a (behavior_family a None) now actor = Inr (db1, ?gid)" "group_db_ok db1"
    using start_episode_free [OF ok free new(1)] by metis
  have op: "open_episode H db ?gid a now actor = Inr db1"
    using open_episode_start(1) [OF ok free new(1) st(1)] by (simp add: note_rejected_audits none aud)
  let ?g = "opened_group H (Suc (gdb_seq db)) ?gid a now"
  have g1: "gdb_groups db1 = gdb_groups db @ [?g]" using open_episode_Inr(1) [OF group_db_ok_safe [OF ok] free op] .
  have l1: "live_group_for db1 (work_fp H b) = Some ?g"
    using live_group_for_unique [OF st(2), of ?g] g1 fp by simp
  have ev_a: "\<exists>e\<in>set (gdb_audit db1). creation_event ?gid a e"
    using open_episode_Inr(4) [OF group_db_ok_safe [OF ok] free op] by (auto simp: created_audits_def creation_event_def intro!: rev_bexI)
  have "?R (db, [Looking a, Looking b])"
    using run_pair(2) [OF run_pair(1) [OF run_refl passes [OF opn(1) new(1)]] passes [OF opn(2) new(2)]] .
  then have "?R (db, [Missed a, Missed b])"
    using run_pair(2) [OF run_pair(1) [OF _ misses [OF free]] misses [OF free_b(1)]] by blast
  then have "?R (db, [Noted a None, Noted b None])"
    using run_pair(2) [OF run_pair(1) [OF _ looks_back] looks_back, of H now actor _ db a b] none free_b(2) by simp
  then have "?R (db1, [Finished a ?gid, Noted b None])"
    using run_pair(1) [OF _ creates [OF free, of None actor ?gid now db1]] op by (simp add: aud)
  then have 1: "?R (next_number db1, [Finished a ?gid, Beaten b ?gid \<lparr>se_dirty = [], se_audit = reopen_audits None b actor\<rparr> None])"
    using run_pair(2) [OF _ yields [OF l1, of now actor None ?gid]] by blast
  have l2: "live_group_for (next_number db1) (work_fp H b) = Some ?g" using l1 by (simp add: live_group_for_def)
  let ?s = "\<lparr>se_dirty = [], se_audit = created_audits ?gid ?g b actor\<rparr>"
  have 2: "?R (next_number db1, [Finished a ?gid, Holding b ?g ?s])"
    using run_pair(2) [OF 1 finds [OF l2]] by (simp add: aud loaded_def)
  have st1: "bg_status ?g = ''ACTIVE''" and st2: "se_dirty ?s = []" and one: "gcl.one_live (gdb_groups (next_number db1))"
    using group_db_okD(2) [OF st(2)] by simp_all
  obtain db2 where w: "worker_attach (next_number db1) ?s ?g b now actor = Inr db2"
    and au: "set (se_audit ?s) \<subseteq> set (gdb_audit db2)" "set (gdb_audit (next_number db1)) \<subseteq> set (gdb_audit db2)"
    using worker_attach_active [OF st1 st2 one, of b now actor] by blast
  have "?R (db2, [Finished a ?gid, Finished b ?gid])"
    using run_pair(2) [OF 2 attaches [OF w]] by simp
  moreover have "\<exists>e\<in>set (gdb_audit db2). creation_event ?gid b e"
    using au(1) by (auto simp: created_audits_def creation_event_def intro!: rev_bexI)
  moreover have "\<exists>e\<in>set (gdb_audit db2). creation_event ?gid a e"
    using au(2) ev_a by (auto simp: next_number_def)
  ultimately show ?thesis using that by simp
qed

text \<open>When two workers race for a free fingerprint and have computed the same next public
  id, both alerts end in one group, and the audit trail of that group has two events of its
  creation, one for each alert.\<close>

theorem race_records_creation_twice:
  assumes "group_db_ok db" "live_group_for db (work_fp H a) = None" "closed_group_for db (work_fp H a) = None"
    and "work_fp H b = work_fp H a" "al_status a \<noteq> ''SUPPRESSED''" "al_status b \<noteq> ''SUPPRESSED''"
    and "\<not> already_member db (al_alert_id a)" "\<not> already_member db (al_alert_id b)"
  shows "\<exists>db' gid. workers_run H now actor (db, map Starting [a, b]) (db', [Finished a gid, Finished b gid])
     \<and> list_ex (creation_event gid a) (gdb_audit db') \<and> list_ex (creation_event gid b) (gdb_audit db')"
  by (rule race_for_free_fingerprint [OF assms(1,2,4,3,5-8), of now actor])
    (unfold list_ex_iff, blast)

lemma two_alerts_race:
  obtains db' gid where "workers_run id 0 ''w'' (empty_group_db, map Starting [nth_alert 0, nth_alert 1])
      (db', [Finished (nth_alert 0) gid, Finished (nth_alert 1) gid])"
    "list_ex (creation_event gid (nth_alert 0)) (gdb_audit db')" "list_ex (creation_event gid (nth_alert 1)) (gdb_audit db')"
proof -
  have e: "live_group_for empty_group_db k = None" "closed_group_for empty_group_db k = None" "\<not> already_member empty_group_db x" for k x
    by (simp_all add: live_group_for_def closed_group_for_def empty_group_db_def already_member_def)
  have fp: "work_fp id (nth_alert 1) = work_fp id (nth_alert 0)" by (simp add: work_fp_def)
  have opn: "al_status (nth_alert n) \<noteq> ''SUPPRESSED''" for n by simp
  show thesis
    by (rule race_for_free_fingerprint [OF group_db_ok_empty e(1) fp e(2) opn opn e(3) e(3), of 0 "''w''"])
      (rule that, unfold list_ex_iff, blast+)
qed

theorem racing_workers_share_group_witness:
  "\<exists>db' gid. workers_run id 0 ''w'' (empty_group_db, map Starting [nth_alert 0, nth_alert 1])
      (db', [Finished (nth_alert 0) gid, Finished (nth_alert 1) gid])
     \<and> in_one_window id empty_group_db [nth_alert 0, nth_alert 1] (work_fp id (nth_alert 0))
     \<and> gcl.one_live (gdb_groups db') \<and> (\<exists>c\<in>set (gdb_groups db'). bg_group_id c = gid \<and> group_live c)"
proof -
  obtain db' gid where r: "workers_run id 0 ''w'' (empty_group_db, map Starting [nth_alert 0, nth_alert 1])
      (db', [Finished (nth_alert 0) gid, Finished (nth_alert 1) gid])"
    by (rule two_alerts_race)
  have fp: "work_fp id (nth_alert 0) = work_fp id (nth_alert 1)" by (simp add: work_fp_def)
  have win: "in_one_window id empty_group_db [nth_alert 0, nth_alert 1] (work_fp id (nth_alert 0))"
    by (simp add: in_one_window_def seen_times_def empty_group_db_def work_fp_def within_group_window_def
        group_window_minutes_def AGGREGATION_WINDOWS_MINUTES_def minutes_def seconds_def)
  from racing_workers_share_group [OF group_db_ok_empty r _ _ fp, of gid gid] win r show ?thesis by auto
qed

end
