(* ===== verification/Corr_Policy.thy ===== *)
theory Corr_Policy
  imports Group_Policy "HOL-Library.Multiset"
begin

text \<open>
  The vocabulary of behavioral correlation: edge types, finding types, tactic phases
  (\<open>backend/correlation/contract.py\<close>), windows (\<open>windows.py\<close>), the confidence
  formula (\<open>confidence.py\<close>), edge strength (\<open>edges.py\<close>), the finding
  fingerprint (\<open>fingerprint.py\<close>) and the lifecycle (\<open>lifecycle.py\<close>).
\<close>

section \<open>Edge types\<close>

datatype edge_type =
    TEMPORAL | SAME_HOST | SAME_USER | SAME_SOURCE | SAME_ACCOUNT | NETWORK_RELATION
  | DESTINATION_RELATION | TECHNIQUE_TRANSITION | TACTIC_TRANSITION | LATERAL_MOVEMENT

definition EDGE_TYPES :: "edge_type list" where
  "EDGE_TYPES = [TEMPORAL, SAME_HOST, SAME_USER, SAME_SOURCE, SAME_ACCOUNT, NETWORK_RELATION,
     DESTINATION_RELATION, TECHNIQUE_TRANSITION, TACTIC_TRANSITION, LATERAL_MOVEMENT]"

fun edge_type_name :: "edge_type \<Rightarrow> string" where
  "edge_type_name TEMPORAL = ''TEMPORAL''"
| "edge_type_name SAME_HOST = ''SAME_HOST''"
| "edge_type_name SAME_USER = ''SAME_USER''"
| "edge_type_name SAME_SOURCE = ''SAME_SOURCE''"
| "edge_type_name SAME_ACCOUNT = ''SAME_ACCOUNT''"
| "edge_type_name NETWORK_RELATION = ''NETWORK_RELATION''"
| "edge_type_name DESTINATION_RELATION = ''DESTINATION_RELATION''"
| "edge_type_name TECHNIQUE_TRANSITION = ''TECHNIQUE_TRANSITION''"
| "edge_type_name TACTIC_TRANSITION = ''TACTIC_TRANSITION''"
| "edge_type_name LATERAL_MOVEMENT = ''LATERAL_MOVEMENT''"

text \<open>The position in \<open>EDGE_TYPES\<close>, by which every list of edge types is ordered.\<close>

fun edge_rank :: "edge_type \<Rightarrow> nat" where
  "edge_rank TEMPORAL = 0" | "edge_rank SAME_HOST = 1" | "edge_rank SAME_USER = 2"
| "edge_rank SAME_SOURCE = 3" | "edge_rank SAME_ACCOUNT = 4" | "edge_rank NETWORK_RELATION = 5"
| "edge_rank DESTINATION_RELATION = 6" | "edge_rank TECHNIQUE_TRANSITION = 7"
| "edge_rank TACTIC_TRANSITION = 8" | "edge_rank LATERAL_MOVEMENT = 9"

lemma edge_rank_inj [simp]: "edge_rank s = edge_rank t \<longleftrightarrow> s = t"
  by (cases s; cases t) simp_all

lemma edge_type_name_inj [simp]: "edge_type_name s = edge_type_name t \<longleftrightarrow> s = t"
  by (cases s; cases t) simp_all

instantiation edge_type :: linorder
begin

definition less_eq_edge_type :: "edge_type \<Rightarrow> edge_type \<Rightarrow> bool" where
  "less_eq_edge_type s t \<longleftrightarrow> edge_rank s \<le> edge_rank t"

definition less_edge_type :: "edge_type \<Rightarrow> edge_type \<Rightarrow> bool" where
  "less_edge_type s t \<longleftrightarrow> edge_rank s < edge_rank t"

instance
  by intro_classes (auto simp: less_eq_edge_type_def less_edge_type_def intro: edge_rank_inj [THEN iffD1])

end

lemma EDGE_TYPES_all [simp]: "set EDGE_TYPES = UNIV"
proof -
  have "t \<in> set EDGE_TYPES" for t by (cases t) (simp_all add: EDGE_TYPES_def)
  then show ?thesis by blast
qed

lemma EDGE_TYPES_sorted: "sorted_wrt (<) EDGE_TYPES"
  by (simp add: EDGE_TYPES_def less_edge_type_def)

text \<open>\<open>[t for t in EDGE_TYPES if t in types]\<close> sorts and removes repetitions.\<close>

definition in_edge_order :: "edge_type list \<Rightarrow> edge_type list" where
  "in_edge_order types = filter (\<lambda>t. t \<in> set types) EDGE_TYPES"

lemma in_edge_order [simp]:
  "set (in_edge_order ts) = set ts" "distinct (in_edge_order ts)" "sorted (in_edge_order ts)"
proof -
  show "set (in_edge_order ts) = set ts" by (simp add: in_edge_order_def)
  have s: "sorted_wrt (<) (in_edge_order ts)"
    unfolding in_edge_order_def using EDGE_TYPES_sorted by (rule sorted_wrt_filter)
  then show "distinct (in_edge_order ts)" "sorted (in_edge_order ts)" by (simp_all add: strict_sorted_iff)
qed

lemma in_edge_order_sort: "in_edge_order ts = sort (remdups ts)"
  by (rule sorted_distinct_set_unique) simp_all

section \<open>Phases\<close>

datatype phase = INITIAL_ACCESS | CREDENTIAL_ACCESS | LATERAL_PHASE | EXECUTION | IMPACT | UNKNOWN_PHASE

fun phase_name :: "phase \<Rightarrow> string" where
  "phase_name INITIAL_ACCESS = ''INITIAL_ACCESS''"
| "phase_name CREDENTIAL_ACCESS = ''CREDENTIAL_ACCESS''"
| "phase_name LATERAL_PHASE = ''LATERAL_MOVEMENT''"
| "phase_name EXECUTION = ''EXECUTION''"
| "phase_name IMPACT = ''IMPACT''"
| "phase_name UNKNOWN_PHASE = ''UNKNOWN_PHASE''"

definition PHASES :: "phase list" where
  "PHASES = [INITIAL_ACCESS, CREDENTIAL_ACCESS, LATERAL_PHASE, EXECUTION]"

definition TECHNIQUE_PHASES :: "(string \<times> phase) list" where
  "TECHNIQUE_PHASES =
     [(''T1133'', INITIAL_ACCESS), (''T1190'', INITIAL_ACCESS), (''T1566.001'', INITIAL_ACCESS),
      (''T1110'', CREDENTIAL_ACCESS), (''T1110.001'', CREDENTIAL_ACCESS), (''T1110.003'', CREDENTIAL_ACCESS),
      (''T1110.004'', CREDENTIAL_ACCESS), (''T1621'', CREDENTIAL_ACCESS),
      (''T1021.001'', LATERAL_PHASE), (''T1021.002'', LATERAL_PHASE), (''T1021.003'', LATERAL_PHASE),
      (''T1570'', LATERAL_PHASE),
      (''T1059.001'', EXECUTION), (''T1059.003'', EXECUTION), (''T1059.007'', EXECUTION),
      (''T1047'', EXECUTION), (''T1053.005'', EXECUTION), (''T1486'', IMPACT)]"

definition phase_of :: "string \<Rightarrow> phase" where
  "phase_of technique = (if technique = [] then UNKNOWN_PHASE
     else (case map_of TECHNIQUE_PHASES (py_upper (py_strip technique)) of
             None \<Rightarrow> UNKNOWN_PHASE | Some p \<Rightarrow> p))"

text \<open>\<open>_PHASE_ORDER\<close>: IMPACT and the unknown phase have no place in it.\<close>

fun phase_order :: "phase \<Rightarrow> nat option" where
  "phase_order INITIAL_ACCESS = Some 0" | "phase_order CREDENTIAL_ACCESS = Some 1"
| "phase_order LATERAL_PHASE = Some 2" | "phase_order EXECUTION = Some 3"
| "phase_order IMPACT = None" | "phase_order UNKNOWN_PHASE = None"

definition is_progression :: "phase \<Rightarrow> phase \<Rightarrow> bool" where
  "is_progression earlier later =
     (case (phase_order earlier, phase_order later) of (Some a, Some b) \<Rightarrow> a < b | _ \<Rightarrow> False)"

lemma is_progression_order:
  "\<not> is_progression p p" "is_progression p q \<Longrightarrow> is_progression q r \<Longrightarrow> is_progression p r"
  "is_progression p q \<Longrightarrow> \<not> is_progression q p"
  "is_progression p q \<Longrightarrow> p \<in> set PHASES \<and> q \<in> set PHASES"
  by (cases p; cases q; cases r; simp add: is_progression_def PHASES_def)+

section \<open>Finding types and statuses\<close>

definition CORRELATION_TYPES :: "string list" where
  "CORRELATION_TYPES = [''TEMPORAL'', ''ENTITY'', ''HOST_CHAIN'', ''USER_CHAIN'', ''SOURCE_CHAIN'',
     ''TACTIC_SEQUENCE'', ''TECHNIQUE_SEQUENCE'', ''LATERAL_MOVEMENT'', ''MULTI_STAGE'']"

definition TYPE_TITLES :: "(string \<times> string) list" where
  "TYPE_TITLES =
     [(''TEMPORAL'', ''Related Activity Within a Shared Time Window''),
      (''ENTITY'', ''Related Activity Across Shared Entities''),
      (''HOST_CHAIN'', ''Multi-Host Activity Sequence''),
      (''USER_CHAIN'', ''User Movement Across Hosts''),
      (''SOURCE_CHAIN'', ''Multi-Host Remote Access Pattern''),
      (''TACTIC_SEQUENCE'', ''Potential Tactic Progression Sequence''),
      (''TECHNIQUE_SEQUENCE'', ''Potential Technique Transition Sequence''),
      (''LATERAL_MOVEMENT'', ''Potential Lateral Movement Sequence''),
      (''MULTI_STAGE'', ''Potential Multi-Stage Behavioral Sequence'')]"

definition title_or :: "string \<Rightarrow> string \<Rightarrow> string" where
  "title_or t dflt = (case map_of TYPE_TITLES t of None \<Rightarrow> dflt | Some s \<Rightarrow> s)"

definition CORRELATION_STATUSES :: "string list" where
  "CORRELATION_STATUSES = [''NEW'', ''ACTIVE'', ''QUIET'', ''CLOSED'']"

definition CORRELATION_TRANSITIONS :: "((string \<times> string) \<times> string) list" where
  "CORRELATION_TRANSITIONS =
     [((''NEW'', ''ACTIVE''), ''CORRELATION_UPDATED''), ((''NEW'', ''QUIET''), ''CORRELATION_QUIET''),
      ((''ACTIVE'', ''QUIET''), ''CORRELATION_QUIET''), ((''QUIET'', ''ACTIVE''), ''CORRELATION_UPDATED''),
      ((''QUIET'', ''CLOSED''), ''CORRELATION_CLOSED''), ((''ACTIVE'', ''CLOSED''), ''CORRELATION_CLOSED'')]"

definition can_corr_transition :: "string \<Rightarrow> string \<Rightarrow> bool" where
  "can_corr_transition current target \<longleftrightarrow> map_of CORRELATION_TRANSITIONS (current, target) \<noteq> None"

definition corr_transition :: "string \<Rightarrow> string \<Rightarrow> py_error + string" where
  "corr_transition current target = (case map_of CORRELATION_TRANSITIONS (current, target) of
     None \<Rightarrow> Inl (IllegalTransition current target) | Some action \<Rightarrow> Inr action)"

section \<open>Windows\<close>

definition CORRELATION_WINDOWS_MINUTES :: "(string \<times> int) list" where
  "CORRELATION_WINDOWS_MINUTES =
     [(''authentication_to_execution'', 30), (''execution_to_privilege'', 60),
      (''host_to_host_lateral_movement'', 60), (''multi_stage'', 120)]"

definition CORRELATION_WINDOW_DEFAULT_MINUTES :: int where "CORRELATION_WINDOW_DEFAULT_MINUTES = 120"
definition CORRELATION_QUIET_AFTER_MINUTES :: int where "CORRELATION_QUIET_AFTER_MINUTES = 120"
definition CORRELATION_CLOSE_AFTER_MINUTES :: int where "CORRELATION_CLOSE_AFTER_MINUTES = 240"

definition corr_window_minutes :: "string \<Rightarrow> int" where
  "corr_window_minutes key = (case map_of CORRELATION_WINDOWS_MINUTES key of
     None \<Rightarrow> CORRELATION_WINDOW_DEFAULT_MINUTES | Some m \<Rightarrow> m)"

definition within_corr_window :: "time \<Rightarrow> time \<Rightarrow> string \<Rightarrow> bool" where
  "within_corr_window earlier_time later_time key =
     (let delta = later_time - earlier_time in
      if delta < 0 then True else delta \<le> minutes (corr_window_minutes key) + seconds 60)"

definition corr_quiet_cutoff :: "time \<Rightarrow> time \<Rightarrow> int \<Rightarrow> bool" where
  "corr_quiet_cutoff last_seen now quiet_after \<longleftrightarrow> last_seen + minutes quiet_after < now"

definition corr_close_cutoff :: "time \<Rightarrow> time \<Rightarrow> int \<Rightarrow> bool" where
  "corr_close_cutoff last_seen now close_after \<longleftrightarrow> last_seen + minutes close_after < now"

lemma corr_window_bounds: "30 \<le> corr_window_minutes k" "corr_window_minutes k \<le> 120"
  by (simp_all add: corr_window_minutes_def CORRELATION_WINDOWS_MINUTES_def CORRELATION_WINDOW_DEFAULT_MINUTES_def)

section \<open>Confidence\<close>

definition CORRELATION_MIN_RELATIONSHIPS :: nat where "CORRELATION_MIN_RELATIONSHIPS = 2"
definition CORRELATION_CONFIDENCE_BASE :: rat where "CORRELATION_CONFIDENCE_BASE = fl (40/100)"
definition CORRELATION_CONFIDENCE_PER_FACTOR :: rat where "CORRELATION_CONFIDENCE_PER_FACTOR = fl (10/100)"
definition CORRELATION_CONFIDENCE_PROGRESSION_BONUS :: rat where "CORRELATION_CONFIDENCE_PROGRESSION_BONUS = fl (10/100)"
definition CORRELATION_CONFIDENCE_SEQUENCE_BONUS :: rat where "CORRELATION_CONFIDENCE_SEQUENCE_BONUS = fl (5/100)"
definition CORRELATION_CONFIDENCE_LATERAL_BONUS :: rat where "CORRELATION_CONFIDENCE_LATERAL_BONUS = fl (3/100)"
definition CORRELATION_CONFIDENCE_MIN :: rat where "CORRELATION_CONFIDENCE_MIN = fl (20/100)"
definition CORRELATION_CONFIDENCE_MAX :: rat where "CORRELATION_CONFIDENCE_MAX = fl (90/100)"

lemmas corr_conf_defs = CORRELATION_MIN_RELATIONSHIPS_def CORRELATION_CONFIDENCE_BASE_def
  CORRELATION_CONFIDENCE_PER_FACTOR_def CORRELATION_CONFIDENCE_PROGRESSION_BONUS_def
  CORRELATION_CONFIDENCE_SEQUENCE_BONUS_def CORRELATION_CONFIDENCE_LATERAL_BONUS_def
  CORRELATION_CONFIDENCE_MIN_def CORRELATION_CONFIDENCE_MAX_def

text \<open>The argument \<open>types\<close> is the number of distinct relationship types.\<close>

definition corr_confidence :: "nat \<Rightarrow> nat \<Rightarrow> bool \<Rightarrow> bool \<Rightarrow> rat" where
  "corr_confidence types chain_length has_progression has_lateral_edge =
     (let factors = max types CORRELATION_MIN_RELATIONSHIPS;
          v0 = fadd CORRELATION_CONFIDENCE_BASE
                 (fmul CORRELATION_CONFIDENCE_PER_FACTOR (of_nat (factors - CORRELATION_MIN_RELATIONSHIPS)));
          v1 = (if has_progression then fadd v0 CORRELATION_CONFIDENCE_PROGRESSION_BONUS else v0);
          v2 = (if 3 \<le> chain_length then fadd v1 CORRELATION_CONFIDENCE_SEQUENCE_BONUS else v1);
          v3 = (if has_lateral_edge then fadd v2 CORRELATION_CONFIDENCE_LATERAL_BONUS else v2)
      in pyround 4 (max CORRELATION_CONFIDENCE_MIN (min CORRELATION_CONFIDENCE_MAX v3)))"

lemma fmul_mono_nat: "0 \<le> a \<Longrightarrow> m \<le> n \<Longrightarrow> fmul a (of_nat m) \<le> fmul a (of_nat n)"
  unfolding fmul_def by (intro fl_mono mult_left_mono) simp_all

lemma fadd_bonus_mono:
  assumes "fl x' = x'" "x \<le> x'" "b \<longrightarrow> b'" "0 \<le> y"
  shows "(if b then fadd x y else x) \<le> (if b' then fadd x' y else x')"
proof -
  have "x' \<le> fadd x' y" using assms(1,4) fl_mono [of x' "x' + y"] by (simp add: fadd_def)
  then show ?thesis using assms(2,3) fadd_mono [OF assms(2), of y y] by auto
qed

lemma fl_bonus: "fl x = x \<Longrightarrow> fl (if b then fadd x y else x) = (if b then fadd x y else x)"
  by (simp add: fadd_def)

lemma corr_confidence_mono:
  assumes "t \<le> t'" "n \<le> n'" "p \<longrightarrow> p'" "l \<longrightarrow> l'"
  shows "corr_confidence t n p l \<le> corr_confidence t' n' p' l'"
proof -
  let ?v = "\<lambda>t. fadd (fl (40/100)) (fmul (fl (10/100)) (of_nat (max t 2 - 2)))"
  have 0: "?v t \<le> ?v t'"
    by (intro fadd_mono fmul_mono_nat diff_le_mono) (use assms(1) in \<open>auto intro: fl_nonneg\<close>)
  have f0: "fl (?v t') = ?v t'" by (simp add: fadd_def)
  have y: "0 \<le> fl (10/100)" "0 \<le> fl (5/100)" "0 \<le> fl (3/100)" by (simp_all add: fl_nonneg)
  note 1 = fadd_bonus_mono [OF f0 0 assms(3) y(1)]
  note f1 = fl_bonus [OF f0, of p' "fl (10/100)"]
  have n: "3 \<le> n \<longrightarrow> 3 \<le> n'" using assms(2) by simp
  note 2 = fadd_bonus_mono [OF f1 1 n y(2)]
  note f2 = fl_bonus [OF f1, of "3 \<le> n'" "fl (5/100)"]
  note 3 = fadd_bonus_mono [OF f2 2 assms(4) y(3)]
  show ?thesis
    unfolding corr_confidence_def Let_def corr_conf_defs
    by (intro pyround_mono max.mono min.mono order_refl 3)
qed

lemma corr_confidence_range: "fl (20/100) \<le> corr_confidence t n p l \<and> corr_confidence t n p l \<le> fl (90/100)"
proof -
  have r: "pyround 4 (fl (20/100)) = fl (20/100)" "pyround 4 (fl (90/100)) = fl (90/100)"
    "fl (20/100) \<le> fl (90/100)" by code_simp+
  have "fl (20/100) \<le> corr_confidence t n p l"
    unfolding corr_confidence_def Let_def corr_conf_defs
    using pyround_mono [of "fl (20/100)" "max (fl (20/100)) (min (fl (90/100)) v)" 4 for v] r(1) by simp
  moreover have "corr_confidence t n p l \<le> fl (90/100)"
    unfolding corr_confidence_def Let_def corr_conf_defs
    using pyround_mono [of "max (fl (20/100)) (min (fl (90/100)) v)" "fl (90/100)" 4 for v] r(2,3) by simp
  ultimately show ?thesis by (rule conjI)
qed

text \<open>The confidence of a finding lies between 0.20 and 0.90 and never falls when a
  relationship type, a group, a tactic progression or a lateral edge is added.\<close>

theorem corr_confidence_bounded_monotone:
  assumes "t \<le> t'" "n \<le> n'" "p \<longrightarrow> p'" "l \<longrightarrow> l'"
  shows "fl (20/100) \<le> corr_confidence t n p l \<and> corr_confidence t n p l \<le> corr_confidence t' n' p' l'
     \<and> corr_confidence t' n' p' l' \<le> fl (90/100)"
  using corr_confidence_mono [OF assms] corr_confidence_range [of t n p l] corr_confidence_range [of t' n' p' l']
  by blast

theorem corr_confidence_bounded_monotone_witness:
  "corr_confidence 2 2 False False \<le> corr_confidence 5 4 True True"
  using corr_confidence_bounded_monotone [of 2 5 2 4 False True False True] by simp

lemma corr_confidence_canonical: "corr_confidence 5 4 True True = fl (88/100)"
  by code_simp

section \<open>Edge strength\<close>

datatype weight_key = HostW | UserW | SourceW | TimeW | TechniqueW

fun weight_category :: "edge_type \<Rightarrow> weight_key option" where
  "weight_category SAME_HOST = Some HostW"
| "weight_category SAME_USER = Some UserW"
| "weight_category SAME_ACCOUNT = Some UserW"
| "weight_category SAME_SOURCE = Some SourceW"
| "weight_category TEMPORAL = Some TimeW"
| "weight_category TECHNIQUE_TRANSITION = Some TechniqueW"
| "weight_category TACTIC_TRANSITION = Some TechniqueW"
| "weight_category NETWORK_RELATION = None"
| "weight_category DESTINATION_RELATION = None"
| "weight_category LATERAL_MOVEMENT = None"

fun CORRELATION_EDGE_WEIGHTS :: "weight_key \<Rightarrow> rat" where
  "CORRELATION_EDGE_WEIGHTS HostW = fl (30/100)"
| "CORRELATION_EDGE_WEIGHTS UserW = fl (25/100)"
| "CORRELATION_EDGE_WEIGHTS SourceW = fl (20/100)"
| "CORRELATION_EDGE_WEIGHTS TimeW = fl (15/100)"
| "CORRELATION_EDGE_WEIGHTS TechniqueW = fl (10/100)"

text \<open>The categories form a set: \<open>order\<close> is the order in which Python iterates it.
  The sum of floats runs in that order.\<close>

definition edge_categories :: "edge_type list \<Rightarrow> weight_key list" where
  "edge_categories types = remdups (List.map_filter weight_category types)"

definition weight_sum :: "weight_key list \<Rightarrow> rat" where
  "weight_sum ks = foldl (\<lambda>s c. fadd s (CORRELATION_EDGE_WEIGHTS c)) 0 ks"

definition edge_strength :: "(weight_key list \<Rightarrow> weight_key list) \<Rightarrow> edge_type list \<Rightarrow> rat" where
  "edge_strength order types = pyround 4 (min 1 (weight_sum (order (edge_categories types))))"

definition weight_keys :: "weight_key list" where
  "weight_keys = [HostW, UserW, SourceW, TimeW, TechniqueW]"

text \<open>The exact weights, in hundredths.  Whatever the order of the summands, the error of
  the float sum stays far below the four decimals that are kept.\<close>

fun weight_cents :: "weight_key \<Rightarrow> int" where
  "weight_cents HostW = 30" | "weight_cents UserW = 25" | "weight_cents SourceW = 20"
| "weight_cents TimeW = 15" | "weight_cents TechniqueW = 10"

lemma weight_cents_nonneg: "0 \<le> weight_cents k"
  by (cases k) simp_all

lemma weight_sum_error:
  "0 \<le> s \<Longrightarrow> 0 \<le> c \<Longrightarrow> \<bar>s - of_int c / 100\<bar> \<le> of_nat n * 2 powi (- 52) \<Longrightarrow>
   c + (\<Sum>k\<leftarrow>ks. weight_cents k) \<le> 100 \<Longrightarrow> n + length ks \<le> 10 \<Longrightarrow>
   \<bar>foldl (\<lambda>s k. fadd s (CORRELATION_EDGE_WEIGHTS k)) s ks - of_int (c + (\<Sum>k\<leftarrow>ks. weight_cents k)) / 100\<bar>
     \<le> of_nat (n + length ks) * 2 powi (- 52)"
proof (induction ks arbitrary: s c n)
  case (Cons k ks)
  let ?e = "2 powi (- 53) :: rat"
  let ?w = "CORRELATION_EDGE_WEIGHTS k"
  have nn: "0 \<le> (\<Sum>k\<leftarrow>ks. weight_cents k)" by (intro sum_list_nonneg) (auto simp: weight_cents_nonneg)
  have k: "?w = fl (of_int (weight_cents k) / 100)" "0 \<le> weight_cents k" "weight_cents k \<le> 30" by (cases k; simp)+
  have e: "2 powi (- 52) = 2 * ?e" "of_nat n * ?e \<le> 10 * ?e" "(0 :: rat) < ?e" "10 * ?e < 1 / 10"
    using Cons.prems(5) power_int_add_1 [of "2 :: rat" "- 53"] by simp_all
  have w: "\<bar>?w - of_int (weight_cents k) / 100\<bar> \<le> ?e" unfolding k(1) by (rule fl_error) (use k(2,3) in simp_all)
  have "c + weight_cents k \<le> 100" using Cons.prems(4) nn by simp
  then have "(of_int (c + weight_cents k) :: rat) \<le> 100" by (metis of_int_le_iff of_int_numeral)
  then have c: "(of_int c :: rat) + of_int (weight_cents k) \<le> 100" by simp
  have s: "\<bar>s - of_int c / 100\<bar> \<le> 2 * (of_nat n * ?e)" using Cons.prems(3) e(1) by simp
  have "s + ?w < 2" using s w c e by linarith
  moreover have wp: "0 \<le> ?w" unfolding k(1) using k(2) by (simp add: fl_nonneg)
  ultimately have f: "\<bar>fadd s ?w - (s + ?w)\<bar> \<le> ?e" unfolding fadd_def using Cons.prems(1) by (intro fl_error) simp_all
  have d: "(of_int (c + weight_cents k) :: rat) / 100 = of_int c / 100 + of_int (weight_cents k) / 100"
    by (simp add: add_divide_distrib)
  have "\<bar>fadd s ?w - of_int (c + weight_cents k) / 100\<bar> \<le> of_nat (Suc n) * 2 powi (- 52)"
  proof -
    have g: "\<bar>x - (u + v)\<bar> \<le> e \<Longrightarrow> \<bar>v - q\<bar> \<le> e \<Longrightarrow> \<bar>u - p\<bar> \<le> 2 * ne \<Longrightarrow> \<bar>x - (p + q)\<bar> \<le> 2 * ne + 2 * e"
      for x u v p q e ne :: rat by linarith
    have "of_nat (Suc n) * (2 * e) = 2 * (of_nat n * e) + 2 * e" for e :: rat by (simp add: distrib_right)
    then show ?thesis unfolding d e(1) using g [OF f w s] by (simp only:)
  qed
  moreover have "0 \<le> fadd s ?w" using Cons.prems(1) wp by (rule fadd_nonneg)
  moreover have "0 \<le> c + weight_cents k" using Cons.prems(2) k(2) by simp
  moreover have "c + weight_cents k + (\<Sum>k\<leftarrow>ks. weight_cents k) \<le> 100" "Suc n + length ks \<le> 10"
    using Cons.prems(4,5) by simp_all
  ultimately show ?case using Cons.IH [of "fadd s ?w" "c + weight_cents k" "Suc n"] by (simp add: add.assoc)
qed simp

lemma weight_keys_all: "k \<in> set weight_keys"
  by (cases k) (simp_all add: weight_keys_def)

lemma weight_sum_exact:
  assumes "distinct xs"
  shows "pyround 4 (min 1 (weight_sum xs)) = fl (of_int (\<Sum>k\<in>set xs. weight_cents k) / 100)"
proof -
  let ?c = "\<Sum>k\<in>set xs. weight_cents k"
  have all: "set xs \<subseteq> set weight_keys" using weight_keys_all by blast
  have "card (set xs) \<le> card (set weight_keys)" by (intro card_mono all) simp
  also have "\<dots> \<le> 5" using card_length [of weight_keys] by (simp add: weight_keys_def)
  finally have len: "length xs \<le> 10" using distinct_card [OF assms] by simp
  have "?c \<le> (\<Sum>k\<in>set weight_keys. weight_cents k)"
    using all by (intro sum_mono2) (simp_all add: weight_cents_nonneg)
  then have c: "?c \<le> 100" by (simp add: weight_keys_def)
  have l: "(\<Sum>k\<leftarrow>xs. weight_cents k) = ?c" using assms by (simp add: sum_list_distinct_conv_sum_set)
  have "\<bar>weight_sum xs - of_int ?c / 100\<bar> \<le> of_nat (length xs) * 2 powi (- 52)"
    using weight_sum_error [of 0 0 0 xs] l c len by (simp add: weight_sum_def)
  also have "\<dots> \<le> of_nat 10 * 2 powi (- 52)" using len by (intro mult_right_mono) (simp_all only: of_nat_le_iff, simp)
  also have "of_nat 10 * 2 powi (- 52) < (1 / 100000 :: rat)" by (simp add: power_int_def power_one_over)
  finally have e: "\<bar>weight_sum xs - of_int ?c / 100\<bar> < 1 / 100000" .
  have "(of_int ?c :: rat) \<le> 100" using c by (metis of_int_le_iff of_int_numeral)
  with e have "\<bar>min 1 (weight_sum xs) - of_int ?c / 100\<bar> < 1 / 100000" by linarith
  then have "\<bar>min 1 (weight_sum xs) * 10 ^ 4 - 100 * of_int ?c\<bar> < 1 / 2" by (simp only: power4_eq_xxxx)
  then have "\<bar>min 1 (weight_sum xs) * 10 ^ 4 - of_int (100 * ?c)\<bar> < 1 / 2" by (simp only: of_int_mult of_int_numeral)
  then have "rhe (min 1 (weight_sum xs) * 10 ^ 4) = 100 * ?c" by (rule rhe_nearest)
  then show ?thesis unfolding pyround_def by simp
qed

lemma weight_sum_nonneg: "0 \<le> weight_sum ks"
proof -
  have w: "0 \<le> CORRELATION_EDGE_WEIGHTS k" for k by (cases k) (simp_all add: fl_nonneg)
  have "0 \<le> foldl (\<lambda>s c. fadd s (CORRELATION_EDGE_WEIGHTS c)) s ks" if "0 \<le> s" for s
    using that by (induction ks arbitrary: s) (simp_all add: fadd_nonneg w)
  then show ?thesis by (simp add: weight_sum_def)
qed

text \<open>The strength of an edge lies in [0, 1] and does not depend on the order in which
  the set of weight categories is iterated, although the weights are summed as floats, nor
  on the order or repetition of the relationship types.\<close>

theorem edge_strength_order_free:
  assumes "\<And>xs. mset (order xs) = mset xs" "\<And>xs. mset (order' xs) = mset xs" "set ts = set us"
  shows "edge_strength order ts = edge_strength order' us \<and> 0 \<le> edge_strength order ts \<and> edge_strength order ts \<le> 1"
proof -
  have c: "edge_strength ord ts = fl (of_int (\<Sum>k\<in>set (edge_categories ts). weight_cents k) / 100)"
    if "\<And>xs. mset (ord xs) = mset xs" for ord ts
  proof -
    have m: "mset (ord (edge_categories ts)) = mset (edge_categories ts)" by (rule that)
    have "distinct (ord (edge_categories ts))"
      using m by (metis distinct_remdups edge_categories_def mset_eq_imp_distinct_iff)
    then show ?thesis
      unfolding edge_strength_def using mset_eq_setD [OF m] by (simp add: weight_sum_exact)
  qed
  have "set (List.map_filter f ts) = {y. \<exists>x\<in>set ts. f x = Some y}" for f :: "edge_type \<Rightarrow> weight_key option" and ts
    by (induction ts) (auto simp: List.map_filter_simps split: option.splits)
  then have "set (edge_categories ts) = set (edge_categories us)" using assms(3) by (simp add: edge_categories_def)
  moreover have "0 \<le> edge_strength order ts \<and> edge_strength order ts \<le> 1"
    unfolding edge_strength_def by (rule pyround_unit) (simp_all add: weight_sum_nonneg)
  ultimately show ?thesis using c [OF assms(1), of ts] c [OF assms(2), of us] by simp
qed

theorem edge_strength_order_free_witness:
  "edge_strength rev [SAME_USER, TEMPORAL] = edge_strength id [TEMPORAL, SAME_USER, TEMPORAL]"
  using edge_strength_order_free [of rev id "[SAME_USER, TEMPORAL]" "[TEMPORAL, SAME_USER, TEMPORAL]"] by auto

section \<open>The fingerprint of a finding\<close>

record corr_edge =
  ce_source :: string
  ce_target :: string
  ce_type :: edge_type

text \<open>\<open>json.dumps(e, sort_keys=True)\<close> with its default separators, the sort key.\<close>

definition edge_json_key :: "corr_edge \<Rightarrow> string" where
  "edge_json_key e =
     ''{'' @ json_str ''relationship_type'' @ '': '' @ json_str (edge_type_name (ce_type e)) @ '', ''
     @ json_str ''source_group_id'' @ '': '' @ json_str (ce_source e) @ '', ''
     @ json_str ''target_group_id'' @ '': '' @ json_str (ce_target e) @ ''}''"

definition edge_json :: "corr_edge \<Rightarrow> string" where
  "edge_json e = json_obj
     [(''relationship_type'', json_str (edge_type_name (ce_type e))),
      (''source_group_id'', json_str (ce_source e)), (''target_group_id'', json_str (ce_target e))]"

definition normalize_edges :: "corr_edge list \<Rightarrow> corr_edge list" where
  "normalize_edges es = sort_key edge_json_key es"

definition finding_payload :: "string \<Rightarrow> string list \<Rightarrow> corr_edge list \<Rightarrow> string" where
  "finding_payload correlation_type members es = json_obj
     [(''correlation_type'', json_str correlation_type),
      (''edges'', json_arr (map edge_json (normalize_edges es))),
      (''member_group_ids'', json_arr (map json_str (sort members)))]"

definition finding_fingerprint :: "(string \<Rightarrow> string) \<Rightarrow> string \<Rightarrow> string list \<Rightarrow> corr_edge list \<Rightarrow> string" where
  "finding_fingerprint H correlation_type members es = H (finding_payload correlation_type members es)"

lemma edge_json_key_inj: "edge_json_key e = edge_json_key f \<longleftrightarrow> e = f"
proof
  assume "edge_json_key e = edge_json_key f"
  then have "ce_type e = ce_type f \<and> ce_source e = ce_source f \<and> ce_target e = ce_target f"
    by (simp add: edge_json_key_def json_str_inj)
  then show "e = f" by simp
qed simp

text \<open>The fingerprint sees the members and the edges as multisets.\<close>

lemma finding_fingerprint_cong:
  assumes "mset ms = mset ns" "mset es = mset fs"
  shows "finding_fingerprint H c ms es = finding_fingerprint H c ns fs"
proof -
  have "sort ms = sort ns" using assms(1) by (metis properties_for_sort mset_sort sorted_sort)
  moreover have "normalize_edges es = normalize_edges fs"
    unfolding normalize_edges_def
    by (rule sort_key_eq_sort_key [OF assms(2)]) (simp add: inj_on_def edge_json_key_inj)
  ultimately show ?thesis by (simp add: finding_fingerprint_def finding_payload_def)
qed

end
