(* ===== verification/Corr_Rules.thy ===== *)
theory Corr_Rules
  imports Corr_Policy
begin

text \<open>
  Which groups correlate: the summary a rule sees (\<open>backend/correlation/engine.py\<close>,
  \<open>group_summary\<close>), the rules R001-R009 (\<open>rules/__init__.py\<close>), the pair
  relationships (\<open>edges.py\<close>), the matches and edges of a pair, the type and the
  confidence of a chain, and candidate generation (\<open>candidates.py\<close>).

  A Python set of strings is iterated in an order that changes from one process to the
  next (string hashing is seeded).  Where the code's result can depend on it, the order is
  a parameter: \<open>so_str\<close> maps the elements of a set, given in increasing order, to the
  order in which they are met, \<open>so_key\<close> does so for the weight categories.
\<close>

section \<open>Sets of names\<close>

record set_order =
  so_str :: "string list \<Rightarrow> string list"
  so_key :: "weight_key list \<Rightarrow> weight_key list"

definition fair_order :: "set_order \<Rightarrow> bool" where
  "fair_order so \<longleftrightarrow> (\<forall>xs. mset (so_str so xs) = mset xs) \<and> (\<forall>ks. mset (so_key so ks) = mset ks)"

definition plain_order :: set_order where
  "plain_order = \<lparr>so_str = id, so_key = id\<rparr>"

lemma fair_orderD:
  assumes "fair_order so"
  shows "mset (so_str so xs) = mset xs" "set (so_str so xs) = set xs" "so_str so xs = [] \<longleftrightarrow> xs = []"
    "mset (so_key so ks) = mset ks"
proof -
  show m: "mset (so_str so xs) = mset xs" for xs using assms by (simp add: fair_order_def)
  then show "set (so_str so xs) = set xs" by (rule mset_eq_setD)
  show "so_str so xs = [] \<longleftrightarrow> xs = []" using m [of xs] by auto
  show "mset (so_key so ks) = mset ks" using assms by (simp add: fair_order_def)
qed

lemma fair_plain [simp]: "fair_order plain_order"
  by (simp add: fair_order_def plain_order_def)

definition norm_set :: "string list \<Rightarrow> string list" where
  "norm_set vs = pyset (map (\<lambda>v. py_lower (py_strip v)) (filter (\<lambda>v. py_strip v \<noteq> []) vs))"

definition shared :: "string list \<Rightarrow> string list \<Rightarrow> string list" where
  "shared vs ws = filter (\<lambda>v. v \<in> set (norm_set ws)) (norm_set vs)"

lemma norm_set_simps [simp]: "distinct (norm_set vs)" "sorted (norm_set vs)"
  by (simp_all add: norm_set_def)

lemma shared_commute: "shared vs ws = shared ws vs"
  unfolding shared_def by (rule sorted_distinct_set_unique) (auto intro: sorted_wrt_filter)

section \<open>Summaries\<close>

record group_summary =
  gs_id :: string
  gs_family :: string
  gs_hosts :: "string list"
  gs_users :: "string list"
  gs_sources :: "string list"
  gs_techniques :: "string list"
  gs_tactics :: "string list"
  gs_destinations :: "string list"
  gs_alert_ids :: "string list"
  gs_first_seen :: time
  gs_last_seen :: time
  gs_severity :: string
  gs_alert_count :: nat
  gs_occurrence_count :: nat

text \<open>\<open>min(families)\<close> of an empty set raises.\<close>

definition family_of_group :: "alert list \<Rightarrow> group \<Rightarrow> py_error + string" where
  "family_of_group alerts g =
     (if bg_alert_ids g = [] then Inr BEHAVIOR_FAMILY_DEFAULT
      else (case pyset (map (\<lambda>a. case map_of DETECTOR_BEHAVIOR_FAMILIES (al_detector_id a) of
                               None \<Rightarrow> BEHAVIOR_FAMILY_DEFAULT | Some f \<Rightarrow> f)
                   (filter (\<lambda>a. al_alert_id a \<in> set (bg_alert_ids g)) alerts)) of
             [] \<Rightarrow> Inl (ValueError ''min() iterable argument is empty'')
           | f # _ \<Rightarrow> Inr f))"

definition summary_of_group :: "alert list \<Rightarrow> group \<Rightarrow> py_error + group_summary" where
  "summary_of_group alerts g =
     map_sum id (\<lambda>family. \<lparr>gs_id = bg_group_id g, gs_family = family, gs_hosts = bg_host_ids g,
        gs_users = bg_user_ids g, gs_sources = bg_source_ips g, gs_techniques = bg_mitre_techniques g,
        gs_tactics = bg_mitre_tactics g,
        gs_destinations = (case map_of (bg_observables g) ''destination_ips'' of None \<Rightarrow> [] | Some ds \<Rightarrow> ds),
        gs_alert_ids = bg_alert_ids g, gs_first_seen = bg_first_seen g, gs_last_seen = bg_last_seen g,
        gs_severity = str_or (bg_highest_severity g) ''low'', gs_alert_count = bg_alert_count g,
        gs_occurrence_count = bg_occurrence_count g\<rparr>) (family_of_group alerts g)"

definition primary_phase :: "group_summary \<Rightarrow> phase" where
  "primary_phase s =
     (case filter (\<lambda>p. p \<noteq> UNKNOWN_PHASE) (map phase_of (pyset (filter (\<lambda>t. t \<noteq> []) (gs_techniques s)))) of
        [] \<Rightarrow> UNKNOWN_PHASE | p # _ \<Rightarrow> p)"

definition distinct_host_count :: "group_summary \<Rightarrow> group_summary \<Rightarrow> nat" where
  "distinct_host_count earlier later =
     length (pyset (map py_lower (gs_hosts earlier) @ map py_lower (gs_hosts later)))"

section \<open>The rules\<close>

datatype corr_rule = R001 | R002 | R003 | R004 | R005 | R006 | R007 | R008 | R009

definition RULES :: "corr_rule list" where
  "RULES = [R001, R002, R003, R004, R005, R006, R007, R008, R009]"

fun rule_id :: "corr_rule \<Rightarrow> string" where
  "rule_id R001 = ''R001''" | "rule_id R002 = ''R002''" | "rule_id R003 = ''R003''"
| "rule_id R004 = ''R004''" | "rule_id R005 = ''R005''" | "rule_id R006 = ''R006''"
| "rule_id R007 = ''R007''" | "rule_id R008 = ''R008''" | "rule_id R009 = ''R009''"

fun rule_description :: "corr_rule \<Rightarrow> string" where
  "rule_description R001 = ''Authentication-family behavior followed by execution-family behavior on a related host within the authentication-to-execution window.''"
| "rule_description R002 = ''Initial-access techniques followed by credential-access techniques against the same account. Emits SAME_ACCOUNT and TACTIC_TRANSITION.''"
| "rule_description R003 = ''Execution-family behavior followed by credential-access phase behavior within the execution-to-privilege window.''"
| "rule_description R004 = ''The same user or source operating from a different host with a lateral-movement technique. Emits LATERAL_MOVEMENT.''"
| "rule_description R005 = ''One remote source touching two or more distinct hosts within the host-to-host window.''"
| "rule_description R006 = ''One user operating from two or more distinct hosts within the host-to-host window.''"
| "rule_description R007 = ''Technique swap within the same tactic phase, same family. Emits TECHNIQUE_TRANSITION.''"
| "rule_description R008 = ''Tactic phase progression between two same-family groups. Emits TACTIC_TRANSITION.''"
| "rule_description R009 = ''Chain-level: a finding of three or more groups spanning two or more tactic phases resolves to MULTI_STAGE. Never evaluated on a bare pair.''"

fun rule_type :: "corr_rule \<Rightarrow> string" where
  "rule_type R001 = ''TEMPORAL''" | "rule_type R002 = ''ENTITY''" | "rule_type R003 = ''TECHNIQUE_SEQUENCE''"
| "rule_type R004 = ''LATERAL_MOVEMENT''" | "rule_type R005 = ''SOURCE_CHAIN''" | "rule_type R006 = ''USER_CHAIN''"
| "rule_type R007 = ''TECHNIQUE_SEQUENCE''" | "rule_type R008 = ''TACTIC_SEQUENCE''" | "rule_type R009 = ''MULTI_STAGE''"

fun rule_window :: "corr_rule \<Rightarrow> string" where
  "rule_window R001 = ''authentication_to_execution''"
| "rule_window R002 = ''authentication_to_execution''"
| "rule_window R003 = ''execution_to_privilege''"
| "rule_window R004 = ''host_to_host_lateral_movement''"
| "rule_window R005 = ''host_to_host_lateral_movement''"
| "rule_window R006 = ''host_to_host_lateral_movement''"
| "rule_window R007 = ''execution_to_privilege''"
| "rule_window R008 = ''multi_stage''"
| "rule_window R009 = ''multi_stage''"

fun rule_chain_level :: "corr_rule \<Rightarrow> bool" where
  "rule_chain_level R009 = True" | "rule_chain_level _ = False"

fun rule_emits :: "corr_rule \<Rightarrow> edge_type list" where
  "rule_emits R002 = [SAME_ACCOUNT, TACTIC_TRANSITION]"
| "rule_emits R004 = [LATERAL_MOVEMENT]"
| "rule_emits R007 = [TECHNIQUE_TRANSITION]"
| "rule_emits R008 = [TACTIC_TRANSITION]"
| "rule_emits _ = []"

definition pair_rules :: "corr_rule list" where
  "pair_rules = filter (\<lambda>r. \<not> rule_chain_level r) RULES"

definition names_or :: "string \<Rightarrow> string list \<Rightarrow> string" where
  "names_or dflt vs = join '', '' (if vs = [] then [dflt] else vs)"

definition technique_set :: "group_summary \<Rightarrow> string list" where
  "technique_set s = pyset (gs_techniques s)"

definition techniques_differ :: "group_summary \<Rightarrow> group_summary \<Rightarrow> bool" where
  "techniques_differ earlier later \<longleftrightarrow> gs_family earlier = gs_family later \<and> technique_set earlier \<noteq> []
     \<and> technique_set later \<noteq> [] \<and> technique_set earlier \<noteq> technique_set later"

text \<open>\<open>matches\<close>: the condition, and the reason when it holds.  R009 is chain-level:
  its \<open>matches\<close> is never called.\<close>

fun rule_holds :: "corr_rule \<Rightarrow> group_summary \<Rightarrow> group_summary \<Rightarrow> bool" where
  "rule_holds R001 e l = (gs_family e = ''authentication'' \<and> gs_family l = ''execution'')"
| "rule_holds R002 e l = (gs_family e = ''authentication'' \<and> gs_family l = ''authentication''
     \<and> primary_phase e = INITIAL_ACCESS \<and> primary_phase l = CREDENTIAL_ACCESS
     \<and> shared (gs_users e) (gs_users l) \<noteq> [])"
| "rule_holds R003 e l = (gs_family e = ''execution'' \<and> primary_phase l = CREDENTIAL_ACCESS)"
| "rule_holds R004 e l = (shared (gs_hosts e) (gs_hosts l) = []
     \<and> (shared (gs_users e) (gs_users l) \<noteq> [] \<or> shared (gs_sources e) (gs_sources l) \<noteq> [])
     \<and> primary_phase l = LATERAL_PHASE)"
| "rule_holds R005 e l = (shared (gs_sources e) (gs_sources l) \<noteq> [] \<and> 2 \<le> distinct_host_count e l)"
| "rule_holds R006 e l = (shared (gs_users e) (gs_users l) \<noteq> [] \<and> 2 \<le> distinct_host_count e l)"
| "rule_holds R007 e l = (techniques_differ e l \<and> primary_phase e = primary_phase l \<and> primary_phase e \<noteq> UNKNOWN_PHASE)"
| "rule_holds R008 e l = (techniques_differ e l \<and> is_progression (primary_phase e) (primary_phase l))"
| "rule_holds R009 e l = False"

fun rule_reason :: "set_order \<Rightarrow> corr_rule \<Rightarrow> group_summary \<Rightarrow> group_summary \<Rightarrow> string" where
  "rule_reason so R001 e l = ''rule R001: external access activity involving ''
     @ names_or ''an unknown user'' (gs_users e) @ '' was followed by execution activity''"
| "rule_reason so R002 e l = ''rule R002: credential-access activity against the same account (''
     @ join '', '' (so_str so (shared (gs_users e) (gs_users l))) @ '') followed external access''"
| "rule_reason so R003 e l = ''rule R003: execution activity was followed by credential/privilege activity (''
     @ phase_name (primary_phase l) @ '')''"
| "rule_reason so R004 e l = ''rule R004: activity moved from '' @ names_or ''an unknown host'' (gs_hosts e)
     @ '' to '' @ names_or ''an unknown host'' (gs_hosts l) @ '' with lateral-movement technique ''
     @ phase_name (primary_phase l)"
| "rule_reason so R005 e l = ''rule R005: source '' @ join '', '' (so_str so (shared (gs_sources e) (gs_sources l)))
     @ '' touched multiple hosts ('' @ dec (distinct_host_count e l) @ '')''"
| "rule_reason so R006 e l = ''rule R006: user '' @ join '', '' (so_str so (shared (gs_users e) (gs_users l)))
     @ '' operated from multiple hosts ('' @ dec (distinct_host_count e l) @ '')''"
| "rule_reason so R007 e l = ''rule R007: technique transition within phase '' @ phase_name (primary_phase e)
     @ '' ('' @ join '', '' (technique_set e) @ '' -> '' @ join '', '' (technique_set l) @ '')''"
| "rule_reason so R008 e l = ''rule R008: tactic progression '' @ phase_name (primary_phase e) @ '' -> ''
     @ phase_name (primary_phase l) @ '' ('' @ join '', '' (technique_set e) @ '' -> ''
     @ join '', '' (technique_set l) @ '')''"
| "rule_reason so R009 e l = []"

definition rule_matches :: "set_order \<Rightarrow> corr_rule \<Rightarrow> group_summary \<Rightarrow> group_summary \<Rightarrow> string option" where
  "rule_matches so r e l = (if rule_holds r e l then Some (rule_reason so r e l) else None)"

section \<open>Relationships of a pair\<close>

record pair_rel =
  pr_types :: "edge_type list"
  pr_hosts :: "string list"
  pr_users :: "string list"
  pr_sources :: "string list"
  pr_destinations :: "string list"
  pr_delta :: int

text \<open>\<open>int(delta.total_seconds())\<close>: the float quotient, truncated towards zero.\<close>

definition delta_seconds :: "time \<Rightarrow> int" where
  "delta_seconds d = (let x = fl (of_int d / 1000000) in if 0 \<le> x then \<lfloor>x\<rfloor> else - \<lfloor>- x\<rfloor>)"

text \<open>The transition claim looks at one technique of each side only:
  \<open>next(iter(...))\<close>.\<close>

definition transition_types :: "set_order \<Rightarrow> group_summary \<Rightarrow> group_summary \<Rightarrow> edge_type list" where
  "transition_types so e l =
     (let te = norm_set (gs_techniques e); tl = norm_set (gs_techniques l) in
      if gs_family e = gs_family l \<and> te \<noteq> [] \<and> tl \<noteq> [] \<and> te \<noteq> tl then
        (let pe = phase_of (hd (so_str so te)); pl = phase_of (hd (so_str so tl)) in
         if pe \<noteq> UNKNOWN_PHASE \<and> pl \<noteq> UNKNOWN_PHASE then
           (if pe = pl then [TECHNIQUE_TRANSITION]
            else if is_progression pe pl then [TACTIC_TRANSITION] else [])
         else [])
      else [])"

definition pair_relationships ::
  "set_order \<Rightarrow> group_summary \<Rightarrow> group_summary \<Rightarrow> string \<Rightarrow> bool option \<Rightarrow> pair_rel" where
  "pair_relationships so e l window_key in_window =
     (let hosts = shared (gs_hosts e) (gs_hosts l); users = shared (gs_users e) (gs_users l);
          sources = shared (gs_sources e) (gs_sources l);
          dests = shared (gs_destinations e) (gs_destinations l);
          temporal = (case in_window of None \<Rightarrow> within_corr_window (gs_first_seen e) (gs_first_seen l) window_key
                       | Some b \<Rightarrow> b);
          types = (if hosts \<noteq> [] then [SAME_HOST] else []) @ (if users \<noteq> [] then [SAME_USER] else [])
            @ (if sources \<noteq> [] then [SAME_SOURCE] else [])
            @ (if shared (gs_destinations e) (gs_hosts l) \<noteq> [] then [DESTINATION_RELATION] else [])
            @ (if dests \<noteq> [] then [NETWORK_RELATION] else [])
            @ (if temporal then [TEMPORAL] else []) @ transition_types so e l
      in \<lparr>pr_types = in_edge_order types, pr_hosts = hosts, pr_users = users, pr_sources = sources,
          pr_destinations = dests, pr_delta = delta_seconds (gs_first_seen l - gs_first_seen e)\<rparr>)"

definition meets_minimum :: "pair_rel \<Rightarrow> bool" where
  "meets_minimum rel \<longleftrightarrow> CORRELATION_MIN_RELATIONSHIPS \<le> length (pr_types rel)"

section \<open>Matches and edges of a pair\<close>

type_synonym corr_match = "corr_rule \<times> pair_rel \<times> string"

definition match_rule :: "set_order \<Rightarrow> group_summary \<Rightarrow> group_summary \<Rightarrow> corr_rule \<Rightarrow> corr_match option" where
  "match_rule so e l r =
     (let temporal = within_corr_window (gs_first_seen e) (gs_first_seen l) (rule_window r) in
      if \<not> temporal then None
      else let rel = pair_relationships so e l (rule_window r) (Some temporal) in
        if \<not> meets_minimum rel then None
        else (case rule_matches so r e l of None \<Rightarrow> None | Some reason \<Rightarrow> Some (r, rel, reason)))"

definition match_pair :: "set_order \<Rightarrow> group_summary \<Rightarrow> group_summary \<Rightarrow> corr_match list" where
  "match_pair so e l = List.map_filter (match_rule so e l) pair_rules"

record pair_edge = corr_edge +
  pe_delta :: int
  pe_entities :: "string list"
  pe_techniques :: "string list"
  pe_evidence :: "(string \<times> string) list"
  pe_strength :: rat

definition pair_edge_types :: "corr_match list \<Rightarrow> pair_rel \<Rightarrow> edge_type list" where
  "pair_edge_types ms rel = in_edge_order (pr_types rel @ concat (map (\<lambda>(r, _, _). rule_emits r) ms))"

definition edges_for_pair ::
  "set_order \<Rightarrow> group_summary \<Rightarrow> group_summary \<Rightarrow> corr_match list \<Rightarrow> pair_rel \<Rightarrow> pair_edge list" where
  "edges_for_pair so e l ms rel =
     (let types = pair_edge_types ms rel in
      map (\<lambda>t. \<lparr>ce_source = gs_id e, ce_target = gs_id l, ce_type = t, pe_delta = pr_delta rel,
              pe_entities = pyset (pr_hosts rel @ pr_users rel @ pr_sources rel),
              pe_techniques = pyset (filter (\<lambda>x. x \<in> set (gs_techniques l)) (gs_techniques e)),
              pe_evidence = [(''field'', ''relationship''), (''value'', edge_type_name t),
                (''reason'', ''shared context between '' @ gs_id e @ '' and '' @ gs_id l)],
              pe_strength = edge_strength (so_key so) types\<rparr>) types)"

section \<open>Type and confidence of a chain\<close>

definition resolve_chain_type :: "group_summary list \<Rightarrow> edge_type list \<Rightarrow> string \<Rightarrow> string" where
  "resolve_chain_type members types creation_type =
     (let hosts = pyset (map py_lower (concat (map gs_hosts members)));
          phases = remdups (filter (\<lambda>p. p \<noteq> UNKNOWN_PHASE) (map primary_phase members)) in
      if LATERAL_MOVEMENT \<in> set types then ''LATERAL_MOVEMENT''
      else if 3 \<le> length hosts \<and> (NETWORK_RELATION \<in> set types \<or> DESTINATION_RELATION \<in> set types) then ''HOST_CHAIN''
      else if 3 \<le> length members \<and> 2 \<le> length phases then ''MULTI_STAGE''
      else if creation_type \<notin> set CORRELATION_TYPES then ''TEMPORAL'' else creation_type)"

fun has_progression :: "group_summary list \<Rightarrow> bool" where
  "has_progression (a # b # ms) = (is_progression (primary_phase a) (primary_phase b) \<or> has_progression (b # ms))"
| "has_progression _ = False"

definition finding_confidence :: "group_summary list \<Rightarrow> edge_type list \<Rightarrow> rat" where
  "finding_confidence members types =
     corr_confidence (length (remdups types)) (length members) (has_progression members)
       (LATERAL_MOVEMENT \<in> set types)"


section \<open>What a match means\<close>

lemma pair_types_set:
  "set (pr_types (pair_relationships so e l w (Some b))) =
     (if shared (gs_hosts e) (gs_hosts l) \<noteq> [] then {SAME_HOST} else {})
     \<union> (if shared (gs_users e) (gs_users l) \<noteq> [] then {SAME_USER} else {})
     \<union> (if shared (gs_sources e) (gs_sources l) \<noteq> [] then {SAME_SOURCE} else {})
     \<union> (if shared (gs_destinations e) (gs_hosts l) \<noteq> [] then {DESTINATION_RELATION} else {})
     \<union> (if shared (gs_destinations e) (gs_destinations l) \<noteq> [] then {NETWORK_RELATION} else {})
     \<union> (if b then {TEMPORAL} else {}) \<union> set (transition_types so e l)"
  unfolding pair_relationships_def Let_def by simp

lemma pair_types_order [simp]:
  "distinct (pr_types (pair_relationships so e l w b))" "sorted (pr_types (pair_relationships so e l w b))"
  by (simp_all add: pair_relationships_def Let_def)

lemma transition_types_subset: "set (transition_types so e l) \<subseteq> {TECHNIQUE_TRANSITION, TACTIC_TRANSITION}"
  by (auto simp: transition_types_def Let_def)

lemma match_ruleD:
  assumes "match_rule so e l r = Some m"
  shows "m = (r, pair_relationships so e l (rule_window r) (Some True), rule_reason so r e l)"
    and "within_corr_window (gs_first_seen e) (gs_first_seen l) (rule_window r)"
    and "rule_holds r e l" and "meets_minimum (pair_relationships so e l (rule_window r) (Some True))"
  using assms by (auto simp: match_rule_def Let_def rule_matches_def split: if_splits)

lemma in_match_pair:
  "(r, rel, reason) \<in> set (match_pair so e l) \<longleftrightarrow> r \<in> set pair_rules \<and> match_rule so e l r = Some (r, rel, reason)"
proof -
  have "set (List.map_filter f xs) = {y. \<exists>x\<in>set xs. f x = Some y}" for f :: "corr_rule \<Rightarrow> corr_match option" and xs
    by (induction xs) (auto simp: List.map_filter_simps split: option.splits)
  then show ?thesis unfolding match_pair_def using match_ruleD(1) by fastforce
qed

text \<open>The relationship types do not depend on the rule: the window has already held.\<close>

lemma rel_window: "pair_relationships so e l w (Some b) = pair_relationships so e l w' (Some b)"
  by (simp add: pair_relationships_def)

lemma two_types: "2 \<le> length xs \<Longrightarrow> distinct xs \<Longrightarrow> \<exists>x\<in>set xs. x \<noteq> a"
proof -
  assume a: "2 \<le> length xs" "distinct xs"
  then obtain x y ys where "xs = x # y # ys" by (cases xs; cases "tl xs") auto
  then show ?thesis using a(2) by (cases "x = a") auto
qed

text \<open>C25: a pair correlates only on evidence: each match is a rule whose condition holds on
  the pair, inside that rule's window plus one minute of clock drift (or with the groups in
  reverse order), and besides proximity in time the groups share a host, a user, a source or
  a destination, or make a technique transition within one family.  There is no catch-all:
  groups that share none of these never match.\<close>

theorem match_pair_sound:
  assumes "(r, rel, reason) \<in> set (match_pair so e l)"
  shows "rule_holds r e l \<and> r \<noteq> R009
     \<and> gs_first_seen l - gs_first_seen e \<le> minutes (corr_window_minutes (rule_window r)) + seconds 60
     \<and> \<not> (shared (gs_hosts e) (gs_hosts l) = [] \<and> shared (gs_users e) (gs_users l) = []
          \<and> shared (gs_sources e) (gs_sources l) = [] \<and> shared (gs_destinations e) (gs_hosts l) = []
          \<and> shared (gs_destinations e) (gs_destinations l) = [] \<and> transition_types so e l = [])"
proof -
  have m: "match_rule so e l r = Some (r, rel, reason)" using assms in_match_pair by blast
  note D = match_ruleD [OF m]
  have "0 \<le> minutes (corr_window_minutes (rule_window r)) + seconds 60"
    using corr_window_bounds(1) [of "rule_window r"] by (simp add: minutes_def seconds_def)
  then have w: "gs_first_seen l - gs_first_seen e \<le> minutes (corr_window_minutes (rule_window r)) + seconds 60"
    using D(2) by (simp add: within_corr_window_def Let_def split: if_splits)
  let ?types = "pr_types (pair_relationships so e l (rule_window r) (Some True))"
  have "2 \<le> length ?types" using D(4) by (simp add: meets_minimum_def CORRELATION_MIN_RELATIONSHIPS_def)
  then obtain t where t: "t \<in> set ?types" "t \<noteq> TEMPORAL"
    using two_types [of ?types TEMPORAL, OF _ pair_types_order(1)] by blast
  have "r \<noteq> R009" using D(3) by auto
  then show ?thesis using D(3) w t unfolding pair_types_set by auto
qed

lemma match_pair_example:
  "match_pair plain_order e l \<noteq> []"
  if "gs_family e = ''authentication''" "gs_family l = ''execution''" "gs_first_seen e = gs_first_seen l"
    "shared (gs_users e) (gs_users l) \<noteq> []"
proof -
  let ?rel = "pair_relationships plain_order e l (rule_window R001) (Some True)"
  have "SAME_USER \<in> set (pr_types ?rel)" "TEMPORAL \<in> set (pr_types ?rel)" using that(4) by (simp_all add: pair_types_set)
  then have "{SAME_USER, TEMPORAL} \<subseteq> set (pr_types ?rel)" by blast
  then have "card {SAME_USER, TEMPORAL} \<le> card (set (pr_types ?rel))" by (intro card_mono) simp_all
  also have "\<dots> \<le> length (pr_types ?rel)" by (rule card_length)
  finally have "meets_minimum ?rel" by (simp add: meets_minimum_def CORRELATION_MIN_RELATIONSHIPS_def)
  then have "match_rule plain_order e l R001 = Some (R001, ?rel, rule_reason plain_order R001 e l)"
    using that by (simp add: match_rule_def within_corr_window_def Let_def rule_matches_def minutes_def seconds_def
        corr_window_minutes_def CORRELATION_WINDOWS_MINUTES_def)
  moreover have "R001 \<in> set pair_rules" by (simp add: pair_rules_def RULES_def)
  ultimately have "(R001, ?rel, rule_reason plain_order R001 e l) \<in> set (match_pair plain_order e l)"
    by (simp add: in_match_pair)
  then show ?thesis by auto
qed

definition sample_summary :: "string \<Rightarrow> string \<Rightarrow> string \<Rightarrow> string list \<Rightarrow> time \<Rightarrow> group_summary" where
  "sample_summary gid family host techniques t =
     \<lparr>gs_id = gid, gs_family = family, gs_hosts = [host], gs_users = [''alice''], gs_sources = [],
      gs_techniques = techniques, gs_tactics = [], gs_destinations = [], gs_alert_ids = [gid],
      gs_first_seen = t, gs_last_seen = t, gs_severity = ''high'', gs_alert_count = 1,
      gs_occurrence_count = 1\<rparr>"

lemma py_lower_alice [simp]: "py_strip ''alice'' = ''alice''" "py_lower ''alice'' = ''alice''"
  by (simp_all add: py_strip_def is_space_def py_lower_def lower_char_def Let_def)

lemma shared_alice [simp]: "shared [''alice''] [''alice''] = [''alice'']"
  by (simp add: shared_def norm_set_def pyset_def)

theorem match_pair_sound_witness:
  "let e = sample_summary ''BG-1'' ''authentication'' ''h1'' [] 0; l = sample_summary ''BG-2'' ''execution'' ''h2'' [] 0
   in \<exists>r rel reason. (r, rel, reason) \<in> set (match_pair plain_order e l) \<and> rule_holds r e l"
proof -
  let ?e = "sample_summary ''BG-1'' ''authentication'' ''h1'' [] 0"
  let ?l = "sample_summary ''BG-2'' ''execution'' ''h2'' [] 0"
  have "match_pair plain_order ?e ?l \<noteq> []"
    by (rule match_pair_example) (simp_all add: sample_summary_def)
  then have "hd (match_pair plain_order ?e ?l) \<in> set (match_pair plain_order ?e ?l)" by (rule hd_in_set)
  then obtain m where "m \<in> set (match_pair plain_order ?e ?l)" ..
  moreover obtain r rel reason where "m = (r, rel, reason)" by (cases m)
  ultimately have "(r, rel, reason) \<in> set (match_pair plain_order ?e ?l)" by simp
  from match_pair_sound [OF this] this show ?thesis unfolding Let_def by blast
qed

text \<open>Which rules match, and with which relationships, is the same in every process only
  when no transition is claimed from several techniques: two runs whose sets iterate in
  different orders agree as soon as the families differ or both groups have at most one
  technique.\<close>

theorem match_pair_deterministic:
  assumes "fair_order so" "fair_order so'"
    and "gs_family e \<noteq> gs_family l \<or> length (norm_set (gs_techniques e)) \<le> 1 \<and> length (norm_set (gs_techniques l)) \<le> 1"
  shows "map fst (match_pair so e l) = map fst (match_pair so' e l)
     \<and> map (fst \<circ> snd) (match_pair so e l) = map (fst \<circ> snd) (match_pair so' e l)"
proof -
  have one: "so_str s xs = xs" if "fair_order s" "length xs \<le> 1" for s xs
  proof (cases xs)
    case Nil
    then show ?thesis using fair_orderD(3) [OF that(1)] by simp
  next
    case (Cons x ys)
    then have "xs = [x]" using that(2) by simp
    then show ?thesis using fair_orderD(1) [OF that(1), of xs] by (metis mset_single_iff_right)
  qed
  have t: "transition_types so e l = transition_types so' e l"
    using assms(3) one [OF assms(1)] one [OF assms(2)] by (auto simp: transition_types_def Let_def)
  then have rel: "pair_relationships so e l w b = pair_relationships so' e l w b" for w b
    by (simp add: pair_relationships_def)
  have mo: "map_option (\<lambda>(r, rel, _). (r, rel)) (match_rule so e l r) = map_option (\<lambda>(r, rel, _). (r, rel)) (match_rule so' e l r)" for r
    by (simp add: match_rule_def Let_def rel rule_matches_def)
  have "map (\<lambda>(r, rel, _). (r, rel)) (List.map_filter (match_rule so e l) rs)
      = map (\<lambda>(r, rel, _). (r, rel)) (List.map_filter (match_rule so' e l) rs)" for rs
  proof (induction rs)
    case (Cons r rs)
    then show ?case using mo [of r]
      by (cases "match_rule so e l r"; cases "match_rule so' e l r") (auto simp: List.map_filter_simps)
  qed (simp add: List.map_filter_simps)
  then have "map (\<lambda>(r, rel, _). (r, rel)) (match_pair so e l) = map (\<lambda>(r, rel, _). (r, rel)) (match_pair so' e l)"
    by (simp add: match_pair_def)
  then have "map f (map (\<lambda>(r, rel, _). (r, rel)) (match_pair so e l)) = map f (map (\<lambda>(r, rel, _). (r, rel)) (match_pair so' e l))"
    for f :: "corr_rule \<times> pair_rel \<Rightarrow> 'x" by simp
  from this [of fst] this [of snd] show ?thesis by (simp add: comp_def case_prod_beta)
qed

theorem match_pair_deterministic_witness:
  "let e = sample_summary ''BG-1'' ''authentication'' ''h1'' [] 0; l = sample_summary ''BG-2'' ''execution'' ''h2'' [] 0
   in map fst (match_pair \<lparr>so_str = rev, so_key = rev\<rparr> e l) = map fst (match_pair plain_order e l)"
proof -
  let ?e = "sample_summary ''BG-1'' ''authentication'' ''h1'' [] 0"
  let ?l = "sample_summary ''BG-2'' ''execution'' ''h2'' [] 0"
  have "fair_order \<lparr>so_str = rev, so_key = rev\<rparr>" by (simp add: fair_order_def)
  moreover have "gs_family ?e \<noteq> gs_family ?l \<or> length (norm_set (gs_techniques ?e)) \<le> 1 \<and> length (norm_set (gs_techniques ?l)) \<le> 1"
    by (simp add: sample_summary_def)
  ultimately show ?thesis unfolding Let_def using match_pair_deterministic fair_plain by blast
qed


text \<open>Whether two groups correlate at all can depend on the iteration order of a set
  of strings, which differs from one Python process to the next: for two execution groups
  without any shared entity, where the earlier one has two techniques, the pair matches
  rule R003 in one order and matches nothing in the other.\<close>

definition two_techniques :: group_summary where
  "two_techniques = (sample_summary ''BG-1'' ''execution'' ''h1'' [''T1059.001'', ''T1110''] 0)\<lparr>gs_users := []\<rparr>"

definition one_technique :: group_summary where
  "one_technique = (sample_summary ''BG-2'' ''execution'' ''h2'' [''T1110.001''] 0)\<lparr>gs_users := []\<rparr>"

lemma technique_names:
  "norm_set [''T1059.001'', ''T1110''] = [''t1059.001'', ''t1110'']" "norm_set [''T1110.001''] = [''t1110.001'']"
  "norm_set [''h1''] = [''h1'']" "norm_set [''h2''] = [''h2'']" "norm_set [] = []"
  "phase_of ''t1059.001'' = EXECUTION" "phase_of ''t1110'' = CREDENTIAL_ACCESS" "phase_of ''t1110.001'' = CREDENTIAL_ACCESS"
  "phase_of ''T1110.001'' = CREDENTIAL_ACCESS"
  by (simp_all add: norm_set_def pyset_def py_strip_def is_space_def py_lower_def lower_char_def Let_def char_of_def bit_iff_odd
      phase_of_def py_upper_def upper_char_def TECHNIQUE_PHASES_def)

theorem correlation_depends_on_set_order:
  "match_pair plain_order two_techniques one_technique = []
   \<and> (\<exists>so. fair_order so \<and> match_pair so two_techniques one_technique \<noteq> [])"
proof -
  let ?rev = "\<lparr>so_str = rev, so_key = id\<rparr>"
  let ?e = two_techniques and ?l = one_technique
  have sh: "shared (gs_hosts ?e) (gs_hosts ?l) = []" "shared (gs_users ?e) (gs_users ?l) = []"
    "shared (gs_sources ?e) (gs_sources ?l) = []" "shared (gs_destinations ?e) (gs_hosts ?l) = []"
    "shared (gs_destinations ?e) (gs_destinations ?l) = []"
    by (simp_all add: two_techniques_def one_technique_def sample_summary_def shared_def technique_names)
  have te: "gs_techniques ?e = [''T1059.001'', ''T1110'']" "gs_techniques ?l = [''T1110.001'']"
    "gs_family ?e = ''execution''" "gs_family ?l = ''execution''" "gs_first_seen ?e = 0" "gs_first_seen ?l = 0"
    by (simp_all add: two_techniques_def one_technique_def sample_summary_def)
  have t1: "transition_types plain_order ?e ?l = []"
    by (simp add: transition_types_def Let_def te technique_names plain_order_def is_progression_def)
  have t2: "transition_types ?rev ?e ?l = [TECHNIQUE_TRANSITION]"
    by (simp add: transition_types_def Let_def te technique_names)
  have none: "match_pair plain_order ?e ?l = []"
  proof (rule ccontr)
    assume "match_pair plain_order ?e ?l \<noteq> []"
    then have "hd (match_pair plain_order ?e ?l) \<in> set (match_pair plain_order ?e ?l)" by (rule hd_in_set)
    then obtain r rel reason where "(r, rel, reason) \<in> set (match_pair plain_order ?e ?l)" by (metis prod_cases3)
    then have m: "match_rule plain_order ?e ?l r = Some (r, rel, reason)" using in_match_pair by blast
    let ?types = "pr_types (pair_relationships plain_order ?e ?l (rule_window r) (Some True))"
    have "set ?types = {TEMPORAL}" by (simp add: pair_types_set sh t1)
    then have "length ?types = 1" using distinct_card [OF pair_types_order(1), of plain_order ?e ?l "rule_window r" "Some True"] by simp
    then show False using match_ruleD(4) [OF m] by (simp add: meets_minimum_def CORRELATION_MIN_RELATIONSHIPS_def)
  qed
  let ?rel = "pair_relationships ?rev ?e ?l (rule_window R003) (Some True)"
  have "set (pr_types ?rel) = {TEMPORAL, TECHNIQUE_TRANSITION}" by (auto simp: pair_types_set sh t2)
  then have "length (pr_types ?rel) = 2"
    using distinct_card [OF pair_types_order(1), of ?rev ?e ?l "rule_window R003" "Some True"] by simp
  then have "meets_minimum ?rel" by (simp add: meets_minimum_def CORRELATION_MIN_RELATIONSHIPS_def)
  moreover have "primary_phase ?l = CREDENTIAL_ACCESS" by (simp add: primary_phase_def te technique_names pyset_def)
  ultimately have "match_rule ?rev ?e ?l R003 = Some (R003, ?rel, rule_reason ?rev R003 ?e ?l)"
    by (simp add: match_rule_def within_corr_window_def Let_def rule_matches_def te minutes_def seconds_def
        corr_window_minutes_def CORRELATION_WINDOWS_MINUTES_def)
  moreover have "R003 \<in> set pair_rules" by (simp add: pair_rules_def RULES_def)
  ultimately have "(R003, ?rel, rule_reason ?rev R003 ?e ?l) \<in> set (match_pair ?rev ?e ?l)"
    by (simp add: in_match_pair)
  moreover have "fair_order ?rev" by (simp add: fair_order_def)
  ultimately show ?thesis using none by force
qed


section \<open>Edges and types of a pair\<close>

lemma pair_edge_types_set: "set (pair_edge_types ms rel) = set (pr_types rel) \<union> (\<Union>m\<in>set ms. set (rule_emits (fst m)))"
  by (auto simp: pair_edge_types_def)

lemma edges_for_pair_types: "map ce_type (edges_for_pair so e l ms rel) = pair_edge_types ms rel"
  by (simp add: edges_for_pair_def Let_def comp_def)

lemma lateral_edge_iff:
  assumes "ms = match_pair so e l" "ms \<noteq> []"
  shows "LATERAL_MOVEMENT \<in> set (pair_edge_types ms (fst (snd (hd ms)))) \<longleftrightarrow> R004 \<in> set (map fst ms)"
proof -
  have "hd ms \<in> set (match_pair so e l)" using assms by auto
  then obtain r rel reason where h: "hd ms = (r, rel, reason)" "(r, rel, reason) \<in> set (match_pair so e l)"
    by (metis prod_cases3)
  then have "match_rule so e l r = Some (r, rel, reason)" using in_match_pair by blast
  then have rel: "rel = pair_relationships so e l (rule_window r) (Some True)" using match_ruleD(1) by blast
  have "LATERAL_MOVEMENT \<notin> set (pr_types rel)"
    using transition_types_subset [of so e l] unfolding rel pair_types_set by auto
  then have "LATERAL_MOVEMENT \<in> set (pair_edge_types ms rel) \<longleftrightarrow> (\<exists>m\<in>set ms. LATERAL_MOVEMENT \<in> set (rule_emits (fst m)))"
    by (auto simp: pair_edge_types_set)
  also have "\<dots> \<longleftrightarrow> R004 \<in> set (map fst ms)"
  proof -
    have "LATERAL_MOVEMENT \<in> set (rule_emits r) \<longleftrightarrow> r = R004" for r by (cases r) simp_all
    then show ?thesis by force
  qed
  finally show ?thesis using h(1) by simp
qed

lemma resolve_chain_type_valid: "resolve_chain_type ms ts c \<in> set CORRELATION_TYPES"
  by (simp add: resolve_chain_type_def Let_def CORRELATION_TYPES_def)

text \<open>The strongest claim, lateral movement, is made only on evidence: the finding
  created from a pair has type LATERAL_MOVEMENT exactly when rule R004 matched, that is when
  the same user or source acts on a host it shares nothing with, by a lateral-movement
  technique.  Its edges are one per relationship type, in the fixed order, each naming the
  two groups, and its strength is the same for all of them and lies in [0, 1].\<close>

theorem lateral_claim_needs_rule:
  assumes "ms = match_pair so e l" "ms \<noteq> []" "rel = fst (snd (hd ms))" "es = edges_for_pair so e l ms rel"
  shows "(resolve_chain_type [e, l] (map ce_type es) (rule_type (fst (hd ms))) = ''LATERAL_MOVEMENT''
        \<longleftrightarrow> R004 \<in> fst ` set ms)
     \<and> distinct (map ce_type es) \<and> sorted (map ce_type es)
     \<and> (\<forall>d\<in>set es. ce_source d = gs_id e \<and> ce_target d = gs_id l \<and> pe_strength d = edge_strength (so_key so) (map ce_type es))"
proof -
  have types: "map ce_type es = pair_edge_types ms rel" unfolding assms(4) by (rule edges_for_pair_types)
  have lat: "LATERAL_MOVEMENT \<in> set (map ce_type es) \<longleftrightarrow> R004 \<in> fst ` set ms"
    unfolding types assms(3) using lateral_edge_iff [OF assms(1,2)] by simp
  obtain r rl reason where h: "hd ms = (r, rl, reason)" by (metis prod_cases3)
  have hm: "hd ms \<in> set ms" using assms(2) by (rule hd_in_set)
  have "rule_type (fst (hd ms)) = ''LATERAL_MOVEMENT'' \<Longrightarrow> R004 \<in> fst ` set ms"
  proof -
    assume "rule_type (fst (hd ms)) = ''LATERAL_MOVEMENT''"
    then have "r = R004" using h by (cases r) simp_all
    then show "R004 \<in> fst ` set ms" using hm h by force
  qed
  then have "resolve_chain_type [e, l] (map ce_type es) (rule_type (fst (hd ms))) = ''LATERAL_MOVEMENT''
      \<longleftrightarrow> R004 \<in> fst ` set ms"
    using lat by (auto simp: resolve_chain_type_def Let_def)
  moreover have "distinct (map ce_type es)" "sorted (map ce_type es)" by (simp_all add: types pair_edge_types_def)
  moreover have "\<forall>d\<in>set es. ce_source d = gs_id e \<and> ce_target d = gs_id l \<and> pe_strength d = edge_strength (so_key so) (map ce_type es)"
    unfolding types by (auto simp: assms(4) edges_for_pair_def Let_def)
  ultimately show ?thesis by blast
qed

theorem lateral_claim_needs_rule_witness:
  "let e = sample_summary ''BG-1'' ''authentication'' ''h1'' [] 0; l = sample_summary ''BG-2'' ''execution'' ''h2'' [] 0;
       ms = match_pair plain_order e l
   in distinct (map ce_type (edges_for_pair plain_order e l ms (fst (snd (hd ms)))))"
proof -
  let ?e = "sample_summary ''BG-1'' ''authentication'' ''h1'' [] 0"
  let ?l = "sample_summary ''BG-2'' ''execution'' ''h2'' [] 0"
  have "match_pair plain_order ?e ?l \<noteq> []"
    by (rule match_pair_example) (simp_all add: sample_summary_def)
  from lateral_claim_needs_rule [OF refl this refl refl] show ?thesis unfolding Let_def by blast
qed

end
