(* ===== verification/Corr_Candidates.thy ===== *)
theory Corr_Candidates
  imports Corr_Rules
begin

text \<open>
  Candidate generation, \<open>backend/correlation/candidates.py\<close>: groups are put into
  buckets by entity value, and only the pairs inside a bucket are looked at.  The result is
  proved equal to the plain quadratic selection.
\<close>

section \<open>Buckets\<close>

datatype entity_key = HostKey | UserKey | SourceKey

definition ENTITY_KEYS :: "entity_key list" where
  "ENTITY_KEYS = [HostKey, UserKey, SourceKey]"

fun values_of :: "group_summary \<Rightarrow> entity_key \<Rightarrow> string list" where
  "values_of s HostKey = norm_set (gs_hosts s)"
| "values_of s UserKey = norm_set (gs_users s)"
| "values_of s SourceKey = norm_set (gs_sources s)"

type_synonym buckets = "((entity_key \<times> string) \<times> nat list) list"

text \<open>\<open>buckets.setdefault(key, []).append(index)\<close>.\<close>

fun bucket_add :: "(entity_key \<times> string) \<Rightarrow> nat \<Rightarrow> buckets \<Rightarrow> buckets" where
  "bucket_add k i [] = [(k, [i])]"
| "bucket_add k i ((k', is) # bs) = (if k = k' then (k', is @ [i]) # bs else (k', is) # bucket_add k i bs)"

definition summary_keys :: "group_summary \<Rightarrow> (entity_key \<times> string) list" where
  "summary_keys s = concat (map (\<lambda>key. map (Pair key) (values_of s key)) ENTITY_KEYS)"

fun fill_buckets :: "nat \<Rightarrow> group_summary list \<Rightarrow> buckets \<Rightarrow> buckets" where
  "fill_buckets i [] bs = bs"
| "fill_buckets i (s # ss) bs = fill_buckets (Suc i) ss (fold (\<lambda>k. bucket_add k i) (summary_keys s) bs)"

definition candidate_max_delta :: time where
  "candidate_max_delta = minutes (corr_window_minutes ''multi_stage'') + seconds 60"

text \<open>The two inner loops over the positions of one bucket.\<close>

fun bucket_pairs :: "group_summary list \<Rightarrow> nat list \<Rightarrow> (nat \<times> nat) list" where
  "bucket_pairs ss [] = []"
| "bucket_pairs ss (a # is) =
     List.map_filter (\<lambda>b.
        (let (earlier, later) = (if gs_first_seen (ss ! a) \<le> gs_first_seen (ss ! b) then (a, b) else (b, a))
         in if candidate_max_delta < gs_first_seen (ss ! later) - gs_first_seen (ss ! earlier) then None
            else Some (earlier, later))) is
     @ bucket_pairs ss is"

definition pair_key :: "group_summary list \<Rightarrow> nat \<times> nat \<Rightarrow> time \<times> string \<times> time \<times> string" where
  "pair_key ss p = (gs_first_seen (ss ! fst p), gs_id (ss ! fst p), gs_first_seen (ss ! snd p), gs_id (ss ! snd p))"

definition candidate_pairs :: "group_summary list \<Rightarrow> (group_summary \<times> group_summary) list" where
  "candidate_pairs ss =
     (let bs = fill_buckets 0 ss [];
          pairs = remdups (concat (map (\<lambda>(_, is). bucket_pairs ss is) bs))
      in map (\<lambda>(a, b). (ss ! a, ss ! b)) (sort_key (pair_key ss) pairs))"

section \<open>What the buckets hold\<close>

definition in_bucket :: "buckets \<Rightarrow> entity_key \<times> string \<Rightarrow> nat list" where
  "in_bucket bs k = (case map_of bs k of None \<Rightarrow> [] | Some is \<Rightarrow> is)"

lemma in_bucket_Nil [simp]: "in_bucket [] k = []"
  by (simp add: in_bucket_def)

lemma in_bucket_add: "in_bucket (bucket_add k i bs) k' = (if k' = k then in_bucket bs k @ [i] else in_bucket bs k')"
  by (induction k i bs rule: bucket_add.induct) (auto simp: in_bucket_def)

lemma keys_bucket_add: "fst ` set (bucket_add k i bs) = insert k (fst ` set bs)"
  by (induction k i bs rule: bucket_add.induct) auto

lemma distinct_bucket_add: "distinct (map fst bs) \<Longrightarrow> distinct (map fst (bucket_add k i bs))"
  by (induction k i bs rule: bucket_add.induct) (auto simp: keys_bucket_add [simplified image_set [symmetric]] keys_bucket_add)

lemma in_bucket_fold:
  "distinct ks \<Longrightarrow> in_bucket (fold (\<lambda>k. bucket_add k i) ks bs) k = in_bucket bs k @ (if k \<in> set ks then [i] else [])"
  by (induction ks arbitrary: bs) (auto simp: in_bucket_add)

lemma distinct_fold: "distinct (map fst bs) \<Longrightarrow> distinct (map fst (fold (\<lambda>k. bucket_add k i) ks bs))"
  by (induction ks arbitrary: bs) (simp_all add: distinct_bucket_add)

lemma summary_keys_distinct: "distinct (summary_keys s)"
proof -
  have "distinct (values_of s key)" for key by (cases key) simp_all
  then show ?thesis by (auto simp: summary_keys_def ENTITY_KEYS_def distinct_map inj_on_def)
qed

lemma in_bucket_fill:
  "in_bucket (fill_buckets i ss bs) k = in_bucket bs k @ filter (\<lambda>j. k \<in> set (summary_keys (ss ! (j - i)))) [i..<i + length ss]"
proof (induction ss arbitrary: i bs)
  case (Cons s ss)
  have e: "[i..<i + length (s # ss)] = i # [Suc i..<Suc i + length ss]" by (subst upt_conv_Cons) simp_all
  have "filter (\<lambda>j. k \<in> set (summary_keys (ss ! (j - Suc i)))) [Suc i..<Suc i + length ss]
      = filter (\<lambda>j. k \<in> set (summary_keys ((s # ss) ! (j - i)))) [Suc i..<Suc i + length ss]"
    by (rule filter_cong) (auto simp: nth_Cons' Suc_diff_le)
  then show ?case
    unfolding e by (simp add: Cons.IH in_bucket_fold summary_keys_distinct)
qed simp

lemma distinct_fill: "distinct (map fst bs) \<Longrightarrow> distinct (map fst (fill_buckets i ss bs))"
  by (induction ss arbitrary: i bs) (simp_all add: distinct_fold)

lemma bucket_entries: "(k, is) \<in> set (fill_buckets 0 ss []) \<Longrightarrow> is = filter (\<lambda>j. k \<in> set (summary_keys (ss ! j))) [0..<length ss]"
proof -
  assume a: "(k, is) \<in> set (fill_buckets 0 ss [])"
  have "distinct (map fst (fill_buckets 0 ss []))" by (rule distinct_fill) simp
  then have "map_of (fill_buckets 0 ss []) k = Some is" using a by simp
  then show ?thesis using in_bucket_fill [of 0 ss "[]" k] by (simp add: in_bucket_def)
qed

lemma bucket_exists: "j < length ss \<Longrightarrow> k \<in> set (summary_keys (ss ! j)) \<Longrightarrow> \<exists>is. (k, is) \<in> set (fill_buckets 0 ss []) \<and> j \<in> set is"
proof -
  assume "j < length ss" "k \<in> set (summary_keys (ss ! j))"
  then have "j \<in> set (in_bucket (fill_buckets 0 ss []) k)" using in_bucket_fill [of 0 ss "[]" k] by simp
  then obtain "is" where "map_of (fill_buckets 0 ss []) k = Some is" "j \<in> set is"
    by (cases "map_of (fill_buckets 0 ss []) k") (simp_all add: in_bucket_def)
  then show ?thesis using map_of_SomeD [of "fill_buckets 0 ss []" k "is"] by blast
qed

section \<open>The plain selection\<close>

text \<open>Two groups share an entity when they have a normalised host, user or source in common.\<close>

definition shares_entity :: "group_summary \<Rightarrow> group_summary \<Rightarrow> bool" where
  "shares_entity a b \<longleftrightarrow> shared (gs_hosts a) (gs_hosts b) \<noteq> [] \<or> shared (gs_users a) (gs_users b) \<noteq> []
     \<or> shared (gs_sources a) (gs_sources b) \<noteq> []"

definition candidate :: "group_summary list \<Rightarrow> nat \<times> nat \<Rightarrow> bool" where
  "candidate ss p \<longleftrightarrow> shares_entity (ss ! fst p) (ss ! snd p)
     \<and> gs_first_seen (ss ! snd p) - gs_first_seen (ss ! fst p) \<le> candidate_max_delta"

definition plain_candidates :: "group_summary list \<Rightarrow> (group_summary \<times> group_summary) list" where
  "plain_candidates ss = map (\<lambda>(a, b). (ss ! a, ss ! b))
     (sort_key (pair_key ss) (filter (candidate ss)
        [(a, b). a \<leftarrow> [0..<length ss], b \<leftarrow> [Suc a..<length ss]]))"

lemma shares_entity_keys: "shares_entity a b \<longleftrightarrow> (\<exists>k. k \<in> set (summary_keys a) \<and> k \<in> set (summary_keys b))"
proof -
  have s: "shared vs ws \<noteq> [] \<longleftrightarrow> (\<exists>v. v \<in> set (norm_set vs) \<and> v \<in> set (norm_set ws))" for vs ws
    by (auto simp: shared_def filter_empty_conv)
  have k: "(key, v) \<in> set (summary_keys s) \<longleftrightarrow> v \<in> set (values_of s key)" for key v s
    by (cases key) (auto simp: summary_keys_def ENTITY_KEYS_def)
  have e: "(\<exists>key. P key) \<longleftrightarrow> P HostKey \<or> P UserKey \<or> P SourceKey" for P
    using entity_key.exhaust by metis
  show ?thesis
    unfolding shares_entity_def s split_paired_Ex k e values_of.simps by (rule refl)
qed

lemma bucket_pairs_sorted:
  assumes "sorted (map gs_first_seen ss)"
  shows "sorted_wrt (<) is \<Longrightarrow> (\<forall>i\<in>set is. i < length ss) \<Longrightarrow>
    set (bucket_pairs ss is) = {(a, b). a \<in> set is \<and> b \<in> set is \<and> a < b
       \<and> gs_first_seen (ss ! b) - gs_first_seen (ss ! a) \<le> candidate_max_delta}"
proof (induction "is")
  case (Cons a "is")
  have le: "gs_first_seen (ss ! a) \<le> gs_first_seen (ss ! b)" if "b \<in> set is" for b
  proof -
    have "a < b" "b < length ss" using Cons.prems that by simp_all
    then show ?thesis using sorted_nth_mono [OF assms, of a b] by simp
  qed
  let ?f = "\<lambda>b. if candidate_max_delta < gs_first_seen (ss ! b) - gs_first_seen (ss ! a) then None else Some (a, b)"
  have "List.map_filter (\<lambda>b.
        (let (earlier, later) = (if gs_first_seen (ss ! a) \<le> gs_first_seen (ss ! b) then (a, b) else (b, a))
         in if candidate_max_delta < gs_first_seen (ss ! later) - gs_first_seen (ss ! earlier) then None
            else Some (earlier, later))) is = List.map_filter ?f is"
    using le by (induction "is") (simp_all add: List.map_filter_simps)
  moreover have "set (List.map_filter ?f is) = {(a, b) | b. b \<in> set is \<and> gs_first_seen (ss ! b) - gs_first_seen (ss ! a) \<le> candidate_max_delta}"
    by (induction "is") (auto simp: List.map_filter_simps)
  ultimately have "set (bucket_pairs ss (a # is)) =
      {(a, b) | b. b \<in> set is \<and> gs_first_seen (ss ! b) - gs_first_seen (ss ! a) \<le> candidate_max_delta} \<union> set (bucket_pairs ss is)"
    by simp
  then show ?case using Cons by auto
qed simp

lemma distinct_all_pairs: "distinct [(a, b). a \<leftarrow> [0..<n], b \<leftarrow> [Suc a..<n]]"
proof -
  have "distinct [(a, b). a \<leftarrow> as, b \<leftarrow> [Suc a..<n]]" if "distinct as" for as
    using that by (induction as) (auto simp: distinct_map inj_on_def)
  then show ?thesis by simp
qed

definition all_pairs :: "nat \<Rightarrow> (nat \<times> nat) list" where
  "all_pairs n = [(a, b). a \<leftarrow> [0..<n], b \<leftarrow> [Suc a..<n]]"

lemma set_all_pairs: "set (all_pairs n) = {(a, b). a < b \<and> b < n}"
  unfolding all_pairs_def by (force simp: image_iff)

lemma set_found_pairs:
  assumes sorted: "sorted (map gs_first_seen ss)"
  shows "set (concat (map (\<lambda>(_, is). bucket_pairs ss is) (fill_buckets 0 ss []))) =
    {p \<in> set (all_pairs (length ss)). candidate ss p}"
    (is "set ?found = _")
proof (intro set_eqI iffI)
  fix p assume "p \<in> set ?found"
  then obtain k "is" where b: "(k, is) \<in> set (fill_buckets 0 ss [])" "p \<in> set (bucket_pairs ss is)" by auto
  have i: "is = filter (\<lambda>j. k \<in> set (summary_keys (ss ! j))) [0..<length ss]" using bucket_entries [OF b(1)] .
  have "sorted_wrt (<) is" unfolding i by (rule sorted_wrt_filter) simp
  moreover have "\<forall>j\<in>set is. j < length ss" unfolding i by simp
  ultimately have m: "set (bucket_pairs ss is) = {(a, b). a \<in> set is \<and> b \<in> set is \<and> a < b
      \<and> gs_first_seen (ss ! b) - gs_first_seen (ss ! a) \<le> candidate_max_delta}"
    by (rule bucket_pairs_sorted [OF sorted])
  obtain a c where p: "p = (a, c)" by (cases p)
  have ac: "a \<in> set is" "c \<in> set is" "a < c" "gs_first_seen (ss ! c) - gs_first_seen (ss ! a) \<le> candidate_max_delta"
    using b(2) unfolding m p by simp_all
  then have "c < length ss" "k \<in> set (summary_keys (ss ! a))" "k \<in> set (summary_keys (ss ! c))" unfolding i by simp_all
  then have "shares_entity (ss ! a) (ss ! c)" unfolding shares_entity_keys by blast
  with ac(3,4) \<open>c < length ss\<close> show "p \<in> {p \<in> set (all_pairs (length ss)). candidate ss p}"
    unfolding p set_all_pairs candidate_def by simp
next
  fix p assume p: "p \<in> {p \<in> set (all_pairs (length ss)). candidate ss p}"
  obtain a b where ab: "p = (a, b)" by (cases p)
  then have lt: "a < b" "b < length ss" and c: "candidate ss (a, b)" using p set_all_pairs by auto
  then obtain k where k: "k \<in> set (summary_keys (ss ! a))" "k \<in> set (summary_keys (ss ! b))"
    by (auto simp: candidate_def shares_entity_keys)
  then obtain "is" where b: "(k, is) \<in> set (fill_buckets 0 ss [])" using bucket_exists lt by blast
  have i: "is = filter (\<lambda>j. k \<in> set (summary_keys (ss ! j))) [0..<length ss]" using bucket_entries [OF b] .
  have "sorted_wrt (<) is" unfolding i by (rule sorted_wrt_filter) simp
  moreover have "\<forall>j\<in>set is. j < length ss" unfolding i by simp
  moreover have "a \<in> set is" "b \<in> set is" using lt k unfolding i by simp_all
  ultimately have "p \<in> set (bucket_pairs ss is)"
    using bucket_pairs_sorted [OF sorted, of "is"] lt c ab by (simp add: candidate_def)
  moreover have "bucket_pairs ss is \<in> set (map (\<lambda>(_, is). bucket_pairs ss is) (fill_buckets 0 ss []))"
    using b by (simp add: image_iff) (rule bexI [of _ "(k, is)"], simp_all)
  ultimately show "p \<in> set ?found" unfolding set_concat by blast
qed

lemma pair_key_inj: "distinct (map gs_id ss) \<Longrightarrow> inj_on (pair_key ss) (set (all_pairs (length ss)))"
proof (rule inj_onI)
  assume ids: "distinct (map gs_id ss)"
  fix p q assume pq: "p \<in> set (all_pairs (length ss))" "q \<in> set (all_pairs (length ss))" "pair_key ss p = pair_key ss q"
  have "gs_id (ss ! fst p) = gs_id (ss ! fst q)" "gs_id (ss ! snd p) = gs_id (ss ! snd q)"
    using pq(3) by (simp_all add: pair_key_def)
  moreover have "fst p < length ss" "fst q < length ss" "snd p < length ss" "snd q < length ss" using pq(1,2) unfolding set_all_pairs by auto
  ultimately have "fst p = fst q" "snd p = snd q" using ids nth_eq_iff_index_eq [of "map gs_id ss"] by simp_all
  then show "p = q" by (simp add: prod_eq_iff)
qed

text \<open>Candidate generation by buckets is equivalent to looking at all pairs: on summaries
  sorted by first-seen time with distinct ids it returns exactly the pairs that share a
  host, a user or a source and lie at most 121 minutes apart, each once, in the documented
  order.\<close>

theorem candidate_pairs_plain:
  assumes sorted: "sorted (map gs_first_seen ss)" and ids: "distinct (map gs_id ss)"
  shows "candidate_pairs ss = plain_candidates ss"
proof -
  let ?found = "concat (map (\<lambda>(_, is). bucket_pairs ss is) (fill_buckets 0 ss []))"
  have fs: "set (filter (candidate ss) (all_pairs (length ss))) = set (remdups ?found)" unfolding set_remdups set_found_pairs [OF sorted] by (rule set_filter)
  have d: "distinct (filter (candidate ss) (all_pairs (length ss)))" unfolding all_pairs_def using distinct_all_pairs by (rule distinct_filter)
  have m: "mset (filter (candidate ss) (all_pairs (length ss))) = mset (remdups ?found)"
    using set_eq_iff_mset_eq_distinct [OF d distinct_remdups [of ?found]] fs by (rule iffD1)
  have "inj_on (pair_key ss) (set (filter (candidate ss) (all_pairs (length ss))))"
    using pair_key_inj [OF ids] by (rule inj_on_subset) (simp only: set_filter, blast)
  then have "sort_key (pair_key ss) (remdups ?found) = sort_key (pair_key ss) (filter (candidate ss) (all_pairs (length ss)))"
    by (rule sort_key_eq_sort_key [OF m, THEN sym])
  then show ?thesis by (simp add: candidate_pairs_def plain_candidates_def all_pairs_def [symmetric] Let_def)
qed

theorem candidate_pairs_plain_witness:
  "let ss = [sample_summary ''BG-1'' ''execution'' ''h1'' [] 0, sample_summary ''BG-2'' ''execution'' ''h2'' [] 5]
   in candidate_pairs ss = plain_candidates ss"
  unfolding Let_def by (rule candidate_pairs_plain) (simp_all add: sample_summary_def)

end
