(* ===== verification/Corr_Engine.thy ===== *)
theory Corr_Engine
  imports Corr_Rules Group_Engine
begin

text \<open>
  The correlation engine and its tables (\<open>backend/correlation/engine.py\<close>,
  \<open>models.py\<close>, \<open>evidence.py\<close>, \<open>audit.py\<close>, \<open>lifecycle.py\<close>).

  The engine's session runs with \<open>autoflush=False\<close>: a finding that is extended is an
  object of the session whose new values reach its row only at the commit, while the
  \<open>INSERT\<close> statements of a run (findings, members, edges) are executed at once.  The
  model keeps both: \<open>cdb_findings\<close> is what a \<open>SELECT\<close> sees, the list
  \<open>live\<close> of the run holds the objects, and \<open>flush_findings\<close> writes them back.
\<close>

section \<open>Tables\<close>

record finding =
  cf_id :: nat
  cf_correlation_id :: string
  cf_fingerprint :: string
  cf_title :: string
  cf_description :: string
  cf_status :: string
  cf_type :: string
  cf_first_seen :: time
  cf_last_seen :: time
  cf_member_group_ids :: "string list"
  cf_member_alert_ids :: "string list"
  cf_entities :: "string list"
  cf_hosts :: "string list"
  cf_users :: "string list"
  cf_source_ips :: "string list"
  cf_mitre_tactics :: "string list"
  cf_mitre_techniques :: "string list"
  cf_observables :: observables
  cf_confidence :: rat
  cf_highest_severity :: string
  cf_created_at :: time
  cf_updated_at :: time
  cf_closed_at :: "time option"

record corr_member =
  cm_correlation_id :: string
  cm_group_id :: string
  cm_reason :: string
  cm_role :: string
  cm_created_at :: time

record edge_row =
  ed_correlation_id :: string
  ed_edge :: pair_edge
  ed_created_at :: time

record corr_evidence =
  cv_correlation_id :: string
  cv_group_id :: string
  cv_row :: evidence_row
  cv_created_at :: time

datatype detail = DStr string | DInt int | DNum rat | DList "string list"

record corr_audit =
  ca_correlation_id :: string
  ca_action :: string
  ca_actor :: string
  ca_details :: "(string \<times> detail) list"
  ca_created_at :: time

record corr_db =
  cdb_findings :: "finding list"
  cdb_seq :: nat
  cdb_members :: "corr_member list"
  cdb_edges :: "edge_row list"
  cdb_evidence :: "corr_evidence list"
  cdb_audit :: "corr_audit list"

section \<open>Lifecycle\<close>

definition finding_live :: "finding \<Rightarrow> bool" where
  "finding_live f \<longleftrightarrow> cf_status f \<in> {''NEW'', ''ACTIVE'', ''QUIET''}"

definition corr_apply_transition :: "finding \<Rightarrow> string \<Rightarrow> time \<Rightarrow> py_error + (finding \<times> string)" where
  "corr_apply_transition f target now =
     (case corr_transition (cf_status f) target of
        Inl e \<Rightarrow> Inl e
      | Inr action \<Rightarrow>
         let f1 = f\<lparr>cf_status := target, cf_updated_at := now\<rparr> in
         Inr (if target = ''CLOSED'' then f1\<lparr>cf_closed_at := Some now\<rparr> else f1, action))"

definition corr_audit_record ::
  "string \<Rightarrow> string \<Rightarrow> string \<Rightarrow> (string \<times> detail) list \<Rightarrow> time \<Rightarrow> corr_db \<Rightarrow> corr_db" where
  "corr_audit_record cid action actor details now db =
     db\<lparr>cdb_audit := cdb_audit db @ [\<lparr>ca_correlation_id = cid, ca_action = action, ca_actor = actor,
          ca_details = details, ca_created_at = now\<rparr>]\<rparr>"

section \<open>Rows\<close>

definition finding_public_id :: "nat \<Rightarrow> string" where
  "finding_public_id n = ''CF-'' @ fmt06 n"

definition next_correlation_id :: "corr_db \<Rightarrow> string" where
  "next_correlation_id db = finding_public_id (last_id cf_id (cdb_findings db) + 1)"

definition live_finding_for :: "corr_db \<Rightarrow> string \<Rightarrow> finding option" where
  "live_finding_for db fp = List.find (\<lambda>f. cf_fingerprint f = fp \<and> finding_live f) (cdb_findings db)"

text \<open>\<open>INSERT \<dots> ON CONFLICT (fingerprint) WHERE status IN (\<dots>) DO NOTHING\<close>: the
  sequence number is consumed in either case.\<close>

definition insert_finding :: "corr_db \<Rightarrow> finding \<Rightarrow> py_error + corr_db" where
  "insert_finding db f =
     (if \<exists>q\<in>set (cdb_findings db). cf_fingerprint q = cf_fingerprint f \<and> finding_live q
      then Inr (db\<lparr>cdb_seq := Suc (cdb_seq db)\<rparr>)
      else if \<exists>q\<in>set (cdb_findings db). cf_correlation_id q = cf_correlation_id f
      then Inl (IntegrityError ''correlation_id'')
      else Inr (db\<lparr>cdb_findings := cdb_findings db @ [f\<lparr>cf_id := Suc (cdb_seq db)\<rparr>],
                  cdb_seq := Suc (cdb_seq db)\<rparr>))"

definition claim_finding :: "corr_db \<Rightarrow> finding \<Rightarrow> py_error + (corr_db \<times> (finding \<times> bool) option)" where
  "claim_finding db candidate0 =
     (let candidate = candidate0\<lparr>cf_correlation_id := next_correlation_id db\<rparr> in
      map_sum id (\<lambda>db1. (db1, map_option (\<lambda>e. (e, cf_correlation_id e = cf_correlation_id candidate))
                                (live_finding_for db1 (cf_fingerprint candidate))))
        (insert_finding db candidate))"

definition write_member :: "string \<Rightarrow> string \<Rightarrow> string \<Rightarrow> string \<Rightarrow> time \<Rightarrow> corr_db \<Rightarrow> corr_db" where
  "write_member cid gid reason role now db =
     (if \<exists>m\<in>set (cdb_members db). cm_correlation_id m = cid \<and> cm_group_id m = gid then db
      else db\<lparr>cdb_members := cdb_members db @ [\<lparr>cm_correlation_id = cid, cm_group_id = gid,
             cm_reason = reason, cm_role = role, cm_created_at = now\<rparr>]\<rparr>)"

text \<open>The unique key of an edge: the finding, both ends and the relationship type.\<close>

definition edge_key :: "pair_edge \<Rightarrow> corr_edge" where
  "edge_key e = \<lparr>ce_source = ce_source e, ce_target = ce_target e, ce_type = ce_type e\<rparr>"

definition write_edge :: "string \<Rightarrow> time \<Rightarrow> pair_edge \<Rightarrow> corr_db \<Rightarrow> corr_db" where
  "write_edge cid now e db =
     (if \<exists>r\<in>set (cdb_edges db). ed_correlation_id r = cid \<and> edge_key (ed_edge r) = edge_key e then db
      else db\<lparr>cdb_edges := cdb_edges db @ [\<lparr>ed_correlation_id = cid, ed_edge = e, ed_created_at = now\<rparr>]\<rparr>)"

definition write_edges :: "string \<Rightarrow> pair_edge list \<Rightarrow> time \<Rightarrow> corr_db \<Rightarrow> corr_db" where
  "write_edges cid es now db = fold (write_edge cid now) es db"

definition corr_evidence_rows :: "group_summary \<Rightarrow> string \<Rightarrow> string \<Rightarrow> evidence_row list" where
  "corr_evidence_rows s rid reason =
     map (\<lambda>(field, v, why). \<lparr>er_field = field, er_value = v, er_reason = str_or why rid\<rparr>)
       (filter (\<lambda>(field, v, why). v \<noteq> [])
         [(''member_group'', gs_id s, ''member group '' @ gs_id s),
          (''behavior_family'', gs_family s, rid),
          (''host'', join '', '' (gs_hosts s), rid),
          (''user'', join '', '' (gs_users s), rid),
          (''source_ip'', join '', '' (gs_sources s), rid),
          (''mitre_techniques'', join '', '' (gs_techniques s), rid)])
     @ [\<lparr>er_field = ''rule_reason'', er_value = reason, er_reason = rid\<rparr>]"

definition write_evidence ::
  "string \<Rightarrow> group_summary list \<Rightarrow> (string \<times> string) list \<Rightarrow> time \<Rightarrow> corr_db \<Rightarrow> corr_db" where
  "write_evidence cid ss reasons now db =
     db\<lparr>cdb_evidence := cdb_evidence db @ concat (map (\<lambda>s.
          map (\<lambda>r. \<lparr>cv_correlation_id = cid, cv_group_id = gs_id s, cv_row = r, cv_created_at = now\<rparr>)
            (corr_evidence_rows s ''correlation''
              (case map_of reasons (gs_id s) of None \<Rightarrow> ''member of correlation'' | Some r \<Rightarrow> r))) ss)\<rparr>"

section \<open>Aggregates of a finding\<close>

definition finding_description :: "string list \<Rightarrow> corr_match list \<Rightarrow> string" where
  "finding_description member_ids ms =
     ''This correlation links '' @ dec (length member_ids) @ '' behavior group(s): ''
     @ join '', '' member_ids @ ''. '' @ join '' '' (map (\<lambda>(r, _, _). rule_description r) ms)
     @ '' Confidence is a deterministic correlation score, not a risk verdict.''"

definition aggregate_list :: "(group_summary \<Rightarrow> string list) \<Rightarrow> group_summary list \<Rightarrow> string list" where
  "aggregate_list field ms = foldl (\<lambda>vs m. merge_unique vs (field m)) [] ms"

definition member_observables :: "group_summary \<Rightarrow> observables" where
  "member_observables m = [(''hosts'', gs_hosts m), (''users'', gs_users m),
     (''source_ips'', gs_sources m), (''destination_ips'', gs_destinations m)]"

definition finding_observables :: "group_summary list \<Rightarrow> observables" where
  "finding_observables ms = foldl (\<lambda>obs m. merge_observables obs (member_observables m)) [] ms"

text \<open>The columns \<open>_aggregate\<close> computes; \<open>entities\<close> is the list of users.\<close>

definition with_aggregates :: "group_summary list \<Rightarrow> finding \<Rightarrow> finding" where
  "with_aggregates ms f =
     f\<lparr>cf_member_alert_ids := aggregate_list gs_alert_ids ms,
       cf_entities := aggregate_list gs_users ms, cf_hosts := aggregate_list gs_hosts ms,
       cf_users := aggregate_list gs_users ms, cf_source_ips := aggregate_list gs_sources ms,
       cf_mitre_tactics := aggregate_list gs_tactics ms,
       cf_mitre_techniques := aggregate_list gs_techniques ms,
       cf_observables := finding_observables ms\<rparr>"

section \<open>Creating a finding\<close>

definition candidate_finding ::
  "(string \<Rightarrow> string) \<Rightarrow> set_order \<Rightarrow> group_summary \<Rightarrow> group_summary \<Rightarrow> corr_match list \<Rightarrow> time \<Rightarrow> finding" where
  "candidate_finding H so e l ms now =
     (let (rule, rel, _) = hd ms;
          edges = edges_for_pair so e l ms rel;
          types = map ce_type edges;
          ctype = resolve_chain_type [e, l] types (rule_type rule);
          ids = [gs_id e, gs_id l]
      in with_aggregates [e, l]
       \<lparr>cf_id = 0, cf_correlation_id = [],
        cf_fingerprint = finding_fingerprint H ctype ids (map edge_key edges),
        cf_title = title_or ctype ''Related Behavioral Activity'',
        cf_description = finding_description ids ms, cf_status = ''NEW'', cf_type = ctype,
        cf_first_seen = min (gs_first_seen e) (gs_first_seen l),
        cf_last_seen = max (gs_first_seen e) (gs_first_seen l), cf_member_group_ids = ids,
        cf_member_alert_ids = [], cf_entities = [], cf_hosts = [], cf_users = [], cf_source_ips = [],
        cf_mitre_tactics = [], cf_mitre_techniques = [], cf_observables = [],
        cf_confidence = finding_confidence [e, l] types,
        cf_highest_severity = stronger_severity (str_or (gs_severity e) ''low'') (str_or (gs_severity l) ''low''),
        cf_created_at = now, cf_updated_at = now, cf_closed_at = None\<rparr>)"

definition audit_edges :: "string \<Rightarrow> string \<Rightarrow> time \<Rightarrow> pair_edge list \<Rightarrow> corr_db \<Rightarrow> corr_db" where
  "audit_edges cid actor now es db =
     fold (\<lambda>e. corr_audit_record cid ''EDGE_CREATED'' actor
        [(''source_group_id'', DStr (ce_source e)), (''target_group_id'', DStr (ce_target e)),
         (''relationship_type'', DStr (edge_type_name (ce_type e))), (''strength'', DNum (pe_strength e))] now) es db"

definition create_finding ::
  "(string \<Rightarrow> string) \<Rightarrow> set_order \<Rightarrow> corr_db \<Rightarrow> group_summary \<Rightarrow> group_summary \<Rightarrow> corr_match list
   \<Rightarrow> time \<Rightarrow> string \<Rightarrow> py_error + (corr_db \<times> finding option)" where
  "create_finding H so db e l ms now actor =
     (let (rule, rel, reason) = hd ms;
          edges = edges_for_pair so e l ms rel;
          candidate = candidate_finding H so e l ms now
      in case claim_finding db candidate of
           Inl err \<Rightarrow> Inl err
         | Inr (db1, None) \<Rightarrow> Inr (db1, None)
         | Inr (db1, Some (f, created)) \<Rightarrow>
             if \<not> created then Inr (db1, None)
             else (let cid = cf_correlation_id f;
                    db2 = write_member cid (gs_id e) reason ''seed'' now db1;
                    db3 = write_member cid (gs_id l) reason ''member'' now db2;
                    db4 = write_edges cid edges now db3;
                    db5 = write_evidence cid [e, l] [(gs_id e, reason), (gs_id l, reason)] now db4;
                    db6 = corr_audit_record cid ''CORRELATION_CREATED'' actor
                      [(''rule_id'', DStr (rule_id rule)), (''correlation_type'', DStr (cf_type candidate)),
                       (''fingerprint'', DStr (take 16 (cf_fingerprint candidate))),
                       (''member_group_ids'', DList [gs_id e, gs_id l]),
                       (''relationships'', DList (pyset (map (\<lambda>x. edge_type_name (ce_type x)) edges))),
                       (''confidence'', DNum (cf_confidence candidate))] now db5
                  in Inr (audit_edges cid actor now edges db6, Some f)))"

section \<open>Extending a finding\<close>

definition edges_of :: "corr_db \<Rightarrow> string \<Rightarrow> corr_edge list" where
  "edges_of db cid = map (edge_key \<circ> ed_edge) (filter (\<lambda>r. ed_correlation_id r = cid) (cdb_edges db))"

text \<open>\<open>[member_summaries[m] for m in new_members]\<close> raises on an unknown group.\<close>

fun lookup_summaries :: "(string \<times> group_summary) list \<Rightarrow> string list \<Rightarrow> py_error + group_summary list" where
  "lookup_summaries sm [] = Inr []"
| "lookup_summaries sm (m # ms) =
     (case map_of sm m of
        None \<Rightarrow> Inl (KeyError m)
      | Some s \<Rightarrow> map_sum id (\<lambda>ss. s # ss) (lookup_summaries sm ms))"

definition extended_finding ::
  "(string \<Rightarrow> string) \<Rightarrow> group_summary list \<Rightarrow> corr_edge list \<Rightarrow> group_summary \<Rightarrow> group_summary
   \<Rightarrow> corr_match list \<Rightarrow> time \<Rightarrow> finding \<Rightarrow> finding" where
  "extended_finding H ss all_edges tail g ms now f =
     (let types = map ce_type all_edges;
          ctype = resolve_chain_type ss types (cf_type f);
          members = cf_member_group_ids f @ [gs_id g]
      in with_aggregates ss
       (f\<lparr>cf_fingerprint := finding_fingerprint H ctype members all_edges, cf_type := ctype,
          cf_title := title_or ctype (cf_title f), cf_description := finding_description members ms,
          cf_member_group_ids := members,
          cf_first_seen := min (cf_first_seen f) (min (gs_first_seen tail) (gs_first_seen g)),
          cf_last_seen := max (cf_last_seen f) (max (gs_first_seen tail) (gs_first_seen g)),
          cf_confidence := finding_confidence ss types,
          cf_highest_severity := stronger_severity (cf_highest_severity f) (str_or (gs_severity g) ''low''),
          cf_updated_at := now\<rparr>))"

text \<open>None stands for the rejected extension, which is audited.\<close>

definition extend_finding ::
  "(string \<Rightarrow> string) \<Rightarrow> set_order \<Rightarrow> corr_db \<Rightarrow> finding \<Rightarrow> (string \<times> group_summary) list \<Rightarrow> group_summary
   \<Rightarrow> group_summary \<Rightarrow> corr_match list \<Rightarrow> time \<Rightarrow> string \<Rightarrow> py_error + (corr_db \<times> finding option)" where
  "extend_finding H so db f sm tail g ms now actor =
     (let (rule, rel, reason) = hd ms;
          cid = cf_correlation_id f;
          new_edges = edges_for_pair so tail g ms rel;
          all_edges = edges_of db cid @ map edge_key new_edges
      in case lookup_summaries sm (cf_member_group_ids f @ [gs_id g]) of
           Inl e \<Rightarrow> Inl e
         | Inr ss \<Rightarrow>
           (let f1 = extended_finding H ss all_edges tail g ms now f;
                fp = cf_fingerprint f1
            in if fp \<noteq> cf_fingerprint f
                 \<and> (\<exists>q\<in>set (cdb_findings db). cf_fingerprint q = fp \<and> finding_live q \<and> cf_id q \<noteq> cf_id f)
               then Inr (corr_audit_record cid ''CORRELATION_UPDATED'' actor
                 [(''decision'', DStr ''extension rejected''), (''reason'', DStr ''live fingerprint already owned''),
                  (''group_id'', DStr (gs_id g)), (''fingerprint'', DStr (take 16 fp))] now db, None)
               else (let was_quiet = (cf_status f = ''QUIET'') in
                 case (if cf_status f = ''NEW'' \<or> was_quiet
                       then map_sum id fst (corr_apply_transition f1 ''ACTIVE'' now) else Inr f1) of
                   Inl e \<Rightarrow> Inl e
                 | Inr f2 \<Rightarrow>
                   (let db1 = write_member cid (gs_id g) reason ''member'' now db;
                        db2 = write_edges cid new_edges now db1;
                        db3 = write_evidence cid [g] [(gs_id g, reason)] now db2;
                        db4 = corr_audit_record cid ''GROUP_ADDED'' actor
                          [(''group_id'', DStr (gs_id g)), (''rule_id'', DStr (rule_id rule)),
                           (''membership_reason'', DStr reason),
                           (''status'', DStr (if was_quiet then ''reactivated'' else ''extended''))] now db3;
                        db5 = audit_edges cid actor now new_edges db4;
                        db6 = (if was_quiet then corr_audit_record cid ''CORRELATION_UPDATED'' actor
                          [(''decision'', DStr ''quiet finding reactivated''), (''group_id'', DStr (gs_id g))] now db5
                          else db5)
                    in Inr (db6, Some f2)))))"

section \<open>A run\<close>

definition tail_of :: "(string \<times> group_summary) list \<Rightarrow> finding \<Rightarrow> group_summary option" where
  "tail_of sm f = (if cf_member_group_ids f = [] then None
     else let tail_id = List.last (cf_member_group_ids f) in if tail_id = [] then None else map_of sm tail_id)"

text \<open>Step 1: the first live finding whose tail matches takes the group, unless the
  extension is rejected.  The result tells whether the group was handled.\<close>

fun try_extend ::
  "(string \<Rightarrow> string) \<Rightarrow> set_order \<Rightarrow> (string \<times> group_summary) list \<Rightarrow> group_summary \<Rightarrow> time \<Rightarrow> string
   \<Rightarrow> corr_db \<Rightarrow> finding list \<Rightarrow> py_error + (corr_db \<times> finding list \<times> bool)" where
  "try_extend H so sm g now actor db [] = Inr (db, [], False)"
| "try_extend H so sm g now actor db (f # fs) =
     (let skip = (\<lambda>db'. map_sum id (\<lambda>(db'', fs', handled). (db'', f # fs', handled))
                    (try_extend H so sm g now actor db' fs)) in
      case tail_of sm f of
        None \<Rightarrow> skip db
      | Some tail \<Rightarrow>
         (let ms = match_pair so tail g in
          if ms = [] then skip db
          else (case extend_finding H so db f sm tail g ms now actor of
                  Inl e \<Rightarrow> Inl e
                | Inr (db1, None) \<Rightarrow> skip db1
                | Inr (db1, Some f1) \<Rightarrow> Inr (db1, f1 # fs, True))))"

text \<open>Step 2: the first earlier group whose pair matches creates a finding.\<close>

fun try_create ::
  "(string \<Rightarrow> string) \<Rightarrow> set_order \<Rightarrow> group_summary \<Rightarrow> time \<Rightarrow> string \<Rightarrow> corr_db \<Rightarrow> finding list
   \<Rightarrow> group_summary list \<Rightarrow> py_error + (corr_db \<times> finding option)" where
  "try_create H so g now actor db live [] = Inr (db, None)"
| "try_create H so g now actor db live (e # es) =
     (if gs_id e = gs_id g then try_create H so g now actor db live es
      else if gs_first_seen g < gs_first_seen e then Inr (db, None)
      else if \<exists>f\<in>set live. gs_id e \<in> set (cf_member_group_ids f) \<and> gs_id g \<in> set (cf_member_group_ids f)
      then try_create H so g now actor db live es
      else (let ms = match_pair so e g in
            if ms = [] then try_create H so g now actor db live es
            else (case create_finding H so db e g ms now actor of
                    Inl err \<Rightarrow> Inl err
                  | Inr (db1, None) \<Rightarrow> try_create H so g now actor db1 live es
                  | Inr (db1, Some f) \<Rightarrow> Inr (db1, Some f))))"

text \<open>Step 3: a closed finding that would have matched is named in the audit.\<close>

definition note_reopen ::
  "set_order \<Rightarrow> (string \<times> group_summary) list \<Rightarrow> finding list \<Rightarrow> group_summary \<Rightarrow> time \<Rightarrow> string \<Rightarrow> corr_db \<Rightarrow> corr_db" where
  "note_reopen so sm shut g now actor db =
     (case List.find (\<lambda>f. case tail_of sm f of None \<Rightarrow> False | Some tail \<Rightarrow> match_pair so tail g \<noteq> []) shut of
        None \<Rightarrow> db
      | Some f \<Rightarrow> corr_audit_record (cf_correlation_id f) ''CORRELATION_REOPEN_REJECTED'' actor
          [(''group_id'', DStr (gs_id g)), (''decision'', DStr ''closed findings never absorb new groups'')] now db)"

definition correlate_group ::
  "(string \<Rightarrow> string) \<Rightarrow> set_order \<Rightarrow> (string \<times> group_summary) list \<Rightarrow> group_summary list \<Rightarrow> finding list
   \<Rightarrow> time \<Rightarrow> string \<Rightarrow> group_summary \<Rightarrow> corr_db \<times> finding list \<Rightarrow> py_error + (corr_db \<times> finding list)" where
  "correlate_group H so sm groups shut now actor g st =
     (let (db, live) = st in
      if \<exists>f\<in>set live. gs_id g \<in> set (cf_member_group_ids f) then Inr (db, live)
      else (case try_extend H so sm g now actor db live of
              Inl e \<Rightarrow> Inl e
            | Inr (db1, live1, True) \<Rightarrow> Inr (db1, live1)
            | Inr (db1, live1, False) \<Rightarrow>
               (case try_create H so g now actor db1 live1 groups of
                  Inl e \<Rightarrow> Inl e
                | Inr (db2, Some f) \<Rightarrow> Inr (db2, live1 @ [f])
                | Inr (db2, None) \<Rightarrow> Inr (note_reopen so sm shut g now actor db2, live1))))"

fun correlate_groups ::
  "(string \<Rightarrow> string) \<Rightarrow> set_order \<Rightarrow> (string \<times> group_summary) list \<Rightarrow> group_summary list \<Rightarrow> finding list
   \<Rightarrow> time \<Rightarrow> string \<Rightarrow> group_summary list \<Rightarrow> corr_db \<times> finding list \<Rightarrow> py_error + (corr_db \<times> finding list)" where
  "correlate_groups H so sm groups shut now actor [] st = Inr st"
| "correlate_groups H so sm groups shut now actor (g # gs) st =
     (case correlate_group H so sm groups shut now actor g st of
        Inl e \<Rightarrow> Inl e
      | Inr st1 \<Rightarrow> correlate_groups H so sm groups shut now actor gs st1)"

text \<open>The commit writes the objects back, in the order of their ids; the partial unique
  index is checked at every changed row.\<close>

definition flush_finding :: "finding \<Rightarrow> finding list \<Rightarrow> py_error + finding list" where
  "flush_finding f rows =
     (if f \<in> set rows then Inr rows
      else if finding_live f \<and> (\<exists>q\<in>set rows. cf_fingerprint q = cf_fingerprint f \<and> finding_live q \<and> cf_id q \<noteq> cf_id f)
      then Inl (IntegrityError ''uq_correlation_live_fingerprint'')
      else Inr (update_row cf_id (cf_id f) (\<lambda>_. f) rows))"

fun flush_findings :: "finding list \<Rightarrow> finding list \<Rightarrow> py_error + finding list" where
  "flush_findings [] rows = Inr rows"
| "flush_findings (f # fs) rows = (case flush_finding f rows of Inl e \<Rightarrow> Inl e | Inr rows' \<Rightarrow> flush_findings fs rows')"

fun summaries_of :: "alert list \<Rightarrow> group list \<Rightarrow> py_error + group_summary list" where
  "summaries_of alerts [] = Inr []"
| "summaries_of alerts (g # gs) =
     (case summary_of_group alerts g of
        Inl e \<Rightarrow> Inl e
      | Inr s \<Rightarrow> map_sum id (\<lambda>ss. s # ss) (summaries_of alerts gs))"

definition correlate ::
  "engine_config \<Rightarrow> (string \<Rightarrow> string) \<Rightarrow> set_order \<Rightarrow> time \<Rightarrow> alert list \<Rightarrow> group list \<Rightarrow> corr_db
   \<Rightarrow> time option \<Rightarrow> string \<Rightarrow> py_error + (corr_db \<times> finding list)" where
  "correlate cfg H so wall alerts groups db now0 actor =
     (case ensure_not_production_db ''correlation'' cfg of
        Inl e \<Rightarrow> Inl e
      | Inr _ \<Rightarrow>
        (case summaries_of alerts (sort_key (\<lambda>g. (bg_first_seen g, bg_id g)) groups) of
           Inl e \<Rightarrow> Inl e
         | Inr ss \<Rightarrow>
           (case correlate_groups H so (map (\<lambda>s. (gs_id s, s)) ss) ss
                   (filter (\<lambda>f. cf_status f = ''CLOSED'') (cdb_findings db)) (now_or wall now0) actor ss
                   (db, filter finding_live (cdb_findings db)) of
              Inl e \<Rightarrow> Inl e
            | Inr (db1, live) \<Rightarrow>
               map_sum id (\<lambda>rows. (db1\<lparr>cdb_findings := rows\<rparr>, live)) (flush_findings live (cdb_findings db1)))))"

section \<open>Inactivity\<close>

text \<open>The body of the loop: the row afterwards and the audit events.  A finding can be
  quieted and closed in the same pass.\<close>

definition quiet_step :: "finding \<Rightarrow> time \<Rightarrow> string \<Rightarrow> finding \<times> corr_audit list" where
  "quiet_step f now actor =
     (if cf_status f \<in> {''NEW'', ''ACTIVE''} \<and> corr_quiet_cutoff (cf_last_seen f) now CORRELATION_QUIET_AFTER_MINUTES
      then (case corr_apply_transition f ''QUIET'' now of
              Inl _ \<Rightarrow> (f, [])
            | Inr (f', _) \<Rightarrow> (f', [\<lparr>ca_correlation_id = cf_correlation_id f, ca_action = ''CORRELATION_QUIET'',
                 ca_actor = actor, ca_details = [(''inactive_minutes'', DInt CORRELATION_QUIET_AFTER_MINUTES)],
                 ca_created_at = now\<rparr>]))
      else (f, []))"

definition close_step :: "finding \<Rightarrow> time \<Rightarrow> string \<Rightarrow> py_error + (finding \<times> corr_audit list)" where
  "close_step f now actor =
     (if cf_status f = ''QUIET'' \<and> corr_close_cutoff (cf_last_seen f) now CORRELATION_CLOSE_AFTER_MINUTES
      then (case corr_apply_transition f ''CLOSED'' now of
              Inl e \<Rightarrow> Inl e
            | Inr (f', _) \<Rightarrow> Inr (f', [\<lparr>ca_correlation_id = cf_correlation_id f, ca_action = ''CORRELATION_CLOSED'',
                 ca_actor = actor, ca_details = [(''inactive_minutes'', DInt CORRELATION_CLOSE_AFTER_MINUTES)],
                 ca_created_at = now\<rparr>]))
      else Inr (f, []))"

definition expire_finding :: "finding \<Rightarrow> time \<Rightarrow> string \<Rightarrow> py_error + (finding \<times> corr_audit list)" where
  "expire_finding f now actor =
     (let (f1, a1) = quiet_step f now actor in
      map_sum id (\<lambda>(f2, a2). (f2, a1 @ a2)) (close_step f1 now actor))"

fun expire_findings :: "finding list \<Rightarrow> time \<Rightarrow> string \<Rightarrow> py_error + (finding list \<times> corr_audit list \<times> finding list)" where
  "expire_findings [] now actor = Inr ([], [], [])"
| "expire_findings (f # fs) now actor =
     (case expire_finding f now actor of
        Inl e \<Rightarrow> Inl e
      | Inr (f', audits) \<Rightarrow>
         map_sum id (\<lambda>(fs', audits', touched). (f' # fs', audits @ audits', (if audits \<noteq> [] then [f'] else []) @ touched))
           (expire_findings fs now actor))"

definition expire_correlations ::
  "engine_config \<Rightarrow> time \<Rightarrow> corr_db \<Rightarrow> time option \<Rightarrow> string \<Rightarrow> py_error + (corr_db \<times> finding list)" where
  "expire_correlations cfg wall db now0 actor =
     (case ensure_not_production_db ''correlation'' cfg of
        Inl e \<Rightarrow> Inl e
      | Inr _ \<Rightarrow> map_sum id (\<lambda>(fs, audits, touched).
            (db\<lparr>cdb_findings := fs, cdb_audit := cdb_audit db @ audits\<rparr>, touched))
          (expire_findings (cdb_findings db) (now_or wall now0) actor))"

end
