(* ===== verification/Corr_Invariant.thy ===== *)
theory Corr_Invariant
  imports Corr_Engine "HOL-Library.Sublist"
begin

text \<open>
  The invariant of the correlation tables.  During a run the objects of the session run
  ahead of their rows; \<open>run_ok\<close> relates the two and is preserved by every step of the
  loop, \<open>corr_ok\<close> is what holds between runs.
\<close>

section \<open>The contracts the findings implement\<close>

definition corr_step :: "string \<Rightarrow> string \<Rightarrow> string option" where
  "corr_step s t = map_of CORRELATION_TRANSITIONS (s, t)"

definition finding_move :: "finding \<Rightarrow> string \<Rightarrow> time \<Rightarrow> py_error + finding" where
  "finding_move f target now = map_sum id fst (corr_apply_transition f target now)"

lemma corr_step_cases:
  "corr_step s t = Some a \<Longrightarrow> (s, t, a) \<in>
     {(''NEW'', ''ACTIVE'', ''CORRELATION_UPDATED''), (''NEW'', ''QUIET'', ''CORRELATION_QUIET''),
      (''ACTIVE'', ''QUIET'', ''CORRELATION_QUIET''), (''QUIET'', ''ACTIVE'', ''CORRELATION_UPDATED''),
      (''QUIET'', ''CLOSED'', ''CORRELATION_CLOSED''), (''ACTIVE'', ''CLOSED'', ''CORRELATION_CLOSED'')}"
  by (auto simp: corr_step_def CORRELATION_TRANSITIONS_def split: if_splits)

interpretation clc: terminal_lifecycle corr_step CORRELATION_STATUSES "''CLOSED''"
proof unfold_locales
  show "corr_step s t = Some a \<Longrightarrow> t \<in> set CORRELATION_STATUSES" for s t a
    by (drule corr_step_cases) (auto simp: CORRELATION_STATUSES_def)
  show "corr_step ''CLOSED'' t = None" for t
    by (auto simp: corr_step_def CORRELATION_TRANSITIONS_def)
qed

lemma corr_apply_transition_Inr:
  "corr_apply_transition f t now = Inr (f', action) \<longleftrightarrow>
     corr_step (cf_status f) t = Some action \<and>
     f' = f\<lparr>cf_status := t, cf_updated_at := now, cf_closed_at := (if t = ''CLOSED'' then Some now else cf_closed_at f)\<rparr>"
  by (auto simp: corr_apply_transition_def corr_transition_def corr_step_def Let_def split: option.splits)

lemma corr_apply_transition_simps:
  "cf_status f \<in> {''NEW'', ''QUIET''} \<Longrightarrow> corr_apply_transition f ''ACTIVE'' now =
     Inr (f\<lparr>cf_status := ''ACTIVE'', cf_updated_at := now\<rparr>, ''CORRELATION_UPDATED'')"
  "cf_status f \<in> {''NEW'', ''ACTIVE''} \<Longrightarrow> corr_apply_transition f ''QUIET'' now =
     Inr (f\<lparr>cf_status := ''QUIET'', cf_updated_at := now\<rparr>, ''CORRELATION_QUIET'')"
  "cf_status f = ''QUIET'' \<Longrightarrow> corr_apply_transition f ''CLOSED'' now =
     Inr (f\<lparr>cf_status := ''CLOSED'', cf_updated_at := now, cf_closed_at := Some now\<rparr>, ''CORRELATION_CLOSED'')"
  by (auto simp: corr_apply_transition_def corr_transition_def CORRELATION_TRANSITIONS_def Let_def)

interpretation ccl: claimed_rows cf_id "\<lambda>n f. f\<lparr>cf_id := n\<rparr>" cf_fingerprint finding_live finding_move
proof unfold_locales
  show "finding_move r t now = Inr q \<Longrightarrow> cf_id q = cf_id r \<and> cf_fingerprint q = cf_fingerprint r" for r t now q
    by (cases "corr_apply_transition r t now") (auto simp: finding_move_def corr_apply_transition_Inr)
  show "\<not> finding_live r \<Longrightarrow> \<exists>e. finding_move r t now = Inl e" for r t now
    by (auto simp: finding_move_def corr_apply_transition_def corr_transition_def CORRELATION_TRANSITIONS_def finding_live_def)
qed (simp_all add: finding_live_def)

section \<open>The invariant\<close>

definition cf_num :: "finding \<Rightarrow> nat" where
  "cf_num f = dec_val (drop 3 (cf_correlation_id f))"

definition corr_members_of :: "corr_db \<Rightarrow> string \<Rightarrow> string list" where
  "corr_members_of db cid = map cm_group_id (filter (\<lambda>m. cm_correlation_id m = cid) (cdb_members db))"

text \<open>A finding and its children: the stored columns are what the members and the edges in
  the child tables determine.\<close>

definition finding_ok :: "(string \<Rightarrow> string) \<Rightarrow> corr_db \<Rightarrow> finding \<Rightarrow> bool" where
  "finding_ok H db f \<longleftrightarrow>
     cf_status f \<in> set CORRELATION_STATUSES \<and> cf_type f \<in> set CORRELATION_TYPES
     \<and> map_of TYPE_TITLES (cf_type f) = Some (cf_title f)
     \<and> fl (20/100) \<le> cf_confidence f \<and> cf_confidence f \<le> fl (90/100)
     \<and> cf_first_seen f \<le> cf_last_seen f
     \<and> 2 \<le> length (cf_member_group_ids f) \<and> distinct (cf_member_group_ids f)
     \<and> corr_members_of db (cf_correlation_id f) = cf_member_group_ids f
     \<and> (\<forall>e\<in>set (edges_of db (cf_correlation_id f)).
          ce_source e \<in> set (cf_member_group_ids f) \<and> ce_target e \<in> set (cf_member_group_ids f))
     \<and> cf_fingerprint f = finding_fingerprint H (cf_type f) (cf_member_group_ids f) (edges_of db (cf_correlation_id f))"

definition tables_ok :: "corr_db \<Rightarrow> bool" where
  "tables_ok db \<longleftrightarrow>
     ccl.ids_ok (cdb_findings db) (cdb_seq db) \<and> ccl.one_live (cdb_findings db)
     \<and> (\<forall>f\<in>set (cdb_findings db). cf_correlation_id f = finding_public_id (cf_num f) \<and> cf_num f \<le> cf_id f)
     \<and> sorted_wrt (<) (map cf_num (cdb_findings db))
     \<and> cm_correlation_id ` set (cdb_members db) \<subseteq> cf_correlation_id ` set (cdb_findings db)
     \<and> ed_correlation_id ` set (cdb_edges db) \<subseteq> cf_correlation_id ` set (cdb_findings db)"

definition corr_ok :: "(string \<Rightarrow> string) \<Rightarrow> corr_db \<Rightarrow> bool" where
  "corr_ok H db \<longleftrightarrow> tables_ok db \<and> (\<forall>f\<in>set (cdb_findings db). finding_ok H db f)"

definition has_row :: "corr_db \<Rightarrow> finding \<Rightarrow> bool" where
  "has_row db f \<longleftrightarrow> (\<exists>r\<in>set (cdb_findings db). cf_id r = cf_id f \<and> cf_correlation_id r = cf_correlation_id f \<and> finding_live r
     \<and> prefix (cf_member_group_ids r) (cf_member_group_ids f))"

definition run_ok :: "(string \<Rightarrow> string) \<Rightarrow> corr_db \<Rightarrow> finding list \<Rightarrow> bool" where
  "run_ok H db live \<longleftrightarrow> tables_ok db \<and> distinct (map cf_id live)
     \<and> (\<forall>f\<in>set live. finding_live f \<and> finding_ok H db f \<and> has_row db f)
     \<and> (\<forall>r\<in>set (cdb_findings db). cf_id r \<notin> cf_id ` set live \<longrightarrow> \<not> finding_live r \<and> finding_ok H db r)"

lemma tables_okD:
  assumes "tables_ok db"
  shows "ccl.ids_ok (cdb_findings db) (cdb_seq db)" "ccl.one_live (cdb_findings db)"
    "f \<in> set (cdb_findings db) \<Longrightarrow> cf_correlation_id f = finding_public_id (cf_num f)"
    "f \<in> set (cdb_findings db) \<Longrightarrow> cf_num f \<le> cf_id f"
    "sorted_wrt (<) (map cf_num (cdb_findings db))"
    "m \<in> set (cdb_members db) \<Longrightarrow> cm_correlation_id m \<in> cf_correlation_id ` set (cdb_findings db)"
    "r \<in> set (cdb_edges db) \<Longrightarrow> ed_correlation_id r \<in> cf_correlation_id ` set (cdb_findings db)"
  using assms unfolding tables_ok_def by blast+

lemma run_okD:
  assumes "run_ok H db live"
  shows "tables_ok db" "distinct (map cf_id live)"
    "f \<in> set live \<Longrightarrow> finding_live f" "f \<in> set live \<Longrightarrow> finding_ok H db f" "f \<in> set live \<Longrightarrow> has_row db f"
    "r \<in> set (cdb_findings db) \<Longrightarrow> cf_id r \<notin> cf_id ` set live \<Longrightarrow> \<not> finding_live r"
    "r \<in> set (cdb_findings db) \<Longrightarrow> cf_id r \<notin> cf_id ` set live \<Longrightarrow> finding_ok H db r"
  using assms unfolding run_ok_def by blast+

lemma finding_public_id_num [simp]: "dec_val (drop 3 (finding_public_id n)) = n"
  by (simp add: finding_public_id_def)

lemma finding_public_id_inj [simp]: "finding_public_id m = finding_public_id n \<longleftrightarrow> m = n"
  by (metis finding_public_id_num)

lemma cf_num_inj:
  assumes ok: "tables_ok db" and f: "f \<in> set (cdb_findings db)" "g \<in> set (cdb_findings db)"
  shows "cf_correlation_id f = cf_correlation_id g \<longleftrightarrow> f = g"
proof
  assume "cf_correlation_id f = cf_correlation_id g"
  then have "cf_num f = cf_num g" by (simp add: cf_num_def)
  moreover have "distinct (map cf_num (cdb_findings db))"
    using tables_okD(5) [OF ok] by (simp add: strict_sorted_iff)
  ultimately show "f = g" using distinct_map_inj f by metis
qed simp

text \<open>Ids and public ids of the objects of a run agree, as they do in the table.\<close>

lemma live_ids:
  assumes ok: "run_ok H db live" and f: "f \<in> set live" "g \<in> set live"
  shows "cf_correlation_id f = cf_correlation_id g \<longleftrightarrow> f = g"
proof
  assume c: "cf_correlation_id f = cf_correlation_id g"
  obtain r q where r: "r \<in> set (cdb_findings db)" "cf_id r = cf_id f" "cf_correlation_id r = cf_correlation_id f"
    and q: "q \<in> set (cdb_findings db)" "cf_id q = cf_id g" "cf_correlation_id q = cf_correlation_id g"
    using run_okD(5) [OF ok f(1)] run_okD(5) [OF ok f(2)] unfolding has_row_def by blast
  have "r = q" using cf_num_inj [OF run_okD(1) [OF ok] r(1) q(1)] c r(3) q(3) by simp
  then have "cf_id f = cf_id g" using r(2) q(2) by simp
  then show "f = g" using distinct_map_inj [OF run_okD(2) [OF ok]] f by blast
qed simp

section \<open>What only notes\<close>

text \<open>Audit events, evidence and a consumed sequence number leave the findings, the members
  and the edges as they are.\<close>

definition only_notes :: "corr_db \<Rightarrow> corr_db \<Rightarrow> bool" where
  "only_notes db db' \<longleftrightarrow> cdb_findings db' = cdb_findings db \<and> cdb_members db' = cdb_members db
     \<and> cdb_edges db' = cdb_edges db \<and> cdb_seq db \<le> cdb_seq db'"

named_theorems noting "steps that only note"

lemma only_notes_refl [noting]: "only_notes db db"
  by (simp add: only_notes_def)

lemma only_notes_trans: "only_notes db1 db2 \<Longrightarrow> only_notes db2 db3 \<Longrightarrow> only_notes db1 db3"
  by (auto simp: only_notes_def)

lemma only_notes_audit [noting]: "only_notes db (corr_audit_record cid action actor details now db)"
  by (simp add: only_notes_def corr_audit_record_def)

lemma only_notes_evidence [noting]: "only_notes db (write_evidence cid ss rs now db)"
  by (simp add: only_notes_def write_evidence_def)

lemma only_notes_audit_edges [noting]: "only_notes db (audit_edges cid actor now es db)"
proof (induction es arbitrary: db)
  case (Cons e es)
  then show ?case unfolding audit_edges_def fold.simps comp_def
    by (rule only_notes_trans [OF only_notes_audit, rotated])
qed (simp add: audit_edges_def noting)

lemma only_notes_reopen [noting]: "only_notes db (note_reopen so sm shut g now actor db)"
  by (auto simp: note_reopen_def noting split: option.splits)

lemma only_notes_children:
  assumes "only_notes db db'"
  shows "corr_members_of db' = corr_members_of db" "edges_of db' = edges_of db"
    "cdb_findings db' = cdb_findings db" "finding_ok H db' = finding_ok H db"
    "has_row db' = has_row db"
  using assms by (auto simp: only_notes_def corr_members_of_def edges_of_def finding_ok_def has_row_def fun_eq_iff)

lemma only_notes_tables: "only_notes db db' \<Longrightarrow> tables_ok db \<Longrightarrow> tables_ok db'"
  unfolding only_notes_def tables_ok_def using ccl.ids_ok_seq by (elim conjE, intro conjI) (simp_all only:)

lemma only_notes_run:
  assumes "only_notes db db'" "run_ok H db live" shows "run_ok H db' live"
  using only_notes_tables [OF assms(1)] assms(2) unfolding run_ok_def only_notes_children [OF assms(1)] by blast

section \<open>The child tables\<close>

lemma write_member_simps [simp]:
  "cdb_findings (write_member c g r l now db) = cdb_findings db" "cdb_seq (write_member c g r l now db) = cdb_seq db"
  "cdb_edges (write_member c g r l now db) = cdb_edges db" "edges_of (write_member c g r l now db) = edges_of db"
  by (simp_all add: write_member_def edges_of_def fun_eq_iff)

lemma members_write_member:
  "corr_members_of (write_member c g r l now db) c' =
     (if c' = c \<and> g \<notin> set (corr_members_of db c) then corr_members_of db c @ [g] else corr_members_of db c')"
  by (auto simp: write_member_def corr_members_of_def)

lemma member_ids_write_member:
  "cm_correlation_id ` set (cdb_members (write_member c g r l now db)) \<subseteq> insert c (cm_correlation_id ` set (cdb_members db))"
  by (auto simp: write_member_def)

lemma write_edges_simps [simp]:
  "cdb_findings (write_edges c es now db) = cdb_findings db" "cdb_seq (write_edges c es now db) = cdb_seq db"
  "cdb_members (write_edges c es now db) = cdb_members db"
  "corr_members_of (write_edges c es now db) = corr_members_of db"
proof -
  have "cdb_findings (write_edges c es now db) = cdb_findings db \<and> cdb_seq (write_edges c es now db) = cdb_seq db
      \<and> cdb_members (write_edges c es now db) = cdb_members db"
    by (induction es arbitrary: db) (simp_all add: write_edges_def write_edge_def)
  then show "cdb_findings (write_edges c es now db) = cdb_findings db" "cdb_seq (write_edges c es now db) = cdb_seq db"
    "cdb_members (write_edges c es now db) = cdb_members db"
    "corr_members_of (write_edges c es now db) = corr_members_of db"
    by (simp_all add: corr_members_of_def fun_eq_iff)
qed

lemma edges_write_edge:
  "edges_of (write_edge c now e db) c' =
     (if c' = c \<and> edge_key e \<notin> set (edges_of db c) then edges_of db c @ [edge_key e] else edges_of db c')"
proof -
  have "edge_key e \<in> set (edges_of db c) \<longleftrightarrow>
      (\<exists>r\<in>set (cdb_edges db). ed_correlation_id r = c \<and> edge_key (ed_edge r) = edge_key e)"
    unfolding edges_of_def by force
  then show ?thesis unfolding write_edge_def by (simp add: edges_of_def)
qed

text \<open>Fresh and distinct edges are all appended.\<close>

lemma edges_write_edges:
  "distinct (map edge_key es) \<Longrightarrow> set (map edge_key es) \<inter> set (edges_of db c) = {} \<Longrightarrow>
   edges_of (write_edges c es now db) c' = (if c' = c then edges_of db c @ map edge_key es else edges_of db c')"
proof (induction es arbitrary: db)
  case (Cons e es)
  let ?db = "write_edge c now e db"
  have f: "edge_key e \<notin> set (edges_of db c)" using Cons.prems(2) by auto
  then have e: "edges_of ?db c = edges_of db c @ [edge_key e]" "c' \<noteq> c \<Longrightarrow> edges_of ?db c' = edges_of db c'"
    by (simp_all add: edges_write_edge)
  have "distinct (map edge_key es)" using Cons.prems(1) by simp
  moreover have "set (map edge_key es) \<inter> set (edges_of ?db c) = {}" using Cons.prems unfolding e(1) by auto
  ultimately have "edges_of (write_edges c es now ?db) c' = (if c' = c then edges_of ?db c @ map edge_key es else edges_of ?db c')"
    by (rule Cons.IH)
  then show ?case using e by (simp add: write_edges_def)
qed (simp add: write_edges_def)

lemma edge_ids_write_edges:
  "ed_correlation_id ` set (cdb_edges (write_edges c es now db)) \<subseteq> insert c (ed_correlation_id ` set (cdb_edges db))"
proof (induction es arbitrary: db)
  case (Cons e es)
  have "ed_correlation_id ` set (cdb_edges (write_edge c now e db)) \<subseteq> insert c (ed_correlation_id ` set (cdb_edges db))"
    by (auto simp: write_edge_def)
  then have "insert c (ed_correlation_id ` set (cdb_edges (write_edge c now e db))) \<subseteq> insert c (ed_correlation_id ` set (cdb_edges db))"
    by (rule insert_mono [THEN order.trans]) simp
  then show ?case using Cons.IH [of "write_edge c now e db"] unfolding write_edges_def fold.simps comp_def
    by (rule order.trans [rotated])
qed (auto simp: write_edges_def)

section \<open>The columns of a new and of an extended finding\<close>

lemma with_aggregates_simps [simp]:
  "cf_id (with_aggregates ss f) = cf_id f" "cf_correlation_id (with_aggregates ss f) = cf_correlation_id f"
  "cf_fingerprint (with_aggregates ss f) = cf_fingerprint f" "cf_title (with_aggregates ss f) = cf_title f"
  "cf_status (with_aggregates ss f) = cf_status f" "cf_type (with_aggregates ss f) = cf_type f"
  "cf_first_seen (with_aggregates ss f) = cf_first_seen f" "cf_last_seen (with_aggregates ss f) = cf_last_seen f"
  "cf_member_group_ids (with_aggregates ss f) = cf_member_group_ids f"
  "cf_confidence (with_aggregates ss f) = cf_confidence f"
  "cf_closed_at (with_aggregates ss f) = cf_closed_at f" "finding_live (with_aggregates ss f) = finding_live f"
  by (simp_all add: with_aggregates_def finding_live_def)

lemma title_or_valid: "c \<in> set CORRELATION_TYPES \<Longrightarrow> map_of TYPE_TITLES c = Some (title_or c d)"
  by (auto simp: CORRELATION_TYPES_def TYPE_TITLES_def title_or_def)

lemma confidence_bounds:
  "fl (20/100) \<le> finding_confidence ms ts" "finding_confidence ms ts \<le> fl (90/100)"
proof -
  have "fl (20/100) \<le> corr_confidence t n p l \<and> corr_confidence t n p l \<le> fl (90/100)" for t n p l
    using corr_confidence_range [of t n p l] by blast
  then show "fl (20/100) \<le> finding_confidence ms ts" "finding_confidence ms ts \<le> fl (90/100)"
    by (simp_all add: finding_confidence_def)
qed

lemma edges_for_pair_keys:
  "map edge_key (edges_for_pair so e l ms rel) =
     map (\<lambda>t. \<lparr>ce_source = gs_id e, ce_target = gs_id l, ce_type = t\<rparr>) (pair_edge_types ms rel)"
  by (simp add: edges_for_pair_def edge_key_def Let_def comp_def)

lemma edges_for_pair_distinct: "distinct (map edge_key (edges_for_pair so e l ms rel))"
  unfolding edges_for_pair_keys by (simp add: distinct_map inj_on_def pair_edge_types_def)

end
