(* ===== verification/Corr_Run.thy ===== *)
theory Corr_Run
  imports Corr_Invariant
begin

text \<open>
  Every step of a correlation run preserves the invariant of the tables: attaching a group
  to a finding, creating a finding, the loops over findings and groups, and the commit.
\<close>

section \<open>Replacing and adding an object\<close>

lemma finding_ok_cong:
  "corr_members_of db' (cf_correlation_id f) = corr_members_of db (cf_correlation_id f) \<Longrightarrow>
   edges_of db' (cf_correlation_id f) = edges_of db (cf_correlation_id f) \<Longrightarrow> finding_ok H db' f = finding_ok H db f"
  by (simp add: finding_ok_def)

lemma run_ok_replace:
  assumes ok: "run_ok H db (ls @ f # rs)" and t: "tables_ok db2" and rows: "cdb_findings db2 = cdb_findings db"
    and same: "\<And>c. c \<noteq> cf_correlation_id f \<Longrightarrow> corr_members_of db2 c = corr_members_of db c \<and> edges_of db2 c = edges_of db c"
    and f': "cf_id f' = cf_id f" "cf_correlation_id f' = cf_correlation_id f" "finding_live f'" "finding_ok H db2 f'"
      "prefix (cf_member_group_ids f) (cf_member_group_ids f')"
  shows "run_ok H db2 (ls @ f' # rs)"
proof -
  have fin: "f \<in> set (ls @ f # rs)" by simp
  have d: "distinct (map cf_id (ls @ f # rs))" using run_okD(2) [OF ok] .
  have hr: "has_row db2 x = has_row db x" for x by (simp add: has_row_def rows)
  obtain r0 where r0: "r0 \<in> set (cdb_findings db)" "cf_id r0 = cf_id f" "cf_correlation_id r0 = cf_correlation_id f"
    using run_okD(5) [OF ok fin] unfolding has_row_def by blast
  have others: "finding_live x \<and> finding_ok H db2 x \<and> has_row db2 x" if x: "x \<in> set ls \<union> set rs" for x
  proof -
    have xin: "x \<in> set (ls @ f # rs)" using x by auto
    have "x \<noteq> f" using d x by auto
    then have "cf_correlation_id x \<noteq> cf_correlation_id f" using live_ids [OF ok xin fin] by simp
    then have "finding_ok H db2 x = finding_ok H db x" using same by (intro finding_ok_cong) simp_all
    then show ?thesis using run_okD(3-5) [OF ok xin] hr by simp
  qed
  have dead: "\<not> finding_live r \<and> finding_ok H db2 r"
    if r: "r \<in> set (cdb_findings db)" "cf_id r \<notin> cf_id ` set (ls @ f # rs)" for r
  proof -
    have "cf_correlation_id r \<noteq> cf_correlation_id f"
    proof
      assume "cf_correlation_id r = cf_correlation_id f"
      then have "r = r0" using cf_num_inj [OF run_okD(1) [OF ok] r(1) r0(1)] r0(3) by simp
      then show False using r(2) r0(2) by auto
    qed
    then have "finding_ok H db2 r = finding_ok H db r" using same by (intro finding_ok_cong) simp_all
    then show ?thesis using run_okD(6,7) [OF ok r] by simp
  qed
  have hf: "has_row db2 f'" using run_okD(5) [OF ok fin] prefix_order.trans [OF _ f'(5)]
    unfolding hr unfolding has_row_def f'(1,2) by blast
  have ids: "cf_id ` set (ls @ f' # rs) = cf_id ` set (ls @ f # rs)" by (simp add: f'(1))
  show ?thesis
    unfolding run_ok_def
  proof (intro conjI ballI impI)
    show "distinct (map cf_id (ls @ f' # rs))" using d by (simp add: f'(1))
    fix x assume "x \<in> set (ls @ f' # rs)"
    then consider "x = f'" | "x \<in> set ls \<union> set rs" by auto
    then have "finding_live x \<and> finding_ok H db2 x \<and> has_row db2 x"
      by cases (use f' hf others in simp_all)
    then show "finding_live x" "finding_ok H db2 x" "has_row db2 x" by blast+
  next
    fix r assume "r \<in> set (cdb_findings db2)" "cf_id r \<notin> cf_id ` set (ls @ f' # rs)"
    then have "\<not> finding_live r \<and> finding_ok H db2 r" unfolding ids rows by (rule dead)
    then show "\<not> finding_live r" "finding_ok H db2 r" by blast+
  qed (rule t)
qed

lemma run_ok_add:
  assumes ok: "run_ok H db live" and t: "tables_ok db2" and rows: "cdb_findings db2 = cdb_findings db @ [f]"
    and same: "\<And>c. c \<in> cf_correlation_id ` set (cdb_findings db) \<Longrightarrow> corr_members_of db2 c = corr_members_of db c \<and> edges_of db2 c = edges_of db c"
    and f: "finding_live f" "finding_ok H db2 f" "cf_id f \<notin> cf_id ` set (cdb_findings db)"
  shows "run_ok H db2 (live @ [f])"
proof -
  have live_rows: "\<exists>r\<in>set (cdb_findings db). cf_id r = cf_id x \<and> cf_correlation_id r = cf_correlation_id x" if "x \<in> set live" for x
    using run_okD(5) [OF ok that] unfolding has_row_def by blast
  have kept: "finding_ok H db2 x = finding_ok H db x" if "cf_correlation_id x \<in> cf_correlation_id ` set (cdb_findings db)" for x
    using same [OF that] by (intro finding_ok_cong) simp_all
  show ?thesis
    unfolding run_ok_def
  proof (intro conjI ballI impI)
    have "cf_id f \<notin> cf_id ` set live" using f(3) live_rows by (metis (no_types, lifting) image_iff)
    then show "distinct (map cf_id (live @ [f]))" using run_okD(2) [OF ok] by simp
    fix x assume x: "x \<in> set (live @ [f])"
    have "has_row db2 f" using f(1) by (auto simp: has_row_def rows)
    moreover have "finding_live x \<and> finding_ok H db2 x \<and> has_row db2 x" if x: "x \<in> set live"
    proof -
      have "cf_correlation_id x \<in> cf_correlation_id ` set (cdb_findings db)" using live_rows [OF x] by (metis imageI)
      moreover have "has_row db2 x" using run_okD(5) [OF ok x] unfolding has_row_def rows by auto
      ultimately show ?thesis using run_okD(3,4) [OF ok x] kept by simp
    qed
    ultimately have "finding_live x \<and> finding_ok H db2 x \<and> has_row db2 x" using x f(1,2) by auto
    then show "finding_live x" "finding_ok H db2 x" "has_row db2 x" by blast+
  next
    fix r assume r: "r \<in> set (cdb_findings db2)" "cf_id r \<notin> cf_id ` set (live @ [f])"
    then have "r \<in> set (cdb_findings db)" "cf_id r \<notin> cf_id ` set live" by (auto simp: rows)
    then have "\<not> finding_live r \<and> finding_ok H db2 r" using run_okD(6,7) [OF ok] kept [of r] by simp
    then show "\<not> finding_live r" "finding_ok H db2 r" by blast+
  qed (rule t)
qed

lemma tables_ok_children:
  assumes "tables_ok db" "cdb_findings db2 = cdb_findings db" "cdb_seq db2 = cdb_seq db"
    and "cm_correlation_id ` set (cdb_members db2) \<subseteq> insert c (cm_correlation_id ` set (cdb_members db))"
    and "ed_correlation_id ` set (cdb_edges db2) \<subseteq> insert c (ed_correlation_id ` set (cdb_edges db))"
    and "c \<in> cf_correlation_id ` set (cdb_findings db)"
  shows "tables_ok db2"
proof -
  let ?C = "cf_correlation_id ` set (cdb_findings db)"
  have old1: "cm_correlation_id ` set (cdb_members db) \<subseteq> ?C" using assms(1) unfolding tables_ok_def by (elim conjE)
  have old2: "ed_correlation_id ` set (cdb_edges db) \<subseteq> ?C" using assms(1) unfolding tables_ok_def by (elim conjE)
  have m: "cm_correlation_id ` set (cdb_members db2) \<subseteq> ?C"
    using assms(4) by (rule order.trans) (simp only: insert_subset assms(6) old1 simp_thms)
  have e: "ed_correlation_id ` set (cdb_edges db2) \<subseteq> ?C"
    using assms(5) by (rule order.trans) (simp only: insert_subset assms(6) old2 simp_thms)
  show ?thesis using assms(1) m e unfolding tables_ok_def assms(2,3) by (elim conjE, intro conjI)
qed

section \<open>Extending a finding\<close>

lemma finding_same: "f\<lparr>cf_status := cf_status f, cf_updated_at := cf_updated_at f\<rparr> = f" for f :: finding
  by simp

lemma only_notes_chain:
  "only_notes db (if b then corr_audit_record c1 a1 x1 d1 n1 (audit_edges c2 x2 n2 es (corr_audit_record c3 a3 x3 d3 n3
     (write_evidence c4 ss rs n4 db))) else audit_edges c2 x2 n2 es (corr_audit_record c3 a3 x3 d3 n3 (write_evidence c4 ss rs n4 db)))"
proof -
  have "only_notes db (audit_edges c2 x2 n2 es (corr_audit_record c3 a3 x3 d3 n3 (write_evidence c4 ss rs n4 db)))"
    by (rule only_notes_trans [OF only_notes_trans [OF only_notes_evidence only_notes_audit] only_notes_audit_edges])
  then show ?thesis using only_notes_trans [OF _ only_notes_audit] by simp
qed

lemma extend_finding_InrD:
  assumes "extend_finding H so db f sm tail g ms now actor = Inr (db', r)"
  obtains (rejected) "r = None" "only_notes db db'"
  | (extended) rule rel reason ss f1 f2 where "hd ms = (rule, rel, reason)"
      "f1 = extended_finding H ss (edges_of db (cf_correlation_id f) @ map edge_key (edges_for_pair so tail g ms rel)) tail g ms now f"
      "r = Some f2"
      "f2 = f1\<lparr>cf_status := (if cf_status f \<in> {''NEW'', ''QUIET''} then ''ACTIVE'' else cf_status f), cf_updated_at := now\<rparr>"
      "only_notes (write_edges (cf_correlation_id f) (edges_for_pair so tail g ms rel) now
          (write_member (cf_correlation_id f) (gs_id g) reason ''member'' now db)) db'"
      "lookup_summaries sm (cf_member_group_ids f @ [gs_id g]) = Inr ss"
proof -
  obtain rule rel reason where h: "hd ms = (rule, rel, reason)" by (metis prod_cases3)
  let ?cid = "cf_correlation_id f"
  let ?new = "edges_for_pair so tail g ms rel"
  let ?f1 = "\<lambda>ss. extended_finding H ss (edges_of db ?cid @ map edge_key ?new) tail g ms now f"
  obtain ss where ss: "lookup_summaries sm (cf_member_group_ids f @ [gs_id g]) = Inr ss"
    using assms by (cases "lookup_summaries sm (cf_member_group_ids f @ [gs_id g])") (simp_all add: extend_finding_def h Let_def)
  have st: "cf_status (?f1 ss) = cf_status f" "cf_updated_at (?f1 ss) = now"
    by (simp_all add: extended_finding_def Let_def with_aggregates_def)
  note u = assms [unfolded extend_finding_def h Let_def prod.case ss sum.case]
  let ?conflict = "cf_fingerprint (?f1 ss) \<noteq> cf_fingerprint f
     \<and> (\<exists>q\<in>set (cdb_findings db). cf_fingerprint q = cf_fingerprint (?f1 ss) \<and> finding_live q \<and> cf_id q \<noteq> cf_id f)"
  show thesis
  proof (cases ?conflict)
    case True
    then have "r = None" "db' = corr_audit_record ?cid ''CORRELATION_UPDATED'' actor
                 [(''decision'', DStr ''extension rejected''), (''reason'', DStr ''live fingerprint already owned''),
                  (''group_id'', DStr (gs_id g)), (''fingerprint'', DStr (take 16 (cf_fingerprint (?f1 ss))))] now db"
      using u unfolding if_P [OF True] by simp_all
    then show thesis using rejected noting by simp
  next
    case False
    let ?f2 = "(?f1 ss)\<lparr>cf_status := (if cf_status f \<in> {''NEW'', ''QUIET''} then ''ACTIVE'' else cf_status f), cf_updated_at := now\<rparr>"
    have tr: "(if cf_status f = ''NEW'' \<or> cf_status f = ''QUIET''
          then map_sum id fst (corr_apply_transition (?f1 ss) ''ACTIVE'' now) else Inr (?f1 ss)) = Inr ?f2"
    proof (cases "cf_status f \<in> {''NEW'', ''QUIET''}")
      case True
      then show ?thesis using corr_apply_transition_simps(1) [of "?f1 ss" now] st(1) by auto
    next
      case False
      then show ?thesis using finding_same [of "?f1 ss"] unfolding st by (simp only: insert_iff empty_iff if_False simp_thms)
    qed
    note v = u [unfolded if_not_P [OF False] tr sum.case]
    have "only_notes (write_edges ?cid ?new now (write_member ?cid (gs_id g) reason ''member'' now db)) db'"
      unfolding v [unfolded sum.inject prod.inject, THEN conjunct1, symmetric] by (rule only_notes_chain)
    moreover have "r = Some ?f2" using v by (auto split: if_splits)
    ultimately show thesis using extended [OF h refl _ refl _ ss] by blast
  qed
qed

lemma extended_finding_simps [simp]:
  "cf_id (extended_finding H ss es tail g ms now f) = cf_id f"
  "cf_correlation_id (extended_finding H ss es tail g ms now f) = cf_correlation_id f"
  "cf_status (extended_finding H ss es tail g ms now f) = cf_status f"
  "cf_closed_at (extended_finding H ss es tail g ms now f) = cf_closed_at f"
  "cf_member_group_ids (extended_finding H ss es tail g ms now f) = cf_member_group_ids f @ [gs_id g]"
  "cf_first_seen (extended_finding H ss es tail g ms now f) = min (cf_first_seen f) (min (gs_first_seen tail) (gs_first_seen g))"
  "cf_last_seen (extended_finding H ss es tail g ms now f) = max (cf_last_seen f) (max (gs_first_seen tail) (gs_first_seen g))"
  by (simp_all add: extended_finding_def Let_def)

lemma extended_finding_type:
  "cf_type (extended_finding H ss es tail g ms now f) \<in> set CORRELATION_TYPES"
  "map_of TYPE_TITLES (cf_type (extended_finding H ss es tail g ms now f)) = Some (cf_title (extended_finding H ss es tail g ms now f))"
  "fl (20/100) \<le> cf_confidence (extended_finding H ss es tail g ms now f)"
  "cf_confidence (extended_finding H ss es tail g ms now f) \<le> fl (90/100)"
  "cf_fingerprint (extended_finding H ss es tail g ms now f) =
     finding_fingerprint H (cf_type (extended_finding H ss es tail g ms now f)) (cf_member_group_ids f @ [gs_id g]) es"
  using confidence_bounds [of ss "map ce_type es"]
  by (simp_all add: extended_finding_def Let_def resolve_chain_type_valid title_or_valid)

lemma tail_of_member:
  assumes "tail_of sm f = Some tail" "\<forall>(k, s)\<in>set sm. gs_id s = k"
  shows "gs_id tail \<in> set (cf_member_group_ids f)" "gs_id tail = List.last (cf_member_group_ids f)"
proof -
  have m: "cf_member_group_ids f \<noteq> []" "map_of sm (List.last (cf_member_group_ids f)) = Some tail"
    using assms(1) by (auto simp: tail_of_def Let_def split: if_splits)
  moreover from m have "gs_id tail = List.last (cf_member_group_ids f)"
    using map_of_SomeD [OF m(2)] assms(2) by auto
  ultimately show "gs_id tail \<in> set (cf_member_group_ids f)" "gs_id tail = List.last (cf_member_group_ids f)" by simp_all
qed

lemma extend_finding_ok:
  assumes ok: "run_ok H db (ls @ f # rs)" and g: "gs_id g \<notin> set (cf_member_group_ids f)"
    and tail: "gs_id tail \<in> set (cf_member_group_ids f)"
    and e: "extend_finding H so db f sm tail g ms now actor = Inr (db', Some f2)"
  shows "run_ok H db' (ls @ f2 # rs)" "cf_id f2 = cf_id f" "cf_correlation_id f2 = cf_correlation_id f"
    "cf_member_group_ids f2 = cf_member_group_ids f @ [gs_id g]" "cdb_findings db' = cdb_findings db"
    "cf_status f2 = ''ACTIVE''"
proof -
  let ?cid = "cf_correlation_id f"
  have fin: "f \<in> set (ls @ f # rs)" by simp
  note fok = run_okD(4) [OF ok fin]
  have "run_ok H db' (ls @ f2 # rs) \<and> cf_id f2 = cf_id f \<and> cf_correlation_id f2 = cf_correlation_id f
    \<and> cf_member_group_ids f2 = cf_member_group_ids f @ [gs_id g] \<and> cdb_findings db' = cdb_findings db \<and> cf_status f2 = ''ACTIVE''"
    using e
  proof (cases rule: extend_finding_InrD)
    case (extended rule rel reason ss f1 f2')
    let ?new = "edges_for_pair so tail g ms rel"
    define db1 where "db1 = write_member ?cid (gs_id g) reason ''member'' now db"
    define db2 where "db2 = write_edges ?cid ?new now db1"
    have f2: "f2 = f1\<lparr>cf_status := (if cf_status f \<in> {''NEW'', ''QUIET''} then ''ACTIVE'' else cf_status f), cf_updated_at := now\<rparr>"
      using extended(3,4) by simp
    have st: "cf_status f2 = ''ACTIVE''" using run_okD(3) [OF ok fin] by (auto simp: f2 finding_live_def)
    have n: "only_notes db2 db'" using extended(5) by (simp add: db1_def db2_def)
    have rows: "cdb_findings db2 = cdb_findings db" by (simp add: db2_def db1_def)
    have mem: "corr_members_of db2 c = (if c = ?cid then cf_member_group_ids f @ [gs_id g] else corr_members_of db c)" for c
      using fok g by (simp add: db2_def db1_def members_write_member finding_ok_def)
    have fresh: "set (map edge_key ?new) \<inter> set (edges_of db1 ?cid) = {}"
      using fok g unfolding edges_for_pair_keys db1_def write_member_simps finding_ok_def by auto
    have edges: "edges_of db2 c = (if c = ?cid then edges_of db ?cid @ map edge_key ?new else edges_of db c)" for c
      using edges_write_edges [OF edges_for_pair_distinct fresh] by (simp add: db2_def db1_def)
    have cid: "?cid \<in> cf_correlation_id ` set (cdb_findings db)"
      using run_okD(5) [OF ok fin] unfolding has_row_def by (metis imageI)
    have t: "tables_ok db2"
    proof (rule tables_ok_children [OF run_okD(1) [OF ok] rows])
      show "cdb_seq db2 = cdb_seq db" by (simp add: db2_def db1_def)
      show "cm_correlation_id ` set (cdb_members db2) \<subseteq> insert ?cid (cm_correlation_id ` set (cdb_members db))"
        using member_ids_write_member [of ?cid "gs_id g" reason "''member''" now db] by (simp add: db2_def db1_def)
      show "ed_correlation_id ` set (cdb_edges db2) \<subseteq> insert ?cid (ed_correlation_id ` set (cdb_edges db))"
        using edge_ids_write_edges [of ?cid ?new now db1] by (simp add: db2_def db1_def)
    qed (rule cid)
    have f1m: "cf_member_group_ids f1 = cf_member_group_ids f @ [gs_id g]" unfolding extended(2) by simp
    have ok2: "finding_ok H db2 f2"
    proof -
      have "finding_ok H db2 f1"
        using fok g tail extended_finding_type [of H ss "edges_of db ?cid @ map edge_key ?new" tail g ms now f]
        unfolding finding_ok_def extended(2) extended_finding_simps mem edges
        by (auto simp: edges_for_pair_keys min_def max_def)
      then show ?thesis
        unfolding finding_ok_def f2 using run_okD(3) [OF ok fin]
        by (auto simp: CORRELATION_STATUSES_def finding_live_def)
    qed
    have "run_ok H db2 (ls @ f2 # rs)"
      by (rule run_ok_replace [OF ok t rows]) (use mem edges ok2 st in \<open>simp_all add: f2 extended(2) finding_live_def\<close>)
    then show ?thesis
      using only_notes_run [OF n] n st rows f1m
      by (simp add: only_notes_def f2 extended(2))
  qed simp
  then show "run_ok H db' (ls @ f2 # rs)" "cf_id f2 = cf_id f" "cf_correlation_id f2 = cf_correlation_id f"
    "cf_member_group_ids f2 = cf_member_group_ids f @ [gs_id g]" "cdb_findings db' = cdb_findings db" "cf_status f2 = ''ACTIVE''"
    by blast+
qed

section \<open>Creating a finding\<close>

lemma candidate_finding_simps:
  assumes "hd ms = (rule, rel, reason)" "edges = edges_for_pair so e l ms rel" "f = candidate_finding H so e l ms now"
  shows "cf_status f = ''NEW''" "cf_member_group_ids f = [gs_id e, gs_id l]" "cf_closed_at f = None"
    "cf_first_seen f \<le> cf_last_seen f" "cf_type f \<in> set CORRELATION_TYPES"
    "map_of TYPE_TITLES (cf_type f) = Some (cf_title f)"
    "fl (20/100) \<le> cf_confidence f" "cf_confidence f \<le> fl (90/100)"
    "cf_fingerprint f = finding_fingerprint H (cf_type f) [gs_id e, gs_id l] (map edge_key edges)"
  using confidence_bounds [of "[e, l]" "map ce_type edges"] assms(2)
  by (simp_all add: assms(1,3) candidate_finding_def Let_def resolve_chain_type_valid title_or_valid)

definition new_finding :: "corr_db \<Rightarrow> finding \<Rightarrow> finding" where
  "new_finding db c = c\<lparr>cf_correlation_id := next_correlation_id db, cf_id := Suc (cdb_seq db)\<rparr>"

lemma fresh_public_id:
  assumes "tables_ok db" "r \<in> set (cdb_findings db)"
  shows "cf_correlation_id r \<noteq> next_correlation_id db" "cf_num r \<le> last_id cf_id (cdb_findings db)"
proof -
  show n: "cf_num r \<le> last_id cf_id (cdb_findings db)"
    using tables_okD(4) [OF assms] last_id_ge [OF assms(2), of cf_id] by simp
  then show "cf_correlation_id r \<noteq> next_correlation_id db"
    using tables_okD(3) [OF assms] by (simp add: next_correlation_id_def)
qed

lemma claim_finding_cases:
  assumes ok: "tables_ok db" and live: "finding_live c"
  shows "(\<exists>q\<in>set (cdb_findings db). cf_fingerprint q = cf_fingerprint c \<and> finding_live q) \<and>
      (\<exists>q. claim_finding db c = Inr (db\<lparr>cdb_seq := Suc (cdb_seq db)\<rparr>, Some (q, False)))
    \<or> \<not> (\<exists>q\<in>set (cdb_findings db). cf_fingerprint q = cf_fingerprint c \<and> finding_live q) \<and>
      claim_finding db c = Inr (db\<lparr>cdb_findings := cdb_findings db @ [new_finding db c], cdb_seq := Suc (cdb_seq db)\<rparr>,
        Some (new_finding db c, True))"
proof (cases "\<exists>q\<in>set (cdb_findings db). cf_fingerprint q = cf_fingerprint c \<and> finding_live q")
  case True
  then obtain q where q: "List.find (\<lambda>f. cf_fingerprint f = cf_fingerprint c \<and> finding_live f) (cdb_findings db) = Some q"
    by (metis (mono_tags, lifting) find_None_iff' not_Some_eq)
  then have "q \<in> set (cdb_findings db)" by (auto dest: find_SomeD)
  then have "cf_correlation_id q \<noteq> next_correlation_id db" using fresh_public_id [OF ok] by blast
  then have "claim_finding db c = Inr (db\<lparr>cdb_seq := Suc (cdb_seq db)\<rparr>, Some (q, False))"
    using True q by (simp add: claim_finding_def insert_finding_def live_finding_for_def Let_def)
  then show ?thesis using True by blast
next
  case False
  have id: "\<not> (\<exists>q\<in>set (cdb_findings db). cf_correlation_id q = next_correlation_id db)"
    using fresh_public_id(1) [OF ok] by blast
  have none: "List.find (\<lambda>f. cf_fingerprint f = cf_fingerprint c \<and> finding_live f) (cdb_findings db) = None"
    using False by (simp add: find_None_iff')
  have "List.find P (xs @ [y]) = Some y" if "List.find P xs = None" "P y" for P :: "finding \<Rightarrow> bool" and xs y
    using that by (induction xs) (auto split: if_splits)
  then have "List.find (\<lambda>f. cf_fingerprint f = cf_fingerprint c \<and> finding_live f) (cdb_findings db @ [new_finding db c]) = Some (new_finding db c)"
    using none live by (simp add: new_finding_def finding_live_def)
  moreover have "insert_finding db (c\<lparr>cf_correlation_id := next_correlation_id db\<rparr>) =
      Inr (db\<lparr>cdb_findings := cdb_findings db @ [new_finding db c], cdb_seq := Suc (cdb_seq db)\<rparr>)"
    using False id by (auto simp: insert_finding_def new_finding_def)
  ultimately have "claim_finding db c = Inr (db\<lparr>cdb_findings := cdb_findings db @ [new_finding db c], cdb_seq := Suc (cdb_seq db)\<rparr>,
        Some (new_finding db c, True))"
    by (simp add: claim_finding_def live_finding_for_def Let_def new_finding_def)
  then show ?thesis using False by blast
qed

lemma tables_ok_new:
  assumes ok: "tables_ok db" and live: "finding_live c"
    and no: "\<not> (\<exists>q\<in>set (cdb_findings db). cf_fingerprint q = cf_fingerprint c \<and> finding_live q)"
  shows "tables_ok (db\<lparr>cdb_findings := cdb_findings db @ [new_finding db c], cdb_seq := Suc (cdb_seq db)\<rparr>)"
proof -
  let ?n = "new_finding db c"
  have c: "ccl.claim (cdb_findings db) (Suc (cdb_seq db)) (c\<lparr>cf_correlation_id := next_correlation_id db\<rparr>) = cdb_findings db @ [?n]"
    using no by (auto simp: ccl.claim_def new_finding_def)
  have l: "finding_live (c\<lparr>cf_correlation_id := next_correlation_id db\<rparr>)" using live by (simp add: finding_live_def)
  have num: "cf_num ?n = last_id cf_id (cdb_findings db) + 1" by (simp add: cf_num_def new_finding_def next_correlation_id_def)
  have "last_id cf_id (cdb_findings db) \<le> cdb_seq db" using ccl.last_id_le_seq tables_okD(1) [OF ok] by blast
  then have n1: "cf_num ?n \<le> cf_id ?n" by (simp add: num) (simp add: new_finding_def)
  have n2: "cf_correlation_id ?n = finding_public_id (cf_num ?n)" unfolding num by (simp add: new_finding_def next_correlation_id_def)
  have n3: "cf_num r < cf_num ?n" if "r \<in> set (cdb_findings db)" for r
    using fresh_public_id(2) [OF ok that] by (simp add: num)
  have "ccl.ids_ok (cdb_findings db @ [?n]) (Suc (cdb_seq db))" "ccl.one_live (cdb_findings db @ [?n])"
    using ccl.ids_ok_claim [OF tables_okD(1) [OF ok]] ccl.one_live_claim [OF tables_okD(2) [OF ok] l, of "Suc (cdb_seq db)"]
    unfolding c [symmetric] by simp_all
  moreover have "sorted_wrt (<) (map cf_num (cdb_findings db @ [?n]))"
    using tables_okD(5) [OF ok] n3 by (simp add: sorted_wrt_append)
  moreover have "\<forall>f\<in>set (cdb_findings db @ [?n]). cf_correlation_id f = finding_public_id (cf_num f) \<and> cf_num f \<le> cf_id f"
    using tables_okD(3,4) [OF ok] n1 n2 by auto
  moreover have "cm_correlation_id ` set (cdb_members db) \<subseteq> cf_correlation_id ` set (cdb_findings db @ [?n])"
    using tables_okD(6) [OF ok] unfolding set_append image_Un by blast
  moreover have "ed_correlation_id ` set (cdb_edges db) \<subseteq> cf_correlation_id ` set (cdb_findings db @ [?n])"
    using tables_okD(7) [OF ok] unfolding set_append image_Un by blast
  ultimately show ?thesis unfolding tables_ok_def by simp
qed

lemma create_finding_cases:
  assumes ok: "tables_ok db" and h: "hd ms = (rule, rel, reason)"
    and c: "create_finding H so db e l ms now actor = Inr (db', r)"
  obtains (conflict) q where "r = None" "only_notes db db'" "q \<in> set (cdb_findings db)"
      "cf_fingerprint q = cf_fingerprint (candidate_finding H so e l ms now)" "finding_live q"
  | (created) f db1 where "f = new_finding db (candidate_finding H so e l ms now)" "r = Some f"
      "db1 = db\<lparr>cdb_findings := cdb_findings db @ [f], cdb_seq := Suc (cdb_seq db)\<rparr>" "tables_ok db1"
      "only_notes (write_edges (cf_correlation_id f) (edges_for_pair so e l ms rel) now
         (write_member (cf_correlation_id f) (gs_id l) reason ''member'' now
           (write_member (cf_correlation_id f) (gs_id e) reason ''seed'' now db1))) db'"
proof -
  let ?c = "candidate_finding H so e l ms now"
  have live: "finding_live ?c" using candidate_finding_simps(1) [OF h refl refl] by (simp add: finding_live_def)
  note u = c [unfolded create_finding_def h Let_def prod.case]
  from claim_finding_cases [OF ok live] show thesis
  proof (elim disjE conjE exE bexE)
    fix q e0 assume q: "q \<in> set (cdb_findings db)" "cf_fingerprint q = cf_fingerprint ?c" "finding_live q"
      and i: "claim_finding db ?c = Inr (db\<lparr>cdb_seq := Suc (cdb_seq db)\<rparr>, Some (e0, False))"
    have "r = None" "db' = db\<lparr>cdb_seq := Suc (cdb_seq db)\<rparr>" using u unfolding i by simp_all
    then show thesis using q conflict by (simp add: only_notes_def)
  next
    assume no: "\<not> (\<exists>q\<in>set (cdb_findings db). cf_fingerprint q = cf_fingerprint ?c \<and> finding_live q)"
    let ?f = "new_finding db ?c"
    let ?db1 = "db\<lparr>cdb_findings := cdb_findings db @ [?f], cdb_seq := Suc (cdb_seq db)\<rparr>"
    assume i: "claim_finding db ?c = Inr (?db1, Some (?f, True))"
    note v = u [unfolded i sum.case option.case prod.case not_True_eq_False if_False sum.inject prod.inject]
    show thesis
      by (rule created [OF refl v [THEN conjunct2, symmetric] refl tables_ok_new [OF ok live no]])
        (unfold v [THEN conjunct1, symmetric], rule only_notes_trans [OF only_notes_trans [OF only_notes_evidence only_notes_audit] only_notes_audit_edges])
  qed
qed

lemma create_finding_ok:
  assumes ok: "run_ok H db live" and ne: "gs_id e \<noteq> gs_id l"
    and c: "create_finding H so db e l ms now actor = Inr (db', Some f)"
  shows "run_ok H db' (live @ [f])" "cf_member_group_ids f = [gs_id e, gs_id l]" "cdb_findings db' = cdb_findings db @ [f]"
    "cf_id f = Suc (cdb_seq db)"
proof -
  obtain rule rel reason where h: "hd ms = (rule, rel, reason)" by (metis prod_cases3)
  let ?new = "edges_for_pair so e l ms rel"
  let ?c = "candidate_finding H so e l ms now"
  note cs = candidate_finding_simps [OF h refl refl, where H = H and so = so and e = e and l = l and now = now]
  note t0 = run_okD(1) [OF ok]
  have "run_ok H db' (live @ [f]) \<and> cf_member_group_ids f = [gs_id e, gs_id l] \<and> cdb_findings db' = cdb_findings db @ [f]
    \<and> cf_id f = Suc (cdb_seq db)"
    using t0 h c
  proof (cases rule: create_finding_cases)
    case (created f0 db1)
    let ?cid = "next_correlation_id db"
    have f: "f = ?c\<lparr>cf_correlation_id := ?cid, cf_id := Suc (cdb_seq db)\<rparr>" using created(1,2) by (simp add: new_finding_def)
    define dbm where "dbm = write_member ?cid (gs_id l) reason ''member'' now (write_member ?cid (gs_id e) reason ''seed'' now db1)"
    define db2 where "db2 = write_edges ?cid ?new now dbm"
    have "cf_correlation_id f0 = ?cid" using created(1) by (simp add: new_finding_def)
    then have n: "only_notes db2 db'" using created(5) by (simp add: db2_def dbm_def)
    have db1: "cdb_findings db1 = cdb_findings db @ [f]" "cdb_members db1 = cdb_members db" "cdb_edges db1 = cdb_edges db"
      using created(2,3) by simp_all
    have kids: "corr_members_of db1 = corr_members_of db" "edges_of db1 = edges_of db"
      by (simp_all add: corr_members_of_def edges_of_def db1 fun_eq_iff)
    have "?cid \<notin> cf_correlation_id ` set (cdb_findings db)" using fresh_public_id(1) [OF t0] by (metis imageE)
    then have "corr_members_of db ?cid = []" "edges_of db ?cid = []"
      using tables_okD(6,7) [OF t0] unfolding corr_members_of_def edges_of_def map_is_Nil_conv filter_empty_conv by metis+
    note none = this
    have mem: "corr_members_of db2 c = (if c = ?cid then [gs_id e, gs_id l] else corr_members_of db c)" for c
      using none ne by (simp add: db2_def dbm_def members_write_member kids)
    have "set (map edge_key ?new) \<inter> set (edges_of dbm ?cid) = {}" by (simp add: dbm_def kids none)
    note ew = edges_write_edges [OF edges_for_pair_distinct this]
    have edges: "edges_of db2 c = (if c = ?cid then map edge_key ?new else edges_of db c)" for c
      using ew [of now c] none by (simp add: db2_def dbm_def kids)
    have t: "tables_ok db2"
    proof (rule tables_ok_children [OF created(4)])
      show "cdb_findings db2 = cdb_findings db1" "cdb_seq db2 = cdb_seq db1" by (simp_all add: db2_def dbm_def)
      show "cm_correlation_id ` set (cdb_members db2) \<subseteq> insert ?cid (cm_correlation_id ` set (cdb_members db1))"
        using member_ids_write_member [of ?cid "gs_id l" reason "''member''" now "write_member ?cid (gs_id e) reason ''seed'' now db1"]
          member_ids_write_member [of ?cid "gs_id e" reason "''seed''" now db1]
        by (auto simp: db2_def dbm_def)
      show "ed_correlation_id ` set (cdb_edges db2) \<subseteq> insert ?cid (ed_correlation_id ` set (cdb_edges db1))"
        using edge_ids_write_edges [of ?cid ?new now dbm] by (simp add: db2_def dbm_def)
      show "?cid \<in> cf_correlation_id ` set (cdb_findings db1)" by (simp add: db1 f)
    qed
    have ok2: "finding_ok H db2 f"
      using cs ne unfolding finding_ok_def
      by (simp add: f mem edges CORRELATION_STATUSES_def edges_for_pair_keys image_iff)
    have "run_ok H db2 (live @ [f])"
    proof (rule run_ok_add [OF ok t])
      show "cdb_findings db2 = cdb_findings db @ [f]" by (simp add: db2_def dbm_def db1)
      show "corr_members_of db2 c = corr_members_of db c \<and> edges_of db2 c = edges_of db c"
        if "c \<in> cf_correlation_id ` set (cdb_findings db)" for c
      proof -
        have "c \<noteq> ?cid" using that fresh_public_id(1) [OF t0] by (metis imageE)
        then show ?thesis by (simp add: mem edges)
      qed
      show "finding_live f" using cs(1) by (simp add: f finding_live_def)
      have "cf_id r \<noteq> Suc (cdb_seq db)" if "r \<in> set (cdb_findings db)" for r
        using tables_okD(1) [OF t0] that unfolding ccl.ids_ok_def by fastforce
      moreover have "cf_id f = Suc (cdb_seq db)" by (simp add: f)
      ultimately show "cf_id f \<notin> cf_id ` set (cdb_findings db)" by (metis imageE)
    qed (rule ok2)
    then show ?thesis
      using only_notes_run [OF n] n cs(2) db1(1) by (simp add: only_notes_def f db2_def dbm_def)
  qed simp
  then show "run_ok H db' (live @ [f])" "cf_member_group_ids f = [gs_id e, gs_id l]" "cdb_findings db' = cdb_findings db @ [f]"
    "cf_id f = Suc (cdb_seq db)"
    by blast+
qed

section \<open>The loops of a run\<close>

text \<open>A run only appends: rows are added at the end of the table, objects keep their
  identity and their members.\<close>

definition kept_on :: "finding \<Rightarrow> finding \<Rightarrow> bool" where
  "kept_on f f' \<longleftrightarrow> cf_id f' = cf_id f \<and> cf_correlation_id f' = cf_correlation_id f
     \<and> prefix (cf_member_group_ids f) (cf_member_group_ids f')"

definition advances :: "corr_db \<times> finding list \<Rightarrow> corr_db \<times> finding list \<Rightarrow> bool" where
  "advances st st' \<longleftrightarrow> prefix (cdb_findings (fst st)) (cdb_findings (fst st'))
     \<and> (\<exists>old new. snd st' = old @ new \<and> list_all2 kept_on (snd st) old)"

lemma kept_on_refl [simp]: "kept_on f f"
  by (simp add: kept_on_def)

lemma kept_on_trans: "kept_on a b \<Longrightarrow> kept_on b c \<Longrightarrow> kept_on a c"
  by (auto simp: kept_on_def)

lemma advances_refl: "advances st st"
  unfolding advances_def by (intro conjI exI [of _ "snd st"] exI [of _ "[]"]) (simp_all add: list.rel_refl)

lemma advances_trans:
  assumes "advances a b" "advances b c" shows "advances a c"
proof -
  obtain o1 n1 where b: "snd b = o1 @ n1" "list_all2 kept_on (snd a) o1" using assms(1) unfolding advances_def by blast
  obtain o2 n2 where c: "snd c = o2 @ n2" "list_all2 kept_on (snd b) o2" using assms(2) unfolding advances_def by blast
  obtain o3 n3 where o2: "o2 = o3 @ n3" "list_all2 kept_on o1 o3" using c(2) unfolding b(1) by (auto simp: list_all2_append1)
  have "list_all2 kept_on (snd a) o3" using list_all2_trans [OF _ b(2) o2(2), of kept_on] kept_on_trans by blast
  moreover have "snd c = o3 @ (n3 @ n2)" using c(1) o2(1) by simp
  moreover have "prefix (cdb_findings (fst a)) (cdb_findings (fst c))"
    using assms unfolding advances_def by (metis prefix_order.trans)
  ultimately show ?thesis unfolding advances_def by blast
qed

lemma try_extend_cases:
  assumes "try_extend H so sm g now actor db live = Inr (db', live', handled)"
  obtains (idle) "\<not> handled" "live' = live" "only_notes db db'"
  | (attached) ls f rs f' dbx tail where "handled" "live = ls @ f # rs" "live' = ls @ f' # rs" "only_notes db dbx"
      "tail_of sm f = Some tail" "match_pair so tail g \<noteq> []"
      "extend_finding H so dbx f sm tail g (match_pair so tail g) now actor = Inr (db', Some f')"
proof -
  have "(\<not> handled \<and> live' = live \<and> only_notes db db') \<or>
    (\<exists>ls f rs f' dbx tail. handled \<and> live = ls @ f # rs \<and> live' = ls @ f' # rs \<and> only_notes db dbx
      \<and> tail_of sm f = Some tail \<and> match_pair so tail g \<noteq> []
      \<and> extend_finding H so dbx f sm tail g (match_pair so tail g) now actor = Inr (db', Some f'))"
    using assms
  proof (induction live arbitrary: db live')
    case (Cons f fs)
    have skip: ?case if e: "only_notes db db1"
        "map_sum id (\<lambda>(db'', fs', handled). (db'', f # fs', handled)) (try_extend H so sm g now actor db1 fs) = Inr (db', live', handled)" for db1
    proof -
      obtain fs' where t: "try_extend H so sm g now actor db1 fs = Inr (db', fs', handled)" "live' = f # fs'"
        using e(2) by (cases "try_extend H so sm g now actor db1 fs") auto
      from Cons.IH [OF t(1)] show ?case
      proof (elim disjE exE conjE)
        assume "\<not> handled" "fs' = fs" "only_notes db1 db'"
        then show ?case using only_notes_trans [OF e(1)] t(2) by simp
      next
        fix ls f0 rs f' dbx tail
        assume a: "handled" "fs = ls @ f0 # rs" "fs' = ls @ f' # rs" "only_notes db1 dbx" "tail_of sm f0 = Some tail"
          "match_pair so tail g \<noteq> []" "extend_finding H so dbx f0 sm tail g (match_pair so tail g) now actor = Inr (db', Some f')"
        have "f # fs = (f # ls) @ f0 # rs" "live' = (f # ls) @ f' # rs" using a(2,3) t(2) by simp_all
        then show ?case using a(1,5-7) only_notes_trans [OF e(1) a(4)] by blast
      qed
    qed
    show ?case
    proof (cases "tail_of sm f")
      case None
      then show ?thesis using Cons.prems by (intro skip [OF only_notes_refl]) (simp add: Let_def)
    next
      case (Some tail)
      show ?thesis
      proof (cases "match_pair so tail g = []")
        case True
        then show ?thesis using Cons.prems Some by (intro skip [OF only_notes_refl]) (simp add: Let_def)
      next
        case False
        show ?thesis
        proof (cases "extend_finding H so db f sm tail g (match_pair so tail g) now actor")
          case (Inr p)
          then obtain db1 r where p: "extend_finding H so db f sm tail g (match_pair so tail g) now actor = Inr (db1, r)" by (cases p) auto
          show ?thesis
          proof (cases r)
            case None
            then have "only_notes db db1" using p by (elim extend_finding_InrD) simp_all
            then show ?thesis using Cons.prems Some False p None by (intro skip [of db1]) (simp_all add: Let_def)
          next
            case (Some f')
            then have "handled" "live' = f' # fs" "db' = db1" using Cons.prems \<open>tail_of sm f = Some tail\<close> False p by (simp_all add: Let_def)
            then show ?thesis using Some p False \<open>tail_of sm f = Some tail\<close> only_notes_refl [of db] by fastforce
          qed
        qed (use Cons.prems Some False in \<open>simp add: Let_def\<close>)
      qed
    qed
  qed (simp add: only_notes_refl)
  then show thesis using idle attached by blast
qed

lemma try_create_cases:
  assumes "tables_ok db" "try_create H so g now actor db live es = Inr (db', r)"
  obtains (idle) "r = None" "only_notes db db'"
  | (made) e dbx f where "r = Some f" "e \<in> set es" "gs_id e \<noteq> gs_id g" "match_pair so e g \<noteq> []" "only_notes db dbx"
      "create_finding H so dbx e g (match_pair so e g) now actor = Inr (db', Some f)"
proof -
  have "(r = None \<and> only_notes db db') \<or> (\<exists>e dbx f. r = Some f \<and> e \<in> set es \<and> gs_id e \<noteq> gs_id g
      \<and> match_pair so e g \<noteq> [] \<and> only_notes db dbx \<and> create_finding H so dbx e g (match_pair so e g) now actor = Inr (db', Some f))"
    using assms
  proof (induction es arbitrary: db)
    case (Cons e es)
    let ?ms = "match_pair so e g"
    have skip: ?case if "only_notes db db1" "try_create H so g now actor db1 live es = Inr (db', r)" for db1
    proof -
      have "tables_ok db1" using only_notes_tables [OF that(1) Cons.prems(1)] .
      from Cons.IH [OF this that(2)] show ?case
        using only_notes_trans [OF that(1)] by fastforce
    qed
    consider (same) "gs_id e = gs_id g" | (late) "gs_id e \<noteq> gs_id g" "gs_first_seen g < gs_first_seen e"
      | (joint) "gs_id e \<noteq> gs_id g" "\<not> gs_first_seen g < gs_first_seen e"
          "(\<exists>f\<in>set live. gs_id e \<in> set (cf_member_group_ids f) \<and> gs_id g \<in> set (cf_member_group_ids f)) \<or> ?ms = []"
      | (pair) "gs_id e \<noteq> gs_id g" "\<not> gs_first_seen g < gs_first_seen e" "?ms \<noteq> []"
          "\<not> (\<exists>f\<in>set live. gs_id e \<in> set (cf_member_group_ids f) \<and> gs_id g \<in> set (cf_member_group_ids f))" by blast
    then show ?case
    proof cases
      case pair
      obtain rule rel reason where h: "hd ?ms = (rule, rel, reason)" by (metis prod_cases3)
      show ?thesis
      proof (cases "create_finding H so db e g ?ms now actor")
        case (Inr p)
        then obtain db1 x where p: "create_finding H so db e g ?ms now actor = Inr (db1, x)" by (cases p) auto
        show ?thesis
        proof (cases x)
          case None
          have "only_notes db db1" using create_finding_cases [OF Cons.prems(1) h p] None by (metis option.distinct(1))
          then show ?thesis using Cons.prems(2) pair p None by (intro skip [of db1]) (simp_all add: Let_def)
        next
          case (Some f)
          then have "r = Some f" "db' = db1" using Cons.prems(2) pair p by (simp_all add: Let_def)
          then show ?thesis using p Some pair only_notes_refl [of db] by fastforce
        qed
      qed (use Cons.prems(2) pair in \<open>simp add: Let_def\<close>)
    qed (use Cons.prems(2) skip [OF only_notes_refl] in \<open>auto simp: Let_def only_notes_refl split: if_splits\<close>)
  qed (simp add: only_notes_refl)
  then show thesis using idle made by blast
qed

lemma correlate_group_cases:
  assumes "run_ok H db live" "correlate_group H so sm groups shut now actor g (db, live) = Inr (db', live')"
  obtains (idle) "live' = live" "only_notes db db'"
  | (attached) ls f rs f' dbx tail where "live = ls @ f # rs" "live' = ls @ f' # rs" "only_notes db dbx"
      "\<forall>f\<in>set live. gs_id g \<notin> set (cf_member_group_ids f)"
      "tail_of sm f = Some tail" "match_pair so tail g \<noteq> []"
      "extend_finding H so dbx f sm tail g (match_pair so tail g) now actor = Inr (db', Some f')"
  | (made) e dbx f where "live' = live @ [f]" "e \<in> set groups" "gs_id e \<noteq> gs_id g" "match_pair so e g \<noteq> []" "only_notes db dbx"
      "\<forall>f\<in>set live. gs_id g \<notin> set (cf_member_group_ids f)"
      "create_finding H so dbx e g (match_pair so e g) now actor = Inr (db', Some f)"
proof (cases "\<exists>f\<in>set live. gs_id g \<in> set (cf_member_group_ids f)")
  case True
  then show thesis using assms(2) idle by (simp add: correlate_group_def only_notes_refl)
next
  case False
  note u = assms(2) [unfolded correlate_group_def Let_def prod.case if_not_P [OF False]]
  obtain p where "try_extend H so sm g now actor db live = Inr p"
    using u by (cases "try_extend H so sm g now actor db live") simp_all
  then obtain db1 live1 handled where te: "try_extend H so sm g now actor db live = Inr (db1, live1, handled)" by (cases p) auto
  have F: "\<forall>f\<in>set live. gs_id g \<notin> set (cf_member_group_ids f)" using False by blast
  from te show thesis
  proof (cases rule: try_extend_cases)
    case (attached ls f rs f' dbx tail)
    then have "db' = db1" "live' = live1" using u te by simp_all
    then show thesis using attached F that(2) by blast
  next
    case idle
    have t1: "tables_ok db1" using only_notes_tables [OF idle(3) run_okD(1) [OF assms(1)]] .
    note v = u [unfolded te sum.case prod.case, simplified idle(1,2) if_False bool.case]
    obtain db2 r where tc: "try_create H so g now actor db1 live groups = Inr (db2, r)"
      using v by (cases "try_create H so g now actor db1 live groups") (auto simp: idle)
    from t1 tc show thesis
    proof (cases rule: try_create_cases)
      case (made e dbx f)
      then have "db' = db2" "live' = live @ [f]" using v tc by (simp_all add: idle)
      then show thesis using made that(3) F only_notes_trans [OF idle(3)] by blast
    next
      case idle2: idle
      then have "live' = live" "db' = note_reopen so sm shut g now actor db2" using v tc by (simp_all add: idle)
      moreover have "only_notes db (note_reopen so sm shut g now actor db2)"
        using only_notes_trans [OF only_notes_trans [OF idle(3) idle2(2)] only_notes_reopen] .
      ultimately show thesis using that(1) by simp
    qed
  qed
qed

lemma correlate_group_ok:
  assumes ok: "run_ok H db live" and sm: "\<forall>(k, s)\<in>set sm. gs_id s = k"
    and c: "correlate_group H so sm groups shut now actor g (db, live) = Inr (db', live')"
  shows "run_ok H db' live' \<and> advances (db, live) (db', live')"
  using ok c
proof (cases rule: correlate_group_cases)
  case idle
  then show ?thesis using only_notes_run [OF _ ok] advances_refl by (auto simp: advances_def only_notes_def)
next
  case (attached ls f rs f' dbx tail)
  have "run_ok H dbx (ls @ f # rs)" using only_notes_run [OF attached(3) ok] attached(1) by simp
  moreover have "gs_id g \<notin> set (cf_member_group_ids f)" using attached(1,4) by simp
  ultimately have e: "run_ok H db' live'" "kept_on f f'" "cdb_findings db' = cdb_findings dbx"
    using extend_finding_ok [OF _ _ tail_of_member(1) [OF attached(5) sm] attached(7)] attached(2) by (simp_all add: kept_on_def)
  moreover have "list_all2 kept_on live live'"
    unfolding attached(1,2) using e(2) by (simp add: list_all2_append list.rel_refl)
  ultimately show ?thesis using attached(3) by (auto simp: advances_def only_notes_def intro: exI [of _ live'])
next
  case (made e dbx f)
  have "run_ok H dbx live" using only_notes_run [OF made(5) ok] .
  note m = create_finding_ok [OF this made(3,7)]
  have "\<exists>old new. live' = old @ new \<and> list_all2 kept_on live old"
    by (intro exI [of _ live] exI [of _ "[f]"]) (simp add: made(1) list.rel_refl)
  then show ?thesis using m(1,3) made(1,5) by (simp add: advances_def only_notes_def)
qed

lemma correlate_groups_ok:
  assumes "run_ok H (fst st) (snd st)" "\<forall>(k, s)\<in>set sm. gs_id s = k"
    "correlate_groups H so sm groups shut now actor gs st = Inr st'"
  shows "run_ok H (fst st') (snd st') \<and> advances st st'"
  using assms
proof (induction gs arbitrary: st)
  case (Cons g gs)
  obtain st1 where s: "correlate_group H so sm groups shut now actor g st = Inr st1"
    using Cons.prems(3) by (cases "correlate_group H so sm groups shut now actor g st") simp_all
  have 1: "run_ok H (fst st1) (snd st1)" "advances st st1"
    using correlate_group_ok [of H "fst st" "snd st" sm so groups shut now actor g "fst st1" "snd st1"] Cons.prems(1,2) s by simp_all
  have "correlate_groups H so sm groups shut now actor gs st1 = Inr st'" using Cons.prems(3) s by simp
  then show ?case using Cons.IH [OF 1(1) Cons.prems(2)] advances_trans [OF 1(2)] by blast
qed (simp add: advances_refl)

section \<open>The commit\<close>

definition written_back :: "finding list \<Rightarrow> finding list \<Rightarrow> finding list" where
  "written_back live rows = fold (\<lambda>f. update_row cf_id (cf_id f) (\<lambda>_. f)) live rows"

lemma update_same_row:
  assumes "ccl.ids_ok rows n" "f \<in> set rows" shows "update_row cf_id (cf_id f) (\<lambda>_. f) rows = rows"
  unfolding update_row_def by (rule map_idI) (use ccl.same_row [OF assms(1) _ assms(2)] in auto)

lemma flush_findingD:
  assumes "flush_finding f rows = Inr rows'" "ccl.ids_ok rows n" "ccl.one_live rows"
    and row: "r \<in> set rows" "cf_id r = cf_id f" "cf_correlation_id r = cf_correlation_id f" "finding_live f"
  shows "rows' = update_row cf_id (cf_id f) (\<lambda>_. f) rows" "ccl.ids_ok rows' n" "ccl.one_live rows'"
    "map cf_id rows' = map cf_id rows" "map cf_correlation_id rows' = map cf_correlation_id rows"
proof -
  show u: "rows' = update_row cf_id (cf_id f) (\<lambda>_. f) rows"
    using assms(1) update_same_row [OF assms(2)] by (auto simp: flush_finding_def split: if_splits)
  show ids: "map cf_id rows' = map cf_id rows" unfolding u by (rule map_update_row) simp
  have q: "q = r" if "q \<in> set rows" "cf_id q = cf_id f" for q
    using ccl.same_row [OF assms(2) that(1) row(1)] that(2) row(2) by simp
  show "map cf_correlation_id rows' = map cf_correlation_id rows"
    unfolding u update_row_def using q row(3) by (auto intro!: map_cong)
  show "ccl.ids_ok rows' n" using assms(2) ccl.ids_ok_cong [OF ids] by simp
  show "ccl.one_live rows'"
  proof (cases "f \<in> set rows")
    case True
    then show ?thesis using assms(3) update_same_row [OF assms(2)] u by simp
  next
    case False
    then have no: "\<And>q. q \<in> set rows \<Longrightarrow> finding_live q \<Longrightarrow> cf_fingerprint q = cf_fingerprint f \<Longrightarrow> cf_id q = cf_id f"
      using assms(1) row(4) by (auto simp: flush_finding_def split: if_splits)
    have "cf_id a = cf_id b" if "a \<in> set rows'" "b \<in> set rows'" "finding_live a" "finding_live b" "cf_fingerprint a = cf_fingerprint b" for a b
    proof -
      have c: "x = f \<or> (x \<in> set rows \<and> cf_id x \<noteq> cf_id f)" if "x \<in> set rows'" for x
        using that unfolding u by (auto simp: set_update_row split: if_splits)
      show ?thesis
        using c [OF that(1)] c [OF that(2)] that(3-5) no assms(3) [unfolded ccl.one_live_def] by metis
    qed
    then show ?thesis unfolding ccl.one_live_def by blast
  qed
qed

lemma flush_findingsD:
  assumes "flush_findings live rows = Inr rows'" "ccl.ids_ok rows n" "ccl.one_live rows"
    and "\<forall>f\<in>set live. finding_live f \<and> (\<exists>r\<in>set rows. cf_id r = cf_id f \<and> cf_correlation_id r = cf_correlation_id f)"
    and "distinct (map cf_correlation_id rows)"
  shows "rows' = written_back live rows" "ccl.ids_ok rows' n" "ccl.one_live rows'"
    "map cf_id rows' = map cf_id rows" "map cf_correlation_id rows' = map cf_correlation_id rows"
proof -
  have pair: "\<exists>r\<in>set rows'. cf_id r = i \<and> cf_correlation_id r = c"
    if m: "map cf_id rows' = map cf_id rows" "map cf_correlation_id rows' = map cf_correlation_id rows"
      and e: "\<exists>r\<in>set rows. cf_id r = i \<and> cf_correlation_id r = c" for rows rows' i c
  proof -
    obtain k where k: "k < length rows" "cf_id (rows ! k) = i" "cf_correlation_id (rows ! k) = c"
      using e by (metis in_set_conv_nth)
    have l: "length rows' = length rows" using m(1) by (metis length_map)
    have "cf_id (rows' ! k) = i" "cf_correlation_id (rows' ! k) = c"
      using k l nth_map [of k rows cf_id] nth_map [of k rows' cf_id] nth_map [of k rows cf_correlation_id]
        nth_map [of k rows' cf_correlation_id] m by simp_all
    then show ?thesis using k(1) l by (metis nth_mem)
  qed
  have "rows' = written_back live rows \<and> ccl.ids_ok rows' n \<and> ccl.one_live rows'
    \<and> map cf_id rows' = map cf_id rows \<and> map cf_correlation_id rows' = map cf_correlation_id rows"
    using assms
  proof (induction live arbitrary: rows)
    case (Cons f fs)
    obtain rows1 where f: "flush_finding f rows = Inr rows1" "flush_findings fs rows1 = Inr rows'"
      using Cons.prems(1) by (cases "flush_finding f rows") simp_all
    obtain r where r: "r \<in> set rows" "cf_id r = cf_id f" "cf_correlation_id r = cf_correlation_id f" "finding_live f"
      using Cons.prems(4) by auto
    note d = flush_findingD [OF f(1) Cons.prems(2,3) r]
    have "\<forall>x\<in>set fs. finding_live x \<and> (\<exists>r\<in>set rows1. cf_id r = cf_id x \<and> cf_correlation_id r = cf_correlation_id x)"
      using Cons.prems(4) pair [OF d(4,5)] by simp
    moreover have "distinct (map cf_correlation_id rows1)" using Cons.prems(5) d(5) by simp
    ultimately have i: "rows' = written_back fs rows1" "ccl.ids_ok rows' n" "ccl.one_live rows'"
        "map cf_id rows' = map cf_id rows1" "map cf_correlation_id rows' = map cf_correlation_id rows1"
      using Cons.IH [OF f(2) d(2,3)] by blast+
    have "rows' = written_back (f # fs) rows" unfolding i(1) by (simp add: d(1) written_back_def)
    then show ?case using i(2-5) d(4,5) by (intro conjI) (assumption | simp only:)+
  qed (simp add: written_back_def)
  then show "rows' = written_back live rows" "ccl.ids_ok rows' n" "ccl.one_live rows'"
    "map cf_id rows' = map cf_id rows" "map cf_correlation_id rows' = map cf_correlation_id rows"
    by blast+
qed

lemma set_written_back:
  "x \<in> set (written_back live rows) \<Longrightarrow> x \<in> set live \<or> (x \<in> set rows \<and> cf_id x \<notin> cf_id ` set live)"
proof (induction live arbitrary: rows)
  case (Cons f fs)
  have "x \<in> set fs \<or> (x \<in> set (update_row cf_id (cf_id f) (\<lambda>_. f) rows) \<and> cf_id x \<notin> cf_id ` set fs)"
    using Cons by (simp add: written_back_def)
  then show ?case by (auto simp: set_update_row split: if_splits)
qed (simp add: written_back_def)

lemma written_back_keeps:
  "x \<in> set rows \<Longrightarrow> cf_id x \<notin> cf_id ` set live \<Longrightarrow> x \<in> set (written_back live rows)"
proof (induction live arbitrary: rows)
  case (Cons f fs)
  have "x \<in> set (update_row cf_id (cf_id f) (\<lambda>_. f) rows)"
    using Cons.prems unfolding set_update_row by (intro bexI [of _ x]) auto
  then show ?case using Cons.IH Cons.prems(2) by (simp add: written_back_def)
qed (simp add: written_back_def)

lemma written_back_live:
  "f \<in> set live \<Longrightarrow> distinct (map cf_id live) \<Longrightarrow> cf_id f \<in> cf_id ` set rows \<Longrightarrow> f \<in> set (written_back live rows)"
proof (induction live arbitrary: rows)
  case (Cons h fs)
  let ?rows = "update_row cf_id (cf_id h) (\<lambda>_. h) rows"
  have ids: "cf_id ` set ?rows = cf_id ` set rows"
    using map_update_row [of cf_id "cf_id h" cf_id "\<lambda>_. h" rows] by (metis image_set)
  show ?case
  proof (cases "f = h")
    case True
    then have "h \<in> set ?rows" using Cons.prems(3) by (auto simp: set_update_row)
    moreover have "cf_id h \<notin> cf_id ` set fs" using Cons.prems(2) by auto
    ultimately have "h \<in> set (written_back fs ?rows)" by (rule written_back_keeps)
    then show ?thesis using True by (simp add: written_back_def)
  next
    case False
    then have "f \<in> set (written_back fs ?rows)" using Cons ids by simp
    then show ?thesis by (simp add: written_back_def)
  qed
qed simp

lemma finding_ok_rows [simp]: "finding_ok H (db\<lparr>cdb_findings := rows\<rparr>) = finding_ok H db"
  by (simp add: fun_eq_iff finding_ok_def corr_members_of_def edges_of_def)

lemma corr_db_rows:
  "cdb_findings (db\<lparr>cdb_findings := rows\<rparr>) = rows" "cdb_seq (db\<lparr>cdb_findings := rows\<rparr>) = cdb_seq db"
  "cdb_members (db\<lparr>cdb_findings := rows\<rparr>) = cdb_members db" "cdb_edges (db\<lparr>cdb_findings := rows\<rparr>) = cdb_edges db"
  by simp_all

lemma commit_ok:
  assumes ok: "run_ok H db live" and f: "flush_findings live (cdb_findings db) = Inr rows"
  shows "corr_ok H (db\<lparr>cdb_findings := rows\<rparr>)" "rows = written_back live (cdb_findings db)"
proof -
  note t = tables_okD [OF run_okD(1) [OF ok]]
  have "\<forall>f\<in>set live. finding_live f \<and> (\<exists>r\<in>set (cdb_findings db). cf_id r = cf_id f \<and> cf_correlation_id r = cf_correlation_id f)"
    using run_okD(3,5) [OF ok] unfolding has_row_def by blast
  moreover have "distinct (map cf_correlation_id (cdb_findings db))"
    using cf_num_inj [OF run_okD(1) [OF ok]] ccl.ids_distinct [OF t(1)] by (auto simp: distinct_map inj_on_def)
  ultimately have d: "rows = written_back live (cdb_findings db)" "ccl.ids_ok rows (cdb_seq db)" "ccl.one_live rows"
      "map cf_id rows = map cf_id (cdb_findings db)" "map cf_correlation_id rows = map cf_correlation_id (cdb_findings db)"
    using flush_findingsD [OF f t(1,2)] by blast+
  show "rows = written_back live (cdb_findings db)" by (rule d(1))
  have ci: "cf_correlation_id ` set rows = cf_correlation_id ` set (cdb_findings db)" using d(5) by (metis image_set)
  have num: "map cf_num rows = map cf_num (cdb_findings db)"
    using arg_cong [OF d(5), of "map (\<lambda>c. dec_val (drop 3 c))"] by (simp add: cf_num_def [abs_def] comp_def)
  have each: "cf_correlation_id x = finding_public_id (cf_num x) \<and> cf_num x \<le> cf_id x" if x: "x \<in> set rows" for x
  proof -
    consider "x \<in> set live" | "x \<in> set (cdb_findings db)" using set_written_back x unfolding d(1) by blast
    then obtain r where r: "r \<in> set (cdb_findings db)" "cf_id r = cf_id x" "cf_correlation_id r = cf_correlation_id x"
      using run_okD(5) [OF ok] unfolding has_row_def by cases blast+
    then have "cf_num x = cf_num r" by (simp add: cf_num_def)
    then show ?thesis using t(3,4) [OF r(1)] r(2,3) by simp
  qed
  have "finding_ok H db x" if x: "x \<in> set rows" for x
    using set_written_back [of x live "cdb_findings db"] x run_okD(4,7) [OF ok] unfolding d(1) by blast
  moreover have "tables_ok (db\<lparr>cdb_findings := rows\<rparr>)"
  proof -
    have "cm_correlation_id ` set (cdb_members db) \<subseteq> cf_correlation_id ` set rows"
      "ed_correlation_id ` set (cdb_edges db) \<subseteq> cf_correlation_id ` set rows"
      using t(6,7) unfolding ci by blast+
    moreover have "sorted_wrt (<) (map cf_num rows)" using t(5) unfolding num .
    moreover have "\<forall>x\<in>set rows. cf_correlation_id x = finding_public_id (cf_num x) \<and> cf_num x \<le> cf_id x"
      using each by blast
    ultimately show ?thesis using d(2,3) unfolding tables_ok_def by (intro conjI) (simp_all only: corr_db_rows)
  qed
  ultimately show "corr_ok H (db\<lparr>cdb_findings := rows\<rparr>)" by (simp add: corr_ok_def)
qed

lemma run_start:
  assumes "corr_ok H db" shows "run_ok H db (filter finding_live (cdb_findings db))"
proof -
  have t: "tables_ok db" using assms by (simp add: corr_ok_def)
  have f: "finding_ok H db x" if "x \<in> set (cdb_findings db)" for x using assms that by (simp add: corr_ok_def)
  have "distinct (map cf_id (filter finding_live (cdb_findings db)))"
    using ccl.ids_distinct [OF tables_okD(1) [OF t]] by (simp add: distinct_map_filter)
  then show ?thesis using t f unfolding run_ok_def has_row_def by auto
qed

end
