(* ===== verification/Corr_Props.thy ===== *)
theory Corr_Props
  imports Corr_Run
begin

text \<open>
  What a correlation run and an inactivity pass guarantee: the invariant of the tables,
  closed findings stay as they are, live findings only grow, a run by a single worker never
  meets a conflict, and inactivity has the effect of a reference definition.
\<close>

section \<open>A small store\<close>

definition empty_corr_db :: corr_db where
  "empty_corr_db = \<lparr>cdb_findings = [], cdb_seq = 0, cdb_members = [], cdb_edges = [], cdb_evidence = [], cdb_audit = []\<rparr>"

lemma corr_ok_empty: "corr_ok H empty_corr_db"
  by (simp add: corr_ok_def tables_ok_def empty_corr_db_def ccl.ids_ok_Nil ccl.one_live_Nil)

definition sample_finding :: finding where
  "sample_finding = \<lparr>cf_id = 1, cf_correlation_id = finding_public_id 1,
     cf_fingerprint = finding_fingerprint id ''USER_CHAIN'' [''BG-1'', ''BG-2''] [],
     cf_title = title_or ''USER_CHAIN'' [], cf_description = [], cf_status = ''NEW'', cf_type = ''USER_CHAIN'',
     cf_first_seen = 0, cf_last_seen = 5, cf_member_group_ids = [''BG-1'', ''BG-2''], cf_member_alert_ids = [],
     cf_entities = [], cf_hosts = [], cf_users = [], cf_source_ips = [], cf_mitre_tactics = [],
     cf_mitre_techniques = [], cf_observables = [], cf_confidence = fl (20/100), cf_highest_severity = ''low'',
     cf_created_at = 5, cf_updated_at = 5, cf_closed_at = None\<rparr>"

definition sample_corr_db :: corr_db where
  "sample_corr_db = \<lparr>cdb_findings = [sample_finding], cdb_seq = 1,
     cdb_members = map (\<lambda>g. \<lparr>cm_correlation_id = finding_public_id 1, cm_group_id = g, cm_reason = [], cm_role = ''member'',
        cm_created_at = 5\<rparr>) [''BG-1'', ''BG-2''],
     cdb_edges = [], cdb_evidence = [], cdb_audit = []\<rparr>"

lemma sample_corr_db_ok: "corr_ok id sample_corr_db"
proof -
  have "fl (20/100) \<le> fl (90/100)" by (rule fl_mono) simp
  then have "finding_ok id sample_corr_db sample_finding"
    using title_or_valid [of "''USER_CHAIN''" "[]"]
    by (simp add: finding_ok_def sample_corr_db_def sample_finding_def corr_members_of_def edges_of_def
        CORRELATION_STATUSES_def CORRELATION_TYPES_def)
  moreover have "tables_ok sample_corr_db"
    by (simp add: tables_ok_def sample_corr_db_def ccl.ids_ok_def ccl.one_live_def cf_num_def)
      (simp add: sample_finding_def)
  ultimately show ?thesis by (simp add: corr_ok_def sample_corr_db_def)
qed

section \<open>A run keeps the tables consistent\<close>

lemma correlate_InrD:
  assumes "correlate cfg H so wall alerts groups db now0 actor = Inr (db', live)"
  obtains ss db1 rows where "summaries_of alerts (sort_key (\<lambda>g. (bg_first_seen g, bg_id g)) groups) = Inr ss"
    "correlate_groups H so (map (\<lambda>s. (gs_id s, s)) ss) ss (filter (\<lambda>f. cf_status f = ''CLOSED'') (cdb_findings db))
       (now_or wall now0) actor ss (db, filter finding_live (cdb_findings db)) = Inr (db1, live)"
    "flush_findings live (cdb_findings db1) = Inr rows" "db' = db1\<lparr>cdb_findings := rows\<rparr>"
proof -
  have flush: "\<exists>rows. flush_findings b r = Inr rows \<and> db' = a\<lparr>cdb_findings := rows\<rparr> \<and> live = b"
    if "map_sum id (\<lambda>rows. (a\<lparr>cdb_findings := rows\<rparr>, b)) (flush_findings b r) = Inr (db', live)" for a b r
    using that by (cases "flush_findings b r") auto
  then show thesis using assms that unfolding correlate_def by (fastforce split: sum.splits prod.splits)
qed

lemma written_back_all:
  assumes "run_ok H db live" "f \<in> set live" shows "f \<in> set (written_back live (cdb_findings db))"
proof -
  have "cf_id f \<in> cf_id ` set (cdb_findings db)" using run_okD(5) [OF assms] unfolding has_row_def by (metis imageI)
  then show ?thesis by (rule written_back_live [OF assms(2) run_okD(2) [OF assms(1)]])
qed

lemma written_back_dead:
  assumes run: "run_ok H db live" and f: "f \<in> set (cdb_findings db)" "\<not> finding_live f"
  shows "f \<in> set (written_back live (cdb_findings db))"
proof -
  have "cf_id f \<notin> cf_id ` set live"
  proof
    assume "cf_id f \<in> cf_id ` set live"
    then obtain x where x: "x \<in> set live" "cf_id x = cf_id f" by auto
    then obtain q where q: "q \<in> set (cdb_findings db)" "cf_id q = cf_id f" "finding_live q"
      using run_okD(5) [OF run x(1)] unfolding has_row_def by auto
    have "q = f" using ccl.same_row [OF tables_okD(1) [OF run_okD(1) [OF run]] q(1)] f(1) q(2) by blast
    then show False using q(3) f(2) by simp
  qed
  then show ?thesis using f(1) by (intro written_back_keeps)
qed

lemma written_back_live_set:
  assumes run: "run_ok H db live"
  shows "set live = set (filter finding_live (written_back live (cdb_findings db)))"
proof (intro set_eqI iffI)
  fix f assume "f \<in> set (filter finding_live (written_back live (cdb_findings db)))"
  then show "f \<in> set live" using set_written_back [of f live "cdb_findings db"] run_okD(6) [OF run] by auto
qed (use written_back_all [OF run] run_okD(3) [OF run] in auto)

lemma advances_kept:
  assumes "advances (db, live) (db', live')" "f \<in> set live" obtains f' where "f' \<in> set live'" "kept_on f f'"
proof -
  obtain old new where o: "live' = old @ new" "list_all2 kept_on live old" using assms(1) by (auto simp: advances_def)
  then obtain f' where "f' \<in> set old" "kept_on f f'" using assms(2) by (metis list_all2_conv_all_nth in_set_conv_nth)
  then show thesis using that o(1) by auto
qed

text \<open>C7: correlation keeps its tables consistent: after a run every finding is backed by its
  child tables (the members and edges stored for it are the ones its columns name, its
  fingerprint is the one of its type, members and edges, its type, title and confidence are
  valid), ids and public ids are unique and at most one live finding owns a fingerprint.  A
  closed finding is left exactly as it was; a live one keeps its identity and its members in
  order and stays live.  The evidence and audit rows are not constrained.\<close>

theorem correlate_keeps_tables:
  assumes ok: "corr_ok H db" and c: "correlate cfg H so wall alerts groups db now0 actor = Inr (db', live)"
  shows "corr_ok H db' \<and> set live = set (filter finding_live (cdb_findings db'))
    \<and> (\<forall>f\<in>set (cdb_findings db). \<not> finding_live f \<longrightarrow> f \<in> set (cdb_findings db'))
    \<and> (\<forall>f\<in>set (cdb_findings db). finding_live f \<longrightarrow> (\<exists>f'\<in>set (cdb_findings db'). kept_on f f' \<and> finding_live f'))"
proof -
  let ?live0 = "filter finding_live (cdb_findings db)"
  from c obtain ss db1 rows where r: "correlate_groups H so (map (\<lambda>s. (gs_id s, s)) ss) ss
       (filter (\<lambda>f. cf_status f = ''CLOSED'') (cdb_findings db)) (now_or wall now0) actor ss (db, ?live0) = Inr (db1, live)"
    "flush_findings live (cdb_findings db1) = Inr rows" "db' = db1\<lparr>cdb_findings := rows\<rparr>"
    by (rule correlate_InrD)
  have run: "run_ok H db1 live" and adv: "advances (db, ?live0) (db1, live)"
    using correlate_groups_ok [OF _ _ r(1)] run_start [OF ok] by auto
  note d = commit_ok [OF run r(2)]
  have rows: "cdb_findings db' = written_back live (cdb_findings db1)" using r(3) d(2) by simp
  have pre: "set (cdb_findings db) \<subseteq> set (cdb_findings db1)"
    using adv by (auto simp: advances_def dest: set_mono_prefix)
  have "\<exists>f'\<in>set (cdb_findings db'). kept_on f f' \<and> finding_live f'"
    if f: "f \<in> set (cdb_findings db)" "finding_live f" for f
  proof -
    obtain f' where "f' \<in> set live" "kept_on f f'" using advances_kept [OF adv, of f] f by auto
    then show ?thesis using written_back_all [OF run] run_okD(3) [OF run] unfolding rows by blast
  qed
  then show ?thesis
    using d(1) r(3) written_back_live_set [OF run] written_back_dead [OF run] pre unfolding rows by blast
qed

theorem correlate_keeps_tables_witness:
  "\<exists>db' live. correlate dev_config id plain_order 9 [] [] sample_corr_db None ''system'' = Inr (db', live)
     \<and> corr_ok id db' \<and> live = [sample_finding]"
proof -
  have l: "filter finding_live (cdb_findings sample_corr_db) = [sample_finding]"
    by (simp add: sample_corr_db_def finding_live_def sample_finding_def)
  have c: "correlate dev_config id plain_order 9 [] [] sample_corr_db None ''system'' = Inr (sample_corr_db, [sample_finding])"
    unfolding correlate_def l by (simp add: flush_finding_def sample_corr_db_def)
  show ?thesis using correlate_keeps_tables [OF sample_corr_db_ok c] c by blast
qed

section \<open>Inactivity\<close>

text \<open>The effect of a pass on one finding, by the time since its last member.\<close>

definition expired :: "time \<Rightarrow> finding \<Rightarrow> finding" where
  "expired now f =
     (if finding_live f \<and> cf_last_seen f + minutes 240 < now
      then f\<lparr>cf_status := ''CLOSED'', cf_updated_at := now, cf_closed_at := Some now\<rparr>
      else if cf_status f \<in> {''NEW'', ''ACTIVE''} \<and> cf_last_seen f + minutes 120 < now
      then f\<lparr>cf_status := ''QUIET'', cf_updated_at := now\<rparr> else f)"

definition expires :: "time \<Rightarrow> finding \<Rightarrow> bool" where
  "expires now f \<longleftrightarrow> cf_status (expired now f) \<noteq> cf_status f"

lemma expire_finding_expired:
  "\<exists>audits. expire_finding f now actor = Inr (expired now f, audits) \<and> (audits \<noteq> [] \<longleftrightarrow> expires now f)"
proof -
  have m: "minutes 120 < minutes 240" by (simp add: minutes_def)
  consider (dead) "\<not> finding_live f" | (quiet) "cf_status f = ''QUIET''" | (awake) "cf_status f \<in> {''NEW'', ''ACTIVE''}"
    by (auto simp: finding_live_def)
  then show ?thesis
  proof cases
    case dead
    then show ?thesis
      by (auto simp: expire_finding_def quiet_step_def close_step_def expires_def expired_def finding_live_def)
  next
    case quiet
    then show ?thesis
      by (auto simp: expire_finding_def quiet_step_def close_step_def expires_def expired_def finding_live_def
          corr_close_cutoff_def CORRELATION_CLOSE_AFTER_MINUTES_def corr_apply_transition_simps(3))
  next
    case awake
    have q: "quiet_step f now actor = (if cf_last_seen f + minutes 120 < now
        then (f\<lparr>cf_status := ''QUIET'', cf_updated_at := now\<rparr>, [\<lparr>ca_correlation_id = cf_correlation_id f,
           ca_action = ''CORRELATION_QUIET'', ca_actor = actor,
           ca_details = [(''inactive_minutes'', DInt CORRELATION_QUIET_AFTER_MINUTES)], ca_created_at = now\<rparr>]) else (f, []))"
      using awake by (auto simp: quiet_step_def corr_quiet_cutoff_def CORRELATION_QUIET_AFTER_MINUTES_def
          corr_apply_transition_simps(2))
    show ?thesis
      using awake m
      by (auto simp: expire_finding_def q close_step_def expires_def expired_def finding_live_def
          corr_close_cutoff_def CORRELATION_CLOSE_AFTER_MINUTES_def corr_apply_transition_simps(3))
  qed
qed

lemma expire_findings_expired:
  "\<exists>audits. expire_findings fs now actor = Inr (map (expired now) fs, audits, map (expired now) (filter (expires now) fs))"
proof (induction fs)
  case (Cons f fs)
  obtain a where "expire_finding f now actor = Inr (expired now f, a)" "a \<noteq> [] \<longleftrightarrow> expires now f"
    using expire_finding_expired by blast
  then show ?case using Cons by auto
qed simp

lemma expired_simps [simp]:
  "cf_id (expired now f) = cf_id f" "cf_correlation_id (expired now f) = cf_correlation_id f"
  "cf_fingerprint (expired now f) = cf_fingerprint f" "cf_num (expired now f) = cf_num f"
  "cf_last_seen (expired now f) = cf_last_seen f"
  by (simp_all add: expired_def cf_num_def)

lemma expired_live: "finding_live (expired now f) \<Longrightarrow> finding_live f"
  by (auto simp: expired_def finding_live_def split: if_splits)

lemma expired_ok: "finding_ok H db f \<Longrightarrow> finding_ok H db (expired now f)"
  by (auto simp: finding_ok_def expired_def CORRELATION_STATUSES_def)

lemma expired_idem: "expired now (expired now f) = expired now f"
  by (auto simp: expired_def finding_live_def minutes_def)

lemma corr_ok_expired:
  assumes "corr_ok H db" shows "corr_ok H (db\<lparr>cdb_findings := map (expired now) (cdb_findings db), cdb_audit := a\<rparr>)"
proof -
  have t: "tables_ok db" using assms by (simp add: corr_ok_def)
  note d = tables_okD [OF t]
  let ?db = "db\<lparr>cdb_findings := map (expired now) (cdb_findings db), cdb_audit := a\<rparr>"
  have rows: "cdb_findings ?db = map (expired now) (cdb_findings db)" "cdb_seq ?db = cdb_seq db"
    "cdb_members ?db = cdb_members db" "cdb_edges ?db = cdb_edges db" by simp_all
  have kids: "corr_members_of ?db = corr_members_of db" "edges_of ?db = edges_of db"
    by (simp_all add: corr_members_of_def edges_of_def fun_eq_iff)
  have cids: "cf_correlation_id ` set (map (expired now) (cdb_findings db)) = cf_correlation_id ` set (cdb_findings db)"
    by (simp add: image_image)
  have "ccl.ids_ok (cdb_findings ?db) (cdb_seq ?db)" unfolding rows by (rule ccl.ids_ok_map [OF _ d(1)]) simp
  moreover have "ccl.one_live (cdb_findings ?db)" unfolding rows
    by (rule ccl.one_live_update [OF d(2)]) (use expired_live in simp)
  moreover have "sorted_wrt (<) (map cf_num (cdb_findings ?db))" unfolding rows using d(5) by (simp add: comp_def)
  moreover have "\<forall>f\<in>set (cdb_findings ?db). cf_correlation_id f = finding_public_id (cf_num f) \<and> cf_num f \<le> cf_id f"
    unfolding rows using d(3,4) by auto
  moreover have "cm_correlation_id ` set (cdb_members ?db) \<subseteq> cf_correlation_id ` set (cdb_findings ?db)"
    "ed_correlation_id ` set (cdb_edges ?db) \<subseteq> cf_correlation_id ` set (cdb_findings ?db)"
    unfolding rows cids using d(6,7) by blast+
  ultimately have "tables_ok ?db" unfolding tables_ok_def by (intro conjI)
  moreover have "finding_ok H ?db f" if "f \<in> set (cdb_findings ?db)" for f
  proof -
    obtain g where g: "g \<in> set (cdb_findings db)" "f = expired now g" using \<open>f \<in> set (cdb_findings ?db)\<close> by auto
    then have "finding_ok H db f" using assms expired_ok by (simp add: corr_ok_def)
    then show ?thesis by (simp add: finding_ok_def kids)
  qed
  ultimately show ?thesis by (simp add: corr_ok_def)
qed

text \<open>An inactivity pass refines a function on single findings: outside the production
  database it always succeeds, turns exactly the live findings silent for more than 240
  minutes to CLOSED (in one pass, whatever their status) and the NEW and ACTIVE ones silent
  for more than 120 minutes to QUIET, returns the changed ones, keeps the tables consistent,
  and a second pass at the same time changes nothing.\<close>

theorem expire_correlations_refines:
  assumes "corr_ok H db" "cfg_allow_prod cfg \<or> cfg_database cfg \<noteq> ''sentinel''"
  shows "\<exists>db'. expire_correlations cfg wall db now0 actor =
        Inr (db', map (expired (now_or wall now0)) (filter (expires (now_or wall now0)) (cdb_findings db)))
     \<and> cdb_findings db' = map (expired (now_or wall now0)) (cdb_findings db) \<and> corr_ok H db'
     \<and> (\<exists>db''. expire_correlations cfg wall db' now0 actor = Inr (db'', []) \<and> cdb_findings db'' = cdb_findings db')"
proof -
  let ?now = "now_or wall now0"
  obtain u where u: "ensure_not_production_db ''correlation'' cfg = Inr u" using assms(2) ensure_prod by blast
  obtain a where a: "expire_findings (cdb_findings db) ?now actor =
      Inr (map (expired ?now) (cdb_findings db), a, map (expired ?now) (filter (expires ?now) (cdb_findings db)))"
    using expire_findings_expired by blast
  let ?db' = "db\<lparr>cdb_findings := map (expired ?now) (cdb_findings db), cdb_audit := cdb_audit db @ a\<rparr>"
  have none: "filter (expires ?now) (map (expired ?now) fs) = []" for fs
    by (auto simp: filter_empty_conv expires_def expired_idem)
  have same: "map (expired ?now) (map (expired ?now) fs) = map (expired ?now) fs" for fs
    by (simp add: expired_idem)
  obtain b where b: "expire_findings (cdb_findings ?db') ?now actor = Inr (cdb_findings ?db', b, [])"
    using expire_findings_expired [of "cdb_findings ?db'" ?now actor] unfolding corr_db.simps(8) 
    by (auto simp: none same simp del: map_map)
  have "expire_correlations cfg wall db now0 actor = Inr (?db', map (expired ?now) (filter (expires ?now) (cdb_findings db)))"
    by (simp add: expire_correlations_def u a)
  moreover have "\<exists>db''. expire_correlations cfg wall ?db' now0 actor = Inr (db'', []) \<and> cdb_findings db'' = cdb_findings ?db'"
    by (simp only: expire_correlations_def u b sum.case map_sum.simps prod.case id_apply) auto
  ultimately show ?thesis using corr_ok_expired [OF assms(1)] by (intro exI [of _ ?db']) (simp del: map_map)
qed

theorem expire_correlations_refines_witness:
  "\<exists>db' f. expire_correlations dev_config 0 sample_corr_db (Some (minutes 300)) ''system'' = Inr (db', [f])
     \<and> cf_status f = ''CLOSED''"
proof -
  have "filter (expires (minutes 300)) (cdb_findings sample_corr_db) = [sample_finding]"
    "cf_status (expired (minutes 300) sample_finding) = ''CLOSED''"
    by (simp_all add: expires_def expired_def sample_corr_db_def sample_finding_def finding_live_def minutes_def)
  then show ?thesis
    using expire_correlations_refines [OF sample_corr_db_ok, of dev_config 0 "Some (minutes 300)" "''system''"]
    by (auto simp: dev_config_def)
qed

end
