(* ===== verification/Corr_Complete.thy ===== *)
theory Corr_Complete
  imports Corr_Props
begin

text \<open>
  A run by one worker, when the hash is injective on payloads: it never meets a conflict,
  commits, and places every group that matches an earlier one, beside a group it matches.
  The reason is that a group enters a finding only when no live finding has it: of two live
  findings, the one changed last has a member the other one lacks, so their fingerprints
  differ.
\<close>

section \<open>The fingerprint determines the members\<close>

lemma edge_json_cancel: "edge_json a @ r = edge_json b @ q \<Longrightarrow> a = b \<and> r = q"
  by (auto simp: edge_json_def json_obj_def json_str_inj)

lemma edge_json_start: "edge_json a @ r \<noteq> CHR '']'' # q"
  by (simp add: edge_json_def json_obj_def)

lemma finding_payload_members:
  assumes "finding_payload c ms es = finding_payload d ns fs" shows "set ms = set ns"
proof -
  have cut: "json_str ''edges'' @ '':'' @ json_arr (map edge_json (normalize_edges es)) @ '','' @ json_str ''member_group_ids'' @ '':'' @
        json_arr (map json_str (sort ms)) @ ''}''
      = json_str ''edges'' @ '':'' @ json_arr (map edge_json (normalize_edges fs)) @ '','' @ json_str ''member_group_ids'' @ '':'' @
        json_arr (map json_str (sort ns)) @ ''}''"
    using assms by (simp add: finding_payload_def json_obj_def json_str_inj)
  then have "join '','' (map edge_json (normalize_edges es)) @ '']'' @ ('','' @ json_str ''member_group_ids'' @ '':'' @
        json_arr (map json_str (sort ms)) @ ''}'')
      = join '','' (map edge_json (normalize_edges fs)) @ '']'' @ ('','' @ json_str ''member_group_ids'' @ '':'' @
        json_arr (map json_str (sort ns)) @ ''}'')"
    by (simp add: json_str_inj json_arr_def)
  then have "'','' @ json_str ''member_group_ids'' @ '':'' @ json_arr (map json_str (sort ms)) @ ''}''
      = '','' @ json_str ''member_group_ids'' @ '':'' @ json_arr (map json_str (sort ns)) @ ''}''"
    using json_items_cancel [where ren = edge_json, OF edge_json_cancel edge_json_start] by blast
  then have "join '','' (map json_str (sort ms)) @ '']'' @ ''}'' = join '','' (map json_str (sort ns)) @ '']'' @ ''}''"
    by (simp add: json_str_inj json_arr_def)
  then have "sort ms = sort ns"
    using json_items_cancel [where ren = json_str, OF json_str_cancel json_str_start] by blast
  then show ?thesis by (metis set_sort)
qed

definition fp_names :: "(string \<Rightarrow> string) \<Rightarrow> finding \<Rightarrow> bool" where
  "fp_names H f \<longleftrightarrow> (\<exists>c es. cf_fingerprint f = finding_fingerprint H c (cf_member_group_ids f) es)"

lemma fp_names_differ:
  assumes "inj H" "fp_names H f" "fp_names H q" "set (cf_member_group_ids f) \<noteq> set (cf_member_group_ids q)"
  shows "cf_fingerprint f \<noteq> cf_fingerprint q"
proof
  assume e: "cf_fingerprint f = cf_fingerprint q"
  obtain c es d fs where "cf_fingerprint f = H (finding_payload c (cf_member_group_ids f) es)"
    "cf_fingerprint q = H (finding_payload d (cf_member_group_ids q) fs)"
    using assms(2,3) unfolding fp_names_def finding_fingerprint_def by blast
  then have "finding_payload c (cf_member_group_ids f) es = finding_payload d (cf_member_group_ids q) fs"
    using e assms(1) by (simp add: inj_eq)
  then show False using finding_payload_members assms(4) by blast
qed

lemma finding_ok_names: "finding_ok H db f \<Longrightarrow> fp_names H f"
  unfolding finding_ok_def fp_names_def by blast

section \<open>Objects and rows stay apart\<close>

definition apart :: "corr_db \<Rightarrow> finding list \<Rightarrow> bool" where
  "apart db live \<longleftrightarrow> (\<forall>f\<in>set live. \<forall>q. (q \<in> set live \<or> q \<in> set (cdb_findings db) \<and> finding_live q) \<and> cf_id q \<noteq> cf_id f
     \<and> (f \<notin> set (cdb_findings db) \<or> q \<notin> set (cdb_findings db)) \<longrightarrow> set (cf_member_group_ids f) \<noteq> set (cf_member_group_ids q))"

definition sound_run :: "(string \<Rightarrow> string) \<Rightarrow> string set \<Rightarrow> corr_db \<Rightarrow> finding list \<Rightarrow> bool" where
  "sound_run H known db live \<longleftrightarrow> run_ok H db live \<and> (\<forall>q\<in>set (cdb_findings db). fp_names H q) \<and> apart db live
     \<and> (\<forall>f\<in>set live. set (cf_member_group_ids f) \<subseteq> known)"

lemma sound_runD:
  assumes "sound_run H known db live"
  shows "run_ok H db live" "q \<in> set (cdb_findings db) \<Longrightarrow> fp_names H q" "apart db live"
    "f \<in> set live \<Longrightarrow> set (cf_member_group_ids f) \<subseteq> known"
  using assms unfolding sound_run_def by blast+

lemma sound_run_notes: "only_notes db db' \<Longrightarrow> sound_run H known db live \<Longrightarrow> sound_run H known db' live"
  using only_notes_run [of db db' H live] by (simp add: sound_run_def apart_def only_notes_def)

text \<open>A group that no live object has is in no live row.\<close>

lemma not_in_rows:
  assumes ok: "run_ok H db live" and g: "\<forall>f\<in>set live. g \<notin> set (cf_member_group_ids f)"
    and q: "q \<in> set (cdb_findings db)" "finding_live q"
  shows "g \<notin> set (cf_member_group_ids q)"
proof -
  have "cf_id q \<in> cf_id ` set live" using run_okD(6) [OF ok q(1)] q(2) by blast
  then obtain f where f: "f \<in> set live" "cf_id f = cf_id q" by auto
  obtain r where r: "r \<in> set (cdb_findings db)" "cf_id r = cf_id f" "prefix (cf_member_group_ids r) (cf_member_group_ids f)"
    using run_okD(5) [OF ok f(1)] unfolding has_row_def by blast
  have "r = q" using ccl.same_row [OF tables_okD(1) [OF run_okD(1) [OF ok]] r(1) q(1)] r(2) f(2) by simp
  then have "set (cf_member_group_ids q) \<subseteq> set (cf_member_group_ids f)" using r(3) set_mono_prefix by blast
  then show ?thesis using g f(1) by blast
qed

lemma apart_replace:
  assumes ok: "run_ok H db (ls @ f # rs)" and a: "apart db (ls @ f # rs)"
    and g: "\<forall>x\<in>set (ls @ f # rs). g \<notin> set (cf_member_group_ids x)"
    and f': "cf_id f' = cf_id f" "g \<in> set (cf_member_group_ids f')"
  shows "apart db (ls @ f' # rs)"
  unfolding apart_def
proof (intro ballI allI impI, elim conjE)
  fix x q assume x: "x \<in> set (ls @ f' # rs)" and q: "q \<in> set (ls @ f' # rs) \<or> q \<in> set (cdb_findings db) \<and> finding_live q"
    and ne: "cf_id q \<noteq> cf_id x" and d: "x \<notin> set (cdb_findings db) \<or> q \<notin> set (cdb_findings db)"
  have old: "g \<notin> set (cf_member_group_ids y)" if "y \<in> set ls \<union> set rs \<or> (y \<in> set (cdb_findings db) \<and> finding_live y)" for y
    using that g not_in_rows [OF ok g] by auto
  have x': "x = f' \<or> x \<in> set ls \<union> set rs" using x by auto
  have q': "q = f' \<or> q \<in> set ls \<union> set rs \<or> (q \<in> set (cdb_findings db) \<and> finding_live q)" using q by auto
  consider "x = f'" "q \<noteq> f'" | "q = f'" "x \<noteq> f'" | "x \<noteq> f'" "q \<noteq> f'" using ne by auto
  then show "set (cf_member_group_ids x) \<noteq> set (cf_member_group_ids q)"
  proof cases
    case 1 then show ?thesis using old [of q] q' f'(2) by blast
  next
    case 2 then show ?thesis using old [of x] x' f'(2) by blast
  next
    case 3
    then have "x \<in> set (ls @ f # rs)" "q \<in> set (ls @ f # rs) \<or> q \<in> set (cdb_findings db) \<and> finding_live q" using x' q' by auto
    then show ?thesis using a ne d unfolding apart_def by blast
  qed
qed

lemma apart_add:
  assumes ok: "run_ok H db live" and a: "apart db live" and g: "\<forall>x\<in>set live. g \<notin> set (cf_member_group_ids x)"
    and f: "g \<in> set (cf_member_group_ids f)" and rows: "cdb_findings db' = cdb_findings db @ [f]"
  shows "apart db' (live @ [f])"
  unfolding apart_def
proof (intro ballI allI impI, elim conjE)
  fix x q assume x: "x \<in> set (live @ [f])" and q: "q \<in> set (live @ [f]) \<or> q \<in> set (cdb_findings db') \<and> finding_live q"
    and ne: "cf_id q \<noteq> cf_id x" and d: "x \<notin> set (cdb_findings db') \<or> q \<notin> set (cdb_findings db')"
  have old: "g \<notin> set (cf_member_group_ids y)" if "y \<in> set live \<or> (y \<in> set (cdb_findings db) \<and> finding_live y)" for y
    using that g not_in_rows [OF ok g] by auto
  have q': "q = f \<or> q \<in> set live \<or> (q \<in> set (cdb_findings db) \<and> finding_live q)" using q by (auto simp: rows)
  consider "x = f" "q \<noteq> f" | "q = f" "x \<noteq> f" | "x \<noteq> f" "q \<noteq> f" using ne by auto
  then show "set (cf_member_group_ids x) \<noteq> set (cf_member_group_ids q)"
  proof cases
    case 1 then show ?thesis using old [of q] q' f by blast
  next
    case 2 then show ?thesis using old [of x] x f by auto
  next
    case 3
    then have "x \<in> set live" "q \<in> set live \<or> q \<in> set (cdb_findings db) \<and> finding_live q" using x q' by auto
    moreover have "x \<notin> set (cdb_findings db) \<or> q \<notin> set (cdb_findings db)" using d by (auto simp: rows)
    ultimately show ?thesis using a ne unfolding apart_def by blast
  qed
qed

section \<open>No step meets a conflict\<close>

lemma lookup_summaries_Inr: "set ms \<subseteq> fst ` set sm \<Longrightarrow> \<exists>ss. lookup_summaries sm ms = Inr ss"
proof (induction ms)
  case (Cons m ms)
  then obtain ss where "lookup_summaries sm ms = Inr ss" by auto
  moreover obtain s where "map_of sm m = Some s" using Cons.prems by (cases "map_of sm m") (auto simp: map_of_eq_None_iff)
  ultimately show ?case by simp
qed simp

lemma extend_succeeds:
  assumes inj: "inj H" and s: "sound_run H (fst ` set sm) db live" and f: "f \<in> set live"
    and g: "\<forall>x\<in>set live. gs_id g \<notin> set (cf_member_group_ids x)" "gs_id g \<in> fst ` set sm"
  shows "\<exists>db' f'. extend_finding H so db f sm tail g ms now actor = Inr (db', Some f')"
proof -
  obtain rule rel reason where h: "hd ms = (rule, rel, reason)" by (metis prod_cases3)
  note ok = sound_runD(1) [OF s]
  have "set (cf_member_group_ids f @ [gs_id g]) \<subseteq> fst ` set sm" using sound_runD(4) [OF s f] g(2) by simp
  then obtain ss where ss: "lookup_summaries sm (cf_member_group_ids f @ [gs_id g]) = Inr ss" using lookup_summaries_Inr by blast
  let ?f1 = "extended_finding H ss (edges_of db (cf_correlation_id f) @ map edge_key (edges_for_pair so tail g ms rel)) tail g ms now f"
  have n: "fp_names H ?f1" unfolding fp_names_def extended_finding_simps using extended_finding_type(5) by blast
  have no: "\<not> (cf_fingerprint ?f1 \<noteq> cf_fingerprint f
     \<and> (\<exists>q\<in>set (cdb_findings db). cf_fingerprint q = cf_fingerprint ?f1 \<and> finding_live q \<and> cf_id q \<noteq> cf_id f))"
  proof (intro notI, elim conjE bexE)
    fix q assume q: "q \<in> set (cdb_findings db)" "cf_fingerprint q = cf_fingerprint ?f1" "finding_live q"
    have "gs_id g \<notin> set (cf_member_group_ids q)" using not_in_rows [OF ok g(1) q(1,3)] .
    then have "set (cf_member_group_ids ?f1) \<noteq> set (cf_member_group_ids q)" by auto
    then show False using fp_names_differ [OF inj n sound_runD(2) [OF s q(1)]] q(2) by simp
  qed
  have "cf_status ?f1 \<in> {''NEW'', ''ACTIVE'', ''QUIET''}" using run_okD(3) [OF ok f] by (simp add: finding_live_def)
  then have "\<exists>f2. (if cf_status f = ''NEW'' \<or> cf_status f = ''QUIET'' then map_sum id fst (corr_apply_transition ?f1 ''ACTIVE'' now)
      else Inr ?f1) = Inr f2"
    using corr_apply_transition_simps(1) [of ?f1 now] by auto
  then obtain f2 where tr: "(if cf_status f = ''NEW'' \<or> cf_status f = ''QUIET'' then map_sum id fst (corr_apply_transition ?f1 ''ACTIVE'' now)
      else Inr ?f1) = Inr f2" by blast
  show ?thesis unfolding extend_finding_def h Let_def prod.case ss sum.case if_not_P [OF no] tr by blast
qed

lemma create_succeeds:
  assumes inj: "inj H" and s: "sound_run H known db live" and g: "\<forall>x\<in>set live. gs_id g \<notin> set (cf_member_group_ids x)"
  shows "\<exists>db' f'. create_finding H so db e g ms now actor = Inr (db', Some f')"
proof -
  obtain rule rel reason where h: "hd ms = (rule, rel, reason)" by (metis prod_cases3)
  note ok = sound_runD(1) [OF s]
  let ?c = "candidate_finding H so e g ms now"
  note cs = candidate_finding_simps [OF h refl refl, where H = H and so = so and e = e and l = g and now = now]
  have n: "fp_names H ?c" unfolding fp_names_def using cs(2,9) by metis
  have "cf_fingerprint q \<noteq> cf_fingerprint ?c" if q: "q \<in> set (cdb_findings db)" "finding_live q" for q
  proof -
    have "gs_id g \<notin> set (cf_member_group_ids q)" using not_in_rows [OF ok g q] .
    then have "set (cf_member_group_ids ?c) \<noteq> set (cf_member_group_ids q)" unfolding cs(2) by auto
    then show ?thesis using fp_names_differ [OF inj n sound_runD(2) [OF s q(1)]] by metis
  qed
  then have no: "\<not> (\<exists>q\<in>set (cdb_findings db). cf_fingerprint q = cf_fingerprint ?c \<and> finding_live q)" by blast
  have "finding_live ?c" using cs(1) by (simp add: finding_live_def)
  then have "claim_finding db ?c = Inr (db\<lparr>cdb_findings := cdb_findings db @ [new_finding db ?c], cdb_seq := Suc (cdb_seq db)\<rparr>,
        Some (new_finding db ?c, True))"
    using claim_finding_cases [OF run_okD(1) [OF ok]] no by blast
  then show ?thesis by (simp add: create_finding_def h Let_def)
qed

section \<open>The loops\<close>

lemma try_extend_succeeds:
  assumes inj: "inj H" and g: "gs_id g \<in> fst ` set sm"
  shows "sound_run H (fst ` set sm) db (done @ live) \<Longrightarrow> \<forall>x\<in>set (done @ live). gs_id g \<notin> set (cf_member_group_ids x) \<Longrightarrow>
    \<exists>db' live' h. try_extend H so sm g now actor db live = Inr (db', live', h)"
proof (induction live arbitrary: db "done")
  case (Cons f fs)
  have next_ok: "\<exists>db' live' h. try_extend H so sm g now actor db fs = Inr (db', live', h)"
    using Cons.IH [of db "done @ [f]"] Cons.prems by simp
  show ?case
  proof (cases "tail_of sm f")
    case None
    then show ?thesis using next_ok by (auto simp: Let_def)
  next
    case (Some tail)
    show ?thesis
    proof (cases "match_pair so tail g = []")
      case True
      then show ?thesis using next_ok Some by (auto simp: Let_def)
    next
      case False
      obtain db1 f1 where "extend_finding H so db f sm tail g (match_pair so tail g) now actor = Inr (db1, Some f1)"
        using extend_succeeds [OF inj Cons.prems(1) _ Cons.prems(2) g] by (metis in_set_conv_decomp)
      then have "try_extend H so sm g now actor db (f # fs) = Inr (db1, f1 # fs, True)" using Some False by (simp add: Let_def)
      then show ?thesis by blast
    qed
  qed
next
  case Nil
  have "try_extend H so sm g now actor db [] = Inr (db, [], False)" by simp
  then show ?case by blast
qed

lemma try_create_succeeds:
  assumes inj: "inj H" and s: "sound_run H known db live" and g: "\<forall>x\<in>set live. gs_id g \<notin> set (cf_member_group_ids x)"
  shows "\<exists>db' r. try_create H so g now actor db live es = Inr (db', r)
     \<and> (r = None \<longrightarrow> sorted (map gs_first_seen es) \<longrightarrow>
         (\<forall>e\<in>set es. gs_id e \<noteq> gs_id g \<longrightarrow> gs_first_seen e \<le> gs_first_seen g \<longrightarrow> match_pair so e g = []))"
proof (induction es)
  case (Cons e es)
  obtain db' r where i: "try_create H so g now actor db live es = Inr (db', r)"
    "r = None \<longrightarrow> sorted (map gs_first_seen es) \<longrightarrow>
         (\<forall>e\<in>set es. gs_id e \<noteq> gs_id g \<longrightarrow> gs_first_seen e \<le> gs_first_seen g \<longrightarrow> match_pair so e g = [])"
    using Cons by blast
  have joint: "\<not> (\<exists>f\<in>set live. gs_id e \<in> set (cf_member_group_ids f) \<and> gs_id g \<in> set (cf_member_group_ids f))" using g by blast
  consider (same) "gs_id e = gs_id g" | (late) "gs_id e \<noteq> gs_id g" "gs_first_seen g < gs_first_seen e"
    | (none) "gs_id e \<noteq> gs_id g" "\<not> gs_first_seen g < gs_first_seen e" "match_pair so e g = []"
    | (pair) "gs_id e \<noteq> gs_id g" "\<not> gs_first_seen g < gs_first_seen e" "match_pair so e g \<noteq> []" by blast
  then show ?case
  proof cases
    case same then show ?thesis using i by simp
  next
    case late
    have "gs_first_seen g < gs_first_seen x" if "sorted (map gs_first_seen (e # es))" "x \<in> set (e # es)" for x
      using that late(2) by auto
    then show ?thesis using late by fastforce
  next
    case none then show ?thesis using i joint by (simp add: Let_def)
  next
    case pair
    obtain db1 f where "create_finding H so db e g (match_pair so e g) now actor = Inr (db1, Some f)"
      using create_succeeds [OF inj s g] by blast
    then have "try_create H so g now actor db live (e # es) = Inr (db1, Some f)"
      unfolding try_create.simps if_not_P [OF joint] using pair by (simp add: Let_def)
    then show ?thesis by simp
  qed
qed simp

definition placed :: "string \<Rightarrow> finding list \<Rightarrow> bool" where
  "placed g live \<longleftrightarrow> (\<exists>f\<in>set live. g \<in> set (cf_member_group_ids f))"

lemma placed_advances: "advances st st' \<Longrightarrow> placed g (snd st) \<Longrightarrow> placed g (snd st')"
proof -
  assume a: "advances st st'" "placed g (snd st)"
  obtain old new where o: "snd st' = old @ new" "list_all2 kept_on (snd st) old" using a(1) unfolding advances_def by blast
  obtain f where f: "f \<in> set (snd st)" "g \<in> set (cf_member_group_ids f)" using a(2) unfolding placed_def by blast
  obtain f' where "f' \<in> set old" "kept_on f f'" using o(2) f(1) by (metis list_all2_conv_all_nth in_set_conv_nth)
  then show ?thesis using f(2) o(1) unfolding placed_def kept_on_def by (auto dest: set_mono_prefix)
qed

text \<open>Every member of a finding that was not a member before the run shares the finding with
  a group that it matches.\<close>

definition linked :: "set_order \<Rightarrow> (string \<times> group_summary) list \<Rightarrow> string \<Rightarrow> string \<Rightarrow> bool" where
  "linked so sm x y \<longleftrightarrow> x \<noteq> y \<and> (\<exists>sx sy. (x, sx) \<in> set sm \<and> (y, sy) \<in> set sm \<and> (match_pair so sx sy \<noteq> [] \<or> match_pair so sy sx \<noteq> []))"

definition partnered :: "set_order \<Rightarrow> (string \<times> group_summary) list \<Rightarrow> string set \<Rightarrow> finding list \<Rightarrow> bool" where
  "partnered so sm old live \<longleftrightarrow> (\<forall>f\<in>set live. \<forall>x\<in>set (cf_member_group_ids f).
     x \<in> old \<or> (\<exists>y\<in>set (cf_member_group_ids f). linked so sm x y))"

lemma linkedI:
  "(gs_id a, a) \<in> set sm \<Longrightarrow> (gs_id b, b) \<in> set sm \<Longrightarrow> gs_id a \<noteq> gs_id b \<Longrightarrow> match_pair so a b \<noteq> []
   \<Longrightarrow> linked so sm (gs_id a) (gs_id b) \<and> linked so sm (gs_id b) (gs_id a)"
  unfolding linked_def by metis

lemma partnered_extend:
  assumes p: "partnered so sm old (ls @ f # rs)" and f': "cf_member_group_ids f' = cf_member_group_ids f @ [x]"
    and y: "y \<in> set (cf_member_group_ids f)" "linked so sm x y"
  shows "partnered so sm old (ls @ f' # rs)"
proof -
  have "z \<in> old \<or> (\<exists>y\<in>set (cf_member_group_ids f'). linked so sm z y)" if "z \<in> set (cf_member_group_ids f')" for z
  proof (cases "z = x")
    case True
    then show ?thesis using y f' by auto
  next
    case False
    then have "z \<in> set (cf_member_group_ids f)" using that f' by simp
    then show ?thesis using p f' unfolding partnered_def by fastforce
  qed
  then show ?thesis using p unfolding partnered_def by auto
qed

lemma partnered_add:
  assumes "partnered so sm old live" "cf_member_group_ids f = [x, y]" "linked so sm x y" "linked so sm y x"
  shows "partnered so sm old (live @ [f])"
  using assms by (auto simp: partnered_def)

lemma correlate_group_succeeds:
  assumes inj: "inj H" and s: "sound_run H (fst ` set sm) db live" and sm: "\<forall>(k, s)\<in>set sm. gs_id s = k"
    and gsm: "(gs_id g, g) \<in> set sm" and esm: "\<forall>e\<in>set groups. (gs_id e, e) \<in> set sm"
    and sorted: "sorted (map gs_first_seen groups)" and part: "partnered so sm old live"
  shows "\<exists>db' live'. correlate_group H so sm groups shut now actor g (db, live) = Inr (db', live')
     \<and> sound_run H (fst ` set sm) db' live' \<and> partnered so sm old live'
     \<and> (placed (gs_id g) live' \<or>
         (\<forall>e\<in>set groups. gs_id e \<noteq> gs_id g \<longrightarrow> gs_first_seen e \<le> gs_first_seen g \<longrightarrow> match_pair so e g = []))"
proof (cases "placed (gs_id g) live")
  case True
  then have "correlate_group H so sm groups shut now actor g (db, live) = Inr (db, live)"
    by (simp add: correlate_group_def placed_def)
  then show ?thesis using s True part by blast
next
  case False
  have g: "gs_id g \<in> fst ` set sm" using gsm by force
  have groups: "\<forall>e\<in>set groups. gs_id e \<in> fst ` set sm" using esm by force
  from False have no: "\<forall>x\<in>set live. gs_id g \<notin> set (cf_member_group_ids x)" by (simp add: placed_def)
  note ok = sound_runD(1) [OF s]
  obtain db1 live1 h where te: "try_extend H so sm g now actor db live = Inr (db1, live1, h)"
    using try_extend_succeeds [OF inj g, of db "[]" live so now actor] s no by auto
  from te show ?thesis
  proof (cases rule: try_extend_cases)
    case (attached ls f rs f' dbx tail)
    have r: "correlate_group H so sm groups shut now actor g (db, live) = Inr (db1, live1)"
      using no te attached(1) by (auto simp: correlate_group_def)
    have sx: "sound_run H (fst ` set sm) dbx (ls @ f # rs)" using sound_run_notes [OF attached(4) s] attached(2) by simp
    have ng: "\<forall>x\<in>set (ls @ f # rs). gs_id g \<notin> set (cf_member_group_ids x)" using no attached(2) by simp
    have nf: "gs_id g \<notin> set (cf_member_group_ids f)" using ng by simp
    note e = extend_finding_ok [OF sound_runD(1) [OF sx] nf tail_of_member(1) [OF attached(5) sm] attached(7)]
    have gm: "gs_id g \<in> set (cf_member_group_ids f')" by (simp add: e(4))
    have "apart db1 live1" using apart_replace [OF sound_runD(1,3) [OF sx] ng e(2) gm] attached(3) by (simp add: apart_def e(5))
    moreover have "\<forall>x\<in>set live1. set (cf_member_group_ids x) \<subseteq> fst ` set sm"
      using sound_runD(4) [OF sx] g by (auto simp: attached(3) e(4))
    ultimately have "sound_run H (fst ` set sm) db1 live1"
      using e(1,5) sound_runD(2) [OF sx] attached(3) unfolding sound_run_def by simp
    moreover have "placed (gs_id g) live1" using gm by (simp add: placed_def attached(3))
    moreover have "partnered so sm old live1"
    proof -
      note tm = tail_of_member(1) [OF attached(5) sm]
      obtain k where "(k, tail) \<in> set sm" using attached(5) map_of_SomeD by (fastforce simp: tail_of_def Let_def split: if_splits)
      then have "(gs_id tail, tail) \<in> set sm" using sm by auto
      moreover have "gs_id tail \<noteq> gs_id g" using tm nf by metis
      ultimately have "linked so sm (gs_id g) (gs_id tail)" using linkedI [OF _ gsm] attached(6) by blast
      then show ?thesis using partnered_extend [OF part [unfolded attached(2)] e(4) tm] unfolding attached(3) by blast
    qed
    ultimately show ?thesis using r by blast
  next
    case idle
    have s1: "sound_run H (fst ` set sm) db1 live" using sound_run_notes [OF idle(3) s] .
    obtain db2 r where tc: "try_create H so g now actor db1 live groups = Inr (db2, r)"
      and none: "r = None \<longrightarrow> (\<forall>e\<in>set groups. gs_id e \<noteq> gs_id g \<longrightarrow> gs_first_seen e \<le> gs_first_seen g \<longrightarrow> match_pair so e g = [])"
      using try_create_succeeds [OF inj s1 no, of so now actor groups] sorted by blast
    from run_okD(1) [OF sound_runD(1) [OF s1]] tc show ?thesis
    proof (cases rule: try_create_cases)
      case idle2: idle
      let ?db = "note_reopen so sm shut g now actor db2"
      have "correlate_group H so sm groups shut now actor g (db, live) = Inr (?db, live)"
        using no te idle tc idle2(1) by (auto simp: correlate_group_def)
      moreover have "sound_run H (fst ` set sm) ?db live"
        using sound_run_notes [OF only_notes_trans [OF idle2(2) only_notes_reopen] s1] .
      ultimately show ?thesis using none idle2(1) part by blast
    next
      case (made e dbx f)
      have r: "correlate_group H so sm groups shut now actor g (db, live) = Inr (db2, live @ [f])"
        using no te idle tc made(1) by (auto simp: correlate_group_def)
      have sx: "sound_run H (fst ` set sm) dbx live" using sound_run_notes [OF made(5) s1] .
      note c = create_finding_ok [OF sound_runD(1) [OF sx] made(3,6)]
      have gm: "gs_id g \<in> set (cf_member_group_ids f)" by (simp add: c(2))
      have "apart db2 (live @ [f])" by (rule apart_add [OF sound_runD(1,3) [OF sx] no gm c(3)])
      moreover have "fp_names H f" using run_okD(4) [OF c(1), of f] finding_ok_names [of H db2 f] by simp
      moreover have "set (cf_member_group_ids f) \<subseteq> fst ` set sm" using g groups made(2) by (simp add: c(2))
      ultimately have "sound_run H (fst ` set sm) db2 (live @ [f])"
        using c(1) sound_runD(2,4) [OF sx] unfolding sound_run_def by (auto simp: c(3))
      moreover have "placed (gs_id g) (live @ [f])" using gm by (simp add: placed_def)
      moreover have "partnered so sm old (live @ [f])"
        using partnered_add [OF part c(2)] linkedI [OF _ gsm made(3,4)] esm made(2) by blast
      ultimately show ?thesis using r by blast
    qed
  qed
qed

lemma correlate_groups_succeeds:
  assumes inj: "inj H" and sm: "\<forall>(k, s)\<in>set sm. gs_id s = k"
    and esm: "\<forall>e\<in>set groups. (gs_id e, e) \<in> set sm" and sorted: "sorted (map gs_first_seen groups)"
  shows "sound_run H (fst ` set sm) (fst st) (snd st) \<Longrightarrow> partnered so sm old (snd st) \<Longrightarrow> set gs \<subseteq> set groups \<Longrightarrow>
    \<exists>st'. correlate_groups H so sm groups shut now actor gs st = Inr st' \<and> sound_run H (fst ` set sm) (fst st') (snd st')
     \<and> partnered so sm old (snd st')
     \<and> (\<forall>g\<in>set gs. placed (gs_id g) (snd st') \<or>
         (\<forall>e\<in>set groups. gs_id e \<noteq> gs_id g \<longrightarrow> gs_first_seen e \<le> gs_first_seen g \<longrightarrow> match_pair so e g = []))"
proof (induction gs arbitrary: st)
  case (Cons g gs)
  have gin: "(gs_id g, g) \<in> set sm" using esm Cons.prems(3) by simp
  obtain st1 where st1: "correlate_group H so sm groups shut now actor g st = Inr st1"
    "sound_run H (fst ` set sm) (fst st1) (snd st1)" "partnered so sm old (snd st1)"
    "placed (gs_id g) (snd st1) \<or>
         (\<forall>e\<in>set groups. gs_id e \<noteq> gs_id g \<longrightarrow> gs_first_seen e \<le> gs_first_seen g \<longrightarrow> match_pair so e g = [])"
    using correlate_group_succeeds [OF inj _ sm gin esm sorted Cons.prems(2), of "fst st" shut now actor] Cons.prems(1) by auto
  have sub: "set gs \<subseteq> set groups" using Cons.prems(3) by simp
  obtain st' where st': "correlate_groups H so sm groups shut now actor gs st1 = Inr st'" "sound_run H (fst ` set sm) (fst st') (snd st')"
    "partnered so sm old (snd st')"
    "\<forall>g\<in>set gs. placed (gs_id g) (snd st') \<or>
         (\<forall>e\<in>set groups. gs_id e \<noteq> gs_id g \<longrightarrow> gs_first_seen e \<le> gs_first_seen g \<longrightarrow> match_pair so e g = [])"
    using Cons.IH [OF st1(2,3) sub] by blast
  have "advances st1 st'" using correlate_groups_ok [OF sound_runD(1) [OF st1(2)] sm st'(1)] by blast
  then have "placed (gs_id g) (snd st1) \<Longrightarrow> placed (gs_id g) (snd st')" by (rule placed_advances)
  then show ?case using st1(1,4) st' by (intro exI [of _ st']) auto
qed simp

section \<open>The commit\<close>

lemma flush_findings_succeeds:
  assumes ids: "ccl.ids_ok rows n" and d: "distinct (map cf_id fs)"
    and row: "\<forall>f\<in>set fs. \<exists>r\<in>set rows. cf_id r = cf_id f"
    and no: "\<forall>f\<in>set fs. f \<notin> set rows \<longrightarrow>
       (\<forall>q. (q \<in> set rows \<or> q \<in> set fs) \<and> finding_live q \<and> cf_id q \<noteq> cf_id f \<longrightarrow> cf_fingerprint q \<noteq> cf_fingerprint f)"
  shows "\<exists>rows'. flush_findings fs rows = Inr rows'"
  using assms
proof (induction fs arbitrary: rows)
  case (Cons f fs)
  let ?rows = "update_row cf_id (cf_id f) (\<lambda>_. f) rows"
  have fl: "flush_finding f rows = Inr ?rows"
  proof (cases "f \<in> set rows")
    case True
    then show ?thesis using update_same_row [OF Cons.prems(1)] by (simp add: flush_finding_def)
  next
    case False
    then have "\<not> (finding_live f \<and> (\<exists>q\<in>set rows. cf_fingerprint q = cf_fingerprint f \<and> finding_live q \<and> cf_id q \<noteq> cf_id f))"
      using Cons.prems(4) by auto
    then show ?thesis using False by (simp add: flush_finding_def)
  qed
  have m: "map cf_id ?rows = map cf_id rows" by (rule map_update_row) simp
  then have i: "ccl.ids_ok ?rows n" using Cons.prems(1) ccl.ids_ok_cong [OF m] by simp
  have ids: "cf_id ` set ?rows = cf_id ` set rows" using m by (metis image_set)
  have r: "\<forall>x\<in>set fs. \<exists>r\<in>set ?rows. cf_id r = cf_id x"
  proof
    fix x assume "x \<in> set fs"
    then have "cf_id x \<in> cf_id ` set ?rows" unfolding ids using Cons.prems(3) by (metis imageI list.set_intros(2))
    then show "\<exists>r\<in>set ?rows. cf_id r = cf_id x" by auto
  qed
  have "cf_fingerprint q \<noteq> cf_fingerprint x"
    if x: "x \<in> set fs" "x \<notin> set ?rows" and q: "q \<in> set ?rows \<or> q \<in> set fs" "finding_live q" "cf_id q \<noteq> cf_id x" for x q
  proof -
    have "cf_id x \<noteq> cf_id f" using Cons.prems(2) imageI [OF x(1), of cf_id] by auto
    then have "x \<notin> set rows" using x(2) by (auto simp: set_update_row)
    moreover have "q \<in> set rows \<or> q \<in> set (f # fs)" using q(1) by (auto simp: set_update_row split: if_splits)
    ultimately show ?thesis using Cons.prems(4) x(1) q(2,3) by auto
  qed
  then have "\<exists>rows'. flush_findings fs ?rows = Inr rows'" using Cons.IH [OF i _ r] Cons.prems(2) by auto
  then show ?case by (simp add: fl)
qed simp

lemma commit_succeeds:
  assumes inj: "inj H" and s: "sound_run H known db live"
  shows "\<exists>rows. flush_findings live (cdb_findings db) = Inr rows"
proof (rule flush_findings_succeeds)
  note ok = sound_runD(1) [OF s]
  show "ccl.ids_ok (cdb_findings db) (cdb_seq db)" "distinct (map cf_id live)"
    using tables_okD(1) [OF run_okD(1) [OF ok]] run_okD(2) [OF ok] by blast+
  show "\<forall>f\<in>set live. \<exists>r\<in>set (cdb_findings db). cf_id r = cf_id f" using run_okD(5) [OF ok] unfolding has_row_def by blast
  show "\<forall>f\<in>set live. f \<notin> set (cdb_findings db) \<longrightarrow> (\<forall>q. (q \<in> set (cdb_findings db) \<or> q \<in> set live) \<and> finding_live q
      \<and> cf_id q \<noteq> cf_id f \<longrightarrow> cf_fingerprint q \<noteq> cf_fingerprint f)"
  proof (intro ballI impI allI, elim conjE)
    fix f q assume f: "f \<in> set live" "f \<notin> set (cdb_findings db)"
      and q: "q \<in> set (cdb_findings db) \<or> q \<in> set live" "finding_live q" "cf_id q \<noteq> cf_id f"
    have "set (cf_member_group_ids f) \<noteq> set (cf_member_group_ids q)"
      using sound_runD(3) [OF s] f q unfolding apart_def by blast
    moreover have "fp_names H f" using run_okD(4) [OF ok f(1)] finding_ok_names by blast
    moreover have "fp_names H q" using q(1) sound_runD(2) [OF s] run_okD(4) [OF ok] finding_ok_names by blast
    ultimately show "cf_fingerprint q \<noteq> cf_fingerprint f" using fp_names_differ [OF inj] by metis
  qed
qed

section \<open>The run\<close>

lemma summaries_of_Inr:
  "\<forall>g\<in>set gs. bg_alert_ids g = [] \<or> (\<exists>a\<in>set alerts. al_alert_id a \<in> set (bg_alert_ids g)) \<Longrightarrow>
   \<exists>ss. summaries_of alerts gs = Inr ss \<and> map gs_id ss = map bg_group_id gs \<and> map gs_first_seen ss = map bg_first_seen gs"
proof (induction gs)
  case (Cons g gs)
  have "\<exists>s. summary_of_group alerts g = Inr s \<and> gs_id s = bg_group_id g \<and> gs_first_seen s = bg_first_seen g"
  proof -
    have "\<exists>f. family_of_group alerts g = Inr f"
    proof (cases "bg_alert_ids g = []")
      case False
      let ?fs = "map (\<lambda>a. case map_of DETECTOR_BEHAVIOR_FAMILIES (al_detector_id a) of
                               None \<Rightarrow> BEHAVIOR_FAMILY_DEFAULT | Some f \<Rightarrow> f)
                   (filter (\<lambda>a. al_alert_id a \<in> set (bg_alert_ids g)) alerts)"
      have "?fs \<noteq> []" using Cons.prems False by (auto simp: filter_empty_conv)
      then have "pyset ?fs \<noteq> []" by (metis set_empty set_pyset)
      then show ?thesis using False by (cases "pyset ?fs") (simp_all add: family_of_group_def)
    qed (simp add: family_of_group_def)
    then show ?thesis by (auto simp: summary_of_group_def)
  qed
  then show ?case using Cons by auto
qed simp

lemma summaries_of_mem:
  "summaries_of alerts gs = Inr ss \<Longrightarrow> g \<in> set gs \<Longrightarrow> summary_of_group alerts g = Inr s \<Longrightarrow> s \<in> set ss"
proof (induction gs arbitrary: ss)
  case (Cons y gs)
  then show ?case by (cases "summary_of_group alerts y"; cases "summaries_of alerts gs") auto
qed simp

lemma summaries_of_origin:
  "summaries_of alerts gs = Inr ss \<Longrightarrow> s \<in> set ss \<Longrightarrow> \<exists>g\<in>set gs. summary_of_group alerts g = Inr s"
proof (induction gs arbitrary: ss)
  case (Cons y gs)
  then show ?case by (cases "summary_of_group alerts y"; cases "summaries_of alerts gs") auto
qed simp

lemma summary_of_group_ids:
  "summary_of_group alerts g = Inr s \<Longrightarrow> gs_id s = bg_group_id g \<and> gs_first_seen s = bg_first_seen g"
  by (cases "family_of_group alerts g") (auto simp: summary_of_group_def)

definition groups_match :: "set_order \<Rightarrow> alert list \<Rightarrow> group \<Rightarrow> group \<Rightarrow> bool" where
  "groups_match so alerts e g \<longleftrightarrow>
     (\<exists>se sg. summary_of_group alerts e = Inr se \<and> summary_of_group alerts g = Inr sg \<and> match_pair so se sg \<noteq> [])"

text \<open>C17: a run of one worker succeeds, and places exactly what matches.  When every live
  finding's members are behavior groups of the table and every group's alerts can be found,
  \<open>correlate\<close> never raises (no extension is rejected, no claim is lost, the commit meets
  no conflict).  Afterwards each group that matches a group first seen no later than itself
  is a member of a live finding, and each member of a live finding was one before the run or
  shares the finding with a group that it matches.  The earlier group of a pair need not be
  in that finding, or in any: a group joins the first finding whose last member it matches.\<close>

theorem correlate_succeeds:
  assumes inj: "inj H" and ok: "corr_ok H db" and cfg: "cfg_allow_prod cfg \<or> cfg_database cfg \<noteq> ''sentinel''"
    and alerts: "\<forall>g\<in>set groups. bg_alert_ids g = [] \<or> (\<exists>a\<in>set alerts. al_alert_id a \<in> set (bg_alert_ids g))"
    and known: "\<forall>f\<in>set (cdb_findings db). finding_live f \<longrightarrow> set (cf_member_group_ids f) \<subseteq> bg_group_id ` set groups"
  shows "\<exists>db' live. correlate cfg H so wall alerts groups db now0 actor = Inr (db', live)
     \<and> (\<forall>g\<in>set groups. \<forall>e\<in>set groups. bg_group_id e \<noteq> bg_group_id g \<and> bg_first_seen e \<le> bg_first_seen g
          \<and> groups_match so alerts e g \<longrightarrow> placed (bg_group_id g) live)
     \<and> (\<forall>f\<in>set live. \<forall>x\<in>set (cf_member_group_ids f).
          (\<exists>q\<in>set (cdb_findings db). finding_live q \<and> x \<in> set (cf_member_group_ids q))
        \<or> (\<exists>g\<in>set groups. \<exists>p\<in>set groups. bg_group_id g = x \<and> bg_group_id p \<noteq> x \<and> bg_group_id p \<in> set (cf_member_group_ids f)
              \<and> (groups_match so alerts p g \<or> groups_match so alerts g p)))"
proof -
  let ?gs = "sort_key (\<lambda>g. (bg_first_seen g, bg_id g)) groups"
  obtain u where u: "ensure_not_production_db ''correlation'' cfg = Inr u" using cfg ensure_prod by blast
  obtain ss where ss: "summaries_of alerts ?gs = Inr ss" "map gs_id ss = map bg_group_id ?gs" "map gs_first_seen ss = map bg_first_seen ?gs"
    using summaries_of_Inr [of ?gs alerts] alerts by auto
  let ?sm = "map (\<lambda>s. (gs_id s, s)) ss"
  have keys: "fst ` set ?sm = gs_id ` set ss" by (simp add: image_image)
  have "gs_id ` set ss = bg_group_id ` set ?gs" using ss(2) by (metis image_set)
  then have ids: "fst ` set ?sm = bg_group_id ` set groups" unfolding keys by simp
  have "sorted (map (\<lambda>g. (bg_first_seen g, bg_id g)) ?gs)" by simp
  then have "sorted (map bg_first_seen ?gs)"
    unfolding sorted_map by (rule sorted_wrt_mono_rel [rotated]) (auto simp: less_eq_prod_def split: if_splits)
  then have sorted: "sorted (map gs_first_seen ss)" unfolding ss(3) .
  let ?live0 = "filter finding_live (cdb_findings db)"
  let ?old = "{x. \<exists>q\<in>set (cdb_findings db). finding_live q \<and> x \<in> set (cf_member_group_ids q)}"
  have "apart db ?live0" by (auto simp: apart_def)
  moreover have "\<forall>q\<in>set (cdb_findings db). fp_names H q" using ok finding_ok_names by (auto simp: corr_ok_def)
  ultimately have s0: "sound_run H (fst ` set ?sm) (fst (db, ?live0)) (snd (db, ?live0))"
    using run_start [OF ok] known unfolding sound_run_def ids by auto
  have p0: "partnered so ?sm ?old (snd (db, ?live0))" by (auto simp: partnered_def)
  let ?now = "now_or wall now0"
  let ?shut = "filter (\<lambda>f. cf_status f = ''CLOSED'') (cdb_findings db)"
  obtain st where st: "correlate_groups H so ?sm ss ?shut ?now actor ss (db, ?live0) = Inr st"
    "sound_run H (fst ` set ?sm) (fst st) (snd st)" "partnered so ?sm ?old (snd st)"
    "\<forall>g\<in>set ss. placed (gs_id g) (snd st) \<or>
         (\<forall>e\<in>set ss. gs_id e \<noteq> gs_id g \<longrightarrow> gs_first_seen e \<le> gs_first_seen g \<longrightarrow> match_pair so e g = [])"
    using correlate_groups_succeeds [OF inj _ _ sorted s0 p0 subset_refl, of ?shut ?now actor] by auto
  obtain rows where "flush_findings (snd st) (cdb_findings (fst st)) = Inr rows" using commit_succeeds [OF inj st(2)] by blast
  then have "correlate cfg H so wall alerts groups db now0 actor = Inr ((fst st)\<lparr>cdb_findings := rows\<rparr>, snd st)"
    using st(1) by (cases st) (simp add: correlate_def u ss(1))
  moreover have "placed (bg_group_id g) (snd st)"
    if g: "g \<in> set groups" "e \<in> set groups" and m: "bg_group_id e \<noteq> bg_group_id g" "bg_first_seen e \<le> bg_first_seen g"
      and gm: "groups_match so alerts e g" for g e
  proof -
    obtain se sg where sum: "summary_of_group alerts e = Inr se" "summary_of_group alerts g = Inr sg" "match_pair so se sg \<noteq> []"
      using gm unfolding groups_match_def by blast
    have "sg \<in> set ss" "se \<in> set ss" using summaries_of_mem [OF ss(1)] g sum by simp_all
    moreover have "gs_id se = bg_group_id e \<and> gs_first_seen se = bg_first_seen e"
      "gs_id sg = bg_group_id g \<and> gs_first_seen sg = bg_first_seen g"
      using summary_of_group_ids [OF sum(1)] summary_of_group_ids [OF sum(2)] by blast+
    ultimately show ?thesis using st(4) m sum(3) by (auto simp: Ball_def)
  qed
  moreover have "x \<in> ?old \<or> (\<exists>g\<in>set groups. \<exists>p\<in>set groups. bg_group_id g = x \<and> bg_group_id p \<noteq> x
        \<and> bg_group_id p \<in> set (cf_member_group_ids f) \<and> (groups_match so alerts p g \<or> groups_match so alerts g p))"
    if f: "f \<in> set (snd st)" "x \<in> set (cf_member_group_ids f)" for f x
  proof (cases "x \<in> ?old")
    case False
    then obtain y where y: "y \<in> set (cf_member_group_ids f)" "linked so ?sm x y" using st(3) f unfolding partnered_def by blast
    then obtain sx sy where l: "x \<noteq> y" "sx \<in> set ss" "gs_id sx = x" "sy \<in> set ss" "gs_id sy = y"
      "match_pair so sx sy \<noteq> [] \<or> match_pair so sy sx \<noteq> []" unfolding linked_def set_map image_iff by blast
    obtain g where g: "g \<in> set groups" "summary_of_group alerts g = Inr sx" using summaries_of_origin [OF ss(1) l(2)] unfolding set_sort by blast
    obtain p where p: "p \<in> set groups" "summary_of_group alerts p = Inr sy" using summaries_of_origin [OF ss(1) l(4)] unfolding set_sort by blast
    have "bg_group_id g = x" "bg_group_id p = y" using summary_of_group_ids [OF g(2)] summary_of_group_ids [OF p(2)] l(3,5) by simp_all
    moreover have "groups_match so alerts p g \<or> groups_match so alerts g p" using g(2) p(2) l(6) unfolding groups_match_def by blast
    ultimately show ?thesis using y(1) l(1) by (intro disjI2 bexI [OF _ g(1)] bexI [OF _ p(1)]) simp
  qed simp
  ultimately show ?thesis by blast
qed

definition sample_bg :: "nat \<Rightarrow> string \<Rightarrow> time \<Rightarrow> group" where
  "sample_bg n host t = \<lparr>bg_id = n, bg_group_id = group_public_id n, bg_fingerprint = [], bg_title = [],
     bg_description = [], bg_status = ''ACTIVE'', bg_first_seen = t, bg_last_seen = t, bg_alert_count = 0,
     bg_occurrence_count = 0, bg_alert_ids = [], bg_host_ids = [host], bg_user_ids = [''alice''], bg_source_ips = [],
     bg_mitre_tactics = [], bg_mitre_techniques = [], bg_observables = [], bg_confidence = 0,
     bg_highest_severity = ''low'', bg_created_at = t, bg_updated_at = t, bg_closed_at = None\<rparr>"

lemma user_chain_matches:
  assumes "gs_users e = [''alice'']" "gs_users l = [''alice'']" "2 \<le> distinct_host_count e l"
    "within_corr_window (gs_first_seen e) (gs_first_seen l) (rule_window R006)"
  shows "match_pair so e l \<noteq> []"
proof -
  let ?rel = "pair_relationships so e l (rule_window R006) (Some True)"
  have "{SAME_USER, TEMPORAL} \<subseteq> set (pr_types ?rel)" using assms(1,2) by (simp add: pair_types_set)
  then have "card {SAME_USER, TEMPORAL} \<le> card (set (pr_types ?rel))" by (intro card_mono) simp_all
  also have "\<dots> \<le> length (pr_types ?rel)" by (rule card_length)
  finally have "meets_minimum ?rel" by (simp add: meets_minimum_def CORRELATION_MIN_RELATIONSHIPS_def)
  moreover have "rule_holds R006 e l" using assms(1-3) by simp
  ultimately have "match_rule so e l R006 = Some (R006, ?rel, rule_reason so R006 e l)"
    using assms(4) by (simp add: match_rule_def Let_def rule_matches_def del: rule_holds.simps rule_window.simps)
  moreover have "R006 \<in> set pair_rules" by (simp add: pair_rules_def RULES_def)
  ultimately have "(R006, ?rel, rule_reason so R006 e l) \<in> set (match_pair so e l)" by (simp add: in_match_pair)
  then show ?thesis by auto
qed

lemma sample_hosts [simp]: "py_lower ''h1'' = ''h1''" "py_lower ''h2'' = ''h2''"
  by (simp_all add: py_lower_def lower_char_def)

theorem correlate_succeeds_witness:
  "\<exists>db' live. correlate dev_config id plain_order 9 [] [sample_bg 1 ''h1'' 0, sample_bg 2 ''h2'' 5] empty_corr_db None ''system''
      = Inr (db', live)
     \<and> (\<exists>f\<in>set live. {group_public_id 1, group_public_id 2} \<subseteq> set (cf_member_group_ids f))"
proof -
  let ?a = "sample_bg 1 ''h1'' 0" and ?b = "sample_bg 2 ''h2'' 5"
  obtain sa where sa: "summary_of_group [] ?a = Inr sa" "gs_users sa = [''alice'']" "gs_hosts sa = [''h1'']" "gs_first_seen sa = 0"
    by (simp add: summary_of_group_def family_of_group_def sample_bg_def)
  obtain sb where sb: "summary_of_group [] ?b = Inr sb" "gs_users sb = [''alice'']" "gs_hosts sb = [''h2'']" "gs_first_seen sb = 5"
    by (simp add: summary_of_group_def family_of_group_def sample_bg_def)
  have "distinct_host_count sa sb = 2" by (simp add: distinct_host_count_def sa(3) sb(3) pyset_def)
  moreover have "within_corr_window (gs_first_seen sa) (gs_first_seen sb) (rule_window R006)"
    by (simp add: sa(4) sb(4) within_corr_window_def Let_def corr_window_minutes_def CORRELATION_WINDOWS_MINUTES_def minutes_def seconds_def)
  ultimately have "match_pair plain_order sa sb \<noteq> []" by (intro user_chain_matches sa(2) sb(2)) simp
  then have m: "groups_match plain_order [] ?a ?b" using sa(1) sb(1) unfolding groups_match_def by blast
  have n: "group_public_id 1 \<noteq> group_public_id 2"
    using finding_public_id_inj [of 1 2] by (simp add: group_public_id_def finding_public_id_def)
  have g: "bg_group_id ?a = group_public_id 1" "bg_group_id ?b = group_public_id 2" "bg_first_seen ?a \<le> bg_first_seen ?b"
      "bg_alert_ids ?a = []" "bg_alert_ids ?b = []"
    by (simp_all add: sample_bg_def)
  have pre: "cfg_allow_prod dev_config \<or> cfg_database dev_config \<noteq> ''sentinel''"
    "\<forall>g\<in>set [?a, ?b]. bg_alert_ids g = [] \<or> (\<exists>x\<in>set []. al_alert_id x \<in> set (bg_alert_ids g))"
    "\<forall>f\<in>set (cdb_findings empty_corr_db). finding_live f \<longrightarrow> set (cf_member_group_ids f) \<subseteq> bg_group_id ` set [?a, ?b]"
    using g(4,5) by (simp_all add: dev_config_def empty_corr_db_def)
  obtain db' live where r: "correlate dev_config id plain_order 9 [] [?a, ?b] empty_corr_db None ''system'' = Inr (db', live)"
    and placed: "\<forall>g\<in>set [?a, ?b]. \<forall>e\<in>set [?a, ?b]. bg_group_id e \<noteq> bg_group_id g \<and> bg_first_seen e \<le> bg_first_seen g
          \<and> groups_match plain_order [] e g \<longrightarrow> placed (bg_group_id g) live"
    and pair: "\<forall>f\<in>set live. \<forall>x\<in>set (cf_member_group_ids f).
          (\<exists>q\<in>set (cdb_findings empty_corr_db). finding_live q \<and> x \<in> set (cf_member_group_ids q))
        \<or> (\<exists>g\<in>set [?a, ?b]. \<exists>p\<in>set [?a, ?b]. bg_group_id g = x \<and> bg_group_id p \<noteq> x \<and> bg_group_id p \<in> set (cf_member_group_ids f)
              \<and> (groups_match plain_order [] p g \<or> groups_match plain_order [] g p))"
    using correlate_succeeds [OF inj_on_id corr_ok_empty pre, of plain_order 9 None "''system''"] by blast
  have "placed (group_public_id 2) live" using placed [rule_format, of ?b ?a] m n g(1-3) by simp
  then obtain f where f: "f \<in> set live" "group_public_id 2 \<in> set (cf_member_group_ids f)" unfolding placed_def by blast
  then obtain p where "p \<in> set [?a, ?b]" "bg_group_id p \<noteq> group_public_id 2" "bg_group_id p \<in> set (cf_member_group_ids f)"
    using pair by (fastforce simp: empty_corr_db_def)
  then have "group_public_id 1 \<in> set (cf_member_group_ids f)" using g(1,2) by auto
  then show ?thesis using r f by blast
qed

text \<open>The window check lets time run backwards: a group first seen arbitrarily long before
  the tail of a finding matches it, so a later run can append it after the tail although no
  window was ever met.\<close>

theorem older_group_always_in_window:
  "match_pair so (sample_summary ''BG-2'' ''execution'' ''h2'' [] t)
     (sample_summary ''BG-1'' ''execution'' ''h1'' [] (t - 1 - int age)) \<noteq> []"
proof (rule user_chain_matches)
  show "within_corr_window (gs_first_seen (sample_summary ''BG-2'' ''execution'' ''h2'' [] t))
      (gs_first_seen (sample_summary ''BG-1'' ''execution'' ''h1'' [] (t - 1 - int age))) (rule_window R006)"
    by (simp add: sample_summary_def within_corr_window_def Let_def)
qed (simp_all add: sample_summary_def distinct_host_count_def pyset_def)

end
