(* ===== verification/Incident_Policy.thy ===== *)
theory Incident_Policy
  imports Corr_Policy
begin

text \<open>
  The policy of incidents: states and transitions (\<open>backend/incidents/contract.py\<close>,
  \<open>lifecycle.py\<close>), the eligibility policies I001-I008 (\<open>registry.py\<close>), the
  fingerprint (\<open>fingerprint.py\<close>), and the severity, confidence, priority, entities
  and observables \<open>engine.py\<close> derives from the evidence.  The dictionaries the engine
  takes are records; a missing key is the default the code reads it with.
\<close>

section \<open>Contract and lifecycle\<close>

definition INCIDENT_STATES :: "string list" where
  "INCIDENT_STATES = [''NEW'', ''TRIAGED'', ''INVESTIGATING'', ''CONTAINMENT_REQUIRED'', ''CONTAINED'',
     ''RESOLVED'', ''CLOSED'', ''SUPPRESSED'']"

definition INCIDENT_SEVERITIES :: "string list" where
  "INCIDENT_SEVERITIES = [''critical'', ''high'', ''medium'', ''low'']"

definition INCIDENT_PRIORITIES :: "string list" where
  "INCIDENT_PRIORITIES = [''P1'', ''P2'', ''P3'', ''P4'']"

definition INCIDENT_TRANSITIONS :: "(string \<times> string list) list" where
  "INCIDENT_TRANSITIONS =
     [(''NEW'', [''TRIAGED'', ''INVESTIGATING'', ''CLOSED'', ''SUPPRESSED'']),
      (''TRIAGED'', [''INVESTIGATING'', ''CONTAINMENT_REQUIRED'', ''CLOSED'', ''SUPPRESSED'']),
      (''INVESTIGATING'', [''CONTAINMENT_REQUIRED'', ''RESOLVED'', ''CLOSED'', ''SUPPRESSED'']),
      (''CONTAINMENT_REQUIRED'', [''CONTAINED'', ''INVESTIGATING'']),
      (''CONTAINED'', [''RESOLVED'', ''CLOSED'']),
      (''RESOLVED'', [''CLOSED'']),
      (''CLOSED'', []), (''SUPPRESSED'', [])]"

definition BANNED_INCIDENT_PHRASES :: "string list" where
  "BANNED_INCIDENT_PHRASES =
     [''confirmed attack'', ''confirmed breach'', ''attacker confirmed'', ''host compromised'',
      ''account compromised'', ''malware confirmed'', ''ransomware confirmed'', ''definite compromise'',
      ''active intrusion'', ''attacker present'']"

definition AUDIT_ACTIONS :: "string list" where
  "AUDIT_ACTIONS =
     [''INCIDENT_CREATED'', ''INCIDENT_UPDATED'', ''INCIDENT_ASSIGNED'', ''INCIDENT_UNASSIGNED'',
      ''INCIDENT_TEAM_ASSIGNED'', ''INCIDENT_TRIAGED'', ''INCIDENT_INVESTIGATION_STARTED'',
      ''INCIDENT_CONTAINMENT_STARTED'', ''INCIDENT_CONTAINED'', ''INCIDENT_RESOLVED'', ''INCIDENT_CLOSED'',
      ''INCIDENT_SUPPRESSED'', ''INCIDENT_SUPPRESSION_EXPIRED'', ''INCIDENT_REOPEN_REJECTED'',
      ''INCIDENT_NOTE_ADDED'', ''INCIDENT_EVIDENCE_ADDED'', ''INCIDENT_CREATION_FAILED'',
      ''INCIDENT_FEEDBACK_ADDED'']"

definition EVIDENCE_SOURCE_TYPES :: "string list" where
  "EVIDENCE_SOURCE_TYPES = [''ALERT'', ''BEHAVIOR_GROUP'', ''CORRELATION'', ''RISK'', ''ENTITY'', ''ANALYST'']"

definition can_incident_transition :: "string \<Rightarrow> string \<Rightarrow> bool" where
  "can_incident_transition current target \<longleftrightarrow>
     target \<in> set (case map_of INCIDENT_TRANSITIONS current of None \<Rightarrow> [] | Some ts \<Rightarrow> ts)"

definition transition_status :: "string \<Rightarrow> string \<Rightarrow> py_error + string" where
  "transition_status current target =
     (if \<not> can_incident_transition current target then Inl (IllegalTransition current target) else Inr target)"

definition is_terminal :: "string \<Rightarrow> bool" where
  "is_terminal status \<longleftrightarrow> status \<in> {''CLOSED'', ''SUPPRESSED''}"

definition active_statuses :: "string list" where
  "active_statuses = filter (\<lambda>s. s \<notin> {''CLOSED'', ''SUPPRESSED''}) INCIDENT_STATES"

section \<open>Evidence\<close>

record incident_group =
  ig_group_id :: string
  ig_behavior_group_id :: string
  ig_hosts :: "string list"
  ig_users :: "string list"
  ig_accounts :: "string list"
  ig_source_ips :: "string list"
  ig_destination_ips :: "string list"
  ig_techniques :: "string list"
  ig_tactics :: "string list"
  ig_severity :: string
  ig_alert_count :: int
  ig_first_seen :: "time option"
  ig_last_seen :: "time option"

record incident_finding =
  if_correlation_id :: string
  if_finding_id :: string
  if_type :: string
  if_hosts :: "string list"
  if_users :: "string list"
  if_source_ips :: "string list"
  if_severity :: string

record incident_risk =
  ir_risk_id :: string
  ir_score :: rat
  ir_score_text :: string
  ir_severity :: string
  ir_entity_type :: string
  ir_entity_id :: string

text \<open>\<open>g.get("group_id") or g.get("behavior_group_id")\<close>, and the ids that are not empty.\<close>

definition group_ref :: "incident_group \<Rightarrow> string" where
  "group_ref g = str_or (ig_group_id g) (ig_behavior_group_id g)"

definition finding_ref :: "incident_finding \<Rightarrow> string" where
  "finding_ref f = str_or (if_correlation_id f) (if_finding_id f)"

definition group_refs :: "incident_group list \<Rightarrow> string list" where
  "group_refs groups = filter (\<lambda>i. i \<noteq> []) (map group_ref groups)"

definition finding_refs :: "incident_finding list \<Rightarrow> string list" where
  "finding_refs findings = filter (\<lambda>i. i \<noteq> []) (map finding_ref findings)"

section \<open>Eligibility policies\<close>

datatype policy_evidence = PStr string | PNum rat | PCount nat | PList "string list"

record policy_result =
  pr_policy_id :: string
  pr_eligible :: bool
  pr_reason :: string
  pr_evidence :: "(string \<times> policy_evidence) list"
  pr_source_type :: string
  pr_source_id :: string

definition policy_yes :: "string \<Rightarrow> string \<Rightarrow> (string \<times> policy_evidence) list \<Rightarrow> string \<Rightarrow> policy_result" where
  "policy_yes pid reason ev sid = \<lparr>pr_policy_id = pid, pr_eligible = True, pr_reason = reason, pr_evidence = ev,
     pr_source_type = ''POLICY'', pr_source_id = sid\<rparr>"

definition policy_no :: "string \<Rightarrow> string \<Rightarrow> policy_result" where
  "policy_no pid reason = \<lparr>pr_policy_id = pid, pr_eligible = False, pr_reason = reason, pr_evidence = [],
     pr_source_type = ''POLICY'', pr_source_id = []\<rparr>"

definition multi_stage :: "incident_group list \<Rightarrow> incident_finding list \<Rightarrow> policy_result" where
  "multi_stage groups findings =
     (let finding_types = pyset (map if_type findings) in
      if ''MULTI_STAGE'' \<in> set finding_types \<and> 1 \<le> length groups
      then policy_yes ''I001'' ''multi-stage correlation with multiple behavior groups''
        [(''group_count'', PCount (length groups)), (''finding_types'', PList finding_types)]
        (case findings of [] \<Rightarrow> [] | f # _ \<Rightarrow> if_correlation_id f)
      else policy_no ''I001'' ''insufficient multi-stage evidence'')"

text \<open>\<open>f"{score:.0f}"\<close>\<close>

definition score_text :: "rat \<Rightarrow> string" where
  "score_text score = py_str (VInt (rhe score))"

definition high_risk_with_activity :: "incident_group list \<Rightarrow> incident_risk option \<Rightarrow> policy_result" where
  "high_risk_with_activity groups risk =
     (case risk of
        None \<Rightarrow> policy_no ''I002'' ''no risk context''
      | Some r \<Rightarrow>
          if 40 \<le> ir_score r \<and> 1 \<le> length groups
          then policy_yes ''I002'' (''high-risk entity (score '' @ score_text (ir_score r) @ '') with supporting activity'')
            [(''score'', PNum (ir_score r)), (''group_count'', PCount (length groups))] []
          else policy_no ''I002'' (''risk '' @ score_text (ir_score r) @ '' below threshold or unsupported''))"

definition repeated_high_severity :: "incident_group list \<Rightarrow> policy_result" where
  "repeated_high_severity groups =
     (let high_groups = length (filter (\<lambda>g. py_lower (ig_severity g) = ''high'') groups) in
      if 1 \<le> high_groups \<and> 1 \<le> length groups
      then policy_yes ''I003'' ''repeated high-severity activity''
        [(''high_groups'', PCount high_groups), (''group_count'', PCount (length groups))] []
      else policy_no ''I003'' ''insufficient repeated high-severity evidence'')"

text \<open>The techniques of all groups that start with one of the prefixes, as a set.\<close>

definition techniques_with :: "string list \<Rightarrow> incident_group list \<Rightarrow> string list" where
  "techniques_with prefixes groups =
     pyset (filter (\<lambda>t. \<exists>p\<in>set prefixes. starts_with p t) (concat (map ig_techniques groups)))"

definition lateral_movement_policy :: "incident_group list \<Rightarrow> policy_result" where
  "lateral_movement_policy groups =
     (let lateral = techniques_with [''T1021'', ''T1570''] groups in
      if lateral \<noteq> [] \<and> 2 \<le> length groups
      then policy_yes ''I004'' ''cross-host lateral movement pattern''
        [(''techniques'', PList lateral), (''group_count'', PCount (length groups))] []
      else policy_no ''I004'' ''no lateral movement pattern'')"

definition credential_abuse :: "incident_group list \<Rightarrow> policy_result" where
  "credential_abuse groups =
     (let cred = techniques_with [''T1110'', ''T1552''] groups in
      if cred \<noteq> [] \<and> 1 \<le> length groups
      then policy_yes ''I005'' ''credential abuse pattern'' [(''techniques'', PList cred)] []
      else policy_no ''I005'' ''no credential abuse techniques'')"

definition ransomware :: "incident_group list \<Rightarrow> policy_result" where
  "ransomware groups =
     (let impact = techniques_with [''T1486'', ''T1490''] groups in
      if impact \<noteq> []
      then policy_yes ''I006'' ''ransomware / impact pattern detected'' [(''techniques'', PList impact)] []
      else policy_no ''I006'' ''no ransomware indicators'')"

definition persistence :: "incident_group list \<Rightarrow> policy_result" where
  "persistence groups =
     (let persist = techniques_with [''T1547'', ''T1543'', ''T1136'', ''T1053''] groups in
      if persist \<noteq> [] \<and> 1 \<le> length groups
      then policy_yes ''I007'' ''persistence pattern detected'' [(''techniques'', PList persist)] []
      else policy_no ''I007'' ''no persistence techniques'')"

definition evaluate_policy ::
  "string \<Rightarrow> incident_group list \<Rightarrow> incident_finding list \<Rightarrow> incident_risk option \<Rightarrow> policy_result" where
  "evaluate_policy pid groups findings risk =
     (if pid = ''I001'' then multi_stage groups findings
      else if pid = ''I002'' then high_risk_with_activity groups risk
      else if pid = ''I003'' then repeated_high_severity groups
      else if pid = ''I004'' then lateral_movement_policy groups
      else if pid = ''I005'' then credential_abuse groups
      else if pid = ''I006'' then ransomware groups
      else if pid = ''I007'' then persistence groups
      else if pid = ''I008'' then policy_yes ''I008'' ''analyst escalation'' [] []
      else policy_no pid ''unknown policy'')"

section \<open>Fingerprint\<close>

text \<open>Every value of the payload is a string; a list is first dumped, sorted, to a string of
  its own.  \<open>_normalize\<close> sorts the keys.\<close>

definition json_list_str :: "string list \<Rightarrow> string" where
  "json_list_str vs = json_str (json_arr (map json_str (sort vs)))"

record incident_key =
  ik_type :: string
  ik_entity_type :: string
  ik_entity_id :: string
  ik_entities :: "string list"
  ik_findings :: "string list"
  ik_groups :: "string list"
  ik_policy :: string

definition incident_payload :: "incident_key \<Rightarrow> string" where
  "incident_payload k = json_obj
     [(''behavior_group_ids'', json_list_str (ik_groups k)),
      (''correlation_finding_ids'', json_list_str (ik_findings k)),
      (''incident_type'', json_str (ik_type k)), (''policy_id'', json_str (ik_policy k)),
      (''primary_entity_id'', json_str (ik_entity_id k)),
      (''primary_entity_type'', json_str (ik_entity_type k)),
      (''relevant_entities'', json_list_str (ik_entities k))]"

definition compute_fingerprint :: "(string \<Rightarrow> string) \<Rightarrow> incident_key \<Rightarrow> string" where
  "compute_fingerprint H k = H (incident_payload k)"

section \<open>What the engine derives from the evidence\<close>

fun primary_of_findings :: "incident_finding list \<Rightarrow> string \<times> string" where
  "primary_of_findings [] = (''UNKNOWN'', [])"
| "primary_of_findings (f # fs) = (case if_hosts f of h # _ \<Rightarrow> (''HOST'', h) | [] \<Rightarrow> primary_of_findings fs)"

fun primary_of_groups :: "incident_group list \<Rightarrow> incident_finding list \<Rightarrow> string \<times> string" where
  "primary_of_groups [] fs = primary_of_findings fs"
| "primary_of_groups (g # gs) fs =
     (case ig_hosts g of
        h # _ \<Rightarrow> (''HOST'', h)
      | [] \<Rightarrow> (case ig_users g of u # _ \<Rightarrow> (''USER'', u) | [] \<Rightarrow> primary_of_groups gs fs))"

definition primary_entity ::
  "incident_group list \<Rightarrow> incident_finding list \<Rightarrow> incident_risk option \<Rightarrow> string \<times> string" where
  "primary_entity groups findings risk =
     (case risk of Some r \<Rightarrow> (ir_entity_type r, ir_entity_id r) | None \<Rightarrow> primary_of_groups groups findings)"

definition incident_observables :: "incident_group list \<Rightarrow> incident_finding list \<Rightarrow> observables" where
  "incident_observables groups findings =
     (let of_groups = (\<lambda>f. concat (map f groups)); of_findings = (\<lambda>f. concat (map f findings)) in
      [(''hosts'', uniq_first (of_groups ig_hosts @ of_findings if_hosts)),
       (''users'', uniq_first (of_groups ig_users @ of_findings if_users)),
       (''accounts'', uniq_first (of_groups ig_accounts)),
       (''source_ips'', uniq_first (of_groups ig_source_ips @ of_findings if_source_ips)),
       (''destination_ips'', uniq_first (of_groups ig_destination_ips)),
       (''processes'', []),
       (''techniques'', uniq_first (of_groups ig_techniques)),
       (''tactics'', uniq_first (of_groups ig_tactics))])"

definition severity_order :: "string \<Rightarrow> nat" where
  "severity_order s = (if s = ''critical'' then 4 else if s = ''high'' then 3 else if s = ''medium'' then 2
     else if s = ''low'' then 1 else 0)"

definition raise_severity :: "string \<times> nat \<Rightarrow> string \<Rightarrow> string \<times> nat" where
  "raise_severity b s = (if snd b < severity_order s then (s, severity_order s) else b)"

definition aggregate_severity ::
  "incident_group list \<Rightarrow> incident_finding list \<Rightarrow> incident_risk option \<Rightarrow> string" where
  "aggregate_severity groups findings risk =
     (let (best, best_val) = foldl raise_severity (''low'', severity_order ''low'')
            (map ig_severity groups @ map if_severity findings);
          best1 = (case risk of None \<Rightarrow> best
                   | Some r \<Rightarrow> if best_val < severity_order (ir_severity r) then ir_severity r else best);
          best2 = (if best_val = 0 then ''medium'' else best1)
      in if \<exists>g\<in>set groups. \<exists>t\<in>set (ig_techniques g). t \<in> {''T1486'', ''T1490''} then ''critical'' else best2)"

definition INCIDENT_CONFIDENCE_BASE :: rat where "INCIDENT_CONFIDENCE_BASE = fl (40/100)"
definition INCIDENT_CONFIDENCE_CORRELATION :: rat where "INCIDENT_CONFIDENCE_CORRELATION = fl (20/100)"
definition INCIDENT_CONFIDENCE_MULTI_ENTITY :: rat where "INCIDENT_CONFIDENCE_MULTI_ENTITY = fl (10/100)"
definition INCIDENT_CONFIDENCE_REPEATED :: rat where "INCIDENT_CONFIDENCE_REPEATED = fl (8/100)"
definition INCIDENT_CONFIDENCE_STRONG_EVIDENCE :: rat where "INCIDENT_CONFIDENCE_STRONG_EVIDENCE = fl (22/100)"
definition INCIDENT_MAX_CONFIDENCE :: rat where "INCIDENT_MAX_CONFIDENCE = 1"
definition INCIDENT_MIN_CONFIDENCE :: rat where "INCIDENT_MIN_CONFIDENCE = 0"

lemmas incident_conf_defs = INCIDENT_CONFIDENCE_BASE_def INCIDENT_CONFIDENCE_CORRELATION_def
  INCIDENT_CONFIDENCE_MULTI_ENTITY_def INCIDENT_CONFIDENCE_REPEATED_def INCIDENT_CONFIDENCE_STRONG_EVIDENCE_def
  INCIDENT_MAX_CONFIDENCE_def INCIDENT_MIN_CONFIDENCE_def

text \<open>The score, by the four kinds of support.\<close>

definition support_confidence :: "bool \<Rightarrow> bool \<Rightarrow> bool \<Rightarrow> bool \<Rightarrow> rat" where
  "support_confidence correlated multi repeated strong =
     (let c0 = INCIDENT_CONFIDENCE_BASE;
          c1 = (if correlated then fadd c0 INCIDENT_CONFIDENCE_CORRELATION else c0);
          c2 = (if multi then fadd c1 INCIDENT_CONFIDENCE_MULTI_ENTITY else c1);
          c3 = (if repeated then fadd c2 INCIDENT_CONFIDENCE_REPEATED else c2);
          c4 = (if strong then fadd c3 INCIDENT_CONFIDENCE_STRONG_EVIDENCE else c3)
      in pyround 2 (max INCIDENT_MIN_CONFIDENCE (min INCIDENT_MAX_CONFIDENCE c4)))"

definition multi_entity :: "incident_group list \<Rightarrow> bool" where
  "multi_entity groups \<longleftrightarrow> 2 \<le> length (pyset (concat (map (\<lambda>g. ig_hosts g @ ig_users g) groups)))"

definition repeated_activity :: "incident_group list \<Rightarrow> bool" where
  "repeated_activity groups \<longleftrightarrow> 5 \<le> sum_list (map ig_alert_count groups)"

definition strong_evidence :: "incident_risk option \<Rightarrow> bool" where
  "strong_evidence risk = (case risk of None \<Rightarrow> False | Some r \<Rightarrow> 60 \<le> ir_score r)"

definition compute_confidence ::
  "incident_group list \<Rightarrow> incident_finding list \<Rightarrow> incident_risk option \<Rightarrow> rat \<times> (string \<times> rat) list" where
  "compute_confidence groups findings risk =
     (support_confidence (findings \<noteq> []) (multi_entity groups) (repeated_activity groups) (strong_evidence risk),
      [(''base'', INCIDENT_CONFIDENCE_BASE)]
      @ (if findings \<noteq> [] then [(''correlation_support'', INCIDENT_CONFIDENCE_CORRELATION)] else [])
      @ (if multi_entity groups then [(''multi_entity_support'', INCIDENT_CONFIDENCE_MULTI_ENTITY)] else [])
      @ (if repeated_activity groups then [(''repeated_activity'', INCIDENT_CONFIDENCE_REPEATED)] else [])
      @ (if strong_evidence risk then [(''strong_evidence'', INCIDENT_CONFIDENCE_STRONG_EVIDENCE)] else []))"

definition priority_from_context :: "string \<Rightarrow> rat \<Rightarrow> nat \<Rightarrow> string" where
  "priority_from_context severity risk_score entity_count =
     (if severity = ''critical'' \<or> 80 \<le> risk_score \<or> 5 \<le> entity_count then ''P1''
      else if severity = ''high'' \<or> 60 \<le> risk_score \<or> 3 \<le> entity_count then ''P2''
      else if severity = ''medium'' \<or> 40 \<le> risk_score \<or> 2 \<le> entity_count then ''P3''
      else ''P4'')"

section \<open>Titles\<close>

definition INCIDENT_TITLES :: "(string \<times> string) list" where
  "INCIDENT_TITLES =
     [(''I001'', ''Potential Multi-Stage Lateral Movement Activity''),
      (''I004'', ''Potential Cross-Host Lateral Movement Activity''),
      (''I005'', ''Potential Credential Abuse Pattern''),
      (''I006'', ''Potential Ransomware / Impact Activity''),
      (''I007'', ''Potential Persistence Activity''),
      (''I002'', ''Potential High-Risk Entity Activity''),
      (''I003'', ''Potential Repeated High-Severity Activity''),
      (''I008'', ''Analyst Escalation'')]"

definition incident_title :: "string \<Rightarrow> string" where
  "incident_title pid = (case map_of INCIDENT_TITLES pid of None \<Rightarrow> ''Potential Security Incident'' | Some t \<Rightarrow> t)"

definition validate_title :: "string \<Rightarrow> py_error + unit" where
  "validate_title title =
     (case List.find (\<lambda>p. contains p (py_lower title)) BANNED_INCIDENT_PHRASES of
        None \<Rightarrow> Inr ()
      | Some p \<Rightarrow> Inl (ValueError (''banned incident phrase detected in title: '' @ [CHR 0x27] @ p @ [CHR 0x27])))"

definition dedupe_title :: "string \<Rightarrow> string" where
  "dedupe_title title = take 255 (py_strip title)"

end
