(* ===== verification/Incident_Store.thy ===== *)
theory Incident_Store
  imports Incident_Policy
begin

text \<open>
  The tables of incidents (\<open>backend/incidents/models.py\<close>) and what is written into them:
  audit rows (\<open>audit.py\<close>), evidence (\<open>evidence.py\<close>), links to the sources, the
  edges of the incident's graph, suppressions.  A session flushes before it reads, so the
  tables are what the session sees.
\<close>

section \<open>Tables\<close>

record incident =
  in_id :: nat
  in_incident_id :: string
  in_fingerprint :: string
  in_title :: string
  in_description :: string
  in_status :: string
  in_priority :: string
  in_severity :: string
  in_confidence :: rat
  in_confidence_factors :: "(string \<times> rat) list"
  in_first_seen :: time
  in_last_seen :: time
  in_created_at :: time
  in_updated_at :: time
  in_closed_at :: "time option"
  in_entity_type :: string
  in_entity_id :: string
  in_entity_ids :: "string list"
  in_observables :: observables
  in_investigation_state :: "string option"
  in_assigned_to :: "string option"
  in_assigned_team :: "string option"
  in_assigned_at :: "time option"
  in_source_type :: string
  in_source_id :: string
  in_incident_version :: string
  in_model_version :: string
  in_policy_id :: string
  in_created_by :: string
  in_updated_by :: string
  in_suppression_reason :: "string option"
  in_suppression_scope :: "string option"
  in_suppression_expires_at :: "time option"
  in_suppression_created_by :: "string option"

text \<open>The four link tables have the same shape: the incident, the linked alert, group,
  finding or risk, and the reason.\<close>

record incident_link =
  lk_incident :: string
  lk_target :: string
  lk_reason :: string
  lk_added_at :: time

record incident_evidence =
  iv_incident :: string
  iv_source_type :: string
  iv_source_id :: string
  iv_field :: string
  iv_value :: string
  iv_reason :: string
  iv_observed_at :: time
  iv_added_at :: time

record incident_audit =
  ia_incident :: string
  ia_action :: string
  ia_actor :: string
  ia_old_value :: "string option"
  ia_new_value :: "string option"
  ia_reason :: "string option"
  ia_created_at :: time

record incident_note =
  nt_id :: string
  nt_incident :: string
  nt_author :: string
  nt_content :: string
  nt_created_at :: time

record incident_feedback =
  fb_incident :: string
  fb_analyst :: string
  fb_type :: string
  fb_reason :: "string option"
  fb_created_at :: time

record incident_edge =
  ge_incident :: string
  ge_type :: string
  ge_source :: string
  ge_target :: string
  ge_reason :: string
  ge_evidence :: string

record incident_suppression =
  su_incident :: string
  su_fingerprint :: string
  su_reason :: string
  su_scope :: string
  su_expires_at :: time
  su_created_by :: string
  su_created_at :: time

record incident_db =
  idb_incidents :: "incident list"
  idb_seq :: nat
  idb_alerts :: "incident_link list"
  idb_groups :: "incident_link list"
  idb_correlations :: "incident_link list"
  idb_risks :: "incident_link list"
  idb_evidence :: "incident_evidence list"
  idb_audit :: "incident_audit list"
  idb_notes :: "incident_note list"
  idb_feedback :: "incident_feedback list"
  idb_edges :: "incident_edge list"
  idb_suppressions :: "incident_suppression list"

definition empty_incident_db :: incident_db where
  "empty_incident_db = \<lparr>idb_incidents = [], idb_seq = 0, idb_alerts = [], idb_groups = [], idb_correlations = [],
     idb_risks = [], idb_evidence = [], idb_audit = [], idb_notes = [], idb_feedback = [], idb_edges = [],
     idb_suppressions = []\<rparr>"

section \<open>Incidents\<close>

definition incident_public_id :: "nat \<Rightarrow> string" where
  "incident_public_id n = ''INC-'' @ fmt06 n"

lemma incident_public_id_inj [simp]: "incident_public_id m = incident_public_id n \<longleftrightarrow> m = n"
  by (simp add: incident_public_id_def)

definition next_incident_id :: "incident_db \<Rightarrow> string" where
  "next_incident_id db = incident_public_id (last_id in_id (idb_incidents db) + 1)"

definition incident_of :: "incident_db \<Rightarrow> string \<Rightarrow> incident option" where
  "incident_of db iid = List.find (\<lambda>i. in_incident_id i = iid) (idb_incidents db)"

definition incident_for :: "incident_db \<Rightarrow> string \<Rightarrow> incident option" where
  "incident_for db fp = List.find (\<lambda>i. in_fingerprint i = fp) (idb_incidents db)"

definition set_incident :: "incident \<Rightarrow> (incident \<Rightarrow> incident) \<Rightarrow> incident_db \<Rightarrow> incident_db" where
  "set_incident e f db = db\<lparr>idb_incidents := update_row in_id (in_id e) f (idb_incidents db)\<rparr>"

text \<open>The \<open>INSERT\<close> of the first flush.  \<open>others\<close> are the rows that other sessions
  committed after the checks of this call; both the fingerprint and the public id are
  unique columns.\<close>

definition insert_incident :: "incident list \<Rightarrow> incident_db \<Rightarrow> incident \<Rightarrow> py_error + incident_db" where
  "insert_incident others db i =
     (let rows = idb_incidents db @ others; n = Suc (max (idb_seq db) (last_id in_id others)) in
      if \<exists>q\<in>set rows. in_fingerprint q = in_fingerprint i then Inl (IntegrityError ''fingerprint'')
      else if \<exists>q\<in>set rows. in_incident_id q = in_incident_id i then Inl (IntegrityError ''incident_id'')
      else Inr (db\<lparr>idb_incidents := rows @ [i\<lparr>in_id := n\<rparr>], idb_seq := n\<rparr>))"

section \<open>Audit and evidence\<close>

definition incident_audit_record ::
  "incident_db \<Rightarrow> string \<Rightarrow> string \<Rightarrow> string \<Rightarrow> string option \<Rightarrow> string option \<Rightarrow> string option \<Rightarrow> time \<Rightarrow> py_error + incident_db" where
  "incident_audit_record db iid action actor old new reason now =
     (if action \<notin> set AUDIT_ACTIONS then Inl (ValueError ''unknown audit action'')
      else case incident_of db iid of
        None \<Rightarrow> Inl (ValueError ''unknown incident'')
      | Some i \<Rightarrow> Inr (db\<lparr>idb_audit := idb_audit db @ [\<lparr>ia_incident = iid, ia_action = action, ia_actor = actor,
          ia_old_value = old, ia_new_value = new, ia_reason = reason, ia_created_at = now\<rparr>]\<rparr>))"

definition add_evidence :: "time \<Rightarrow> incident_db \<Rightarrow> incident_evidence \<Rightarrow> py_error + incident_db" where
  "add_evidence wall db e =
     (if iv_source_type e \<notin> set EVIDENCE_SOURCE_TYPES then Inl (ValueError ''invalid evidence source_type'')
      else case incident_of db (iv_incident e) of
        None \<Rightarrow> Inl (ValueError ''unknown incident'')
      | Some i \<Rightarrow> Inr (db\<lparr>idb_evidence := idb_evidence db @ [e\<lparr>iv_added_at := wall\<rparr>]\<rparr>))"

fun add_evidences :: "time \<Rightarrow> incident_db \<Rightarrow> incident_evidence list \<Rightarrow> py_error + incident_db" where
  "add_evidences wall db [] = Inr db"
| "add_evidences wall db (e # es) =
     (case add_evidence wall db e of Inl err \<Rightarrow> Inl err | Inr db1 \<Rightarrow> add_evidences wall db1 es)"

section \<open>Links\<close>

definition insert_link :: "incident_link list \<Rightarrow> incident_link \<Rightarrow> py_error + incident_link list" where
  "insert_link ls l =
     (if \<exists>q\<in>set ls. lk_incident q = lk_incident l \<and> lk_target q = lk_target l
      then Inl (IntegrityError ''incident_id, target'') else Inr (ls @ [l]))"

fun insert_links :: "incident_link list \<Rightarrow> incident_link list \<Rightarrow> py_error + incident_link list" where
  "insert_links ls [] = Inr ls"
| "insert_links ls (l # new) = (case insert_link ls l of Inl e \<Rightarrow> Inl e | Inr ls1 \<Rightarrow> insert_links ls1 new)"

definition links :: "string \<Rightarrow> time \<Rightarrow> string \<Rightarrow> string list \<Rightarrow> incident_link list" where
  "links iid wall reason targets = map (\<lambda>t. \<lparr>lk_incident = iid, lk_target = t, lk_reason = reason, lk_added_at = wall\<rparr>) targets"

text \<open>\<open>_link_sources\<close> and the loop over the alerts, with the flush that follows them: groups
  and findings are deduplicated, risks and alerts are not.\<close>

definition link_sources ::
  "time \<Rightarrow> string \<Rightarrow> incident_group list \<Rightarrow> incident_finding list \<Rightarrow> incident_risk list \<Rightarrow> string list
    \<Rightarrow> incident_db \<Rightarrow> py_error + incident_db" where
  "link_sources wall iid groups findings risks alerts db =
     (case insert_links (idb_groups db) (links iid wall ''behavior group evidence'' (uniq_first (group_refs groups))) of
        Inl e \<Rightarrow> Inl e
      | Inr gs \<Rightarrow> (case insert_links (idb_correlations db) (links iid wall ''correlation finding'' (uniq_first (finding_refs findings))) of
        Inl e \<Rightarrow> Inl e
      | Inr cs \<Rightarrow> (case insert_links (idb_risks db) (links iid wall ''entity risk context'' (filter (\<lambda>r. r \<noteq> []) (map ir_risk_id risks))) of
        Inl e \<Rightarrow> Inl e
      | Inr rs \<Rightarrow> (case insert_links (idb_alerts db) (links iid wall ''alert evidence'' alerts) of
        Inl e \<Rightarrow> Inl e
      | Inr as \<Rightarrow> Inr (db\<lparr>idb_groups := gs, idb_correlations := cs, idb_risks := rs, idb_alerts := as\<rparr>)))))"

section \<open>Graph\<close>

definition links_of :: "string \<Rightarrow> incident_link list \<Rightarrow> incident_link list" where
  "links_of iid ls = filter (\<lambda>l. lk_incident l = iid) ls"

definition link_edges :: "string \<Rightarrow> string \<Rightarrow> string \<Rightarrow> incident_link list \<Rightarrow> incident_edge list" where
  "link_edges iid type source_type ls =
     map (\<lambda>l. \<lparr>ge_incident = iid, ge_type = type, ge_source = iid, ge_target = lk_target l,
           ge_reason = lk_reason l, ge_evidence = source_type\<rparr>) (links_of iid ls)"

definition graph_edges :: "incident_db \<Rightarrow> incident \<Rightarrow> incident_edge list" where
  "graph_edges db i =
     link_edges (in_incident_id i) ''INCIDENT_HAS_ALERT'' ''ALERT'' (idb_alerts db)
     @ link_edges (in_incident_id i) ''INCIDENT_HAS_GROUP'' ''BEHAVIOR_GROUP'' (idb_groups db)
     @ link_edges (in_incident_id i) ''INCIDENT_HAS_CORRELATION'' ''CORRELATION'' (idb_correlations db)
     @ link_edges (in_incident_id i) ''INCIDENT_HAS_RISK'' ''RISK'' (idb_risks db)
     @ map (\<lambda>e. \<lparr>ge_incident = in_incident_id i, ge_type = ''INCIDENT_INVOLVES_ENTITY'', ge_source = in_incident_id i,
          ge_target = e, ge_reason = ''entity involved in incident'', ge_evidence = ''ENTITY''\<rparr>) (in_entity_ids i)"

definition build_graph :: "incident_db \<Rightarrow> incident \<Rightarrow> incident_db" where
  "build_graph db i = db\<lparr>idb_edges := idb_edges db @ graph_edges db i\<rparr>"

section \<open>Suppressions\<close>

definition fingerprint_suppressed :: "incident_db \<Rightarrow> string \<Rightarrow> time \<Rightarrow> bool" where
  "fingerprint_suppressed db fp reference \<longleftrightarrow>
     fp \<noteq> [] \<and> (\<exists>s\<in>set (idb_suppressions db). su_fingerprint s = fp \<and> reference \<le> su_expires_at s)"

end
