(* ===== verification/Incident_Engine.thy ===== *)
theory Incident_Engine
  imports Incident_Store
begin

text \<open>
  The incident engine (\<open>backend/incidents/engine.py\<close>) and the operations of an
  investigation (\<open>investigation.py\<close>).  An operation returns its error or the new tables
  with the reply; \<open>wall\<close> is the reading of the clock during the call.
\<close>

section \<open>Requests and replies\<close>

record incident_request =
  rq_groups :: "incident_group list"
  rq_findings :: "incident_finding list"
  rq_risks :: "incident_risk list"
  rq_alerts :: "string list"
  rq_policy :: string
  rq_title :: "string option"
  rq_description :: "string option"
  rq_actor :: string
  rq_now :: "time option"

datatype incident_reply =
    Reported string string string
  | Refused string string
  | Created string string string string string rat string

text \<open>\<open>Reported\<close>: id, status and fingerprint of an incident that exists already.
  \<open>Refused\<close>: reason and policy.  \<open>Created\<close>: id, status, fingerprint, severity,
  priority, confidence and policy of the new incident.\<close>

definition first_risk :: "incident_request \<Rightarrow> incident_risk option" where
  "first_risk rq = (case rq_risks rq of [] \<Rightarrow> None | r # _ \<Rightarrow> Some r)"

definition request_primary :: "incident_request \<Rightarrow> string \<times> string" where
  "request_primary rq = primary_entity (rq_groups rq) (rq_findings rq) (first_risk rq)"

definition relevant_entities :: "incident_request \<Rightarrow> string list" where
  "relevant_entities rq = uniq_first
     ([fst (request_primary rq) @ '':'' @ snd (request_primary rq)]
      @ map (\<lambda>h. ''host:'' @ h) (concat (map ig_hosts (rq_groups rq)))
      @ map (\<lambda>u. ''user:'' @ u) (concat (map ig_users (rq_groups rq)))
      @ map (\<lambda>s. ''source_ip:'' @ s) (concat (map if_source_ips (rq_findings rq))))"

definition request_key :: "incident_request \<Rightarrow> incident_key" where
  "request_key rq = \<lparr>ik_type = (if finding_refs (rq_findings rq) \<noteq> [] then ''CORRELATED'' else ''SUPPORTED''),
     ik_entity_type = fst (request_primary rq), ik_entity_id = snd (request_primary rq),
     ik_entities = relevant_entities rq, ik_findings = finding_refs (rq_findings rq),
     ik_groups = group_refs (rq_groups rq), ik_policy = rq_policy rq\<rparr>"

definition request_fingerprint :: "(string \<Rightarrow> string) \<Rightarrow> incident_request \<Rightarrow> string" where
  "request_fingerprint H rq = compute_fingerprint H (request_key rq)"

definition request_entities :: "incident_request \<Rightarrow> string list" where
  "request_entities rq = uniq_first
     (snd (request_primary rq) # concat (map (\<lambda>g. ig_hosts g @ ig_users g) (rq_groups rq)))"

section \<open>The new row\<close>

definition min_time :: "time \<Rightarrow> time list \<Rightarrow> time" where
  "min_time now ts = (case ts of [] \<Rightarrow> now | t # us \<Rightarrow> foldl min t us)"

definition max_time :: "time \<Rightarrow> time list \<Rightarrow> time" where
  "max_time now ts = (case ts of [] \<Rightarrow> now | t # us \<Rightarrow> foldl max t us)"

definition new_incident :: "string \<Rightarrow> string \<Rightarrow> string \<Rightarrow> incident_request \<Rightarrow> time \<Rightarrow> incident" where
  "new_incident fp iid title rq now =
     (let groups = rq_groups rq; findings = rq_findings rq; risk = first_risk rq;
          severity = aggregate_severity groups findings risk;
          (confidence, factors) = compute_confidence groups findings risk;
          risk_score = (case risk of None \<Rightarrow> 0 | Some r \<Rightarrow> ir_score r)
      in \<lparr>in_id = 0, in_incident_id = iid, in_fingerprint = fp, in_title = title,
          in_description = (case rq_description rq of
             None \<Rightarrow> ''Incident created from aggregated security evidence.''
           | Some d \<Rightarrow> str_or d ''Incident created from aggregated security evidence.''),
          in_status = ''NEW'', in_priority = priority_from_context severity risk_score (length (request_entities rq)),
          in_severity = severity, in_confidence = confidence, in_confidence_factors = factors,
          in_first_seen = min_time now (map (\<lambda>g. now_or now (ig_first_seen g)) groups),
          in_last_seen = max_time now (map (\<lambda>g. now_or now (ig_last_seen g)) groups),
          in_created_at = now, in_updated_at = now, in_closed_at = None,
          in_entity_type = fst (request_primary rq), in_entity_id = snd (request_primary rq),
          in_entity_ids = request_entities rq, in_observables = incident_observables groups findings,
          in_investigation_state = None, in_assigned_to = None, in_assigned_team = None, in_assigned_at = None,
          in_source_type = (if findings \<noteq> [] then ''CORRELATION'' else ''BEHAVIOR_GROUP''),
          in_source_id = (case finding_refs findings of i # _ \<Rightarrow> i
             | [] \<Rightarrow> (case group_refs groups of i # _ \<Rightarrow> i | [] \<Rightarrow> [])),
          in_incident_version = ''1.0.0'', in_model_version = ''1.0.0'', in_policy_id = rq_policy rq,
          in_created_by = rq_actor rq, in_updated_by = rq_actor rq,
          in_suppression_reason = None, in_suppression_scope = None,
          in_suppression_expires_at = None, in_suppression_created_by = None\<rparr>)"

definition request_evidence :: "string \<Rightarrow> incident_request \<Rightarrow> time \<Rightarrow> incident_evidence list" where
  "request_evidence iid rq now =
     (let row = (\<lambda>(ty, sid, field, v, why). \<lparr>iv_incident = iid, iv_source_type = ty, iv_source_id = sid, iv_field = field,
            iv_value = v, iv_reason = why, iv_observed_at = now, iv_added_at = now\<rparr>)
      in map (\<lambda>g. row (''BEHAVIOR_GROUP'', group_ref g, ''techniques'', join '','' (ig_techniques g), ''behavior group evidence'')) (rq_groups rq)
       @ map (\<lambda>f. row (''CORRELATION'', finding_ref f, ''correlation_type'', if_type f, ''correlation finding evidence'')) (rq_findings rq)
       @ map (\<lambda>a. row (''ALERT'', a, ''alert'', a, ''alert evidence'')) (rq_alerts rq)
       @ map (\<lambda>r. row (''RISK'', ir_risk_id r, ''score'', ir_score_text r, ''risk evidence'')) (rq_risks rq))"

section \<open>Creating an incident\<close>

text \<open>The suppression window of the one row that owns the fingerprint has lapsed.\<close>

definition resume_incident :: "time \<Rightarrow> string \<Rightarrow> time \<Rightarrow> incident_db \<Rightarrow> incident \<Rightarrow> py_error + incident_db" where
  "resume_incident wall actor now db e =
     incident_audit_record
       (set_incident e (\<lambda>i. i\<lparr>in_status := ''NEW'', in_suppression_reason := None, in_suppression_scope := None,
          in_suppression_expires_at := None, in_suppression_created_by := None,
          in_last_seen := max (in_last_seen i) now, in_updated_at := wall\<rparr>) db)
       (in_incident_id e) ''INCIDENT_SUPPRESSION_EXPIRED'' actor None (Some ''NEW'') None wall"

definition suppress_reopen :: "time \<Rightarrow> string \<Rightarrow> incident_db \<Rightarrow> string \<Rightarrow> py_error + incident_db" where
  "suppress_reopen wall actor db iid =
     (if \<exists>i\<in>set (idb_incidents db). in_incident_id i = iid \<and> in_status i = ''CLOSED''
      then incident_audit_record db iid ''INCIDENT_REOPEN_REJECTED'' actor None None
        (Some ''closed incident cannot be reopened; creating new incident'') wall
      else Inr db)"

definition report_existing ::
  "time \<Rightarrow> incident_request \<Rightarrow> time \<Rightarrow> incident_db \<Rightarrow> string \<Rightarrow> incident \<Rightarrow> py_error + incident_db \<times> incident_reply" where
  "report_existing wall rq now db fp e =
     (if fingerprint_suppressed db fp now \<and> in_status e = ''SUPPRESSED''
      then Inr (db, Reported (in_incident_id e) ''SUPPRESSED'' fp)
      else if in_status e = ''SUPPRESSED''
      then map_sum id (\<lambda>d. (d, Reported (in_incident_id e) ''NEW'' fp)) (resume_incident wall (rq_actor rq) now db e)
      else if \<not> is_terminal (in_status e)
      then map_sum id (\<lambda>d. (d, Reported (in_incident_id e) (in_status e) fp))
             (suppress_reopen wall (rq_actor rq) db (in_incident_id e))
      else Inr (db, Reported (in_incident_id e) (in_status e) fp))"

text \<open>What follows the \<open>INSERT\<close> of the row \<open>i\<close>: links, graph, the two audit rows
  (the second one carries the measured duration \<open>took\<close>), evidence.\<close>

definition creation_text :: "incident \<Rightarrow> string" where
  "creation_text i = ''status='' @ in_status i @ '', severity='' @ in_severity i @ '', priority='' @ in_priority i"

definition duration_text :: "string \<Rightarrow> string" where
  "duration_text took = ''duration_ms='' @ took"

definition policy_text :: "incident_request \<Rightarrow> string" where
  "policy_text rq = ''policy '' @ rq_policy rq"

definition creation_row :: "string \<Rightarrow> incident_request \<Rightarrow> time \<Rightarrow> string \<Rightarrow> incident_audit" where
  "creation_row iid rq now v = \<lparr>ia_incident = iid, ia_action = ''INCIDENT_CREATED'', ia_actor = rq_actor rq,
     ia_old_value = None, ia_new_value = Some v, ia_reason = Some (policy_text rq), ia_created_at = now\<rparr>"

definition record_creation ::
  "string \<Rightarrow> time \<Rightarrow> incident_request \<Rightarrow> time \<Rightarrow> incident \<Rightarrow> incident_db \<Rightarrow> py_error + incident_db" where
  "record_creation took wall rq now i db =
     (let iid = in_incident_id i in
      case link_sources wall iid (rq_groups rq) (rq_findings rq) (rq_risks rq) (rq_alerts rq) db of
        Inl e \<Rightarrow> Inl e
      | Inr db1 \<Rightarrow>
         (case incident_audit_record (build_graph db1 i) iid ''INCIDENT_CREATED'' (rq_actor rq) None
             (Some (creation_text i)) (Some (policy_text rq)) now of
            Inl e \<Rightarrow> Inl e
          | Inr db2 \<Rightarrow>
              add_evidences wall (db2\<lparr>idb_audit := idb_audit db2 @ [creation_row iid rq now (duration_text took)]\<rparr>)
                (request_evidence iid rq now)))"

definition insert_and_record ::
  "string \<Rightarrow> time \<Rightarrow> incident list \<Rightarrow> incident_db \<Rightarrow> incident_request \<Rightarrow> time \<Rightarrow> string \<Rightarrow> string
    \<Rightarrow> py_error + incident_db \<times> incident_reply" where
  "insert_and_record took wall others db rq now fp title =
     (let i = new_incident fp (next_incident_id db) (dedupe_title title) rq now in
      case insert_incident others db i of
        Inl e \<Rightarrow> Inl e
      | Inr db1 \<Rightarrow> map_sum id (\<lambda>d. (d, Created (in_incident_id i) (in_status i) fp (in_severity i) (in_priority i)
                                          (in_confidence i) (rq_policy rq)))
                   (record_creation took wall rq now i db1))"

definition create_incident ::
  "(string \<Rightarrow> string) \<Rightarrow> string \<Rightarrow> time \<Rightarrow> incident list \<Rightarrow> incident_db \<Rightarrow> incident_request
    \<Rightarrow> py_error + incident_db \<times> incident_reply" where
  "create_incident H took wall others db rq =
     (let now = now_or wall (rq_now rq); fp = request_fingerprint H rq in
      case incident_for db fp of
        Some e \<Rightarrow> report_existing wall rq now db fp e
      | None \<Rightarrow>
         (let p = evaluate_policy (rq_policy rq) (rq_groups rq) (rq_findings rq) (first_risk rq) in
          if \<not> pr_eligible p then Inr (db, Refused (pr_reason p) (rq_policy rq))
          else let title = (case rq_title rq of None \<Rightarrow> incident_title (rq_policy rq) | Some t \<Rightarrow> t) in
          case validate_title title of
            Inl e \<Rightarrow> Inl e
          | Inr _ \<Rightarrow> insert_and_record took wall others db rq now fp title))"

section \<open>Sessions\<close>

text \<open>The tables as committed and as the session sees them.  On an exception
  \<open>create_incident\<close> rolls back everything the session has not committed, tries to audit
  the failure under the id \<open>unknown\<close>, swallows what that raises, and raises again.  A
  sequence number is not given back.\<close>

record incident_session =
  ses_committed :: incident_db
  ses_view :: incident_db

definition rolled_back :: "incident list \<Rightarrow> py_error \<Rightarrow> incident_session \<Rightarrow> incident_db" where
  "rolled_back others e s =
     (let n = max (idb_seq (ses_view s)) (last_id in_id others) in
      (ses_committed s)\<lparr>idb_incidents := idb_incidents (ses_committed s) @ others,
         idb_seq := (case e of IntegrityError _ \<Rightarrow> Suc n | _ \<Rightarrow> n)\<rparr>)"

definition create_in_session ::
  "(string \<Rightarrow> string) \<Rightarrow> string \<Rightarrow> time \<Rightarrow> incident list \<Rightarrow> incident_session \<Rightarrow> incident_request
    \<Rightarrow> incident_session \<times> (py_error + incident_reply)" where
  "create_in_session H took wall others s rq =
     (case create_incident H took wall others (ses_view s) rq of
        Inr (db, r) \<Rightarrow> (s\<lparr>ses_view := db\<rparr>, Inr r)
      | Inl e \<Rightarrow>
         (let db0 = rolled_back others e s in
          (s\<lparr>ses_view := (case incident_audit_record db0 ''unknown'' ''INCIDENT_CREATION_FAILED'' (rq_actor rq) None None
                           (Some ''error'') (now_or wall (rq_now rq)) of Inl _ \<Rightarrow> db0 | Inr db1 \<Rightarrow> db1)\<rparr>, Inl e)))"

section \<open>Transitions, suppression, notes, assignment, feedback\<close>

definition moved_incident :: "time \<Rightarrow> string \<Rightarrow> string \<Rightarrow> incident \<Rightarrow> incident" where
  "moved_incident wall actor target i =
     (let i1 = i\<lparr>in_status := target, in_updated_at := wall, in_updated_by := actor\<rparr> in
      if target = ''CLOSED'' then i1\<lparr>in_closed_at := Some wall\<rparr> else i1)"

definition transition_incident ::
  "time \<Rightarrow> incident_db \<Rightarrow> string \<Rightarrow> string \<Rightarrow> string \<Rightarrow> string option \<Rightarrow> py_error + incident_db" where
  "transition_incident wall db iid target actor reason =
     (case incident_of db iid of
        None \<Rightarrow> Inl (ValueError ''unknown incident'')
      | Some i \<Rightarrow>
         (case transition_status (in_status i) target of
            Inl e \<Rightarrow> Inl e
          | Inr new \<Rightarrow> incident_audit_record (set_incident i (moved_incident wall actor target) db) iid ''INCIDENT_UPDATED''
                        actor (Some (in_status i)) (Some new) reason wall))"

text \<open>A \<open>datetime\<close> with or without a time zone; the difference of one of each raises.\<close>

datatype stamp = Naive time | Aware time

definition INCIDENT_SUPPRESSION_MAX_DAYS :: int where "INCIDENT_SUPPRESSION_MAX_DAYS = 90"

definition minus_aware :: "stamp \<Rightarrow> time \<Rightarrow> py_error + time" where
  "minus_aware t wall = (case t of
       Naive _ \<Rightarrow> Inl (TypeError ''can't subtract offset-naive and offset-aware datetimes'')
     | Aware x \<Rightarrow> Inr (x - wall))"

definition suppressed_incident :: "time \<Rightarrow> string \<Rightarrow> string \<Rightarrow> time \<Rightarrow> string \<Rightarrow> incident \<Rightarrow> incident" where
  "suppressed_incident wall reason scope expires by i =
     i\<lparr>in_status := ''SUPPRESSED'', in_updated_at := wall, in_suppression_reason := Some reason,
       in_suppression_scope := Some scope, in_suppression_expires_at := Some expires,
       in_suppression_created_by := Some by\<rparr>"

definition stamp_time :: "stamp \<Rightarrow> time" where
  "stamp_time t = (case t of Naive x \<Rightarrow> x | Aware x \<Rightarrow> x)"

definition suppress_incident ::
  "time \<Rightarrow> incident_db \<Rightarrow> string \<Rightarrow> string \<Rightarrow> string \<Rightarrow> stamp \<Rightarrow> string \<Rightarrow> py_error + incident_db" where
  "suppress_incident wall db iid reason scope expires by =
     (case incident_of db iid of
        None \<Rightarrow> Inl (ValueError ''unknown incident'')
      | Some i \<Rightarrow>
         (case minus_aware expires wall of
            Inl e \<Rightarrow> Inl e
          | Inr d \<Rightarrow>
              if days INCIDENT_SUPPRESSION_MAX_DAYS < d then Inl (ValueError ''suppression exceeds 90 days'')
              else map_sum id (set_incident i (suppressed_incident wall reason scope (stamp_time expires) by))
                (incident_audit_record
                  (db\<lparr>idb_suppressions := idb_suppressions db @ [\<lparr>su_incident = iid, su_fingerprint = in_fingerprint i,
                     su_reason = reason, su_scope = scope, su_expires_at = stamp_time expires, su_created_by = by,
                     su_created_at = wall\<rparr>]\<rparr>)
                  iid ''INCIDENT_SUPPRESSED'' by None (Some reason) None wall)))"

text \<open>\<open>note_id\<close> defaults to a stamp of the current second, \<open>strftime\<close> of it being the
  argument \<open>second\<close>, and the last four characters of the incident's id.\<close>

definition default_note_id :: "string \<Rightarrow> string \<Rightarrow> string" where
  "default_note_id second iid = ''NOTE-'' @ second @ ''-'' @ drop (length iid - 4) iid"

definition add_note ::
  "string \<Rightarrow> time \<Rightarrow> incident_db \<Rightarrow> string \<Rightarrow> string \<Rightarrow> string \<Rightarrow> string option \<Rightarrow> py_error + incident_db" where
  "add_note second wall db iid author content note_id =
     (case incident_of db iid of
        None \<Rightarrow> Inl (ValueError ''unknown incident'')
      | Some i \<Rightarrow>
         if is_terminal (in_status i) then Inl (ValueError ''cannot add note to terminal incident'')
         else let nid = (case note_id of None \<Rightarrow> default_note_id second iid | Some n \<Rightarrow> n) in
         if \<exists>n\<in>set (idb_notes db). nt_id n = nid then Inl (IntegrityError ''note_id'')
         else map_sum id (set_incident i (\<lambda>j. j\<lparr>in_updated_at := wall, in_updated_by := author\<rparr>))
           (incident_audit_record
              (db\<lparr>idb_notes := idb_notes db @ [\<lparr>nt_id = nid, nt_incident = iid, nt_author = author,
                 nt_content = content, nt_created_at = wall\<rparr>]\<rparr>)
              iid ''INCIDENT_NOTE_ADDED'' author None (Some nid) (Some ''analyst note'') wall))"

definition audit_if ::
  "bool \<Rightarrow> string \<Rightarrow> string \<Rightarrow> string \<Rightarrow> string option \<Rightarrow> string option \<Rightarrow> time \<Rightarrow> incident_db \<Rightarrow> py_error + incident_db" where
  "audit_if changed iid action actor old new wall db =
     (if changed then incident_audit_record db iid action actor old new None wall else Inr db)"

definition assign_incident ::
  "time \<Rightarrow> incident_db \<Rightarrow> string \<Rightarrow> string option \<Rightarrow> string option \<Rightarrow> string \<Rightarrow> py_error + incident_db" where
  "assign_incident wall db iid assigned_to team actor =
     (case incident_of db iid of
        None \<Rightarrow> Inl (ValueError ''unknown incident'')
      | Some i \<Rightarrow>
         (case audit_if (in_assigned_to i \<noteq> assigned_to) iid
             (if assigned_to \<noteq> None \<and> assigned_to \<noteq> Some [] then ''INCIDENT_ASSIGNED'' else ''INCIDENT_UNASSIGNED'')
             actor (in_assigned_to i) assigned_to wall
             (set_incident i (\<lambda>j. j\<lparr>in_assigned_to := assigned_to, in_assigned_team := team, in_assigned_at := Some wall,
                in_updated_at := wall, in_updated_by := actor\<rparr>) db) of
            Inl e \<Rightarrow> Inl e
          | Inr db1 \<Rightarrow> audit_if (in_assigned_team i \<noteq> team) iid ''INCIDENT_TEAM_ASSIGNED'' actor (in_assigned_team i) team wall db1))"

end
