(* ===== verification/Incident_Scores.thy ===== *)
theory Incident_Scores
  imports Incident_Engine
begin

text \<open>
  What the policy of incidents decides: which requests have the same fingerprint, which
  severity, confidence and priority an incident gets, which policies a request can satisfy.
\<close>

section \<open>Fingerprint\<close>

lemma json_list_str_inj [simp]: "json_list_str xs = json_list_str ys \<longleftrightarrow> mset xs = mset ys"
proof -
  have "json_list_str xs = json_list_str ys \<longleftrightarrow> sort xs = sort ys"
    by (simp add: json_list_str_def json_strs_inj)
  also have "\<dots> \<longleftrightarrow> mset xs = mset ys"
    by (metis mset_sort properties_for_sort sorted_sort)
  finally show ?thesis .
qed

lemma json_list_str_cancel: "json_list_str xs @ r = json_list_str ys @ q \<longleftrightarrow> mset xs = mset ys \<and> r = q"
  using json_list_str_inj [of xs ys] by (auto simp: json_list_str_def json_str_inj)

definition same_key :: "incident_key \<Rightarrow> incident_key \<Rightarrow> bool" where
  "same_key k l \<longleftrightarrow> ik_type k = ik_type l \<and> ik_entity_type k = ik_entity_type l \<and> ik_entity_id k = ik_entity_id l
     \<and> mset (ik_entities k) = mset (ik_entities l) \<and> mset (ik_findings k) = mset (ik_findings l)
     \<and> mset (ik_groups k) = mset (ik_groups l) \<and> ik_policy k = ik_policy l"

lemma incident_payload_inj: "incident_payload k = incident_payload l \<longleftrightarrow> same_key k l"
  by (auto simp: incident_payload_def json_obj_def json_str_inj json_list_str_cancel same_key_def)

text \<open>Two requests have the same fingerprint exactly when they agree on the primary entity,
  the policy and, up to order, on the entities, findings and groups; the digest is assumed not
  to collide on the two payloads.  Times, severities and titles do not enter.  (The primary
  entity is that of the first group, so two groups listed in the other order make another
  fingerprint, as the example below shows.)\<close>

theorem incident_fingerprint_identity:
  assumes "H (incident_payload (request_key a)) = H (incident_payload (request_key b)) \<Longrightarrow>
     incident_payload (request_key a) = incident_payload (request_key b)"
  shows "request_fingerprint H a = request_fingerprint H b \<longleftrightarrow>
     request_primary a = request_primary b \<and> rq_policy a = rq_policy b
     \<and> mset (relevant_entities a) = mset (relevant_entities b)
     \<and> mset (finding_refs (rq_findings a)) = mset (finding_refs (rq_findings b))
     \<and> mset (group_refs (rq_groups a)) = mset (group_refs (rq_groups b))"
proof -
  have "finding_refs (rq_findings a) \<noteq> [] \<longleftrightarrow> finding_refs (rq_findings b) \<noteq> []"
    if "mset (finding_refs (rq_findings a)) = mset (finding_refs (rq_findings b))"
    using that by (metis mset_zero_iff)
  then have "same_key (request_key a) (request_key b) \<longleftrightarrow>
     request_primary a = request_primary b \<and> rq_policy a = rq_policy b
     \<and> mset (relevant_entities a) = mset (relevant_entities b)
     \<and> mset (finding_refs (rq_findings a)) = mset (finding_refs (rq_findings b))
     \<and> mset (group_refs (rq_groups a)) = mset (group_refs (rq_groups b))"
    unfolding same_key_def request_key_def by (auto simp: prod_eq_iff)
  then show ?thesis
    unfolding request_fingerprint_def compute_fingerprint_def incident_payload_inj [symmetric] using assms by metis
qed

section \<open>Severity\<close>

lemma severity_order_le: "severity_order s \<le> 4"
  by (simp add: severity_order_def)

lemma severity_order_pos: "0 < severity_order s \<longleftrightarrow> s \<in> set INCIDENT_SEVERITIES"
  by (auto simp: severity_order_def INCIDENT_SEVERITIES_def)

lemma raise_severity_fold:
  "snd b = severity_order (fst b) \<Longrightarrow>
   (let c = foldl raise_severity b ss in snd c = severity_order (fst c)
      \<and> severity_order (fst c) = foldl max (severity_order (fst b)) (map severity_order ss))"
proof (induction ss arbitrary: b)
  case (Cons s ss)
  have r: "snd (raise_severity b s) = severity_order (fst (raise_severity b s))"
    "severity_order (fst (raise_severity b s)) = max (severity_order (fst b)) (severity_order s)"
    using Cons.prems by (auto simp: raise_severity_def)
  show ?case using Cons.IH [OF r(1)] r(2) by (simp add: Let_def)
qed (simp add: Let_def)

lemma foldl_max_ge: "(a :: nat) \<le> foldl max a xs"
proof (induction xs arbitrary: a)
  case (Cons x xs)
  show ?case using Cons [of "max a x"] by simp
qed simp

lemma foldl_max_mem: "x \<in> set xs \<Longrightarrow> x \<le> foldl max (a :: nat) xs"
proof (induction xs arbitrary: a)
  case (Cons y ys)
  show ?case
  proof (cases "x = y")
    case True
    then show ?thesis using foldl_max_ge [of "max a y" ys] by simp
  qed (use Cons in simp)
qed simp

lemma foldl_max_in: "foldl max (a :: nat) xs \<in> insert a (set xs)"
proof (induction xs arbitrary: a)
  case (Cons x xs)
  then show ?case using Cons [of "max a x"] by (auto simp: max_def split: if_splits)
qed simp

text \<open>The severities that count: \<open>low\<close> as a floor, those of groups, findings and risk.\<close>

definition evidence_severities :: "incident_group list \<Rightarrow> incident_finding list \<Rightarrow> incident_risk option \<Rightarrow> string list" where
  "evidence_severities gs fs risk = ''low'' # map ig_severity gs @ map if_severity fs
     @ (case risk of None \<Rightarrow> [] | Some r \<Rightarrow> [ir_severity r])"

definition has_impact :: "incident_group list \<Rightarrow> bool" where
  "has_impact gs \<longleftrightarrow> (\<exists>g\<in>set gs. ''T1486'' \<in> set (ig_techniques g) \<or> ''T1490'' \<in> set (ig_techniques g))"

lemma aggregate_severity_order:
  "severity_order (aggregate_severity gs fs risk) =
     (if has_impact gs then 4 else foldl max 1 (map severity_order (map ig_severity gs @ map if_severity fs
        @ (case risk of None \<Rightarrow> [] | Some r \<Rightarrow> [ir_severity r]))))"
proof -
  define ss where "ss = map ig_severity gs @ map if_severity fs"
  obtain best n where b: "foldl raise_severity (''low'', 1) ss = (best, n)" by force
  have one: "severity_order ''low'' = 1" "severity_order ''critical'' = 4" by (simp_all add: severity_order_def)
  have "n = severity_order best \<and> severity_order best = foldl max 1 (map severity_order ss)"
    using raise_severity_fold [of "(''low'', 1)" ss] one(1) unfolding b Let_def fst_conv snd_conv by simp
  then have f: "n = severity_order best" "severity_order best = foldl max 1 (map severity_order ss)" by blast+
  have pos: "1 \<le> severity_order best" unfolding f(2) by (rule foldl_max_ge)
  have h: "(\<exists>g\<in>set gs. \<exists>t\<in>set (ig_techniques g). t \<in> {''T1486'', ''T1490''}) \<longleftrightarrow> has_impact gs"
    unfolding has_impact_def by blast
  have agg: "aggregate_severity gs fs risk = (if has_impact gs then ''critical''
      else case risk of None \<Rightarrow> best | Some r \<Rightarrow> if severity_order best < severity_order (ir_severity r) then ir_severity r else best)"
    using pos unfolding aggregate_severity_def ss_def [symmetric] one(1) b Let_def h f(1) by simp
  show ?thesis
  proof (cases risk)
    case None
    then show ?thesis using f(2) unfolding agg ss_def [symmetric] append_assoc [symmetric] by (simp add: one)
  next
    case (Some r)
    then show ?thesis using f(2) unfolding agg ss_def [symmetric] append_assoc [symmetric] by (simp add: one max_def)
  qed
qed

lemma aggregate_severity_known: "aggregate_severity gs fs risk \<in> set INCIDENT_SEVERITIES"
proof -
  have "1 \<le> severity_order (aggregate_severity gs fs risk)"
  proof (cases "has_impact gs")
    case False
    show ?thesis unfolding aggregate_severity_order if_not_P [OF False] by (rule foldl_max_ge)
  qed (simp add: aggregate_severity_order)
  then show ?thesis unfolding severity_order_pos [symmetric] by simp
qed

text \<open>The severity of an incident is one of the four of the contract; it is \<open>critical\<close> when
  a group shows a ransomware technique, and otherwise the strongest severity of its evidence:
  at least as strong as each and equal to one of them.\<close>

theorem incident_severity_strongest:
  "aggregate_severity gs fs risk \<in> set INCIDENT_SEVERITIES
   \<and> (if has_impact gs then aggregate_severity gs fs risk = ''critical''
      else aggregate_severity gs fs risk \<in> set (evidence_severities gs fs risk)
         \<and> (\<forall>s\<in>set (evidence_severities gs fs risk). severity_order s \<le> severity_order (aggregate_severity gs fs risk)))"
proof -
  define s where "s = aggregate_severity gs fs risk"
  define es where "es = map ig_severity gs @ map if_severity fs @ (case risk of None \<Rightarrow> [] | Some r \<Rightarrow> [ir_severity r])"
  have set_es: "set (evidence_severities gs fs risk) = insert ''low'' (set es)" by (simp add: evidence_severities_def es_def)
  have o: "severity_order s = (if has_impact gs then 4 else foldl max 1 (map severity_order es))"
    unfolding s_def es_def using aggregate_severity_order [of gs fs risk] by simp
  have one: "severity_order ''low'' = 1" by (simp add: severity_order_def)
  have pos: "1 \<le> severity_order s" using o foldl_max_ge [of 1 "map severity_order es"] by simp
  have inj: "s = t" if "severity_order s = severity_order t" "0 < severity_order s" for s t
    using that by (auto simp: severity_order_def split: if_splits)
  have "s = ''critical''" if "has_impact gs"
    using that by (auto simp: s_def aggregate_severity_def has_impact_def Let_def split: prod.splits)
  moreover have "severity_order t \<le> severity_order s" if "\<not> has_impact gs" "t \<in> insert ''low'' (set es)" for t
    using that o one foldl_max_mem [of "severity_order t" "map severity_order es" 1] pos by auto
  moreover have "s \<in> insert ''low'' (set es)" if n: "\<not> has_impact gs"
  proof -
    have "severity_order s \<in> insert 1 (severity_order ` set es)"
      using o n foldl_max_in [of 1 "map severity_order es"] by simp
    then obtain t where "t \<in> insert ''low'' (set es)" "severity_order s = severity_order t"
      unfolding one [symmetric] by (metis image_iff insert_iff)
    then show ?thesis using inj [of s t] pos by auto
  qed
  ultimately show ?thesis using pos severity_order_pos [of s] unfolding set_es s_def [symmetric] by simp
qed

section \<open>Confidence\<close>

text \<open>The sixteen combinations of support give the decimals one would write down by hand:
  the float error of the additions never shows after rounding.\<close>

definition exact_confidence :: "bool \<Rightarrow> bool \<Rightarrow> bool \<Rightarrow> bool \<Rightarrow> nat" where
  "exact_confidence c m r s = 40 + (if c then 20 else 0) + (if m then 10 else 0) + (if r then 8 else 0) + (if s then 22 else 0)"

lemma exact_confidence_range:
  "40 \<le> exact_confidence c m r s" "exact_confidence c m r s \<le> 100"
  "exact_confidence c m r s = 100 \<longleftrightarrow> c \<and> m \<and> r \<and> s"
  "exact_confidence c m r s \<noteq> 100 \<Longrightarrow> exact_confidence c m r s \<le> 92"
  by (cases c; cases m; cases r; cases s; simp add: exact_confidence_def)+

definition ulp1 :: rat where "ulp1 = 2 powi (- 53)"

lemma ulp1_bounds: "0 < ulp1" "ulp1 < 1 / 10000"
  by (simp_all add: ulp1_def power_int_def field_simps)

lemma add_support_close:
  assumes c: "\<bar>c - p\<bar> \<le> of_nat k * ulp1" "0 \<le> c" and p: "p \<le> 1" "0 \<le> q" "q \<le> 1/4" "k \<le> 10"
  shows "\<bar>(if b then fadd c (fl q) else c) - (p + (if b then q else 0))\<bar> \<le> of_nat (k + 2) * ulp1
     \<and> 0 \<le> (if b then fadd c (fl q) else c)"
proof (cases b)
  case True
  have q: "\<bar>fl q - q\<bar> \<le> ulp1" "0 \<le> fl q" using fl_error [of q] p by (simp_all add: ulp1_def fl_nonneg)
  have k: "of_nat k * ulp1 \<le> 10 * ulp1" using p(4) ulp1_bounds by (intro mult_right_mono) simp_all
  have "\<bar>fadd c (fl q) - (c + fl q)\<bar> \<le> ulp1"
    using fl_error [of "c + fl q"] c p q k ulp1_bounds unfolding fadd_def ulp1_def [symmetric] by linarith
  then show ?thesis using q c True fadd_nonneg [of c "fl q"] by (simp add: distrib_right)
next
  case False
  then show ?thesis using c ulp1_bounds by (simp add: distrib_right)
qed

lemma support_confidence_exact: "support_confidence c m r s = fl (of_nat (exact_confidence c m r s) / 100)"
proof -
  define w :: rat where "w = of_nat (exact_confidence c m r s) / 100"
  define c0 where "c0 = fl (40/100)"
  define c1 where "c1 = (if c then fadd c0 (fl (20/100)) else c0)"
  define c2 where "c2 = (if m then fadd c1 (fl (10/100)) else c1)"
  define c3 where "c3 = (if r then fadd c2 (fl (8/100)) else c2)"
  define c4 where "c4 = (if s then fadd c3 (fl (22/100)) else c3)"
  let ?p1 = "40/100 + (if c then 20/100 else 0) :: rat"
  let ?p2 = "?p1 + (if m then 10/100 else 0)"
  let ?p3 = "?p2 + (if r then 8/100 else 0)"
  have 0: "\<bar>c0 - 40/100\<bar> \<le> of_nat 1 * ulp1" "0 \<le> c0"
    using fl_error [of "40/100"] by (simp_all add: ulp1_def c0_def fl_nonneg)
  have 1: "\<bar>c1 - ?p1\<bar> \<le> of_nat (1 + 2) * ulp1 \<and> 0 \<le> c1"
    unfolding c1_def by (rule add_support_close [OF 0]) simp_all
  have 2: "\<bar>c2 - ?p2\<bar> \<le> of_nat (1 + 2 + 2) * ulp1 \<and> 0 \<le> c2"
    unfolding c2_def by (rule add_support_close [OF conjunct1 [OF 1] conjunct2 [OF 1]]) simp_all
  have 3: "\<bar>c3 - ?p3\<bar> \<le> of_nat (1 + 2 + 2 + 2) * ulp1 \<and> 0 \<le> c3"
    unfolding c3_def by (rule add_support_close [OF conjunct1 [OF 2] conjunct2 [OF 2]]) simp_all
  have "\<bar>c4 - (?p3 + (if s then 22/100 else 0))\<bar> \<le> of_nat (1 + 2 + 2 + 2 + 2) * ulp1 \<and> 0 \<le> c4"
    unfolding c4_def by (rule add_support_close [OF conjunct1 [OF 3] conjunct2 [OF 3]]) simp_all
  moreover have "?p3 + (if s then 22/100 else 0) = w" by (simp add: w_def exact_confidence_def)
  ultimately have c4: "\<bar>c4 - w\<bar> \<le> 9 * ulp1" "0 \<le> c4" by simp_all
  define x where "x = max 0 (min 1 c4)"
  have "0 \<le> w" "w \<le> 1" by (simp_all add: w_def exact_confidence_def)
  then have "\<bar>x - w\<bar> \<le> 9 * ulp1" using c4 ulp1_bounds unfolding x_def abs_le_iff max_def min_def by (simp split: if_split) linarith?
  then have "\<bar>x - w\<bar> < 1 / 1000" using ulp1_bounds by linarith
  then have "\<bar>x * 10 ^ 2 - w * 10 ^ 2\<bar> < 1 / 2" unfolding abs_less_iff by simp
  then have "rhe (x * 10 ^ 2) = int (exact_confidence c m r s)"
    by (intro rhe_nearest) (simp add: w_def)
  moreover have "support_confidence c m r s = pyround 2 x"
    unfolding support_confidence_def incident_conf_defs Let_def x_def c4_def c3_def c2_def c1_def c0_def ..
  ultimately show ?thesis by (simp add: pyround_def)
qed

lemma compute_confidence_unit:
  "0 \<le> fst (compute_confidence gs fs risk) \<and> fst (compute_confidence gs fs risk) \<le> 1"
  using exact_confidence_range(2) [of "fs \<noteq> []" "multi_entity gs" "repeated_activity gs" "strong_evidence risk"]
  by (simp add: compute_confidence_def support_confidence_exact fl_nonneg fl_le_1)

text \<open>Confidence is the decimal 0.40 plus 0.20 for findings, 0.10 for two entities, 0.08 for
  five alerts and 0.22 for a risk score of at least 60, as the nearest float: the roundings of
  the additions never show.  It lies between 0.4 and 1.0, reaches 1.0 exactly with all four
  kinds of support, and never falls when support is added.\<close>

theorem incident_confidence_exact:
  "fst (compute_confidence gs fs risk) =
     fl (of_nat (exact_confidence (fs \<noteq> []) (multi_entity gs) (repeated_activity gs) (strong_evidence risk)) / 100)
   \<and> fl (40/100) \<le> fst (compute_confidence gs fs risk) \<and> fst (compute_confidence gs fs risk) \<le> 1
   \<and> (fst (compute_confidence gs fs risk) = 1 \<longleftrightarrow>
        fs \<noteq> [] \<and> multi_entity gs \<and> repeated_activity gs \<and> strong_evidence risk)"
proof -
  define n where "n = exact_confidence (fs \<noteq> []) (multi_entity gs) (repeated_activity gs) (strong_evidence risk)"
  have e: "fst (compute_confidence gs fs risk) = fl (of_nat n / 100)"
    by (simp add: compute_confidence_def support_confidence_exact n_def)
  note n = exact_confidence_range [of "fs \<noteq> []" "multi_entity gs" "repeated_activity gs" "strong_evidence risk", folded n_def]
  have "fl (40/100) \<le> fl (of_nat n / 100)" using n(1) by (intro fl_mono) simp
  moreover have "fl (of_nat n / 100) \<le> 1" using n(2) by (intro fl_le_1) simp
  moreover have "fl (of_nat n / 100) < 1" if "n \<noteq> 100"
  proof -
    have "fl (of_nat n / 100) \<le> of_nat n / 100 + ulp1"
      using fl_error [of "of_nat n / 100"] n(2) unfolding ulp1_def abs_le_iff by linarith
    moreover have "(of_nat n :: rat) \<le> 92" using n(4) [OF that] by simp
    ultimately show ?thesis using ulp1_bounds by linarith
  qed
  moreover have "fl (of_nat n / 100) = 1" if "n = 100" using that by simp
  ultimately show ?thesis unfolding e n(3) [symmetric] n_def [symmetric] by (metis less_irrefl)
qed

section \<open>Priority\<close>

lemma rank_mono:
  "(a \<Longrightarrow> x) \<Longrightarrow> (b \<Longrightarrow> x \<or> y) \<Longrightarrow> (c \<Longrightarrow> x \<or> y \<or> z) \<Longrightarrow>
   (if x then 1 else if y then 2 else if z then 3 else 4 :: nat) \<le> (if a then 1 else if b then 2 else if c then 3 else 4)"
  by auto

definition priority_rank :: "string \<Rightarrow> nat" where
  "priority_rank p = (if p = ''P1'' then 1 else if p = ''P2'' then 2 else if p = ''P3'' then 3 else 4)"

lemma priority_known: "priority_from_context s x n \<in> set INCIDENT_PRIORITIES"
  by (simp add: priority_from_context_def INCIDENT_PRIORITIES_def)

text \<open>More severe, riskier or wider evidence never lowers the priority, which is one of the
  four of the contract, and its response time never gets longer.\<close>

theorem incident_priority_monotone:
  assumes "severity_order s \<le> severity_order t" "x \<le> y" "n \<le> m"
  shows "priority_rank (priority_from_context t y m) \<le> priority_rank (priority_from_context s x n)
     \<and> priority_from_context t y m \<in> set INCIDENT_PRIORITIES"
proof -
  have sev: "s = ''critical'' \<Longrightarrow> t = ''critical''" "s = ''high'' \<Longrightarrow> t = ''critical'' \<or> t = ''high''"
    "s = ''medium'' \<Longrightarrow> t = ''critical'' \<or> t = ''high'' \<or> t = ''medium''"
    using assms(1) by (auto simp: severity_order_def split: if_splits)
  have rank: "priority_rank (priority_from_context s x n) =
     (if s = ''critical'' \<or> 80 \<le> x \<or> 5 \<le> n then 1 else if s = ''high'' \<or> 60 \<le> x \<or> 3 \<le> n then 2
      else if s = ''medium'' \<or> 40 \<le> x \<or> 2 \<le> n then 3 else 4)" for s x n
    by (simp add: priority_rank_def priority_from_context_def)
  have "priority_rank (priority_from_context t y m) \<le> priority_rank (priority_from_context s x n)"
  proof -
    have "t = ''critical'' \<or> 80 \<le> y \<or> 5 \<le> m" if "s = ''critical'' \<or> 80 \<le> x \<or> 5 \<le> n"
      using that sev(1) assms(2,3) by linarith
    moreover have "(t = ''critical'' \<or> 80 \<le> y \<or> 5 \<le> m) \<or> t = ''high'' \<or> 60 \<le> y \<or> 3 \<le> m"
      if "s = ''high'' \<or> 60 \<le> x \<or> 3 \<le> n" using that sev(2) assms(2,3) by linarith
    moreover have "(t = ''critical'' \<or> 80 \<le> y \<or> 5 \<le> m) \<or> (t = ''high'' \<or> 60 \<le> y \<or> 3 \<le> m) \<or> t = ''medium'' \<or> 40 \<le> y \<or> 2 \<le> m"
      if "s = ''medium'' \<or> 40 \<le> x \<or> 2 \<le> n" using that sev(3) assms(2,3) by linarith
    ultimately show ?thesis unfolding rank by (rule rank_mono)
  qed
  then show ?thesis using priority_known by blast
qed

section \<open>Policies\<close>

text \<open>The exact condition of each policy.\<close>

definition technique_seen :: "string list \<Rightarrow> incident_group list \<Rightarrow> bool" where
  "technique_seen prefixes gs \<longleftrightarrow> (\<exists>g\<in>set gs. \<exists>t\<in>set (ig_techniques g). \<exists>p\<in>set prefixes. starts_with p t)"

lemma techniques_with_iff: "techniques_with ps gs \<noteq> [] \<longleftrightarrow> technique_seen ps gs"
proof -
  have "techniques_with ps gs \<noteq> [] \<longleftrightarrow> set (techniques_with ps gs) \<noteq> {}" by simp
  also have "\<dots> \<longleftrightarrow> technique_seen ps gs" unfolding techniques_with_def technique_seen_def by auto
  finally show ?thesis .
qed

lemma technique_seen_groups: "technique_seen ps gs \<Longrightarrow> gs \<noteq> []"
  by (auto simp: technique_seen_def)

lemma filter_pos: "1 \<le> length (filter P gs) \<longleftrightarrow> (\<exists>g\<in>set gs. P g)"
  by (induction gs) auto

lemma length_pos: "1 \<le> length xs \<longleftrightarrow> xs \<noteq> []"
  by (cases xs) auto

lemma policy_yes_no [simp]: "pr_eligible (policy_yes p r e s) = True" "pr_eligible (policy_no p r) = False"
  by (simp_all add: policy_yes_def policy_no_def)

lemma if_bool_simps: "(if b then True else False) = b" by simp

lemma policy_eligible:
  "pr_eligible (multi_stage gs fs) \<longleftrightarrow> gs \<noteq> [] \<and> (\<exists>f\<in>set fs. if_type f = ''MULTI_STAGE'')"
  "pr_eligible (high_risk_with_activity gs risk) \<longleftrightarrow> gs \<noteq> [] \<and> (\<exists>r. risk = Some r \<and> 40 \<le> ir_score r)"
  "pr_eligible (repeated_high_severity gs) \<longleftrightarrow> (\<exists>g\<in>set gs. py_lower (ig_severity g) = ''high'')"
  "pr_eligible (lateral_movement_policy gs) \<longleftrightarrow> 2 \<le> length gs \<and> technique_seen [''T1021'', ''T1570''] gs"
  "pr_eligible (credential_abuse gs) \<longleftrightarrow> technique_seen [''T1110'', ''T1552''] gs"
  "pr_eligible (ransomware gs) \<longleftrightarrow> technique_seen [''T1486'', ''T1490''] gs"
  "pr_eligible (persistence gs) \<longleftrightarrow> technique_seen [''T1547'', ''T1543'', ''T1136'', ''T1053''] gs"
proof -
  note e = if_distrib [of pr_eligible] policy_yes_no if_bool_simps length_pos filter_pos techniques_with_iff
  have m: "''MULTI_STAGE'' \<in> set (pyset (map if_type fs)) \<longleftrightarrow> (\<exists>f\<in>set fs. if_type f = ''MULTI_STAGE'')"
    unfolding set_pyset by force
  show "pr_eligible (multi_stage gs fs) \<longleftrightarrow> gs \<noteq> [] \<and> (\<exists>f\<in>set fs. if_type f = ''MULTI_STAGE'')"
    unfolding multi_stage_def Let_def m e by blast
  show "pr_eligible (high_risk_with_activity gs risk) \<longleftrightarrow> gs \<noteq> [] \<and> (\<exists>r. risk = Some r \<and> 40 \<le> ir_score r)"
    unfolding high_risk_with_activity_def e by (cases risk) (auto simp: length_pos if_distrib [of pr_eligible])
  show "pr_eligible (repeated_high_severity gs) \<longleftrightarrow> (\<exists>g\<in>set gs. py_lower (ig_severity g) = ''high'')"
    unfolding repeated_high_severity_def Let_def if_distrib [of pr_eligible] policy_yes_no if_bool_simps filter_pos length_pos
    by (auto simp: length_pos filter_empty_conv)
  show "pr_eligible (lateral_movement_policy gs) \<longleftrightarrow> 2 \<le> length gs \<and> technique_seen [''T1021'', ''T1570''] gs"
    unfolding lateral_movement_policy_def Let_def e by blast
  show "pr_eligible (credential_abuse gs) \<longleftrightarrow> technique_seen [''T1110'', ''T1552''] gs"
    unfolding credential_abuse_def Let_def e using technique_seen_groups by blast
  show "pr_eligible (ransomware gs) \<longleftrightarrow> technique_seen [''T1486'', ''T1490''] gs"
    unfolding ransomware_def Let_def e by blast
  show "pr_eligible (persistence gs) \<longleftrightarrow> technique_seen [''T1547'', ''T1543'', ''T1136'', ''T1053''] gs"
    unfolding persistence_def Let_def e using technique_seen_groups by blast
qed

lemma evaluate_policy_eligible:
  "pr_eligible (evaluate_policy pid gs fs risk) =
     (if pid = ''I001'' then gs \<noteq> [] \<and> (\<exists>f\<in>set fs. if_type f = ''MULTI_STAGE'')
      else if pid = ''I002'' then gs \<noteq> [] \<and> (\<exists>r. risk = Some r \<and> 40 \<le> ir_score r)
      else if pid = ''I003'' then \<exists>g\<in>set gs. py_lower (ig_severity g) = ''high''
      else if pid = ''I004'' then 2 \<le> length gs \<and> technique_seen [''T1021'', ''T1570''] gs
      else if pid = ''I005'' then technique_seen [''T1110'', ''T1552''] gs
      else if pid = ''I006'' then technique_seen [''T1486'', ''T1490''] gs
      else if pid = ''I007'' then technique_seen [''T1547'', ''T1543'', ''T1136'', ''T1053''] gs
      else pid = ''I008'')"
  unfolding evaluate_policy_def if_distrib [of pr_eligible] policy_eligible policy_yes_no by (simp only: if_bool_simps cong: if_cong)

section \<open>Titles\<close>

lemma py_strip_part: "\<exists>a b. s = a @ py_strip s @ b"
proof -
  obtain a where a: "s = a @ dropWhile is_space s" by (metis takeWhile_dropWhile_id)
  let ?r = "rev (dropWhile is_space s)"
  have "?r = takeWhile is_space ?r @ dropWhile is_space ?r" by simp
  then have "dropWhile is_space s = rev (dropWhile is_space ?r) @ rev (takeWhile is_space ?r)" by (metis rev_append rev_rev_ident)
  then show ?thesis using a unfolding py_strip_def by metis
qed

text \<open>What is cut off a title never makes a phrase appear.\<close>

lemma dedupe_title_clean:
  assumes "validate_title title = Inr u" "p \<in> set BANNED_INCIDENT_PHRASES"
  shows "length (dedupe_title title) \<le> 255 \<and> \<not> contains p (py_lower (dedupe_title title))"
proof -
  have n: "\<not> contains p (py_lower title)"
    using assms by (auto simp: validate_title_def find_None_iff' split: option.splits)
  obtain a b where s: "title = a @ py_strip title @ b" using py_strip_part by blast
  have "py_strip title = dedupe_title title @ drop 255 (py_strip title)" by (simp add: dedupe_title_def)
  then have "py_lower title = py_lower a @ py_lower (dedupe_title title) @ py_lower (drop 255 (py_strip title) @ b)"
    using s unfolding py_lower_def by (metis append.assoc map_append)
  then have "\<not> contains p (py_lower (dedupe_title title))" using n unfolding contains_split by (metis append.assoc)
  then show ?thesis by (simp add: dedupe_title_def)
qed

section \<open>Examples\<close>

definition sample_group :: "string \<Rightarrow> string \<Rightarrow> incident_group" where
  "sample_group gid host = \<lparr>ig_group_id = gid, ig_behavior_group_id = [], ig_hosts = [host], ig_users = [], ig_accounts = [],
     ig_source_ips = [], ig_destination_ips = [], ig_techniques = [''T1021.001''], ig_tactics = [], ig_severity = ''high'',
     ig_alert_count = 3, ig_first_seen = Some 0, ig_last_seen = Some 60\<rparr>"

definition sample_finding :: incident_finding where
  "sample_finding = \<lparr>if_correlation_id = ''CF-000001'', if_finding_id = [], if_type = ''MULTI_STAGE'', if_hosts = [''h1''],
     if_users = [], if_source_ips = [], if_severity = ''medium''\<rparr>"

definition sample_request :: incident_request where
  "sample_request = \<lparr>rq_groups = [sample_group ''BG-000001'' ''h1'', sample_group ''BG-000002'' ''h2''],
     rq_findings = [sample_finding], rq_risks = [], rq_alerts = [''ALR-000001''], rq_policy = ''I001'',
     rq_title = None, rq_description = None, rq_actor = ''system'', rq_now = Some 100\<rparr>"

text \<open>The same evidence, listed the other way round and seen later.\<close>

definition swapped_request :: incident_request where
  "swapped_request = sample_request\<lparr>rq_groups := rev (rq_groups sample_request), rq_now := Some 900\<rparr>"

lemma incident_fingerprint_identity_witness:
  "request_fingerprint id swapped_request \<noteq> request_fingerprint id sample_request
   \<and> request_fingerprint id (sample_request\<lparr>rq_now := Some 900\<rparr>) = request_fingerprint id sample_request"
  using incident_fingerprint_identity [of id swapped_request sample_request]
    incident_fingerprint_identity [of id "sample_request\<lparr>rq_now := Some 900\<rparr>" sample_request]
  by (simp add: swapped_request_def sample_request_def sample_group_def sample_finding_def request_primary_def
      primary_entity_def first_risk_def relevant_entities_def uniq_first_def)

lemma incident_severity_strongest_witness:
  "severity_order (ig_severity (sample_group ''BG-000001'' ''h1'')) \<le>
     severity_order (aggregate_severity [sample_group ''BG-000001'' ''h1''] [sample_finding] None)"
  using incident_severity_strongest [of "[sample_group ''BG-000001'' ''h1'']" "[sample_finding]" None]
  by (simp add: has_impact_def sample_group_def evidence_severities_def)

lemma incident_priority_monotone_witness:
  "priority_rank (priority_from_context ''high'' 50 2) \<le> priority_rank (priority_from_context ''medium'' 40 1)"
  using incident_priority_monotone [of "''medium''" "''high''" 40 50 1 2]
  by (simp add: severity_order_def)

end
