(* ===== verification/Incident_Invariant.thy ===== *)
theory Incident_Invariant
  imports Incident_Scores
begin

text \<open>
  The invariant of the incident tables: serial ids, one incident per fingerprint for ever,
  rows within the contract, every dependent row refers to an incident, links without
  duplicates, a graph that agrees with the links, two creation audits per incident.  Every
  operation other than the creation is quiet: it leaves the core of the incidents, the links
  and the graph alone and appends to the other tables.
\<close>

interpretation ini: serial_rows in_id "\<lambda>n i. i\<lparr>in_id := n\<rparr>"
  by unfold_locales simp

section \<open>Definitions\<close>

definition link_key :: "incident_link \<Rightarrow> string \<times> string" where
  "link_key l = (lk_incident l, lk_target l)"

definition idb_refs :: "incident_db \<Rightarrow> string list" where
  "idb_refs db = map lk_incident (idb_alerts db) @ map lk_incident (idb_groups db) @ map lk_incident (idb_correlations db)
     @ map lk_incident (idb_risks db) @ map iv_incident (idb_evidence db) @ map ia_incident (idb_audit db)
     @ map nt_incident (idb_notes db) @ map fb_incident (idb_feedback db) @ map ge_incident (idb_edges db)
     @ map su_incident (idb_suppressions db)"

definition incident_ids :: "incident_db \<Rightarrow> string set" where
  "incident_ids db = in_incident_id ` set (idb_incidents db)"

definition core :: "incident \<Rightarrow> nat \<times> string \<times> string \<times> string \<times> string \<times> string \<times> rat \<times> string list" where
  "core i = (in_id i, in_incident_id i, in_fingerprint i, in_title i, in_severity i, in_priority i, in_confidence i, in_entity_ids i)"

definition clean_title :: "string \<Rightarrow> bool" where
  "clean_title t \<longleftrightarrow> length t \<le> 255 \<and> (\<forall>p\<in>set BANNED_INCIDENT_PHRASES. \<not> contains p (py_lower t))"

definition core_ok :: "incident \<Rightarrow> bool" where
  "core_ok i \<longleftrightarrow> (\<exists>k. 0 < k \<and> k \<le> in_id i \<and> in_incident_id i = incident_public_id k)
     \<and> in_severity i \<in> set INCIDENT_SEVERITIES \<and> in_priority i \<in> set INCIDENT_PRIORITIES
     \<and> 0 \<le> in_confidence i \<and> in_confidence i \<le> 1 \<and> clean_title (in_title i)"

definition creations :: "incident_db \<Rightarrow> string \<Rightarrow> nat" where
  "creations db iid = length (filter (\<lambda>a. ia_incident a = iid \<and> ia_action a = ''INCIDENT_CREATED'') (idb_audit db))"

definition edges_of :: "incident_db \<Rightarrow> string \<Rightarrow> incident_edge list" where
  "edges_of db iid = filter (\<lambda>e. ge_incident e = iid) (idb_edges db)"

definition links_distinct :: "incident_db \<Rightarrow> bool" where
  "links_distinct db \<longleftrightarrow> distinct (map link_key (idb_alerts db)) \<and> distinct (map link_key (idb_groups db))
     \<and> distinct (map link_key (idb_correlations db)) \<and> distinct (map link_key (idb_risks db))"

definition incident_db_ok :: "incident_db \<Rightarrow> bool" where
  "incident_db_ok db \<longleftrightarrow> ini.ids_ok (idb_incidents db) (idb_seq db)
     \<and> distinct (map in_fingerprint (idb_incidents db)) \<and> distinct (map in_incident_id (idb_incidents db))
     \<and> (\<forall>i\<in>set (idb_incidents db). core_ok i) \<and> (\<forall>i\<in>set (idb_incidents db). in_status i \<in> set INCIDENT_STATES)
     \<and> set (idb_refs db) \<subseteq> incident_ids db \<and> links_distinct db
     \<and> (\<forall>a\<in>set (idb_audit db). ia_action a \<noteq> ''INCIDENT_CREATION_FAILED'')
     \<and> (\<forall>i\<in>set (idb_incidents db). edges_of db (in_incident_id i) = graph_edges db i \<and> creations db (in_incident_id i) = 2)"

lemma incident_db_okD:
  assumes "incident_db_ok db"
  shows "ini.ids_ok (idb_incidents db) (idb_seq db)" "distinct (map in_fingerprint (idb_incidents db))"
    "distinct (map in_incident_id (idb_incidents db))"
    "i \<in> set (idb_incidents db) \<Longrightarrow> core_ok i" "i \<in> set (idb_incidents db) \<Longrightarrow> in_status i \<in> set INCIDENT_STATES"
    "set (idb_refs db) \<subseteq> incident_ids db" "links_distinct db"
    "i \<in> set (idb_incidents db) \<Longrightarrow> edges_of db (in_incident_id i) = graph_edges db i"
    "i \<in> set (idb_incidents db) \<Longrightarrow> creations db (in_incident_id i) = 2"
    "a \<in> set (idb_audit db) \<Longrightarrow> ia_action a \<noteq> ''INCIDENT_CREATION_FAILED''"
  using assms unfolding incident_db_ok_def by blast+

lemma incident_db_ok_empty: "incident_db_ok empty_incident_db"
  by (simp add: incident_db_ok_def empty_incident_db_def ini.ids_ok_Nil idb_refs_def links_distinct_def)

section \<open>Lookups\<close>

lemma incident_of_Some:
  "incident_of db iid = Some i \<Longrightarrow> i \<in> set (idb_incidents db) \<and> in_incident_id i = iid"
  unfolding incident_of_def by (auto dest: find_SomeD)

lemma incident_of_None: "incident_of db iid = None \<longleftrightarrow> iid \<notin> incident_ids db"
  by (auto simp: incident_of_def incident_ids_def find_None_iff')

lemma incident_for_Some:
  "incident_for db fp = Some i \<Longrightarrow> i \<in> set (idb_incidents db) \<and> in_fingerprint i = fp"
  unfolding incident_for_def by (auto dest: find_SomeD)

lemma incident_for_None: "incident_for db fp = None \<longleftrightarrow> fp \<notin> in_fingerprint ` set (idb_incidents db)"
  by (auto simp: incident_for_def find_None_iff')

lemma incident_for_mem:
  "incident_db_ok db \<Longrightarrow> i \<in> set (idb_incidents db) \<Longrightarrow> incident_for db (in_fingerprint i) = Some i"
proof -
  assume a: "incident_db_ok db" "i \<in> set (idb_incidents db)"
  then obtain j where j: "incident_for db (in_fingerprint i) = Some j"
    using incident_for_None by (metis imageI not_Some_eq)
  then show ?thesis
    using incident_for_Some [OF j] distinct_map_inj [OF incident_db_okD(2) [OF a(1)], of j i] a(2) by simp
qed

lemma incident_of_mem:
  "incident_db_ok db \<Longrightarrow> i \<in> set (idb_incidents db) \<Longrightarrow> incident_of db (in_incident_id i) = Some i"
proof -
  assume a: "incident_db_ok db" "i \<in> set (idb_incidents db)"
  then obtain j where j: "incident_of db (in_incident_id i) = Some j"
    using incident_of_None unfolding incident_ids_def by (metis imageI not_Some_eq)
  then show ?thesis
    using incident_of_Some [OF j] distinct_map_inj [OF incident_db_okD(3) [OF a(1)], of j i] a(2) by simp
qed

section \<open>Quiet operations\<close>

definition grows :: "('a \<Rightarrow> bool) \<Rightarrow> 'a list \<Rightarrow> 'a list \<Rightarrow> bool" where
  "grows P xs ys \<longleftrightarrow> (\<exists>zs. ys = xs @ zs \<and> (\<forall>z\<in>set zs. P z))"

lemma grows_refl [simp]: "grows P xs xs"
  by (simp add: grows_def)

lemma grows_append [simp]: "grows P xs (xs @ zs) \<longleftrightarrow> (\<forall>z\<in>set zs. P z)"
  by (simp add: grows_def)

lemma grows_trans: "grows P xs ys \<Longrightarrow> grows P ys zs \<Longrightarrow> grows P xs zs"
  unfolding grows_def by (metis UnE append.assoc set_append)

lemma grows_all: "grows P xs ys \<Longrightarrow> (\<forall>x\<in>set xs. P x) \<Longrightarrow> y \<in> set ys \<Longrightarrow> P y"
  unfolding grows_def by auto

lemma grows_image: "grows (\<lambda>x. f x \<in> A) xs ys \<Longrightarrow> f ` set xs \<subseteq> A \<Longrightarrow> f ` set ys \<subseteq> A"
  unfolding grows_def image_subset_iff by auto

text \<open>What a transition, a suppression, a note, an assignment, feedback or a resumption may change.\<close>

definition quiet :: "incident_db \<Rightarrow> incident_db \<Rightarrow> bool" where
  "quiet db db' \<longleftrightarrow> map core (idb_incidents db') = map core (idb_incidents db) \<and> idb_seq db' = idb_seq db
     \<and> in_status ` set (idb_incidents db') \<subseteq> set INCIDENT_STATES \<union> in_status ` set (idb_incidents db)
     \<and> idb_alerts db' = idb_alerts db \<and> idb_groups db' = idb_groups db \<and> idb_correlations db' = idb_correlations db
     \<and> idb_risks db' = idb_risks db \<and> idb_evidence db' = idb_evidence db \<and> idb_edges db' = idb_edges db
     \<and> grows (\<lambda>a. ia_action a \<notin> {''INCIDENT_CREATED'', ''INCIDENT_CREATION_FAILED''}) (idb_audit db) (idb_audit db')
     \<and> grows (\<lambda>a. ia_incident a \<in> incident_ids db) (idb_audit db) (idb_audit db')
     \<and> grows (\<lambda>n. nt_incident n \<in> incident_ids db) (idb_notes db) (idb_notes db')
     \<and> grows (\<lambda>f. fb_incident f \<in> incident_ids db) (idb_feedback db) (idb_feedback db')
     \<and> grows (\<lambda>s. su_incident s \<in> incident_ids db) (idb_suppressions db) (idb_suppressions db')"

lemma core_fields:
  "core i = core j \<Longrightarrow> in_id i = in_id j \<and> in_incident_id i = in_incident_id j \<and> in_fingerprint i = in_fingerprint j
     \<and> in_entity_ids i = in_entity_ids j \<and> core_ok i = core_ok j"
  by (simp add: core_def core_ok_def)

lemma map_core_field:
  "(\<And>i j. core i = core j \<Longrightarrow> f i = f j) \<Longrightarrow> map core is = map core js \<Longrightarrow> map f is = map f js"
proof (induction "is" arbitrary: js)
  case (Cons i "is")
  from Cons.prems(2) obtain j js' where js: "js = j # js'" "core i = core j" "map core is = map core js'" by (cases js) auto
  have "map f is = map f js'" by (rule Cons.IH [OF Cons.prems(1) js(3)])
  moreover have "f i = f j" by (rule Cons.prems(1) [OF js(2)])
  ultimately show ?case using js(1) by (simp only: list.map)
qed simp

lemma map_core:
  assumes "map core is = map core js"
  shows "map in_id is = map in_id js" "map in_incident_id is = map in_incident_id js"
    "map in_fingerprint is = map in_fingerprint js"
  by (rule map_core_field [OF _ assms], simp add: core_def)+

lemma map_core_mem:
  assumes "map core is = map core js" "i \<in> set is" obtains j where "j \<in> set js" "core i = core j"
proof -
  have "core i \<in> core ` set js" using assms by (metis imageI list.set_map)
  then show ?thesis using that by blast
qed

lemma quiet_ids: "quiet db db' \<Longrightarrow> incident_ids db' = incident_ids db"
  unfolding quiet_def incident_ids_def by (metis map_core(2) list.set_map)

lemma quiet_ok:
  assumes ok: "incident_db_ok db" and q: "quiet db db'" shows "incident_db_ok db'"
proof -
  note q' = q [unfolded quiet_def]
  note m = map_core [OF conjunct1 [OF q']]
  have ids: "incident_ids db' = incident_ids db" by (rule quiet_ids [OF q])
  have l: "links_distinct db'" using incident_db_okD(7) [OF ok] q' by (simp add: links_distinct_def)
  have r: "set (idb_refs db') \<subseteq> incident_ids db'"
    using incident_db_okD(6) [OF ok] q' unfolding ids idb_refs_def set_append set_map Un_subset_iff
    by (elim conjE) (intro conjI; simp add: grows_image)
  have g: "edges_of db' (in_incident_id i) = graph_edges db' i" "creations db' (in_incident_id i) = 2" "core_ok i"
    if "i \<in> set (idb_incidents db')" for i
  proof -
    obtain j where j: "j \<in> set (idb_incidents db)" "core i = core j" using map_core_mem [OF conjunct1 [OF q'] \<open>i \<in> _\<close>] .
    note c = core_fields [OF j(2)]
    show "edges_of db' (in_incident_id i) = graph_edges db' i"
      using incident_db_okD(8) [OF ok j(1)] c q' by (simp add: edges_of_def graph_edges_def)
    obtain as where "idb_audit db' = idb_audit db @ as"
      "\<forall>a\<in>set as. ia_action a \<notin> {''INCIDENT_CREATED'', ''INCIDENT_CREATION_FAILED''}"
      using q' unfolding grows_def by blast
    then show "creations db' (in_incident_id i) = 2"
      using incident_db_okD(9) [OF ok j(1)] c by (simp add: creations_def filter_empty_conv)
    show "core_ok i" using incident_db_okD(4) [OF ok j(1)] c by blast
  qed
  have s: "in_status i \<in> set INCIDENT_STATES" if "i \<in> set (idb_incidents db')" for i
    using q' that incident_db_okD(5) [OF ok] by (elim conjE) (auto simp: image_subset_iff)
  have i: "ini.ids_ok (idb_incidents db') (idb_seq db')"
    using incident_db_okD(1) [OF ok] ini.ids_ok_cong [OF m(1)] q' by simp
  have a: "\<forall>a\<in>set (idb_audit db'). ia_action a \<noteq> ''INCIDENT_CREATION_FAILED''"
    using q' incident_db_okD(10) [OF ok] unfolding grows_def by (elim conjE exE) auto
  show ?thesis using i l r g s a incident_db_okD(2,3) [OF ok] m unfolding incident_db_ok_def by metis
qed

lemma quiet_trans:
  assumes "quiet a b" "quiet b c" shows "quiet a c"
proof -
  note p = assms(1) [unfolded quiet_def] and q = assms(2) [unfolded quiet_def, unfolded quiet_ids [OF assms(1)]]
  have "in_status ` set (idb_incidents c) \<subseteq> set INCIDENT_STATES \<union> in_status ` set (idb_incidents a)"
    using p q by (elim conjE) blast
  then show ?thesis using p q unfolding quiet_def by (elim conjE) (intro conjI; (erule (1) grows_trans | simp only:))
qed

lemma quiet_audit:
  "incident_audit_record db iid action actor old new reason now = Inr db' \<Longrightarrow>
   action \<notin> {''INCIDENT_CREATED'', ''INCIDENT_CREATION_FAILED''} \<Longrightarrow> quiet db db'"
  by (auto simp: incident_audit_record_def quiet_def incident_ids_def dest!: incident_of_Some split: if_splits option.splits)

lemma quiet_set_incident:
  assumes "\<And>i. core (f i) = core i" "\<And>i. in_status (f i) \<in> insert (in_status i) (set INCIDENT_STATES)"
  shows "quiet db (set_incident e f db)"
proof -
  have "in_status i \<in> set INCIDENT_STATES \<union> in_status ` set (idb_incidents db)"
    if "i \<in> set (update_row in_id (in_id e) f (idb_incidents db))" for i
    using that assms(2) unfolding set_update_row by (metis UnI1 UnI2 imageI insertE)
  then show ?thesis using map_update_row [where g = core, OF assms(1)]
    unfolding quiet_def set_incident_def by (simp add: image_subset_iff)
qed

lemma quiet_note: "nt_incident n \<in> incident_ids db \<Longrightarrow> quiet db (db\<lparr>idb_notes := idb_notes db @ [n]\<rparr>)"
  and quiet_feedback: "fb_incident f \<in> incident_ids db \<Longrightarrow> quiet db (db\<lparr>idb_feedback := idb_feedback db @ [f]\<rparr>)"
  and quiet_suppression: "su_incident s \<in> incident_ids db \<Longrightarrow> quiet db (db\<lparr>idb_suppressions := idb_suppressions db @ [s]\<rparr>)"
  by (simp_all add: quiet_def)

lemma in_ids: "incident_of db iid = Some i \<Longrightarrow> iid \<in> incident_ids db"
  using incident_of_None by (metis option.distinct(1))

lemmas core_update = core_def moved_incident_def suppressed_incident_def

lemma map_sum_Inr: "map_sum g f x = Inr y \<longleftrightarrow> (\<exists>z. x = Inr z \<and> y = f z)"
  by (cases x) auto

text \<open>An audit either returns or its incident is unknown.\<close>

lemma audit_known:
  "action \<in> set AUDIT_ACTIONS \<Longrightarrow> iid \<in> incident_ids db \<Longrightarrow>
   incident_audit_record db iid action actor old new reason now = Inr (db\<lparr>idb_audit := idb_audit db @ [\<lparr>ia_incident = iid,
     ia_action = action, ia_actor = actor, ia_old_value = old, ia_new_value = new, ia_reason = reason, ia_created_at = now\<rparr>]\<rparr>)"
  using incident_of_None [of db iid] by (auto simp: incident_audit_record_def split: option.splits)

lemma quiet_transition:
  assumes "transition_incident wall db iid target actor reason = Inr db'" shows "quiet db db'"
proof -
  obtain i where i: "incident_of db iid = Some i" "can_incident_transition (in_status i) target"
    and r: "incident_audit_record (set_incident i (moved_incident wall actor target) db) iid ''INCIDENT_UPDATED'' actor
        (Some (in_status i)) (Some target) reason wall = Inr db'"
    using assms by (auto simp: transition_incident_def transition_status_def split: option.splits if_splits)
  have "target \<in> set INCIDENT_STATES"
    using i(2) by (auto simp: can_incident_transition_def INCIDENT_TRANSITIONS_def INCIDENT_STATES_def split: if_splits)
  then have "quiet db (set_incident i (moved_incident wall actor target) db)"
    by (intro quiet_set_incident) (auto simp: core_update Let_def)
  from quiet_trans [OF this quiet_audit [OF r]] show ?thesis by simp
qed

lemma quiet_suppress:
  assumes "suppress_incident wall db iid reason scope expires by = Inr db'" shows "quiet db db'"
proof -
  define row where "row (i :: incident) = \<lparr>su_incident = iid, su_fingerprint = in_fingerprint i, su_reason = reason, su_scope = scope,
     su_expires_at = stamp_time expires, su_created_by = by, su_created_at = wall\<rparr>" for i
  obtain i db1 where i: "incident_of db iid = Some i"
    and a: "incident_audit_record (db\<lparr>idb_suppressions := idb_suppressions db @ [row i]\<rparr>) iid ''INCIDENT_SUPPRESSED'' by None
        (Some reason) None wall = Inr db1"
    and d: "db' = set_incident i (suppressed_incident wall reason scope (stamp_time expires) by) db1"
    using assms unfolding suppress_incident_def row_def [symmetric]
    by (auto simp: map_sum_Inr split: option.splits if_splits sum.splits)
  have "quiet db1 db'" unfolding d by (intro quiet_set_incident) (simp_all add: core_update INCIDENT_STATES_def)
  moreover have "quiet db (db\<lparr>idb_suppressions := idb_suppressions db @ [row i]\<rparr>)"
    by (rule quiet_suppression) (simp add: row_def in_ids [OF i])
  ultimately show ?thesis using quiet_audit [OF a] by (simp add: quiet_trans)
qed

lemma quiet_add_note:
  assumes "add_note second wall db iid author content note_id = Inr db'" shows "quiet db db'"
proof -
  define row where "row n = \<lparr>nt_id = n, nt_incident = iid, nt_author = author, nt_content = content, nt_created_at = wall\<rparr>" for n
  obtain i n db1 where i: "incident_of db iid = Some i"
    and a: "incident_audit_record (db\<lparr>idb_notes := idb_notes db @ [row n]\<rparr>) iid ''INCIDENT_NOTE_ADDED'' author None
        (Some n) (Some ''analyst note'') wall = Inr db1"
    and d: "db' = set_incident i (\<lambda>j. j\<lparr>in_updated_at := wall, in_updated_by := author\<rparr>) db1"
    using assms unfolding add_note_def row_def [symmetric] Let_def
    by (auto simp: map_sum_Inr split: option.splits if_splits)
  have "quiet db1 db'" unfolding d by (intro quiet_set_incident) (simp_all add: core_update)
  moreover have "quiet db (db\<lparr>idb_notes := idb_notes db @ [row n]\<rparr>)"
    by (rule quiet_note) (simp add: row_def in_ids [OF i])
  ultimately show ?thesis using quiet_audit [OF a] by (simp add: quiet_trans)
qed

lemma quiet_audit_if:
  "audit_if c iid action actor old new wall db = Inr db' \<Longrightarrow>
   action \<notin> {''INCIDENT_CREATED'', ''INCIDENT_CREATION_FAILED''} \<Longrightarrow> quiet d db \<Longrightarrow> quiet d db'"
  unfolding audit_if_def by (cases c) (auto intro: quiet_trans quiet_audit)

lemma quiet_assign:
  assumes "assign_incident wall db iid who team actor = Inr db'" shows "quiet db db'"
proof -
  let ?f = "\<lambda>j. j\<lparr>in_assigned_to := who, in_assigned_team := team, in_assigned_at := Some wall,
                in_updated_at := wall, in_updated_by := actor\<rparr>"
  let ?act = "if who \<noteq> None \<and> who \<noteq> Some [] then ''INCIDENT_ASSIGNED'' else ''INCIDENT_UNASSIGNED''"
  obtain i db1 where i: "incident_of db iid = Some i"
    and a: "audit_if (in_assigned_to i \<noteq> who) iid ?act actor (in_assigned_to i) who wall (set_incident i ?f db) = Inr db1"
    and b: "audit_if (in_assigned_team i \<noteq> team) iid ''INCIDENT_TEAM_ASSIGNED'' actor (in_assigned_team i) team wall db1 = Inr db'"
    using assms unfolding assign_incident_def by (auto split: option.splits sum.splits simp del: not_None_eq)
  have "quiet db (set_incident i ?f db)" by (intro quiet_set_incident) (simp_all add: core_update)
  then have "quiet db db1" by (rule quiet_audit_if [OF a, rotated]) simp
  then show ?thesis by (rule quiet_audit_if [OF b, rotated]) simp
qed

lemma quiet_resume:
  assumes "resume_incident wall actor now db e = Inr db'" shows "quiet db db'"
proof -
  have "quiet db (set_incident e (\<lambda>i. i\<lparr>in_status := ''NEW'', in_suppression_reason := None, in_suppression_scope := None,
          in_suppression_expires_at := None, in_suppression_created_by := None,
          in_last_seen := max (in_last_seen i) now, in_updated_at := wall\<rparr>) db)"
    by (intro quiet_set_incident) (simp_all add: core_update INCIDENT_STATES_def)
  then show ?thesis using assms unfolding resume_incident_def by (rule quiet_trans [OF _ quiet_audit]) simp
qed

lemma quiet_suppress_reopen: "suppress_reopen wall actor db iid = Inr db' \<Longrightarrow> db' = db \<or> quiet db db'"
  unfolding suppress_reopen_def by (auto split: if_splits intro: quiet_audit)

text \<open>A request about evidence that has an incident is quiet or changes nothing.\<close>

lemma quiet_report:
  "report_existing wall rq now db fp e = Inr (db', r) \<Longrightarrow> db' = db \<or> quiet db db'"
  unfolding report_existing_def
  by (auto simp: map_sum_Inr split: if_splits dest: quiet_resume quiet_suppress_reopen)

end
