(* ===== verification/Incident_Desk.thy ===== *)
theory Incident_Desk
  imports Incident_Engine
begin

text \<open>
  The requests of \<open>backend/api/incidents_v2.py\<close> and the figures of
  \<open>backend/incidents/metrics.py\<close> and \<open>eligibility.py\<close>.  A request works on a session
  that \<open>get_db\<close> opens and closes; no handler commits.
\<close>

section \<open>Requests that change an incident\<close>

datatype incident_post =
    PostTransition string "string option" string
  | PostNote string string
  | PostAssign "string option" "string option" string
  | PostSuppress string string int string
  | PostFeedback string string "string option"

text \<open>\<open>ValueError\<close> becomes 404; only the transition handler maps every other exception, to
  422.  What a handler does not catch is answered with 500.\<close>

definition http_of :: "bool \<Rightarrow> py_error \<Rightarrow> nat" where
  "http_of catch_all e = (case e of ValueError _ \<Rightarrow> 404 | HTTPException n \<Rightarrow> n | _ \<Rightarrow> (if catch_all then 422 else 500))"

definition post_feedback ::
  "time \<Rightarrow> incident_db \<Rightarrow> string \<Rightarrow> string \<Rightarrow> string \<Rightarrow> string option \<Rightarrow> py_error + incident_db" where
  "post_feedback wall db iid analyst feedback_type reason =
     (case incident_of db iid of
        None \<Rightarrow> Inl (HTTPException 404)
      | Some i \<Rightarrow> incident_audit_record
          (db\<lparr>idb_feedback := idb_feedback db @ [\<lparr>fb_incident = iid, fb_analyst = analyst,
             fb_type = py_upper feedback_type, fb_reason = reason, fb_created_at = wall\<rparr>]\<rparr>)
          iid ''INCIDENT_FEEDBACK_ADDED'' analyst None (Some (py_upper feedback_type)) None wall)"

text \<open>\<open>expires_at = datetime.now(UTC).replace(tzinfo=None) + timedelta(days)\<close>, the query
  parameter being validated to lie between 1 and 90.\<close>

definition post_suppress ::
  "time \<Rightarrow> incident_db \<Rightarrow> string \<Rightarrow> string \<Rightarrow> string \<Rightarrow> int \<Rightarrow> string \<Rightarrow> py_error + incident_db" where
  "post_suppress wall db iid reason scope expires_in_days actor =
     (if \<not> (1 \<le> expires_in_days \<and> expires_in_days \<le> 90) then Inl (HTTPException 422)
      else suppress_incident wall db iid reason scope (Naive (wall + days expires_in_days)) actor)"

fun incident_post_run :: "string \<Rightarrow> time \<Rightarrow> incident_db \<Rightarrow> string \<Rightarrow> incident_post \<Rightarrow> nat + incident_db" where
  "incident_post_run second wall db iid (PostTransition status reason actor) =
     map_sum (http_of True) id (transition_incident wall db iid (py_upper status) actor reason)"
| "incident_post_run second wall db iid (PostNote author content) =
     map_sum (http_of False) id (add_note second wall db iid author content None)"
| "incident_post_run second wall db iid (PostAssign who team actor) =
     map_sum (http_of False) id (assign_incident wall db iid who team actor)"
| "incident_post_run second wall db iid (PostSuppress reason scope expires_in_days actor) =
     map_sum (http_of False) id (post_suppress wall db iid reason scope expires_in_days actor)"
| "incident_post_run second wall db iid (PostFeedback analyst feedback_type reason) =
     map_sum (\<lambda>e. case e of HTTPException n \<Rightarrow> n | _ \<Rightarrow> 500) id (post_feedback wall db iid analyst feedback_type reason)"

text \<open>One request: the session starts from the committed tables; \<open>get_db\<close> closes it, which
  rolls back what no commit has made permanent.\<close>

definition open_session :: "incident_db \<Rightarrow> incident_session" where
  "open_session committed = \<lparr>ses_committed = committed, ses_view = committed\<rparr>"

definition close_session :: "incident_session \<Rightarrow> incident_db" where
  "close_session s = (ses_committed s)\<lparr>idb_seq := idb_seq (ses_view s)\<rparr>"

definition incident_endpoint ::
  "string \<Rightarrow> time \<Rightarrow> incident_db \<Rightarrow> string \<Rightarrow> incident_post \<Rightarrow> incident_db \<times> nat" where
  "incident_endpoint second wall committed iid req =
     (let s = open_session committed in
      case incident_post_run second wall (ses_view s) iid req of
        Inl code \<Rightarrow> (close_session s, code)
      | Inr db \<Rightarrow> (close_session (s\<lparr>ses_view := db\<rparr>), 200))"

section \<open>Requests that read\<close>

record incident_query =
  iq_status :: "string option"
  iq_severity :: "string option"
  iq_priority :: "string option"
  iq_assigned_to :: "string option"
  iq_assigned_team :: "string option"
  iq_entity_type :: "string option"
  iq_entity_id :: "string option"
  iq_confidence :: "rat option"
  iq_first_seen_after :: "time option"
  iq_last_seen_before :: "time option"

definition given :: "'a option \<Rightarrow> ('a \<Rightarrow> bool) \<Rightarrow> bool" where
  "given p test \<longleftrightarrow> (case p of None \<Rightarrow> True | Some v \<Rightarrow> test v)"

definition incident_query_matches :: "incident_query \<Rightarrow> incident \<Rightarrow> bool" where
  "incident_query_matches q i \<longleftrightarrow>
     given (iq_status q) (\<lambda>s. in_status i = py_upper s) \<and> given (iq_severity q) (\<lambda>s. in_severity i = py_lower s)
     \<and> given (iq_priority q) (\<lambda>p. in_priority i = py_upper p)
     \<and> given (iq_assigned_to q) (\<lambda>a. in_assigned_to i = Some a) \<and> given (iq_assigned_team q) (\<lambda>t. in_assigned_team i = Some t)
     \<and> given (iq_entity_type q) (\<lambda>t. in_entity_type i = py_upper t) \<and> given (iq_entity_id q) (\<lambda>e. in_entity_id i = e)
     \<and> given (iq_confidence q) (\<lambda>c. c \<le> in_confidence i)
     \<and> given (iq_first_seen_after q) (\<lambda>t. t \<le> in_first_seen i) \<and> given (iq_last_seen_before q) (\<lambda>t. in_last_seen i \<le> t)"

definition list_incidents :: "incident_db \<Rightarrow> incident_query \<Rightarrow> incident list" where
  "list_incidents db q = sort_key (\<lambda>i. - in_created_at i) (filter (incident_query_matches q) (idb_incidents db))"

definition link_targets :: "string \<Rightarrow> incident_link list \<Rightarrow> string list" where
  "link_targets iid ls = map lk_target (links_of iid ls)"

record incident_detail =
  dt_incident :: incident
  dt_alerts :: "string list"
  dt_groups :: "string list"
  dt_correlations :: "string list"
  dt_risks :: "string list"

definition incident_detail_of :: "incident_db \<Rightarrow> string \<Rightarrow> py_error + incident_detail" where
  "incident_detail_of db iid =
     (case incident_of db iid of
        None \<Rightarrow> Inl (HTTPException 404)
      | Some i \<Rightarrow> Inr \<lparr>dt_incident = i, dt_alerts = link_targets iid (idb_alerts db),
          dt_groups = link_targets iid (idb_groups db), dt_correlations = link_targets iid (idb_correlations db),
          dt_risks = link_targets iid (idb_risks db)\<rparr>)"

definition incident_evidence_of :: "incident_db \<Rightarrow> string \<Rightarrow> incident_evidence list" where
  "incident_evidence_of db iid = filter (\<lambda>e. iv_incident e = iid) (idb_evidence db)"

definition incident_audit_of :: "incident_db \<Rightarrow> string \<Rightarrow> incident_audit list" where
  "incident_audit_of db iid = filter (\<lambda>a. ia_incident a = iid) (idb_audit db)"

definition incident_graph_of :: "incident_db \<Rightarrow> string \<Rightarrow> py_error + string \<times> (string \<times> string \<times> string \<times> string) list" where
  "incident_graph_of db iid =
     (case incident_of db iid of
        None \<Rightarrow> Inl (HTTPException 404)
      | Some i \<Rightarrow> Inr (in_title i, map (\<lambda>e. (ge_source e, ge_target e, ge_type e, ge_reason e))
                                   (filter (\<lambda>e. ge_incident e = iid) (idb_edges db))))"

section \<open>Eligibility of a stored incident\<close>

text \<open>The context holds only ids: every other key of the dictionaries is missing.\<close>

definition bare_group :: "string \<Rightarrow> incident_group" where
  "bare_group t = \<lparr>ig_group_id = [], ig_behavior_group_id = t, ig_hosts = [], ig_users = [], ig_accounts = [],
     ig_source_ips = [], ig_destination_ips = [], ig_techniques = [], ig_tactics = [], ig_severity = [],
     ig_alert_count = 0, ig_first_seen = None, ig_last_seen = None\<rparr>"

definition bare_finding :: "string \<Rightarrow> incident_finding" where
  "bare_finding t = \<lparr>if_correlation_id = [], if_finding_id = [], if_type = [], if_hosts = [], if_users = [],
     if_source_ips = [], if_severity = []\<rparr>"

definition bare_risk :: "string \<Rightarrow> incident_risk" where
  "bare_risk t = \<lparr>ir_risk_id = t, ir_score = 0, ir_score_text = [], ir_severity = [], ir_entity_type = ''HOST'', ir_entity_id = []\<rparr>"

definition check_eligibility :: "incident_db \<Rightarrow> string \<Rightarrow> string \<Rightarrow> policy_result option" where
  "check_eligibility db iid pid =
     (case incident_of db iid of
        None \<Rightarrow> None
      | Some i \<Rightarrow> Some (evaluate_policy pid (map bare_group (link_targets iid (idb_groups db)))
          (map bare_finding (link_targets iid (idb_correlations db)))
          (case link_targets iid (idb_risks db) of [] \<Rightarrow> None | t # _ \<Rightarrow> Some (bare_risk t))))"

section \<open>Metrics\<close>

text \<open>\<open>round(pct / 100.0 * (len - 1))\<close>; the division and the product are float operations.\<close>

definition percentile :: "rat list \<Rightarrow> rat \<Rightarrow> rat" where
  "percentile values pct =
     (if values = [] then 0
      else let ordered = sort values in
      if 100 \<le> pct then last ordered
      else ordered ! nat (rhe (fmul (fdiv pct 100) (of_nat (length ordered - 1)))))"

definition INCIDENT_SLA_MINUTES :: "(string \<times> int) list" where
  "INCIDENT_SLA_MINUTES = [(''P1'', 15), (''P2'', 30), (''P3'', 120), (''P4'', 480)]"

definition sla_minutes :: "string \<Rightarrow> int" where
  "sla_minutes p = (case map_of INCIDENT_SLA_MINUTES p of None \<Rightarrow> 480 | Some m \<Rightarrow> m)"

text \<open>\<open>(now - created_at).total_seconds() / 3600.0\<close>.\<close>

definition age_hours :: "time \<Rightarrow> incident \<Rightarrow> rat" where
  "age_hours now i = fdiv (fdiv (of_int (now - in_created_at i)) 1000000) 3600"

definition sla_breached :: "time \<Rightarrow> incident \<Rightarrow> bool" where
  "sla_breached now i \<longleftrightarrow> of_int (sla_minutes (in_priority i)) < fmul (age_hours now i) 60"

definition count_status :: "incident list \<Rightarrow> string \<Rightarrow> nat" where
  "count_status is s = length (filter (\<lambda>i. in_status i = s) is)"

record incident_figures =
  mf_total :: nat
  mf_active :: nat
  mf_open :: nat
  mf_resolved :: nat
  mf_closed :: nat
  mf_suppressed :: nat
  mf_unassigned :: nat
  mf_assigned :: int
  mf_within_sla :: nat
  mf_breached :: nat
  mf_median_age :: rat
  mf_p95_age :: rat
  mf_calculations :: nat
  mf_failures :: nat

definition count_action :: "incident_db \<Rightarrow> string \<Rightarrow> nat" where
  "count_action db action = length (filter (\<lambda>a. ia_action a = action) (idb_audit db))"

definition incident_metrics :: "incident_db \<Rightarrow> time \<Rightarrow> incident_figures" where
  "incident_metrics db now =
     (let is = idb_incidents db;
          queue = filter (\<lambda>i. in_status i \<in> {''NEW'', ''TRIAGED'', ''INVESTIGATING'', ''CONTAINMENT_REQUIRED''}) is;
          ages = map (age_hours now) queue
      in \<lparr>mf_total = length is,
          mf_active = sum_list (map (count_status is)
             [''NEW'', ''TRIAGED'', ''INVESTIGATING'', ''CONTAINMENT_REQUIRED'', ''CONTAINED'']),
          mf_open = count_status is ''NEW'' + count_status is ''TRIAGED'',
          mf_resolved = count_status is ''RESOLVED'', mf_closed = count_status is ''CLOSED'',
          mf_suppressed = count_status is ''SUPPRESSED'', mf_unassigned = count_status is ''NEW'',
          mf_assigned = int (length is) - int (count_status is ''NEW''),
          mf_within_sla = length (filter (\<lambda>i. \<not> sla_breached now i) queue),
          mf_breached = length (filter (sla_breached now) queue),
          mf_median_age = (if ages \<noteq> [] then pyround 2 (percentile ages 50) else 0),
          mf_p95_age = (if ages \<noteq> [] then pyround 2 (percentile ages 95) else 0),
          mf_calculations = count_action db ''INCIDENT_CREATED'',
          mf_failures = count_action db ''INCIDENT_CREATION_FAILED''\<rparr>)"

end
