(* ===== verification/Incident_Create.thy ===== *)
theory Incident_Create
  imports Incident_Invariant Incident_Desk
begin

text \<open>
  The creation of an incident in closed form: which request succeeds, what the tables are
  afterwards, and that the invariant is kept; then the reachable tables of any sequence of
  operations.
\<close>

section \<open>Links\<close>

lemma insert_links_iff:
  "distinct (map link_key ls) \<Longrightarrow>
   insert_links ls new = Inr r \<longleftrightarrow> r = ls @ new \<and> distinct (map link_key (ls @ new))"
proof (induction new arbitrary: ls)
  case (Cons l new)
  have clash: "(\<exists>q\<in>set ls. lk_incident q = lk_incident l \<and> lk_target q = lk_target l) \<longleftrightarrow> link_key l \<in> link_key ` set ls"
    unfolding link_key_def image_iff by (metis prod.inject)
  show ?case
  proof (cases "link_key l \<in> link_key ` set ls")
    case True
    then show ?thesis by (simp add: insert_link_def clash)
  next
    case False
    then have "distinct (map link_key (ls @ [l]))" using Cons.prems by simp
    from Cons.IH [OF this] False show ?thesis by (simp add: insert_link_def clash)
  qed
qed auto

lemma insert_links_error: "insert_links ls new = Inl e \<Longrightarrow> \<exists>m. e = IntegrityError m"
  by (induction ls new rule: insert_links.induct) (auto simp: insert_link_def split: sum.splits if_splits)

lemma fresh_links:
  assumes "distinct (map link_key ls)" "iid \<notin> lk_incident ` set ls"
  shows "distinct (map link_key (ls @ links iid wall reason ts)) \<longleftrightarrow> distinct ts"
proof -
  have "map link_key (links iid wall reason ts) = map (Pair iid) ts" by (simp add: links_def link_key_def)
  moreover have "link_key ` set ls \<inter> Pair iid ` set ts = {}" using assms(2) by (auto simp: link_key_def)
  ultimately show ?thesis using assms(1) by (auto simp: distinct_map inj_on_def)
qed

lemma insert_fresh_links:
  assumes "distinct (map link_key ls)" "iid \<notin> lk_incident ` set ls"
  shows "insert_links ls (links iid wall reason ts) = Inr r \<longleftrightarrow> r = ls @ links iid wall reason ts \<and> distinct ts"
  using insert_links_iff [OF assms(1)] fresh_links [OF assms] by simp

lemma links_of_append [simp]: "links_of iid (xs @ ys) = links_of iid xs @ links_of iid ys"
  by (simp add: links_of_def)

lemma links_of_links: "links_of jid (links iid wall reason ts) = (if jid = iid then links iid wall reason ts else [])"
  by (simp add: links_of_def links_def filter_empty_conv)

definition risk_ids :: "incident_request \<Rightarrow> string list" where
  "risk_ids rq = filter (\<lambda>r. r \<noteq> []) (map ir_risk_id (rq_risks rq))"

definition linked_db :: "time \<Rightarrow> string \<Rightarrow> incident_request \<Rightarrow> incident_db \<Rightarrow> incident_db" where
  "linked_db wall iid rq db =
     db\<lparr>idb_groups := idb_groups db @ links iid wall ''behavior group evidence'' (uniq_first (group_refs (rq_groups rq))),
        idb_correlations := idb_correlations db @ links iid wall ''correlation finding'' (uniq_first (finding_refs (rq_findings rq))),
        idb_risks := idb_risks db @ links iid wall ''entity risk context'' (risk_ids rq),
        idb_alerts := idb_alerts db @ links iid wall ''alert evidence'' (rq_alerts rq)\<rparr>"

lemma link_sources_fresh:
  assumes "links_distinct db" "iid \<notin> set (idb_refs db)"
  shows "link_sources wall iid (rq_groups rq) (rq_findings rq) (rq_risks rq) (rq_alerts rq) db = Inr db' \<longleftrightarrow>
     distinct (risk_ids rq) \<and> distinct (rq_alerts rq) \<and> db' = linked_db wall iid rq db"
proof -
  have d: "distinct (map link_key (idb_alerts db))" "distinct (map link_key (idb_groups db))"
    "distinct (map link_key (idb_correlations db))" "distinct (map link_key (idb_risks db))"
    using assms(1) by (simp_all add: links_distinct_def)
  have f: "iid \<notin> lk_incident ` set (idb_alerts db)" "iid \<notin> lk_incident ` set (idb_groups db)"
    "iid \<notin> lk_incident ` set (idb_correlations db)" "iid \<notin> lk_incident ` set (idb_risks db)"
    using assms(2) by (simp_all add: idb_refs_def)
  note i = insert_fresh_links [OF d(1) f(1)] insert_fresh_links [OF d(2) f(2)]
    insert_fresh_links [OF d(3) f(3)] insert_fresh_links [OF d(4) f(4)]
  let ?R = "insert_links (idb_risks db) (links iid wall ''entity risk context'' (risk_ids rq))"
  let ?A = "insert_links (idb_alerts db) (links iid wall ''alert evidence'' (rq_alerts rq))"
  have gs: "insert_links (idb_groups db) (links iid wall r (uniq_first ts)) = Inr (idb_groups db @ links iid wall r (uniq_first ts))"
    and cs: "insert_links (idb_correlations db) (links iid wall r (uniq_first ts)) = Inr (idb_correlations db @ links iid wall r (uniq_first ts))" for r ts
    using i by simp_all
  show ?thesis
  proof (cases "distinct (risk_ids rq) \<and> distinct (rq_alerts rq)")
    case True
    then have "?R = Inr (idb_risks db @ links iid wall ''entity risk context'' (risk_ids rq))"
      "?A = Inr (idb_alerts db @ links iid wall ''alert evidence'' (rq_alerts rq))" using i by simp_all
    then show ?thesis using True unfolding link_sources_def risk_ids_def [symmetric] gs cs sum.case linked_db_def
      by (simp only: sum.case sum.inject simp_thms eq_commute)
  next
    case False
    then have "\<exists>e. ?R = Inl e \<or> ?A = Inl e" using i(1) i(4) by (metis sum.exhaust)
    then show ?thesis using False unfolding link_sources_def risk_ids_def [symmetric] gs cs sum.case
      by (auto split: sum.split)
  qed
qed

lemma link_sources_error:
  "link_sources wall iid gs fs rs as db = Inl e \<Longrightarrow> \<exists>m. e = IntegrityError m"
  unfolding link_sources_def by (auto split: sum.splits dest: insert_links_error)

section \<open>Evidence and audit\<close>

lemma add_evidences_known:
  assumes "iid \<in> incident_ids db" "\<And>e. e \<in> set es \<Longrightarrow> iv_incident e = iid \<and> iv_source_type e \<in> set EVIDENCE_SOURCE_TYPES"
  shows "add_evidences wall db es = Inr (db\<lparr>idb_evidence := idb_evidence db @ map (\<lambda>e. e\<lparr>iv_added_at := wall\<rparr>) es\<rparr>)"
  using assms
proof (induction es arbitrary: db)
  case (Cons e es)
  have "iv_incident e = iid" "iv_source_type e \<in> set EVIDENCE_SOURCE_TYPES" using Cons.prems(2) by simp_all
  moreover obtain i where "incident_of db iid = Some i" using Cons.prems(1) incident_of_None by (metis not_None_eq)
  ultimately have "add_evidence wall db e = Inr (db\<lparr>idb_evidence := idb_evidence db @ [e\<lparr>iv_added_at := wall\<rparr>]\<rparr>)"
    by (simp add: add_evidence_def)
  moreover have "iid \<in> incident_ids (db\<lparr>idb_evidence := x\<rparr>)" for x using Cons.prems(1) by (simp add: incident_ids_def)
  ultimately show ?case using Cons.IH Cons.prems(2) by simp
qed simp

lemma request_evidence_known:
  "e \<in> set (request_evidence iid rq now) \<Longrightarrow> iv_incident e = iid \<and> iv_source_type e \<in> set EVIDENCE_SOURCE_TYPES"
  by (auto simp: request_evidence_def EVIDENCE_SOURCE_TYPES_def)

definition created_db :: "string \<Rightarrow> time \<Rightarrow> incident_request \<Rightarrow> time \<Rightarrow> incident \<Rightarrow> incident_db \<Rightarrow> incident_db" where
  "created_db took wall rq now i db =
     (let iid = in_incident_id i; db1 = linked_db wall iid rq db
      in db1\<lparr>idb_edges := idb_edges db @ graph_edges db1 i,
             idb_audit := idb_audit db @ [creation_row iid rq now (creation_text i), creation_row iid rq now (duration_text took)],
             idb_evidence := idb_evidence db @ map (\<lambda>e. e\<lparr>iv_added_at := wall\<rparr>) (request_evidence iid rq now)\<rparr>)"

lemma record_creation_iff:
  assumes "links_distinct db" "in_incident_id i \<notin> set (idb_refs db)" "in_incident_id i \<in> incident_ids db"
  shows "record_creation took wall rq now i db = Inr db' \<longleftrightarrow>
     distinct (risk_ids rq) \<and> distinct (rq_alerts rq) \<and> db' = created_db took wall rq now i db"
proof -
  let ?iid = "in_incident_id i"
  let ?db1 = "linked_db wall ?iid rq db"
  have act: "''INCIDENT_CREATED'' \<in> set AUDIT_ACTIONS" by (simp add: AUDIT_ACTIONS_def)
  have known: "?iid \<in> incident_ids (build_graph ?db1 i)" "?iid \<in> incident_ids ((build_graph ?db1 i)\<lparr>idb_audit := x\<rparr>)" for x
    using assms(3) by (simp_all add: incident_ids_def build_graph_def linked_db_def)
  note audit = audit_known [OF act known(1)]
  have r: "record_creation took wall rq now i db = Inr (created_db took wall rq now i db)"
    if "link_sources wall ?iid (rq_groups rq) (rq_findings rq) (rq_risks rq) (rq_alerts rq) db = Inr ?db1"
  proof -
    let ?db2 = "(build_graph ?db1 i)\<lparr>idb_audit := idb_audit db @ [creation_row ?iid rq now (creation_text i), creation_row ?iid rq now (duration_text took)]\<rparr>"
    have "add_evidences wall ?db2 (request_evidence ?iid rq now)
        = Inr (?db2\<lparr>idb_evidence := idb_evidence ?db2 @ map (\<lambda>e. e\<lparr>iv_added_at := wall\<rparr>) (request_evidence ?iid rq now)\<rparr>)"
      by (rule add_evidences_known [OF known(2) request_evidence_known])
    moreover have "?db2\<lparr>idb_evidence := idb_evidence ?db2 @ map (\<lambda>e. e\<lparr>iv_added_at := wall\<rparr>) (request_evidence ?iid rq now)\<rparr>
        = created_db took wall rq now i db"
      by (rule incident_db.equality) (simp_all add: created_db_def Let_def build_graph_def linked_db_def)
    moreover have "idb_audit (build_graph ?db1 i) = idb_audit db" by (simp add: build_graph_def linked_db_def)
    ultimately show ?thesis
      unfolding record_creation_def Let_def that sum.case audit creation_row_def [symmetric] by simp
  qed
  show ?thesis
  proof (cases "distinct (risk_ids rq) \<and> distinct (rq_alerts rq)")
    case False
    then obtain e where "link_sources wall ?iid (rq_groups rq) (rq_findings rq) (rq_risks rq) (rq_alerts rq) db = Inl e"
      using link_sources_fresh [OF assms(1,2), of wall rq] by (metis sum.exhaust)
    then show ?thesis using False by (auto simp: record_creation_def)
  next
    case True
    then have "link_sources wall ?iid (rq_groups rq) (rq_findings rq) (rq_risks rq) (rq_alerts rq) db = Inr ?db1"
      using link_sources_fresh [OF assms(1,2), of wall rq] by simp
    then show ?thesis using r True by auto
  qed
qed

section \<open>The new row\<close>

lemma incident_num: "incident_db_ok db \<Longrightarrow> i \<in> set (idb_incidents db) \<Longrightarrow>
    \<exists>k. k \<le> last_id in_id (idb_incidents db) \<and> in_incident_id i = incident_public_id k"
  using incident_db_okD(4) [of db i] last_id_ge [of i "idb_incidents db" in_id] unfolding core_ok_def by fastforce

lemma next_incident_id_fresh:
  assumes "incident_db_ok db" shows "next_incident_id db \<notin> incident_ids db" "next_incident_id db \<notin> set (idb_refs db)"
proof -
  have "next_incident_id db \<noteq> in_incident_id i" if i: "i \<in> set (idb_incidents db)" for i
  proof -
    obtain k where "k \<le> last_id in_id (idb_incidents db)" "in_incident_id i = incident_public_id k"
      using incident_num [OF assms i] by blast
    then show ?thesis by (simp add: next_incident_id_def)
  qed
  then show n: "next_incident_id db \<notin> incident_ids db" unfolding incident_ids_def by blast
  show "next_incident_id db \<notin> set (idb_refs db)" using n incident_db_okD(6) [OF assms] by blast
qed

text \<open>The tables with the new row, before anything is linked to it.\<close>

definition inserted_db :: "incident \<Rightarrow> incident_db \<Rightarrow> incident_db" where
  "inserted_db i db = db\<lparr>idb_incidents := idb_incidents db @ [i\<lparr>in_id := Suc (idb_seq db)\<rparr>], idb_seq := Suc (idb_seq db)\<rparr>"

lemma insert_incident_fresh:
  assumes "incident_db_ok db" "in_incident_id i = next_incident_id db" "in_fingerprint i = fp" "incident_for db fp = None"
  shows "insert_incident [] db i = Inr (inserted_db i db)"
proof -
  have "\<not> (\<exists>q\<in>set (idb_incidents db). in_fingerprint q = in_fingerprint i)"
    using assms(3,4) unfolding incident_for_None by (metis imageI)
  moreover have "\<not> (\<exists>q\<in>set (idb_incidents db). in_incident_id q = in_incident_id i)"
    using next_incident_id_fresh(1) [OF assms(1)] assms(2) unfolding incident_ids_def by (metis imageI)
  ultimately show ?thesis by (simp add: insert_incident_def inserted_db_def)
qed

lemma new_incident_simps [simp]:
  "in_incident_id (new_incident fp iid title rq now) = iid" "in_fingerprint (new_incident fp iid title rq now) = fp"
  "in_title (new_incident fp iid title rq now) = title" "in_status (new_incident fp iid title rq now) = ''NEW''"
  "in_entity_ids (new_incident fp iid title rq now) = request_entities rq"
  by (simp_all add: new_incident_def Let_def split: prod.split)

lemma new_incident_scores:
  "in_severity (new_incident fp iid title rq now) = aggregate_severity (rq_groups rq) (rq_findings rq) (first_risk rq)"
  "in_confidence (new_incident fp iid title rq now) = fst (compute_confidence (rq_groups rq) (rq_findings rq) (first_risk rq))"
  "in_priority (new_incident fp iid title rq now) =
     priority_from_context (aggregate_severity (rq_groups rq) (rq_findings rq) (first_risk rq))
       (case first_risk rq of None \<Rightarrow> 0 | Some r \<Rightarrow> ir_score r) (length (request_entities rq))"
  by (simp_all add: new_incident_def Let_def split: prod.split)

lemma core_ok_new:
  assumes "incident_db_ok db" "clean_title title"
  shows "core_ok ((new_incident fp (next_incident_id db) title rq now)\<lparr>in_id := Suc (idb_seq db)\<rparr>)"
proof -
  have "last_id in_id (idb_incidents db) \<le> idb_seq db" by (rule ini.last_id_le_seq [OF incident_db_okD(1) [OF assms(1)]])
  then have "\<exists>k. 0 < k \<and> k \<le> Suc (idb_seq db) \<and> next_incident_id db = incident_public_id k"
    unfolding next_incident_id_def by (intro exI [of _ "last_id in_id (idb_incidents db) + 1"]) simp
  then show ?thesis
    using assms(2) aggregate_severity_known priority_known compute_confidence_unit
    unfolding core_ok_def by (simp add: new_incident_scores)
qed

lemma link_edges_append [simp]: "link_edges iid ty st (xs @ ys) = link_edges iid ty st xs @ link_edges iid ty st ys"
  by (simp add: link_edges_def)

lemma link_edges_other: "iid \<noteq> jid \<Longrightarrow> link_edges jid ty st (links iid wall reason ts) = []"
  by (simp add: link_edges_def links_of_links)

lemma graph_edges_linked_other:
  "in_incident_id j \<noteq> iid \<Longrightarrow> graph_edges (linked_db wall iid rq db) j = graph_edges db j"
  by (simp add: graph_edges_def linked_db_def link_edges_other)

lemma graph_edges_incident: "e \<in> set (graph_edges db i) \<Longrightarrow> ge_incident e = in_incident_id i"
  by (auto simp: graph_edges_def link_edges_def)

lemma graph_edges_cong:
  "idb_alerts d = idb_alerts db \<Longrightarrow> idb_groups d = idb_groups db \<Longrightarrow> idb_correlations d = idb_correlations db \<Longrightarrow>
   idb_risks d = idb_risks db \<Longrightarrow> in_incident_id i = in_incident_id j \<Longrightarrow> in_entity_ids i = in_entity_ids j \<Longrightarrow>
   graph_edges d i = graph_edges db j"
  by (simp add: graph_edges_def)

lemma created_db_simps [simp]:
  "idb_incidents (created_db took wall rq now i db) = idb_incidents db" "idb_seq (created_db took wall rq now i db) = idb_seq db"
  "idb_notes (created_db took wall rq now i db) = idb_notes db" "idb_feedback (created_db took wall rq now i db) = idb_feedback db"
  "idb_suppressions (created_db took wall rq now i db) = idb_suppressions db"
  "idb_alerts (created_db took wall rq now i db) = idb_alerts (linked_db wall (in_incident_id i) rq db)"
  "idb_groups (created_db took wall rq now i db) = idb_groups (linked_db wall (in_incident_id i) rq db)"
  "idb_correlations (created_db took wall rq now i db) = idb_correlations (linked_db wall (in_incident_id i) rq db)"
  "idb_risks (created_db took wall rq now i db) = idb_risks (linked_db wall (in_incident_id i) rq db)"
  "idb_edges (created_db took wall rq now i db) = idb_edges db @ graph_edges (linked_db wall (in_incident_id i) rq db) i"
  "idb_audit (created_db took wall rq now i db) = idb_audit db @ [creation_row (in_incident_id i) rq now (creation_text i),
     creation_row (in_incident_id i) rq now (duration_text took)]"
  "idb_evidence (created_db took wall rq now i db) =
     idb_evidence db @ map (\<lambda>e. e\<lparr>iv_added_at := wall\<rparr>) (request_evidence (in_incident_id i) rq now)"
  by (simp_all add: created_db_def linked_db_def Let_def)

lemma inserted_db_simps [simp]:
  "idb_incidents (inserted_db i db) = idb_incidents db @ [i\<lparr>in_id := Suc (idb_seq db)\<rparr>]" "idb_seq (inserted_db i db) = Suc (idb_seq db)"
  "idb_notes (inserted_db i db) = idb_notes db" "idb_feedback (inserted_db i db) = idb_feedback db"
  "idb_suppressions (inserted_db i db) = idb_suppressions db" "idb_alerts (inserted_db i db) = idb_alerts db"
  "idb_groups (inserted_db i db) = idb_groups db" "idb_correlations (inserted_db i db) = idb_correlations db"
  "idb_risks (inserted_db i db) = idb_risks db" "idb_edges (inserted_db i db) = idb_edges db"
  "idb_audit (inserted_db i db) = idb_audit db" "idb_evidence (inserted_db i db) = idb_evidence db"
  by (simp_all add: inserted_db_def)

lemma linked_db_links [simp]:
  "idb_groups (linked_db wall iid rq db) = idb_groups db @ links iid wall ''behavior group evidence'' (uniq_first (group_refs (rq_groups rq)))"
  "idb_correlations (linked_db wall iid rq db) = idb_correlations db @ links iid wall ''correlation finding'' (uniq_first (finding_refs (rq_findings rq)))"
  "idb_risks (linked_db wall iid rq db) = idb_risks db @ links iid wall ''entity risk context'' (risk_ids rq)"
  "idb_alerts (linked_db wall iid rq db) = idb_alerts db @ links iid wall ''alert evidence'' (rq_alerts rq)"
  by (simp_all add: linked_db_def)

lemma links_incident [simp]: "lk_incident ` set (links iid wall reason ts) \<subseteq> {iid}"
  by (auto simp: links_def)

lemma created_refs:
  "set (idb_refs (created_db took wall rq now i (inserted_db i db))) \<subseteq> insert (in_incident_id i) (set (idb_refs db))"
proof -
  have l: "lk_incident ` set (links (in_incident_id i) wall r ts) \<subseteq> insert (in_incident_id i) S" for r ts S
    using links_incident [of "in_incident_id i" wall r ts] by blast
  have g: "ge_incident ` set (graph_edges d i) \<subseteq> insert (in_incident_id i) S" for d S
    using graph_edges_incident by blast
  have e: "iv_incident ` (\<lambda>e. e\<lparr>iv_added_at := wall\<rparr>) ` set (request_evidence (in_incident_id i) rq now) \<subseteq> insert (in_incident_id i) S" for S
    using request_evidence_known by fastforce
  show ?thesis
    unfolding idb_refs_def created_db_simps inserted_db_simps linked_db_links set_append set_map image_Un Un_subset_iff
    by (intro conjI l g e) (auto simp: creation_row_def)
qed

lemma created_ok:
  assumes ok: "incident_db_ok db" and fresh: "incident_for db fp = None" and title: "clean_title title"
    and d: "distinct (risk_ids rq)" "distinct (rq_alerts rq)"
    and i: "i = new_incident fp (next_incident_id db) title rq now"
  shows "incident_db_ok (created_db took wall rq now i (inserted_db i db))"
proof -
  let ?d = "created_db took wall rq now i (inserted_db i db)" and ?i = "i\<lparr>in_id := Suc (idb_seq db)\<rparr>"
  let ?iid = "next_incident_id db"
  have iid: "in_incident_id i = ?iid" "in_fingerprint i = fp" "in_status i = ''NEW''" by (simp_all add: i)
  note n = next_incident_id_fresh [OF ok]
  have r: "?iid \<notin> lk_incident ` set (idb_alerts db)" "?iid \<notin> lk_incident ` set (idb_groups db)"
    "?iid \<notin> lk_incident ` set (idb_correlations db)" "?iid \<notin> lk_incident ` set (idb_risks db)"
    "?iid \<notin> ge_incident ` set (idb_edges db)" "?iid \<notin> ia_incident ` set (idb_audit db)"
    using n(2) by (simp_all add: idb_refs_def)
  have ids: "incident_ids ?d = insert ?iid (incident_ids db)" by (simp add: incident_ids_def iid)
  have refs: "set (idb_refs ?d) \<subseteq> incident_ids ?d"
    using created_refs [of took wall rq now i db] incident_db_okD(6) [OF ok] unfolding ids iid(1) by blast
  have l: "links_distinct ?d"
    using incident_db_okD(7) [OF ok] r(1-4) d unfolding links_distinct_def
    by (simp add: iid fresh_links del: map_append)
  have old: "edges_of ?d (in_incident_id j) = graph_edges ?d j \<and> creations ?d (in_incident_id j) = 2"
    if j: "j \<in> set (idb_incidents db)" for j
  proof -
    have ne: "in_incident_id j \<noteq> ?iid" using j n(1) unfolding incident_ids_def by (metis imageI)
    have "edges_of ?d (in_incident_id j) = edges_of db (in_incident_id j)"
      using ne graph_edges_incident iid(1) by (fastforce simp: edges_of_def filter_empty_conv)
    moreover have "graph_edges ?d j = graph_edges (linked_db wall ?iid rq db) j"
      by (rule graph_edges_cong) (simp_all add: iid)
    moreover have "creations ?d (in_incident_id j) = creations db (in_incident_id j)"
      using ne iid(1) by (simp add: creations_def creation_row_def)
    ultimately show ?thesis
      using graph_edges_linked_other [OF ne] incident_db_okD(8,9) [OF ok j] by simp
  qed
  have new: "edges_of ?d ?iid = graph_edges ?d ?i \<and> creations ?d ?iid = 2"
  proof
    have "edges_of ?d ?iid = graph_edges (linked_db wall (in_incident_id i) rq (inserted_db i db)) i"
    proof -
      have "filter (\<lambda>e. ge_incident e = ?iid) (idb_edges db) = []" using r(5) unfolding filter_empty_conv by (metis imageI)
      moreover have "filter (\<lambda>e. ge_incident e = ?iid) (graph_edges x i) = graph_edges x i" for x
        using graph_edges_incident iid(1) by (intro filter_True) metis
      ultimately show ?thesis by (simp add: edges_of_def)
    qed
    moreover have "graph_edges ?d ?i = graph_edges (linked_db wall (in_incident_id i) rq (inserted_db i db)) i"
      by (rule graph_edges_cong) simp_all
    ultimately show "edges_of ?d ?iid = graph_edges ?d ?i" by simp
    have "filter (\<lambda>a. ia_incident a = ?iid \<and> ia_action a = ''INCIDENT_CREATED'') (idb_audit db) = []"
      using r(6) unfolding filter_empty_conv by (metis imageI)
    then show "creations ?d ?iid = 2" by (simp add: creations_def creation_row_def iid)
  qed
  have "core_ok ?i" unfolding i by (rule core_ok_new [OF ok title])
  moreover have "ini.ids_ok (idb_incidents ?d) (idb_seq ?d)"
    using ini.ids_ok_append [OF incident_db_okD(1) [OF ok], of "Suc (idb_seq db)" i] by simp
  moreover have "distinct (map in_fingerprint (idb_incidents ?d))" "distinct (map in_incident_id (idb_incidents ?d))"
    using incident_db_okD(2,3) [OF ok] fresh n(1) unfolding incident_for_None incident_ids_def by (simp_all add: iid)
  moreover have "''NEW'' \<in> set INCIDENT_STATES" by (simp add: INCIDENT_STATES_def)
  moreover have "\<forall>a\<in>set (idb_audit ?d). ia_action a \<noteq> ''INCIDENT_CREATION_FAILED''"
    using incident_db_okD(10) [OF ok] by (simp add: creation_row_def)
  ultimately show ?thesis
    using refs l old new incident_db_okD(4,5) [OF ok] unfolding incident_db_ok_def by (simp add: iid)
qed

end
