(* ===== verification/Incident_Props.thy ===== *)
theory Incident_Props
  imports Incident_Create
begin

text \<open>
  What the incident engine promises: the outcome of every request, one incident per
  fingerprint for ever, the register of fingerprints and statuses that the tables
  implement, and where the implementation leaves that path (a race, a closed incident that
  comes back, requests that are lost).
\<close>

section \<open>The outcome of a request\<close>

lemma audit_ok_known:
  "action \<in> set AUDIT_ACTIONS \<Longrightarrow> iid \<in> incident_ids db \<Longrightarrow> \<exists>db'. incident_audit_record db iid action actor old new reason now = Inr db'"
  by (simp add: audit_known)

lemma incident_ids_set_incident:
  "(\<And>i. in_incident_id (f i) = in_incident_id i) \<Longrightarrow> incident_ids (set_incident e f db) = incident_ids db"
proof -
  assume f: "\<And>i. in_incident_id (f i) = in_incident_id i"
  have "map in_incident_id (idb_incidents (set_incident e f db)) = map in_incident_id (idb_incidents db)"
    unfolding set_incident_def using map_update_row [where g = in_incident_id, OF f] by simp
  then show ?thesis unfolding incident_ids_def by (metis list.set_map)
qed

text \<open>The status a repeated request reports.\<close>

definition repeated_status :: "bool \<Rightarrow> string \<Rightarrow> string" where
  "repeated_status covered s = (if s = ''SUPPRESSED'' \<and> \<not> covered then ''NEW'' else s)"

lemma report_existing_returns:
  assumes "e \<in> set (idb_incidents db)"
  shows "\<exists>db'. report_existing wall rq now db fp e =
     Inr (db', Reported (in_incident_id e) (repeated_status (fingerprint_suppressed db fp now) (in_status e)) fp)"
proof -
  have iid: "in_incident_id e \<in> incident_ids db" using assms by (simp add: incident_ids_def)
  have act: "''INCIDENT_SUPPRESSION_EXPIRED'' \<in> set AUDIT_ACTIONS" "''INCIDENT_REOPEN_REJECTED'' \<in> set AUDIT_ACTIONS"
    by (simp_all add: AUDIT_ACTIONS_def)
  obtain d where d: "resume_incident wall (rq_actor rq) now db e = Inr d"
  proof -
    let ?f = "\<lambda>i. i\<lparr>in_status := ''NEW'', in_suppression_reason := None, in_suppression_scope := None,
          in_suppression_expires_at := None, in_suppression_created_by := None,
          in_last_seen := max (in_last_seen i) now, in_updated_at := wall\<rparr>"
    have "in_incident_id e \<in> incident_ids (set_incident e ?f db)" using iid incident_ids_set_incident [of ?f e db] by simp
    then show ?thesis using that audit_ok_known [OF act(1)] unfolding resume_incident_def by blast
  qed
  obtain d' where d': "suppress_reopen wall (rq_actor rq) db (in_incident_id e) = Inr d'"
    unfolding suppress_reopen_def using audit_ok_known [OF act(2) iid] by metis
  show ?thesis unfolding report_existing_def d d' repeated_status_def by auto
qed

lemma validate_clean: "validate_title title = Inr u \<Longrightarrow> clean_title (dedupe_title title)"
  using dedupe_title_clean [of title u] unfolding clean_title_def dedupe_title_def by auto

definition request_title :: "incident_request \<Rightarrow> string" where
  "request_title rq = (case rq_title rq of None \<Rightarrow> incident_title (rq_policy rq) | Some t \<Rightarrow> t)"

definition request_eligible :: "incident_request \<Rightarrow> bool" where
  "request_eligible rq \<longleftrightarrow> pr_eligible (evaluate_policy (rq_policy rq) (rq_groups rq) (rq_findings rq) (first_risk rq))"

definition request_row :: "(string \<Rightarrow> string) \<Rightarrow> time \<Rightarrow> incident_db \<Rightarrow> incident_request \<Rightarrow> incident" where
  "request_row H wall db rq = new_incident (request_fingerprint H rq) (next_incident_id db)
     (dedupe_title (request_title rq)) rq (now_or wall (rq_now rq))"

lemma create_incident_unfold:
  "create_incident H took wall others db rq =
     (case incident_for db (request_fingerprint H rq) of
        Some e \<Rightarrow> report_existing wall rq (now_or wall (rq_now rq)) db (request_fingerprint H rq) e
      | None \<Rightarrow>
          if \<not> request_eligible rq
          then Inr (db, Refused (pr_reason (evaluate_policy (rq_policy rq) (rq_groups rq) (rq_findings rq) (first_risk rq))) (rq_policy rq))
          else case validate_title (request_title rq) of
            Inl e \<Rightarrow> Inl e
          | Inr _ \<Rightarrow> insert_and_record took wall others db rq (now_or wall (rq_now rq)) (request_fingerprint H rq) (request_title rq))"
  unfolding create_incident_def Let_def request_eligible_def request_title_def by (rule refl)

lemma insert_and_record_iff:
  assumes ok: "incident_db_ok db" and fresh: "incident_for db (request_fingerprint H rq) = None"
  shows "insert_and_record took wall [] db rq (now_or wall (rq_now rq)) (request_fingerprint H rq) (request_title rq) = Inr (db', r) \<longleftrightarrow>
     distinct (risk_ids rq) \<and> distinct (rq_alerts rq)
     \<and> db' = created_db took wall rq (now_or wall (rq_now rq)) (request_row H wall db rq) (inserted_db (request_row H wall db rq) db)
     \<and> r = Created (next_incident_id db) ''NEW'' (request_fingerprint H rq) (in_severity (request_row H wall db rq))
             (in_priority (request_row H wall db rq)) (in_confidence (request_row H wall db rq)) (rq_policy rq)"
proof -
  define i where "i = request_row H wall db rq"
  have iid: "in_incident_id i = next_incident_id db" "in_fingerprint i = request_fingerprint H rq" "in_status i = ''NEW''"
    by (simp_all add: i_def request_row_def)
  have ins: "insert_incident [] db i = Inr (inserted_db i db)"
    by (rule insert_incident_fresh [OF ok iid(1,2) fresh])
  have l: "links_distinct (inserted_db i db)" using incident_db_okD(7) [OF ok] by (simp add: links_distinct_def)
  have n: "in_incident_id i \<notin> set (idb_refs (inserted_db i db))"
    using next_incident_id_fresh(2) [OF ok] iid(1) by (simp add: idb_refs_def)
  have k: "in_incident_id i \<in> incident_ids (inserted_db i db)" by (simp add: incident_ids_def)
  show ?thesis
    unfolding insert_and_record_def Let_def request_row_def [symmetric] i_def [symmetric] ins sum.case map_sum_Inr iid
    using record_creation_iff [OF l n k, of took wall rq "now_or wall (rq_now rq)"] by auto
qed

lemma insert_and_record_duplicates:
  assumes ok: "incident_db_ok db" and fresh: "incident_for db (request_fingerprint H rq) = None"
    and d: "\<not> (distinct (risk_ids rq) \<and> distinct (rq_alerts rq))"
  shows "\<exists>m. insert_and_record took wall [] db rq (now_or wall (rq_now rq)) (request_fingerprint H rq) (request_title rq)
     = Inl (IntegrityError m)"
proof -
  define i where "i = request_row H wall db rq"
  have iid: "in_incident_id i = next_incident_id db" "in_fingerprint i = request_fingerprint H rq"
    by (simp_all add: i_def request_row_def)
  have ins: "insert_incident [] db i = Inr (inserted_db i db)"
    by (rule insert_incident_fresh [OF ok iid fresh])
  have l: "links_distinct (inserted_db i db)" using incident_db_okD(7) [OF ok] by (simp add: links_distinct_def)
  have n: "in_incident_id i \<notin> set (idb_refs (inserted_db i db))"
    using next_incident_id_fresh(2) [OF ok] iid(1) by (simp add: idb_refs_def)
  obtain e where e: "link_sources wall (in_incident_id i) (rq_groups rq) (rq_findings rq) (rq_risks rq) (rq_alerts rq) (inserted_db i db) = Inl e"
    using link_sources_fresh [OF l n, of wall rq] d by (metis sum.exhaust)
  then have "\<exists>m. record_creation took wall rq (now_or wall (rq_now rq)) i (inserted_db i db) = Inl (IntegrityError m)"
    using link_sources_error [OF e] by (auto simp: record_creation_def)
  then show ?thesis
    unfolding insert_and_record_def Let_def request_row_def [symmetric] i_def [symmetric] ins by auto
qed

lemma create_keeps_ok:
  assumes "incident_db_ok db" "create_incident H took wall [] db rq = Inr (db', r)"
  shows "incident_db_ok db'"
proof (cases "incident_for db (request_fingerprint H rq)")
  case None
  consider "db' = db"
    | u where "validate_title (request_title rq) = Inr u"
      "insert_and_record took wall [] db rq (now_or wall (rq_now rq)) (request_fingerprint H rq) (request_title rq) = Inr (db', r)"
    using assms(2) unfolding create_incident_unfold None option.case by (auto split: if_splits sum.splits)
  then show ?thesis
  proof cases
    case 2
    have d: "distinct (risk_ids rq)" "distinct (rq_alerts rq)"
      and e: "db' = created_db took wall rq (now_or wall (rq_now rq)) (request_row H wall db rq) (inserted_db (request_row H wall db rq) db)"
      using 2(2) unfolding insert_and_record_iff [OF assms(1) None] by blast+
    show ?thesis unfolding e by (rule created_ok [OF assms(1) None validate_clean [OF 2(1)] d request_row_def])
  qed (use assms(1) in simp)
next
  case (Some e)
  then show ?thesis
  proof -
    have "report_existing wall rq (now_or wall (rq_now rq)) db (request_fingerprint H rq) e = Inr (db', r)"
      using assms(2) by (simp add: create_incident_unfold Some)
    from quiet_report [OF this] show ?thesis using assms(1) quiet_ok by blast
  qed
qed

text \<open>C10: on consistent tables a request has exactly one of five outcomes: it reports the one
  incident that owns the fingerprint, with the status it has or, when a suppression has lapsed,
  NEW; it is refused by its policy; its title is rejected; it is stored as a NEW incident under
  the next id; or duplicate alerts or risks in the request violate a unique constraint.\<close>

theorem create_incident_outcome:
  assumes ok: "incident_db_ok db"
  shows "case incident_for db (request_fingerprint H rq) of
      Some e \<Rightarrow> (\<exists>db'. create_incident H took wall [] db rq = Inr (db', Reported (in_incident_id e)
          (repeated_status (fingerprint_suppressed db (request_fingerprint H rq) (now_or wall (rq_now rq))) (in_status e))
          (request_fingerprint H rq)))
    | None \<Rightarrow>
       if \<not> request_eligible rq then \<exists>why. create_incident H took wall [] db rq = Inr (db, Refused why (rq_policy rq))
       else if \<exists>p\<in>set BANNED_INCIDENT_PHRASES. contains p (py_lower (request_title rq))
       then \<exists>m. create_incident H took wall [] db rq = Inl (ValueError m)
       else if distinct (risk_ids rq) \<and> distinct (rq_alerts rq)
       then \<exists>db' row. create_incident H took wall [] db rq = Inr (db', Created (next_incident_id db) ''NEW'' (request_fingerprint H rq)
               (in_severity row) (in_priority row) (in_confidence row) (rq_policy rq))
             \<and> idb_incidents db' = idb_incidents db @ [row] \<and> in_incident_id row = next_incident_id db
             \<and> in_fingerprint row = request_fingerprint H rq \<and> in_status row = ''NEW''
       else \<exists>m. create_incident H took wall [] db rq = Inl (IntegrityError m)"
proof (cases "incident_for db (request_fingerprint H rq)")
  case (Some e)
  then show ?thesis
    using report_existing_returns [of e db wall rq "now_or wall (rq_now rq)" "request_fingerprint H rq"] incident_for_Some [OF Some]
    by (simp add: create_incident_unfold)
next
  case None
  let ?ir = "insert_and_record took wall [] db rq (now_or wall (rq_now rq)) (request_fingerprint H rq) (request_title rq)"
  note iff = insert_and_record_iff [OF ok None, of took wall]
  consider (refused) "\<not> request_eligible rq"
    | (title) p where "request_eligible rq" "List.find (\<lambda>p. contains p (py_lower (request_title rq))) BANNED_INCIDENT_PHRASES = Some p"
    | (run) "request_eligible rq" "List.find (\<lambda>p. contains p (py_lower (request_title rq))) BANNED_INCIDENT_PHRASES = None"
    by (metis option.exhaust)
  then show ?thesis
  proof cases
    case refused
    then show ?thesis by (simp add: create_incident_unfold None)
  next
    case title
    then have "\<exists>p\<in>set BANNED_INCIDENT_PHRASES. contains p (py_lower (request_title rq))" by (auto dest: find_SomeD)
    then show ?thesis using title by (simp add: create_incident_unfold None validate_title_def)
  next
    case run
    then have b: "\<not> (\<exists>p\<in>set BANNED_INCIDENT_PHRASES. contains p (py_lower (request_title rq)))" by (simp add: find_None_iff')
    have c: "create_incident H took wall [] db rq = ?ir"
      using run by (simp add: create_incident_unfold None validate_title_def)
    show ?thesis
    proof (cases "distinct (risk_ids rq) \<and> distinct (rq_alerts rq)")
      case True
      define row where "row = (request_row H wall db rq)\<lparr>in_id := Suc (idb_seq db)\<rparr>"
      have row: "in_severity row = in_severity (request_row H wall db rq)" "in_priority row = in_priority (request_row H wall db rq)"
        "in_confidence row = in_confidence (request_row H wall db rq)" "in_incident_id row = next_incident_id db"
        "in_fingerprint row = request_fingerprint H rq" "in_status row = ''NEW''"
        by (simp_all add: row_def request_row_def)
      have "idb_incidents (created_db took wall rq n (request_row H wall db rq) (inserted_db (request_row H wall db rq) db)) = idb_incidents db @ [row]" for n
        by (simp add: row_def)
      then show ?thesis using True b run(1) None c iff row by simp
    next
      case False
      then show ?thesis using insert_and_record_duplicates [OF ok None False, of took wall] b run(1) None c by auto
    qed
  qed
qed

section \<open>One incident per fingerprint\<close>

text \<open>The successful operations, one session at a time.\<close>

inductive incident_step :: "(string \<Rightarrow> string) \<Rightarrow> incident_db \<Rightarrow> incident_db \<Rightarrow> bool" for H where
  create: "create_incident H took wall [] db rq = Inr (db', r) \<Longrightarrow> incident_step H db db'"
| move: "transition_incident wall db iid target actor reason = Inr db' \<Longrightarrow> incident_step H db db'"
| suppress: "suppress_incident wall db iid reason scope expires who = Inr db' \<Longrightarrow> incident_step H db db'"
| noted: "add_note second wall db iid author content note_id = Inr db' \<Longrightarrow> incident_step H db db'"
| assign: "assign_incident wall db iid who team actor = Inr db' \<Longrightarrow> incident_step H db db'"
| feedback: "post_feedback wall db iid analyst kind reason = Inr db' \<Longrightarrow> incident_step H db db'"

lemma quiet_post_feedback:
  assumes "post_feedback wall db iid analyst kind reason = Inr db'" shows "quiet db db'"
proof -
  define row where "row = \<lparr>fb_incident = iid, fb_analyst = analyst, fb_type = py_upper kind, fb_reason = reason, fb_created_at = wall\<rparr>"
  obtain i where i: "incident_of db iid = Some i"
    and a: "incident_audit_record (db\<lparr>idb_feedback := idb_feedback db @ [row]\<rparr>) iid ''INCIDENT_FEEDBACK_ADDED'' analyst None
        (Some (py_upper kind)) None wall = Inr db'"
    using assms unfolding post_feedback_def row_def [symmetric] by (auto split: option.splits)
  have "quiet db (db\<lparr>idb_feedback := idb_feedback db @ [row]\<rparr>)"
    by (rule quiet_feedback) (simp add: row_def in_ids [OF i])
  then show ?thesis using quiet_audit [OF a] by (simp add: quiet_trans)
qed

lemma step_keeps_ok: "incident_step H db db' \<Longrightarrow> incident_db_ok db \<Longrightarrow> incident_db_ok db'"
  by (induction rule: incident_step.induct)
    (blast intro: create_keeps_ok quiet_ok quiet_transition quiet_suppress quiet_add_note quiet_assign quiet_post_feedback)+

lemma reach_ok: "(incident_step H)\<^sup>*\<^sup>* db db' \<Longrightarrow> incident_db_ok db \<Longrightarrow> incident_db_ok db'"
  by (induction rule: rtranclp_induct) (auto dest: step_keeps_ok)

text \<open>C3: whatever requests, transitions, suppressions, notes, assignments and feedback succeed,
  in any order, the tables stay consistent: no two incidents share a fingerprint or an id, every
  status, severity, priority, confidence and title is within the contract, every dependent row
  belongs to an incident, and the graph of an incident has exactly the edges of its links and
  entities.\<close>

theorem incident_store_invariant:
  assumes "(incident_step H)\<^sup>*\<^sup>* empty_incident_db db"
  shows "incident_db_ok db"
  by (rule reach_ok [OF assms incident_db_ok_empty])

section \<open>The register of fingerprints\<close>

text \<open>What the tables mean to the outside: for each fingerprint the id and the status of its incident.\<close>

definition register :: "incident_db \<Rightarrow> string \<Rightarrow> (string \<times> string) option" where
  "register db fp = map_option (\<lambda>i. (in_incident_id i, in_status i)) (incident_for db fp)"

text \<open>The abstract machine: a fingerprint gets an id once and keeps it; its status starts at NEW,
  follows the table of transitions, may be set to SUPPRESSED at any time and back to NEW from there.\<close>

inductive register_step :: "(string \<Rightarrow> (string \<times> string) option) \<Rightarrow> (string \<Rightarrow> (string \<times> string) option) \<Rightarrow> bool" where
  open_new: "r fp = None \<Longrightarrow> iid \<notin> fst ` ran r \<Longrightarrow> register_step r (r(fp \<mapsto> (iid, ''NEW'')))"
| resume: "r fp = Some (iid, ''SUPPRESSED'') \<Longrightarrow> register_step r (r(fp \<mapsto> (iid, ''NEW'')))"
| move: "r fp = Some (iid, s) \<Longrightarrow> can_incident_transition s t \<Longrightarrow> register_step r (r(fp \<mapsto> (iid, t)))"
| suppress: "r fp = Some (iid, s) \<Longrightarrow> register_step r (r(fp \<mapsto> (iid, ''SUPPRESSED'')))"
| idle: "register_step r r"

lemma register_eqI:
  assumes "map (\<lambda>i. (in_fingerprint i, in_incident_id i, in_status i)) (idb_incidents db)
      = map (\<lambda>i. (in_fingerprint i, in_incident_id i, in_status i)) (idb_incidents db')"
  shows "register db = register db'"
proof
  fix fp
  have "map_option (\<lambda>i. (in_incident_id i, in_status i)) (List.find (\<lambda>i. in_fingerprint i = fp) xs)
      = map_option (\<lambda>i. (in_incident_id i, in_status i)) (List.find (\<lambda>i. in_fingerprint i = fp) ys)"
    if "map (\<lambda>i. (in_fingerprint i, in_incident_id i, in_status i)) xs = map (\<lambda>i. (in_fingerprint i, in_incident_id i, in_status i)) ys"
    for xs ys :: "incident list"
    using that
  proof (induction xs arbitrary: ys)
    case (Cons x xs)
    then show ?case by (cases ys) auto
  qed simp
  from this [OF assms] show "register db fp = register db' fp" by (simp add: register_def incident_for_def)
qed

text \<open>Changing the status of one row changes one entry of the register.\<close>

lemma register_set_incident:
  assumes ok: "incident_db_ok db" and i: "i \<in> set (idb_incidents db)"
    and f: "\<And>j. core (f j) = core j" "\<And>j. in_status (f j) = t"
    and same: "idb_incidents d = idb_incidents (set_incident i f db)"
  shows "register d = (register db)(in_fingerprint i \<mapsto> (in_incident_id i, t))"
proof
  fix fp
  have id1: "in_id j = in_id i \<Longrightarrow> j = i" if "j \<in> set (idb_incidents db)" for j
    using ini.same_row [OF incident_db_okD(1) [OF ok]] that i by blast
  have key: "in_fingerprint (f j) = in_fingerprint j" "in_incident_id (f j) = in_incident_id j" for j
    using core_fields [OF f(1)] by blast+
  have find: "List.find (\<lambda>j. in_fingerprint j = fp) (map (\<lambda>j. if in_id j = in_id i then f j else j) xs)
      = map_option (\<lambda>j. if in_id j = in_id i then f j else j) (List.find (\<lambda>j. in_fingerprint j = fp) xs)" for xs
    by (induction xs) (simp_all add: key)
  have r: "register d fp = map_option (\<lambda>j. (in_incident_id j, if in_id j = in_id i then t else in_status j)) (incident_for db fp)"
    unfolding register_def incident_for_def same set_incident_def update_row_def
    by (simp add: find option.map_comp comp_def key f(2) if_distrib [of in_incident_id] if_distrib [of in_status] cong: if_cong)
  show "register d fp = ((register db)(in_fingerprint i \<mapsto> (in_incident_id i, t))) fp"
  proof (cases "fp = in_fingerprint i")
    case True
    then show ?thesis using r incident_for_mem [OF ok i] by simp
  next
    case False
    then show ?thesis
      unfolding r using id1 incident_for_Some [of db fp]
      by (cases "incident_for db fp") (auto simp: register_def)
  qed
qed

lemma core_status_eq:
  assumes "map core (idb_incidents db') = map core (idb_incidents db)"
    and "map in_status (idb_incidents db') = map in_status (idb_incidents db)"
  shows "register db' = register db"
proof (rule register_eqI)
  have "map (\<lambda>i. (in_fingerprint i, in_incident_id i, in_status i)) xs = map (\<lambda>i. (in_fingerprint i, in_incident_id i, in_status i)) ys"
    if "map core xs = map core ys" "map in_status xs = map in_status ys" for xs ys :: "incident list"
    using that
  proof (induction xs arbitrary: ys)
    case (Cons x xs)
    then obtain y ys' where y: "ys = y # ys'" "core x = core y" "in_status x = in_status y"
      "map core xs = map core ys'" "map in_status xs = map in_status ys'" by (cases ys) auto
    then show ?case using Cons.IH [of ys'] core_fields [OF y(2)] by simp
  qed simp
  from this [OF assms] show "map (\<lambda>i. (in_fingerprint i, in_incident_id i, in_status i)) (idb_incidents db')
      = map (\<lambda>i. (in_fingerprint i, in_incident_id i, in_status i)) (idb_incidents db)" .
qed

lemma audit_incidents: "incident_audit_record db iid a actor x y z now = Inr db' \<Longrightarrow> idb_incidents db' = idb_incidents db"
  by (auto simp: incident_audit_record_def split: if_splits option.splits)

lemma audit_if_incidents: "audit_if c iid a actor x y now db = Inr db' \<Longrightarrow> idb_incidents db' = idb_incidents db"
  by (auto simp: audit_if_def dest: audit_incidents split: if_splits)

lemma status_set_incident:
  "(\<And>i. in_status (f i) = in_status i) \<Longrightarrow> (\<And>i. core (f i) = core i) \<Longrightarrow>
   idb_incidents d = idb_incidents (set_incident e f db) \<Longrightarrow> register d = register db"
  by (rule core_status_eq) (simp_all add: set_incident_def map_update_row)

lemma register_transition:
  assumes ok: "incident_db_ok db" and t: "transition_incident wall db iid target actor reason = Inr db'"
  shows "\<exists>fp s. register db fp = Some (iid, s) \<and> can_incident_transition s target
     \<and> register db' = (register db)(fp \<mapsto> (iid, target))"
proof -
  obtain i where i: "incident_of db iid = Some i" "can_incident_transition (in_status i) target"
    and r: "incident_audit_record (set_incident i (moved_incident wall actor target) db) iid ''INCIDENT_UPDATED'' actor
        (Some (in_status i)) (Some target) reason wall = Inr db'"
    using t by (auto simp: transition_incident_def transition_status_def split: option.splits if_splits)
  have m: "i \<in> set (idb_incidents db)" "in_incident_id i = iid" using incident_of_Some [OF i(1)] by blast+
  have "register db' = (register db)(in_fingerprint i \<mapsto> (in_incident_id i, target))"
    by (rule register_set_incident [OF ok m(1) _ _ audit_incidents [OF r]]) (simp_all add: core_update Let_def)
  then show ?thesis using i(2) m incident_for_mem [OF ok m(1)] by (auto simp: register_def)
qed

lemma register_suppress:
  assumes ok: "incident_db_ok db" and t: "suppress_incident wall db iid reason scope expires who = Inr db'"
  shows "\<exists>fp s. register db fp = Some (iid, s) \<and> register db' = (register db)(fp \<mapsto> (iid, ''SUPPRESSED''))"
proof -
  obtain i x db1 where i: "incident_of db iid = Some i"
    and a: "incident_audit_record (db\<lparr>idb_suppressions := x\<rparr>) iid ''INCIDENT_SUPPRESSED'' who None (Some reason) None wall = Inr db1"
    and d: "db' = set_incident i (suppressed_incident wall reason scope (stamp_time expires) who) db1"
    using t unfolding suppress_incident_def
    by (auto simp: map_sum_Inr split: option.splits if_splits sum.splits)
  have m: "i \<in> set (idb_incidents db)" "in_incident_id i = iid" using incident_of_Some [OF i] by blast+
  have "idb_incidents db1 = idb_incidents db" using audit_incidents [OF a] by simp
  then have "register db' = (register db)(in_fingerprint i \<mapsto> (in_incident_id i, ''SUPPRESSED''))"
    unfolding d by (intro register_set_incident [OF ok m(1)]) (simp_all add: core_update set_incident_def)
  then show ?thesis using m incident_for_mem [OF ok m(1)] by (auto simp: register_def)
qed

lemma register_assign:
  assumes "assign_incident wall db iid who team actor = Inr db'" shows "register db' = register db"
proof -
  let ?f = "\<lambda>j. j\<lparr>in_assigned_to := who, in_assigned_team := team, in_assigned_at := Some wall,
                in_updated_at := wall, in_updated_by := actor\<rparr>"
  obtain i where "idb_incidents db' = idb_incidents (set_incident i ?f db)"
    using assms unfolding assign_incident_def
    by (auto split: option.splits sum.splits simp del: not_None_eq dest!: audit_if_incidents)
  then show ?thesis by (intro status_set_incident [of ?f]) (simp_all add: core_update)
qed

lemma register_note: "add_note second wall db iid author content note_id = Inr db' \<Longrightarrow> register db' = register db"
  unfolding add_note_def Let_def
  by (auto simp: map_sum_Inr split: option.splits if_splits dest!: audit_incidents)
    (rule status_set_incident, auto simp: core_update set_incident_def)+

lemma register_feedback: "post_feedback wall db iid analyst kind reason = Inr db' \<Longrightarrow> register db' = register db"
  unfolding post_feedback_def
  by (auto split: option.splits dest!: audit_incidents simp: register_def incident_for_def)

lemma register_resume:
  assumes ok: "incident_db_ok db" and e: "e \<in> set (idb_incidents db)" and r: "resume_incident wall actor now db e = Inr db'"
  shows "register db' = (register db)(in_fingerprint e \<mapsto> (in_incident_id e, ''NEW''))"
  by (rule register_set_incident [OF ok e _ _ audit_incidents [OF r [unfolded resume_incident_def]]])
    (simp_all add: core_update)

lemma register_report:
  assumes ok: "incident_db_ok db" and e: "e \<in> set (idb_incidents db)"
    and r: "report_existing wall rq now db fp e = Inr (db', x)"
  shows "register db' = register db
     \<or> (in_status e = ''SUPPRESSED'' \<and> register db' = (register db)(in_fingerprint e \<mapsto> (in_incident_id e, ''NEW'')))"
proof -
  have "register d = register db" if "suppress_reopen wall (rq_actor rq) db (in_incident_id e) = Inr d" for d
    using that unfolding suppress_reopen_def
    by (auto split: if_splits dest!: audit_incidents simp: register_def incident_for_def)
  then show ?thesis using r register_resume [OF ok e] unfolding report_existing_def
    by (auto simp: map_sum_Inr split: if_splits)
qed

lemma register_created:
  assumes ok: "incident_db_ok db" and "incident_for db fp = None"
    and d: "idb_incidents db' = idb_incidents db @ [row]" and "in_fingerprint row = fp"
  shows "register db' = (register db)(fp \<mapsto> (in_incident_id row, in_status row))"
proof -
  have find: "List.find P (xs @ [x]) = (case List.find P xs of None \<Rightarrow> if P x then Some x else None | Some y \<Rightarrow> Some y)" for P xs and x :: incident
    by (induction xs) auto
  show ?thesis
    using assms(2,4) unfolding register_def incident_for_def d find by (auto split: option.splits)
qed

lemma register_ids: "fst ` ran (register db) \<subseteq> incident_ids db"
  by (auto simp: register_def ran_def incident_ids_def dest: incident_for_Some)

lemma register_create:
  assumes ok: "incident_db_ok db" and c: "create_incident H took wall [] db rq = Inr (db', r)"
  shows "register_step (register db) (register db')"
proof (cases "incident_for db (request_fingerprint H rq)")
  case (Some e)
  note m = incident_for_Some [OF Some]
  have "report_existing wall rq (now_or wall (rq_now rq)) db (request_fingerprint H rq) e = Inr (db', r)"
    using c by (simp add: create_incident_unfold Some)
  from register_report [OF ok conjunct1 [OF m] this] show ?thesis
  proof
    assume "in_status e = ''SUPPRESSED'' \<and> register db' = (register db)(in_fingerprint e \<mapsto> (in_incident_id e, ''NEW''))"
    moreover have "register db (in_fingerprint e) = Some (in_incident_id e, in_status e)"
      using incident_for_mem [OF ok conjunct1 [OF m]] by (simp add: register_def)
    ultimately show ?thesis by (simp add: register_step.resume)
  qed (simp add: register_step.idle)
next
  case None
  let ?row = "(request_row H wall db rq)\<lparr>in_id := Suc (idb_seq db)\<rparr>"
  consider "db' = db" | "idb_incidents db' = idb_incidents db @ [?row]"
    using c insert_and_record_iff [OF ok None] unfolding create_incident_unfold None option.case
    by (auto split: if_splits sum.splits)
  then show ?thesis
  proof cases
    case 2
    have row: "in_fingerprint ?row = request_fingerprint H rq" "in_incident_id ?row = next_incident_id db" "in_status ?row = ''NEW''"
      by (simp_all add: request_row_def)
    have r: "register db' = (register db)(request_fingerprint H rq \<mapsto> (next_incident_id db, ''NEW''))"
      using register_created [OF ok None 2 row(1)] unfolding row .
    have "register db (request_fingerprint H rq) = None" using None by (simp add: register_def)
    moreover have "next_incident_id db \<notin> fst ` ran (register db)"
      using register_ids next_incident_id_fresh(1) [OF ok] by blast
    ultimately show ?thesis unfolding r by (rule register_step.open_new)
  qed (simp add: register_step.idle)
qed

lemma step_refines:
  assumes "incident_step H db db'" "incident_db_ok db"
  shows "register_step (register db) (register db')"
  using assms
proof (induction rule: incident_step.induct)
  case (move wall db iid target actor reason db')
  then show ?case using register_transition [of db] by (metis register_step.move)
next
  case (suppress wall db iid reason scope expires who db')
  then show ?case using register_suppress [of db] by (metis register_step.suppress)
qed (simp_all add: register_create register_note register_assign register_feedback register_step.idle)

lemma reach_refines: "(incident_step H)\<^sup>*\<^sup>* db db' \<Longrightarrow> incident_db_ok db \<Longrightarrow> register_step\<^sup>*\<^sup>* (register db) (register db')"
proof (induction rule: rtranclp_induct)
  case (step y z)
  then show ?case using step_refines [OF step.hyps(2) reach_ok [OF step.hyps(1) step.prems]] by (simp add: rtranclp.rtrancl_into_rtrancl)
qed simp

lemma register_step_keeps: "register_step r r' \<Longrightarrow> r fp = Some (iid, s) \<Longrightarrow> \<exists>s'. r' fp = Some (iid, s')"
  by (induction rule: register_step.induct) auto

text \<open>C20: every operation on consistent tables is a step of the register: a fingerprint gets one id,
  that no other has, and keeps it; its status starts at NEW and moves along the table of
  transitions, except that a suppression is possible in every status, CLOSED included, and a
  suppressed incident comes back as NEW.\<close>

theorem incident_step_refines:
  assumes "incident_step H db db'" "incident_db_ok db"
  shows "register_step (register db) (register db')"
  by (rule step_refines [OF assms])

text \<open>An id once given to a fingerprint is never taken away or replaced, whatever happens later.\<close>

theorem fingerprint_keeps_incident:
  assumes "(incident_step H)\<^sup>*\<^sup>* db db'" "incident_db_ok db" "register db fp = Some (iid, s)"
  shows "\<exists>s'. register db' fp = Some (iid, s')"
  using reach_refines [OF assms(1,2)] assms(3)
  by (induction arbitrary: s rule: converse_rtranclp_induct) (blast dest: register_step_keeps)+

section \<open>Examples\<close>

definition titled_request :: incident_request where
  "titled_request = sample_request\<lparr>rq_title := Some ''x''\<rparr>"

lemma titled_request_simps:
  "request_eligible titled_request" "request_title titled_request = ''x''" "validate_title ''x'' = Inr ()"
  "distinct (risk_ids titled_request)" "distinct (rq_alerts titled_request)" "rq_policy titled_request = ''I001''"
  by (simp_all add: titled_request_def sample_request_def request_eligible_def evaluate_policy_eligible sample_finding_def
      request_title_def validate_title_def BANNED_INCIDENT_PHRASES_def py_lower_def lower_char_def starts_with_def risk_ids_def)

text \<open>The tables after the first creation.\<close>

definition sample_row :: incident where
  "sample_row = (request_row id 0 empty_incident_db titled_request)\<lparr>in_id := Suc 0\<rparr>"

definition sample_incidents :: incident_db where
  "sample_incidents = created_db [] 0 titled_request (now_or 0 (rq_now titled_request)) (request_row id 0 empty_incident_db titled_request)
     (inserted_db (request_row id 0 empty_incident_db titled_request) empty_incident_db)"

lemma empty_incident_simps [simp]:
  "incident_for empty_incident_db fp = None" "next_incident_id empty_incident_db = incident_public_id 1" "idb_incidents empty_incident_db = []"
  "idb_seq empty_incident_db = 0" "idb_suppressions empty_incident_db = []" "idb_notes empty_incident_db = []"
  by (simp_all add: empty_incident_db_def incident_for_def next_incident_id_def)

lemma sample_created:
  "create_incident id [] 0 [] empty_incident_db titled_request = Inr (sample_incidents, Created (incident_public_id 1) ''NEW''
     (request_fingerprint id titled_request) (in_severity sample_row) (in_priority sample_row) (in_confidence sample_row) ''I001'')"
proof -
  have "insert_and_record [] 0 [] empty_incident_db titled_request (now_or 0 (rq_now titled_request)) (request_fingerprint id titled_request)
      (request_title titled_request) = Inr (sample_incidents, Created (incident_public_id 1) ''NEW''
     (request_fingerprint id titled_request) (in_severity sample_row) (in_priority sample_row) (in_confidence sample_row) ''I001'')"
    unfolding insert_and_record_iff [OF incident_db_ok_empty empty_incident_simps(1)] sample_incidents_def sample_row_def
    by (simp add: titled_request_simps)
  then show ?thesis by (simp add: create_incident_unfold titled_request_simps)
qed

lemma sample_step: "incident_step id empty_incident_db sample_incidents"
  by (rule incident_step.create [OF sample_created])

lemma sample_ok: "incident_db_ok sample_incidents"
  by (rule create_keeps_ok [OF incident_db_ok_empty sample_created])

lemma sample_row_simps [simp]:
  "idb_incidents sample_incidents = [sample_row]" "in_incident_id sample_row = incident_public_id 1" "in_status sample_row = ''NEW''"
  "in_fingerprint sample_row = request_fingerprint id titled_request" "idb_suppressions sample_incidents = []" "idb_notes sample_incidents = []"
  by (simp_all add: sample_incidents_def sample_row_def request_row_def)

lemma sample_register: "register sample_incidents (request_fingerprint id titled_request) = Some (incident_public_id 1, ''NEW'')"
  by (simp add: register_def incident_for_def)

lemma create_incident_outcome_witness:
  "\<exists>db row. create_incident id [] 0 [] empty_incident_db titled_request = Inr (db, Created (incident_public_id 1) ''NEW''
      (request_fingerprint id titled_request) (in_severity row) (in_priority row) (in_confidence row) ''I001'') \<and> idb_incidents db = [row]"
proof -
  have "\<not> (\<exists>p\<in>set BANNED_INCIDENT_PHRASES. contains p (py_lower ''x''))"
    by (simp add: BANNED_INCIDENT_PHRASES_def py_lower_def lower_char_def starts_with_def)
  then show ?thesis
    using create_incident_outcome [OF incident_db_ok_empty, where H = id and rq = titled_request and took = "[]" and wall = 0]
    by (auto simp: titled_request_simps)
qed

lemma incident_store_invariant_witness: "incident_db_ok sample_incidents"
  by (rule incident_store_invariant [OF r_into_rtranclp [of "incident_step id", OF sample_step]])

lemma incident_step_refines_witness:
  "register_step (register empty_incident_db) (register sample_incidents)"
  by (rule incident_step_refines [OF sample_step incident_db_ok_empty])

lemma fingerprint_keeps_incident_witness:
  "\<exists>s. register sample_incidents (request_fingerprint id titled_request) = Some (incident_public_id 1, s)"
  by (rule fingerprint_keeps_incident [OF rtranclp.rtrancl_refl [of "incident_step id"] sample_ok sample_register])

end
