(* ===== verification/Incident_Life.thy ===== *)
theory Incident_Life
  imports Incident_Props
begin

text \<open>
  The incident store seen from outside: what is read back after a creation, the answers of
  the HTTP requests, the figures of the metrics, the policies that can accept anything, a
  lost race and a closed incident that comes back.
\<close>

section \<open>Reading back\<close>

lemma links_of_fresh: "iid \<notin> lk_incident ` set ls \<Longrightarrow> links_of iid ls = []"
  unfolding links_of_def filter_empty_conv by (metis imageI)

lemma lk_target_links [simp]: "map lk_target (links iid wall reason ts) = ts"
  by (simp add: links_def comp_def)

lemma create_created:
  assumes ok: "incident_db_ok db" and c: "create_incident H took wall [] db rq = Inr (db', Created iid s fp sev prio conf pid)"
  shows "incident_for db (request_fingerprint H rq) = None" "iid = next_incident_id db"
    "db' = created_db took wall rq (now_or wall (rq_now rq)) (request_row H wall db rq) (inserted_db (request_row H wall db rq) db)"
    "distinct (risk_ids rq)" "distinct (rq_alerts rq)"
proof -
  show n: "incident_for db (request_fingerprint H rq) = None"
    using c unfolding create_incident_unfold report_existing_def
    by (auto simp: map_sum_Inr split: option.splits if_splits)
  have "insert_and_record took wall [] db rq (now_or wall (rq_now rq)) (request_fingerprint H rq) (request_title rq)
     = Inr (db', Created iid s fp sev prio conf pid)"
    using c unfolding create_incident_unfold n option.case by (auto split: if_splits sum.splits)
  then show "iid = next_incident_id db" "distinct (risk_ids rq)" "distinct (rq_alerts rq)"
    "db' = created_db took wall rq (now_or wall (rq_now rq)) (request_row H wall db rq) (inserted_db (request_row H wall db rq) db)"
    unfolding insert_and_record_iff [OF ok n] by blast+
qed

text \<open>C37: what a creation stores is what the detail and graph requests give back: the alerts and
  risks of the request, its groups and findings without repetitions, and one edge for each of
  them and for each entity.\<close>

theorem creation_round_trip:
  assumes ok: "incident_db_ok db" and c: "create_incident H took wall [] db rq = Inr (db', Created iid s fp sev prio conf pid)"
  shows "\<exists>d title es. incident_detail_of db' iid = Inr d \<and> in_fingerprint (dt_incident d) = request_fingerprint H rq
     \<and> dt_alerts d = rq_alerts rq \<and> dt_risks d = risk_ids rq
     \<and> dt_groups d = uniq_first (group_refs (rq_groups rq)) \<and> dt_correlations d = uniq_first (finding_refs (rq_findings rq))
     \<and> incident_graph_of db' iid = Inr (title, es)
     \<and> map (\<lambda>(src, target, type, why). (type, target)) es =
         map (Pair ''INCIDENT_HAS_ALERT'') (rq_alerts rq) @ map (Pair ''INCIDENT_HAS_GROUP'') (uniq_first (group_refs (rq_groups rq)))
         @ map (Pair ''INCIDENT_HAS_CORRELATION'') (uniq_first (finding_refs (rq_findings rq)))
         @ map (Pair ''INCIDENT_HAS_RISK'') (risk_ids rq) @ map (Pair ''INCIDENT_INVOLVES_ENTITY'') (request_entities rq)"
proof -
  note f = create_created [OF ok c]
  define i where "i = request_row H wall db rq"
  have ok': "incident_db_ok db'" by (rule create_keeps_ok [OF ok c])
  have row: "in_incident_id i = iid" "in_fingerprint i = request_fingerprint H rq" "in_entity_ids i = request_entities rq"
    by (simp_all add: i_def request_row_def f(2))
  have db': "db' = created_db took wall rq (now_or wall (rq_now rq)) i (inserted_db i db)" by (simp add: f(3) i_def)
  let ?row = "i\<lparr>in_id := Suc (idb_seq db)\<rparr>"
  have m: "?row \<in> set (idb_incidents db')" by (simp add: db')
  have look: "incident_of db' iid = Some ?row" using incident_of_mem [OF ok' m] row(1) by simp
  have "iid \<notin> set (idb_refs db)" using next_incident_id_fresh(2) [OF ok] f(2) by simp
  then have old: "links_of iid (idb_alerts db) = []" "links_of iid (idb_groups db) = []"
    "links_of iid (idb_correlations db) = []" "links_of iid (idb_risks db) = []"
    by (simp_all add: idb_refs_def links_of_fresh)
  have t: "link_targets iid (idb_alerts db') = rq_alerts rq" "link_targets iid (idb_risks db') = risk_ids rq"
    "link_targets iid (idb_groups db') = uniq_first (group_refs (rq_groups rq))"
    "link_targets iid (idb_correlations db') = uniq_first (finding_refs (rq_findings rq))"
    by (simp_all add: link_targets_def db' row(1) old links_of_links)
  have le: "map (\<lambda>e. (ge_type e, ge_target e)) (link_edges iid ty st ls) = map (Pair ty) (link_targets iid ls)" for ty st ls
    by (simp add: link_edges_def link_targets_def)
  have "edges_of db' iid = graph_edges db' ?row" using incident_db_okD(8) [OF ok' m] row(1) by simp
  then have "map (\<lambda>e. (ge_type e, ge_target e)) (edges_of db' iid) =
         map (Pair ''INCIDENT_HAS_ALERT'') (rq_alerts rq) @ map (Pair ''INCIDENT_HAS_GROUP'') (uniq_first (group_refs (rq_groups rq)))
         @ map (Pair ''INCIDENT_HAS_CORRELATION'') (uniq_first (finding_refs (rq_findings rq)))
         @ map (Pair ''INCIDENT_HAS_RISK'') (risk_ids rq) @ map (Pair ''INCIDENT_INVOLVES_ENTITY'') (request_entities rq)"
    unfolding graph_edges_def by (simp add: le t row comp_def)
  then show ?thesis
    unfolding incident_detail_of_def incident_graph_of_def look option.case edges_of_def [symmetric]
    by (simp add: t row comp_def)
qed

section \<open>Requests over HTTP\<close>

text \<open>The answer of each request, by the state of the incident.\<close>

fun expected_code :: "string \<Rightarrow> incident_db \<Rightarrow> string \<Rightarrow> incident_post \<Rightarrow> nat" where
  "expected_code second db iid (PostTransition status reason actor) =
     (case incident_of db iid of None \<Rightarrow> 404
      | Some i \<Rightarrow> if can_incident_transition (in_status i) (py_upper status) then 200 else 422)"
| "expected_code second db iid (PostNote author content) =
     (case incident_of db iid of None \<Rightarrow> 404
      | Some i \<Rightarrow> if is_terminal (in_status i) then 404
         else if default_note_id second iid \<in> nt_id ` set (idb_notes db) then 500 else 200)"
| "expected_code second db iid (PostAssign who team actor) = (case incident_of db iid of None \<Rightarrow> 404 | Some i \<Rightarrow> 200)"
| "expected_code second db iid (PostSuppress reason scope n actor) =
     (if 1 \<le> n \<and> n \<le> 90 then (case incident_of db iid of None \<Rightarrow> 404 | Some i \<Rightarrow> 500) else 422)"
| "expected_code second db iid (PostFeedback analyst kind reason) = (case incident_of db iid of None \<Rightarrow> 404 | Some i \<Rightarrow> 200)"

lemma ids_same: "idb_incidents d = idb_incidents db \<Longrightarrow> incident_ids d = incident_ids db"
  by (simp add: incident_ids_def)

lemma transition_code:
  "(case map_sum (http_of True) id (transition_incident wall db iid t actor reason) of Inl c \<Rightarrow> c | Inr d \<Rightarrow> (200 :: nat)) =
     (case incident_of db iid of None \<Rightarrow> 404 | Some i \<Rightarrow> if can_incident_transition (in_status i) t then 200 else 422)"
proof (cases "incident_of db iid")
  case (Some i)
  have "iid \<in> incident_ids (set_incident i (moved_incident wall actor t) db)"
    using in_ids [OF Some] incident_ids_set_incident [of "moved_incident wall actor t" i db] by (simp add: moved_incident_def Let_def)
  moreover have "''INCIDENT_UPDATED'' \<in> set AUDIT_ACTIONS" by (simp add: AUDIT_ACTIONS_def)
  ultimately have "\<exists>d. incident_audit_record (set_incident i (moved_incident wall actor t) db) iid ''INCIDENT_UPDATED'' actor
      (Some (in_status i)) (Some t) reason wall = Inr d" by (intro audit_ok_known)
  then obtain d where "incident_audit_record (set_incident i (moved_incident wall actor t) db) iid ''INCIDENT_UPDATED'' actor
      (Some (in_status i)) (Some t) reason wall = Inr d" ..
  then show ?thesis by (simp add: transition_incident_def Some transition_status_def http_of_def)
qed (simp add: transition_incident_def http_of_def)

lemma note_code:
  "(case map_sum (http_of False) id (add_note second wall db iid author content None) of Inl c \<Rightarrow> c | Inr d \<Rightarrow> (200 :: nat)) =
     (case incident_of db iid of None \<Rightarrow> 404
      | Some i \<Rightarrow> if is_terminal (in_status i) then 404
         else if default_note_id second iid \<in> nt_id ` set (idb_notes db) then 500 else 200)"
proof (cases "incident_of db iid")
  case (Some i)
  have "(\<exists>n\<in>set (idb_notes db). nt_id n = default_note_id second iid) \<longleftrightarrow> default_note_id second iid \<in> nt_id ` set (idb_notes db)"
    by (force simp: image_iff)
  moreover have "''INCIDENT_NOTE_ADDED'' \<in> set AUDIT_ACTIONS" by (simp add: AUDIT_ACTIONS_def)
  moreover have "iid \<in> incident_ids (db\<lparr>idb_notes := x\<rparr>)" for x using in_ids [OF Some] ids_same [of "db\<lparr>idb_notes := x\<rparr>" db] by simp
  ultimately show ?thesis by (simp add: add_note_def Some http_of_def audit_known Let_def)
qed (simp add: add_note_def http_of_def)

lemma audit_if_known:
  "action \<in> set AUDIT_ACTIONS \<Longrightarrow> iid \<in> incident_ids db \<Longrightarrow> \<exists>d. audit_if c iid action actor old new wall db = Inr d \<and> incident_ids d = incident_ids db"
  by (auto simp: audit_if_def audit_known incident_ids_def)

lemma assign_code:
  "(case map_sum (http_of False) id (assign_incident wall db iid who team actor) of Inl c \<Rightarrow> c | Inr d \<Rightarrow> (200 :: nat)) =
     (case incident_of db iid of None \<Rightarrow> 404 | Some i \<Rightarrow> 200)"
proof (cases "incident_of db iid")
  case (Some i)
  let ?f = "\<lambda>j. j\<lparr>in_assigned_to := who, in_assigned_team := team, in_assigned_at := Some wall,
                in_updated_at := wall, in_updated_by := actor\<rparr>"
  let ?act = "if who \<noteq> None \<and> who \<noteq> Some [] then ''INCIDENT_ASSIGNED'' else ''INCIDENT_UNASSIGNED''"
  have k: "?act \<in> set AUDIT_ACTIONS" "''INCIDENT_TEAM_ASSIGNED'' \<in> set AUDIT_ACTIONS" by (simp_all add: AUDIT_ACTIONS_def)
  have iid: "iid \<in> incident_ids (set_incident i ?f db)" using in_ids [OF Some] incident_ids_set_incident [of ?f i db] by simp
  obtain d where d: "audit_if (in_assigned_to i \<noteq> who) iid ?act actor (in_assigned_to i) who wall (set_incident i ?f db) = Inr d"
    "iid \<in> incident_ids d" using audit_if_known [OF k(1) iid] iid by metis
  obtain d' where "audit_if (in_assigned_team i \<noteq> team) iid ''INCIDENT_TEAM_ASSIGNED'' actor (in_assigned_team i) team wall d = Inr d'"
    using audit_if_known [OF k(2) d(2)] by blast
  then show ?thesis unfolding assign_incident_def Some option.case d(1) by simp
qed (simp add: assign_incident_def http_of_def)

lemma feedback_code:
  "(case map_sum (\<lambda>e. case e of HTTPException n \<Rightarrow> n | _ \<Rightarrow> 500) id (post_feedback wall db iid analyst kind reason) of
      Inl c \<Rightarrow> c | Inr d \<Rightarrow> (200 :: nat)) = (case incident_of db iid of None \<Rightarrow> 404 | Some i \<Rightarrow> 200)"
proof (cases "incident_of db iid")
  case (Some i)
  have "''INCIDENT_FEEDBACK_ADDED'' \<in> set AUDIT_ACTIONS" by (simp add: AUDIT_ACTIONS_def)
  moreover have "iid \<in> incident_ids (db\<lparr>idb_feedback := x\<rparr>)" for x using in_ids [OF Some] ids_same [of "db\<lparr>idb_feedback := x\<rparr>" db] by simp
  ultimately show ?thesis by (simp add: post_feedback_def Some audit_known)
qed (simp add: post_feedback_def)

lemma suppress_code:
  "(case map_sum (http_of False) id (post_suppress wall db iid reason scope n actor) of Inl c \<Rightarrow> c | Inr d \<Rightarrow> (200 :: nat)) =
     (if 1 \<le> n \<and> n \<le> 90 then (case incident_of db iid of None \<Rightarrow> 404 | Some i \<Rightarrow> 500) else 422)"
  by (auto simp: post_suppress_def suppress_incident_def minus_aware_def http_of_def split: option.split)

lemma post_code:
  "(case incident_post_run second wall db iid req of Inl c \<Rightarrow> c | Inr d \<Rightarrow> 200) = expected_code second db iid req"
  by (cases req) (simp_all only: incident_post_run.simps expected_code.simps transition_code note_code assign_code feedback_code suppress_code)

lemma audit_seq: "incident_audit_record db iid a actor x y z now = Inr db' \<Longrightarrow> idb_seq db' = idb_seq db"
  by (auto simp: incident_audit_record_def split: if_splits option.splits)

lemma post_quiet: "incident_post_run second wall db iid req = Inr d \<Longrightarrow> quiet db d"
proof (cases req)
  case (PostSuppress reason scope n actor)
  assume "incident_post_run second wall db iid req = Inr d"
  then have "post_suppress wall db iid reason scope n actor = Inr d"
    by (cases "post_suppress wall db iid reason scope n actor") (simp_all add: PostSuppress)
  then show ?thesis unfolding post_suppress_def by (auto split: if_splits dest: quiet_suppress)
qed (auto simp: map_sum_Inr dest: quiet_transition quiet_add_note quiet_assign quiet_post_feedback)

text \<open>The exact answer of every POST request; a suppression is never possible over HTTP, since
  the handler passes a time without a zone where one with a zone is subtracted.  No request has
  an effect: its session is closed without a commit, so the committed tables stay what they
  were, also after an answer of 200.\<close>

theorem incident_request_answers:
  "incident_endpoint second wall db iid req = (db, expected_code second db iid req)"
proof (cases "incident_post_run second wall db iid req")
  case (Inl c)
  then show ?thesis using post_code [of second wall db iid req]
    by (simp add: incident_endpoint_def open_session_def close_session_def)
next
  case (Inr d)
  have "idb_seq d = idb_seq db" using post_quiet [OF Inr] by (simp add: quiet_def)
  then show ?thesis using Inr post_code [of second wall db iid req]
    by (simp add: incident_endpoint_def open_session_def close_session_def)
qed

section \<open>A lost race\<close>

lemma unknown_not_public: "''unknown'' \<noteq> incident_public_id k"
  by (simp add: incident_public_id_def)

lemma insert_incident_race:
  "win \<in> set others \<Longrightarrow> in_fingerprint win = in_fingerprint i \<Longrightarrow> insert_incident others db i = Inl (IntegrityError ''fingerprint'')"
  by (auto simp: insert_incident_def Let_def)

text \<open>C40: of two sessions that pass the check for the same new fingerprint, the one that inserts
  second raises, loses everything its session had not committed, and leaves no audit of the
  failure: the recovery that the code prepares (reuse the winner) is never reached.\<close>

theorem lost_race_raises:
  assumes ok: "incident_db_ok (ses_committed s)" and fresh: "incident_for (ses_view s) (request_fingerprint H rq) = None"
    and el: "request_eligible rq" "validate_title (request_title rq) = Inr u"
    and other: "win \<in> set others" "in_fingerprint win = request_fingerprint H rq" "\<forall>q\<in>set others. core_ok q"
  shows "\<exists>s'. create_in_session H took wall others s rq = (s', Inl (IntegrityError ''fingerprint''))
     \<and> idb_incidents (ses_view s') = idb_incidents (ses_committed s) @ others
     \<and> idb_audit (ses_view s') = idb_audit (ses_committed s) \<and> idb_evidence (ses_view s') = idb_evidence (ses_committed s)"
proof -
  let ?e = "IntegrityError ''fingerprint''"
  have "create_incident H took wall others (ses_view s) rq = Inl ?e"
    using fresh el insert_incident_race [OF other(1), of _ "ses_view s"] other(2)
    by (simp add: create_incident_unfold insert_and_record_def Let_def)
  moreover have "incident_of (rolled_back others ?e s) ''unknown'' = None"
  proof -
    have "in_incident_id i \<noteq> ''unknown''" if "i \<in> set (idb_incidents (ses_committed s)) \<union> set others" for i
      using that incident_db_okD(4) [OF ok] other(3) unknown_not_public unfolding core_ok_def by (metis UnE)
    then show ?thesis unfolding incident_of_def find_None_iff' by (simp add: rolled_back_def Let_def)
  qed
  then have "incident_audit_record (rolled_back others ?e s) ''unknown'' ''INCIDENT_CREATION_FAILED'' actor x y z now
      = Inl (ValueError ''unknown incident'')" for actor x y z now
    by (simp add: incident_audit_record_def AUDIT_ACTIONS_def)
  ultimately show ?thesis
    by (simp add: create_in_session_def Let_def rolled_back_def)
qed

section \<open>A closed incident that comes back\<close>

lemma suppress_returns:
  assumes i: "incident_of db iid = Some i" and d: "t - wall \<le> days 90"
  shows "\<exists>db'. suppress_incident wall db iid reason scope (Aware t) who = Inr db'
     \<and> (\<forall>x. fingerprint_suppressed db' (in_fingerprint i) x \<longrightarrow> fingerprint_suppressed db (in_fingerprint i) x \<or> x \<le> t)"
proof -
  have act: "''INCIDENT_SUPPRESSED'' \<in> set AUDIT_ACTIONS" by (simp add: AUDIT_ACTIONS_def)
  have known: "iid \<in> incident_ids (db\<lparr>idb_suppressions := x\<rparr>)" for x
    using in_ids [OF i] ids_same [of "db\<lparr>idb_suppressions := x\<rparr>" db] by simp
  have "\<not> days INCIDENT_SUPPRESSION_MAX_DAYS < t - wall" using d by (simp add: INCIDENT_SUPPRESSION_MAX_DAYS_def)
  then show ?thesis
    unfolding suppress_incident_def i option.case minus_aware_def stamp.case sum.case audit_known [OF act known]
    by (auto simp: fingerprint_suppressed_def set_incident_def stamp_time_def)
qed

text \<open>An analyst's CLOSED is not final: the closed incident can be suppressed, and the first
  repeat of its evidence after the suppression has lapsed makes it NEW again.\<close>

theorem closed_incident_reopens:
  assumes ok: "incident_db_ok db" and reg: "register db (request_fingerprint H rq) = Some (iid, ''CLOSED'')"
    and t: "t - wall \<le> days 90" "t < now_or wall' (rq_now rq)"
    and old: "\<not> fingerprint_suppressed db (request_fingerprint H rq) (now_or wall' (rq_now rq))"
  shows "\<exists>db1 db2. suppress_incident wall db iid reason scope (Aware t) who = Inr db1
     \<and> create_incident H took wall' [] db1 rq = Inr (db2, Reported iid ''NEW'' (request_fingerprint H rq))
     \<and> register db2 (request_fingerprint H rq) = Some (iid, ''NEW'')"
proof -
  let ?fp = "request_fingerprint H rq" and ?now = "now_or wall' (rq_now rq)"
  obtain i where i: "incident_for db ?fp = Some i" "in_incident_id i = iid" using reg by (auto simp: register_def)
  note m = incident_for_Some [OF i(1)]
  have look: "incident_of db iid = Some i" using incident_of_mem [OF ok conjunct1 [OF m]] i(2) by simp
  obtain db1 where s: "suppress_incident wall db iid reason scope (Aware t) who = Inr db1"
    "\<And>x. fingerprint_suppressed db1 ?fp x \<Longrightarrow> fingerprint_suppressed db ?fp x \<or> x \<le> t"
    using suppress_returns [OF look t(1), of reason scope who] unfolding conjunct2 [OF m] by blast
  have ok1: "incident_db_ok db1" by (rule quiet_ok [OF ok quiet_suppress [OF s(1)]])
  have u: "\<not> fingerprint_suppressed db1 ?fp ?now" using s(2) [of ?now] old t(2) by fastforce
  obtain fp s0 where r: "register db fp = Some (iid, s0)" "register db1 = (register db)(fp \<mapsto> (iid, ''SUPPRESSED''))"
    using register_suppress [OF ok s(1)] by blast
  have "fp = ?fp"
  proof -
    obtain j where j: "incident_for db fp = Some j" "in_incident_id j = iid" using r(1) by (auto simp: register_def)
    then have "j = i" using incident_of_mem [OF ok] incident_for_Some [OF j(1)] look by force
    then show ?thesis using incident_for_Some [OF j(1)] m by blast
  qed
  then have "register db1 ?fp = Some (iid, ''SUPPRESSED'')" using r(2) by simp
  then obtain e where e: "incident_for db1 ?fp = Some e" "in_incident_id e = iid" "in_status e = ''SUPPRESSED''"
    by (auto simp: register_def)
  note me = incident_for_Some [OF e(1)]
  obtain db2 where c: "report_existing wall' rq ?now db1 ?fp e = Inr (db2, Reported iid ''NEW'' ?fp)"
    using report_existing_returns [OF conjunct1 [OF me], of wall' rq ?now ?fp] u e(2,3) by (auto simp: repeated_status_def)
  have "resume_incident wall' (rq_actor rq) ?now db1 e = Inr db2"
    using c u e(3) by (simp add: report_existing_def map_sum_Inr)
  then have "register db2 ?fp = Some (iid, ''NEW'')" using register_resume [OF ok1 conjunct1 [OF me]] me e(2) by simp
  moreover have "create_incident H took wall' [] db1 rq = Inr (db2, Reported iid ''NEW'' ?fp)"
    by (simp add: create_incident_unfold e(1) c)
  ultimately show ?thesis using s(1) by blast
qed

section \<open>Who can open an incident\<close>

lemma reported_or_refused_quiet:
  "create_incident H took wall others db rq = Inr (db', r) \<Longrightarrow> \<not> request_eligible rq \<Longrightarrow> db' = db \<or> quiet db db'"
  unfolding create_incident_unfold by (auto split: option.splits dest: quiet_report)

text \<open>The detection cycle calls the engine without findings and with the default policy I001,
  which demands a multi-stage finding: on any tables, whatever groups, risks and alerts it
  passes, that call never opens an incident.\<close>

theorem pipeline_never_opens_incident:
  assumes "rq_findings rq = []" "rq_policy rq = ''I001''" "create_incident H took wall others db rq = Inr (db', r)"
  shows "length (idb_incidents db') = length (idb_incidents db)"
proof -
  have "\<not> request_eligible rq"
    unfolding request_eligible_def evaluate_policy_eligible assms(1,2) by simp
  from reported_or_refused_quiet [OF assms(3) this] show ?thesis
    unfolding quiet_def by (metis length_map)
qed

text \<open>Re-checking a stored incident loses its evidence: only ids are loaded, so no policy but
  the analyst's escalation I008 can be satisfied, whatever the incident was created for.\<close>

theorem recheck_only_escalation:
  "(\<exists>p. check_eligibility db iid pid = Some p \<and> pr_eligible p) \<longleftrightarrow> iid \<in> incident_ids db \<and> pid = ''I008''"
proof (cases "incident_of db iid")
  case None
  then show ?thesis using incident_of_None [of db iid] by (simp add: check_eligibility_def)
next
  case (Some i)
  have t: "\<not> technique_seen ps (map bare_group ts)" for ps ts by (auto simp: technique_seen_def bare_group_def)
  have f: "\<not> (\<exists>f\<in>set (map bare_finding ts). if_type f = ''MULTI_STAGE'')" for ts by (auto simp: bare_finding_def)
  have s: "\<not> (\<exists>g\<in>set (map bare_group ts). py_lower (ig_severity g) = ''high'')" for ts by (auto simp: bare_group_def)
  have r: "\<not> (\<exists>r. (case ts of [] \<Rightarrow> None | t # _ \<Rightarrow> Some (bare_risk t)) = Some r \<and> 40 \<le> ir_score r)" for ts
    by (cases ts) (auto simp: bare_risk_def)
  have "pr_eligible (evaluate_policy pid (map bare_group gs) (map bare_finding fs) (case rs of [] \<Rightarrow> None | t # _ \<Rightarrow> Some (bare_risk t)))
      \<longleftrightarrow> pid = ''I008''" for gs fs rs
    by (simp only: evaluate_policy_eligible t f s r simp_thms if_bool_eq_conj) auto
  then show ?thesis using in_ids [OF Some] by (simp add: check_eligibility_def Some)
qed

section \<open>Examples\<close>

lemma creation_round_trip_witness:
  "\<exists>d. incident_detail_of sample_incidents (incident_public_id 1) = Inr d \<and> dt_alerts d = [''ALR-000001'']"
  using creation_round_trip [OF incident_db_ok_empty sample_created]
  by (auto simp: titled_request_def sample_request_def)

lemma lost_race_raises_witness:
  "\<exists>s. create_in_session id [] 0 [sample_row] (open_session empty_incident_db) titled_request
      = (s, Inl (IntegrityError ''fingerprint'')) \<and> idb_incidents (ses_view s) = [sample_row]"
proof -
  have "\<forall>q\<in>set [sample_row]. core_ok q" using incident_db_okD(4) [OF sample_ok] by simp
  then show ?thesis
    using lost_race_raises [of "open_session empty_incident_db" id titled_request "()" sample_row "[sample_row]" "[]" 0]
    by (auto simp: open_session_def incident_db_ok_empty titled_request_simps)
qed

lemma sample_closed:
  obtains db where "incident_db_ok db" "register db (request_fingerprint id titled_request) = Some (incident_public_id 1, ''CLOSED'')"
    "idb_suppressions db = []"
proof -
  have act: "''INCIDENT_UPDATED'' \<in> set AUDIT_ACTIONS" by (simp add: AUDIT_ACTIONS_def)
  have i: "incident_of sample_incidents (incident_public_id 1) = Some sample_row" by (simp add: incident_of_def)
  have can: "can_incident_transition ''NEW'' ''CLOSED''" by (simp add: can_incident_transition_def INCIDENT_TRANSITIONS_def)
  let ?d = "set_incident sample_row (moved_incident 0 ''a'' ''CLOSED'') sample_incidents"
  have "incident_public_id 1 \<in> incident_ids ?d"
    using in_ids [OF i] incident_ids_set_incident [of "moved_incident 0 ''a'' ''CLOSED''" sample_row sample_incidents]
    by (simp add: moved_incident_def Let_def)
  note a = audit_known [OF act this, of "''a''" "Some ''NEW''" "Some ''CLOSED''" None 0]
  obtain db where t: "transition_incident 0 sample_incidents (incident_public_id 1) ''CLOSED'' ''a'' None = Inr db" "idb_suppressions db = []"
    unfolding transition_incident_def i option.case transition_status_def sample_row_simps(3)
    by (simp add: can a [unfolded One_nat_def]) (simp add: set_incident_def)
  moreover have "register db (request_fingerprint id titled_request) = Some (incident_public_id 1, ''CLOSED'')"
  proof -
    obtain fp s where r: "register sample_incidents fp = Some (incident_public_id 1, s)"
      "register db = (register sample_incidents)(fp \<mapsto> (incident_public_id 1, ''CLOSED''))"
      using register_transition [OF sample_ok t(1)] by blast
    then have "fp = request_fingerprint id titled_request" by (auto simp: register_def incident_for_def split: if_splits)
    then show ?thesis using r(2) by simp
  qed
  ultimately show ?thesis using that quiet_ok [OF sample_ok quiet_transition] by blast
qed

lemma closed_incident_reopens_witness:
  "\<exists>db db1 db2. register db (request_fingerprint id titled_request) = Some (incident_public_id 1, ''CLOSED'')
     \<and> suppress_incident 0 db (incident_public_id 1) ''r'' ''s'' (Aware 50) ''a'' = Inr db1
     \<and> create_incident id [] 0 [] db1 titled_request = Inr (db2, Reported (incident_public_id 1) ''NEW'' (request_fingerprint id titled_request))"
proof -
  obtain db where db: "incident_db_ok db" "register db (request_fingerprint id titled_request) = Some (incident_public_id 1, ''CLOSED'')"
    "idb_suppressions db = []" by (rule sample_closed)
  have now: "now_or 0 (rq_now titled_request) = 100" by (simp add: titled_request_def sample_request_def)
  show ?thesis
    using closed_incident_reopens [OF db(1,2), of 50 0 0 "''r''" "''s''" "''a''" "[]"] db(2,3)
    by (auto simp: now days_def fingerprint_suppressed_def)
qed

lemma pipeline_never_opens_incident_witness:
  "\<exists>db r. create_incident id [] 0 [] empty_incident_db (titled_request\<lparr>rq_findings := []\<rparr>) = Inr (db, r) \<and> idb_incidents db = []"
proof -
  let ?rq = "titled_request\<lparr>rq_findings := []\<rparr>"
  have p: "rq_findings ?rq = []" "rq_policy ?rq = ''I001''" by (simp_all add: titled_request_def sample_request_def)
  have "\<not> request_eligible ?rq" unfolding request_eligible_def evaluate_policy_eligible p by simp
  then obtain db r where "create_incident id [] 0 [] empty_incident_db ?rq = Inr (db, r)"
    by (simp add: create_incident_unfold)
  with pipeline_never_opens_incident [OF p this] show ?thesis by auto
qed

end
