(* ===== verification/Incident_Metrics.thy ===== *)
theory Incident_Metrics
  imports Incident_Props
begin

text \<open>
  The figures of \<open>backend/incidents/metrics.py\<close>: percentiles stay within the values and
  grow with the percentage, the counters partition the incidents, and two counters do not
  count what they are named after.
\<close>

section \<open>Percentiles\<close>

definition percentile_index :: "nat \<Rightarrow> rat \<Rightarrow> nat" where
  "percentile_index n pct = nat (rhe (fmul (fdiv pct 100) (of_nat (n - 1))))"

lemma percentile_index_mono: "0 \<le> p \<Longrightarrow> p \<le> q \<Longrightarrow> percentile_index n p \<le> percentile_index n q"
  unfolding percentile_index_def fmul_def fdiv_def
  by (intro nat_mono rhe_mono fl_mono mult_right_mono divide_right_mono) simp_all

lemma percentile_index_less:
  assumes "0 \<le> p" "p \<le> 100" "0 < n" "n \<le> 2 ^ 53" shows "percentile_index n p < n"
proof -
  have "fdiv p 100 * of_nat (n - 1) \<le> 1 * (of_nat (n - 1) :: rat)"
    unfolding fdiv_def using assms(1,2) by (intro mult_right_mono fl_le_1) simp_all
  then have "fmul (fdiv p 100) (of_nat (n - 1)) \<le> fl (of_int (int (n - 1)))"
    unfolding fmul_def by (intro fl_mono) simp
  also have "\<dots> = of_int (int (n - 1))" by (rule fl_int) (use assms in simp)
  finally have "rhe (fmul (fdiv p 100) (of_nat (n - 1))) \<le> int (n - 1)" by (rule rhe_le_int)
  then show ?thesis using assms(3) by (simp add: percentile_index_def)
qed

lemma percentile_nth:
  assumes "vs \<noteq> []" "0 \<le> p" "p \<le> 100" "length vs \<le> 2 ^ 53"
  shows "\<exists>k. percentile vs p = sort vs ! k \<and> k < length vs \<and> (if p = 100 then k = length vs - 1 else k = percentile_index (length vs) p)"
proof (cases "p = 100")
  case True
  have "sort vs \<noteq> []" using assms(1) by (metis length_0_conv length_sort)
  then have "last (sort vs) = sort vs ! (length vs - 1)" by (simp add: last_conv_nth)
  then show ?thesis using assms(1) True by (simp add: percentile_def Let_def)
next
  case False
  then have "\<not> 100 \<le> p" using assms(3) by simp
  then have "percentile vs p = sort vs ! percentile_index (length vs) p"
    using assms(1) unfolding percentile_def percentile_index_def Let_def length_sort by simp
  moreover have "percentile_index (length vs) p < length vs"
    using percentile_index_less [of p "length vs"] assms by simp
  ultimately show ?thesis using False by auto
qed

text \<open>A percentile is one of the values, and a larger percentage never gives a smaller value;
  the index computed in floating point never leaves the list.\<close>

theorem percentile_within:
  assumes "vs \<noteq> []" "length vs \<le> 2 ^ 53" "0 \<le> p" "p \<le> q" "q \<le> 100"
  shows "percentile vs p \<in> set vs \<and> percentile vs p \<le> percentile vs q"
proof -
  obtain k where k: "percentile vs p = sort vs ! k" "k < length vs"
    "if p = 100 then k = length vs - 1 else k = percentile_index (length vs) p"
    using percentile_nth [of vs p] assms by auto
  obtain l where l: "percentile vs q = sort vs ! l" "l < length vs"
    "if q = 100 then l = length vs - 1 else l = percentile_index (length vs) q"
    using percentile_nth [of vs q] assms by auto
  have "k \<le> l"
    using k(2,3) l(3) percentile_index_mono [OF assms(3,4), of "length vs"] assms(4,5) by (auto split: if_splits)
  then have "sort vs ! k \<le> sort vs ! l" using l(2) by (intro sorted_nth_mono) simp_all
  moreover have "sort vs ! k \<in> set vs" using k(2) nth_mem [of k "sort vs"] by simp
  ultimately show ?thesis by (simp add: k(1) l(1))
qed

lemma percentile_within_witness: "percentile [3, 1, 2] 50 \<le> percentile [3, 1, 2 :: rat] 95"
  using percentile_within [of "[3, 1, 2]" 50 95] by simp

section \<open>Counters\<close>

lemma count_by_key:
  assumes "distinct ks" "\<forall>x\<in>set xs. f x \<in> set ks"
  shows "length xs = (\<Sum>k\<leftarrow>ks. length (filter (\<lambda>x. f x = k) xs))"
  using assms(2)
proof (induction xs)
  case (Cons x xs)
  have "(\<Sum>k\<leftarrow>ks. length (filter (\<lambda>y. f y = k) (x # xs)))
      = (\<Sum>k\<leftarrow>ks. (if f x = k then 1 else 0) + length (filter (\<lambda>y. f y = k) xs))"
    by (rule arg_cong [where f = sum_list], rule map_cong) simp_all
  also have "\<dots> = (\<Sum>k\<leftarrow>ks. if f x = k then 1 else 0) + (\<Sum>k\<leftarrow>ks. length (filter (\<lambda>y. f y = k) xs))"
    by (simp add: sum_list_addf)
  also have "(\<Sum>k\<leftarrow>ks. if f x = k then 1 else (0::nat)) = 1"
    using assms(1) Cons.prems by (simp add: sum_list_distinct_conv_sum_set)
  finally show ?case using Cons by simp
qed simp

lemma filter_halves: "length (filter (\<lambda>x. \<not> P x) xs) + length (filter P xs) = length xs"
  by (induction xs) auto

lemma count_queue:
  assumes "distinct ks"
  shows "length (filter (\<lambda>i. in_status i \<in> set ks) is) = (\<Sum>s\<leftarrow>ks. count_status is s)"
proof -
  have "length (filter (\<lambda>i. in_status i \<in> set ks) is)
      = (\<Sum>s\<leftarrow>ks. length (filter (\<lambda>i. in_status i = s) (filter (\<lambda>i. in_status i \<in> set ks) is)))"
    by (rule count_by_key [OF assms]) simp
  also have "\<dots> = (\<Sum>s\<leftarrow>ks. count_status is s)"
    unfolding count_status_def
    by (rule arg_cong [where f = sum_list], rule map_cong) (auto intro!: arg_cong [where f = length] filter_cong)
  finally show ?thesis .
qed

lemma creations_count:
  assumes ok: "incident_db_ok db"
  shows "count_action db ''INCIDENT_CREATED'' = 2 * length (idb_incidents db)"
proof -
  let ?ks = "map in_incident_id (idb_incidents db)"
  let ?xs = "filter (\<lambda>a. ia_action a = ''INCIDENT_CREATED'') (idb_audit db)"
  have "ia_incident ` set (idb_audit db) \<subseteq> set ?ks"
    using incident_db_okD(6) [OF ok] by (auto simp: idb_refs_def incident_ids_def)
  then have "\<forall>a\<in>set ?xs. ia_incident a \<in> set ?ks" by auto
  from count_by_key [OF incident_db_okD(3) [OF ok] this]
  have "count_action db ''INCIDENT_CREATED'' = (\<Sum>i\<leftarrow>idb_incidents db. creations db (in_incident_id i))"
    unfolding count_action_def creations_def by (simp add: comp_def conj_commute)
  also have "\<dots> = (\<Sum>i\<leftarrow>idb_incidents db. 2)"
    by (rule arg_cong [where f = sum_list], rule map_cong) (simp_all add: incident_db_okD(9) [OF ok])
  finally show ?thesis by (simp add: sum_list_triv)
qed

lemma count_partition:
  assumes "\<forall>i\<in>set is. in_status i \<in> set INCIDENT_STATES"
  shows "length is = (\<Sum>s\<leftarrow>INCIDENT_STATES. count_status is s)"
  unfolding count_status_def
  by (rule count_by_key [OF _ assms]) (simp add: INCIDENT_STATES_def)

text \<open>On consistent tables the counters of the metrics partition the incidents: active, resolved,
  closed and suppressed add up to the total, as do assigned and unassigned, and every incident in
  the queue is either within its response time or past it.  But the number of calculations is
  twice the number of incidents, because each creation is audited twice, and the number of
  failures is always 0.\<close>

theorem incident_metrics_partition:
  assumes ok: "incident_db_ok db"
  shows "mf_active (incident_metrics db now) + mf_resolved (incident_metrics db now)
       + mf_closed (incident_metrics db now) + mf_suppressed (incident_metrics db now) = mf_total (incident_metrics db now)
     \<and> mf_assigned (incident_metrics db now) + int (mf_unassigned (incident_metrics db now)) = int (mf_total (incident_metrics db now))
     \<and> mf_within_sla (incident_metrics db now) + mf_breached (incident_metrics db now) \<le> mf_active (incident_metrics db now)
     \<and> mf_calculations (incident_metrics db now) = 2 * mf_total (incident_metrics db now)
     \<and> mf_failures (incident_metrics db now) = 0"
proof -
  let ?is = "idb_incidents db"
  let ?q = "filter (\<lambda>i. in_status i \<in> {''NEW'', ''TRIAGED'', ''INVESTIGATING'', ''CONTAINMENT_REQUIRED''}) ?is"
  have total: "length ?is = (\<Sum>s\<leftarrow>INCIDENT_STATES. count_status ?is s)"
    by (rule count_partition) (use incident_db_okD(5) [OF ok] in blast)
  have active: "mf_active (incident_metrics db now) = count_status ?is ''NEW'' + (count_status ?is ''TRIAGED''
      + (count_status ?is ''INVESTIGATING'' + (count_status ?is ''CONTAINMENT_REQUIRED'' + count_status ?is ''CONTAINED'')))"
    by (simp add: incident_metrics_def Let_def)
  have "length ?q = (\<Sum>s\<leftarrow>[''NEW'', ''TRIAGED'', ''INVESTIGATING'', ''CONTAINMENT_REQUIRED'']. count_status ?is s)"
    using count_queue [of "[''NEW'', ''TRIAGED'', ''INVESTIGATING'', ''CONTAINMENT_REQUIRED'']" ?is] by simp
  moreover have "mf_within_sla (incident_metrics db now) + mf_breached (incident_metrics db now) = length ?q"
    unfolding incident_metrics_def Let_def incident_figures.simps by (rule filter_halves)
  ultimately have queue: "mf_within_sla (incident_metrics db now) + mf_breached (incident_metrics db now) \<le> mf_active (incident_metrics db now)"
    unfolding active by simp
  have "count_action db ''INCIDENT_CREATION_FAILED'' = 0"
    using incident_db_okD(10) [OF ok] by (simp add: count_action_def filter_empty_conv)
  moreover have "count_status ?is ''NEW'' \<le> length ?is" by (simp add: count_status_def)
  ultimately show ?thesis
    using total queue creations_count [OF ok] unfolding active
    by (simp add: incident_metrics_def Let_def INCIDENT_STATES_def)
qed

lemma incident_metrics_partition_witness:
  "mf_calculations (incident_metrics sample_incidents 0) = 2 \<and> mf_total (incident_metrics sample_incidents 0) = 1"
  using incident_metrics_partition [OF sample_ok, of 0] by (simp add: incident_metrics_def Let_def)

end
