(* ===== verification/Sql_Like.thy ===== *)
theory Sql_Like
  imports Prelude "HOL-Library.Sublist"
begin

text \<open>
  SQL's \<open>LIKE\<close> with the backslash as escape character, and the escaping of
  \<open>_safe_like\<close> (\<open>backend/risk/engine.py\<close>): an escaped string between two
  percent signs matches exactly the strings that contain it.
\<close>

section \<open>Patterns of \<open>LIKE\<close>\<close>

text \<open>\<open>_safe_like\<close> is three replacements of one character each.\<close>

definition replace_char :: "char \<Rightarrow> string \<Rightarrow> string \<Rightarrow> string" where
  "replace_char c new s = concat (map (\<lambda>x. if x = c then new else [x]) s)"

definition backslash :: char where "backslash = CHR 0x5C"

definition safe_like :: "string \<Rightarrow> string" where
  "safe_like s = replace_char (CHR ''_'') [backslash, CHR ''_'']
     (replace_char (CHR ''%'') [backslash, CHR ''%''] (replace_char backslash [backslash, backslash] s))"

text \<open>SQL's \<open>s LIKE pattern\<close>: the percent sign stands for any string, the underscore for
  any character, the backslash makes the next character literal.\<close>

fun like :: "string \<Rightarrow> string \<Rightarrow> bool" where
  "like [] s = (s = [])"
| "like (p # ps) s =
     (if p = CHR ''%'' then (\<exists>t\<in>set (suffixes s). like ps t)
      else if p = CHR ''_'' then (case s of [] \<Rightarrow> False | _ # t \<Rightarrow> like ps t)
      else if p = backslash then (case ps of [] \<Rightarrow> False
        | q # qs \<Rightarrow> (case s of [] \<Rightarrow> False | c # t \<Rightarrow> c = q \<and> like qs t))
      else (case s of [] \<Rightarrow> False | c # t \<Rightarrow> c = p \<and> like ps t))"

section \<open>Escaping\<close>

lemma safe_like_Nil [simp]: "safe_like [] = []"
  by (simp add: safe_like_def replace_char_def)

lemma replace_char_append: "replace_char c n (s @ t) = replace_char c n s @ replace_char c n t"
  by (simp add: replace_char_def)

lemma safe_like_append: "safe_like (s @ t) = safe_like s @ safe_like t"
  by (simp add: safe_like_def replace_char_append)

lemma safe_like_char:
  "safe_like [c] = (if c = CHR ''%'' \<or> c = CHR ''_'' \<or> c = backslash then [backslash, c] else [c])"
  by (simp add: safe_like_def replace_char_def backslash_def)

lemma safe_like_Cons:
  "safe_like (c # s) = (if c = CHR ''%'' \<or> c = CHR ''_'' \<or> c = backslash then backslash # c # safe_like s
     else c # safe_like s)"
  using safe_like_append [of "[c]" s] by (simp add: safe_like_char)

lemma like_safe: "like (safe_like d @ r) s \<longleftrightarrow> (\<exists>t. s = d @ t \<and> like r t)"
proof (induction d arbitrary: s)
  case (Cons c d)
  then show ?case
    by (cases s) (auto simp: safe_like_Cons backslash_def)
qed simp

lemma like_percent: "like ''%'' s"
proof -
  have "[] \<in> set (suffixes s)" by (simp only: in_set_suffixes Nil_suffix)
  then show ?thesis by auto
qed

lemma like_safe_open: "like (safe_like d @ ''%'') s \<longleftrightarrow> (\<exists>u. s = d @ u)"
  by (simp only: like_safe like_percent simp_thms)

lemma like_contains: "like (''%'' @ safe_like d @ ''%'') s \<longleftrightarrow> contains d s"
proof -
  have "like (''%'' @ r) s \<longleftrightarrow> (\<exists>t\<in>set (suffixes s). like r t)" for r by simp
  then have "like (''%'' @ safe_like d @ ''%'') s \<longleftrightarrow> (\<exists>t\<in>set (suffixes s). \<exists>u. t = d @ u)"
    by (simp only: like_safe_open)
  also have "\<dots> \<longleftrightarrow> (\<exists>a u. s = a @ d @ u)"
    unfolding Bex_def in_set_suffixes suffix_def by blast
  finally show ?thesis by (simp add: contains_split)
qed

end
