(* ===== verification/Risk_Policy.thy ===== *)
theory Risk_Policy
  imports Sql_Like
begin

text \<open>
  The contract of entity risk (\<open>backend/risk/contract.py\<close>), its configuration
  (\<open>backend/config.py\<close>), the factor registry (\<open>backend/risk/registry.py\<close>)
  and the pure functions of the engine: which address is external, which factor a
  technique contributes, how a detector's name is turned into a \<open>LIKE\<close> pattern.
\<close>

section \<open>Contract\<close>

definition ENTITY_TYPES :: "string list" where
  "ENTITY_TYPES = [''HOST'', ''USER'', ''ACCOUNT'', ''SOURCE_IP'', ''DESTINATION_IP'', ''PROCESS'']"

definition RISK_SEVERITIES :: "string list" where
  "RISK_SEVERITIES = [''MINIMAL'', ''LOW'', ''MEDIUM'', ''HIGH'', ''CRITICAL'']"

definition RISK_STATES :: "string list" where
  "RISK_STATES = [''NORMAL'', ''ELEVATED'', ''HIGH'', ''CRITICAL'', ''STALE'']"

definition RISK_TRENDS :: "string list" where
  "RISK_TRENDS = [''RISING'', ''STABLE'', ''FALLING'', ''UNKNOWN'']"

definition EVIDENCE_KINDS :: "string list" where
  "EVIDENCE_KINDS = [''DETECTION'', ''ALERT'', ''BEHAVIOR_GROUP'', ''CORRELATION_FINDING'']"

section \<open>Configuration\<close>

definition RISK_MODEL_VERSION :: string where "RISK_MODEL_VERSION = ''1.0.0''"

definition RISK_THRESHOLDS :: "string \<Rightarrow> rat" where
  "RISK_THRESHOLDS s = the (map_of [(''minimal'', 0), (''low'', 20), (''medium'', 40), (''high'', 60), (''critical'', 80)] s)"

definition RISK_FACTOR_WEIGHTS :: "(string \<times> rat) list" where
  "RISK_FACTOR_WEIGHTS =
     [(''RF001_EXTERNAL_ACCESS'', 12), (''RF002_CREDENTIAL_ACCESS'', 14), (''RF003_LATERAL_MOVEMENT'', 18),
      (''RF004_PRIVILEGE_ACTIVITY'', 10), (''RF005_EXECUTION'', 8), (''RF006_MULTI_STAGE_CORRELATION'', 10),
      (''RF007_REPETITION'', 0), (''RF008_RECENCY'', 8), (''RF009_ALERT_SEVERITY'', 6),
      (''RF010_BEHAVIOR_GROUP'', 10), (''RF011_PERSISTENCE'', 10), (''RF012_DEFENSE_EVASION'', 8),
      (''RF013_ENTITY_SPREAD'', 8), (''RF014_SOURCE_REPUTATION'', 0)]"

definition RISK_ALERT_SEVERITY_CONTRIBUTIONS :: "(string \<times> rat) list" where
  "RISK_ALERT_SEVERITY_CONTRIBUTIONS = [(''critical'', 8), (''high'', 6), (''medium'', 3), (''low'', 1)]"

definition RISK_PROPAGATION_WEIGHTS :: "(string \<times> rat) list" where
  "RISK_PROPAGATION_WEIGHTS =
     [(''user_to_host'', 8), (''host_to_user'', 8), (''source_to_host'', 6), (''user_to_source'', 6),
      (''host_to_source'', 6)]"

definition RISK_MAX_FACTOR_CONTRIBUTION :: rat where "RISK_MAX_FACTOR_CONTRIBUTION = 25"
definition RISK_REPETITION_CURVE :: "rat list" where "RISK_REPETITION_CURVE = [15, 8, 4, 2]"
definition RISK_DECAY_HALF_LIFE_HOURS :: rat where "RISK_DECAY_HALF_LIFE_HOURS = 24"
definition RISK_RECENCY_BONUS_HOURS :: int where "RISK_RECENCY_BONUS_HOURS = 1"
definition RISK_STALE_AFTER_MINUTES :: int where "RISK_STALE_AFTER_MINUTES = 60"
definition RISK_TREND_DELTA :: rat where "RISK_TREND_DELTA = 3"
definition RISK_PROPAGATION_EXPIRES_HOURS :: int where "RISK_PROPAGATION_EXPIRES_HOURS = 72"
definition RISK_FACTOR_EXPIRES_HOURS :: int where "RISK_FACTOR_EXPIRES_HOURS = 168"

definition hours :: "int \<Rightarrow> time" where "hours h = h * 3600000000"

text \<open>\<open>config.X.get(k, default)\<close> and \<open>config.X[k]\<close> for the tables above.\<close>

definition get_or :: "(string \<times> rat) list \<Rightarrow> string \<Rightarrow> rat \<Rightarrow> rat" where
  "get_or t k d = (case map_of t k of None \<Rightarrow> d | Some v \<Rightarrow> v)"

section \<open>Registry\<close>

record factor_def =
  fd_factor_id :: string
  fd_version :: string
  fd_source_type :: string
  fd_weight :: rat
  fd_decay_policy :: string
  fd_maximum_contribution :: rat

definition factor_weight :: "string \<Rightarrow> rat \<Rightarrow> rat" where
  "factor_weight f d = get_or RISK_FACTOR_WEIGHTS f d"

definition factor_cap :: "rat \<Rightarrow> rat" where
  "factor_cap v = min v RISK_MAX_FACTOR_CONTRIBUTION"

text \<open>\<open>add(\<dots>)\<close> of \<open>_build_registry\<close>; the descriptions carry no behaviour.\<close>

definition registered :: "string \<Rightarrow> string \<Rightarrow> string \<Rightarrow> rat \<Rightarrow> rat option \<Rightarrow> factor_def" where
  "registered f source policy weight max_contribution =
     \<lparr>fd_factor_id = f, fd_version = ''1.0'', fd_source_type = source, fd_weight = weight, fd_decay_policy = policy,
      fd_maximum_contribution = (case max_contribution of Some m \<Rightarrow> factor_cap m | None \<Rightarrow> factor_cap weight)\<rparr>"

definition max_of :: "rat list \<Rightarrow> rat" where
  "max_of xs = foldl max (hd xs) (tl xs)"

definition FACTOR_REGISTRY :: "factor_def list" where
  "FACTOR_REGISTRY =
     [registered ''RF001_EXTERNAL_ACCESS'' ''behavior_group'' ''half_life'' (factor_weight ''RF001_EXTERNAL_ACCESS'' 12) None,
      registered ''RF002_CREDENTIAL_ACCESS'' ''behavior_group'' ''half_life'' (factor_weight ''RF002_CREDENTIAL_ACCESS'' 14) None,
      registered ''RF003_LATERAL_MOVEMENT'' ''behavior_group'' ''half_life'' (factor_weight ''RF003_LATERAL_MOVEMENT'' 18) None,
      registered ''RF004_PRIVILEGE_ACTIVITY'' ''behavior_group'' ''half_life'' (factor_weight ''RF004_PRIVILEGE_ACTIVITY'' 10) None,
      registered ''RF005_EXECUTION'' ''behavior_group'' ''half_life'' (factor_weight ''RF005_EXECUTION'' 8) None,
      registered ''RF006_MULTI_STAGE_CORRELATION'' ''correlation_finding'' ''half_life''
        (factor_weight ''RF006_MULTI_STAGE_CORRELATION'' 10) (Some (factor_weight ''RF006_MULTI_STAGE_CORRELATION'' 10)),
      registered ''RF007_REPETITION'' ''repeat'' ''none'' (factor_weight ''RF007_REPETITION'' 0)
        (Some (max_of RISK_REPETITION_CURVE)),
      registered ''RF008_RECENCY'' ''recency'' ''none'' (factor_weight ''RF008_RECENCY'' 8)
        (Some (factor_weight ''RF008_RECENCY'' 8)),
      registered ''RF009_ALERT_SEVERITY'' ''alert'' ''half_life'' (factor_weight ''RF009_ALERT_SEVERITY'' 6)
        (Some (max_of (map snd RISK_ALERT_SEVERITY_CONTRIBUTIONS))),
      registered ''RF010_BEHAVIOR_GROUP'' ''behavior_group'' ''half_life'' (factor_weight ''RF010_BEHAVIOR_GROUP'' 10) None,
      registered ''RF011_PERSISTENCE'' ''behavior_group'' ''half_life'' (factor_weight ''RF011_PERSISTENCE'' 10) None,
      registered ''RF012_DEFENSE_EVASION'' ''behavior_group'' ''half_life'' (factor_weight ''RF012_DEFENSE_EVASION'' 8) None,
      registered ''RF013_ENTITY_SPREAD'' ''behavior_group'' ''half_life'' (factor_weight ''RF013_ENTITY_SPREAD'' 8) None,
      registered ''RF014_SOURCE_REPUTATION'' ''reputation'' ''half_life'' (factor_weight ''RF014_SOURCE_REPUTATION'' 0) None]"

definition FACTOR_ID_TYPES :: "(string \<times> string) list" where
  "FACTOR_ID_TYPES =
     [(''RF001_EXTERNAL_ACCESS'', ''EXTERNAL_ACCESS''), (''RF002_CREDENTIAL_ACCESS'', ''CREDENTIAL_ACCESS''),
      (''RF003_LATERAL_MOVEMENT'', ''LATERAL_MOVEMENT''), (''RF004_PRIVILEGE_ACTIVITY'', ''PRIVILEGE_ACTIVITY''),
      (''RF005_EXECUTION'', ''EXECUTION''), (''RF006_MULTI_STAGE_CORRELATION'', ''CORRELATION''),
      (''RF007_REPETITION'', ''ALERT_REPETITION''), (''RF008_RECENCY'', ''RECENCY''),
      (''RF009_ALERT_SEVERITY'', ''ALERT_SEVERITY''), (''RF010_BEHAVIOR_GROUP'', ''BEHAVIOR_GROUP''),
      (''RF011_PERSISTENCE'', ''PERSISTENCE''), (''RF012_DEFENSE_EVASION'', ''DEFENSE_EVASION''),
      (''RF013_ENTITY_SPREAD'', ''ENTITY_SPREAD''), (''RF014_SOURCE_REPUTATION'', ''SOURCE_REPUTATION'')]"

definition get_factor :: "string \<Rightarrow> py_error + factor_def" where
  "get_factor f = (case List.find (\<lambda>d. fd_factor_id d = f) FACTOR_REGISTRY of
     None \<Rightarrow> Inl (KeyError ''unknown risk factor'') | Some d \<Rightarrow> Inr d)"

definition repetition_value :: "nat \<Rightarrow> rat" where
  "repetition_value occurrence =
     RISK_REPETITION_CURVE ! min (occurrence - 2) (length RISK_REPETITION_CURVE - 1)"

section \<open>Techniques\<close>

definition TECHNIQUE_FACTORS :: "(string \<times> string) list" where
  "TECHNIQUE_FACTORS =
     [(''T1021'', ''RF003_LATERAL_MOVEMENT''), (''T1021.001'', ''RF003_LATERAL_MOVEMENT''),
      (''T1021.002'', ''RF003_LATERAL_MOVEMENT''), (''T1570'', ''RF003_LATERAL_MOVEMENT''),
      (''T1059'', ''RF005_EXECUTION''), (''T1059.001'', ''RF005_EXECUTION''), (''T1047'', ''RF005_EXECUTION''),
      (''T1204'', ''RF005_EXECUTION''), (''T1203'', ''RF005_EXECUTION''), (''T1110'', ''RF002_CREDENTIAL_ACCESS''),
      (''T1133'', ''RF001_EXTERNAL_ACCESS''), (''T1190'', ''RF001_EXTERNAL_ACCESS''),
      (''T1078'', ''RF001_EXTERNAL_ACCESS''), (''T1566'', ''RF001_EXTERNAL_ACCESS''),
      (''T1547'', ''RF011_PERSISTENCE''), (''T1543'', ''RF011_PERSISTENCE''), (''T1136'', ''RF011_PERSISTENCE''),
      (''T1053'', ''RF011_PERSISTENCE''), (''T1562'', ''RF012_DEFENSE_EVASION''), (''T1070'', ''RF012_DEFENSE_EVASION''),
      (''T1218'', ''RF012_DEFENSE_EVASION''), (''T1036'', ''RF012_DEFENSE_EVASION''),
      (''T1068'', ''RF004_PRIVILEGE_ACTIVITY''), (''T1548'', ''RF004_PRIVILEGE_ACTIVITY''),
      (''T1134'', ''RF004_PRIVILEGE_ACTIVITY'')]"

definition TECHNIQUE_FACTOR_DESTINATIONS :: "string list" where
  "TECHNIQUE_FACTOR_DESTINATIONS = [''RF001_EXTERNAL_ACCESS'', ''RF003_LATERAL_MOVEMENT'']"

section \<open>External addresses\<close>

definition PRIVATE_PREFIXES :: "string list" where
  "PRIVATE_PREFIXES =
     [''10.'', ''172.16.'', ''172.17.'', ''172.18.'', ''172.19.'', ''172.20.'', ''172.21.'', ''172.22.'', ''172.23.'',
      ''172.24.'', ''172.25.'', ''172.26.'', ''172.27.'', ''172.28.'', ''172.29.'', ''172.30.'', ''172.31.'', ''192.168.'',
      ''169.254.'', ''127.'', ''100.64.'', ''192.0.0.'', ''224.'', ''240.'', ''0.'']"

definition is_external_ip :: "string option \<Rightarrow> bool" where
  "is_external_ip ip = (case ip of None \<Rightarrow> False
     | Some a \<Rightarrow> a \<noteq> [] \<and> \<not> (\<exists>p\<in>set PRIVATE_PREFIXES. starts_with p a))"

section \<open>The pattern of a detector\<close>

text \<open>The pattern of the engine, \<open>f"%({_safe_like(detector)})%"\<close>.\<close>

definition detector_pattern :: "string \<Rightarrow> string" where
  "detector_pattern detector = ''%('' @ safe_like detector @ '')%''"

end
