(* ===== verification/Risk_Calc.thy ===== *)
theory Risk_Calc
  imports Risk_Policy
begin

text \<open>
  The calculator of entity risk (\<open>backend/risk/calculator.py\<close>): a pure function from the
  factor rows of an entity and an instant to the decomposition of its score.  The power
  \<open>0.5 ** x\<close> is computed by the platform's C library, whose rounding Python does not
  specify: it is the argument \<open>pw\<close>.  \<open>half_power pw\<close> states what the proofs need
  of it.
\<close>

section \<open>Data\<close>

datatype risk_val =
    RStr string
  | RInt int
  | RNum rat
  | RBool bool
  | RStrs "string list"
  | RTime time
  | RVal pyval
  | RNone

type_synonym risk_evidence = "(string \<times> risk_val) list"

record calc_factor =
  cx_factor_id :: string
  cx_factor_type :: string
  cx_source_type :: string
  cx_source_id :: string
  cx_value :: rat
  cx_weight :: rat
  cx_origin :: string
  cx_relationship :: "string option"
  cx_created_at :: "time option"
  cx_expires_at :: "time option"
  cx_reason :: string
  cx_evidence :: "risk_evidence option"

record contribution =
  ct_factor_id :: string
  ct_factor_type :: string
  ct_source_type :: string
  ct_source_id :: string
  ct_origin :: string
  ct_value :: rat
  ct_weight :: rat
  ct_decay_factor :: rat
  ct_contribution :: rat
  ct_expired :: bool
  ct_reason :: string
  ct_evidence :: "risk_evidence option"

record decay_adjustment =
  dj_factor_id :: string
  dj_source_id :: string
  dj_original :: rat
  dj_decay_factor :: rat
  dj_adjustment :: rat

record propagation_adjustment =
  pj_factor_id :: string
  pj_source_type :: string
  pj_source_id :: string
  pj_origin :: string
  pj_relationship :: "string option"
  pj_contribution :: rat
  pj_reason :: string

record risk_calculation =
  rc_base_score :: rat
  rc_contributions :: "contribution list"
  rc_decay_adjustments :: "decay_adjustment list"
  rc_propagation_adjustments :: "propagation_adjustment list"
  rc_final_score :: rat
  rc_severity :: string
  rc_state :: string
  rc_confidence :: rat
  rc_model_version :: string
  rc_active :: nat
  rc_count :: nat
  rc_expired :: nat

text \<open>\<open>RiskCalculation.__post_init__\<close>.\<close>

definition check_calculation :: "risk_calculation \<Rightarrow> py_error + risk_calculation" where
  "check_calculation c =
     (if \<not> (0 \<le> rc_final_score c \<and> rc_final_score c \<le> 100) then Inl (ValueError ''risk score must be bounded 0..100'')
      else if rc_severity c \<notin> set RISK_SEVERITIES then Inl (ValueError ''invalid risk severity'')
      else if rc_state c \<notin> set RISK_STATES then Inl (ValueError ''invalid risk state'')
      else Inr c)"

section \<open>Decay, bands and trends\<close>

definition decay_factor :: "(rat \<Rightarrow> rat) \<Rightarrow> rat \<Rightarrow> rat option \<Rightarrow> rat" where
  "decay_factor pw age half_life_hours =
     (let half_life = (case half_life_hours of None \<Rightarrow> RISK_DECAY_HALF_LIFE_HOURS | Some h \<Rightarrow> h) in
      if half_life \<le> 0 then 1 else if age \<le> 0 then 1 else pw (fdiv age half_life))"

definition severity_for :: "rat \<Rightarrow> string" where
  "severity_for score =
     (if RISK_THRESHOLDS ''critical'' \<le> score then ''CRITICAL''
      else if RISK_THRESHOLDS ''high'' \<le> score then ''HIGH''
      else if RISK_THRESHOLDS ''medium'' \<le> score then ''MEDIUM''
      else if RISK_THRESHOLDS ''low'' \<le> score then ''LOW''
      else ''MINIMAL'')"

definition state_for :: "rat \<Rightarrow> string" where
  "state_for score =
     (if RISK_THRESHOLDS ''critical'' \<le> score then ''CRITICAL''
      else if RISK_THRESHOLDS ''medium'' \<le> score then ''HIGH''
      else if RISK_THRESHOLDS ''low'' \<le> score then ''ELEVATED''
      else ''NORMAL'')"

definition list_index :: "'a list \<Rightarrow> 'a \<Rightarrow> nat" where
  "list_index xs x = length (takeWhile (\<lambda>y. y \<noteq> x) xs)"

definition thresholds_crossed :: "rat \<Rightarrow> rat \<Rightarrow> string list" where
  "thresholds_crossed old_score new_score =
     (let old_sev = severity_for old_score; new_sev = severity_for new_score in
      if old_sev = new_sev then []
      else let order = RISK_SEVERITIES; i = list_index order old_sev; j = list_index order new_sev;
               lo = min i j; hi = max i j
           in drop (lo + 1) (take (hi + 1) order))"

definition trend_for :: "rat option \<Rightarrow> rat \<Rightarrow> rat \<Rightarrow> string" where
  "trend_for previous_score current_score delta = (case previous_score of
       None \<Rightarrow> ''UNKNOWN''
     | Some p \<Rightarrow> if delta \<le> fsub current_score p then ''RISING''
         else if delta \<le> fsub p current_score then ''FALLING'' else ''STABLE'')"

section \<open>The calculation\<close>

text \<open>\<open>timedelta.total_seconds()\<close> is the number of microseconds divided by
  \<open>10 ** 6\<close>.\<close>

definition total_seconds :: "time \<Rightarrow> rat" where
  "total_seconds d = fdiv (of_int d) 1000000"

definition evidence_age :: "time \<Rightarrow> time \<Rightarrow> rat" where
  "evidence_age now created = max 0 (fdiv (total_seconds (now - created)) 3600)"

definition factor_expired :: "time \<Rightarrow> calc_factor \<Rightarrow> bool" where
  "factor_expired now f = (case cx_expires_at f of None \<Rightarrow> False | Some e \<Rightarrow> e \<le> now)"

definition factor_decay :: "(rat \<Rightarrow> rat) \<Rightarrow> time \<Rightarrow> calc_factor \<Rightarrow> rat" where
  "factor_decay pw now f = (case cx_created_at f of
       Some c \<Rightarrow> if factor_expired now f then 0 else decay_factor pw (evidence_age now c) None
     | None \<Rightarrow> if factor_expired now f then 0 else 1)"

definition factor_contribution :: "(rat \<Rightarrow> rat) \<Rightarrow> time \<Rightarrow> calc_factor \<Rightarrow> rat" where
  "factor_contribution pw now f = pyround 4 (fmul (fmul (cx_value f) (cx_weight f)) (factor_decay pw now f))"

record calc_acc =
  ac_contributions :: "contribution list"
  ac_decay :: "decay_adjustment list"
  ac_propagation :: "propagation_adjustment list"
  ac_direct :: rat
  ac_contextual :: rat
  ac_active :: nat
  ac_expired :: nat
  ac_total :: nat

definition calc_start :: calc_acc where
  "calc_start = \<lparr>ac_contributions = [], ac_decay = [], ac_propagation = [], ac_direct = 0, ac_contextual = 0,
     ac_active = 0, ac_expired = 0, ac_total = 0\<rparr>"

text \<open>One turn of the loop over the factors.\<close>

definition calc_step :: "(rat \<Rightarrow> rat) \<Rightarrow> time \<Rightarrow> calc_acc \<Rightarrow> calc_factor \<Rightarrow> calc_acc" where
  "calc_step pw now a f =
     (let expired = factor_expired now f; decay = factor_decay pw now f; c = factor_contribution pw now f;
          a1 = a\<lparr>ac_total := ac_total a + 1\<rparr>;
          a2 = (if expired then a1\<lparr>ac_expired := ac_expired a1 + 1\<rparr> else a1\<lparr>ac_active := ac_active a1 + 1\<rparr>);
          a3 = (if cx_origin f = ''CONTEXTUAL''
                then a2\<lparr>ac_contextual := fadd (ac_contextual a2) c,
                        ac_propagation := ac_propagation a2 @ [\<lparr>pj_factor_id = cx_factor_id f,
                          pj_source_type = cx_source_type f, pj_source_id = cx_source_id f, pj_origin = cx_origin f,
                          pj_relationship = cx_relationship f, pj_contribution = c, pj_reason = cx_reason f\<rparr>]\<rparr>
                else a2\<lparr>ac_direct := fadd (ac_direct a2) c\<rparr>);
          a4 = a3\<lparr>ac_contributions := ac_contributions a3 @ [\<lparr>ct_factor_id = cx_factor_id f,
                 ct_factor_type = cx_factor_type f, ct_source_type = cx_source_type f, ct_source_id = cx_source_id f,
                 ct_origin = cx_origin f, ct_value = cx_value f, ct_weight = cx_weight f,
                 ct_decay_factor = pyround 4 decay, ct_contribution = c, ct_expired = expired,
                 ct_reason = cx_reason f, ct_evidence = cx_evidence f\<rparr>]\<rparr>
      in if decay < 1 \<and> \<not> expired
         then a4\<lparr>ac_decay := ac_decay a4 @ [\<lparr>dj_factor_id = cx_factor_id f, dj_source_id = cx_source_id f,
                dj_original = pyround 4 (fmul (cx_value f) (cx_weight f)), dj_decay_factor = pyround 4 decay,
                dj_adjustment = pyround 4 (fmul (fmul (cx_value f) (cx_weight f)) (fsub 1 decay))\<rparr>]\<rparr>
         else a4)"

definition calculate_risk :: "(rat \<Rightarrow> rat) \<Rightarrow> calc_factor list \<Rightarrow> time \<Rightarrow> py_error + risk_calculation" where
  "calculate_risk pw factors now =
     (let a = foldl (calc_step pw now) calc_start factors;
          total = fadd (ac_direct a) (ac_contextual a);
          final_score = pyround 4 (min 100 (max 0 total))
      in check_calculation \<lparr>rc_base_score = pyround 4 (ac_direct a), rc_contributions = ac_contributions a,
           rc_decay_adjustments = ac_decay a, rc_propagation_adjustments = ac_propagation a,
           rc_final_score = final_score, rc_severity = severity_for final_score, rc_state = state_for final_score,
           rc_confidence = (if 0 < total then pyround 4 (fdiv (ac_direct a) total) else 1),
           rc_model_version = ''1.0.0'', rc_active = ac_active a, rc_count = ac_total a, rc_expired = ac_expired a\<rparr>)"

end
