(* ===== verification/Risk_Store.thy ===== *)
theory Risk_Store
  imports Risk_Calc
begin

text \<open>
  The tables of entity risk (\<open>backend/risk/models.py\<close>), its audit trail
  (\<open>backend/risk/audit.py\<close>) and the claims of \<open>backend/risk/engine.py\<close> on them: one
  record per entity, one event per source, one factor per source.  An operation returns
  its error or the new tables; \<open>then_do\<close> and \<open>each_do\<close> run operations in sequence and
  stop at the first error.
\<close>

section \<open>Sequences of operations that may fail\<close>

definition then_do :: "py_error + 'a \<Rightarrow> ('a \<Rightarrow> py_error + 'b) \<Rightarrow> py_error + 'b" where
  "then_do r f = (case r of Inl e \<Rightarrow> Inl e | Inr x \<Rightarrow> f x)"

fun each_do :: "('x \<Rightarrow> 'a \<Rightarrow> py_error + 'a) \<Rightarrow> 'x list \<Rightarrow> 'a \<Rightarrow> py_error + 'a" where
  "each_do f [] a = Inr a"
| "each_do f (x # xs) a = then_do (f x a) (each_do f xs)"

named_theorems results "when an operation returns"

lemma then_do_simps [simp]: "then_do (Inr x) f = f x" "then_do (Inl e) f = Inl e"
  by (simp_all add: then_do_def)

lemma then_do_Inr [results]: "then_do r f = Inr y \<longleftrightarrow> (\<exists>x. r = Inr x \<and> f x = Inr y)"
  by (cases r) (simp_all add: then_do_def)

lemma each_do_inv:
  assumes "each_do f xs a = Inr b" and "P a"
    and "\<And>x a b. x \<in> set xs \<Longrightarrow> P a \<Longrightarrow> f x a = Inr b \<Longrightarrow> P b"
  shows "P b"
  using assms
proof (induction xs arbitrary: a)
  case (Cons x xs)
  then obtain a1 where "f x a = Inr a1" "each_do f xs a1 = Inr b" by (auto simp: results)
  with Cons.IH [of a1] Cons.prems(2,3) show ?case by (meson list.set_intros)
qed simp

lemma each_do_total:
  assumes "P a" and "\<And>x a. x \<in> set xs \<Longrightarrow> P a \<Longrightarrow> \<exists>b. f x a = Inr b \<and> P b"
  shows "\<exists>b. each_do f xs a = Inr b \<and> P b"
  using assms
proof (induction xs arbitrary: a)
  case (Cons x xs)
  then obtain a1 where "f x a = Inr a1" "P a1" by (meson list.set_intros(1))
  with Cons.IH [of a1] Cons.prems(2) show ?case by (auto)
qed simp

section \<open>Tables\<close>

record risk_row =
  rk_id :: nat
  rk_risk_id :: string
  rk_entity_type :: string
  rk_entity_id :: string
  rk_entity_name :: string
  rk_score :: rat
  rk_severity :: string
  rk_state :: string
  rk_confidence :: rat
  rk_trend :: string
  rk_peak_score :: rat
  rk_peak_at :: "time option"
  rk_first_seen :: time
  rk_last_seen :: time
  rk_last_calculated :: "time option"
  rk_active_factors :: nat
  rk_evidence_count :: nat
  rk_alert_count :: int
  rk_group_count :: int
  rk_correlation_count :: int
  rk_model_version :: string
  rk_created_at :: time
  rk_updated_at :: time

record risk_event =
  re_risk_id :: string
  re_kind :: string
  re_source_type :: string
  re_source_id :: string
  re_seen_at :: time
  re_summary :: string
  re_captured_at :: time

record risk_factor =
  rf_risk_id :: string
  rf_factor_id :: string
  rf_factor_type :: string
  rf_version :: string
  rf_source_type :: string
  rf_source_id :: string
  rf_value :: rat
  rf_weight :: rat
  rf_contribution :: rat
  rf_reason :: string
  rf_evidence :: "risk_evidence option"
  rf_origin :: string
  rf_propagation_from :: "string option"
  rf_relationship :: "string option"
  rf_created_at :: time
  rf_expires_at :: "time option"
  rf_expired_at :: "time option"

record risk_snapshot =
  rs_risk_id :: string
  rs_score :: rat
  rs_severity :: string
  rs_state :: string
  rs_trend :: string
  rs_factor_count :: nat
  rs_evidence_count :: nat
  rs_model_version :: string
  rs_captured_at :: time

record risk_audit_row =
  ra_risk_id :: string
  ra_action :: string
  ra_actor :: string
  ra_details :: "risk_evidence option"
  ra_old_score :: "rat option"
  ra_new_score :: "rat option"
  ra_old_state :: "string option"
  ra_new_state :: "string option"
  ra_model_version :: string
  ra_created_at :: time

record risk_db =
  rdb_risks :: "risk_row list"
  rdb_seq :: nat
  rdb_events :: "risk_event list"
  rdb_factors :: "risk_factor list"
  rdb_snapshots :: "risk_snapshot list"
  rdb_audit :: "risk_audit_row list"

definition empty_risk_db :: risk_db where
  "empty_risk_db = \<lparr>rdb_risks = [], rdb_seq = 0, rdb_events = [], rdb_factors = [], rdb_snapshots = [], rdb_audit = []\<rparr>"

section \<open>Audit\<close>

definition risk_audit_record ::
  "string \<Rightarrow> string \<Rightarrow> string \<Rightarrow> risk_evidence option \<Rightarrow> rat option \<Rightarrow> rat option \<Rightarrow> string option \<Rightarrow> string option
    \<Rightarrow> time \<Rightarrow> risk_db \<Rightarrow> risk_db" where
  "risk_audit_record rid action actor details old_score new_score old_state new_state now db =
     db\<lparr>rdb_audit := rdb_audit db @ [\<lparr>ra_risk_id = rid, ra_action = action, ra_actor = actor, ra_details = details,
        ra_old_score = old_score, ra_new_score = new_score, ra_old_state = old_state, ra_new_state = new_state,
        ra_model_version = RISK_MODEL_VERSION, ra_created_at = now\<rparr>]\<rparr>"

text \<open>A note is an audit row without scores and states.\<close>

abbreviation risk_note :: "string \<Rightarrow> string \<Rightarrow> string \<Rightarrow> risk_evidence \<Rightarrow> time \<Rightarrow> risk_db \<Rightarrow> risk_db" where
  "risk_note rid action actor details now db \<equiv>
     risk_audit_record rid action actor (Some details) None None None None now db"

section \<open>Risk records\<close>

definition risk_public_id :: "nat \<Rightarrow> string" where
  "risk_public_id n = ''ER-'' @ fmt06 n"

lemma risk_public_id_inj [simp]: "risk_public_id m = risk_public_id n \<longleftrightarrow> m = n"
  by (simp add: risk_public_id_def)

definition risk_for_entity :: "risk_db \<Rightarrow> string \<Rightarrow> string \<Rightarrow> risk_row option" where
  "risk_for_entity db type eid = List.find (\<lambda>r. rk_entity_type r = type \<and> rk_entity_id r = eid) (rdb_risks db)"

definition risk_of :: "risk_db \<Rightarrow> string \<Rightarrow> risk_row option" where
  "risk_of db rid = List.find (\<lambda>r. rk_risk_id r = rid) (rdb_risks db)"

definition set_risk :: "string \<Rightarrow> (risk_row \<Rightarrow> risk_row) \<Rightarrow> risk_db \<Rightarrow> risk_db" where
  "set_risk rid f db = db\<lparr>rdb_risks := map (\<lambda>r. if rk_risk_id r = rid then f r else r) (rdb_risks db)\<rparr>"

text \<open>The row of a new entity, with the defaults of the columns the \<open>INSERT\<close> leaves out.\<close>

definition new_risk :: "string \<Rightarrow> string \<Rightarrow> string \<Rightarrow> string \<Rightarrow> time \<Rightarrow> risk_row" where
  "new_risk rid type eid name now =
     \<lparr>rk_id = 0, rk_risk_id = rid, rk_entity_type = type, rk_entity_id = eid, rk_entity_name = name, rk_score = 0,
      rk_severity = ''MINIMAL'', rk_state = ''NORMAL'', rk_confidence = 1, rk_trend = ''UNKNOWN'', rk_peak_score = 0,
      rk_peak_at = None, rk_first_seen = now, rk_last_seen = 0, rk_last_calculated = None, rk_active_factors = 0,
      rk_evidence_count = 0, rk_alert_count = 0, rk_group_count = 0, rk_correlation_count = 0,
      rk_model_version = ''1.0.0'', rk_created_at = now, rk_updated_at = now\<rparr>"

text \<open>One sequence feeds the public id and the primary key: \<open>next_risk_id\<close> takes one
  number, the \<open>INSERT\<close> takes another one even when it conflicts.  A conflict on the
  entity inserts nothing; a public id in use raises inside the savepoint, which is
  swallowed.\<close>

definition try_insert_risk :: "risk_row \<Rightarrow> risk_db \<Rightarrow> risk_db" where
  "try_insert_risk r db =
     (let n = Suc (rdb_seq db); db1 = db\<lparr>rdb_seq := n\<rparr> in
      if \<exists>q\<in>set (rdb_risks db). rk_entity_type q = rk_entity_type r \<and> rk_entity_id q = rk_entity_id r then db1
      else if \<exists>q\<in>set (rdb_risks db). rk_risk_id q = rk_risk_id r then db1
      else db1\<lparr>rdb_risks := rdb_risks db @ [r\<lparr>rk_id := n\<rparr>]\<rparr>)"

fun claim_risk :: "nat \<Rightarrow> string \<Rightarrow> string \<Rightarrow> string \<Rightarrow> time \<Rightarrow> risk_db \<Rightarrow> py_error + risk_db \<times> string" where
  "claim_risk 0 type eid name now db = Inl (RuntimeError ''risk get-or-create could not claim a row'')"
| "claim_risk (Suc attempts) type eid name now db =
     (let n = Suc (rdb_seq db); claim_id = risk_public_id n;
          db1 = try_insert_risk (new_risk claim_id type eid name now) (db\<lparr>rdb_seq := n\<rparr>)
      in case risk_for_entity db1 type eid of
           None \<Rightarrow> claim_risk attempts type eid name now db1
         | Some r \<Rightarrow>
             if rk_risk_id r = claim_id
             then Inr (risk_note claim_id ''RISK_CREATED'' ''system''
                    [(''entity_type'', RStr type), (''entity_id'', RStr eid)] now
                    (set_risk claim_id (\<lambda>r. r\<lparr>rk_first_seen := min (rk_first_seen r) now\<rparr>) db1), claim_id)
             else Inr (db1, rk_risk_id r))"

text \<open>\<open>get_or_create_risk\<close> returns the row; here its public id.  The gate in front of
  the production database is checked once, by the operations of the engine.\<close>

definition get_or_create_risk :: "string \<Rightarrow> string \<Rightarrow> string \<Rightarrow> time \<Rightarrow> risk_db \<Rightarrow> py_error + risk_db \<times> string" where
  "get_or_create_risk type eid name now db =
     (if type \<notin> set ENTITY_TYPES then Inl (ValueError ''invalid entity type'')
      else if eid = [] then Inl (ValueError ''entity_id must not be empty'')
      else claim_risk 5 type eid (if name = [] then eid else name) now db)"

section \<open>Events and factors\<close>

definition event_key :: "risk_event \<Rightarrow> string \<times> string \<times> string" where
  "event_key e = (re_risk_id e, re_source_type e, re_source_id e)"

definition log_event :: "string \<Rightarrow> string \<Rightarrow> string \<Rightarrow> string \<Rightarrow> time \<Rightarrow> string \<Rightarrow> time \<Rightarrow> risk_db \<Rightarrow> risk_db" where
  "log_event rid kind source_type source_id seen summary now db =
     (let e = \<lparr>re_risk_id = rid, re_kind = kind, re_source_type = source_type, re_source_id = source_id,
               re_seen_at = seen, re_summary = summary, re_captured_at = now\<rparr>
      in if \<exists>q\<in>set (rdb_events db). event_key q = event_key e then db
         else db\<lparr>rdb_events := rdb_events db @ [e]\<rparr>)"

definition factor_key :: "risk_factor \<Rightarrow> string \<times> string \<times> string \<times> string" where
  "factor_key f = (rf_risk_id f, rf_factor_id f, rf_source_type f, rf_source_id f)"

text \<open>The arguments of \<open>_add_factor\<close> that most callers leave at their defaults.\<close>

record factor_args =
  fa_reason :: string
  fa_evidence :: "risk_evidence option"
  fa_origin :: string
  fa_propagation_from :: "string option"
  fa_relationship :: "string option"
  fa_expires_at :: "time option"
  fa_observed :: "time option"

definition direct_args :: "string \<Rightarrow> risk_evidence \<Rightarrow> time option \<Rightarrow> time option \<Rightarrow> factor_args" where
  "direct_args reason evidence expires observed =
     \<lparr>fa_reason = reason, fa_evidence = Some evidence, fa_origin = ''DIRECT'', fa_propagation_from = None,
      fa_relationship = None, fa_expires_at = expires, fa_observed = observed\<rparr>"

definition new_factor :: "string \<Rightarrow> factor_def \<Rightarrow> string \<Rightarrow> string \<Rightarrow> rat \<Rightarrow> factor_args \<Rightarrow> time \<Rightarrow> risk_factor" where
  "new_factor rid d source_type source_id v a now =
     \<lparr>rf_risk_id = rid, rf_factor_id = fd_factor_id d, rf_factor_type = the (map_of FACTOR_ID_TYPES (fd_factor_id d)),
      rf_version = fd_version d, rf_source_type = source_type, rf_source_id = source_id, rf_value = v, rf_weight = 1,
      rf_contribution = pyround 4 (min (fmul v 1) (fd_maximum_contribution d)), rf_reason = fa_reason a,
      rf_evidence = fa_evidence a, rf_origin = fa_origin a, rf_propagation_from = fa_propagation_from a,
      rf_relationship = fa_relationship a, rf_created_at = now_or now (fa_observed a),
      rf_expires_at = fa_expires_at a, rf_expired_at = None\<rparr>"

definition insert_factor :: "risk_factor \<Rightarrow> risk_db \<Rightarrow> risk_db" where
  "insert_factor f db = (if \<exists>q\<in>set (rdb_factors db). factor_key q = factor_key f then db
     else db\<lparr>rdb_factors := rdb_factors db @ [f]\<rparr>)"

text \<open>The callers ignore the boolean that \<open>_add_factor\<close> returns; it is true exactly when
  the audit row is written.\<close>

definition add_factor ::
  "string \<Rightarrow> string \<Rightarrow> string \<Rightarrow> string \<Rightarrow> rat \<Rightarrow> factor_args \<Rightarrow> time \<Rightarrow> risk_db \<Rightarrow> py_error + risk_db" where
  "add_factor rid factor source_type source_id v a now db =
     then_do (get_factor factor) (\<lambda>d.
       let f = new_factor rid d source_type source_id v a now; db1 = insert_factor f db in
       case List.find (\<lambda>q. factor_key q = factor_key f) (rdb_factors db1) of
         None \<Rightarrow> Inl (RuntimeError ''risk factor get-or-create returned no row'')
       | Some q \<Rightarrow>
           if rf_created_at q = now
           then Inr (risk_note rid ''FACTOR_ADDED'' ''system''
                  [(''factor_id'', RStr factor), (''source_type'', RStr source_type), (''source_id'', RStr source_id),
                   (''contribution'', RNum (min (fmul v 1) (fd_maximum_contribution d))), (''origin'', RStr (fa_origin a))]
                  now db1)
           else Inr db1)"

definition factor_expiry :: "time \<Rightarrow> time option" where
  "factor_expiry observed = Some (observed + hours RISK_FACTOR_EXPIRES_HOURS)"

end
