(* ===== verification/Risk_Engine.thy ===== *)
theory Risk_Engine
  imports Risk_Store Sql_Like "HOL-Library.AList"
begin

text \<open>
  The entity risk engine (\<open>backend/risk/engine.py\<close>): recency and expiry of factors,
  recalculation of a record, and the ingestion of alerts, behavior groups, findings and
  contextual propagation.  \<open>env\<close> is what a call takes from outside: the configuration,
  the power of the calculator, and the duration the \<open>n\<close>-th audit row measures.
\<close>

record risk_env =
  en_config :: engine_config
  en_power :: "rat \<Rightarrow> rat"
  en_took :: "nat \<Rightarrow> rat"

section \<open>Evidence\<close>

text \<open>One record for the keys the three kinds of evidence read from their dict;
  None is a missing key.\<close>

record risk_item =
  it_kind :: "string option"
  it_severity :: "string option"
  it_first_seen :: "time option"
  it_last_seen :: "time option"
  it_detector_id :: "string option"
  it_rule :: "string option"
  it_alert_id :: "string option"
  it_source_id :: "string option"
  it_host :: "string option"
  it_user :: "string option"
  it_source_ip :: "string option"
  it_destination_ip :: "string option"
  it_account :: "string option"
  it_process :: "string option"
  it_technique :: "string option"
  it_group_id :: "string option"
  it_behavior_group_id :: "string option"
  it_techniques :: "string list"
  it_hosts :: "string list"
  it_users :: "string list"
  it_source_ips :: "string list"
  it_destination_ips :: "string list"
  it_external_source :: bool
  it_alert_count :: int
  it_correlation_id :: "string option"
  it_finding_id :: "string option"
  it_correlation_type :: "string option"
  it_confidence :: pyval
  it_member_group_ids :: "string list option"

text \<open>\<open>a or b or \<dots> or "default"\<close>.\<close>

fun first_of :: "string option list \<Rightarrow> string \<Rightarrow> string" where
  "first_of [] d = d"
| "first_of (None # xs) d = first_of xs d"
| "first_of (Some s # xs) d = (if s = [] then first_of xs d else s)"

definition time_or :: "time option \<Rightarrow> time option \<Rightarrow> time \<Rightarrow> time" where
  "time_or a b d = (case a of Some t \<Rightarrow> t | None \<Rightarrow> (case b of Some t \<Rightarrow> t | None \<Rightarrow> d))"

definition item_severity :: "risk_item \<Rightarrow> string" where
  "item_severity i = py_lower (case it_severity i of None \<Rightarrow> ''low'' | Some s \<Rightarrow> s)"

definition tier_value :: "risk_item \<Rightarrow> rat" where
  "tier_value i = get_or RISK_ALERT_SEVERITY_CONTRIBUTIONS (item_severity i) 1"

definition opt_str :: "string option \<Rightarrow> risk_val" where
  "opt_str s = (case s of None \<Rightarrow> RNone | Some x \<Rightarrow> RStr x)"

definition weight_of :: "string \<Rightarrow> rat" where
  "weight_of f = the (map_of RISK_FACTOR_WEIGHTS f)"

section \<open>Recency and expiry\<close>

definition recency_key :: "string \<Rightarrow> risk_factor \<Rightarrow> bool" where
  "recency_key rid f \<longleftrightarrow> rf_risk_id f = rid \<and> rf_factor_id f = ''RF008_RECENCY'' \<and> rf_source_type f = ''recency''"

definition set_factor :: "risk_factor \<Rightarrow> (risk_factor \<Rightarrow> risk_factor) \<Rightarrow> risk_db \<Rightarrow> risk_db" where
  "set_factor g f db = db\<lparr>rdb_factors := map (\<lambda>q. if factor_key q = factor_key g then f q else q) (rdb_factors db)\<rparr>"

definition renewed :: "time \<Rightarrow> risk_factor \<Rightarrow> risk_factor" where
  "renewed seen f = f\<lparr>rf_value := weight_of ''RF008_RECENCY'', rf_weight := 1, rf_expired_at := None,
     rf_created_at := min (rf_created_at f) seen\<rparr>"

definition lapsed :: "time \<Rightarrow> risk_factor \<Rightarrow> risk_factor" where
  "lapsed now f = f\<lparr>rf_expired_at := Some now, rf_expires_at := Some now\<rparr>"

definition is_recent :: "time \<Rightarrow> risk_row \<Rightarrow> bool" where
  "is_recent now r \<longleftrightarrow> now - rk_last_seen r \<le> hours RISK_RECENCY_BONUS_HOURS"

definition recency_args :: "risk_row \<Rightarrow> factor_args" where
  "recency_args r = direct_args ''recent activity keeps the risk current''
     [(''last_seen'', RTime (rk_last_seen r)), (''window_hours'', RInt RISK_RECENCY_BONUS_HOURS)]
     None (Some (rk_last_seen r))"

definition refresh_recency :: "risk_row \<Rightarrow> time \<Rightarrow> risk_db \<Rightarrow> py_error + risk_db" where
  "refresh_recency r now db =
     (case List.find (recency_key (rk_risk_id r)) (rdb_factors db) of
        None \<Rightarrow>
          if is_recent now r
          then add_factor (rk_risk_id r) ''RF008_RECENCY'' ''recency'' ''activity'' (weight_of ''RF008_RECENCY'')
                 (recency_args r) now db
          else Inr db
      | Some f \<Rightarrow>
          if is_recent now r then Inr (set_factor f (renewed (rk_last_seen r)) db)
          else if rf_expired_at f = None
          then Inr (risk_note (rk_risk_id r) ''FACTOR_EXPIRED'' ''system''
                 [(''factor_id'', RStr ''RF008_RECENCY''), (''source_id'', RStr ''activity'')] now
                 (set_factor f (lapsed now) db))
          else Inr db)"

definition due :: "time \<Rightarrow> risk_factor \<Rightarrow> bool" where
  "due now f \<longleftrightarrow> (case rf_expires_at f of None \<Rightarrow> False | Some e \<Rightarrow> e \<le> now) \<and> rf_expired_at f = None"

definition expire_row :: "time \<Rightarrow> string \<Rightarrow> risk_factor \<Rightarrow> risk_db \<Rightarrow> risk_db" where
  "expire_row now actor f db =
     risk_note (rf_risk_id f) ''FACTOR_EXPIRED'' actor
       [(''factor_id'', RStr (rf_factor_id f)), (''source_type'', RStr (rf_source_type f)), (''source_id'', RStr (rf_source_id f))]
       now (set_factor f (\<lambda>q. q\<lparr>rf_expired_at := Some now\<rparr>) db)"

definition expire_factors :: "risk_env \<Rightarrow> time \<Rightarrow> string \<Rightarrow> risk_db \<Rightarrow> py_error + risk_db \<times> nat" where
  "expire_factors env now actor db =
     then_do (ensure_not_production_db ''risk'' (en_config env)) (\<lambda>_.
       let rows = filter (due now) (rdb_factors db) in
       Inr (foldl (\<lambda>d f. expire_row now actor f d) db rows, length rows))"

section \<open>Recalculation\<close>

definition factor_dict :: "risk_factor \<Rightarrow> calc_factor" where
  "factor_dict f = \<lparr>cx_factor_id = rf_factor_id f, cx_factor_type = rf_factor_type f, cx_source_type = rf_source_type f,
     cx_source_id = rf_source_id f, cx_value = rf_value f, cx_weight = rf_weight f, cx_origin = rf_origin f,
     cx_relationship = None, cx_created_at = Some (rf_created_at f), cx_expires_at = rf_expires_at f,
     cx_reason = rf_reason f, cx_evidence = rf_evidence f\<rparr>"

definition factors_of :: "risk_db \<Rightarrow> string \<Rightarrow> risk_factor list" where
  "factors_of db rid = filter (\<lambda>f. rf_risk_id f = rid) (rdb_factors db)"

definition snapshots_of :: "risk_db \<Rightarrow> string \<Rightarrow> risk_snapshot list" where
  "snapshots_of db rid = filter (\<lambda>s. rs_risk_id s = rid) (rdb_snapshots db)"

definition previous_score :: "risk_db \<Rightarrow> string \<Rightarrow> rat option" where
  "previous_score db rid = (case rev (snapshots_of db rid) of [] \<Rightarrow> None | s # _ \<Rightarrow> Some (rs_score s))"

definition is_stale :: "time \<Rightarrow> risk_row \<Rightarrow> bool" where
  "is_stale now r \<longleftrightarrow> (case rk_last_calculated r of None \<Rightarrow> False
     | Some t \<Rightarrow> minutes RISK_STALE_AFTER_MINUTES < now - t \<and> 0 < rk_score r)"

definition recalculated :: "risk_calculation \<Rightarrow> string \<Rightarrow> string \<Rightarrow> time \<Rightarrow> risk_row \<Rightarrow> risk_row" where
  "recalculated c state trend now r =
     (let r1 = r\<lparr>rk_score := rc_final_score c, rk_severity := rc_severity c, rk_state := state,
                rk_confidence := rc_confidence c, rk_trend := trend, rk_active_factors := rc_active c,
                rk_model_version := rc_model_version c, rk_last_calculated := Some now, rk_updated_at := now\<rparr>
      in if rk_peak_score r1 \<le> rc_final_score c
         then r1\<lparr>rk_peak_score := rc_final_score c, rk_peak_at := Some now\<rparr> else r1)"

definition audit_when :: "bool \<Rightarrow> (risk_db \<Rightarrow> risk_db) \<Rightarrow> risk_db \<Rightarrow> risk_db" where
  "audit_when b f db = (if b then f db else db)"

text \<open>From the calculation on: the row and its snapshot, then the audit rows.  \<open>r\<close> is the
  row as it was read at the start.\<close>

definition put_calculation :: "risk_row \<Rightarrow> risk_calculation \<Rightarrow> string \<Rightarrow> time \<Rightarrow> risk_db \<Rightarrow> risk_db" where
  "put_calculation r c trend now db =
     (let rid = rk_risk_id r; state = (if is_stale now r then ''STALE'' else rc_state c);
          db1 = set_risk rid (recalculated c state trend now) db
      in db1\<lparr>rdb_snapshots := rdb_snapshots db1 @ [\<lparr>rs_risk_id = rid, rs_score = rc_final_score c,
           rs_severity = rc_severity c, rs_state = rc_state c, rs_trend = trend, rs_factor_count = rc_count c,
           rs_evidence_count = rk_evidence_count r, rs_model_version = rc_model_version c, rs_captured_at = now\<rparr>]\<rparr>)"

definition store_calculation ::
  "rat \<Rightarrow> risk_row \<Rightarrow> risk_calculation \<Rightarrow> string \<Rightarrow> time \<Rightarrow> string \<Rightarrow> risk_db \<Rightarrow> risk_db" where
  "store_calculation took r c trend now actor db =
     (let rid = rk_risk_id r; state = (if is_stale now r then ''STALE'' else rc_state c);
          crossed = thresholds_crossed (rk_score r) (rc_final_score c);
          db1 = risk_audit_record rid ''RISK_RECALCULATED'' actor
                  (Some [(''base_score'', RNum (rc_base_score c)), (''factor_count'', RInt (int (rc_count c))),
                         (''expired_factor_count'', RInt (int (rc_expired c))), (''duration_ms'', RNum took)])
                  (Some (rk_score r)) (Some (rc_final_score c)) (Some (rk_state r)) (Some state) now
                  (put_calculation r c trend now db);
          db2 = audit_when (state \<noteq> rk_state r)
                  (risk_audit_record rid ''RISK_STATE_CHANGED'' actor None None None (Some (rk_state r)) (Some state) now) db1
      in audit_when (crossed \<noteq> [])
           (risk_audit_record rid ''RISK_THRESHOLD_CROSSED'' actor (Some [(''severities'', RStrs crossed)])
              (Some (rk_score r)) (Some (rc_final_score c)) None None now) db2)"

definition recalculate_entity :: "risk_env \<Rightarrow> string \<Rightarrow> time \<Rightarrow> string \<Rightarrow> risk_db \<Rightarrow> py_error + risk_db" where
  "recalculate_entity env rid now actor db =
     (case risk_of db rid of
        None \<Rightarrow> Inl (ValueError ''unknown risk id'')
      | Some r \<Rightarrow>
          then_do (refresh_recency r now db) (\<lambda>db1.
          then_do (calculate_risk (en_power env) (map factor_dict (factors_of db1 rid)) now) (\<lambda>c.
            Inr (store_calculation (en_took env (length (rdb_audit db1))) r c
                   (trend_for (previous_score db1 rid) (rc_final_score c) RISK_TREND_DELTA) now actor db1))))"

definition recalculate_each :: "risk_env \<Rightarrow> time \<Rightarrow> string \<Rightarrow> string list \<Rightarrow> risk_db \<Rightarrow> py_error + risk_db" where
  "recalculate_each env now actor rids db = each_do (\<lambda>rid. recalculate_entity env rid now actor) rids db"

definition recalculate_all :: "risk_env \<Rightarrow> time \<Rightarrow> string \<Rightarrow> risk_db \<Rightarrow> py_error + risk_db \<times> nat" where
  "recalculate_all env now actor db =
     then_do (ensure_not_production_db ''risk'' (en_config env)) (\<lambda>_.
     then_do (recalculate_each env now actor (map rk_risk_id (rdb_risks db)) db) (\<lambda>db1.
       Inr (db1, length (rdb_risks db))))"

definition manual_recalculate :: "risk_env \<Rightarrow> string \<Rightarrow> time \<Rightarrow> string \<Rightarrow> risk_db \<Rightarrow> py_error + risk_db" where
  "manual_recalculate env rid now actor db = recalculate_entity env rid now actor db"

definition failure_boundary :: "string \<Rightarrow> string \<Rightarrow> time \<Rightarrow> risk_db \<Rightarrow> risk_db" where
  "failure_boundary rid error now db =
     risk_note rid ''RISK_CALCULATION_FAILED'' ''system'' [(''error'', RStr (take 500 error))] now db"

section \<open>Alerts\<close>

definition alert_entities :: "risk_item \<Rightarrow> (string \<times> string) list" where
  "alert_entities i = concat (map (\<lambda>(v, ty). case v of None \<Rightarrow> [] | Some s \<Rightarrow> if s = [] then [] else [(ty, s)])
     [(it_host i, ''HOST''), (it_user i, ''USER''), (it_source_ip i, ''SOURCE_IP''),
      (it_destination_ip i, ''DESTINATION_IP''), (it_account i, ''ACCOUNT''), (it_process i, ''PROCESS'')])"

definition alert_detector :: "risk_item \<Rightarrow> string" where
  "alert_detector i = first_of [it_detector_id i, it_rule i] ''unknown''"

definition alert_source :: "risk_item \<Rightarrow> string" where
  "alert_source i = first_of [it_alert_id i, it_source_id i] ''alert''"

definition alert_observed :: "risk_item \<Rightarrow> time \<Rightarrow> time" where
  "alert_observed i now = time_or (it_first_seen i) (it_last_seen i) now"

definition alert_summary :: "risk_item \<Rightarrow> string" where
  "alert_summary i = item_severity i @ '' severity alert '' @ alert_source i @ '' ('' @ alert_detector i @ '')''"

definition occurrences :: "risk_db \<Rightarrow> string \<Rightarrow> string \<Rightarrow> nat" where
  "occurrences db rid detector = length (filter (\<lambda>e. re_risk_id e = rid \<and> re_kind e = ''ALERT''
     \<and> like (detector_pattern detector) (re_summary e)) (rdb_events db))"

definition repetition_factor :: "risk_item \<Rightarrow> time \<Rightarrow> string \<Rightarrow> risk_db \<Rightarrow> py_error + risk_db" where
  "repetition_factor i now rid db =
     (let detector = alert_detector i; occurrence = occurrences db rid detector; k = dec occurrence in
      if 2 \<le> occurrence
      then add_factor rid ''RF007_REPETITION'' ''alert'' (''repeat:'' @ detector @ '':'' @ k) (repetition_value occurrence)
             (direct_args (''repeated identical '' @ detector @ '' evidence on the entity (occurrence '' @ k @ '')'')
                [(''alert_id'', RStr (alert_source i)), (''detector_id'', RStr detector), (''occurrence'', RInt (int occurrence)),
                 (''curve_index'', RInt (int (min (occurrence - 2) (length RISK_REPETITION_CURVE - 1))))]
                None (Some (alert_observed i now))) now db
      else Inr db)"

definition tier_args :: "string \<Rightarrow> risk_evidence \<Rightarrow> time \<Rightarrow> factor_args" where
  "tier_args reason evidence observed = direct_args reason evidence (factor_expiry observed) (Some observed)"

definition alert_on_entity ::
  "risk_item \<Rightarrow> time \<Rightarrow> string \<times> string \<Rightarrow> risk_db \<times> string list \<Rightarrow> py_error + risk_db \<times> string list" where
  "alert_on_entity i now target s =
     (let observed = alert_observed i now; sev = item_severity i in
      then_do (get_or_create_risk (fst target) (snd target) '''' now (fst s)) (\<lambda>(db1, rid).
      then_do (add_factor rid ''RF009_ALERT_SEVERITY'' ''alert'' (''tier:'' @ sev) (tier_value i)
                 (tier_args (sev @ '' severity alert on the entity'')
                    [(''alert_id'', RStr (alert_source i)), (''detector_id'', RStr (alert_detector i)),
                     (''severity'', RStr sev), (''technique'', opt_str (it_technique i))] observed) now
                 (set_risk rid (\<lambda>r. r\<lparr>rk_last_seen := max (rk_last_seen r) observed, rk_alert_count := rk_alert_count r + 1\<rparr>)
                    (log_event rid ''ALERT'' ''alert'' (alert_source i) observed (alert_summary i) now db1))) (\<lambda>db2.
      then_do (repetition_factor i now rid db2) (\<lambda>db3. Inr (db3, snd s @ [rid])))))"

definition apply_alert :: "risk_env \<Rightarrow> risk_item \<Rightarrow> time \<Rightarrow> string \<Rightarrow> risk_db \<Rightarrow> py_error + risk_db \<times> string list" where
  "apply_alert env i now actor db =
     then_do (ensure_not_production_db ''risk'' (en_config env)) (\<lambda>_.
     then_do (each_do (alert_on_entity i now) (alert_entities i) (db, [])) (\<lambda>(db1, affected).
     then_do (recalculate_each env now actor (uniq_first affected) db1) (\<lambda>db2. Inr (db2, uniq_first affected))))"

section \<open>Behavior groups\<close>

definition item_group_id :: "risk_item \<Rightarrow> string" where
  "item_group_id i = first_of [it_group_id i, it_behavior_group_id i] ''group''"

definition group_members :: "risk_item \<Rightarrow> (string \<times> string) list" where
  "group_members i = map (\<lambda>h. (''HOST'', h)) (it_hosts i) @ map (\<lambda>u. (''USER'', u)) (it_users i)
     @ map (\<lambda>s. (''SOURCE_IP'', s)) (it_source_ips i) @ map (\<lambda>d. (''DESTINATION_IP'', d)) (it_destination_ips i)"

definition group_external :: "risk_item \<Rightarrow> bool" where
  "group_external i \<longleftrightarrow> it_external_source i \<or> (\<exists>s\<in>set (it_source_ips i). is_external_ip (Some s))"

definition group_observed :: "risk_item \<Rightarrow> time \<Rightarrow> time" where
  "group_observed i now = time_or (it_last_seen i) (it_first_seen i) now"

type_synonym target_ids = "(string \<times> string) list"

definition collect_member ::
  "time \<Rightarrow> string \<times> string \<Rightarrow> risk_db \<times> ((string \<times> string) \<times> string) list \<times> target_ids
    \<Rightarrow> py_error + risk_db \<times> ((string \<times> string) \<times> string) list \<times> target_ids" where
  "collect_member now m s = (case s of (db, members, hosts) \<Rightarrow>
     then_do (get_or_create_risk (fst m) (snd m) '''' now db) (\<lambda>(db1, rid).
       Inr (db1, AList.update m rid members, if fst m = ''HOST'' then AList.update (snd m) rid hosts else hosts)))"

definition group_basis :: "risk_item \<Rightarrow> (string \<times> risk_val) list \<Rightarrow> risk_evidence" where
  "group_basis i extra = (''group_id'', RStr (item_group_id i)) # extra @ [(''alert_count'', RInt (it_alert_count i))]"

definition membership :: "risk_item \<Rightarrow> time \<Rightarrow> (string \<times> string) \<times> string \<Rightarrow> risk_db \<Rightarrow> py_error + risk_db" where
  "membership i now m db = (case m of ((ty, eid), rid) \<Rightarrow>
     let gid = item_group_id i; observed = group_observed i now in
     add_factor rid ''RF010_BEHAVIOR_GROUP'' ''behavior_group'' gid (weight_of ''RF010_BEHAVIOR_GROUP'')
       (tier_args (''member of behavior group '' @ gid)
          (group_basis i [] @ [(''techniques'', RStrs (it_techniques i))]) observed) now
       (set_risk rid (\<lambda>r. r\<lparr>rk_last_seen := max (rk_last_seen r) observed,
            rk_group_count := rk_group_count r + (if ty = ''HOST'' then 1 else 0),
            rk_alert_count := rk_alert_count r + it_alert_count i\<rparr>)
          (log_event rid ''BEHAVIOR_GROUP'' ''behavior_group'' gid observed
             (''group '' @ gid @ '' ('' @ py_str (VInt (it_alert_count i)) @ '' alerts, '' @ dec (length (it_techniques i))
              @ '' techniques)'') now db)))"

text \<open>The risk records of the destinations a technique reaches; the dict of target hosts
  grows and is kept for the techniques that follow.\<close>

definition reach_destination :: "time \<Rightarrow> string \<Rightarrow> risk_db \<times> target_ids \<Rightarrow> py_error + risk_db \<times> target_ids" where
  "reach_destination now d s =
     (if map_of (snd s) d \<noteq> None then Inr s
      else then_do (get_or_create_risk ''HOST'' d '''' now (fst s)) (\<lambda>(db1, rid). Inr (db1, snd s @ [(d, rid)])))"

definition technique_on :: "risk_item \<Rightarrow> time \<Rightarrow> string \<Rightarrow> string \<Rightarrow> rat \<Rightarrow> string \<Rightarrow> risk_db \<Rightarrow> py_error + risk_db" where
  "technique_on i now technique factor v rid db =
     add_factor rid factor ''behavior_group'' (item_group_id i) v
       (tier_args (technique @ '' activity involving the entity (group '' @ item_group_id i @ '')'')
          (group_basis i [(''technique'', RStr technique)]) (group_observed i now)) now db"

definition apply_technique :: "risk_item \<Rightarrow> time \<Rightarrow> string \<Rightarrow> risk_db \<times> target_ids \<Rightarrow> py_error + risk_db \<times> target_ids" where
  "apply_technique i now technique s = (case map_of TECHNIQUE_FACTORS technique of
       None \<Rightarrow> Inr s
     | Some factor \<Rightarrow>
         let v = get_or RISK_FACTOR_WEIGHTS factor 0 in
         if v \<le> 0 then Inr s
         else then_do (if factor \<in> set TECHNIQUE_FACTOR_DESTINATIONS
                       then each_do (reach_destination now) (it_destination_ips i) s else Inr s) (\<lambda>s1.
              then_do (each_do (technique_on i now technique factor v) (map snd (snd s1)) (fst s1)) (\<lambda>db2.
                Inr (db2, snd s1))))"

definition tier_on_host :: "risk_item \<Rightarrow> time \<Rightarrow> string \<Rightarrow> risk_db \<Rightarrow> py_error + risk_db" where
  "tier_on_host i now rid db =
     add_factor rid ''RF009_ALERT_SEVERITY'' ''alert'' (''tier:'' @ item_severity i) (tier_value i)
       (tier_args (item_severity i @ '' severity behavior group on the entity'')
          (group_basis i [(''severity'', RStr (item_severity i))]) (group_observed i now)) now db"

definition external_on ::
  "risk_item \<Rightarrow> time \<Rightarrow> string \<Rightarrow> risk_db \<times> target_ids \<Rightarrow> py_error + risk_db \<times> target_ids" where
  "external_on i now d s =
     then_do (reach_destination now d s) (\<lambda>(db1, targets).
       let rid = the (map_of targets d); observed = group_observed i now in
       then_do (add_factor rid ''RF001_EXTERNAL_ACCESS'' ''behavior_group'' (item_group_id i) (weight_of ''RF001_EXTERNAL_ACCESS'')
                  (tier_args (''external source activity targeting the entity (group '' @ item_group_id i @ '')'')
                     [(''group_id'', RStr (item_group_id i)), (''external_source'', RBool True),
                      (''sources'', RStrs (it_source_ips i))] observed) now
                  (set_risk rid (\<lambda>r. r\<lparr>rk_last_seen := max (rk_last_seen r) observed\<rparr>) db1)) (\<lambda>db2.
         Inr (db2, targets)))"

definition apply_group :: "risk_env \<Rightarrow> risk_item \<Rightarrow> time \<Rightarrow> string \<Rightarrow> risk_db \<Rightarrow> py_error + risk_db \<times> string list" where
  "apply_group env i now actor db =
     then_do (ensure_not_production_db ''risk'' (en_config env)) (\<lambda>_.
     then_do (each_do (collect_member now) (group_members i) (db, [], [])) (\<lambda>(db1, members, hosts).
     then_do (each_do (membership i now) members db1) (\<lambda>db2.
     then_do (each_do (apply_technique i now) (it_techniques i) (db2, hosts)) (\<lambda>(db3, targets3).
     then_do (if 0 < tier_value i then each_do (tier_on_host i now) (map snd hosts) db3 else Inr db3) (\<lambda>db4.
     then_do (if group_external i then each_do (external_on i now) (it_destination_ips i) (db4, targets3)
              else Inr (db4, targets3)) (\<lambda>(db5, targets5).
     then_do (recalculate_each env now actor (map snd members) db5) (\<lambda>db6.
     then_do (recalculate_each env now actor (filter (\<lambda>rid. rid \<notin> set (map snd members)) (map snd targets5)) db6) (\<lambda>db7.
       Inr (db7, uniq_first (map snd members))))))))))"

section \<open>Spread over several groups\<close>

definition spread_members :: "risk_item \<Rightarrow> (string \<times> string) list" where
  "spread_members i = map (\<lambda>h. (''HOST'', h)) (it_hosts i) @ map (\<lambda>u. (''USER'', u)) (it_users i)
     @ map (\<lambda>s. (''SOURCE_IP'', s)) (it_source_ips i)"

definition spread_groups :: "risk_item list \<Rightarrow> string \<times> string \<Rightarrow> string list" where
  "spread_groups gs m = uniq_first (map item_group_id (filter (\<lambda>g. m \<in> set (spread_members g)) gs))"

definition spread_on :: "risk_env \<Rightarrow> risk_item list \<Rightarrow> time \<Rightarrow> string \<times> string \<Rightarrow> risk_db \<Rightarrow> py_error + risk_db" where
  "spread_on env gs now m db =
     (let ids = spread_groups gs m; n = dec (length ids) in
      if length ids < 3 then Inr db
      else then_do (get_or_create_risk (fst m) (snd m) '''' now db) (\<lambda>(db1, rid).
           then_do (add_factor rid ''RF013_ENTITY_SPREAD'' ''behavior_group'' (''spread:'' @ n)
                      (weight_of ''RF013_ENTITY_SPREAD'')
                      (direct_args (''entity is a member of '' @ n @ '' behavior groups'')
                         [(''group_ids'', RStrs (pyset ids))] (factor_expiry now) None) now db1) (\<lambda>db2.
             recalculate_entity env rid now ''system'' db2)))"

definition apply_spread :: "risk_env \<Rightarrow> risk_item list \<Rightarrow> time \<Rightarrow> risk_db \<Rightarrow> py_error + risk_db" where
  "apply_spread env gs now db = each_do (spread_on env gs now) (uniq_first (concat (map spread_members gs))) db"

definition grouped ::
  "(risk_item \<Rightarrow> risk_db \<Rightarrow> py_error + risk_db \<times> string list) \<Rightarrow> risk_item \<Rightarrow> risk_db \<times> string list
    \<Rightarrow> py_error + risk_db \<times> string list" where
  "grouped f i s = then_do (f i (fst s)) (\<lambda>(db1, rids). Inr (db1, snd s @ rids))"

definition apply_groups :: "risk_env \<Rightarrow> risk_item list \<Rightarrow> time \<Rightarrow> string \<Rightarrow> risk_db \<Rightarrow> py_error + risk_db \<times> string list" where
  "apply_groups env gs now actor db =
     then_do (ensure_not_production_db ''risk'' (en_config env)) (\<lambda>_.
     then_do (each_do (grouped (\<lambda>i. apply_group env i now actor)) gs (db, [])) (\<lambda>(db1, affected).
     then_do (apply_spread env gs now db1) (\<lambda>db2. Inr (db2, uniq_first affected))))"

section \<open>Findings and propagation\<close>

definition finding_source :: "risk_item \<Rightarrow> string" where
  "finding_source i = first_of [it_correlation_id i, it_finding_id i] ''finding''"

definition finding_on ::
  "risk_item \<Rightarrow> time \<Rightarrow> string \<times> string \<Rightarrow> risk_db \<times> string list \<Rightarrow> py_error + risk_db \<times> string list" where
  "finding_on i now m s =
     (let fid = finding_source i; observed = group_observed i now in
      then_do (get_or_create_risk (fst m) (snd m) '''' now (fst s)) (\<lambda>(db1, rid).
      then_do (add_factor rid ''RF006_MULTI_STAGE_CORRELATION'' ''correlation_finding'' fid
                 (weight_of ''RF006_MULTI_STAGE_CORRELATION'')
                 (tier_args (''entity participates in correlated sequence '' @ fid)
                    [(''correlation_id'', RStr fid), (''correlation_type'', opt_str (it_correlation_type i)),
                     (''confidence'', RVal (it_confidence i)),
                     (''member_group_ids'', case it_member_group_ids i of None \<Rightarrow> RNone | Some ms \<Rightarrow> RStrs ms)] observed) now
                 (set_risk rid (\<lambda>r. r\<lparr>rk_last_seen := max (rk_last_seen r) observed,
                       rk_correlation_count := rk_correlation_count r + 1\<rparr>)
                    (log_event rid ''CORRELATION_FINDING'' ''correlation_finding'' fid observed
                       (''finding '' @ fid @ '' ('' @ (case it_correlation_type i of None \<Rightarrow> [] | Some t \<Rightarrow> t) @ '')'') now db1)))
        (\<lambda>db2. Inr (db2, snd s @ [rid]))))"

definition apply_finding :: "risk_env \<Rightarrow> risk_item \<Rightarrow> time \<Rightarrow> string \<Rightarrow> risk_db \<Rightarrow> py_error + risk_db \<times> string list" where
  "apply_finding env i now actor db =
     then_do (ensure_not_production_db ''risk'' (en_config env)) (\<lambda>_.
     then_do (each_do (finding_on i now) (spread_members i) (db, [])) (\<lambda>(db1, affected).
     then_do (recalculate_each env now actor (uniq_first affected) db1) (\<lambda>db2. Inr (db2, uniq_first affected))))"

definition apply_propagation ::
  "risk_env \<Rightarrow> string \<Rightarrow> string \<Rightarrow> string \<Rightarrow> string \<Rightarrow> risk_evidence \<Rightarrow> string \<Rightarrow> time \<Rightarrow> string \<Rightarrow> risk_db
    \<Rightarrow> py_error + risk_db \<times> string" where
  "apply_propagation env type eid from_entity relationship evidence reason now actor db =
     then_do (ensure_not_production_db ''risk'' (en_config env)) (\<lambda>_.
       let v = get_or RISK_PROPAGATION_WEIGHTS relationship 0 in
       if v \<le> 0 then Inl (ValueError ''unknown propagation relationship'')
       else then_do (get_or_create_risk type eid '''' now db) (\<lambda>(db1, rid).
            then_do (add_factor rid ''RF006_MULTI_STAGE_CORRELATION'' ''propagation'' (relationship @ '':'' @ from_entity) v
                       \<lparr>fa_reason = str_or reason (''contextual propagation from '' @ from_entity @ '' ('' @ relationship @ '')''),
                        fa_evidence = Some evidence, fa_origin = ''CONTEXTUAL'', fa_propagation_from = Some from_entity,
                        fa_relationship = Some relationship,
                        fa_expires_at = Some (now + hours RISK_PROPAGATION_EXPIRES_HOURS), fa_observed = None\<rparr> now
                       (set_risk rid (\<lambda>r. r\<lparr>rk_last_seen := max (rk_last_seen r) now\<rparr>) db1)) (\<lambda>db2.
            then_do (recalculate_entity env rid now actor db2) (\<lambda>db3. Inr (db3, rid)))))"

section \<open>Typed batches\<close>

definition ingest_one :: "risk_env \<Rightarrow> time \<Rightarrow> string \<Rightarrow> risk_item \<Rightarrow> risk_db \<Rightarrow> py_error + risk_db \<times> string list" where
  "ingest_one env now actor i db = (case it_kind i of
       None \<Rightarrow> Inl (ValueError ''invalid evidence kind'')
     | Some k \<Rightarrow>
         if k \<notin> set EVIDENCE_KINDS then Inl (ValueError ''invalid evidence kind'')
         else if k = ''ALERT'' then apply_alert env i now actor db
         else if k = ''BEHAVIOR_GROUP'' then apply_group env i now actor db
         else if k = ''CORRELATION_FINDING'' then apply_finding env i now actor db
         else apply_alert env i now actor db)"

definition ingest_evidence ::
  "risk_env \<Rightarrow> risk_item list \<Rightarrow> time \<Rightarrow> string \<Rightarrow> risk_db \<Rightarrow> py_error + risk_db \<times> string list" where
  "ingest_evidence env evidence now actor db =
     then_do (ensure_not_production_db ''risk'' (en_config env)) (\<lambda>_.
     then_do (each_do (grouped (ingest_one env now actor)) evidence (db, [])) (\<lambda>(db1, affected).
       Inr (db1, uniq_first affected)))"

end
