(* ===== verification/Risk_Score.thy ===== *)
theory Risk_Score
  imports Risk_Calc
begin

text \<open>
  What the score of an entity is: the closed form of the calculator's loop, the bounds of
  the score and the confidence, and how the score moves when evidence is added or time
  passes.
\<close>

section \<open>The law of the power\<close>

definition half_power :: "(rat \<Rightarrow> rat) \<Rightarrow> bool" where
  "half_power pw \<longleftrightarrow> (\<forall>x y. 0 \<le> x \<longrightarrow> x \<le> y \<longrightarrow> 0 \<le> pw y \<and> pw y \<le> pw x \<and> pw x \<le> 1)
     \<and> (\<forall>n\<le>1022. pw (of_nat n) = 1 / 2 ^ n)"

lemma half_powerD:
  "half_power pw \<Longrightarrow> 0 \<le> x \<Longrightarrow> 0 \<le> pw x \<and> pw x \<le> 1"
  "half_power pw \<Longrightarrow> 0 \<le> x \<Longrightarrow> x \<le> y \<Longrightarrow> pw y \<le> pw x"
  "half_power pw \<Longrightarrow> n \<le> 1022 \<Longrightarrow> pw (of_nat n) = 1 / 2 ^ n"
  unfolding half_power_def by blast+

text \<open>An instance, for the concrete examples: the power of the whole number below.\<close>

definition floor_power :: "rat \<Rightarrow> rat" where
  "floor_power x = 1 / 2 ^ nat \<lfloor>x\<rfloor>"

lemma floor_power_half: "half_power floor_power"
proof -
  have "floor_power y \<le> floor_power x" if "x \<le> y" for x y
  proof -
    have "nat \<lfloor>x\<rfloor> \<le> nat \<lfloor>y\<rfloor>" using that by (intro nat_mono floor_mono)
    then have "(2 :: rat) ^ nat \<lfloor>x\<rfloor> \<le> 2 ^ nat \<lfloor>y\<rfloor>" by (intro power_increasing) auto
    then show ?thesis unfolding floor_power_def by (intro divide_left_mono) auto
  qed
  moreover have "floor_power x \<le> 1" for x
    unfolding floor_power_def by (simp add: divide_le_eq)
  moreover have "0 \<le> floor_power x" for x
    unfolding floor_power_def by simp
  ultimately show ?thesis unfolding half_power_def by (auto simp: floor_power_def)
qed

section \<open>Decay\<close>

lemma evidence_age_nonneg: "0 \<le> evidence_age now c"
  by (simp add: evidence_age_def)

lemma evidence_age_mono: "now \<le> later \<Longrightarrow> evidence_age now c \<le> evidence_age later c"
  unfolding evidence_age_def total_seconds_def fdiv_def
  by (intro max.mono order_refl fl_mono divide_right_mono) auto

lemma decay_factor_default:
  "decay_factor pw age None = (if age \<le> 0 then 1 else pw (fdiv age 24))"
  by (simp add: decay_factor_def RISK_DECAY_HALF_LIFE_HOURS_def)

lemma decay_unit: "half_power pw \<Longrightarrow> 0 \<le> decay_factor pw a None \<and> decay_factor pw a None \<le> 1"
proof (cases "a \<le> 0")
  case False
  assume h: "half_power pw"
  have "0 \<le> fdiv a 24" unfolding fdiv_def using False by (intro fl_nonneg) simp
  with half_powerD(1) [OF h this] False show ?thesis by (simp add: decay_factor_default)
qed (simp add: decay_factor_default)

lemma decay_antimono: "half_power pw \<Longrightarrow> a \<le> b \<Longrightarrow> decay_factor pw b None \<le> decay_factor pw a None"
proof (cases "a \<le> 0")
  case True
  assume h: "half_power pw"
  then show ?thesis using True decay_unit [OF h, of b] by (simp add: decay_factor_default)
next
  case False
  assume h: "half_power pw" and ab: "a \<le> b"
  have "0 \<le> fdiv a 24" unfolding fdiv_def using False by (intro fl_nonneg) simp
  moreover have "fdiv a 24 \<le> fdiv b 24" unfolding fdiv_def using ab by (intro fl_mono) simp
  ultimately show ?thesis using half_powerD(2) [OF h] False ab by (simp add: decay_factor_default)
qed

lemma factor_decay_unit: "half_power pw \<Longrightarrow> 0 \<le> factor_decay pw now f \<and> factor_decay pw now f \<le> 1"
  using decay_unit by (auto simp: factor_decay_def split: option.splits)

lemma factor_expired_mono: "now \<le> later \<Longrightarrow> factor_expired now f \<Longrightarrow> factor_expired later f"
  by (auto simp: factor_expired_def split: option.splits)

lemma factor_decay_antimono:
  assumes h: "half_power pw" and t: "now \<le> later"
  shows "factor_decay pw later f \<le> factor_decay pw now f"
proof (cases "factor_expired later f")
  case True
  then have "factor_decay pw later f = 0" by (simp add: factor_decay_def split: option.splits)
  then show ?thesis using factor_decay_unit [OF h] by simp
next
  case False
  then have "\<not> factor_expired now f" using factor_expired_mono [OF t] by blast
  with False show ?thesis
    using decay_antimono [OF h evidence_age_mono [OF t]] by (simp add: factor_decay_def split: option.splits)
qed

section \<open>Contributions\<close>

definition positive_factor :: "calc_factor \<Rightarrow> bool" where
  "positive_factor f \<longleftrightarrow> 0 \<le> cx_value f \<and> 0 \<le> cx_weight f"

lemma fmul_nonneg: "0 \<le> a \<Longrightarrow> 0 \<le> b \<Longrightarrow> 0 \<le> fmul a b"
  unfolding fmul_def by (intro fl_nonneg mult_nonneg_nonneg)

lemma fmul_mono: "a \<le> b \<Longrightarrow> c \<le> d \<Longrightarrow> 0 \<le> b \<Longrightarrow> 0 \<le> c \<Longrightarrow> fmul a c \<le> fmul b d"
  unfolding fmul_def by (intro fl_mono mult_mono)

lemma pyround_nonneg: "0 \<le> x \<Longrightarrow> 0 \<le> pyround n x"
  using pyround_mono [of 0 x n] by simp

lemma contribution_nonneg: "half_power pw \<Longrightarrow> positive_factor f \<Longrightarrow> 0 \<le> factor_contribution pw now f"
  unfolding factor_contribution_def positive_factor_def
  by (intro pyround_nonneg fmul_nonneg) (simp_all add: factor_decay_unit)

lemma contribution_antimono:
  "half_power pw \<Longrightarrow> positive_factor f \<Longrightarrow> now \<le> later \<Longrightarrow> factor_contribution pw later f \<le> factor_contribution pw now f"
  unfolding factor_contribution_def positive_factor_def
  by (intro pyround_mono fmul_mono fmul_nonneg) (simp_all add: factor_decay_unit factor_decay_antimono)

section \<open>The two sums and the score\<close>

definition contextual :: "calc_factor \<Rightarrow> bool" where
  "contextual f \<longleftrightarrow> cx_origin f = ''CONTEXTUAL''"

definition partial_sum :: "(rat \<Rightarrow> rat) \<Rightarrow> time \<Rightarrow> (calc_factor \<Rightarrow> bool) \<Rightarrow> calc_factor list \<Rightarrow> rat" where
  "partial_sum pw now P fs = foldl fadd 0 (map (factor_contribution pw now) (filter P fs))"

definition direct_sum where "direct_sum pw now fs = partial_sum pw now (\<lambda>f. \<not> contextual f) fs"
definition context_sum where "context_sum pw now fs = partial_sum pw now contextual fs"

definition risk_total :: "(rat \<Rightarrow> rat) \<Rightarrow> time \<Rightarrow> calc_factor list \<Rightarrow> rat" where
  "risk_total pw now fs = fadd (direct_sum pw now fs) (context_sum pw now fs)"

definition risk_score :: "(rat \<Rightarrow> rat) \<Rightarrow> time \<Rightarrow> calc_factor list \<Rightarrow> rat" where
  "risk_score pw now fs = pyround 4 (min 100 (max 0 (risk_total pw now fs)))"

lemma partial_sum_Nil [simp]: "partial_sum pw now P [] = 0"
  by (simp add: partial_sum_def)

lemma partial_sum_snoc:
  "partial_sum pw now P (fs @ [f]) =
     (if P f then fadd (partial_sum pw now P fs) (factor_contribution pw now f) else partial_sum pw now P fs)"
  by (simp add: partial_sum_def)

lemma fl_partial_sum [simp]: "fl (partial_sum pw now P fs) = partial_sum pw now P fs"
  by (induction fs rule: rev_induct) (simp_all add: partial_sum_snoc fadd_def)

lemma partial_sum_nonneg:
  "half_power pw \<Longrightarrow> \<forall>f\<in>set fs. positive_factor f \<Longrightarrow> 0 \<le> partial_sum pw now P fs"
  by (induction fs rule: rev_induct) (simp_all add: partial_sum_snoc fadd_nonneg contribution_nonneg)

lemma partial_sum_antimono:
  "half_power pw \<Longrightarrow> \<forall>f\<in>set fs. positive_factor f \<Longrightarrow> now \<le> later \<Longrightarrow>
   partial_sum pw later P fs \<le> partial_sum pw now P fs"
  by (induction fs rule: rev_induct) (simp_all add: partial_sum_snoc fadd_mono contribution_antimono)

lemma partial_sum_grows:
  assumes "half_power pw" "positive_factor f"
  shows "partial_sum pw now P fs \<le> partial_sum pw now P (fs @ [f])"
proof (cases "P f")
  case True
  have "fadd (partial_sum pw now P fs) 0 \<le> fadd (partial_sum pw now P fs) (factor_contribution pw now f)"
    using contribution_nonneg [OF assms] by (intro fadd_mono) auto
  with True show ?thesis by (simp add: partial_sum_snoc fadd_def)
qed (simp add: partial_sum_snoc)

lemma score_mono: "a \<le> b \<Longrightarrow> pyround 4 (min 100 (max 0 a)) \<le> pyround 4 (min 100 (max 0 b))"
  by (intro pyround_mono) auto

lemma pyround_100 [simp]: "pyround n 100 = 100"
  using pyround_int [of 100 n] by simp

lemma risk_score_bounds: "0 \<le> risk_score pw now fs" "risk_score pw now fs \<le> 100"
  unfolding risk_score_def
  using pyround_mono [of 0 "min 100 (max 0 (risk_total pw now fs))" 4]
    pyround_mono [of "min 100 (max 0 (risk_total pw now fs))" 100 4] by simp_all

section \<open>The loop computes them\<close>

lemma calc_step_fields:
  "ac_direct (calc_step pw now a f) = (if contextual f then ac_direct a else fadd (ac_direct a) (factor_contribution pw now f))"
  "ac_contextual (calc_step pw now a f) = (if contextual f then fadd (ac_contextual a) (factor_contribution pw now f) else ac_contextual a)"
  "ac_total (calc_step pw now a f) = ac_total a + 1"
  "ac_expired (calc_step pw now a f) = ac_expired a + (if factor_expired now f then 1 else 0)"
  "ac_active (calc_step pw now a f) = ac_active a + (if factor_expired now f then 0 else 1)"
  by (simp_all add: calc_step_def Let_def contextual_def)

lemma calc_step_lists:
  "map ct_contribution (ac_contributions (calc_step pw now a f)) = map ct_contribution (ac_contributions a) @ [factor_contribution pw now f]"
  "map pj_contribution (ac_propagation (calc_step pw now a f)) =
     map pj_contribution (ac_propagation a) @ (if contextual f then [factor_contribution pw now f] else [])"
  by (simp_all add: calc_step_def Let_def contextual_def)

lemma calc_start_fields:
  "ac_direct calc_start = 0" "ac_contextual calc_start = 0" "ac_total calc_start = 0" "ac_expired calc_start = 0"
  "ac_active calc_start = 0" "ac_contributions calc_start = []" "ac_propagation calc_start = []"
  by (simp_all add: calc_start_def)

lemma calc_fold_all:
  "ac_direct (foldl (calc_step pw now) calc_start fs) = direct_sum pw now fs
   \<and> ac_contextual (foldl (calc_step pw now) calc_start fs) = context_sum pw now fs
   \<and> ac_total (foldl (calc_step pw now) calc_start fs) = length fs
   \<and> ac_expired (foldl (calc_step pw now) calc_start fs) = length (filter (factor_expired now) fs)
   \<and> ac_active (foldl (calc_step pw now) calc_start fs) = length (filter (\<lambda>f. \<not> factor_expired now f) fs)
   \<and> map ct_contribution (ac_contributions (foldl (calc_step pw now) calc_start fs)) = map (factor_contribution pw now) fs
   \<and> map pj_contribution (ac_propagation (foldl (calc_step pw now) calc_start fs))
       = map (factor_contribution pw now) (filter contextual fs)"
proof (induction fs rule: rev_induct)
  case Nil
  show ?case by (simp add: calc_start_fields direct_sum_def context_sum_def)
next
  case (snoc f fs)
  then show ?case
    by (simp add: calc_step_fields calc_step_lists direct_sum_def context_sum_def partial_sum_snoc)
qed

lemmas calc_fold = calc_fold_all [THEN conjunct1] calc_fold_all [THEN conjunct2, THEN conjunct1]
  calc_fold_all [THEN conjunct2, THEN conjunct2, THEN conjunct1]
  calc_fold_all [THEN conjunct2, THEN conjunct2, THEN conjunct2, THEN conjunct1]
  calc_fold_all [THEN conjunct2, THEN conjunct2, THEN conjunct2, THEN conjunct2, THEN conjunct1]
  calc_fold_all [THEN conjunct2, THEN conjunct2, THEN conjunct2, THEN conjunct2, THEN conjunct2, THEN conjunct1]
  calc_fold_all [THEN conjunct2, THEN conjunct2, THEN conjunct2, THEN conjunct2, THEN conjunct2, THEN conjunct2]

lemma severity_for_valid: "severity_for s \<in> set RISK_SEVERITIES"
  by (simp add: severity_for_def RISK_SEVERITIES_def)

lemma state_for_valid: "state_for s \<in> set RISK_STATES"
  by (simp add: state_for_def RISK_STATES_def)

lemma check_calculation_ok:
  "0 \<le> rc_final_score c \<Longrightarrow> rc_final_score c \<le> 100 \<Longrightarrow> rc_severity c \<in> set RISK_SEVERITIES \<Longrightarrow>
   rc_state c \<in> set RISK_STATES \<Longrightarrow> check_calculation c = Inr c"
  by (simp add: check_calculation_def)

text \<open>The result, before \<open>__post_init__\<close> looks at it, and its fields.\<close>

definition calculation :: "(rat \<Rightarrow> rat) \<Rightarrow> calc_factor list \<Rightarrow> time \<Rightarrow> risk_calculation" where
  "calculation pw fs now =
     (let a = foldl (calc_step pw now) calc_start fs in
      \<lparr>rc_base_score = pyround 4 (direct_sum pw now fs), rc_contributions = ac_contributions a,
       rc_decay_adjustments = ac_decay a, rc_propagation_adjustments = ac_propagation a,
       rc_final_score = risk_score pw now fs, rc_severity = severity_for (risk_score pw now fs),
       rc_state = state_for (risk_score pw now fs),
       rc_confidence = (if 0 < risk_total pw now fs
         then pyround 4 (fdiv (direct_sum pw now fs) (risk_total pw now fs)) else 1),
       rc_model_version = RISK_MODEL_VERSION, rc_active = length (filter (\<lambda>f. \<not> factor_expired now f) fs),
       rc_count = length fs, rc_expired = length (filter (factor_expired now) fs)\<rparr>)"

lemma calculation_fields [simp]:
  "rc_final_score (calculation pw fs now) = risk_score pw now fs"
  "rc_base_score (calculation pw fs now) = pyround 4 (direct_sum pw now fs)"
  "rc_severity (calculation pw fs now) = severity_for (risk_score pw now fs)"
  "rc_state (calculation pw fs now) = state_for (risk_score pw now fs)"
  "rc_confidence (calculation pw fs now) = (if 0 < risk_total pw now fs
     then pyround 4 (fdiv (direct_sum pw now fs) (risk_total pw now fs)) else 1)"
  "rc_count (calculation pw fs now) = length fs"
  "rc_expired (calculation pw fs now) = length (filter (factor_expired now) fs)"
  "rc_active (calculation pw fs now) = length (filter (\<lambda>f. \<not> factor_expired now f) fs)"
  "map ct_contribution (rc_contributions (calculation pw fs now)) = map (factor_contribution pw now) fs"
  "map pj_contribution (rc_propagation_adjustments (calculation pw fs now))
     = map (factor_contribution pw now) (filter contextual fs)"
  "rc_model_version (calculation pw fs now) = RISK_MODEL_VERSION"
  by (simp_all add: calculation_def Let_def calc_fold)

lemma calculate_risk_total: "calculate_risk pw fs now = Inr (calculation pw fs now)"
proof -
  have "calculate_risk pw fs now = check_calculation (calculation pw fs now)"
    by (simp only: calculate_risk_def calculation_def Let_def calc_fold risk_score_def risk_total_def RISK_MODEL_VERSION_def)
  also have "\<dots> = Inr (calculation pw fs now)"
    by (rule check_calculation_ok) (simp_all add: risk_score_bounds severity_for_valid state_for_valid)
  finally show ?thesis .
qed

end
