(* ===== verification/Risk_Writes.thy ===== *)
theory Risk_Writes
  imports Risk_Engine Risk_Score
begin

text \<open>
  Every operation of the engine is a sequence of a few writes to the tables:
  \<open>risk_write\<close> lists them, and the lemmas show for each operation that it performs nothing
  else.  What the writes preserve, every operation preserves.
\<close>

section \<open>The writes\<close>

definition known :: "risk_db \<Rightarrow> string \<Rightarrow> bool" where
  "known db rid \<longleftrightarrow> rid \<in> rk_risk_id ` set (rdb_risks db)"

inductive risk_write :: "risk_db \<Rightarrow> risk_db \<Rightarrow> bool" where
  noted: "known db rid \<Longrightarrow> risk_write db (risk_audit_record rid action actor details s s' st st' now db)"
| logged: "known db rid \<Longrightarrow> risk_write db (log_event rid kind sty sid seen summary now db)"
| contributed: "known db rid \<Longrightarrow> get_factor factor = Inr d \<Longrightarrow> 0 \<le> v \<Longrightarrow> v \<le> fd_maximum_contribution d \<Longrightarrow>
    risk_write db (insert_factor (new_factor rid d sty sid v a now) db)"
| claimed: "type \<in> set ENTITY_TYPES \<Longrightarrow> eid \<noteq> [] \<Longrightarrow>
    risk_write db (try_insert_risk (new_risk (risk_public_id (Suc (rdb_seq db))) type eid name now)
      (db\<lparr>rdb_seq := Suc (rdb_seq db)\<rparr>))"
| first_seen: "risk_write db (set_risk rid (\<lambda>r. r\<lparr>rk_first_seen := min (rk_first_seen r) now\<rparr>) db)"
| evidence: "risk_write db (set_risk rid (\<lambda>r. r\<lparr>rk_last_seen := max (rk_last_seen r) seen,
    rk_alert_count := rk_alert_count r + a, rk_group_count := rk_group_count r + g,
    rk_correlation_count := rk_correlation_count r + c\<rparr>) db)"
| renewing: "recency_key rid f \<Longrightarrow> risk_write db (set_factor f (renewed seen) db)"
| lapsing: "recency_key rid f \<Longrightarrow> risk_write db (set_factor f (lapsed now) db)"
| expiring: "risk_write db (set_factor f (\<lambda>q. q\<lparr>rf_expired_at := Some now\<rparr>) db)"
| calculated: "risk_of db rid = Some r \<Longrightarrow>
    calculate_risk pw (map factor_dict (factors_of db rid)) now = Inr c \<Longrightarrow>
    trend = trend_for (previous_score db rid) (rc_final_score c) RISK_TREND_DELTA \<Longrightarrow>
    risk_write db (put_calculation r c trend now db)"

abbreviation risk_writes :: "risk_db \<Rightarrow> risk_db \<Rightarrow> bool" where
  "risk_writes \<equiv> risk_write\<^sup>*\<^sup>*"

section \<open>Registered values stay under their cap\<close>

lemma registry_weights: "\<forall>d\<in>set FACTOR_REGISTRY. 0 \<le> weight_of (fd_factor_id d)
    \<and> weight_of (fd_factor_id d) \<le> fd_maximum_contribution d \<and> fd_maximum_contribution d \<le> 25"
  unfolding FACTOR_REGISTRY_def
  by (simp add: registered_def factor_weight_def get_or_def RISK_FACTOR_WEIGHTS_def weight_of_def factor_cap_def
      RISK_MAX_FACTOR_CONTRIBUTION_def max_of_def RISK_REPETITION_CURVE_def RISK_ALERT_SEVERITY_CONTRIBUTIONS_def)

lemma get_factorD: "get_factor f = Inr d \<Longrightarrow> d \<in> set FACTOR_REGISTRY \<and> fd_factor_id d = f"
  by (auto simp: get_factor_def split: option.splits dest: find_SomeD)

lemma weight_within: "get_factor f = Inr d \<Longrightarrow> 0 \<le> weight_of f \<and> weight_of f \<le> fd_maximum_contribution d"
  using registry_weights get_factorD by blast

lemma caps:
  "get_factor ''RF006_MULTI_STAGE_CORRELATION'' = Inr d \<Longrightarrow> fd_maximum_contribution d = 10"
  "get_factor ''RF007_REPETITION'' = Inr d \<Longrightarrow> fd_maximum_contribution d = 15"
  "get_factor ''RF009_ALERT_SEVERITY'' = Inr d \<Longrightarrow> fd_maximum_contribution d = 8"
  by (auto simp: get_factor_def FACTOR_REGISTRY_def registered_def factor_weight_def get_or_def RISK_FACTOR_WEIGHTS_def
      factor_cap_def RISK_MAX_FACTOR_CONTRIBUTION_def max_of_def RISK_REPETITION_CURVE_def
      RISK_ALERT_SEVERITY_CONTRIBUTIONS_def)

lemma tier_value_bounds: "0 < tier_value i" "tier_value i \<le> 8"
  by (auto simp: tier_value_def get_or_def RISK_ALERT_SEVERITY_CONTRIBUTIONS_def split: option.splits if_splits)

lemma repetition_bounds: "0 \<le> repetition_value n" "repetition_value n \<le> 15"
proof -
  have "repetition_value n \<in> set RISK_REPETITION_CURVE"
    unfolding repetition_value_def by (intro nth_mem) (simp add: RISK_REPETITION_CURVE_def)
  then show "0 \<le> repetition_value n" "repetition_value n \<le> 15" by (auto simp: RISK_REPETITION_CURVE_def)
qed

lemma propagation_bounds: "get_or RISK_PROPAGATION_WEIGHTS s 0 \<le> 10"
  by (auto simp: get_or_def RISK_PROPAGATION_WEIGHTS_def split: option.splits if_splits)

lemma technique_weight:
  "map_of TECHNIQUE_FACTORS t = Some f \<Longrightarrow> get_or RISK_FACTOR_WEIGHTS f 0 = weight_of f"
  by (drule map_of_SomeD)
    (auto simp: TECHNIQUE_FACTORS_def get_or_def weight_of_def RISK_FACTOR_WEIGHTS_def)

section \<open>Records are never removed\<close>

definition row_key :: "risk_row \<Rightarrow> nat \<times> string \<times> string \<times> string" where
  "row_key r = (rk_id r, rk_risk_id r, rk_entity_type r, rk_entity_id r)"

lemma row_key_eqD: "row_key r = row_key q \<Longrightarrow> rk_id r = rk_id q \<and> rk_risk_id r = rk_risk_id q
    \<and> rk_entity_type r = rk_entity_type q \<and> rk_entity_id r = rk_entity_id q"
  by (simp add: row_key_def)

lemma set_risk_keys:
  "(\<And>r. row_key (f r) = row_key r) \<Longrightarrow> map row_key (rdb_risks (set_risk i f db)) = map row_key (rdb_risks db)"
  by (simp add: set_risk_def)

lemma recalculated_key: "row_key (recalculated c state trend now r) = row_key r"
  by (simp add: recalculated_def row_key_def Let_def)

lemma put_calculation_tables:
  "rdb_risks (put_calculation r c trend now db) = rdb_risks (set_risk (rk_risk_id r)
     (recalculated c (if is_stale now r then ''STALE'' else rc_state c) trend now) db)"
  "rdb_seq (put_calculation r c trend now db) = rdb_seq db"
  "rdb_events (put_calculation r c trend now db) = rdb_events db"
  "rdb_factors (put_calculation r c trend now db) = rdb_factors db"
  "rdb_audit (put_calculation r c trend now db) = rdb_audit db"
  "rdb_snapshots (put_calculation r c trend now db) = rdb_snapshots db @ [\<lparr>rs_risk_id = rk_risk_id r,
     rs_score = rc_final_score c, rs_severity = rc_severity c, rs_state = rc_state c, rs_trend = trend,
     rs_factor_count = rc_count c, rs_evidence_count = rk_evidence_count r, rs_model_version = rc_model_version c,
     rs_captured_at = now\<rparr>]"
  by (simp_all add: put_calculation_def set_risk_def Let_def)

lemma prefix_set: "prefix xs ys \<Longrightarrow> x \<in> set xs \<Longrightarrow> x \<in> set ys"
  using set_mono_prefix by blast

lemma write_rows: "risk_write db db' \<Longrightarrow> prefix (map row_key (rdb_risks db)) (map row_key (rdb_risks db'))"
proof (induction rule: risk_write.induct)
  case (calculated db rid r pw now c trend)
  show ?case by (simp add: put_calculation_tables set_risk_keys recalculated_key)
next
  case (first_seen db rid now)
  show ?case by (subst set_risk_keys) (simp_all add: row_key_def)
next
  case (evidence db rid seen a g c)
  show ?case by (subst set_risk_keys) (simp_all add: row_key_def)
qed (simp_all add: risk_audit_record_def log_event_def insert_factor_def try_insert_risk_def set_factor_def Let_def)

lemma known_key: "known db rid \<longleftrightarrow> rid \<in> set (map (\<lambda>k. fst (snd k)) (map row_key (rdb_risks db)))"
  by (simp add: known_def row_key_def image_image)

lemma known_write: "risk_write db db' \<Longrightarrow> known db rid \<Longrightarrow> known db' rid"
  unfolding known_key by (rule prefix_set [OF map_mono_prefix [OF write_rows]])

lemma known_audit [simp]: "known (risk_audit_record r a c d s s' st st' now db) rid = known db rid"
  by (simp add: known_def risk_audit_record_def)

lemma known_writes: "risk_writes db db' \<Longrightarrow> known db rid \<Longrightarrow> known db' rid"
  by (induction rule: rtranclp_induct) (auto intro: known_write)

lemma risk_ofD: "risk_of db rid = Some r \<Longrightarrow> r \<in> set (rdb_risks db) \<and> rk_risk_id r = rid"
  by (auto simp: risk_of_def dest: find_SomeD)

lemma risk_of_known: "known db rid \<longleftrightarrow> (\<exists>r. risk_of db rid = Some r)"
proof
  assume "known db rid"
  then have "risk_of db rid \<noteq> None" unfolding known_def risk_of_def find_None_iff' by blast
  then show "\<exists>r. risk_of db rid = Some r" by blast
next
  assume "\<exists>r. risk_of db rid = Some r"
  then show "known db rid" unfolding known_def using risk_ofD by blast
qed

lemmas write_once = r_into_rtranclp [of risk_write]
lemmas writes_trans = rtranclp_trans [of risk_write]

lemma write_twice: "risk_write a b \<Longrightarrow> risk_write b c \<Longrightarrow> risk_writes a c"
  by (rule writes_trans [OF write_once write_once])

lemma write_thrice: "risk_write a b \<Longrightarrow> risk_write b c \<Longrightarrow> risk_write c d \<Longrightarrow> risk_writes a d"
  by (rule writes_trans [OF write_twice write_once])

end
