(* ===== verification/Risk_Ops.thy ===== *)
theory Risk_Ops
  imports Risk_Writes
begin

text \<open>Each operation of the engine, when it returns, has performed a sequence of writes,
  and the public ids it returns are known.\<close>

section \<open>Claims\<close>

lemma risk_for_entityD: "risk_for_entity db ty eid = Some r \<Longrightarrow>
    r \<in> set (rdb_risks db) \<and> rk_entity_type r = ty \<and> rk_entity_id r = eid"
  by (auto simp: risk_for_entity_def dest: find_SomeD)

lemma claim_writes:
  assumes "ty \<in> set ENTITY_TYPES" "eid \<noteq> []"
  shows "claim_risk k ty eid name now db = Inr (db', rid) \<Longrightarrow> risk_writes db db' \<and> known db' rid"
proof (induction k arbitrary: db)
  case (Suc k)
  define db1 where "db1 = try_insert_risk (new_risk (risk_public_id (Suc (rdb_seq db))) ty eid name now)
    (db\<lparr>rdb_seq := Suc (rdb_seq db)\<rparr>)"
  have w1: "risk_write db db1" unfolding db1_def by (rule claimed [OF assms])
  show ?case
  proof (cases "risk_for_entity db1 ty eid")
    case None
    then have "claim_risk k ty eid name now db1 = Inr (db', rid)"
      using Suc.prems by (simp add: Let_def flip: db1_def)
    from Suc.IH [OF this] show ?thesis using writes_trans [OF write_once [OF w1]] by blast
  next
    case (Some r)
    have r: "known db1 (rk_risk_id r)" using risk_for_entityD [OF Some] by (auto simp: known_def)
    show ?thesis
    proof (cases "rk_risk_id r = risk_public_id (Suc (rdb_seq db))")
      case True
      define db2 where "db2 = set_risk (rk_risk_id r) (\<lambda>r. r\<lparr>rk_first_seen := min (rk_first_seen r) now\<rparr>) db1"
      have w2: "risk_write db1 db2" unfolding db2_def by (rule first_seen)
      then have k2: "known db2 (rk_risk_id r)" using known_write r by blast
      obtain d where "rid = rk_risk_id r" and d: "db' = risk_note (rk_risk_id r) ''RISK_CREATED'' ''system'' d now db2"
        using Suc.prems Some True by (auto simp: Let_def db2_def simp flip: db1_def)
      moreover have "risk_write db2 db'" unfolding d by (rule noted [OF k2])
      ultimately show ?thesis using k2 write_thrice [OF w1 w2] by simp
    next
      case False
      then have "db' = db1" "rid = rk_risk_id r" using Suc.prems Some by (auto simp: Let_def simp flip: db1_def)
      then show ?thesis using w1 r write_once by blast
    qed
  qed
qed simp

lemma get_or_create_writes:
  "get_or_create_risk ty eid name now db = Inr (db', rid) \<Longrightarrow> risk_writes db db' \<and> known db' rid"
  using claim_writes by (auto simp: get_or_create_risk_def split: if_splits)

section \<open>Factors\<close>

lemma known_insert_factor [simp]: "known (insert_factor f db) rid = known db rid"
  by (simp add: known_def insert_factor_def)

lemma add_factor_writes:
  assumes "add_factor rid factor sty sid v a now db = Inr db'" and k: "known db rid" and v: "0 \<le> v"
    and cap: "\<And>d. get_factor factor = Inr d \<Longrightarrow> v \<le> fd_maximum_contribution d"
  shows "risk_writes db db'"
proof -
  obtain d where d: "get_factor factor = Inr d" using assms(1) by (auto simp: add_factor_def results)
  define db1 where "db1 = insert_factor (new_factor rid d sty sid v a now) db"
  have w: "risk_write db db1" unfolding db1_def by (rule contributed [OF k d v cap [OF d]])
  have k1: "known db1 rid" using k by (simp add: db1_def)
  consider "db' = db1" | det where "db' = risk_note rid ''FACTOR_ADDED'' ''system'' det now db1"
    using assms(1) by (auto simp: add_factor_def d Let_def split: option.splits if_splits simp flip: db1_def)
  then show ?thesis
  proof cases
    case 2
    have "risk_write db1 db'" unfolding 2 by (rule noted [OF k1])
    then show ?thesis using write_twice [OF w] by blast
  qed (use w write_once in simp)
qed

lemma add_factor_get: "add_factor rid factor sty sid v a now db = Inr db' \<Longrightarrow> \<exists>d. get_factor factor = Inr d"
  by (auto simp: add_factor_def results)

lemma add_weighted:
  "add_factor rid factor sty sid (weight_of factor) a now db = Inr db' \<Longrightarrow> known db rid \<Longrightarrow> risk_writes db db'"
proof -
  assume a: "add_factor rid factor sty sid (weight_of factor) a now db = Inr db'" and k: "known db rid"
  obtain d where "get_factor factor = Inr d" using add_factor_get [OF a] by blast
  then show ?thesis using weight_within by (intro add_factor_writes [OF a k]) blast+
qed

lemma add_tier:
  "add_factor rid ''RF009_ALERT_SEVERITY'' sty sid (tier_value i) a now db = Inr db' \<Longrightarrow> known db rid \<Longrightarrow> risk_writes db db'"
  by (erule add_factor_writes) (auto simp: caps tier_value_bounds less_imp_le)

lemma add_repetition:
  "add_factor rid ''RF007_REPETITION'' sty sid (repetition_value n) a now db = Inr db' \<Longrightarrow> known db rid \<Longrightarrow> risk_writes db db'"
  by (erule add_factor_writes) (auto simp: caps repetition_bounds)

lemma add_factor_rows: "add_factor rid factor sty sid v a now db = Inr db' \<Longrightarrow>
    rdb_risks db' = rdb_risks db \<and> rdb_snapshots db' = rdb_snapshots db \<and> rdb_events db' = rdb_events db"
  by (auto simp: add_factor_def results Let_def insert_factor_def risk_audit_record_def split: option.splits if_splits)

section \<open>Recalculation\<close>

lemma known_set_factor [simp]: "known (set_factor f h db) rid = known db rid"
  by (simp add: known_def set_factor_def)

lemma refresh_writes:
  assumes "refresh_recency r now db = Inr db'" and k: "known db (rk_risk_id r)"
  shows "risk_writes db db' \<and> rdb_risks db' = rdb_risks db \<and> rdb_snapshots db' = rdb_snapshots db"
proof (cases "List.find (recency_key (rk_risk_id r)) (rdb_factors db)")
  case None
  then consider "db' = db" | "add_factor (rk_risk_id r) ''RF008_RECENCY'' ''recency'' ''activity''
      (weight_of ''RF008_RECENCY'') (recency_args r) now db = Inr db'"
    using assms(1) by (cases "is_recent now r") (simp_all add: refresh_recency_def)
  then show ?thesis
  proof cases
    case 2
    from add_weighted [OF 2 k] add_factor_rows [OF 2] show ?thesis by simp
  qed simp
next
  case (Some f)
  from Some have f: "recency_key (rk_risk_id r) f" by (auto dest: find_SomeD)
  show ?thesis
  proof (cases "is_recent now r")
    case True
    then have "db' = set_factor f (renewed (rk_last_seen r)) db" using assms(1) Some by (simp add: refresh_recency_def)
    then show ?thesis using renewing [OF f] write_once by (simp add: set_factor_def)
  next
    case old: False
    show ?thesis
    proof (cases "rf_expired_at f")
      case None
      obtain det where d: "db' = risk_note (rk_risk_id r) ''FACTOR_EXPIRED'' ''system'' det now (set_factor f (lapsed now) db)"
        using assms(1) Some old None unfolding refresh_recency_def by simp (drule sym, blast)
      have "risk_write (set_factor f (lapsed now) db) db'" unfolding d by (rule noted) (simp add: k)
      then show ?thesis using write_twice [OF lapsing [OF f]] by (simp add: d set_factor_def risk_audit_record_def)
    next
      case (Some t)
      then have "db' = db" using assms(1) \<open>List.find _ _ = _\<close> old by (simp add: refresh_recency_def)
      then show ?thesis by simp
    qed
  qed
qed

lemma audit_when_writes: "known db rid \<Longrightarrow>
    risk_writes db (audit_when b (risk_audit_record rid ac x d s s' st st' now) db)"
  by (simp add: audit_when_def noted write_once)

lemma known_audit_when [simp]:
  "known (audit_when b (risk_audit_record rid ac x d s s' st st' now) db) q = known db q"
  by (simp add: audit_when_def)

lemma store_writes:
  assumes "risk_of db rid = Some r" "calculate_risk pw (map factor_dict (factors_of db rid)) now = Inr c"
    and "trend = trend_for (previous_score db rid) (rc_final_score c) RISK_TREND_DELTA"
  shows "risk_writes db (store_calculation took r c trend now actor db)"
proof -
  have w: "risk_write db (put_calculation r c trend now db)" by (rule calculated [OF assms])
  have "rk_risk_id r = rid" using risk_ofD [OF assms(1)] by simp
  then have k: "known (put_calculation r c trend now db) (rk_risk_id r)"
    using known_write [OF w] assms(1) risk_of_known by blast
  show ?thesis
    unfolding store_calculation_def Let_def
    by (rule writes_trans [OF _ audit_when_writes], rule writes_trans [OF _ audit_when_writes],
        rule write_twice [OF w noted]) (simp_all add: k)
qed

lemma recalculate_writes:
  assumes "recalculate_entity env rid now actor db = Inr db'"
  shows "risk_writes db db'"
proof -
  obtain r where r: "risk_of db rid = Some r" using assms by (auto simp: recalculate_entity_def split: option.splits)
  then obtain db1 c where d: "refresh_recency r now db = Inr db1"
      "calculate_risk (en_power env) (map factor_dict (factors_of db1 rid)) now = Inr c"
      "db' = store_calculation (en_took env (length (rdb_audit db1))) r c
               (trend_for (previous_score db1 rid) (rc_final_score c) RISK_TREND_DELTA) now actor db1"
    using assms by (auto simp: recalculate_entity_def results)
  have k: "known db (rk_risk_id r)" using r risk_ofD [OF r] risk_of_known by blast
  note f = refresh_writes [OF d(1) k]
  then have "risk_of db1 rid = Some r" using r by (simp add: risk_of_def)
  from store_writes [OF this d(2) refl] f d(3) show ?thesis by (metis writes_trans)
qed

lemma recalculate_each_writes: "recalculate_each env now actor rids db = Inr db' \<Longrightarrow> risk_writes db db'"
  unfolding recalculate_each_def
  by (rule each_do_inv [where P = "risk_writes db"]) (auto intro: writes_trans recalculate_writes)

section \<open>Ingestion\<close>

text \<open>\<open>reached db a rids\<close>: writes lead from \<open>db\<close> to \<open>a\<close>, which knows the records named.\<close>

definition reached :: "risk_db \<Rightarrow> risk_db \<Rightarrow> string list \<Rightarrow> bool" where
  "reached db a rids \<longleftrightarrow> risk_writes db a \<and> (\<forall>rid\<in>set rids. known a rid)"

lemma reached_self: "reached db db []"
  by (simp add: reached_def)

lemma reached_step: "reached db a rids \<Longrightarrow> risk_writes a b \<Longrightarrow> reached db b rids"
  unfolding reached_def using known_writes by (blast intro: writes_trans)

lemma reached_new: "reached db a rids \<Longrightarrow> risk_writes a b \<Longrightarrow> known b rid \<Longrightarrow> set rs \<subseteq> insert rid (set rids) \<Longrightarrow> reached db b rs"
  unfolding reached_def using known_writes writes_trans by blast

lemma reached_fewer: "reached db a rids \<Longrightarrow> set fewer \<subseteq> set rids \<Longrightarrow> reached db a fewer"
  unfolding reached_def by blast

lemma reached_uniq: "reached db a (uniq_first rids) = reached db a rids"
  by (simp add: reached_def)

lemma reached_known: "reached db a rids \<Longrightarrow> rid \<in> set rids \<Longrightarrow> known a rid"
  unfolding reached_def by blast

lemma evidence_write:
  assumes "\<And>r. f r = r\<lparr>rk_last_seen := max (rk_last_seen r) seen, rk_alert_count := rk_alert_count r + a,
      rk_group_count := rk_group_count r + g, rk_correlation_count := rk_correlation_count r + c\<rparr>"
  shows "risk_write db (set_risk rid f db)"
proof -
  have "f = (\<lambda>r. r\<lparr>rk_last_seen := max (rk_last_seen r) seen, rk_alert_count := rk_alert_count r + a,
      rk_group_count := rk_group_count r + g, rk_correlation_count := rk_correlation_count r + c\<rparr>)"
    using assms by blast
  then show ?thesis using evidence by simp
qed

lemma log_and_touch:
  assumes k: "known db rid"
    and f: "\<And>r. f r = r\<lparr>rk_last_seen := max (rk_last_seen r) seen, rk_alert_count := rk_alert_count r + a,
      rk_group_count := rk_group_count r + g, rk_correlation_count := rk_correlation_count r + c\<rparr>"
  shows "risk_writes db (set_risk rid f (log_event rid kind sty sid t summary now db))"
    and "known (set_risk rid f (log_event rid kind sty sid t summary now db)) rid"
proof -
  show w: "risk_writes db (set_risk rid f (log_event rid kind sty sid t summary now db))"
    by (rule write_twice [OF logged [OF k] evidence_write [OF f]])
  show "known (set_risk rid f (log_event rid kind sty sid t summary now db)) rid"
    by (rule known_writes [OF w k])
qed

lemma repetition_writes: "repetition_factor i now rid db = Inr db' \<Longrightarrow> known db rid \<Longrightarrow> risk_writes db db'"
  by (auto simp: repetition_factor_def Let_def split: if_splits intro: add_repetition)

lemma alert_on_entity_reached:
  assumes "alert_on_entity i now m (a, rids) = Inr (b, rids')" and r: "reached db a rids"
  shows "reached db b rids'"
proof -
  obtain db1 rid db2 ev where 1: "get_or_create_risk (fst m) (snd m) '''' now a = Inr (db1, rid)"
    and 2: "add_factor rid ''RF009_ALERT_SEVERITY'' ''alert'' (''tier:'' @ item_severity i) (tier_value i) ev now
       (set_risk rid (\<lambda>r. r\<lparr>rk_last_seen := max (rk_last_seen r) (alert_observed i now), rk_alert_count := rk_alert_count r + 1\<rparr>)
          (log_event rid ''ALERT'' ''alert'' (alert_source i) (alert_observed i now) (alert_summary i) now db1)) = Inr db2"
    and 3: "repetition_factor i now rid db2 = Inr b" and 4: "rids' = rids @ [rid]"
    using assms(1) unfolding alert_on_entity_def Let_def by (auto simp: results)
  note g = get_or_create_writes [OF 1]
  note l = log_and_touch [OF g [THEN conjunct2], where a = 1 and g = 0 and c = 0 and seen = "alert_observed i now"]
  have w2: "risk_writes db1 db2" by (rule writes_trans [OF l(1) add_tier [OF 2 l(2)]]) simp_all
  have w3: "risk_writes db2 b" by (rule repetition_writes [OF 3 known_writes [OF w2 g [THEN conjunct2]]])
  have "known b rid" using known_writes [OF w3 known_writes [OF w2]] g by blast
  then show ?thesis using g w2 w3 4 by (intro reached_new [OF r]) (auto intro: writes_trans)
qed

section \<open>Behavior groups\<close>

lemma snd_update: "snd ` set (AList.update k v al) \<subseteq> insert v (snd ` set al)"
  by (induction al) auto

lemma collect_member_reached:
  assumes "collect_member now m (a, ms, hs) = Inr (b, ms', hs')" and r: "reached db a (map snd ms @ map snd hs)"
  shows "reached db b (map snd ms' @ map snd hs')"
proof -
  obtain rid where 1: "get_or_create_risk (fst m) (snd m) '''' now a = Inr (b, rid)"
    and 2: "ms' = AList.update m rid ms" "hs' = (if fst m = ''HOST'' then AList.update (snd m) rid hs else hs)"
    using assms(1) unfolding collect_member_def by (auto simp: results)
  note g = get_or_create_writes [OF 1]
  have "set (map snd ms' @ map snd hs') \<subseteq> insert rid (set (map snd ms @ map snd hs))"
    using snd_update [of m rid ms] snd_update [of "snd m" rid hs] unfolding 2 by auto
  then show ?thesis using reached_new [OF r] g by blast
qed

lemma membership_writes: "membership i now m a = Inr b \<Longrightarrow> known a (snd m) \<Longrightarrow> risk_writes a b"
proof -
  assume a: "membership i now m a = Inr b" and k: "known a (snd m)"
  obtain ty eid rid where m: "m = ((ty, eid), rid)" by (metis prod_cases3 prod.collapse)
  have k': "known a rid" using k m by simp
  note l = log_and_touch [OF k', where a = "it_alert_count i" and g = "if ty = ''HOST'' then 1 else 0" and c = 0
      and seen = "group_observed i now"]
  show ?thesis
    by (rule writes_trans [OF l(1) add_weighted [OF a [unfolded m membership_def Let_def prod.case] l(2)]]) simp_all
qed

lemma reach_destination_reached:
  assumes "reach_destination now d (a, ts) = Inr (b, us)" and r: "reached db a (map snd ts)"
  shows "reached db b (map snd us)" and "map_of us d \<noteq> None" and "\<forall>k v. map_of ts k = Some v \<longrightarrow> map_of us k = Some v"
proof -
  have "reached db b (map snd us) \<and> map_of us d \<noteq> None \<and> (\<forall>k v. map_of ts k = Some v \<longrightarrow> map_of us k = Some v)"
  proof (cases "map_of ts d")
    case None
    then obtain rid where 1: "get_or_create_risk ''HOST'' d '''' now a = Inr (b, rid)" and us: "us = ts @ [(d, rid)]"
      using assms(1) unfolding reach_destination_def by (auto simp: results)
    have "reached db b (map snd us)" using get_or_create_writes [OF 1] by (intro reached_new [OF r]) (auto simp: us)
    then show ?thesis using None by (auto simp: us map_add_def split: option.splits)
  next
    case (Some v)
    then show ?thesis using assms by (simp add: reach_destination_def)
  qed
  then show "reached db b (map snd us)" and "map_of us d \<noteq> None" and "\<forall>k v. map_of ts k = Some v \<longrightarrow> map_of us k = Some v" by blast+
qed

lemma each_reached:
  assumes "each_do f rids a = Inr b" "\<And>rid a b. f rid a = Inr b \<Longrightarrow> known a rid \<Longrightarrow> risk_writes a b"
    and "reached db a all_ids" "set rids \<subseteq> set all_ids"
  shows "reached db b all_ids"
proof (rule each_do_inv [OF assms(1), where P = "\<lambda>a. reached db a all_ids"])
  fix rid x y assume "rid \<in> set rids" "reached db x all_ids" "f rid x = Inr y"
  then show "reached db y all_ids" using assms(2,4) reached_known reached_step by blast
qed (rule assms(3))

lemma technique_on_writes:
  "map_of TECHNIQUE_FACTORS t = Some f \<Longrightarrow> technique_on i now t f (get_or RISK_FACTOR_WEIGHTS f 0) rid a = Inr b \<Longrightarrow>
   known a rid \<Longrightarrow> risk_writes a b"
  unfolding technique_on_def by (simp only: technique_weight) (rule add_weighted)

lemma apply_technique_reached:
  assumes "apply_technique i now t (a, ts) = Inr (b, us)" and r: "reached db a (map snd ts)"
  shows "reached db b (map snd us)"
proof (cases "map_of TECHNIQUE_FACTORS t")
  case (Some f)
  show ?thesis
  proof (cases "get_or RISK_FACTOR_WEIGHTS f 0 \<le> 0")
    case True
    then show ?thesis using assms Some by (simp add: apply_technique_def)
  next
    case False
    then obtain a1 where 1: "(if f \<in> set TECHNIQUE_FACTOR_DESTINATIONS
          then each_do (reach_destination now) (it_destination_ips i) (a, ts) else Inr (a, ts)) = Inr (a1, us)"
      and 2: "each_do (technique_on i now t f (get_or RISK_FACTOR_WEIGHTS f 0)) (map snd us) a1 = Inr b"
      using assms(1) Some unfolding apply_technique_def by (auto simp: results Let_def)
    have "reached db a1 (map snd us)"
    proof (cases "f \<in> set TECHNIQUE_FACTOR_DESTINATIONS")
      case True
      then have "each_do (reach_destination now) (it_destination_ips i) (a, ts) = Inr (a1, us)" using 1 by simp
      from each_do_inv [OF this, where P = "\<lambda>s. reached db (fst s) (map snd (snd s))"]
      show ?thesis using r reach_destination_reached(1) by fastforce
    qed (use 1 r in simp)
    from each_reached [OF 2 technique_on_writes [OF Some] this] show ?thesis by simp
  qed
qed (use assms in \<open>simp add: apply_technique_def\<close>)

lemma tier_on_host_writes: "tier_on_host i now rid a = Inr b \<Longrightarrow> known a rid \<Longrightarrow> risk_writes a b"
  unfolding tier_on_host_def by (rule add_tier)

lemma external_on_reached:
  assumes "external_on i now d (a, ts) = Inr (b, us)" and r: "reached db a (map snd ts)"
  shows "reached db b (map snd us)"
proof -
  obtain a1 ev where 1: "reach_destination now d (a, ts) = Inr (a1, us)"
    and 2: "add_factor (the (map_of us d)) ''RF001_EXTERNAL_ACCESS'' ''behavior_group'' (item_group_id i)
        (weight_of ''RF001_EXTERNAL_ACCESS'') ev now
        (set_risk (the (map_of us d)) (\<lambda>r. r\<lparr>rk_last_seen := max (rk_last_seen r) (group_observed i now)\<rparr>) a1) = Inr b"
    using assms(1) unfolding external_on_def by (auto simp: results Let_def)
  note d = reach_destination_reached [OF 1 r]
  obtain rid where rid: "map_of us d = Some rid" using d(2) by blast
  then have "rid \<in> set (map snd us)" by (force dest: map_of_SomeD)
  then have k: "known a1 rid" using reached_known [OF d(1)] by blast
  define a2 where "a2 = set_risk rid (\<lambda>r. r\<lparr>rk_last_seen := max (rk_last_seen r) (group_observed i now)\<rparr>) a1"
  have w: "risk_write a1 a2" unfolding a2_def
    by (rule evidence_write [where seen = "group_observed i now" and a = 0 and g = 0 and c = 0]) simp
  have "risk_writes a2 b"
    using add_weighted 2 known_write [OF w k] by (simp add: rid flip: a2_def)
  then show ?thesis using reached_step [OF reached_step [OF d(1) write_once [OF w]]] by blast
qed

section \<open>The operations\<close>

lemma each_pairs:
  assumes "each_do f xs (a, s) = Inr (b, t)" and "Q a s"
    and "\<And>x a s b t. x \<in> set xs \<Longrightarrow> Q a s \<Longrightarrow> f x (a, s) = Inr (b, t) \<Longrightarrow> Q b t"
  shows "Q b t"
  using each_do_inv [OF assms(1), where P = "\<lambda>p. Q (fst p) (snd p)"] assms(2,3) by fastforce

lemma apply_alert_reached:
  assumes "apply_alert env i now actor db = Inr (db', rids)"
  shows "reached db db' rids"
proof -
  obtain db1 ids where 1: "each_do (alert_on_entity i now) (alert_entities i) (db, []) = Inr (db1, ids)"
    and 2: "recalculate_each env now actor (uniq_first ids) db1 = Inr db'" and 3: "rids = uniq_first ids"
    using assms unfolding apply_alert_def by (auto simp: results)
  have "reached db db1 ids"
    by (rule each_pairs [OF 1, where Q = "reached db"]) (auto intro: reached_self alert_on_entity_reached)
  from reached_step [OF this recalculate_each_writes [OF 2]] show ?thesis by (simp add: 3 reached_uniq)
qed

lemma members_reached:
  assumes "each_do (collect_member now) xs (db, [], []) = Inr (db1, ms, hs)"
  shows "reached db db1 (map snd ms @ map snd hs)"
  using each_pairs [OF assms, where Q = "\<lambda>a s. reached db a (map snd (fst s) @ map snd (snd s))"]
    collect_member_reached reached_self by fastforce

lemma apply_group_reached:
  assumes "apply_group env i now actor db = Inr (db', rids)"
  shows "reached db db' rids"
proof -
  obtain db1 ms hs db2 db3 ts db4 db5 us db6 where
      1: "each_do (collect_member now) (group_members i) (db, [], []) = Inr (db1, ms, hs)"
    and 2: "each_do (membership i now) ms db1 = Inr db2"
    and 3: "each_do (apply_technique i now) (it_techniques i) (db2, hs) = Inr (db3, ts)"
    and 4: "(if 0 < tier_value i then each_do (tier_on_host i now) (map snd hs) db3 else Inr db3) = Inr db4"
    and 5: "(if group_external i then each_do (external_on i now) (it_destination_ips i) (db4, ts) else Inr (db4, ts)) = Inr (db5, us)"
    and 6: "recalculate_each env now actor (map snd ms) db5 = Inr db6"
    and 7: "recalculate_each env now actor (filter (\<lambda>rid. rid \<notin> set (map snd ms)) (map snd us)) db6 = Inr db'"
    and 8: "rids = uniq_first (map snd ms)"
    using assms unfolding apply_group_def by (auto simp: results)
  note r1 = members_reached [OF 1]
  have r2: "reached db db2 (map snd ms @ map snd hs)"
  proof (rule each_do_inv [OF 2, where P = "\<lambda>a. reached db a (map snd ms @ map snd hs)"])
    fix m a b assume m: "m \<in> set ms" and r: "reached db a (map snd ms @ map snd hs)" and f: "membership i now m a = Inr b"
    have "known a (snd m)" by (rule reached_known [OF r]) (simp add: m)
    from reached_step [OF r membership_writes [OF f this]]
    show "reached db b (map snd ms @ map snd hs)" .
  qed (rule r1)
  have r3: "reached db2 db3 (map snd ts)"
  proof (rule each_pairs [OF 3, where Q = "\<lambda>a s. reached db2 a (map snd s)"])
    show "reached db2 db2 (map snd hs)" using r2 by (simp add: reached_def)
  qed (rule apply_technique_reached)
  have "reached db3 db3 (map snd hs @ map snd ts)"
    using r3 r2 known_writes [of db2 db3] unfolding reached_def set_append by blast
  then have r4: "reached db3 db4 (map snd hs @ map snd ts)"
    by (rule each_reached [of "tier_on_host i now" "map snd hs" db3 db4, rotated 2])
      (use 4 tier_value_bounds(1) [of i] tier_on_host_writes in auto)
  have r5: "reached db4 db5 (map snd us)"
  proof (cases "group_external i")
    case True
    then have 5: "each_do (external_on i now) (it_destination_ips i) (db4, ts) = Inr (db5, us)" using 5 by simp
    show ?thesis
    proof (rule each_pairs [OF 5, where Q = "\<lambda>a s. reached db4 a (map snd s)"])
      show "reached db4 db4 (map snd ts)" using r4 by (simp add: reached_def)
    qed (rule external_on_reached)
  qed (use 5 r4 in \<open>simp add: reached_def\<close>)
  have "risk_writes db2 db'"
    using r3 r4 r5 recalculate_each_writes [OF 6] recalculate_each_writes [OF 7]
    unfolding reached_def by (meson writes_trans)
  from reached_step [OF r2 this] show ?thesis by (rule reached_fewer) (auto simp: 8)
qed

lemma spread_writes:
  assumes "spread_on env gs now m a = Inr b" shows "risk_writes a b"
proof (cases "length (spread_groups gs m) < 3")
  case False
  then obtain a1 rid a2 ev sid where 1: "get_or_create_risk (fst m) (snd m) '''' now a = Inr (a1, rid)"
    and 2: "add_factor rid ''RF013_ENTITY_SPREAD'' ''behavior_group'' sid (weight_of ''RF013_ENTITY_SPREAD'') ev now a1 = Inr a2"
    and 3: "recalculate_entity env rid now ''system'' a2 = Inr b"
    using assms unfolding spread_on_def by (auto simp: results Let_def)
  note g = get_or_create_writes [OF 1]
  from g add_weighted [OF 2] recalculate_writes [OF 3] show ?thesis by (meson writes_trans)
qed (use assms in \<open>simp add: spread_on_def Let_def\<close>)

lemma apply_spread_writes: "apply_spread env gs now a = Inr b \<Longrightarrow> risk_writes a b"
  unfolding apply_spread_def
  by (rule each_do_inv [where P = "risk_writes a"]) (auto intro: writes_trans spread_writes)

lemma grouped_reached:
  assumes "each_do (grouped f) xs (db, []) = Inr (db1, ids)"
    and "\<And>i a b rids. f i a = Inr (b, rids) \<Longrightarrow> reached a b rids"
  shows "reached db db1 ids"
proof (rule each_pairs [OF assms(1), where Q = "reached db"])
  fix i a s b t assume r: "reached db a s" and g: "grouped f i (a, s) = Inr (b, t)"
  then obtain rids where f: "f i a = Inr (b, rids)" and t: "t = s @ rids"
    unfolding grouped_def by (auto simp: results)
  note b = assms(2) [OF f, unfolded reached_def]
  have "risk_writes db b" using r b unfolding reached_def by (blast intro: writes_trans)
  moreover have "\<forall>rid\<in>set s. known b rid" using r b known_writes unfolding reached_def by blast
  ultimately show "reached db b t" using b unfolding reached_def t set_append by blast
qed (rule reached_self)

lemma apply_groups_reached:
  assumes "apply_groups env gs now actor db = Inr (db', rids)"
  shows "reached db db' rids"
proof -
  obtain db1 ids where 1: "each_do (grouped (\<lambda>i. apply_group env i now actor)) gs (db, []) = Inr (db1, ids)"
    and 2: "apply_spread env gs now db1 = Inr db'" and 3: "rids = uniq_first ids"
    using assms unfolding apply_groups_def by (auto simp: results)
  have "reached db db1 ids" by (rule grouped_reached [OF 1]) (rule apply_group_reached)
  from reached_step [OF this apply_spread_writes [OF 2]] show ?thesis by (simp add: 3 reached_uniq)
qed

lemma finding_on_reached:
  assumes "finding_on i now m (a, rids) = Inr (b, rids')" and r: "reached db a rids"
  shows "reached db b rids'"
proof -
  obtain db1 rid ev summary where 1: "get_or_create_risk (fst m) (snd m) '''' now a = Inr (db1, rid)"
    and 2: "add_factor rid ''RF006_MULTI_STAGE_CORRELATION'' ''correlation_finding'' (finding_source i)
       (weight_of ''RF006_MULTI_STAGE_CORRELATION'') ev now
       (set_risk rid (\<lambda>r. r\<lparr>rk_last_seen := max (rk_last_seen r) (group_observed i now),
            rk_correlation_count := rk_correlation_count r + 1\<rparr>)
          (log_event rid ''CORRELATION_FINDING'' ''correlation_finding'' (finding_source i) (group_observed i now) summary now db1)) = Inr b"
    and 3: "rids' = rids @ [rid]"
    using assms(1) unfolding finding_on_def Let_def by (auto simp: results)
  note g = get_or_create_writes [OF 1]
  note l = log_and_touch [OF g [THEN conjunct2], where a = 0 and g = 0 and c = 1 and seen = "group_observed i now"]
  have w2: "risk_writes db1 b" by (rule writes_trans [OF l(1) add_weighted [OF 2 l(2)]]) simp_all
  have "risk_writes a b" using g w2 by (blast intro: writes_trans)
  from reached_new [OF r this known_writes [OF w2 g [THEN conjunct2]]] show ?thesis by (simp add: 3)
qed

lemma apply_finding_reached:
  assumes "apply_finding env i now actor db = Inr (db', rids)"
  shows "reached db db' rids"
proof -
  obtain db1 ids where 1: "each_do (finding_on i now) (spread_members i) (db, []) = Inr (db1, ids)"
    and 2: "recalculate_each env now actor (uniq_first ids) db1 = Inr db'" and 3: "rids = uniq_first ids"
    using assms unfolding apply_finding_def by (auto simp: results)
  have "reached db db1 ids"
    by (rule each_pairs [OF 1, where Q = "reached db"]) (auto intro: reached_self finding_on_reached)
  from reached_step [OF this recalculate_each_writes [OF 2]] show ?thesis by (simp add: 3 reached_uniq)
qed

lemma apply_propagation_reached:
  assumes "apply_propagation env ty eid from_e rel ev reason now actor db = Inr (db', rid)"
  shows "reached db db' [rid]"
proof -
  define v where "v = get_or RISK_PROPAGATION_WEIGHTS rel 0"
  obtain db1 fa db2 sid where v: "0 < v" and 1: "get_or_create_risk ty eid '''' now db = Inr (db1, rid)"
    and 2: "add_factor rid ''RF006_MULTI_STAGE_CORRELATION'' ''propagation'' sid v fa now
        (set_risk rid (\<lambda>r. r\<lparr>rk_last_seen := max (rk_last_seen r) now\<rparr>) db1) = Inr db2"
    and 3: "recalculate_entity env rid now actor db2 = Inr db'"
    using assms unfolding apply_propagation_def by (auto simp: results Let_def v_def [symmetric] split: if_splits)
  note g = get_or_create_writes [OF 1]
  have w: "risk_write db1 (set_risk rid (\<lambda>r. r\<lparr>rk_last_seen := max (rk_last_seen r) now\<rparr>) db1)"
    by (rule evidence_write [where seen = now and a = 0 and g = 0 and c = 0]) simp
  then have k: "known (set_risk rid (\<lambda>r. r\<lparr>rk_last_seen := max (rk_last_seen r) now\<rparr>) db1) rid"
    using g known_write by blast
  have "risk_writes (set_risk rid (\<lambda>r. r\<lparr>rk_last_seen := max (rk_last_seen r) now\<rparr>) db1) db2"
    by (rule add_factor_writes [OF 2 k]) (use v propagation_bounds [of rel] in \<open>auto simp: caps v_def\<close>)
  then have "risk_writes db1 db'" using w recalculate_writes [OF 3] by (meson write_once writes_trans)
  then show ?thesis using g known_writes unfolding reached_def by (auto intro: writes_trans)
qed

lemma ingest_reached:
  assumes "ingest_evidence env items now actor db = Inr (db', rids)"
  shows "reached db db' rids"
proof -
  obtain ids where 1: "each_do (grouped (ingest_one env now actor)) items (db, []) = Inr (db', ids)" and 2: "rids = uniq_first ids"
    using assms unfolding ingest_evidence_def by (auto simp: results)
  have one: "reached a b rs" if "ingest_one env now actor i a = Inr (b, rs)" for i a b rs
    using that unfolding ingest_one_def
    by (auto split: option.splits if_splits intro: apply_alert_reached apply_group_reached apply_finding_reached)
  have "reached db db' ids" by (rule grouped_reached [OF 1]) (rule one)
  then show ?thesis by (simp add: 2 reached_uniq)
qed

lemma expire_row_writes: "known db (rf_risk_id f) \<Longrightarrow> risk_writes db (expire_row now actor f db)"
  unfolding expire_row_def by (rule write_twice [OF expiring noted]) simp

lemma recalculate_all_writes: "recalculate_all env now actor db = Inr (db', n) \<Longrightarrow> risk_writes db db'"
  by (auto simp: recalculate_all_def results intro: recalculate_each_writes)

end
