(* ===== verification/Risk_Invariant.thy ===== *)
theory Risk_Invariant
  imports Risk_Ops Row_Store
begin

text \<open>
  The invariant of the entity risk tables, preserved by every write and so by every
  operation: one record per entity, one event and one factor per source, factors that are
  registered and under their cap, records that agree with their last snapshot.
\<close>

interpretation rki: serial_rows rk_id "\<lambda>n r. r\<lparr>rk_id := n\<rparr>"
  by unfold_locales simp

section \<open>The parts of the invariant\<close>

definition risk_row_ok :: "risk_row \<Rightarrow> bool" where
  "risk_row_ok r \<longleftrightarrow> rk_entity_type r \<in> set ENTITY_TYPES \<and> rk_entity_id r \<noteq> [] \<and> 0 \<le> rk_score r
     \<and> rk_severity r = severity_for (rk_score r) \<and> (rk_state r = ''STALE'' \<or> rk_state r = state_for (rk_score r))
     \<and> rk_trend r \<in> set RISK_TRENDS \<and> rk_score r \<le> rk_peak_score r \<and> rk_peak_score r \<le> 100
     \<and> rk_evidence_count r = 0 \<and> rk_risk_id r = risk_public_id (rk_id r - 1)"

definition risk_entity :: "risk_row \<Rightarrow> string \<times> string" where
  "risk_entity r = (rk_entity_type r, rk_entity_id r)"

definition risk_rows_ok :: "risk_db \<Rightarrow> bool" where
  "risk_rows_ok db \<longleftrightarrow> rki.ids_ok (rdb_risks db) (rdb_seq db) \<and> (\<forall>r\<in>set (rdb_risks db). risk_row_ok r)
     \<and> distinct (map risk_entity (rdb_risks db))"

definition risk_factor_ok :: "risk_factor \<Rightarrow> bool" where
  "risk_factor_ok f \<longleftrightarrow> rf_weight f = 1 \<and> 0 \<le> rf_value f
     \<and> (\<exists>d. get_factor (rf_factor_id f) = Inr d \<and> rf_value f \<le> fd_maximum_contribution d)"

definition risk_factors_ok :: "risk_db \<Rightarrow> bool" where
  "risk_factors_ok db \<longleftrightarrow> distinct (map factor_key (rdb_factors db)) \<and> (\<forall>f\<in>set (rdb_factors db). risk_factor_ok f)"

definition risk_snapshot_ok :: "risk_snapshot \<Rightarrow> bool" where
  "risk_snapshot_ok s \<longleftrightarrow> 0 \<le> rs_score s \<and> rs_score s \<le> 100 \<and> rs_severity s = severity_for (rs_score s)
     \<and> rs_state s = state_for (rs_score s) \<and> rs_trend s \<in> set RISK_TRENDS \<and> rs_evidence_count s = 0"

text \<open>A record carries the score of its last snapshot, and its peak is no lower than any.\<close>

definition history_ok :: "risk_db \<Rightarrow> bool" where
  "history_ok db \<longleftrightarrow> (\<forall>s\<in>set (rdb_snapshots db). risk_snapshot_ok s)
     \<and> (\<forall>r\<in>set (rdb_risks db). rk_score r = (case previous_score db (rk_risk_id r) of None \<Rightarrow> 0 | Some s \<Rightarrow> s)
          \<and> (\<forall>s\<in>set (snapshots_of db (rk_risk_id r)). rs_score s \<le> rk_peak_score r))"

definition children :: "risk_db \<Rightarrow> string set" where
  "children db = re_risk_id ` set (rdb_events db) \<union> rf_risk_id ` set (rdb_factors db)
     \<union> rs_risk_id ` set (rdb_snapshots db) \<union> ra_risk_id ` set (rdb_audit db)"

definition risk_db_ok :: "risk_db \<Rightarrow> bool" where
  "risk_db_ok db \<longleftrightarrow> risk_rows_ok db \<and> risk_factors_ok db \<and> distinct (map event_key (rdb_events db))
     \<and> history_ok db \<and> (\<forall>rid\<in>children db. known db rid)"

lemma risk_db_okD:
  assumes "risk_db_ok db"
  shows "risk_rows_ok db" "risk_factors_ok db" "distinct (map event_key (rdb_events db))" "history_ok db"
    "rid \<in> children db \<Longrightarrow> known db rid"
  using assms unfolding risk_db_ok_def by blast+

lemma empty_risk_db_ok: "risk_db_ok empty_risk_db"
  by (simp add: risk_db_ok_def risk_rows_ok_def risk_factors_ok_def history_ok_def children_def empty_risk_db_def
      rki.ids_ok_Nil)

section \<open>Records\<close>

lemma trend_for_valid: "trend_for p c d \<in> set RISK_TRENDS"
  by (simp add: trend_for_def RISK_TRENDS_def split: option.splits)

lemma severity_for_0: "severity_for 0 = ''MINIMAL''" and state_for_0: "state_for 0 = ''NORMAL''"
  by (simp_all add: severity_for_def state_for_def RISK_THRESHOLDS_def)

lemma new_risk_ok: "ty \<in> set ENTITY_TYPES \<Longrightarrow> eid \<noteq> [] \<Longrightarrow>
    risk_row_ok ((new_risk (risk_public_id n) ty eid name now)\<lparr>rk_id := Suc n\<rparr>)"
  by (simp add: risk_row_ok_def new_risk_def severity_for_0 state_for_0 RISK_TRENDS_def)

lemma rows_ok_cong: "rdb_risks db' = rdb_risks db \<Longrightarrow> rdb_seq db' = rdb_seq db \<Longrightarrow> risk_rows_ok db \<Longrightarrow> risk_rows_ok db'"
  by (simp add: risk_rows_ok_def)

lemma rows_ok_insert:
  assumes ok: "risk_rows_ok db" and e: "ty \<in> set ENTITY_TYPES" "eid \<noteq> []"
  shows "risk_rows_ok (try_insert_risk (new_risk (risk_public_id (Suc (rdb_seq db))) ty eid name now)
    (db\<lparr>rdb_seq := Suc (rdb_seq db)\<rparr>))"
proof -
  let ?r = "(new_risk (risk_public_id (Suc (rdb_seq db))) ty eid name now)\<lparr>rk_id := Suc (Suc (rdb_seq db))\<rparr>"
  note ok = ok [unfolded risk_rows_ok_def]
  have grow: "rki.ids_ok (rdb_risks db) (Suc (Suc (rdb_seq db)))" using ok rki.ids_ok_seq by force
  have add: "rki.ids_ok (rdb_risks db @ [?r]) (Suc (Suc (rdb_seq db)))" using rki.ids_ok_append [of "rdb_risks db" "rdb_seq db" "Suc (Suc (rdb_seq db))"] ok by simp
  have ent: "risk_entity ?r = (ty, eid)" by (simp add: risk_entity_def new_risk_def)
  have fresh: "(ty, eid) \<notin> set (map risk_entity (rdb_risks db))"
    if "\<not> (\<exists>q\<in>set (rdb_risks db). rk_entity_type q = ty \<and> rk_entity_id q = eid)"
    using that by (auto simp: risk_entity_def)
  have n: "rk_entity_type (new_risk i ty eid name now) = ty" "rk_entity_id (new_risk i ty eid name now) = eid" for i
    by (simp_all add: new_risk_def)
  show ?thesis
    using ok grow add ent fresh new_risk_ok [OF e]
    by (simp add: risk_rows_ok_def try_insert_risk_def Let_def n)
qed

lemma rows_ok_set:
  assumes ok: "risk_rows_ok db" and f: "\<And>r. row_key (f r) = row_key r" "\<And>r. risk_row_ok r \<Longrightarrow> risk_row_ok (f r)"
  shows "risk_rows_ok (set_risk rid f db)"
proof -
  let ?g = "\<lambda>r. if rk_risk_id r = rid then f r else r"
  have k: "rk_id (?g r) = rk_id r" "risk_entity (?g r) = risk_entity r" for r
    using row_key_eqD [OF f(1)] by (simp_all add: risk_entity_def)
  have "rki.ids_ok (map ?g (rdb_risks db)) (rdb_seq db)"
    by (rule rki.ids_ok_map) (use k ok in \<open>simp_all add: risk_rows_ok_def\<close>)
  moreover have "map risk_entity (map ?g (rdb_risks db)) = map risk_entity (rdb_risks db)" using k(2) by simp
  ultimately show ?thesis
    using ok f(2) unfolding risk_rows_ok_def set_risk_def by (auto simp del: map_map)
qed

lemma recalculated_ok:
  assumes "risk_row_ok r" and c: "calculate_risk pw fs now = Inr c" and t: "trend \<in> set RISK_TRENDS"
  shows "risk_row_ok (recalculated c (if b then ''STALE'' else rc_state c) trend now r)"
proof -
  have c: "c = calculation pw fs now" using c calculate_risk_total [of pw fs now] by simp
  show ?thesis
    using assms(1) t risk_score_bounds [of pw now fs]
    by (auto simp: risk_row_ok_def recalculated_def Let_def c)
qed

lemma rows_ok_write: "risk_write db db' \<Longrightarrow> risk_rows_ok db \<Longrightarrow> risk_rows_ok db'"
proof (induction rule: risk_write.induct)
  case (claimed type eid db name now)
  then show ?case by (blast intro: rows_ok_insert)
next
  case (first_seen db rid now)
  then show ?case by (rule rows_ok_set) (simp_all add: row_key_def risk_row_ok_def)
next
  case (evidence db rid seen a g c)
  then show ?case by (rule rows_ok_set) (simp_all add: row_key_def risk_row_ok_def)
next
  case (calculated db rid r pw now c trend)
  have "risk_rows_ok (set_risk (rk_risk_id r) (recalculated c (if is_stale now r then ''STALE'' else rc_state c) trend now) db)"
    by (rule rows_ok_set [OF calculated(4) recalculated_key])
      (rule recalculated_ok [OF _ calculated(2)], simp_all add: calculated(3) trend_for_valid)
  then show ?case by (rule rows_ok_cong [rotated 2]) (simp_all add: put_calculation_tables set_risk_def)
qed (auto simp: risk_rows_ok_def risk_audit_record_def log_event_def insert_factor_def set_factor_def Let_def)

section \<open>Factors and events\<close>

lemma factor_key_new: "factor_key (new_factor rid d sty sid v a now) = (rid, fd_factor_id d, sty, sid)"
  by (simp add: factor_key_def new_factor_def)

lemma factors_ok_insert:
  assumes "risk_factors_ok db" "get_factor factor = Inr d" "0 \<le> v" "v \<le> fd_maximum_contribution d"
  shows "risk_factors_ok (insert_factor (new_factor rid d sty sid v a now) db)"
proof -
  have "risk_factor_ok (new_factor rid d sty sid v a now)"
    using assms(2-4) get_factorD [OF assms(2)] by (auto simp: risk_factor_ok_def new_factor_def)
  then show ?thesis using assms(1) by (force simp: risk_factors_ok_def insert_factor_def)
qed

lemma factors_ok_set:
  assumes ok: "risk_factors_ok db" and h: "\<And>q. factor_key (h q) = factor_key q"
    and k: "\<And>q. factor_key q = factor_key f \<Longrightarrow> risk_factor_ok q \<Longrightarrow> risk_factor_ok (h q)"
  shows "risk_factors_ok (set_factor f h db)"
proof -
  let ?g = "\<lambda>q. if factor_key q = factor_key f then h q else q"
  have "factor_key (?g q) = factor_key q" for q using h by simp
  then have "map factor_key (map ?g (rdb_factors db)) = map factor_key (rdb_factors db)" by simp
  then show ?thesis using ok k unfolding risk_factors_ok_def set_factor_def by (auto simp del: map_map)
qed

lemma factors_ok_write: "risk_write db db' \<Longrightarrow> risk_factors_ok db \<Longrightarrow> risk_factors_ok db'"
proof (induction rule: risk_write.induct)
  case (contributed db rid factor d v sty sid a now)
  then show ?case by (blast intro: factors_ok_insert)
next
  case (renewing rid f seen db)
  have "\<exists>d. get_factor ''RF008_RECENCY'' = Inr d" by (simp add: get_factor_def FACTOR_REGISTRY_def registered_def)
  then obtain d where d: "get_factor ''RF008_RECENCY'' = Inr d" by blast
  show ?case
    by (rule factors_ok_set [OF renewing(2)])
      (use renewing(1) d weight_within [OF d] in \<open>auto simp: factor_key_def renewed_def risk_factor_ok_def recency_key_def\<close>)
next
  case (lapsing rid f db now)
  show ?case by (rule factors_ok_set [OF lapsing(2)]) (simp_all add: factor_key_def lapsed_def risk_factor_ok_def)
next
  case (expiring db f now)
  then show ?case by (rule factors_ok_set) (simp_all add: factor_key_def risk_factor_ok_def)
qed (simp_all add: risk_factors_ok_def risk_audit_record_def log_event_def try_insert_risk_def set_risk_def
    put_calculation_tables Let_def)

lemma events_write: "risk_write db db' \<Longrightarrow> distinct (map event_key (rdb_events db)) \<Longrightarrow> distinct (map event_key (rdb_events db'))"
  by (induction rule: risk_write.induct)
    (auto simp: risk_audit_record_def log_event_def insert_factor_def try_insert_risk_def set_risk_def set_factor_def
      put_calculation_tables Let_def)

section \<open>Children and history\<close>

lemma children_audit: "children (risk_audit_record rid ac x d s s' st st' now db) = insert rid (children db)"
  by (auto simp: children_def risk_audit_record_def)

lemma children_set_factor: "(\<And>q. factor_key (h q) = factor_key q) \<Longrightarrow> children (set_factor f h db) = children db"
proof -
  assume h: "\<And>q. factor_key (h q) = factor_key q"
  have r: "rf_risk_id (h q) = rf_risk_id q" for q using h [of q] by (simp add: factor_key_def)
  have "map rf_risk_id (rdb_factors (set_factor f h db)) = map rf_risk_id (rdb_factors db)"
    by (simp add: set_factor_def r)
  then have "rf_risk_id ` set (rdb_factors (set_factor f h db)) = rf_risk_id ` set (rdb_factors db)"
    by (metis list.set_map)
  then show ?thesis by (simp add: children_def set_factor_def)
qed

lemma children_write: "risk_write db db' \<Longrightarrow> \<forall>rid\<in>children db. known db rid \<Longrightarrow> rid \<in> children db' \<Longrightarrow> known db' rid"
proof -
  assume w: "risk_write db db'" and ok: "\<forall>rid\<in>children db. known db rid" and rid: "rid \<in> children db'"
  from w have "children db' \<subseteq> children db \<union> Collect (known db)"
  proof (induction rule: risk_write.induct)
    case (noted db rid action actor details s s' st st' now)
    then show ?case by (auto simp: children_audit)
  next
    case (renewing rid f seen db)
    show ?case by (subst children_set_factor) (simp_all add: factor_key_def renewed_def)
  next
    case (lapsing rid f db now)
    show ?case by (subst children_set_factor) (simp_all add: factor_key_def lapsed_def)
  next
    case (expiring db f now)
    show ?case by (subst children_set_factor) (simp_all add: factor_key_def)
  next
    case (calculated db rid r pw now c trend)
    have "known db (rk_risk_id r)" using risk_ofD [OF calculated(1)] calculated(1) risk_of_known by blast
    then show ?case by (auto simp: children_def put_calculation_tables set_risk_def)
  qed (auto simp: children_def log_event_def insert_factor_def try_insert_risk_def set_risk_def Let_def new_factor_def)
  then show ?thesis using ok rid known_write [OF w] by blast
qed

lemma history_cong:
  assumes ok: "history_ok db" and s: "rdb_snapshots db' = rdb_snapshots db"
    and r: "\<And>r. r \<in> set (rdb_risks db') \<Longrightarrow> \<exists>q\<in>set (rdb_risks db). rk_risk_id r = rk_risk_id q
      \<and> rk_score r = rk_score q \<and> rk_peak_score r = rk_peak_score q"
  shows "history_ok db'"
proof -
  have e: "snapshots_of db' rid = snapshots_of db rid" "previous_score db' rid = previous_score db rid" for rid
    by (simp_all add: snapshots_of_def previous_score_def s)
  show ?thesis
    unfolding history_ok_def
  proof (intro conjI ballI)
    fix x assume "x \<in> set (rdb_snapshots db')"
    then show "risk_snapshot_ok x" using ok by (simp add: history_ok_def s)
  next
    fix x assume "x \<in> set (rdb_risks db')"
    then obtain q where q: "q \<in> set (rdb_risks db)" "rk_risk_id x = rk_risk_id q" "rk_score x = rk_score q"
        "rk_peak_score x = rk_peak_score q" using r by blast
    then show "rk_score x = (case previous_score db' (rk_risk_id x) of None \<Rightarrow> 0 | Some s \<Rightarrow> s)"
      using ok by (simp add: history_ok_def e)
    fix y assume "y \<in> set (snapshots_of db' (rk_risk_id x))"
    then show "rs_score y \<le> rk_peak_score x" using ok q by (simp add: history_ok_def e)
  qed
qed

lemma risk_id_le: "risk_rows_ok db \<Longrightarrow> known db (risk_public_id n) \<Longrightarrow> n \<le> rdb_seq db"
  unfolding risk_rows_ok_def rki.ids_ok_def known_def risk_row_ok_def by fastforce

lemma history_insert:
  assumes ok: "risk_db_ok db" and e: "ty \<in> set ENTITY_TYPES" "eid \<noteq> []"
  shows "history_ok (try_insert_risk (new_risk (risk_public_id (Suc (rdb_seq db))) ty eid name now)
    (db\<lparr>rdb_seq := Suc (rdb_seq db)\<rparr>))"
proof -
  let ?id = "risk_public_id (Suc (rdb_seq db))"
  let ?n = "(new_risk ?id ty eid name now)\<lparr>rk_id := Suc (Suc (rdb_seq db))\<rparr>"
  have "\<not> known db ?id" using risk_id_le [OF risk_db_okD(1) [OF ok]] by fastforce
  then have "?id \<notin> children db" using risk_db_okD(5) [OF ok] by blast
  then have none: "snapshots_of db ?id = []" unfolding snapshots_of_def children_def filter_empty_conv Un_iff by (metis imageI)
  note h = risk_db_okD(4) [OF ok]
  have "history_ok (db\<lparr>rdb_seq := m\<rparr>)" for m by (rule history_cong [OF h]) auto
  moreover have "history_ok (db\<lparr>rdb_seq := m, rdb_risks := rdb_risks db @ [?n]\<rparr>)" for m
  proof -
    let ?d = "db\<lparr>rdb_seq := m, rdb_risks := rdb_risks db @ [?n]\<rparr>"
    have s: "snapshots_of ?d rid = snapshots_of db rid" for rid by (simp add: snapshots_of_def)
    then have p: "previous_score ?d rid = previous_score db rid" for rid by (simp add: previous_score_def)
    have "previous_score db ?id = None" by (simp add: previous_score_def none)
    moreover have "rk_risk_id (new_risk ?id ty eid name now) = ?id" "rk_score (new_risk ?id ty eid name now) = 0"
      by (simp_all add: new_risk_def)
    ultimately show ?thesis using h none by (simp add: history_ok_def s p)
  qed
  ultimately show ?thesis by (simp add: try_insert_risk_def Let_def)
qed

lemma history_calculated:
  assumes h: "history_ok db" and c: "calculate_risk pw fs now = Inr c" and t: "trend \<in> set RISK_TRENDS"
    and r: "rk_evidence_count r = 0"
  shows "history_ok (put_calculation r c trend now db)"
proof -
  have c: "c = calculation pw fs now" using c calculate_risk_total [of pw fs now] by simp
  let ?p = "put_calculation r c trend now db"
  let ?s = "\<lparr>rs_risk_id = rk_risk_id r, rs_score = rc_final_score c, rs_severity = rc_severity c, rs_state = rc_state c,
     rs_trend = trend, rs_factor_count = rc_count c, rs_evidence_count = rk_evidence_count r,
     rs_model_version = rc_model_version c, rs_captured_at = now\<rparr>"
  let ?f = "recalculated c (if is_stale now r then ''STALE'' else rc_state c) trend now"
  have snap: "snapshots_of ?p rid = snapshots_of db rid @ (if rid = rk_risk_id r then [?s] else [])" for rid
    by (simp add: snapshots_of_def put_calculation_tables)
  have s: "risk_snapshot_ok ?s" using t r risk_score_bounds [of pw now fs] by (simp add: risk_snapshot_ok_def c)
  have f: "rk_score (?f q) = rc_final_score c" "rc_final_score c \<le> rk_peak_score (?f q)"
      "rk_peak_score q \<le> rk_peak_score (?f q)" "rk_risk_id (?f q) = rk_risk_id q" for q
    by (simp_all add: recalculated_def Let_def)
  show ?thesis
    unfolding history_ok_def
  proof (intro conjI ballI)
    fix x assume "x \<in> set (rdb_snapshots ?p)"
    then show "risk_snapshot_ok x" using h s by (auto simp: history_ok_def put_calculation_tables)
  next
    fix x assume "x \<in> set (rdb_risks ?p)"
    then obtain q where q: "q \<in> set (rdb_risks db)" "x = (if rk_risk_id q = rk_risk_id r then ?f q else q)"
      by (auto simp: put_calculation_tables set_risk_def)
    have hq: "rk_score q = (case previous_score db (rk_risk_id q) of None \<Rightarrow> 0 | Some s \<Rightarrow> s)"
        "\<And>y. y \<in> set (snapshots_of db (rk_risk_id q)) \<Longrightarrow> rs_score y \<le> rk_peak_score q"
      using h q(1) unfolding history_ok_def by blast+
    show "rk_score x = (case previous_score ?p (rk_risk_id x) of None \<Rightarrow> 0 | Some s \<Rightarrow> s)"
      using q(2) hq(1) f by (cases "rk_risk_id q = rk_risk_id r") (simp_all add: previous_score_def snap)
    fix y assume y: "y \<in> set (snapshots_of ?p (rk_risk_id x))"
    show "rs_score y \<le> rk_peak_score x"
    proof (cases "rk_risk_id q = rk_risk_id r")
      case True
      then have x: "x = ?f q" using q(2) by simp
      have "y \<in> set (snapshots_of db (rk_risk_id q)) \<or> y = ?s" using y x f(4) True by (auto simp: snap)
      then have "rs_score y \<le> rk_peak_score (?f q)"
      proof
        assume "y \<in> set (snapshots_of db (rk_risk_id q))"
        from order_trans [OF hq(2) [OF this] f(3)] show ?thesis .
      next
        assume "y = ?s"
        then show ?thesis using f(2) [of q] by simp
      qed
      then show ?thesis by (simp only: x)
    qed (use y q(2) hq(2) in \<open>simp add: snap\<close>)
  qed
qed

lemma history_write: "risk_write db db' \<Longrightarrow> risk_db_ok db \<Longrightarrow> history_ok db'"
proof (induction rule: risk_write.induct)
  case (claimed type eid db name now)
  then show ?case by (blast intro: history_insert)
next
  case (first_seen db rid now)
  show ?case by (rule history_cong [OF risk_db_okD(4) [OF first_seen]]) (auto simp: set_risk_def)
next
  case (evidence db rid seen a g c)
  show ?case by (rule history_cong [OF risk_db_okD(4) [OF evidence]]) (auto simp: set_risk_def)
next
  case (calculated db rid r pw now c trend)
  have "rk_evidence_count r = 0"
    using risk_db_okD(1) [OF calculated(4)] risk_ofD [OF calculated(1)] unfolding risk_rows_ok_def risk_row_ok_def by blast
  then show ?case using calculated(2,3) risk_db_okD(4) [OF calculated(4)]
    by (intro history_calculated) (simp_all add: trend_for_valid)
qed (auto intro!: history_cong [OF risk_db_okD(4)] simp: risk_audit_record_def log_event_def insert_factor_def set_factor_def Let_def)

lemma risk_write_ok: "risk_write db db' \<Longrightarrow> risk_db_ok db \<Longrightarrow> risk_db_ok db'"
  using rows_ok_write factors_ok_write events_write history_write children_write unfolding risk_db_ok_def
  by (metis (no_types, lifting) risk_db_ok_def)

lemma risk_writes_ok: "risk_writes db db' \<Longrightarrow> risk_db_ok db \<Longrightarrow> risk_db_ok db'"
  by (induction rule: rtranclp_induct) (auto intro: risk_write_ok)

end
