(* ===== verification/Risk_Total.thy ===== *)
theory Risk_Total
  imports Risk_Invariant
begin

text \<open>
  When the operations return: the claim loop ends at its first attempt, a registered factor
  is always recorded, a known record is always recalculated, so that an operation fails only
  for the reasons the code names (the production gate, an empty entity id, an unknown kind).
\<close>

section \<open>The claim loop\<close>

text \<open>What a claim leaves behind: the row that exists, or the new one.\<close>

definition claimed_db :: "string \<Rightarrow> string \<Rightarrow> string \<Rightarrow> time \<Rightarrow> risk_db \<Rightarrow> risk_db" where
  "claimed_db ty eid name now db =
     (let n = Suc (rdb_seq db); rid = risk_public_id n in
      case risk_for_entity db ty eid of
        Some r \<Rightarrow> db\<lparr>rdb_seq := Suc n\<rparr>
      | None \<Rightarrow> risk_note rid ''RISK_CREATED'' ''system'' [(''entity_type'', RStr ty), (''entity_id'', RStr eid)] now
          (db\<lparr>rdb_seq := Suc n, rdb_risks := rdb_risks db @ [(new_risk rid ty eid name now)\<lparr>rk_id := Suc n\<rparr>]\<rparr>))"

definition claimed_id :: "string \<Rightarrow> string \<Rightarrow> risk_db \<Rightarrow> string" where
  "claimed_id ty eid db = (case risk_for_entity db ty eid of Some r \<Rightarrow> rk_risk_id r | None \<Rightarrow> risk_public_id (Suc (rdb_seq db)))"

lemma risk_for_entity_None: "risk_for_entity db ty eid = None \<longleftrightarrow>
    \<not> (\<exists>q\<in>set (rdb_risks db). rk_entity_type q = ty \<and> rk_entity_id q = eid)"
  by (auto simp: risk_for_entity_def find_None_iff')

lemma find_append_None: "List.find P xs = None \<Longrightarrow> List.find P (xs @ [x]) = (if P x then Some x else None)"
  by (induction xs) (auto split: if_splits)

lemma set_risk_idle: "\<forall>r\<in>set (rdb_risks db). rk_risk_id r = rid \<longrightarrow> f r = r \<Longrightarrow> set_risk rid f db = db"
proof -
  assume "\<forall>r\<in>set (rdb_risks db). rk_risk_id r = rid \<longrightarrow> f r = r"
  then have "map (\<lambda>r. if rk_risk_id r = rid then f r else r) (rdb_risks db) = rdb_risks db" by (intro map_idI) auto
  then show ?thesis by (simp add: set_risk_def)
qed

lemma fresh_risk_id: "risk_rows_ok db \<Longrightarrow> r \<in> set (rdb_risks db) \<Longrightarrow> rk_risk_id r \<noteq> risk_public_id (Suc (rdb_seq db))"
  using risk_id_le [of db "Suc (rdb_seq db)"] by (force simp: known_def)

lemma claim_first_attempt:
  assumes ok: "risk_rows_ok db"
  shows "claim_risk (Suc k) ty eid name now db = Inr (claimed_db ty eid name now db, claimed_id ty eid db)"
proof (cases "risk_for_entity db ty eid")
  case (Some r)
  then have r: "r \<in> set (rdb_risks db)" "rk_entity_type r = ty" "rk_entity_id r = eid" using risk_for_entityD by blast+
  have e: "risk_for_entity (db\<lparr>rdb_seq := n\<rparr>) ty eid = Some r" for n using Some by (simp add: risk_for_entity_def)
  have t: "try_insert_risk (new_risk rid ty eid name now) (db\<lparr>rdb_seq := n\<rparr>) = db\<lparr>rdb_seq := Suc n\<rparr>" for rid n
    using r by (auto simp: try_insert_risk_def Let_def new_risk_def)
  show ?thesis
    using fresh_risk_id [OF ok r(1)] by (simp add: Let_def t e claimed_db_def claimed_id_def Some)
next
  case None
  let ?rid = "risk_public_id (Suc (rdb_seq db))"
  let ?new = "(new_risk ?rid ty eid name now)\<lparr>rk_id := Suc (Suc (rdb_seq db))\<rparr>"
  let ?db1 = "db\<lparr>rdb_seq := Suc (Suc (rdb_seq db)), rdb_risks := rdb_risks db @ [?new]\<rparr>"
  have nf: "rk_entity_type ?new = ty" "rk_entity_id ?new = eid" "rk_risk_id ?new = ?rid" "rk_first_seen ?new = now"
    by (simp_all add: new_risk_def)
  have t: "try_insert_risk (new_risk ?rid ty eid name now) (db\<lparr>rdb_seq := Suc (rdb_seq db)\<rparr>) = ?db1"
    using None fresh_risk_id [OF ok] nf
    by (auto simp: try_insert_risk_def Let_def risk_for_entity_None)
  have e: "risk_for_entity ?db1 ty eid = Some ?new"
    using None find_append_None [of "\<lambda>r. rk_entity_type r = ty \<and> rk_entity_id r = eid" "rdb_risks db" ?new] nf
    by (simp add: risk_for_entity_def)
  have s: "set_risk ?rid (\<lambda>r. r\<lparr>rk_first_seen := min (rk_first_seen r) now\<rparr>) ?db1 = ?db1"
    using fresh_risk_id [OF ok] by (intro set_risk_idle) (auto simp: new_risk_def)
  show ?thesis
    using None by (simp add: Let_def t e s nf claimed_db_def claimed_id_def)
qed

lemma get_or_create_total:
  assumes "risk_rows_ok db" "ty \<in> set ENTITY_TYPES" "eid \<noteq> []"
  shows "get_or_create_risk ty eid name now db
    = Inr (claimed_db ty eid (if name = [] then eid else name) now db, claimed_id ty eid db)"
  using assms claim_first_attempt [of db 4] by (simp add: get_or_create_risk_def eval_nat_numeral)

section \<open>Factors and recalculation\<close>

lemma add_factor_total: "get_factor factor = Inr d \<Longrightarrow> \<exists>db'. add_factor rid factor sty sid v a now db = Inr db'"
proof -
  assume d: "get_factor factor = Inr d"
  let ?f = "new_factor rid d sty sid v a now"
  have "List.find (\<lambda>q. factor_key q = factor_key ?f) (rdb_factors (insert_factor ?f db)) \<noteq> None"
    by (auto simp: find_None_iff' insert_factor_def)
  then show ?thesis by (auto simp: add_factor_def d Let_def)
qed

lemma registered_factors:
  "\<exists>d. get_factor ''RF001_EXTERNAL_ACCESS'' = Inr d" "\<exists>d. get_factor ''RF006_MULTI_STAGE_CORRELATION'' = Inr d"
  "\<exists>d. get_factor ''RF007_REPETITION'' = Inr d" "\<exists>d. get_factor ''RF008_RECENCY'' = Inr d"
  "\<exists>d. get_factor ''RF009_ALERT_SEVERITY'' = Inr d" "\<exists>d. get_factor ''RF010_BEHAVIOR_GROUP'' = Inr d"
  "\<exists>d. get_factor ''RF013_ENTITY_SPREAD'' = Inr d"
  by (simp_all add: get_factor_def FACTOR_REGISTRY_def registered_def)

lemma technique_registered: "map_of TECHNIQUE_FACTORS t = Some f \<Longrightarrow> \<exists>d. get_factor f = Inr d"
  by (drule map_of_SomeD) (auto simp: TECHNIQUE_FACTORS_def get_factor_def FACTOR_REGISTRY_def registered_def)

lemma refresh_total: "\<exists>db'. refresh_recency r now db = Inr db'"
  using add_factor_total registered_factors(4) by (fastforce simp: refresh_recency_def split: option.splits)

lemma recalculate_total: "known db rid \<Longrightarrow> \<exists>db'. recalculate_entity env rid now actor db = Inr db'"
proof -
  assume "known db rid"
  then obtain r where "risk_of db rid = Some r" using risk_of_known by blast
  moreover obtain db1 where "refresh_recency r now db = Inr db1" using refresh_total by blast
  ultimately show ?thesis by (simp add: recalculate_entity_def calculate_risk_total)
qed

lemma recalculate_each_total: "\<forall>rid\<in>set rids. known db rid \<Longrightarrow> \<exists>db'. recalculate_each env now actor rids db = Inr db'"
proof -
  assume k: "\<forall>rid\<in>set rids. known db rid"
  have "\<exists>b. recalculate_each env now actor rids db = Inr b \<and> (\<forall>rid\<in>set rids. known b rid)"
    unfolding recalculate_each_def
  proof (rule each_do_total [where P = "\<lambda>a. \<forall>rid\<in>set rids. known a rid", OF k])
    fix x a assume "x \<in> set rids" "\<forall>rid\<in>set rids. known a rid"
    moreover from this obtain b where "recalculate_entity env x now actor a = Inr b" using recalculate_total by blast
    ultimately show "\<exists>b. recalculate_entity env x now actor a = Inr b \<and> (\<forall>rid\<in>set rids. known b rid)"
      using recalculate_writes known_writes by blast
  qed
  then show ?thesis by blast
qed

section \<open>Ingestion\<close>

lemma then_do_total: "\<exists>x. r = Inr x \<Longrightarrow> (\<And>x. r = Inr x \<Longrightarrow> \<exists>y. f x = Inr y) \<Longrightarrow> \<exists>y. then_do r f = Inr y"
  by auto

definition open_env :: "risk_env \<Rightarrow> bool" where
  "open_env env \<longleftrightarrow> ensure_not_production_db ''risk'' (en_config env) = Inr ()"

lemma alert_entities_valid: "m \<in> set (alert_entities i) \<Longrightarrow> fst m \<in> set ENTITY_TYPES \<and> snd m \<noteq> []"
  by (auto simp: alert_entities_def ENTITY_TYPES_def split: option.splits if_splits)

lemma repetition_total: "\<exists>db'. repetition_factor i now rid db = Inr db'"
  using add_factor_total registered_factors(3) by (fastforce simp: repetition_factor_def Let_def)

lemma alert_on_entity_total:
  assumes "risk_db_ok (fst s)" "fst m \<in> set ENTITY_TYPES" "snd m \<noteq> []"
  shows "\<exists>t. alert_on_entity i now m s = Inr t"
proof -
  note g = get_or_create_total [OF risk_db_okD(1) [OF assms(1)] assms(2,3), where name = "''''" and now = now]
  obtain d where d: "get_factor ''RF009_ALERT_SEVERITY'' = Inr d" using registered_factors(5) by blast
  show ?thesis
    unfolding alert_on_entity_def Let_def g then_do_simps prod.case
    by (intro then_do_total add_factor_total [OF d] repetition_total exI, rule refl)
qed

lemma reached_ok: "reached db a rids \<Longrightarrow> risk_db_ok db \<Longrightarrow> risk_db_ok a"
  unfolding reached_def using risk_writes_ok by blast

lemma apply_alert_total:
  assumes "risk_db_ok db" "open_env env"
  shows "\<exists>db' rids. apply_alert env i now actor db = Inr (db', rids)"
proof -
  have "\<exists>t. each_do (alert_on_entity i now) (alert_entities i) (db, []) = Inr t \<and> reached db (fst t) (snd t)"
  proof (rule each_do_total)
    fix m s assume m: "m \<in> set (alert_entities i)" and r: "reached db (fst s) (snd s)"
    obtain t where t: "alert_on_entity i now m s = Inr t"
      using alert_on_entity_total [OF reached_ok [OF r assms(1)]] alert_entities_valid [OF m] by blast
    then show "\<exists>t. alert_on_entity i now m s = Inr t \<and> reached db (fst t) (snd t)"
      using alert_on_entity_reached [of i now m "fst s" "snd s" "fst t" "snd t" db] r by simp
  qed (simp add: reached_self)
  then obtain db1 ids where 1: "each_do (alert_on_entity i now) (alert_entities i) (db, []) = Inr (db1, ids)"
    and r: "reached db db1 ids" by auto
  have "\<forall>rid\<in>set (uniq_first ids). known db1 rid" using reached_known [OF r] by simp
  from recalculate_each_total [OF this] obtain db2 where "recalculate_each env now actor (uniq_first ids) db1 = Inr db2" by blast
  with 1 assms(2) show ?thesis by (simp add: apply_alert_def open_env_def)
qed

lemma each_pairs_total:
  assumes "Q a s"
    and "\<And>x a s. x \<in> set xs \<Longrightarrow> Q a s \<Longrightarrow> \<exists>p. f x (a, s) = Inr p"
    and "\<And>x a s b t. x \<in> set xs \<Longrightarrow> Q a s \<Longrightarrow> f x (a, s) = Inr (b, t) \<Longrightarrow> Q b t"
  shows "\<exists>b t. each_do f xs (a, s) = Inr (b, t) \<and> Q b t"
proof -
  have "\<exists>p. each_do f xs (a, s) = Inr p \<and> Q (fst p) (snd p)"
  proof (rule each_do_total)
    fix x p assume "x \<in> set xs" "Q (fst p) (snd p)"
    moreover from this obtain q where "f x (fst p, snd p) = Inr q" using assms(2) by blast
    ultimately show "\<exists>q. f x p = Inr q \<and> Q (fst q) (snd q)"
      using assms(3) [of x "fst p" "snd p" "fst q" "snd q"] by simp
  qed (simp add: assms(1))
  then show ?thesis by auto
qed

text \<open>The ids the evidence names are not empty.\<close>

definition named_members :: "risk_item \<Rightarrow> bool" where
  "named_members i \<longleftrightarrow> [] \<notin> set (it_hosts i) \<union> set (it_users i) \<union> set (it_source_ips i) \<union> set (it_destination_ips i)"

lemma group_members_valid: "named_members i \<Longrightarrow> m \<in> set (group_members i) \<Longrightarrow> fst m \<in> set ENTITY_TYPES \<and> snd m \<noteq> []"
  by (auto simp: named_members_def group_members_def ENTITY_TYPES_def)

lemma spread_members_valid: "named_members i \<Longrightarrow> m \<in> set (spread_members i) \<Longrightarrow> fst m \<in> set ENTITY_TYPES \<and> snd m \<noteq> []"
  by (auto simp: named_members_def spread_members_def ENTITY_TYPES_def)

lemma finding_on_total:
  assumes "risk_db_ok a" "fst m \<in> set ENTITY_TYPES" "snd m \<noteq> []"
  shows "\<exists>p. finding_on i now m (a, s) = Inr p"
proof -
  note g = get_or_create_total [OF risk_db_okD(1) [OF assms(1)] assms(2,3), where name = "''''" and now = now]
  obtain d where d: "get_factor ''RF006_MULTI_STAGE_CORRELATION'' = Inr d" using registered_factors(2) by blast
  show ?thesis
    unfolding finding_on_def Let_def g then_do_simps prod.case fst_conv
    by (intro then_do_total add_factor_total [OF d] exI, rule refl)
qed

lemma apply_finding_total:
  assumes ok: "risk_db_ok db" and o: "open_env env" and n: "named_members i"
  shows "\<exists>db' rids. apply_finding env i now actor db = Inr (db', rids)"
proof -
  have "\<exists>b t. each_do (finding_on i now) (spread_members i) (db, []) = Inr (b, t) \<and> reached db b t"
  proof (rule each_pairs_total [where Q = "reached db", OF reached_self])
    fix x a s assume "x \<in> set (spread_members i)" "reached db a s"
    then show "\<exists>p. finding_on i now x (a, s) = Inr p"
      using finding_on_total spread_members_valid [OF n] reached_ok [OF _ ok] by blast
  qed (rule finding_on_reached)
  then obtain db1 ids where 1: "each_do (finding_on i now) (spread_members i) (db, []) = Inr (db1, ids)"
    and r: "reached db db1 ids" by blast
  have "\<forall>rid\<in>set (uniq_first ids). known db1 rid" using reached_known [OF r] by simp
  from recalculate_each_total [OF this] obtain db2 where "recalculate_each env now actor (uniq_first ids) db1 = Inr db2" by blast
  with 1 o show ?thesis by (simp add: apply_finding_def open_env_def)
qed

lemma collect_member_total:
  "risk_db_ok a \<Longrightarrow> fst m \<in> set ENTITY_TYPES \<Longrightarrow> snd m \<noteq> [] \<Longrightarrow> \<exists>p. collect_member now m (a, s) = Inr p"
  using get_or_create_total [OF risk_db_okD(1), of a "fst m" "snd m" "[]" now]
  by (cases s) (simp add: collect_member_def)

lemma membership_total: "\<exists>b. membership i now m a = Inr b"
proof -
  obtain d where d: "get_factor ''RF010_BEHAVIOR_GROUP'' = Inr d" using registered_factors(6) by blast
  obtain ty eid rid where m: "m = ((ty, eid), rid)" by (metis prod_cases3 prod.collapse)
  show ?thesis unfolding membership_def m Let_def prod.case by (rule add_factor_total [OF d])
qed

lemma reach_destination_total: "risk_db_ok a \<Longrightarrow> d \<noteq> [] \<Longrightarrow> \<exists>p. reach_destination now d (a, s) = Inr p"
  using get_or_create_total [OF risk_db_okD(1), of a "''HOST''" d "[]" now]
  by (auto simp: reach_destination_def ENTITY_TYPES_def)

lemma destinations_total:
  assumes ok: "risk_db_ok db" and n: "named_members i" and r: "reached db a (map snd ts)"
  shows "\<exists>b us. each_do (reach_destination now) (it_destination_ips i) (a, ts) = Inr (b, us) \<and> reached db b (map snd us)"
proof (rule each_pairs_total [where Q = "\<lambda>a s. reached db a (map snd s)", OF r])
  fix x a and s :: target_ids assume "x \<in> set (it_destination_ips i)" "reached db a (map snd s)"
  then show "\<exists>p. reach_destination now x (a, s) = Inr p"
    using reach_destination_total reached_ok [OF _ ok] n unfolding named_members_def by (metis UnI2)
qed (rule reach_destination_reached(1))

lemma each_plain_total:
  assumes "\<And>rid a. \<exists>b. f rid a = Inr b" shows "\<exists>b. each_do f rids a = Inr b"
proof -
  have "\<exists>b. each_do f rids a = Inr b \<and> True" by (rule each_do_total) (use assms in auto)
  then show ?thesis by blast
qed

lemma apply_technique_total:
  assumes ok: "risk_db_ok db" and n: "named_members i" and r: "reached db a (map snd ts)"
  shows "\<exists>p. apply_technique i now t (a, ts) = Inr p"
proof (cases "map_of TECHNIQUE_FACTORS t")
  case (Some f)
  obtain d where d: "get_factor f = Inr d" using technique_registered [OF Some] by blast
  have each: "\<exists>b. each_do (technique_on i now t f v) rids x = Inr b" for v rids x
    by (rule each_plain_total) (simp only: technique_on_def add_factor_total [OF d])
  obtain b us where "each_do (reach_destination now) (it_destination_ips i) (a, ts) = Inr (b, us)"
    using destinations_total [OF ok n r] by blast
  moreover obtain b1 where "each_do (technique_on i now t f (get_or RISK_FACTOR_WEIGHTS f 0)) (map snd us) b = Inr b1"
    using each by blast
  moreover obtain b2 where "each_do (technique_on i now t f (get_or RISK_FACTOR_WEIGHTS f 0)) (map snd ts) a = Inr b2"
    using each by blast
  ultimately show ?thesis by (simp add: apply_technique_def Some Let_def)
qed (simp add: apply_technique_def)

lemma external_on_total:
  assumes ok: "risk_db_ok a" and d: "d \<noteq> []"
  shows "\<exists>p. external_on i now d (a, ts) = Inr p"
proof -
  obtain f where f: "get_factor ''RF001_EXTERNAL_ACCESS'' = Inr f" using registered_factors(1) by blast
  obtain b us where 1: "reach_destination now d (a, ts) = Inr (b, us)"
    using reach_destination_total [OF ok d, of now ts] by auto
  show ?thesis
    unfolding external_on_def 1 Let_def then_do_simps prod.case
    by (intro then_do_total add_factor_total [OF f] exI, rule refl)
qed

lemma members_total:
  assumes ok: "risk_db_ok db" and n: "named_members i"
  shows "\<exists>db1 ms hs. each_do (collect_member now) (group_members i) (db, [], []) = Inr (db1, ms, hs)
    \<and> reached db db1 (map snd ms @ map snd hs)"
proof -
  have "\<exists>b t. each_do (collect_member now) (group_members i) (db, ([], [])) = Inr (b, t)
      \<and> reached db b (map snd (fst t) @ map snd (snd t))"
  proof (rule each_pairs_total [where Q = "\<lambda>a s. reached db a (map snd (fst s) @ map snd (snd s))"])
    fix x a and s :: "((string \<times> string) \<times> string) list \<times> target_ids"
    assume "x \<in> set (group_members i)" "reached db a (map snd (fst s) @ map snd (snd s))"
    then show "\<exists>p. collect_member now x (a, s) = Inr p"
      using collect_member_total group_members_valid [OF n] reached_ok [OF _ ok] by blast
  next
    fix x a s b t assume r: "reached db a (map snd (fst s) @ map snd (snd s))" and c: "collect_member now x (a, s) = Inr (b, t)"
    show "reached db b (map snd (fst t) @ map snd (snd t))"
      by (rule collect_member_reached [of now x a "fst s" "snd s" b "fst t" "snd t" db, OF _ r]) (simp add: c)
  qed (simp add: reached_self)
  then show ?thesis by (metis fst_conv prod.collapse snd_conv)
qed

lemma memberships_reached:
  assumes "each_do (membership i now) ms db1 = Inr db2" and r: "reached db db1 rids" and s: "set (map snd ms) \<subseteq> set rids"
  shows "reached db db2 rids"
proof (rule each_do_inv [OF assms(1), where P = "\<lambda>a. reached db a rids"])
  fix m a b assume m: "m \<in> set ms" and r: "reached db a rids" and f: "membership i now m a = Inr b"
  have "known a (snd m)" by (rule reached_known [OF r]) (use m s in auto)
  from reached_step [OF r membership_writes [OF f this]] show "reached db b rids" .
qed (rule r)

lemma techniques_total:
  assumes ok: "risk_db_ok db" and n: "named_members i" and r: "reached db a (map snd hs)"
  shows "\<exists>b ts. each_do (apply_technique i now) (it_techniques i) (a, hs) = Inr (b, ts) \<and> reached db b (map snd ts)"
  by (rule each_pairs_total [where Q = "\<lambda>a s. reached db a (map snd s)", OF r])
    (rule apply_technique_total [OF ok n], assumption, rule apply_technique_reached)

lemma externals_total:
  assumes ok: "risk_db_ok db" and n: "named_members i" and r: "reached db a (map snd ts)"
  shows "\<exists>b us. (if group_external i then each_do (external_on i now) (it_destination_ips i) (a, ts) else Inr (a, ts)) = Inr (b, us)
    \<and> reached db b (map snd us)"
proof (cases "group_external i")
  case True
  have "\<exists>b us. each_do (external_on i now) (it_destination_ips i) (a, ts) = Inr (b, us) \<and> reached db b (map snd us)"
  proof (rule each_pairs_total [where Q = "\<lambda>a s. reached db a (map snd s)", OF r])
    fix x a and s :: target_ids assume "x \<in> set (it_destination_ips i)" "reached db a (map snd s)"
    then show "\<exists>p. external_on i now x (a, s) = Inr p"
      using external_on_total reached_ok [OF _ ok] n unfolding named_members_def by (metis UnI2)
  qed (rule external_on_reached)
  with True show ?thesis by simp
qed (use r in simp)

lemma apply_group_total:
  assumes ok: "risk_db_ok db" and o: "open_env env" and n: "named_members i"
  shows "\<exists>db' rids. apply_group env i now actor db = Inr (db', rids)"
proof -
  obtain db1 ms hs where 1: "each_do (collect_member now) (group_members i) (db, [], []) = Inr (db1, ms, hs)"
      and r1: "reached db db1 (map snd ms @ map snd hs)" using members_total [OF ok n] by blast
  obtain db2 where 2: "each_do (membership i now) ms db1 = Inr db2"
    using each_plain_total [of "membership i now" ms db1] membership_total by blast
  have r2: "reached db db2 (map snd ms @ map snd hs)" by (rule memberships_reached [OF 2 r1]) simp
  obtain db3 ts where 3: "each_do (apply_technique i now) (it_techniques i) (db2, hs) = Inr (db3, ts)"
      and r3: "reached db db3 (map snd ts)"
    using techniques_total [OF ok n reached_fewer [OF r2, of "map snd hs"], of now] by auto
  have w23: "risk_writes db2 db3"
    using each_pairs [OF 3, where Q = "\<lambda>a s. reached db2 a (map snd s)"] apply_technique_reached r2
    unfolding reached_def by fastforce
  have k3: "reached db db3 (map snd ms @ map snd hs @ map snd ts)"
    using reached_step [OF r2 w23] r3 unfolding reached_def set_append by blast
  obtain f where f: "get_factor ''RF009_ALERT_SEVERITY'' = Inr f" using registered_factors(5) by blast
  obtain db4 where 4: "each_do (tier_on_host i now) (map snd hs) db3 = Inr db4"
    using each_plain_total [of "tier_on_host i now"] add_factor_total [OF f] unfolding tier_on_host_def by blast
  have k4: "reached db db4 (map snd ms @ map snd hs @ map snd ts)"
    by (rule each_reached [OF 4 _ k3]) (rule tier_on_host_writes, assumption+, auto)
  obtain db5 us where 5: "(if group_external i then each_do (external_on i now) (it_destination_ips i) (db4, ts) else Inr (db4, ts)) = Inr (db5, us)"
      and r5: "reached db4 db5 (map snd us)"
    using externals_total [OF reached_ok [OF k4 ok] n, of db4 ts now] k4 by (auto simp: reached_def)
  have k5: "\<forall>rid\<in>set (map snd ms) \<union> set (map snd us). known db5 rid"
    using k4 r5 known_writes [of db4 db5] unfolding reached_def set_append by blast
  obtain db6 where 6: "recalculate_each env now actor (map snd ms) db5 = Inr db6"
    using recalculate_each_total k5 by (metis UnI1)
  have "\<forall>rid\<in>set (filter (\<lambda>rid. rid \<notin> set (map snd ms)) (map snd us)). known db6 rid"
    using k5 known_writes [OF recalculate_each_writes [OF 6]] by auto
  from recalculate_each_total [OF this] obtain db7 where
    7: "recalculate_each env now actor (filter (\<lambda>rid. rid \<notin> set (map snd ms)) (map snd us)) db6 = Inr db7" by blast
  show ?thesis using o tier_value_bounds(1) [of i] by (simp add: apply_group_def open_env_def 1 2 3 4 5 6 7 [unfolded list.set_map])
qed

end
