(* ===== verification/Risk_Props.thy ===== *)
theory Risk_Props
  imports Risk_Total
begin

text \<open>
  What the entity risk engine promises: the bounds and the movement of a score, the
  invariant of its tables over every run, the history it never rewrites, the end of its
  claim loop, and what becomes of a factor once it has expired.
\<close>

section \<open>Runs\<close>

inductive risk_step :: "risk_env \<Rightarrow> risk_db \<Rightarrow> risk_db \<Rightarrow> bool" for env where
  alert: "apply_alert env i now actor db = Inr (db', rids) \<Longrightarrow> risk_step env db db'"
| group: "apply_group env i now actor db = Inr (db', rids) \<Longrightarrow> risk_step env db db'"
| groups: "apply_groups env gs now actor db = Inr (db', rids) \<Longrightarrow> risk_step env db db'"
| finding: "apply_finding env i now actor db = Inr (db', rids) \<Longrightarrow> risk_step env db db'"
| propagation: "apply_propagation env ty eid origin rel ev reason now actor db = Inr (db', rid) \<Longrightarrow> risk_step env db db'"
| batch: "ingest_evidence env items now actor db = Inr (db', rids) \<Longrightarrow> risk_step env db db'"
| expiry: "expire_factors env now actor db = Inr (db', n) \<Longrightarrow> risk_step env db db'"
| manual: "manual_recalculate env rid now actor db = Inr db' \<Longrightarrow> risk_step env db db'"
| all_of_them: "recalculate_all env now actor db = Inr (db', n) \<Longrightarrow> risk_step env db db'"
| failure: "known db rid \<Longrightarrow> risk_step env db (failure_boundary rid error now db)"

abbreviation risk_run :: "risk_env \<Rightarrow> risk_db \<Rightarrow> bool" where
  "risk_run env db \<equiv> (risk_step env)\<^sup>*\<^sup>* empty_risk_db db"

lemma expire_fold_writes:
  "\<forall>f\<in>set fs. known db (rf_risk_id f) \<Longrightarrow> risk_writes db (foldl (\<lambda>d f. expire_row now actor f d) db fs)"
proof (induction fs arbitrary: db)
  case (Cons f fs)
  then have w: "risk_writes db (expire_row now actor f db)" by (simp add: expire_row_writes)
  moreover have "risk_writes (expire_row now actor f db) (foldl (\<lambda>d f. expire_row now actor f d) (expire_row now actor f db) fs)"
    using Cons known_writes [OF w] by simp
  ultimately show ?case using writes_trans by simp
qed simp

lemma risk_step_writes: "risk_step env db db' \<Longrightarrow> risk_db_ok db \<Longrightarrow> risk_writes db db'"
proof (induction rule: risk_step.induct)
  case (expiry now actor db db' n)
  have "\<forall>f\<in>set (filter (due now) (rdb_factors db)). known db (rf_risk_id f)"
    using risk_db_okD(5) [OF expiry(2)] by (auto simp: children_def)
  moreover have "db' = foldl (\<lambda>d f. expire_row now actor f d) db (filter (due now) (rdb_factors db))"
    using expiry(1) by (auto simp: expire_factors_def results Let_def)
  ultimately show ?case using expire_fold_writes by simp
next
  case (failure db rid error now)
  then show ?case unfolding failure_boundary_def by (intro write_once noted)
qed (auto simp: manual_recalculate_def dest: apply_alert_reached apply_group_reached apply_groups_reached apply_finding_reached
    apply_propagation_reached ingest_reached recalculate_all_writes recalculate_writes simp: reached_def)

lemma risk_run_ok: "risk_run env db \<Longrightarrow> risk_db_ok db"
proof (induction rule: rtranclp_induct)
  case (step a b)
  then show ?case using risk_step_writes risk_writes_ok by blast
qed (rule empty_risk_db_ok)

section \<open>An alert for the examples\<close>

definition sample_env :: risk_env where
  "sample_env = \<lparr>en_config = dev_config, en_power = floor_power, en_took = (\<lambda>_. 0)\<rparr>"

definition sample_item :: risk_item where
  "sample_item = \<lparr>it_kind = Some ''ALERT'', it_severity = Some ''high'', it_first_seen = None, it_last_seen = None,
     it_detector_id = Some ''ssh_brute'', it_rule = None, it_alert_id = Some ''AL-1'', it_source_id = None,
     it_host = Some ''web-1'', it_user = None, it_source_ip = None, it_destination_ip = None, it_account = None,
     it_process = None, it_technique = None, it_group_id = None, it_behavior_group_id = None, it_techniques = [],
     it_hosts = [''web-1''], it_users = [], it_source_ips = [], it_destination_ips = [], it_external_source = False,
     it_alert_count = 0, it_correlation_id = Some ''CF-1'', it_finding_id = None, it_correlation_type = None,
     it_confidence = VNone, it_member_group_ids = None\<rparr>"

lemma open_sample: "open_env sample_env"
  by (simp add: open_env_def sample_env_def)

lemma sample_alert_step: "risk_db_ok db \<Longrightarrow> \<exists>db' rids. apply_alert sample_env sample_item now ''system'' db = Inr (db', rids)"
  by (rule apply_alert_total [OF _ open_sample])

lemma sample_run: "\<exists>db. risk_step sample_env empty_risk_db db"
  using sample_alert_step [OF empty_risk_db_ok] risk_step.alert by blast

section \<open>The invariant\<close>

lemma store_facts:
  assumes ok: "risk_db_ok db"
  shows "distinct (map risk_entity (rdb_risks db))" "distinct (map event_key (rdb_events db))"
    "distinct (map factor_key (rdb_factors db))"
    "r \<in> set (rdb_risks db) \<Longrightarrow> 0 \<le> rk_score r \<and> rk_score r \<le> rk_peak_score r \<and> rk_peak_score r \<le> 100
       \<and> rk_severity r = severity_for (rk_score r) \<and> rk_evidence_count r = 0
       \<and> (rk_state r = ''STALE'' \<or> rk_state r = state_for (rk_score r))"
    "r \<in> set (rdb_risks db) \<Longrightarrow> rk_score r = (case previous_score db (rk_risk_id r) of None \<Rightarrow> 0 | Some s \<Rightarrow> s)"
    "f \<in> set (rdb_factors db) \<Longrightarrow> (\<exists>d. get_factor (rf_factor_id f) = Inr d \<and> 0 \<le> rf_value f * rf_weight f
       \<and> rf_value f * rf_weight f \<le> fd_maximum_contribution d) \<and> (\<exists>r. risk_of db (rf_risk_id f) = Some r)"
proof -
  note k = risk_db_okD [OF ok]
  show "distinct (map risk_entity (rdb_risks db))" using k(1) by (simp add: risk_rows_ok_def)
  show "distinct (map event_key (rdb_events db))" by (rule k(3))
  show "distinct (map factor_key (rdb_factors db))" using k(2) by (simp add: risk_factors_ok_def)
  show "0 \<le> rk_score r \<and> rk_score r \<le> rk_peak_score r \<and> rk_peak_score r \<le> 100
       \<and> rk_severity r = severity_for (rk_score r) \<and> rk_evidence_count r = 0
       \<and> (rk_state r = ''STALE'' \<or> rk_state r = state_for (rk_score r))" if "r \<in> set (rdb_risks db)"
    using k(1) that unfolding risk_rows_ok_def risk_row_ok_def by blast
  show "rk_score r = (case previous_score db (rk_risk_id r) of None \<Rightarrow> 0 | Some s \<Rightarrow> s)" if "r \<in> set (rdb_risks db)"
    using k(4) that unfolding history_ok_def by blast
  show "(\<exists>d. get_factor (rf_factor_id f) = Inr d \<and> 0 \<le> rf_value f * rf_weight f
       \<and> rf_value f * rf_weight f \<le> fd_maximum_contribution d) \<and> (\<exists>r. risk_of db (rf_risk_id f) = Some r)"
    if f: "f \<in> set (rdb_factors db)"
  proof -
    have "risk_factor_ok f" using k(2) f unfolding risk_factors_ok_def by blast
    moreover have "known db (rf_risk_id f)" by (rule k(5)) (use f in \<open>simp add: children_def\<close>)
    ultimately show ?thesis unfolding risk_of_known risk_factor_ok_def by auto
  qed
qed

text \<open>C2: In every run of the engine there is one record per entity, one event and one
  factor per source; a record's score lies between 0 and its peak, the peak under 100, its
  severity is the band of its score, and the score is the one of its last snapshot; every
  factor is registered, stays under its cap, and belongs to a record.  The evidence count of a
  record is 0: nothing ever raises it.\<close>

theorem risk_store_invariant:
  assumes "risk_run env db"
  shows "distinct (map risk_entity (rdb_risks db)) \<and> distinct (map event_key (rdb_events db))
    \<and> distinct (map factor_key (rdb_factors db))
    \<and> (\<forall>r\<in>set (rdb_risks db). 0 \<le> rk_score r \<and> rk_score r \<le> rk_peak_score r \<and> rk_peak_score r \<le> 100
         \<and> rk_severity r = severity_for (rk_score r) \<and> rk_evidence_count r = 0
         \<and> (rk_state r = ''STALE'' \<or> rk_state r = state_for (rk_score r))
         \<and> rk_score r = (case previous_score db (rk_risk_id r) of None \<Rightarrow> 0 | Some s \<Rightarrow> s))
    \<and> (\<forall>f\<in>set (rdb_factors db). (\<exists>d. get_factor (rf_factor_id f) = Inr d \<and> 0 \<le> rf_value f * rf_weight f
         \<and> rf_value f * rf_weight f \<le> fd_maximum_contribution d) \<and> (\<exists>r. risk_of db (rf_risk_id f) = Some r))"
proof -
  note f = store_facts [OF risk_run_ok [OF assms]]
  have rows: "\<forall>r\<in>set (rdb_risks db). 0 \<le> rk_score r \<and> rk_score r \<le> rk_peak_score r \<and> rk_peak_score r \<le> 100
         \<and> rk_severity r = severity_for (rk_score r) \<and> rk_evidence_count r = 0
         \<and> (rk_state r = ''STALE'' \<or> rk_state r = state_for (rk_score r))
         \<and> rk_score r = (case previous_score db (rk_risk_id r) of None \<Rightarrow> 0 | Some s \<Rightarrow> s)"
    using f(4,5) by blast
  have factors: "\<forall>f\<in>set (rdb_factors db). (\<exists>d. get_factor (rf_factor_id f) = Inr d \<and> 0 \<le> rf_value f * rf_weight f
         \<and> rf_value f * rf_weight f \<le> fd_maximum_contribution d) \<and> (\<exists>r. risk_of db (rf_risk_id f) = Some r)"
    using f(6) by blast
  show ?thesis by (rule conjI [OF f(1) conjI [OF f(2) conjI [OF f(3) conjI [OF rows factors]]]])
qed

theorem risk_store_invariant_witness:
  "\<exists>db. risk_step sample_env empty_risk_db db \<and> distinct (map factor_key (rdb_factors db))"
  using sample_run risk_store_invariant [of sample_env] by (metis r_into_rtranclp)

section \<open>History\<close>

definition kept_factor :: "risk_factor \<Rightarrow> risk_factor \<Rightarrow> bool" where
  "kept_factor f g \<longleftrightarrow> g = f\<lparr>rf_expired_at := rf_expired_at g\<rparr> \<and> (rf_expired_at f = None \<or> rf_expired_at g \<noteq> None)"

definition kept_factors :: "risk_db \<Rightarrow> risk_db \<Rightarrow> bool" where
  "kept_factors db db' \<longleftrightarrow> (\<forall>f\<in>set (rdb_factors db). rf_factor_id f \<noteq> ''RF008_RECENCY'' \<longrightarrow>
     (\<exists>g\<in>set (rdb_factors db'). kept_factor f g))"

lemma kept_factor_iff:
  "kept_factor f g \<longleftrightarrow> (\<exists>a. g = f\<lparr>rf_expired_at := a\<rparr> \<and> (rf_expired_at f = None \<or> a \<noteq> None))"
proof
  assume "kept_factor f g"
  then show "\<exists>a. g = f\<lparr>rf_expired_at := a\<rparr> \<and> (rf_expired_at f = None \<or> a \<noteq> None)"
    unfolding kept_factor_def by blast
next
  assume "\<exists>a. g = f\<lparr>rf_expired_at := a\<rparr> \<and> (rf_expired_at f = None \<or> a \<noteq> None)"
  then obtain a where a: "g = f\<lparr>rf_expired_at := a\<rparr>" "rf_expired_at f = None \<or> a \<noteq> None" by blast
  show "kept_factor f g" unfolding kept_factor_def a(1) using a(2) by simp
qed

lemma kept_factor_self: "kept_factor f f"
  unfolding kept_factor_iff by (rule exI [of _ "rf_expired_at f"]) (cases "rf_expired_at f"; simp)

lemma kept_factor_trans: "kept_factor f g \<Longrightarrow> kept_factor g h \<Longrightarrow> kept_factor f h"
proof -
  assume "kept_factor f g" "kept_factor g h"
  then obtain a b where a: "g = f\<lparr>rf_expired_at := a\<rparr>" "rf_expired_at f = None \<or> a \<noteq> None"
    and b: "h = g\<lparr>rf_expired_at := b\<rparr>" "rf_expired_at g = None \<or> b \<noteq> None" unfolding kept_factor_iff by blast
  show ?thesis unfolding kept_factor_iff b(1) a(1) using a b(2) by (intro exI [of _ b]) auto
qed

lemma kept_factor_id: "kept_factor f g \<Longrightarrow> rf_factor_id g = rf_factor_id f"
  unfolding kept_factor_iff by auto

lemma kept_trans: "kept_factors a b \<Longrightarrow> kept_factors b c \<Longrightarrow> kept_factors a c"
  unfolding kept_factors_def
proof (intro ballI impI)
  assume ab: "\<forall>f\<in>set (rdb_factors a). rf_factor_id f \<noteq> ''RF008_RECENCY'' \<longrightarrow> (\<exists>g\<in>set (rdb_factors b). kept_factor f g)"
    and bc: "\<forall>f\<in>set (rdb_factors b). rf_factor_id f \<noteq> ''RF008_RECENCY'' \<longrightarrow> (\<exists>g\<in>set (rdb_factors c). kept_factor f g)"
  fix f assume f: "f \<in> set (rdb_factors a)" "rf_factor_id f \<noteq> ''RF008_RECENCY''"
  obtain g where g: "g \<in> set (rdb_factors b)" "kept_factor f g" using ab f by blast
  have "rf_factor_id g \<noteq> ''RF008_RECENCY''" using kept_factor_id [OF g(2)] f(2) by (simp only: not_False_eq_True)
  then obtain h where h: "h \<in> set (rdb_factors c)" "kept_factor g h" using bc g(1) by blast
  show "\<exists>h\<in>set (rdb_factors c). kept_factor f h" using h kept_factor_trans [OF g(2)] by blast
qed

lemma kept_superset: "set (rdb_factors a) \<subseteq> set (rdb_factors b) \<Longrightarrow> kept_factors a b"
  unfolding kept_factors_def using kept_factor_self by blast

lemma kept_set_factor:
  assumes "\<And>q. factor_key q = factor_key f \<Longrightarrow> rf_factor_id q \<noteq> ''RF008_RECENCY'' \<Longrightarrow> kept_factor q (h q)"
  shows "kept_factors db (set_factor f h db)"
  unfolding kept_factors_def
proof (intro ballI impI)
  fix q assume q: "q \<in> set (rdb_factors db)" "rf_factor_id q \<noteq> ''RF008_RECENCY''"
  have "(if factor_key q = factor_key f then h q else q) \<in> set (rdb_factors (set_factor f h db))"
    using q(1) by (simp add: set_factor_def)
  moreover have "kept_factor q (if factor_key q = factor_key f then h q else q)"
    using assms q(2) kept_factor_self by simp
  ultimately show "\<exists>g\<in>set (rdb_factors (set_factor f h db)). kept_factor q g" by blast
qed

lemma recency_key_id: "recency_key rid f \<Longrightarrow> factor_key q = factor_key f \<Longrightarrow> rf_factor_id q = ''RF008_RECENCY''"
  by (simp add: recency_key_def factor_key_def)

lemma kept_write: "risk_write db db' \<Longrightarrow> kept_factors db db'"
proof (induction rule: risk_write.induct)
  case (renewing rid f seen db)
  then show ?case by (intro kept_set_factor) (use recency_key_id in blast)
next
  case (lapsing rid f db now)
  then show ?case by (intro kept_set_factor) (use recency_key_id in blast)
next
  case (expiring db f now)
  show ?case by (rule kept_set_factor) (simp add: kept_factor_def)
qed (auto intro!: kept_superset simp: risk_audit_record_def log_event_def insert_factor_def try_insert_risk_def set_risk_def
    put_calculation_tables Let_def)

definition longer :: "risk_db \<Rightarrow> risk_db \<Rightarrow> bool" where
  "longer db db' \<longleftrightarrow> prefix (map row_key (rdb_risks db)) (map row_key (rdb_risks db'))
     \<and> prefix (rdb_events db) (rdb_events db') \<and> prefix (map factor_key (rdb_factors db)) (map factor_key (rdb_factors db'))
     \<and> prefix (rdb_snapshots db) (rdb_snapshots db') \<and> prefix (rdb_audit db) (rdb_audit db')"

lemma set_factor_keys: "(\<And>q. factor_key (h q) = factor_key q) \<Longrightarrow>
    map factor_key (rdb_factors (set_factor f h db)) = map factor_key (rdb_factors db)"
  by (simp add: set_factor_def)

lemma longer_write: "risk_write db db' \<Longrightarrow> longer db db'"
proof -
  assume w: "risk_write db db'"
  then have "prefix (rdb_events db) (rdb_events db') \<and> prefix (map factor_key (rdb_factors db)) (map factor_key (rdb_factors db'))
     \<and> prefix (rdb_snapshots db) (rdb_snapshots db') \<and> prefix (rdb_audit db) (rdb_audit db')"
  proof (induction rule: risk_write.induct)
    case (renewing rid f seen db)
    show ?case by (subst set_factor_keys) (simp_all add: factor_key_def renewed_def set_factor_def)
  next
    case (lapsing rid f db now)
    show ?case by (subst set_factor_keys) (simp_all add: factor_key_def lapsed_def set_factor_def)
  next
    case (expiring db f now)
    show ?case by (subst set_factor_keys) (simp_all add: factor_key_def set_factor_def)
  qed (simp_all add: risk_audit_record_def log_event_def insert_factor_def try_insert_risk_def set_risk_def
      put_calculation_tables Let_def)
  then show ?thesis using write_rows [OF w] by (simp add: longer_def)
qed

lemma longer_writes: "risk_writes db db' \<Longrightarrow> longer db db' \<and> kept_factors db db'"
proof (induction rule: rtranclp_induct)
  case base
  show ?case by (simp add: longer_def kept_superset)
next
  case (step a b)
  then show ?case using longer_write [OF step(2)] kept_trans [OF _ kept_write [OF step(2)]]
    unfolding longer_def by (meson prefix_order.trans)
qed

text \<open>No operation rewrites the past.  Records keep their identity, and events, snapshots,
  audit rows and the sources of factors are only added to.  A factor other than recency keeps
  its value, its creation and its expiry for ever, and once it is marked expired it stays
  marked: the evidence that repeats it does not renew it.\<close>

theorem risk_history_kept:
  assumes "risk_run env db" and "risk_step env db db'"
  shows "prefix (map row_key (rdb_risks db)) (map row_key (rdb_risks db'))
    \<and> prefix (rdb_events db) (rdb_events db') \<and> prefix (rdb_snapshots db) (rdb_snapshots db')
    \<and> prefix (rdb_audit db) (rdb_audit db')
    \<and> prefix (map factor_key (rdb_factors db)) (map factor_key (rdb_factors db'))
    \<and> (\<forall>f\<in>set (rdb_factors db). rf_factor_id f \<noteq> ''RF008_RECENCY'' \<longrightarrow>
         (\<exists>g\<in>set (rdb_factors db'). g = f\<lparr>rf_expired_at := rf_expired_at g\<rparr>
            \<and> (rf_expired_at f = None \<or> rf_expired_at g \<noteq> None)))"
  using longer_writes [OF risk_step_writes [OF assms(2) risk_run_ok [OF assms(1)]]]
  unfolding longer_def kept_factors_def kept_factor_def by blast

theorem risk_history_kept_witness:
  "\<exists>db db'. risk_step sample_env empty_risk_db db \<and> risk_step sample_env db db'
     \<and> prefix (rdb_snapshots db) (rdb_snapshots db')"
proof -
  obtain db where db: "risk_step sample_env empty_risk_db db" using sample_run by blast
  then have r: "risk_run sample_env db" by blast
  obtain db' where "risk_step sample_env db db'" using sample_alert_step [OF risk_run_ok [OF r]] risk_step.alert by blast
  from risk_history_kept [OF r this] db this show ?thesis by blast
qed

section \<open>The claim loop\<close>

text \<open>C21: The claim loop ends: in every state the engine reaches, the first of its five
  attempts returns, with the record the entity has or with a new one numbered by the sequence;
  asking again returns the same record and adds no row.\<close>

theorem risk_claim_terminates:
  assumes "risk_run env db" "ty \<in> set ENTITY_TYPES" "eid \<noteq> []"
  shows "\<exists>db' rid. get_or_create_risk ty eid name now db = Inr (db', rid)
    \<and> claim_risk 1 ty eid (if name = [] then eid else name) now db = Inr (db', rid)
    \<and> (\<exists>r. risk_for_entity db' ty eid = Some r \<and> rk_risk_id r = rid)
    \<and> (\<exists>db''. get_or_create_risk ty eid name later db' = Inr (db'', rid) \<and> rdb_risks db'' = rdb_risks db')"
proof -
  let ?name = "if name = [] then eid else name"
  let ?db' = "claimed_db ty eid ?name now db" and ?rid = "claimed_id ty eid db"
  have ok: "risk_db_ok db" by (rule risk_run_ok [OF assms(1)])
  note g = get_or_create_total [OF risk_db_okD(1) [OF ok] assms(2,3), of name now]
  have one: "claim_risk 1 ty eid ?name now db = Inr (?db', ?rid)"
    using claim_first_attempt [OF risk_db_okD(1) [OF ok], of 0] by simp
  have ok': "risk_db_ok ?db'" by (rule risk_writes_ok [OF _ ok]) (use get_or_create_writes [OF g] in simp)
  have r: "\<exists>r. risk_for_entity ?db' ty eid = Some r \<and> rk_risk_id r = ?rid"
  proof (cases "risk_for_entity db ty eid")
    case None
    have "rk_entity_type (new_risk i ty eid n now) = ty" "rk_entity_id (new_risk i ty eid n now) = eid"
      "rk_risk_id (new_risk i ty eid n now) = i" for i n by (simp_all add: new_risk_def)
    then show ?thesis using None
      by (simp add: claimed_db_def claimed_id_def Let_def risk_for_entity_def risk_audit_record_def find_append_None)
  next
    case (Some r)
    then show ?thesis by (simp add: claimed_db_def claimed_id_def Let_def risk_for_entity_def)
  qed
  then obtain r where r': "risk_for_entity ?db' ty eid = Some r" "rk_risk_id r = ?rid" by blast
  have "get_or_create_risk ty eid name later ?db' = Inr (claimed_db ty eid ?name later ?db', ?rid)"
    using get_or_create_total [OF risk_db_okD(1) [OF ok'] assms(2,3), of name later] r' by (simp add: claimed_id_def)
  moreover have "rdb_risks (claimed_db ty eid ?name later d) = rdb_risks d" if "risk_for_entity d ty eid = Some r" for d
    using that by (simp add: claimed_db_def Let_def)
  note this [OF r'(1)]
  ultimately show ?thesis using g one r by blast
qed

theorem risk_claim_terminates_witness:
  "\<exists>db' rid. get_or_create_risk ''HOST'' ''web-1'' '''' 0 empty_risk_db = Inr (db', rid)"
  using risk_claim_terminates [of sample_env empty_risk_db "''HOST''" "''web-1''" "''''" 0 0]
  by (simp add: ENTITY_TYPES_def) blast

end
