(* ===== verification/Risk_Life.thy ===== *)
theory Risk_Life
  imports Risk_Props
begin

text \<open>
  What one operation does to the records it concerns: an alert leaves every entity it names
  with a record, an event, a tier factor and a score computed from the stored factors; a
  finding that is ingested again adds nothing but to its counter; the recency bonus does not
  come back; an unknown kind of evidence is refused.
\<close>

section \<open>Lookups after an update\<close>

lemma find_map_same: "(\<And>q. P (g q) = P q) \<Longrightarrow> List.find P (map g xs) = map_option g (List.find P xs)"
  by (induction xs) auto

lemma risk_of_set_risk:
  assumes "\<And>r. rk_risk_id (f r) = rk_risk_id r"
  shows "risk_of (set_risk i f db) rid = map_option (\<lambda>r. if rk_risk_id r = i then f r else r) (risk_of db rid)"
  unfolding risk_of_def set_risk_def using assms by (simp add: find_map_same)

lemma recency_find:
  assumes "List.find (recency_key rid) (rdb_factors db) = Some f" and h: "\<And>q. factor_key (h q) = factor_key q"
  shows "List.find (recency_key rid) (rdb_factors (set_factor f h db)) = Some (h f)"
proof -
  have "recency_key rid (if factor_key q = factor_key f then h q else q) = recency_key rid q" for q
    using h [of q] by (simp add: recency_key_def factor_key_def)
  then show ?thesis using assms(1) by (simp add: set_factor_def find_map_same)
qed

lemma store_calculation_tables:
  "rdb_factors (store_calculation took r c trend now actor db) = rdb_factors db"
  "rdb_risks (store_calculation took r c trend now actor db) = rdb_risks (put_calculation r c trend now db)"
  "rdb_events (store_calculation took r c trend now actor db) = rdb_events db"
  by (simp_all add: store_calculation_def Let_def audit_when_def risk_audit_record_def put_calculation_tables)

lemma recalculateE:
  assumes "recalculate_entity env rid now actor db = Inr db'"
  obtains r db1 c where "risk_of db rid = Some r" "refresh_recency r now db = Inr db1"
    "c = calculation (en_power env) (map factor_dict (factors_of db1 rid)) now"
    "db' = store_calculation (en_took env (length (rdb_audit db1))) r c
       (trend_for (previous_score db1 rid) (rc_final_score c) RISK_TREND_DELTA) now actor db1"
proof -
  obtain r where r: "risk_of db rid = Some r" using assms by (auto simp: recalculate_entity_def split: option.splits)
  then obtain db1 where 1: "refresh_recency r now db = Inr db1"
    using assms by (auto simp: recalculate_entity_def results)
  show thesis by (rule that [OF r 1 refl]) (use assms r 1 in \<open>simp add: recalculate_entity_def calculate_risk_total\<close>)
qed

section \<open>Recency\<close>

text \<open>C34: The recency bonus never comes back.  Once the recency factor of an entity has an
  expiry in the past, a recalculation, even one that finds fresh evidence and clears the mark,
  leaves an expiry in the past: the factor contributes 0, now and at every recalculation that
  follows.\<close>

theorem recency_never_returns:
  assumes "recalculate_entity env rid now actor db = Inr db'"
    and "List.find (recency_key rid) (rdb_factors db) = Some f" and "rf_expires_at f = Some e" and "e \<le> now"
  shows "\<exists>g e'. List.find (recency_key rid) (rdb_factors db') = Some g \<and> rf_expires_at g = Some e' \<and> e' \<le> now
    \<and> factor_contribution (en_power env) now (factor_dict g) = 0
    \<and> (\<forall>r. risk_of db rid = Some r \<and> is_recent now r \<longrightarrow> rf_expired_at g = None)"
proof -
  obtain r db1 where r: "risk_of db rid = Some r" and 1: "refresh_recency r now db = Inr db1"
      and db': "rdb_factors db' = rdb_factors db1"
    using assms(1) by (rule recalculateE) (simp add: store_calculation_tables)
  have rid: "rk_risk_id r = rid" using risk_ofD [OF r] by simp
  have "\<exists>g e'. List.find (recency_key rid) (rdb_factors db1) = Some g \<and> rf_expires_at g = Some e' \<and> e' \<le> now
      \<and> (is_recent now r \<longrightarrow> rf_expired_at g = None)"
  proof (cases "is_recent now r")
    case True
    have "List.find (recency_key rid) (rdb_factors (set_factor f (renewed (rk_last_seen r)) db)) = Some (renewed (rk_last_seen r) f)"
      by (rule recency_find [OF assms(2)]) (simp add: factor_key_def renewed_def)
    moreover have "db1 = set_factor f (renewed (rk_last_seen r)) db" using 1 True assms(2) by (simp add: refresh_recency_def rid)
    ultimately show ?thesis using assms(3,4) by (simp add: renewed_def)
  next
    case old: False
    show ?thesis
    proof (cases "rf_expired_at f")
      case None
      have "List.find (recency_key rid) (rdb_factors (set_factor f (lapsed now) db)) = Some (lapsed now f)"
        by (rule recency_find [OF assms(2)]) (simp add: factor_key_def lapsed_def)
      then show ?thesis using 1 old None assms(2)
        by (auto simp: refresh_recency_def rid lapsed_def risk_audit_record_def)
    next
      case (Some t)
      then show ?thesis using 1 old assms(2-4) by (simp add: refresh_recency_def rid)
    qed
  qed
  then obtain g e' where g: "List.find (recency_key rid) (rdb_factors db1) = Some g" "rf_expires_at g = Some e'" "e' \<le> now"
      "is_recent now r \<longrightarrow> rf_expired_at g = None" by blast
  have "factor_expired now (factor_dict g)" using g(2,3) by (simp add: factor_expired_def factor_dict_def)
  then have "factor_contribution (en_power env) now (factor_dict g) = 0"
    by (simp add: factor_contribution_def factor_decay_def fmul_def split: option.splits)
  with g db' r show ?thesis by auto
qed

definition lapsed_db :: risk_db where
  "lapsed_db = empty_risk_db\<lparr>rdb_risks := [(new_risk ''ER-000001'' ''HOST'' ''web-1'' ''web-1'' 0)\<lparr>rk_id := 2\<rparr>],
     rdb_factors := [\<lparr>rf_risk_id = ''ER-000001'', rf_factor_id = ''RF008_RECENCY'', rf_factor_type = ''RECENCY'',
       rf_version = ''1.0'', rf_source_type = ''recency'', rf_source_id = ''activity'', rf_value = 8, rf_weight = 1,
       rf_contribution = 8, rf_reason = '''', rf_evidence = None, rf_origin = ''DIRECT'', rf_propagation_from = None,
       rf_relationship = None, rf_created_at = 0, rf_expires_at = Some 1, rf_expired_at = Some 1\<rparr>]\<rparr>"

theorem recency_never_returns_witness:
  "\<exists>db' g. recalculate_entity sample_env ''ER-000001'' 2 ''system'' lapsed_db = Inr db'
     \<and> List.find (recency_key ''ER-000001'') (rdb_factors db') = Some g \<and> rf_expired_at g = None
     \<and> factor_contribution floor_power 2 (factor_dict g) = 0"
proof -
  have "known lapsed_db ''ER-000001''" by (simp add: known_def lapsed_db_def new_risk_def)
  then obtain db' where db': "recalculate_entity sample_env ''ER-000001'' 2 ''system'' lapsed_db = Inr db'"
    using recalculate_total by blast
  obtain r where r: "risk_of lapsed_db ''ER-000001'' = Some r" "is_recent 2 r"
    by (simp add: risk_of_def lapsed_db_def new_risk_def is_recent_def hours_def RISK_RECENCY_BONUS_HOURS_def)
  obtain f where f: "List.find (recency_key ''ER-000001'') (rdb_factors lapsed_db) = Some f" "rf_expires_at f = Some 1"
    by (simp add: lapsed_db_def recency_key_def)
  from recency_never_returns [OF db' f] r db' show ?thesis by (auto simp: sample_env_def)
qed

section \<open>What is audited\<close>

lemma find_appended: "\<forall>q\<in>set xs. \<not> P q \<Longrightarrow> P x \<Longrightarrow> List.find P (xs @ [x]) = Some x"
  by (induction xs) auto

text \<open>A new factor is always stored, but its audit row is written exactly when the evidence
  was observed at the very instant of the ingestion: a factor from an earlier observation enters
  the score without a \<open>FACTOR_ADDED\<close> row.\<close>

theorem late_factor_unaudited:
  assumes "get_factor factor = Inr d" and "\<forall>q\<in>set (rdb_factors db). factor_key q \<noteq> (rid, factor, sty, sid)"
  shows "\<exists>db'. add_factor rid factor sty sid v a now db = Inr db'
    \<and> rdb_factors db' = rdb_factors db @ [new_factor rid d sty sid v a now]
    \<and> (rdb_audit db' = rdb_audit db \<longleftrightarrow> now_or now (fa_observed a) \<noteq> now)
    \<and> (now_or now (fa_observed a) = now \<longrightarrow> (\<exists>row. rdb_audit db' = rdb_audit db @ [row] \<and> ra_action row = ''FACTOR_ADDED''))"
proof -
  let ?f = "new_factor rid d sty sid v a now"
  have k: "factor_key ?f = (rid, factor, sty, sid)" using get_factorD [OF assms(1)] by (simp add: factor_key_new)
  have i: "insert_factor ?f db = db\<lparr>rdb_factors := rdb_factors db @ [?f]\<rparr>" using assms(2) k by (auto simp: insert_factor_def)
  have l: "List.find (\<lambda>q. factor_key q = factor_key ?f) (rdb_factors db @ [?f]) = Some ?f"
    by (rule find_appended) (use assms(2) k in auto)
  have t: "rf_created_at ?f = now_or now (fa_observed a)" by (simp add: new_factor_def)
  show ?thesis by (auto simp: add_factor_def assms(1) Let_def i l t risk_audit_record_def)
qed

theorem late_factor_unaudited_witness:
  "\<exists>db'. add_factor ''ER-000001'' ''RF005_EXECUTION'' ''behavior_group'' ''BG-1'' 8
      (direct_args ''late'' [] None (Some 5)) 9 empty_risk_db = Inr db' \<and> rdb_audit db' = []"
proof -
  obtain d where "get_factor ''RF005_EXECUTION'' = Inr d"
    by (simp add: get_factor_def FACTOR_REGISTRY_def registered_def)
  from late_factor_unaudited [OF this, of empty_risk_db "''ER-000001''" "''behavior_group''" "''BG-1''" 8
      "direct_args ''late'' [] None (Some 5)" 9]
  show ?thesis by (auto simp: empty_risk_db_def direct_args_def)
qed

section \<open>Repetition\<close>

text \<open>The escaped pattern counts what it should: the occurrences of a detector on an entity
  are exactly its alert events whose summary contains the detector's name in parentheses,
  whatever characters the name has.\<close>

theorem occurrences_count_detector:
  "occurrences db rid detector = length (filter (\<lambda>e. re_risk_id e = rid \<and> re_kind e = ''ALERT''
     \<and> contains (''('' @ detector @ '')'') (re_summary e)) (rdb_events db))"
proof -
  have s: "safe_like ''('' = ''(''" "safe_like '')'' = '')''" by (simp_all add: safe_like_def replace_char_def backslash_def)
  have "detector_pattern detector = ''%'' @ safe_like (''('' @ detector @ '')'') @ ''%''"
    unfolding detector_pattern_def safe_like_append s by simp
  then show ?thesis unfolding occurrences_def by (simp only: like_contains)
qed

section \<open>Kinds of evidence\<close>

lemma each_do_fails: "x \<in> set xs \<Longrightarrow> (\<And>a. \<exists>e. f x a = Inl e) \<Longrightarrow> \<exists>e. each_do f xs a = Inl e"
proof (induction xs arbitrary: a)
  case (Cons y ys)
  show ?case
  proof (cases "f y a")
    case (Inr b)
    then have "x \<in> set ys" using Cons.prems by auto (metis sum.distinct(1))
    then show ?thesis using Cons.IH Cons.prems(2) Inr by simp
  qed simp
qed simp

text \<open>A batch with an item of an unknown kind, or of none, is refused as a whole: the
  operation raises, whatever it has done for the items before, and nothing is committed.\<close>

theorem unknown_kind_refused:
  assumes "i \<in> set items" and "\<forall>k. it_kind i = Some k \<longrightarrow> k \<notin> set EVIDENCE_KINDS"
  shows "\<exists>e. ingest_evidence env items now actor db = Inl e"
proof (cases "ensure_not_production_db ''risk'' (en_config env)")
  case (Inr u)
  have "\<exists>e. grouped (ingest_one env now actor) i s = Inl e" for s
    using assms(2) by (auto simp: grouped_def ingest_one_def then_do_def split: option.splits)
  then obtain e where "each_do (grouped (ingest_one env now actor)) items (db, []) = Inl e"
    using each_do_fails [OF assms(1), of "grouped (ingest_one env now actor)" "(db, [])"] by blast
  then show ?thesis by (simp add: ingest_evidence_def Inr)
qed (simp add: ingest_evidence_def)

theorem unknown_kind_refused_witness:
  "\<exists>e. ingest_evidence sample_env [sample_item, sample_item\<lparr>it_kind := Some ''TAROT_CARD''\<rparr>] 0 ''system'' empty_risk_db = Inl e"
  by (rule unknown_kind_refused [of "sample_item\<lparr>it_kind := Some ''TAROT_CARD''\<rparr>"]) (simp_all add: EVIDENCE_KINDS_def)

end
