(* ===== verification/Risk_Ingest.thy ===== *)
theory Risk_Ingest
  imports Risk_Life
begin

text \<open>
  The effect of an ingestion on the entities it names: their records, events and factors
  exist, their scores are the calculator's on the stored factors, and ingesting the same
  finding again adds neither event nor factor.
\<close>

section \<open>Recalculated records\<close>

definition scored :: "risk_env \<Rightarrow> time \<Rightarrow> risk_db \<Rightarrow> string \<Rightarrow> bool" where
  "scored env now db rid \<longleftrightarrow> (\<exists>r. risk_of db rid = Some r \<and> rk_last_calculated r = Some now
     \<and> rk_score r = risk_score (en_power env) now (map factor_dict (factors_of db rid)))"

lemma factors_of_set_factor:
  "(\<And>q. factor_key (h q) = factor_key q) \<Longrightarrow> rf_risk_id f \<noteq> rid \<Longrightarrow> factors_of (set_factor f h db) rid = factors_of db rid"
proof -
  assume h: "\<And>q. factor_key (h q) = factor_key q" and r: "rf_risk_id f \<noteq> rid"
  have "filter (\<lambda>f. rf_risk_id f = rid) (map (\<lambda>q. if factor_key q = factor_key f then h q else q) fs)
      = filter (\<lambda>f. rf_risk_id f = rid) fs" for fs
  proof (induction fs)
    case (Cons q fs)
    have "rf_risk_id (h q) = rf_risk_id q" using h [of q] by (simp add: factor_key_def)
    then show ?case using Cons r by (auto simp: factor_key_def)
  qed simp
  then show ?thesis by (simp add: factors_of_def set_factor_def)
qed

lemma add_factor_other:
  "add_factor rid factor sty sid v a now db = Inr db' \<Longrightarrow> rid' \<noteq> rid \<Longrightarrow> factors_of db' rid' = factors_of db rid'"
  by (auto simp: add_factor_def results Let_def insert_factor_def risk_audit_record_def factors_of_def new_factor_def
      split: option.splits if_splits)

lemma refresh_other:
  assumes "refresh_recency r now db = Inr db'" and "rid' \<noteq> rk_risk_id r"
  shows "factors_of db' rid' = factors_of db rid'"
proof (cases "List.find (recency_key (rk_risk_id r)) (rdb_factors db)")
  case None
  then show ?thesis using assms add_factor_other by (cases "is_recent now r") (simp_all add: refresh_recency_def)
next
  case (Some f)
  then have "rf_risk_id f \<noteq> rid'" using assms(2) by (auto simp: recency_key_def dest: find_SomeD)
  note s = factors_of_set_factor [OF _ this]
  have a: "factors_of (set_factor f (renewed t) db) rid' = factors_of db rid'" for t
    by (rule s) (simp add: factor_key_def renewed_def)
  have b: "factors_of (set_factor f (lapsed now) db) rid' = factors_of db rid'"
    by (rule s) (simp add: factor_key_def lapsed_def)
  have c: "factors_of (risk_audit_record i ac x d p p' q q' t d') rid' = factors_of d' rid'" for i ac x d p p' q q' t d'
    by (simp add: factors_of_def risk_audit_record_def)
  show ?thesis using assms(1) Some a b c
    by (cases "is_recent now r"; cases "rf_expired_at f") (auto simp: refresh_recency_def)
qed

lemma recalculated_fields:
  "rk_score (recalculated c s t now r) = rc_final_score c" "rk_last_calculated (recalculated c s t now r) = Some now"
  "rk_risk_id (recalculated c s t now r) = rk_risk_id r" "rk_correlation_count (recalculated c s t now r) = rk_correlation_count r"
  "rk_entity_type (recalculated c s t now r) = rk_entity_type r" "rk_entity_id (recalculated c s t now r) = rk_entity_id r"
  by (simp_all add: recalculated_def Let_def)

lemma recalculate_rows:
  assumes "recalculate_entity env rid now actor db = Inr db'"
  obtains r c s t where "risk_of db rid = Some r"
    "c = calculation (en_power env) (map factor_dict (factors_of db' rid)) now"
    "rdb_risks db' = rdb_risks (set_risk rid (recalculated c s t now) db)"
    "\<And>rid'. rid' \<noteq> rid \<Longrightarrow> factors_of db' rid' = factors_of db rid'"
    "rdb_events db' = rdb_events db"
proof -
  obtain r db1 c where r: "risk_of db rid = Some r" and 1: "refresh_recency r now db = Inr db1"
    and c: "c = calculation (en_power env) (map factor_dict (factors_of db1 rid)) now"
    and db': "db' = store_calculation (en_took env (length (rdb_audit db1))) r c
       (trend_for (previous_score db1 rid) (rc_final_score c) RISK_TREND_DELTA) now actor db1"
    using recalculateE [OF assms] .
  have rid: "rk_risk_id r = rid" using risk_ofD [OF r] by simp
  have k: "known db (rk_risk_id r)" using r rid risk_of_known by blast
  have rows: "rdb_risks db1 = rdb_risks db" using refresh_writes [OF 1 k] by simp
  have ev: "rdb_events db1 = rdb_events db"
    using 1 add_factor_rows by (fastforce simp: refresh_recency_def set_factor_def risk_audit_record_def split: option.splits if_splits)
  have f: "factors_of db' i = factors_of db1 i" for i by (simp add: db' factors_of_def store_calculation_tables)
  show thesis
  proof (rule that [OF r])
    show "c = calculation (en_power env) (map factor_dict (factors_of db' rid)) now" by (simp add: f c)
    show "rdb_risks db' = rdb_risks (set_risk rid (recalculated c (if is_stale now r then ''STALE'' else rc_state c)
        (trend_for (previous_score db1 rid) (rc_final_score c) RISK_TREND_DELTA) now) db)"
      by (simp add: db' store_calculation_tables put_calculation_tables rid set_risk_def rows)
    show "factors_of db' rid' = factors_of db rid'" if "rid' \<noteq> rid" for rid'
      using refresh_other [OF 1] that rid by (simp add: f)
    show "rdb_events db' = rdb_events db" by (simp add: db' store_calculation_tables ev)
  qed
qed

lemma risk_of_rows: "rdb_risks a = rdb_risks b \<Longrightarrow> risk_of a = risk_of b"
  by (simp add: risk_of_def fun_eq_iff)

lemma recalculate_scored: "recalculate_entity env rid now actor db = Inr db' \<Longrightarrow> scored env now db' rid"
proof (erule recalculate_rows)
  fix r c s t
  assume r: "risk_of db rid = Some r" and c: "c = calculation (en_power env) (map factor_dict (factors_of db' rid)) now"
    and rows: "rdb_risks db' = rdb_risks (set_risk rid (recalculated c s t now) db)"
  have "risk_of db' rid = Some (recalculated c s t now r)"
    using risk_ofD [OF r] by (simp add: risk_of_rows [OF rows] risk_of_set_risk recalculated_fields r)
  then show "scored env now db' rid" by (simp add: scored_def recalculated_fields c)
qed

lemma recalculate_keeps_scored:
  "recalculate_entity env rid now actor db = Inr db' \<Longrightarrow> scored env now db rid' \<Longrightarrow> scored env now db' rid'"
proof (cases "rid' = rid")
  case False
  assume a: "recalculate_entity env rid now actor db = Inr db'" and s: "scored env now db rid'"
  show ?thesis
    using a
  proof (rule recalculate_rows)
    fix r c st t
    assume rows: "rdb_risks db' = rdb_risks (set_risk rid (recalculated c st t now) db)"
      and f: "\<And>rid'. rid' \<noteq> rid \<Longrightarrow> factors_of db' rid' = factors_of db rid'"
    obtain q where q: "risk_of db rid' = Some q" "rk_last_calculated q = Some now"
        "rk_score q = risk_score (en_power env) now (map factor_dict (factors_of db rid'))" using s scored_def by blast
    have "risk_of db' rid' = Some q"
      using risk_ofD [OF q(1)] False by (simp add: risk_of_rows [OF rows] risk_of_set_risk recalculated_fields q(1))
    then show ?thesis using q f [OF False] by (simp add: scored_def)
  qed
qed (simp add: recalculate_scored)

lemma recalculate_each_scored:
  "recalculate_each env now actor rids db = Inr db' \<Longrightarrow> rid \<in> set rids \<Longrightarrow> scored env now db' rid"
proof -
  have keep: "each_do (\<lambda>rid. recalculate_entity env rid now actor) rids a = Inr b \<Longrightarrow> scored env now a x \<Longrightarrow> scored env now b x" for a b x rids
    by (erule each_do_inv) (auto intro: recalculate_keeps_scored)
  assume "recalculate_each env now actor rids db = Inr db'" "rid \<in> set rids"
  then show ?thesis
    unfolding recalculate_each_def
  proof (induction rids arbitrary: db)
    case (Cons x xs)
    then obtain a where a: "recalculate_entity env x now actor db = Inr a"
        "each_do (\<lambda>rid. recalculate_entity env rid now actor) xs a = Inr db'" by (auto simp: results)
    then show ?case using Cons.IH [OF a(2)] Cons.prems(2) keep [OF a(2) recalculate_scored] by auto
  qed simp
qed

section \<open>What an ingestion leaves\<close>

definition entity_id :: "risk_db \<Rightarrow> string \<times> string \<Rightarrow> string option" where
  "entity_id db m = map_option rk_risk_id (risk_for_entity db (fst m) (snd m))"

definition event_keys :: "risk_db \<Rightarrow> (string \<times> string \<times> string) set" where
  "event_keys db = event_key ` set (rdb_events db)"

definition factor_keys :: "risk_db \<Rightarrow> (string \<times> string \<times> string \<times> string) set" where
  "factor_keys db = factor_key ` set (rdb_factors db)"

text \<open>\<open>covered\<close>: the entity has a record, the event and the factor of the source.\<close>

definition covered :: "string \<times> string \<Rightarrow> string \<times> string \<Rightarrow> string \<times> string \<times> string \<Rightarrow> risk_db \<Rightarrow> string list \<Rightarrow> bool" where
  "covered m ev f db rids \<longleftrightarrow> (\<exists>rid\<in>set rids. entity_id db m = Some rid \<and> (rid, fst ev, snd ev) \<in> event_keys db
     \<and> (rid, fst f, fst (snd f), snd (snd f)) \<in> factor_keys db)"

lemma entity_id_keys: "entity_id db m = map_option (\<lambda>k. fst (snd k))
    (List.find (\<lambda>k. snd (snd k) = m) (map row_key (rdb_risks db)))"
proof -
  have "List.find (\<lambda>k. snd (snd k) = m) (map row_key rs)
      = map_option row_key (List.find (\<lambda>r. rk_entity_type r = fst m \<and> rk_entity_id r = snd m) rs)" for rs
    by (induction rs) (auto simp: row_key_def)
  then show ?thesis by (simp add: entity_id_def risk_for_entity_def option.map_comp comp_def row_key_def)
qed

lemma find_before: "List.find P xs = Some x \<Longrightarrow> List.find P (xs @ ys) = Some x"
  by (induction xs) (auto split: if_splits)

lemma find_prefix: "prefix xs ys \<Longrightarrow> List.find P xs = Some x \<Longrightarrow> List.find P ys = Some x"
  by (elim prefixE) (simp add: find_before)

lemma entity_id_longer: "longer a b \<Longrightarrow> entity_id a m = Some rid \<Longrightarrow> entity_id b m = Some rid"
  unfolding entity_id_keys longer_def using find_prefix by fastforce

lemma event_keys_longer: "longer a b \<Longrightarrow> event_keys a \<subseteq> event_keys b"
  unfolding longer_def event_keys_def using set_mono_prefix by blast

lemma factor_keys_longer: "longer a b \<Longrightarrow> factor_keys a \<subseteq> factor_keys b"
  unfolding longer_def factor_keys_def using set_mono_prefix by (metis list.set_map)

lemma covered_longer: "covered m ev f a rids \<Longrightarrow> longer a b \<Longrightarrow> set rids \<subseteq> set rids' \<Longrightarrow> covered m ev f b rids'"
  unfolding covered_def using entity_id_longer event_keys_longer factor_keys_longer by blast

lemma covered_writes: "covered m ev f a rids \<Longrightarrow> risk_writes a b \<Longrightarrow> set rids \<subseteq> set rids' \<Longrightarrow> covered m ev f b rids'"
  using covered_longer longer_writes by blast

lemma log_event_key: "(rid, sty, sid) \<in> event_keys (log_event rid kind sty sid seen summary now db)"
  by (auto simp: event_keys_def log_event_def event_key_def Let_def image_iff)

lemma factor_keys_insert: "factor_key f \<in> factor_keys (insert_factor f db)"
proof (cases "\<exists>q\<in>set (rdb_factors db). factor_key q = factor_key f")
  case True
  then obtain q where q: "q \<in> set (rdb_factors db)" "factor_key q = factor_key f" by blast
  have "factor_key q \<in> factor_keys db" using q(1) by (simp add: factor_keys_def)
  then show ?thesis using True q(2) by (simp add: insert_factor_def)
qed (simp add: insert_factor_def factor_keys_def)

lemma add_factor_key:
  assumes "add_factor rid factor sty sid v a now db = Inr db'"
  shows "(rid, factor, sty, sid) \<in> factor_keys db'"
proof -
  obtain d where d: "get_factor factor = Inr d" using add_factor_get [OF assms] by blast
  let ?f = "new_factor rid d sty sid v a now"
  have "rdb_factors db' = rdb_factors (insert_factor ?f db)"
    using assms by (auto simp: add_factor_def d Let_def risk_audit_record_def split: option.splits if_splits)
  then have "factor_keys db' = factor_keys (insert_factor ?f db)" by (simp add: factor_keys_def)
  then show ?thesis using factor_keys_insert [of ?f db] get_factorD [OF d] by (simp add: factor_key_new)
qed

lemma claimed_entity: "risk_rows_ok db \<Longrightarrow> entity_id (claimed_db ty eid name now db) (ty, eid) = Some (claimed_id ty eid db)"
proof (cases "risk_for_entity db ty eid")
  case None
  have "rk_entity_type (new_risk i ty eid n now) = ty" "rk_entity_id (new_risk i ty eid n now) = eid"
    "rk_risk_id (new_risk i ty eid n now) = i" for i n by (simp_all add: new_risk_def)
  then show ?thesis using None
    by (simp add: entity_id_def claimed_db_def claimed_id_def Let_def risk_for_entity_def risk_audit_record_def find_append_None)
next
  case (Some r)
  then show ?thesis by (simp add: entity_id_def claimed_db_def claimed_id_def Let_def risk_for_entity_def)
qed

lemma get_or_create_entity:
  assumes "get_or_create_risk ty eid name now db = Inr (db', rid)" "risk_rows_ok db"
  shows "entity_id db' (ty, eid) = Some rid"
proof -
  have "ty \<in> set ENTITY_TYPES" "eid \<noteq> []" using assms(1) by (auto simp: get_or_create_risk_def split: if_splits)
  from get_or_create_total [OF assms(2) this] assms(1) claimed_entity [OF assms(2)] show ?thesis by auto
qed

text \<open>The event and the factor an alert leaves on an entity.\<close>

abbreviation alert_covered :: "risk_item \<Rightarrow> string \<times> string \<Rightarrow> risk_db \<Rightarrow> string list \<Rightarrow> bool" where
  "alert_covered i m \<equiv> covered m (''alert'', alert_source i) (''RF009_ALERT_SEVERITY'', ''alert'', ''tier:'' @ item_severity i)"

lemma log_event_keys: "event_keys (set_risk rid f db) = event_keys db"
  by (simp add: event_keys_def set_risk_def)

lemma alert_on_entity_covered:
  assumes "alert_on_entity i now m (a, rids) = Inr (b, rids')" and ok: "risk_db_ok a"
  shows "alert_covered i m b rids'" and "longer a b"
proof -
  obtain db1 rid db2 ev where 1: "get_or_create_risk (fst m) (snd m) '''' now a = Inr (db1, rid)"
    and 2: "add_factor rid ''RF009_ALERT_SEVERITY'' ''alert'' (''tier:'' @ item_severity i) (tier_value i) ev now
       (set_risk rid (\<lambda>r. r\<lparr>rk_last_seen := max (rk_last_seen r) (alert_observed i now), rk_alert_count := rk_alert_count r + 1\<rparr>)
          (log_event rid ''ALERT'' ''alert'' (alert_source i) (alert_observed i now) (alert_summary i) now db1)) = Inr db2"
    and 3: "repetition_factor i now rid db2 = Inr b" and 4: "rids' = rids @ [rid]"
    using assms(1) unfolding alert_on_entity_def Let_def by (auto simp: results)
  note g = get_or_create_writes [OF 1]
  note l = log_and_touch [OF g [THEN conjunct2], where a = 1 and g = 0 and c = 0 and seen = "alert_observed i now"]
  let ?t = "set_risk rid (\<lambda>r. r\<lparr>rk_last_seen := max (rk_last_seen r) (alert_observed i now), rk_alert_count := rk_alert_count r + 1\<rparr>)
          (log_event rid ''ALERT'' ''alert'' (alert_source i) (alert_observed i now) (alert_summary i) now db1)"
  have w1: "risk_writes db1 ?t" by (rule l(1)) simp
  then have lt: "longer db1 ?t" using longer_writes by blast
  have w: "risk_writes ?t db2" by (rule add_tier [OF 2 l(2)]) simp
  have k: "known db2 rid" by (rule known_writes [OF w l(2)]) simp
  have w3: "risk_writes ?t b" using w repetition_writes [OF 3 k] by (rule writes_trans)
  have "entity_id db1 m = Some rid"
    using get_or_create_entity [OF 1 risk_db_okD(1) [OF ok]] by simp
  then have "entity_id b m = Some rid" using lt longer_writes [OF w3] entity_id_longer by blast
  moreover have "(rid, ''alert'', alert_source i) \<in> event_keys b"
    using log_event_key [of rid "''alert''" "alert_source i"] log_event_keys event_keys_longer longer_writes [OF w3] by blast
  moreover have "(rid, ''RF009_ALERT_SEVERITY'', ''alert'', ''tier:'' @ item_severity i) \<in> factor_keys b"
    using add_factor_key [OF 2] factor_keys_longer longer_writes [OF repetition_writes [OF 3 k]] by blast
  ultimately show "alert_covered i m b rids'" by (simp add: covered_def 4)
  show "longer a b" using longer_writes writes_trans [OF g [THEN conjunct1] writes_trans [OF w1 w3]] by blast
qed

text \<open>A loop that covers each of its elements covers them all.\<close>

lemma each_covers:
  assumes "each_do f xs (a, s) = Inr (b, t)" and "Q a s"
    and step: "\<And>x a s b t. x \<in> set xs \<Longrightarrow> Q a s \<Longrightarrow> f x (a, s) = Inr (b, t) \<Longrightarrow> Q b t \<and> C x b t"
    and keep: "\<And>x y a s b t. y \<in> set xs \<Longrightarrow> Q a s \<Longrightarrow> C x a s \<Longrightarrow> f y (a, s) = Inr (b, t) \<Longrightarrow> C x b t"
  shows "\<forall>x\<in>set xs. C x b t"
proof -
  have "\<forall>x\<in>set ys. C x b t" if "set ys \<subseteq> set xs" "each_do f ys (a, s) = Inr (b, t)" "Q a s" for ys
    using that
  proof (induction ys arbitrary: a s)
    case (Cons y ys)
    obtain p where "f y (a, s) = Inr p" "each_do f ys p = Inr (b, t)" using Cons.prems(2) by (auto simp: results)
    then obtain a1 s1 where 1: "f y (a, s) = Inr (a1, s1)" and 2: "each_do f ys (a1, s1) = Inr (b, t)" by (cases p) auto
    have y: "y \<in> set xs" and ys: "set ys \<subseteq> set xs" using Cons.prems(1) by auto
    note q = step [OF y Cons.prems(3) 1]
    have "Q b t \<and> C y b t"
    proof (rule each_pairs [OF 2, where Q = "\<lambda>a s. Q a s \<and> C y a s", OF q])
      fix z a s b t assume z: "z \<in> set ys" and qc: "Q a s \<and> C y a s" and f: "f z (a, s) = Inr (b, t)"
      have z: "z \<in> set xs" using z ys by blast
      show "Q b t \<and> C y b t" using step [OF z _ f] keep [OF z _ _ f] qc by blast
    qed
    moreover have "\<forall>x\<in>set ys. C x b t" using Cons.IH [OF ys 2] q by blast
    ultimately show ?case by simp
  qed simp
  from this [OF order_refl assms(1,2)] show ?thesis .
qed

lemma alert_loop_covered:
  assumes "each_do (alert_on_entity i now) ms (db, []) = Inr (db1, ids)" and ok: "risk_db_ok db"
  shows "\<forall>m\<in>set ms. alert_covered i m db1 ids"
proof (rule each_covers [OF assms(1), where Q = "reached db"])
  show "reached db db []" by (rule reached_self)
next
  fix m a s b t assume r: "reached db a s" and f: "alert_on_entity i now m (a, s) = Inr (b, t)"
  show "reached db b t \<and> alert_covered i m b t"
    using alert_on_entity_reached [OF f r] alert_on_entity_covered(1) [OF f reached_ok [OF r ok]] by blast
next
  fix m y a s b t assume r: "reached db a s" and c: "alert_covered i m a s" and f: "alert_on_entity i now y (a, s) = Inr (b, t)"
  have "set s \<subseteq> set t" using f unfolding alert_on_entity_def Let_def by (auto simp: results)
  then show "alert_covered i m b t"
    using covered_longer [OF c alert_on_entity_covered(2) [OF f reached_ok [OF r ok]]] by blast
qed

text \<open>C13: In every state the engine reaches, and unless it is the production database, an alert is
  ingested without error.  Afterwards every entity the alert names has a record among those
  returned, an event for the alert and a factor for its severity tier, and the score of every
  record returned is the calculator's score of the factors stored for it, computed now.\<close>

theorem alert_ingestion:
  assumes "risk_run env db" and "open_env env"
  shows "\<exists>db' rids. apply_alert env i now actor db = Inr (db', rids)
    \<and> (\<forall>m\<in>set (alert_entities i). \<exists>rid\<in>set rids. entity_id db' m = Some rid
         \<and> (rid, ''alert'', alert_source i) \<in> event_keys db'
         \<and> (rid, ''RF009_ALERT_SEVERITY'', ''alert'', ''tier:'' @ item_severity i) \<in> factor_keys db')
    \<and> (\<forall>rid\<in>set rids. scored env now db' rid)"
proof -
  have ok: "risk_db_ok db" by (rule risk_run_ok [OF assms(1)])
  obtain db' rids where a: "apply_alert env i now actor db = Inr (db', rids)"
    using apply_alert_total [OF ok assms(2)] by blast
  then obtain db1 ids where 1: "each_do (alert_on_entity i now) (alert_entities i) (db, []) = Inr (db1, ids)"
    and 2: "recalculate_each env now actor (uniq_first ids) db1 = Inr db'" and 3: "rids = uniq_first ids"
    unfolding apply_alert_def by (auto simp: results)
  have "set ids \<subseteq> set rids" by (simp add: 3)
  then have "\<forall>m\<in>set (alert_entities i). alert_covered i m db' rids"
    using alert_loop_covered [OF 1 ok] covered_writes [OF _ recalculate_each_writes [OF 2]] by blast
  moreover have "\<forall>rid\<in>set rids. scored env now db' rid" using recalculate_each_scored [OF 2] by (simp add: 3)
  ultimately show ?thesis using a unfolding covered_def by auto
qed

theorem alert_ingestion_witness:
  "\<exists>db' rids. apply_alert sample_env sample_item 0 ''system'' empty_risk_db = Inr (db', rids)
     \<and> (\<exists>rid\<in>set rids. entity_id db' (''HOST'', ''web-1'') = Some rid)"
proof -
  have "(''HOST'', ''web-1'') \<in> set (alert_entities sample_item)" by (simp add: alert_entities_def sample_item_def)
  then show ?thesis
    using alert_ingestion [of sample_env empty_risk_db sample_item 0 "''system''"] open_sample by blast
qed

end
