(* ===== verification/Risk_Again.thy ===== *)
theory Risk_Again
  imports Risk_Ingest
begin

text \<open>Ingesting the same finding a second time: no event, no factor, but one more on the
  counter of every entity it names.\<close>

section \<open>Writes that change nothing\<close>

lemma log_event_idle: "(rid, sty, sid) \<in> event_keys db \<Longrightarrow> log_event rid kind sty sid seen summary now db = db"
  by (auto simp: log_event_def Let_def event_keys_def event_key_def)

lemma add_factor_idle:
  assumes "add_factor rid factor sty sid v a now db = Inr db'" and "(rid, factor, sty, sid) \<in> factor_keys db"
  shows "rdb_factors db' = rdb_factors db \<and> rdb_events db' = rdb_events db \<and> rdb_risks db' = rdb_risks db"
proof -
  obtain d where d: "get_factor factor = Inr d" using add_factor_get [OF assms(1)] by blast
  have "factor_key (new_factor rid d sty sid v a now) = (rid, factor, sty, sid)"
    using get_factorD [OF d] by (simp add: factor_key_new)
  then have "insert_factor (new_factor rid d sty sid v a now) db = db"
    using assms(2) by (auto simp: insert_factor_def factor_keys_def)
  then have "rdb_factors db' = rdb_factors db"
    using assms(1) by (auto simp: add_factor_def d Let_def risk_audit_record_def split: option.splits if_splits)
  then show ?thesis using add_factor_rows [OF assms(1)] by simp
qed

lemma claimed_idle:
  assumes "get_or_create_risk ty eid name now db = Inr (db', rid)" "risk_rows_ok db" "entity_id db (ty, eid) = Some q"
  shows "rid = q \<and> rdb_risks db' = rdb_risks db \<and> rdb_events db' = rdb_events db \<and> rdb_factors db' = rdb_factors db"
proof -
  have "ty \<in> set ENTITY_TYPES" "eid \<noteq> []" using assms(1) by (auto simp: get_or_create_risk_def split: if_splits)
  note g = get_or_create_total [OF assms(2) this, of name now]
  obtain r where "risk_for_entity db ty eid = Some r" "rk_risk_id r = q" using assms(3) by (auto simp: entity_id_def)
  with g assms(1) show ?thesis by (auto simp: claimed_db_def claimed_id_def Let_def)
qed

section \<open>Counters\<close>

definition finding_count :: "risk_db \<Rightarrow> string \<times> string \<Rightarrow> int" where
  "finding_count db m = (case risk_for_entity db (fst m) (snd m) of None \<Rightarrow> 0 | Some r \<Rightarrow> rk_correlation_count r)"

lemma finding_count_cong: "rdb_risks a = rdb_risks b \<Longrightarrow> finding_count a m = finding_count b m"
  by (simp add: finding_count_def risk_for_entity_def)

lemma entity_of_id:
  assumes ok: "risk_rows_ok db" and r: "r \<in> set (rdb_risks db)" and q: "q \<in> set (rdb_risks db)"
    and "rk_risk_id r = rk_risk_id q"
  shows "r = q"
proof -
  note ok = ok [unfolded risk_rows_ok_def]
  have pos: "0 < rk_id r" "0 < rk_id q" using ok r q unfolding rki.ids_ok_def by blast+
  have "risk_public_id (rk_id r - 1) = risk_public_id (rk_id q - 1)"
    using ok r q assms(4) unfolding risk_row_ok_def by metis
  then have "rk_id r = rk_id q" using pos by simp
  then show ?thesis using rki.same_row ok r q by blast
qed

lemma risk_for_entity_set_risk:
  assumes "\<And>r. row_key (f r) = row_key r"
  shows "risk_for_entity (set_risk i f db) ty eid = map_option (\<lambda>r. if rk_risk_id r = i then f r else r) (risk_for_entity db ty eid)"
  unfolding risk_for_entity_def set_risk_def using row_key_eqD [OF assms] by (simp add: find_map_same)

lemma finding_count_set_risk:
  assumes ok: "risk_rows_ok db" and e: "entity_id db m = Some rid"
    and f: "\<And>r. row_key (f r) = row_key r" "\<And>r. rk_correlation_count (f r) = rk_correlation_count r + c"
  shows "finding_count (set_risk rid f db) m' = finding_count db m' + (if m' = m then c else 0)"
proof -
  obtain r where r: "risk_for_entity db (fst m) (snd m) = Some r" "rk_risk_id r = rid" using e by (auto simp: entity_id_def)
  show ?thesis
  proof (cases "risk_for_entity db (fst m') (snd m')")
    case None
    then have "m' \<noteq> m" using r(1) by auto
    then show ?thesis using None by (simp add: finding_count_def risk_for_entity_set_risk [OF f(1)])
  next
    case (Some q)
    have "m' = m" if "rk_risk_id q = rid"
      using entity_of_id [OF ok, of q r] risk_for_entityD [OF Some] risk_for_entityD [OF r(1)] that r(2)
      by (metis prod.collapse)
    moreover have "q = r" if "m' = m" using that Some r(1) by simp
    ultimately show ?thesis using Some r(2) by (auto simp: finding_count_def risk_for_entity_set_risk [OF f(1)] f(2))
  qed
qed

section \<open>A finding on an entity that has it already\<close>

abbreviation finding_covered :: "risk_item \<Rightarrow> string \<times> string \<Rightarrow> risk_db \<Rightarrow> string list \<Rightarrow> bool" where
  "finding_covered i m \<equiv> covered m (''correlation_finding'', finding_source i)
     (''RF006_MULTI_STAGE_CORRELATION'', ''correlation_finding'', finding_source i)"

lemma finding_onE:
  assumes "finding_on i now m (a, rids) = Inr (b, rids')"
  obtains db1 rid ev summary where "get_or_create_risk (fst m) (snd m) '''' now a = Inr (db1, rid)"
    "add_factor rid ''RF006_MULTI_STAGE_CORRELATION'' ''correlation_finding'' (finding_source i)
       (weight_of ''RF006_MULTI_STAGE_CORRELATION'') ev now
       (set_risk rid (\<lambda>r. r\<lparr>rk_last_seen := max (rk_last_seen r) (group_observed i now),
            rk_correlation_count := rk_correlation_count r + 1\<rparr>)
          (log_event rid ''CORRELATION_FINDING'' ''correlation_finding'' (finding_source i) (group_observed i now) summary now db1)) = Inr b"
    "rids' = rids @ [rid]"
  using assms unfolding finding_on_def Let_def by (auto simp: results)

lemma finding_on_covered:
  assumes f: "finding_on i now m (a, rids) = Inr (b, rids')" and ok: "risk_db_ok a"
  shows "finding_covered i m b rids'" and "longer a b"
  using f
proof (rule_tac [!] finding_onE)
  fix db1 rid ev summary
  assume 1: "get_or_create_risk (fst m) (snd m) '''' now a = Inr (db1, rid)"
    and 2: "add_factor rid ''RF006_MULTI_STAGE_CORRELATION'' ''correlation_finding'' (finding_source i)
       (weight_of ''RF006_MULTI_STAGE_CORRELATION'') ev now
       (set_risk rid (\<lambda>r. r\<lparr>rk_last_seen := max (rk_last_seen r) (group_observed i now),
            rk_correlation_count := rk_correlation_count r + 1\<rparr>)
          (log_event rid ''CORRELATION_FINDING'' ''correlation_finding'' (finding_source i) (group_observed i now) summary now db1)) = Inr b"
    and 3: "rids' = rids @ [rid]"
  note g = get_or_create_writes [OF 1]
  note l = log_and_touch [OF g [THEN conjunct2], where a = 0 and g = 0 and c = 1 and seen = "group_observed i now"]
  let ?t = "set_risk rid (\<lambda>r. r\<lparr>rk_last_seen := max (rk_last_seen r) (group_observed i now),
            rk_correlation_count := rk_correlation_count r + 1\<rparr>)
          (log_event rid ''CORRELATION_FINDING'' ''correlation_finding'' (finding_source i) (group_observed i now) summary now db1)"
  have w1: "risk_writes db1 ?t" by (rule l(1)) simp
  have w2: "risk_writes ?t b" by (rule add_weighted [OF 2 l(2)]) simp
  have "entity_id b m = Some rid"
    using get_or_create_entity [OF 1 risk_db_okD(1) [OF ok]] entity_id_longer longer_writes writes_trans [OF w1 w2]
    by (metis prod.collapse)
  moreover have "(rid, ''correlation_finding'', finding_source i) \<in> event_keys b"
    using log_event_key [of rid "''correlation_finding''" "finding_source i"] log_event_keys event_keys_longer longer_writes [OF w2] by blast
  ultimately show "finding_covered i m b rids'" using add_factor_key [OF 2] by (simp add: covered_def 3)
  show "longer a b" using longer_writes writes_trans [OF g [THEN conjunct1] writes_trans [OF w1 w2]] by blast
qed

lemma finding_on_again:
  assumes f: "finding_on i now m (a, rids) = Inr (b, rids')" and ok: "risk_db_ok a" and c: "finding_covered i m a q"
  shows "rdb_events b = rdb_events a \<and> rdb_factors b = rdb_factors a
    \<and> finding_count b m' = finding_count a m' + (if m' = m then 1 else 0)"
  using f
proof (rule finding_onE)
  fix db1 rid ev summary
  assume 1: "get_or_create_risk (fst m) (snd m) '''' now a = Inr (db1, rid)"
    and 2: "add_factor rid ''RF006_MULTI_STAGE_CORRELATION'' ''correlation_finding'' (finding_source i)
       (weight_of ''RF006_MULTI_STAGE_CORRELATION'') ev now
       (set_risk rid (\<lambda>r. r\<lparr>rk_last_seen := max (rk_last_seen r) (group_observed i now),
            rk_correlation_count := rk_correlation_count r + 1\<rparr>)
          (log_event rid ''CORRELATION_FINDING'' ''correlation_finding'' (finding_source i) (group_observed i now) summary now db1)) = Inr b"
  let ?f = "\<lambda>r. r\<lparr>rk_last_seen := max (rk_last_seen r) (group_observed i now), rk_correlation_count := rk_correlation_count r + 1\<rparr>"
  have rows: "risk_rows_ok a" by (rule risk_db_okD(1) [OF ok])
  obtain x where x: "entity_id a m = Some x" "(x, ''correlation_finding'', finding_source i) \<in> event_keys a"
      "(x, ''RF006_MULTI_STAGE_CORRELATION'', ''correlation_finding'', finding_source i) \<in> factor_keys a"
    using c by (auto simp: covered_def)
  have cl: "rid = x \<and> rdb_risks db1 = rdb_risks a \<and> rdb_events db1 = rdb_events a \<and> rdb_factors db1 = rdb_factors a"
    using claimed_idle [OF 1 rows] x(1) by simp
  then have lg: "log_event rid ''CORRELATION_FINDING'' ''correlation_finding'' (finding_source i) (group_observed i now) summary now db1 = db1"
    using x(2) by (intro log_event_idle) (simp add: event_keys_def)
  have k: "(rid, ''RF006_MULTI_STAGE_CORRELATION'', ''correlation_finding'', finding_source i) \<in> factor_keys (set_risk rid ?f db1)"
    using x(3) cl by (simp add: factor_keys_def set_risk_def)
  note ad = add_factor_idle [OF 2 [unfolded lg] k]
  have e1: "entity_id db1 m = Some rid" using x(1) cl by (simp add: entity_id_def risk_for_entity_def)
  have ok1: "risk_rows_ok db1" using risk_writes_ok [OF get_or_create_writes [OF 1, THEN conjunct1] ok] by (rule risk_db_okD(1))
  have "finding_count b m' = finding_count (set_risk rid ?f db1) m'" using ad finding_count_cong by blast
  also have "\<dots> = finding_count db1 m' + (if m' = m then 1 else 0)"
    by (rule finding_count_set_risk [OF ok1 e1]) (simp_all add: row_key_def)
  also have "finding_count db1 m' = finding_count a m'" using cl finding_count_cong by blast
  finally have fc: "finding_count b m' = finding_count a m' + (if m' = m then 1 else 0)" .
  have "rdb_events b = rdb_events a \<and> rdb_factors b = rdb_factors a" using ad cl by (simp add: set_risk_def)
  then show ?thesis using fc by simp
qed

lemma finding_loop_covered:
  assumes "each_do (finding_on i now) ms (db, []) = Inr (db1, ids)" and ok: "risk_db_ok db"
  shows "\<forall>m\<in>set ms. finding_covered i m db1 ids"
proof (rule each_covers [OF assms(1), where Q = "reached db"])
  show "reached db db []" by (rule reached_self)
next
  fix m a s b t assume r: "reached db a s" and f: "finding_on i now m (a, s) = Inr (b, t)"
  show "reached db b t \<and> finding_covered i m b t"
    using finding_on_reached [OF f r] finding_on_covered(1) [OF f reached_ok [OF r ok]] by blast
next
  fix m y a s b t assume r: "reached db a s" and c: "finding_covered i m a s" and f: "finding_on i now y (a, s) = Inr (b, t)"
  have "set s \<subseteq> set t" using f unfolding finding_on_def Let_def by (auto simp: results)
  then show "finding_covered i m b t"
    using covered_longer [OF c finding_on_covered(2) [OF f reached_ok [OF r ok]]] by blast
qed

lemma finding_loop_again:
  assumes "each_do (finding_on i now) ms (a, s) = Inr (b, t)" and "risk_db_ok a" "reached a a s"
    and "\<forall>m\<in>set ms. finding_covered i m a q"
  shows "rdb_events b = rdb_events a \<and> rdb_factors b = rdb_factors a
    \<and> (\<forall>m. finding_count b m = finding_count a m + int (count_list ms m))"
  using assms
proof (induction ms arbitrary: a s)
  case (Cons x ms)
  obtain p where "finding_on i now x (a, s) = Inr p" "each_do (finding_on i now) ms p = Inr (b, t)"
    using Cons.prems(1) by (auto simp: results)
  then obtain a1 s1 where 1: "finding_on i now x (a, s) = Inr (a1, s1)"
    and 2: "each_do (finding_on i now) ms (a1, s1) = Inr (b, t)" by (cases p) auto
  have r: "reached a a1 s1" by (rule finding_on_reached [OF 1 Cons.prems(3)])
  have ok1: "risk_db_ok a1" by (rule reached_ok [OF r Cons.prems(2)])
  have r1: "reached a1 a1 s1" using r by (simp add: reached_def)
  have "finding_covered i m a1 q" if "m \<in> set ms" for m
    using Cons.prems(4) that covered_longer [OF _ finding_on_covered(2) [OF 1 Cons.prems(2)] order_refl] by simp
  then have IH: "rdb_events b = rdb_events a1 \<and> rdb_factors b = rdb_factors a1
      \<and> (\<forall>m. finding_count b m = finding_count a1 m + int (count_list ms m))"
    using Cons.IH [OF 2 ok1 r1] by blast
  have "finding_covered i x a q" using Cons.prems(4) by simp
  note step = finding_on_again [OF 1 Cons.prems(2) this]
  show ?case using IH step by auto
qed simp

section \<open>Recalculation touches recency only\<close>

definition plain_factors :: "risk_db \<Rightarrow> risk_factor list" where
  "plain_factors db = filter (\<lambda>f. rf_factor_id f \<noteq> ''RF008_RECENCY'') (rdb_factors db)"

lemma plain_set_factor:
  assumes "recency_key rid f" and h: "\<And>q. factor_key (h q) = factor_key q"
  shows "plain_factors (set_factor f h db) = plain_factors db"
proof -
  have "filter (\<lambda>f. rf_factor_id f \<noteq> ''RF008_RECENCY'') (map (\<lambda>q. if factor_key q = factor_key f then h q else q) fs)
      = filter (\<lambda>f. rf_factor_id f \<noteq> ''RF008_RECENCY'') fs" for fs
  proof (induction fs)
    case (Cons q fs)
    have "rf_factor_id (h q) = rf_factor_id q" using h [of q] by (simp add: factor_key_def)
    then show ?case using Cons recency_key_id [OF assms(1), of q] by auto
  qed simp
  then show ?thesis by (simp add: plain_factors_def set_factor_def)
qed

lemma plain_add_recency:
  assumes "add_factor rid ''RF008_RECENCY'' sty sid v a now db = Inr db'"
  shows "plain_factors db' = plain_factors db"
proof -
  obtain d where d: "get_factor ''RF008_RECENCY'' = Inr d" using add_factor_get [OF assms] by blast
  have "rdb_factors db' = rdb_factors (insert_factor (new_factor rid d sty sid v a now) db)"
    using assms by (auto simp: add_factor_def d Let_def risk_audit_record_def split: option.splits if_splits)
  moreover have "rf_factor_id (new_factor rid d sty sid v a now) = ''RF008_RECENCY''"
    using get_factorD [OF d] by (simp add: new_factor_def)
  ultimately show ?thesis by (simp add: plain_factors_def insert_factor_def)
qed

lemma plain_refresh: "refresh_recency r now db = Inr db' \<Longrightarrow> plain_factors db' = plain_factors db"
proof (cases "List.find (recency_key (rk_risk_id r)) (rdb_factors db)")
  case None
  assume a: "refresh_recency r now db = Inr db'"
  show ?thesis using a None plain_add_recency by (cases "is_recent now r") (simp_all add: refresh_recency_def)
next
  case (Some f)
  assume a: "refresh_recency r now db = Inr db'"
  have f: "recency_key (rk_risk_id r) f" using Some by (auto dest: find_SomeD)
  have p: "plain_factors (set_factor f (renewed t) db) = plain_factors db" for t
    by (rule plain_set_factor [OF f]) (simp add: factor_key_def renewed_def)
  have q: "plain_factors (set_factor f (lapsed now) db) = plain_factors db"
    by (rule plain_set_factor [OF f]) (simp add: factor_key_def lapsed_def)
  have n: "plain_factors (risk_audit_record i ac x d s s' st st' t b) = plain_factors b" for i ac x d s s' st st' t b
    by (simp add: plain_factors_def risk_audit_record_def)
  show ?thesis using a Some p q n
    by (cases "is_recent now r"; cases "rf_expired_at f") (auto simp: refresh_recency_def)
qed

lemma recalculate_plain:
  assumes a: "recalculate_entity env rid now actor db = Inr db'"
  shows "plain_factors db' = plain_factors db \<and> rdb_events db' = rdb_events db \<and> finding_count db' m = finding_count db m"
proof -
  have p: "plain_factors db' = plain_factors db"
    using a by (rule recalculateE) (auto simp: plain_factors_def store_calculation_tables dest!: plain_refresh)
  have e: "rdb_events db' = rdb_events db" using a by (rule recalculate_rows)
  have "finding_count db' m = finding_count db m"
    using a
  proof (rule recalculate_rows)
    fix r c s t assume "rdb_risks db' = rdb_risks (set_risk rid (recalculated c s t now) db)"
    then have "finding_count db' m = finding_count (set_risk rid (recalculated c s t now) db) m" by (rule finding_count_cong)
    also have "\<dots> = finding_count db m"
      by (auto simp: finding_count_def risk_for_entity_set_risk recalculated_key recalculated_fields split: option.splits)
    finally show ?thesis .
  qed
  then show ?thesis using p e by blast
qed

lemma recalculate_each_plain:
  "recalculate_each env now actor rids db = Inr db' \<Longrightarrow>
   plain_factors db' = plain_factors db \<and> rdb_events db' = rdb_events db \<and> (\<forall>m. finding_count db' m = finding_count db m)"
  unfolding recalculate_each_def
  by (erule each_do_inv [where P = "\<lambda>d. plain_factors d = plain_factors db \<and> rdb_events d = rdb_events db
      \<and> (\<forall>m. finding_count d m = finding_count db m)"]) (use recalculate_plain in fastforce)+

text \<open>Ingesting a finding a second time adds no event and no factor (apart from the recency
  factor of its records), as it should; but the correlation count of an entity still grows by one
  for each time the finding names it.\<close>

theorem finding_again:
  assumes "risk_run env db" and "apply_finding env i now actor db = Inr (db1, rids)"
    and "apply_finding env i later actor db1 = Inr (db2, rids')"
  shows "rdb_events db2 = rdb_events db1 \<and> plain_factors db2 = plain_factors db1
    \<and> finding_count db2 m = finding_count db1 m + int (count_list (spread_members i) m)"
proof -
  have ok: "risk_db_ok db" by (rule risk_run_ok [OF assms(1)])
  have ok1: "risk_db_ok db1" by (rule reached_ok [OF apply_finding_reached [OF assms(2)] ok])
  obtain a ids where 1: "each_do (finding_on i now) (spread_members i) (db, []) = Inr (a, ids)"
    and 2: "recalculate_each env now actor (uniq_first ids) a = Inr db1"
    using assms(2) unfolding apply_finding_def by (auto simp: results)
  have c: "\<forall>m\<in>set (spread_members i). finding_covered i m db1 ids"
    using finding_loop_covered [OF 1 ok] covered_writes [OF _ recalculate_each_writes [OF 2] order_refl] by blast
  obtain b ids' where 3: "each_do (finding_on i later) (spread_members i) (db1, []) = Inr (b, ids')"
    and 4: "recalculate_each env later actor (uniq_first ids') b = Inr db2"
    using assms(3) unfolding apply_finding_def by (auto simp: results)
  note l = finding_loop_again [OF 3 ok1 reached_self c]
  note r = recalculate_each_plain [OF 4]
  show ?thesis using l r by (cases m) (simp add: plain_factors_def)
qed

theorem finding_again_witness:
  "\<exists>db1 rids db2 rids'. apply_finding sample_env sample_item 0 ''system'' empty_risk_db = Inr (db1, rids)
     \<and> apply_finding sample_env sample_item 1 ''system'' db1 = Inr (db2, rids')
     \<and> finding_count db2 (''HOST'', ''web-1'') = finding_count db1 (''HOST'', ''web-1'') + 1"
proof -
  have n: "named_members sample_item" by (simp add: named_members_def sample_item_def)
  obtain db1 rids where 1: "apply_finding sample_env sample_item 0 ''system'' empty_risk_db = Inr (db1, rids)"
    using apply_finding_total [OF empty_risk_db_ok open_sample n] by blast
  have "risk_db_ok db1" by (rule reached_ok [OF apply_finding_reached [OF 1] empty_risk_db_ok])
  from apply_finding_total [OF this open_sample n] obtain db2 rids' where
    2: "apply_finding sample_env sample_item 1 ''system'' db1 = Inr (db2, rids')" by blast
  have m: "count_list (spread_members sample_item) (''HOST'', ''web-1'') = 1"
    by (simp add: spread_members_def sample_item_def)
  have "finding_count db2 (''HOST'', ''web-1'') = finding_count db1 (''HOST'', ''web-1'') + 1"
    using finding_again [OF rtranclp.rtrancl_refl 1 2, of "(''HOST'', ''web-1'')"] by (simp add: m)
  with 1 2 show ?thesis by blast
qed

end
