(* ===== verification/Risk_Bands.thy ===== *)
theory Risk_Bands
  imports Risk_Score
begin

text \<open>
  The promises of the calculator: its loop returns a bounded, decomposed score for every list
  of factors; evidence never lowers a score and time never raises it; the audited thresholds
  are those that lie between the two scores.
\<close>

section \<open>The result\<close>

lemma fdiv_share: "0 \<le> a \<Longrightarrow> a \<le> b \<Longrightarrow> 0 < b \<Longrightarrow> 0 \<le> fdiv a b \<and> fdiv a b \<le> 1"
  unfolding fdiv_def by (intro conjI fl_nonneg fl_le_1) (simp_all add: divide_le_eq)

lemma fadd_ge: "fl a = a \<Longrightarrow> 0 \<le> b \<Longrightarrow> a \<le> fadd a b"
  unfolding fadd_def using fl_mono [of a "a + b"] by simp

lemma confidence_share:
  assumes "half_power pw" "\<forall>f\<in>set fs. positive_factor f" "0 < risk_total pw now fs"
  shows "0 \<le> pyround 4 (fdiv (direct_sum pw now fs) (risk_total pw now fs))
    \<and> pyround 4 (fdiv (direct_sum pw now fs) (risk_total pw now fs)) \<le> 1"
proof -
  have "0 \<le> direct_sum pw now fs" "0 \<le> context_sum pw now fs"
    using partial_sum_nonneg [OF assms(1,2)] by (simp_all add: direct_sum_def context_sum_def)
  moreover from this have "direct_sum pw now fs \<le> risk_total pw now fs"
    unfolding risk_total_def by (intro fadd_ge) (simp_all add: direct_sum_def)
  ultimately show ?thesis using fdiv_share [OF _ _ assms(3)] pyround_unit by blast
qed

text \<open>C9: The calculator returns a result for every list of factors (its own validation never
  raises): the score is the two sums clamped to 0..100, the severity and the state are bands of
  the score, every factor has its line in the decomposition with its contribution, and the
  active and the expired factors add up to all of them.\<close>

theorem calculate_risk_spec:
  "\<exists>c. calculate_risk pw fs now = Inr c
     \<and> rc_final_score c = pyround 4 (min 100 (max 0 (fadd (direct_sum pw now fs) (context_sum pw now fs))))
     \<and> 0 \<le> rc_final_score c \<and> rc_final_score c \<le> 100
     \<and> rc_severity c = severity_for (rc_final_score c) \<and> rc_state c = state_for (rc_final_score c)
     \<and> map ct_contribution (rc_contributions c) = map (factor_contribution pw now) fs
     \<and> map pj_contribution (rc_propagation_adjustments c) = map (factor_contribution pw now) (filter contextual fs)
     \<and> rc_active c + rc_expired c = length fs \<and> rc_expired c = length (filter (factor_expired now) fs)"
proof (intro exI conjI)
  show "calculate_risk pw fs now = Inr (calculation pw fs now)" by (rule calculate_risk_total)
  show "rc_active (calculation pw fs now) + rc_expired (calculation pw fs now) = length fs"
    using sum_length_filter_compl [of "factor_expired now" fs] by simp
  show "0 \<le> rc_final_score (calculation pw fs now)" "rc_final_score (calculation pw fs now) \<le> 100"
    by (simp_all add: risk_score_bounds)
qed (simp_all add: risk_score_def risk_total_def)

text \<open>Evidence only raises a score and time only lowers it: with factors of value and weight
  not negative, one more factor gives a score no lower, a later instant gives a score no higher,
  and the confidence stays a share of the score.  (The power of one half is any function in
  [0, 1] that does not increase.)\<close>

theorem risk_score_moves:
  assumes "half_power pw" and "\<forall>g\<in>set fs. positive_factor g" and "positive_factor f" and "now \<le> later"
  shows "risk_score pw now fs \<le> risk_score pw now (fs @ [f])
    \<and> risk_score pw later fs \<le> risk_score pw now fs
    \<and> 0 \<le> rc_confidence (calculation pw fs now) \<and> rc_confidence (calculation pw fs now) \<le> 1"
proof -
  have add: "risk_score pw now fs \<le> risk_score pw now (fs @ [f])"
    unfolding risk_score_def risk_total_def direct_sum_def context_sum_def
    using partial_sum_grows [OF assms(1,3)] by (intro score_mono fadd_mono) blast+
  have "risk_score pw later fs \<le> risk_score pw now fs"
    unfolding risk_score_def risk_total_def direct_sum_def context_sum_def
    using partial_sum_antimono [OF assms(1,2,4)] by (intro score_mono fadd_mono) blast+
  with add show ?thesis using confidence_share [OF assms(1,2), of now] by simp
qed

definition sample_factor :: calc_factor where
  "sample_factor = \<lparr>cx_factor_id = ''RF010_BEHAVIOR_GROUP'', cx_factor_type = ''BEHAVIOR_GROUP'',
     cx_source_type = ''behavior_group'', cx_source_id = ''BG-1'', cx_value = 10, cx_weight = 1, cx_origin = ''DIRECT'',
     cx_relationship = None, cx_created_at = Some 0, cx_expires_at = None, cx_reason = '''', cx_evidence = None\<rparr>"

theorem risk_score_moves_witness:
  "risk_score floor_power 0 [] \<le> risk_score floor_power 0 [sample_factor]
   \<and> risk_score floor_power (hours 48) [] \<le> risk_score floor_power 0 []"
  using risk_score_moves [OF floor_power_half, of "[]" sample_factor 0 "hours 48"]
  by (simp add: positive_factor_def sample_factor_def hours_def)

section \<open>Half-lives\<close>

lemma fdiv_exact: "0 < b \<Longrightarrow> \<bar>k\<bar> < 2 ^ 53 \<Longrightarrow> a = of_int k * b \<Longrightarrow> fdiv a b = of_int k"
  unfolding fdiv_def using fl_int [of k] by simp

text \<open>A factor that has not expired loses half of its weight in each day of its age: created
  \<open>n\<close> days ago it counts 1 / 2 ^ n of its value.\<close>

theorem decay_halves_daily:
  assumes "half_power pw" and "cx_created_at f = Some created" and "\<not> factor_expired (created + days (int n)) f"
    and "n \<le> 1022"
  shows "factor_decay pw (created + days (int n)) f = 1 / 2 ^ n"
proof -
  have s: "total_seconds (days (int n)) = of_int (int n * 86400)"
    unfolding total_seconds_def by (rule fdiv_exact) (use assms(4) in \<open>simp_all add: days_def\<close>)
  have h: "fdiv (of_int (int n * 86400)) 3600 = of_int (int n * 24)"
    by (rule fdiv_exact) (use assms(4) in simp_all)
  have a: "evidence_age (created + days (int n)) created = of_int (int n * 24)"
    unfolding evidence_age_def by (simp only: add_diff_cancel_left' s h)
  have d: "fdiv (of_int (int n * 24)) 24 = of_nat n"
    using fdiv_exact [of 24 "int n" "of_int (int n * 24)"] assms(4) by simp
  show ?thesis
  proof (cases n)
    case 0
    then show ?thesis using assms(2,3) a by (simp add: factor_decay_def decay_factor_default)
  next
    case (Suc m)
    then show ?thesis
      using assms(2,3) a d half_powerD(3) [OF assms(1,4)]
      by (simp add: factor_decay_def decay_factor_default del: of_int_mult)
  qed
qed

theorem decay_halves_daily_witness: "factor_decay floor_power (0 + days (int 3)) sample_factor = 1 / 2 ^ 3"
  by (rule decay_halves_daily [OF floor_power_half]) (simp_all add: sample_factor_def factor_expired_def)

section \<open>Bands\<close>

definition band :: "rat \<Rightarrow> nat" where
  "band s = (if 80 \<le> s then 4 else if 60 \<le> s then 3 else if 40 \<le> s then 2 else if 20 \<le> s then 1 else 0)"

lemma severity_for_band: "severity_for s = RISK_SEVERITIES ! band s"
  by (simp add: severity_for_def RISK_THRESHOLDS_def RISK_SEVERITIES_def band_def)

lemma band_less: "band s < 5"
  by (simp add: band_def)

lemma list_index_band: "k < 5 \<Longrightarrow> list_index RISK_SEVERITIES (RISK_SEVERITIES ! k) = k"
  by (auto simp: less_Suc_eq eval_nat_numeral list_index_def RISK_SEVERITIES_def)

lemma crossed_bands: "thresholds_crossed a b = drop (min (band a) (band b) + 1) (take (max (band a) (band b) + 1) RISK_SEVERITIES)"
proof (cases "band a = band b")
  case True
  then show ?thesis by (simp add: thresholds_crossed_def severity_for_band)
next
  case False
  have "RISK_SEVERITIES ! band a \<noteq> RISK_SEVERITIES ! band b"
    using False list_index_band [OF band_less, of a] list_index_band [OF band_less, of b] by metis
  then show ?thesis
    by (simp add: thresholds_crossed_def severity_for_band list_index_band [OF band_less] Let_def)
qed

definition threshold_of :: "string \<Rightarrow> rat" where
  "threshold_of s = (if s = ''LOW'' then RISK_THRESHOLDS ''low'' else if s = ''MEDIUM'' then RISK_THRESHOLDS ''medium''
     else if s = ''HIGH'' then RISK_THRESHOLDS ''high'' else if s = ''CRITICAL'' then RISK_THRESHOLDS ''critical''
     else RISK_THRESHOLDS ''minimal'')"

text \<open>The thresholds audited between two scores are exactly the severities whose threshold
  lies above the lower score and not above the higher one.\<close>

theorem thresholds_crossed_spec:
  "s \<in> set (thresholds_crossed old new) \<longleftrightarrow> s \<in> set RISK_SEVERITIES \<and> s \<noteq> ''MINIMAL''
     \<and> min old new < threshold_of s \<and> threshold_of s \<le> max old new"
proof -
  have t: "threshold_of ''MINIMAL'' = 0" "threshold_of ''LOW'' = 20" "threshold_of ''MEDIUM'' = 40"
    "threshold_of ''HIGH'' = 60" "threshold_of ''CRITICAL'' = 80"
    by (simp_all add: threshold_of_def RISK_THRESHOLDS_def)
  consider "s = ''LOW''" | "s = ''MEDIUM''" | "s = ''HIGH''" | "s = ''CRITICAL''"
    | "s \<notin> {''LOW'', ''MEDIUM'', ''HIGH'', ''CRITICAL''}" by blast
  then show ?thesis
    unfolding crossed_bands
    by cases (auto simp: band_def t RISK_SEVERITIES_def min_def max_def)
qed

end
