(* ===== verification/Json.thy ===== *)
theory Json
  imports Prelude Py_Ip "HOL-Library.AList"
begin

text \<open>
  The values a JSON request delivers, as Python objects: truthiness, \<open>str\<close>,
  \<open>int\<close>, \<open>dict\<close> and \<open>json.dumps\<close>.  A dict is the list of its items in the order
  of insertion.  A float carries its value and its shortest printed form.
\<close>

datatype jval =
    JNull
  | JBool bool
  | JInt int
  | JFloat rat string
  | JStr string
  | JList "jval list"
  | JObj "(string \<times> jval) list"

type_synonym dict = "(string \<times> jval) list"

section \<open>Truthiness and defaults\<close>

fun truthy :: "jval \<Rightarrow> bool" where
  "truthy JNull = False"
| "truthy (JBool b) = b"
| "truthy (JInt n) = (n \<noteq> 0)"
| "truthy (JFloat v t) = (v \<noteq> 0)"
| "truthy (JStr s) = (s \<noteq> [])"
| "truthy (JList xs) = (xs \<noteq> [])"
| "truthy (JObj kvs) = (kvs \<noteq> [])"

text \<open>\<open>d.get(k, default)\<close>, and \<open>a or b or \<dots> or default\<close> where a missing key is None.\<close>

definition get_default :: "dict \<Rightarrow> string \<Rightarrow> jval \<Rightarrow> jval" where
  "get_default d k v = (case map_of d k of None \<Rightarrow> v | Some x \<Rightarrow> x)"

fun or_chain :: "jval option list \<Rightarrow> jval \<Rightarrow> jval" where
  "or_chain [] v = v"
| "or_chain (None # xs) v = or_chain xs v"
| "or_chain (Some x # xs) v = (if truthy x then x else or_chain xs v)"

text \<open>\<open>isinstance(v, str)\<close>, with the string.\<close>

definition as_str :: "jval option \<Rightarrow> string option" where
  "as_str v = (case v of Some (JStr s) \<Rightarrow> Some s | _ \<Rightarrow> None)"

lemma as_str_simps [simp]:
  "as_str None = None" "as_str (Some (JStr s)) = Some s"
  by (simp_all add: as_str_def)

section \<open>Printing\<close>

text \<open>\<open>repr\<close> of a string: single quotes unless only the other kind avoids an escape;
  the characters that are not printable become two-digit escapes.\<close>

definition repr_char :: "char \<Rightarrow> char \<Rightarrow> string" where
  "repr_char q c = (let n = (of_char c :: nat) in
     if c = q \<or> n = 92 then [CHR 0x5C, c]
     else if n = 9 then [CHR 0x5C, CHR ''t'']
     else if n = 10 then [CHR 0x5C, CHR ''n'']
     else if n = 13 then [CHR 0x5C, CHR ''r'']
     else if n < 32 \<or> (127 \<le> n \<and> n \<le> 160) \<or> n = 173
     then [CHR 0x5C, CHR ''x'', hex_digit (n div 16), hex_digit (n mod 16)]
     else [c])"

definition repr_str :: "string \<Rightarrow> string" where
  "repr_str s = (let q = (if CHR 0x27 \<in> set s \<and> CHR 0x22 \<notin> set s then CHR 0x22 else CHR 0x27) in
     [q] @ concat (map (repr_char q) s) @ [q])"

fun jrepr :: "jval \<Rightarrow> string" where
  "jrepr JNull = ''None''"
| "jrepr (JBool b) = py_str (VBool b)"
| "jrepr (JInt n) = py_str (VInt n)"
| "jrepr (JFloat v t) = t"
| "jrepr (JStr s) = repr_str s"
| "jrepr (JList xs) = ''['' @ join '', '' (map jrepr xs) @ '']''"
| "jrepr (JObj kvs) = ''{'' @ join '', '' (map (\<lambda>(k, v). repr_str k @ '': '' @ jrepr v) kvs) @ ''}''"

definition jstr :: "jval \<Rightarrow> string" where
  "jstr v = (case v of JStr s \<Rightarrow> s | _ \<Rightarrow> jrepr v)"

lemma jstr_JStr [simp]: "jstr (JStr s) = s"
  by (simp add: jstr_def)

section \<open>Conversions\<close>

text \<open>\<open>int(text)\<close>: white space around, a sign, digits with single underscores between
  them.\<close>

definition parse_digits :: "string \<Rightarrow> int option" where
  "parse_digits s = (let ps = split_on (CHR ''_'') s in
     if \<exists>p\<in>set ps. p = [] \<or> \<not> list_all is_digit p then None else Some (int (dec_val (concat ps))))"

definition parse_int :: "string \<Rightarrow> int option" where
  "parse_int text = (case py_strip text of
       [] \<Rightarrow> None
     | c # s \<Rightarrow>
         if c = CHR ''-'' then map_option uminus (parse_digits s)
         else if c = CHR ''+'' then parse_digits s
         else parse_digits (c # s))"

definition truncate_rat :: "rat \<Rightarrow> int" where
  "truncate_rat x = (if x < 0 then - \<lfloor>- x\<rfloor> else \<lfloor>x\<rfloor>)"

fun py_int :: "jval \<Rightarrow> py_error + int" where
  "py_int (JInt n) = Inr n"
| "py_int (JBool b) = Inr (if b then 1 else 0)"
| "py_int (JFloat v t) = Inr (truncate_rat v)"
| "py_int (JStr s) = (case parse_int s of None \<Rightarrow> Inl (ValueError ''invalid literal for int()'') | Some n \<Rightarrow> Inr n)"
| "py_int _ = Inl (TypeError ''int() argument'')"

text \<open>\<open>dict(v or {})\<close>.  A list must hold pairs; a pair may also be a string of two
  characters or an object of two keys.  Keys that are not strings are outside the
  model.\<close>

fun dict_item :: "jval \<Rightarrow> py_error + string \<times> jval" where
  "dict_item (JList [JStr k, v]) = Inr (k, v)"
| "dict_item (JList [k, v]) = Inl (TypeError ''dictionary key'')"
| "dict_item (JList xs) = Inl (ValueError ''dictionary update sequence element'')"
| "dict_item (JStr [a, b]) = Inr ([a], JStr [b])"
| "dict_item (JStr s) = Inl (ValueError ''dictionary update sequence element'')"
| "dict_item (JObj [(a, _), (b, _)]) = Inr (a, JStr b)"
| "dict_item (JObj kvs) = Inl (ValueError ''dictionary update sequence element'')"
| "dict_item v = Inl (TypeError ''cannot convert dictionary update sequence element'')"

fun dict_items :: "jval list \<Rightarrow> dict \<Rightarrow> py_error + dict" where
  "dict_items [] d = Inr d"
| "dict_items (x # xs) d = (case dict_item x of Inl e \<Rightarrow> Inl e | Inr (k, v) \<Rightarrow> dict_items xs (AList.update k v d))"

definition py_dict :: "jval option \<Rightarrow> py_error + dict" where
  "py_dict v = (case v of
       None \<Rightarrow> Inr []
     | Some x \<Rightarrow>
         if \<not> truthy x then Inr []
         else (case x of
             JObj kvs \<Rightarrow> Inr kvs
           | JList xs \<Rightarrow> dict_items xs []
           | JStr s \<Rightarrow> Inl (ValueError ''dictionary update sequence element'')
           | _ \<Rightarrow> Inl (TypeError ''object is not iterable'')))"

section \<open>Serialisation\<close>

text \<open>\<open>json.dumps(\<dots>, sort_keys=True, separators=(",", ":"))\<close> of any value.\<close>

fun jdump :: "jval \<Rightarrow> string" where
  "jdump JNull = ''null''"
| "jdump (JBool b) = (if b then ''true'' else ''false'')"
| "jdump (JInt n) = py_str (VInt n)"
| "jdump (JFloat v t) = t"
| "jdump (JStr s) = json_str s"
| "jdump (JList xs) = json_arr (map jdump xs)"
| "jdump (JObj kvs) = json_obj (sort_key fst (map (\<lambda>(k, v). (k, jdump v)) kvs))"

end
