(* ===== verification/Telemetry.thy ===== *)
theory Telemetry
  imports Json Sql_Like
begin

text \<open>
  The telemetry contract, its normalisers, the enrichment passes and the table
  \<open>v2_events\<close> (\<open>backend/telemetry/\<close>).  The functions take from outside: \<open>H\<close>, the
  SHA-256 digest in hexadecimal, and \<open>parse_time\<close>, the parser \<open>datetime.fromisoformat\<close>
  (None is its \<open>ValueError\<close>; a time without zone is read as UTC, as the code does next).
\<close>

section \<open>Events\<close>

record event =
  e_timestamp :: time
  e_host :: string
  e_user :: string
  e_source :: string
  e_action :: string
  e_facts :: dict
  e_org :: string
  e_raw :: jval
  e_integrity :: string
  e_event_id :: string
  e_event_type :: string
  e_destination :: string
  e_process :: dict
  e_network :: dict
  e_outcome :: string
  e_schema_version :: string

text \<open>\<open>int(timestamp() * 1000)\<close>: \<open>timestamp\<close> divides the microseconds by \<open>10 ** 6\<close>.\<close>

definition event_millis :: "time \<Rightarrow> int" where
  "event_millis t = truncate_rat (fmul (fdiv (of_int t) 1000000) 1000)"

definition event_payload :: "event \<Rightarrow> string" where
  "event_payload e = json_obj
     [(''action'', json_str (e_action e)), (''facts'', jdump (JObj (e_facts e))), (''host'', json_str (e_host e)),
      (''org'', json_str (e_org e)), (''source'', json_str (e_source e)),
      (''ts'', py_str (VInt (event_millis (e_timestamp e)))), (''user'', json_str (e_user e))]"

definition event_fingerprint :: "(string \<Rightarrow> string) \<Rightarrow> event \<Rightarrow> string" where
  "event_fingerprint H e = H (event_payload e)"

section \<open>Normalisation\<close>

definition EVENT_TYPE_BY_ACTION :: "(string \<times> string) list" where
  "EVENT_TYPE_BY_ACTION =
     [(''authentication'', ''logon''), (''authentication'', ''logon_failed''), (''authentication'', ''logoff''),
      (''authentication'', ''logon_success''), (''authentication'', ''auth''), (''authentication'', ''authenticate''),
      (''authentication'', ''logout''), (''process'', ''create_process''), (''process'', ''process_created''),
      (''process'', ''process_start''), (''process'', ''process_stop''), (''process'', ''process_exit''),
      (''file'', ''file_modify''), (''file'', ''file_write''), (''file'', ''file_create''), (''file'', ''file_rename''),
      (''file'', ''file_delete''), (''file'', ''shadow_delete''), (''file'', ''shadow_copy''),
      (''network'', ''connect''), (''network'', ''disconnect''), (''network'', ''connection''), (''network'', ''listen'')]"

definition derive_event_type :: "string \<Rightarrow> string" where
  "derive_event_type action =
     (let lowered = py_lower action in
      if action = [] then []
      else if starts_with ''process_'' lowered then ''process''
      else if starts_with ''file_'' lowered then ''file''
      else if starts_with ''network_'' lowered then ''network''
      else (case List.find (\<lambda>p. snd p = lowered) EVENT_TYPE_BY_ACTION of None \<Rightarrow> [] | Some p \<Rightarrow> fst p))"

text \<open>The time of a record: a string is parsed, a missing one is the fallback of the
  batch; anything else has no \<open>tzinfo\<close>, nor has a missing fallback.\<close>

definition record_time :: "(string \<Rightarrow> time option) \<Rightarrow> time option \<Rightarrow> jval option \<Rightarrow> py_error + time" where
  "record_time parse_time fallback v = (case v of
       Some (JStr s) \<Rightarrow> (case parse_time (replace_char (CHR ''Z'') ''+00:00'' s) of
           None \<Rightarrow> Inl (ValueError ''invalid isoformat string'') | Some t \<Rightarrow> Inr t)
     | None \<Rightarrow> (case fallback of None \<Rightarrow> Inl (AttributeError ''tzinfo'') | Some t \<Rightarrow> Inr t)
     | Some JNull \<Rightarrow> (case fallback of None \<Rightarrow> Inl (AttributeError ''tzinfo'') | Some t \<Rightarrow> Inr t)
     | Some _ \<Rightarrow> Inl (AttributeError ''tzinfo''))"

text \<open>\<open>isinstance(raw, dict)\<close>, with the items.\<close>

fun as_dict :: "jval \<Rightarrow> dict" where
  "as_dict (JObj d) = d"
| "as_dict v = []"

definition has_key :: "string \<Rightarrow> jval \<Rightarrow> bool" where
  "has_key k raw = (case raw of JObj d \<Rightarrow> map_of d k \<noteq> None | _ \<Rightarrow> False)"

definition text_field :: "dict \<Rightarrow> string \<Rightarrow> string \<Rightarrow> string" where
  "text_field d k dflt = jstr (get_default d k (JStr dflt))"

text \<open>\<open>GenericNormalizer\<close>.\<close>

definition generic_event :: "(string \<Rightarrow> time option) \<Rightarrow> jval \<Rightarrow> time option \<Rightarrow> py_error + event" where
  "generic_event parse_time raw fallback = (let r = as_dict raw in
     case record_time parse_time fallback (map_of r ''timestamp'') of Inl e \<Rightarrow> Inl e | Inr ts \<Rightarrow>
     (case py_dict (map_of r ''facts'') of Inl e \<Rightarrow> Inl e | Inr facts \<Rightarrow>
     (case py_dict (map_of r ''process'') of Inl e \<Rightarrow> Inl e | Inr process \<Rightarrow>
     (case py_dict (map_of r ''network'') of Inl e \<Rightarrow> Inl e | Inr network \<Rightarrow>
       Inr \<lparr>e_timestamp = ts, e_host = text_field r ''host'' ''-'', e_user = text_field r ''user'' ''-'',
            e_source = text_field r ''source'' ''unknown'', e_action = text_field r ''action'' ''-'', e_facts = facts,
            e_org = text_field r ''org'' [], e_raw = raw, e_integrity = text_field r ''data_integrity'' ''complete'',
            e_event_id = text_field r ''event_id'' [],
            e_event_type = str_or (text_field r ''event_type'' []) (derive_event_type (text_field r ''action'' [])),
            e_destination = text_field r ''destination'' [], e_process = process, e_network = network,
            e_outcome = text_field r ''outcome'' [], e_schema_version = ''1.1''\<rparr>))))"

text \<open>\<open>WindowsEventNormalizer\<close>.  A user name of the event data that is not a string is
  stored as it is by the code, here in its printed form.\<close>

definition present :: "dict \<Rightarrow> dict" where
  "present d = filter (\<lambda>(k, v). v \<noteq> JNull) d"

definition windows_network :: "dict \<Rightarrow> dict" where
  "windows_network data = (case map_of data ''ip_address'' of
       None \<Rightarrow> [] | Some v \<Rightarrow> if truthy v then [(''src_ip'', v)] else [])"

definition windows_process :: "int \<Rightarrow> dict \<Rightarrow> dict" where
  "windows_process eid data =
     (if eid = 4688
      then [(''name'', case map_of data ''process_name'' of
               Some v \<Rightarrow> if truthy v then v else get_default data ''new_process_name'' JNull
             | None \<Rightarrow> get_default data ''new_process_name'' JNull)]
      else (case map_of data ''process_name'' of None \<Rightarrow> [] | Some v \<Rightarrow> if truthy v then [(''name'', v)] else []))"

definition logon_event :: "int \<Rightarrow> bool" where
  "logon_event eid \<longleftrightarrow> eid \<in> {4624, 4625}"

definition windows_facts :: "int \<Rightarrow> dict \<Rightarrow> dict" where
  "windows_facts eid data =
     (if logon_event eid
      then [(''logon_type'', get_default data ''logon_type'' JNull), (''source_ip'', get_default data ''ip_address'' JNull),
            (''target_user_name'', get_default data ''target_user_name'' JNull),
            (''workstation'', get_default data ''workstation_name'' JNull)]
      else present data)"

definition windows_user :: "int \<Rightarrow> dict \<Rightarrow> dict \<Rightarrow> string" where
  "windows_user eid r data =
     (if logon_event eid
      then jstr (or_chain [map_of data ''target_user_name'', map_of data ''subject_user_name''] (JStr ''-''))
      else jstr (or_chain [map_of r ''subject_user_name'', map_of r ''user''] (JStr ''-'')))"

definition windows_time :: "(string \<Rightarrow> time option) \<Rightarrow> dict \<Rightarrow> time option \<Rightarrow> py_error + time" where
  "windows_time parse_time r fallback = record_time parse_time fallback (case map_of r ''time_created'' of
       Some v \<Rightarrow> if truthy v then Some v else map_of r ''timestamp''
     | None \<Rightarrow> map_of r ''timestamp'')"

definition windows_event :: "(string \<Rightarrow> time option) \<Rightarrow> jval \<Rightarrow> time option \<Rightarrow> py_error + event" where
  "windows_event parse_time raw fallback = (let r = as_dict raw in
     case windows_time parse_time r fallback of Inl e \<Rightarrow> Inl e | Inr ts \<Rightarrow>
     (case py_int (get_default r ''event_id'' (JInt 0)) of Inl e \<Rightarrow> Inl e | Inr eid \<Rightarrow>
     (case py_dict (map_of r ''event_data'') of Inl e \<Rightarrow> Inl e | Inr data \<Rightarrow>
       Inr \<lparr>e_timestamp = ts, e_host = jstr (or_chain [map_of r ''computer'', map_of r ''host''] (JStr ''-'')),
            e_user = windows_user eid r data, e_source = ''windows'',
            e_action = (if eid = 4624 then ''logon'' else if eid = 4625 then ''logon_failed''
                        else ''event_'' @ py_str (VInt eid)),
            e_facts = present (windows_facts eid data), e_org = text_field r ''org'' [], e_raw = raw,
            e_integrity = text_field r ''data_integrity'' ''complete'', e_event_id = py_str (VInt eid),
            e_event_type = (if logon_event eid then ''authentication'' else if eid = 4688 then ''process'' else ''event''),
            e_destination = jstr (or_chain [map_of data ''workstation_name''] (JStr [])),
            e_process = windows_process eid data, e_network = windows_network data,
            e_outcome = (if logon_event eid then if eid = 4624 then ''success'' else ''failure''
                         else jstr (or_chain [map_of r ''outcome''] (JStr []))),
            e_schema_version = ''1.1''\<rparr>)))"

text \<open>\<open>NORMALIZERS\<close> and the choice of the first one that supports the record; a
  \<open>TypeError\<close> or \<open>ValueError\<close> passes the record on, any other exception escapes.\<close>

type_synonym normalizer = "(jval \<Rightarrow> bool) \<times> (jval \<Rightarrow> time option \<Rightarrow> py_error + event)"

definition NORMALIZERS :: "(string \<Rightarrow> time option) \<Rightarrow> normalizer list" where
  "NORMALIZERS parse_time = [(has_key ''event_id'', windows_event parse_time), (has_key ''action'', generic_event parse_time)]"

fun tolerated :: "py_error \<Rightarrow> bool" where
  "tolerated (TypeError m) = True"
| "tolerated (ValueError m) = True"
| "tolerated _ = False"

fun first_normalizer :: "normalizer list \<Rightarrow> jval \<Rightarrow> time option \<Rightarrow> py_error + event option" where
  "first_normalizer [] raw fallback = Inr None"
| "first_normalizer ((supports, f) # ns) raw fallback =
     (if supports raw
      then case f raw fallback of
             Inr e \<Rightarrow> Inr (Some e)
           | Inl x \<Rightarrow> if tolerated x then first_normalizer ns raw fallback else Inl x
      else first_normalizer ns raw fallback)"

definition normalize_record :: "(string \<Rightarrow> time option) \<Rightarrow> jval \<Rightarrow> time option \<Rightarrow> py_error + event option" where
  "normalize_record parse_time raw fallback = first_normalizer (NORMALIZERS parse_time) raw fallback"

section \<open>Enrichment\<close>

text \<open>\<open>{**facts, key: value}\<close>.\<close>

definition with_fact :: "string \<Rightarrow> jval \<Rightarrow> event \<Rightarrow> event" where
  "with_fact k v e = e\<lparr>e_facts := AList.update k v (e_facts e)\<rparr>"

definition geo_address :: "event \<Rightarrow> jval option" where
  "geo_address e = (case map_of (e_facts e) ''source_ip'' of
       Some v \<Rightarrow> if truthy v then Some v else map_of (e_facts e) ''ip''
     | None \<Rightarrow> map_of (e_facts e) ''ip'')"

definition enrich_geo :: "event \<Rightarrow> event" where
  "enrich_geo e = (case as_str (geo_address e) of
       None \<Rightarrow> e
     | Some ip \<Rightarrow>
         if ip = [] then e
         else with_fact ''geo'' (JObj [(''ip'', JStr ip), (''status'', JStr ''unresolved'')]) e)"

definition intel_ips :: "event \<Rightarrow> string list" where
  "intel_ips e = List.map_filter (\<lambda>k. as_str (map_of (e_facts e) k))
     [''source_ip'', ''dst_ip'', ''ip'', ''destination_ip'']"

definition enrich_intel :: "string list \<Rightarrow> event \<Rightarrow> event" where
  "enrich_intel indicators e =
     (let hits = filter (\<lambda>ip. ip \<in> set indicators \<and> ip \<noteq> []) (intel_ips e) in
      if hits = [] then e else with_fact ''intel'' (JObj [(''hits'', JList (map JStr hits))]) e)"

definition enrich :: "string list \<Rightarrow> event \<Rightarrow> event" where
  "enrich indicators e = enrich_intel indicators (enrich_geo e)"

section \<open>The table of events\<close>

record event_row =
  er_id :: nat
  er_fingerprint :: string
  er_timestamp :: time
  er_host :: string
  er_user :: string
  er_source :: string
  er_action :: string
  er_facts :: "dict option"
  er_org :: string
  er_integrity :: string
  er_raw :: "jval option"
  er_event_id :: string
  er_event_type :: string
  er_destination :: string
  er_process :: "dict option"
  er_network :: "dict option"
  er_outcome :: string
  er_schema_version :: string

record event_db =
  edb_rows :: "event_row list"
  edb_seq :: nat
  edb_indicators :: "string list"

definition row_of_event :: "(string \<Rightarrow> string) \<Rightarrow> event \<Rightarrow> event_row" where
  "row_of_event H e =
     \<lparr>er_id = 0, er_fingerprint = event_fingerprint H e, er_timestamp = e_timestamp e, er_host = e_host e,
      er_user = e_user e, er_source = e_source e, er_action = e_action e, er_facts = Some (e_facts e),
      er_org = e_org e, er_integrity = e_integrity e,
      er_raw = (case e_raw e of JObj d \<Rightarrow> Some (JObj d) | _ \<Rightarrow> None), er_event_id = e_event_id e,
      er_event_type = e_event_type e, er_destination = e_destination e, er_process = Some (e_process e),
      er_network = Some (e_network e), er_outcome = e_outcome e, er_schema_version = e_schema_version e\<rparr>"

section \<open>Ingestion\<close>

record ingest_stats =
  is_ingested :: nat
  is_duplicates :: nat
  is_normalized :: nat
  is_skipped :: nat
  is_failed :: nat

definition no_stats :: ingest_stats where
  "no_stats = \<lparr>is_ingested = 0, is_duplicates = 0, is_normalized = 0, is_skipped = 0, is_failed = 0\<rparr>"

text \<open>The first loop: normalise, count the failures and the unsupported records, enrich.\<close>

definition read_record ::
  "(string \<Rightarrow> time option) \<Rightarrow> bool \<Rightarrow> string list \<Rightarrow> time \<Rightarrow> event list \<times> ingest_stats \<Rightarrow> jval
    \<Rightarrow> event list \<times> ingest_stats" where
  "read_record parse_time enriched indicators fallback s raw =
     (case normalize_record parse_time raw (Some fallback) of
        Inl x \<Rightarrow> (fst s, (snd s)\<lparr>is_failed := Suc (is_failed (snd s))\<rparr>)
      | Inr None \<Rightarrow> (fst s, (snd s)\<lparr>is_skipped := Suc (is_skipped (snd s))\<rparr>)
      | Inr (Some e) \<Rightarrow> (fst s @ [if enriched then enrich indicators e else e], snd s))"

text \<open>The second loop: the events whose fingerprint is neither stored nor seen before in
  the batch.\<close>

fun fresh_events :: "(string \<Rightarrow> string) \<Rightarrow> string list \<Rightarrow> event list \<Rightarrow> event list" where
  "fresh_events H existing [] = []"
| "fresh_events H existing (e # es) =
     (let f = event_fingerprint H e in
      if f \<in> set existing then fresh_events H existing es
      else e # fresh_events H (f # existing) es)"

fun add_rows :: "event_row list \<Rightarrow> event_db \<Rightarrow> event_db" where
  "add_rows [] db = db"
| "add_rows (r # rs) db = add_rows rs (db\<lparr>edb_rows := edb_rows db @ [r\<lparr>er_id := Suc (edb_seq db)\<rparr>],
     edb_seq := Suc (edb_seq db)\<rparr>)"

text \<open>\<open>rivals\<close> are the rows other workers commit during the call, after its query for the
  existing fingerprints.  The column is unique: a clash rolls the batch back.\<close>

definition ingest ::
  "(string \<Rightarrow> time option) \<Rightarrow> (string \<Rightarrow> string) \<Rightarrow> engine_config \<Rightarrow> bool \<Rightarrow> time \<Rightarrow> event_row list \<Rightarrow> jval list
    \<Rightarrow> event_db \<Rightarrow> event_db \<times> (py_error + ingest_stats)" where
  "ingest parse_time H cfg enriched wall rivals raws db =
     (let after = add_rows rivals db in
      if raws = [] then (after, Inr no_stats)
      else case ensure_not_production_db ''telemetry'' cfg of Inl x \<Rightarrow> (after, Inl x) | Inr _ \<Rightarrow>
      (case foldl (read_record parse_time enriched (edb_indicators db) wall) ([], no_stats) raws of (events, stats) \<Rightarrow>
       let stats1 = stats\<lparr>is_normalized := length events\<rparr> in
       if events = [] then (after, Inr stats1)
       else let existing = filter (\<lambda>f. f \<in> set (map (event_fingerprint H) events)) (map er_fingerprint (edb_rows db));
                fresh = fresh_events H existing events;
                stats2 = stats1\<lparr>is_duplicates := length events - length fresh, is_ingested := length fresh\<rparr> in
            if fresh = [] then (after, Inr stats2)
            else if \<exists>e\<in>set fresh. event_fingerprint H e \<in> set (map er_fingerprint rivals)
            then (after, Inl (IntegrityError ''v2_events.fingerprint''))
            else (add_rows (map (row_of_event H) fresh) after, Inr stats2)))"

end
