(* ===== verification/Py_Regex.thy ===== *)
theory Py_Regex
  imports Py_String
begin

text \<open>
  The part of \<open>re\<close> that the detectors use: \<open>search\<close> with \<open>IGNORECASE\<close> for alternatives
  of literals, optional literals, runs of white space and word boundaries.  None of the
  patterns has a group that is read, so only the existence of a match matters.
\<close>

datatype rx_item =
    RLit string
  | ROpt string
  | RSpaces
  | RBoundary

text \<open>\<open>\w\<close> on the code points 0 to 255: alphanumeric, which includes the digits and
  fractions in superscript, or the underscore.\<close>

definition is_word :: "char \<Rightarrow> bool" where
  "is_word c = (let n = (of_char c :: nat) in
     (48 \<le> n \<and> n \<le> 57) \<or> (65 \<le> n \<and> n \<le> 90) \<or> n = 95 \<or> (97 \<le> n \<and> n \<le> 122)
     \<or> n \<in> {170, 178, 179, 181, 185, 186, 188, 189, 190}
     \<or> (192 \<le> n \<and> n \<noteq> 215 \<and> n \<noteq> 247))"

definition word_next :: "string \<Rightarrow> bool" where
  "word_next s = (case s of [] \<Rightarrow> False | c # _ \<Rightarrow> is_word c)"

definition word_before :: "char option \<Rightarrow> bool" where
  "word_before p = (case p of None \<Rightarrow> False | Some c \<Rightarrow> is_word c)"

definition starts_with_nocase :: "string \<Rightarrow> string \<Rightarrow> bool" where
  "starts_with_nocase l s = starts_with (py_lower l) (py_lower s)"

text \<open>The character in front of the rest after \<open>k\<close> characters were consumed.\<close>

definition before_after :: "char option \<Rightarrow> nat \<Rightarrow> string \<Rightarrow> char option" where
  "before_after p k s = (if k = 0 then p else Some (s ! (k - 1)))"

fun match_here :: "rx_item list \<Rightarrow> char option \<Rightarrow> string \<Rightarrow> bool" where
  "match_here [] p s = True"
| "match_here (RLit l # is) p s =
     (starts_with_nocase l s \<and> match_here is (before_after p (length l) s) (drop (length l) s))"
| "match_here (ROpt l # is) p s =
     ((starts_with_nocase l s \<and> match_here is (before_after p (length l) s) (drop (length l) s)) \<or> match_here is p s)"
| "match_here (RSpaces # is) p s =
     list_ex (\<lambda>k. match_here is (before_after p (Suc k) s) (drop (Suc k) s)) [0..<length (takeWhile is_space s)]"
| "match_here (RBoundary # is) p s = (word_before p \<noteq> word_next s \<and> match_here is p s)"

fun search_from :: "rx_item list list \<Rightarrow> char option \<Rightarrow> string \<Rightarrow> bool" where
  "search_from alts p [] = list_ex (\<lambda>a. match_here a p []) alts"
| "search_from alts p (c # s) = (list_ex (\<lambda>a. match_here a p (c # s)) alts \<or> search_from alts (Some c) s)"

definition rx_search :: "rx_item list list \<Rightarrow> string \<Rightarrow> bool" where
  "rx_search alts s = search_from alts None s"

section \<open>Searching for literals\<close>

text \<open>A search for plain literals is a containment test on the lowered strings.\<close>

lemma match_literal: "match_here [RLit l] p s = starts_with (py_lower l) (py_lower s)"
  by (simp add: starts_with_nocase_def)

lemma search_literals_from:
  "search_from (map (\<lambda>l. [RLit l]) ls) p s \<longleftrightarrow> (\<exists>l\<in>set ls. contains (py_lower l) (py_lower s))"
proof (induction s arbitrary: p)
  case Nil
  have "starts_with q [] \<longleftrightarrow> q = []" for q by (auto simp: starts_with_def)
  then show ?case by (auto simp: list_ex_iff starts_with_nocase_def)
next
  case (Cons c s)
  have "contains q (py_lower (c # s)) \<longleftrightarrow> starts_with q (py_lower (c # s)) \<or> contains q (py_lower s)" for q
    by (simp add: py_lower_def)
  then show ?case using Cons.IH by (auto simp: list_ex_iff match_literal simp del: match_here.simps)
qed

lemma search_literals:
  "rx_search (map (\<lambda>l. [RLit l]) ls) s \<longleftrightarrow> (\<exists>l\<in>set ls. contains (py_lower l) (py_lower s))"
  by (simp add: rx_search_def search_literals_from)

end
