(* ===== verification/Detectors.thy ===== *)
theory Detectors
  imports Telemetry Detection Py_Regex Sql_Like
begin

text \<open>
  The v2 detectors D001 to D005 (\<open>backend/detection/detectors/\<close>) with what they share:
  the classification of addresses (\<open>evidence.py\<close>), the read-only window over the stored
  events (\<open>context.py\<close>) and the filter for trusted tooling (\<open>fp_filters.py\<close>).
\<close>

record detector_env =
  de_hash :: "string \<Rightarrow> string"
  de_allow_paths :: string

section \<open>Classification of addresses\<close>

text \<open>The properties of \<open>ipaddress\<close> in Python 3.12, where an IPv6 address that embeds an
  IPv4 address is judged as an IPv6 address.\<close>

definition v4_net :: "nat \<Rightarrow> nat \<Rightarrow> nat \<Rightarrow> ip_net" where
  "v4_net a b p = Net4 (a * 2 ^ 24 + b * 2 ^ 16) p"

definition v6_net :: "nat \<Rightarrow> nat \<Rightarrow> ip_net" where
  "v6_net h p = Net6 (h * 2 ^ 112) p"

definition PRIVATE_NETS :: "ip_net list" where
  "PRIVATE_NETS = [v4_net 10 0 8, v4_net 172 16 12, v4_net 192 168 16, v4_net 100 64 10, v4_net 192 0 24, v4_net 198 18 15]"

definition ip_unspecified :: "ip \<Rightarrow> bool" where
  "ip_unspecified a \<longleftrightarrow> a = V4 0 \<or> a = V6 0"

definition ip_loopback :: "ip \<Rightarrow> bool" where
  "ip_loopback a \<longleftrightarrow> ip_in a (v4_net 127 0 8) \<or> a = V6 1"

definition ip_link_local :: "ip \<Rightarrow> bool" where
  "ip_link_local a \<longleftrightarrow> ip_in a (v4_net 169 254 16) \<or> ip_in a (v6_net 0xfe80 10)"

definition ip_multicast :: "ip \<Rightarrow> bool" where
  "ip_multicast a \<longleftrightarrow> ip_in a (v4_net 224 0 4) \<or> ip_in a (v6_net 0xff00 8)"

definition V6_RESERVED :: "ip_net list" where
  "V6_RESERVED = [v6_net 0 8, v6_net 0x0100 8, v6_net 0x0200 7, v6_net 0x0400 6, v6_net 0x0800 5, v6_net 0x1000 4,
     v6_net 0x4000 3, v6_net 0x6000 3, v6_net 0x8000 3, v6_net 0xA000 3, v6_net 0xC000 3, v6_net 0xE000 4,
     v6_net 0xF000 5, v6_net 0xF800 6, v6_net 0xFE00 9]"

definition ip_reserved :: "ip \<Rightarrow> bool" where
  "ip_reserved a \<longleftrightarrow> ip_in a (v4_net 240 0 4) \<or> (\<exists>n\<in>set V6_RESERVED. ip_in a n)"

definition classify_ip :: "jval option \<Rightarrow> string" where
  "classify_ip v = (case as_str v of
       None \<Rightarrow> ''invalid''
     | Some s \<Rightarrow>
         if py_strip s = [] then ''invalid''
         else (case ip_address (py_strip s) of
             None \<Rightarrow> ''invalid''
           | Some a \<Rightarrow>
               if ip_loopback a then ''loopback''
               else if ip_link_local a then ''link_local''
               else if ip_reserved a \<or> ip_multicast a \<or> ip_unspecified a then ''reserved''
               else if \<exists>n\<in>set PRIVATE_NETS. ip_in a n then ''private''
               else ''external''))"

definition is_external :: "string \<Rightarrow> bool" where
  "is_external s \<longleftrightarrow> classify_ip (Some (JStr s)) = ''external''"

fun first_ip :: "jval option list \<Rightarrow> string" where
  "first_ip [] = []"
| "first_ip (v # vs) = (if classify_ip v = ''invalid'' then first_ip vs
     else (case v of Some x \<Rightarrow> jstr x | None \<Rightarrow> []))"

section \<open>The window over the stored events\<close>

text \<open>No context, a context without a session, or the rows of \<open>v2_events\<close>.\<close>

type_synonym window_context = "event_row list option option"

definition wanted :: "'a option \<Rightarrow> 'a \<Rightarrow> bool" where
  "wanted w v \<longleftrightarrow> (case w of None \<Rightarrow> True | Some x \<Rightarrow> v = x)"

definition events_in_window ::
  "event_row list option \<Rightarrow> time \<Rightarrow> int \<Rightarrow> string option \<Rightarrow> string option \<Rightarrow> string option \<Rightarrow> string option \<Rightarrow> nat
    \<Rightarrow> event_row list" where
  "events_in_window session anchor window host user action event_type limit = (case session of
       None \<Rightarrow> []
     | Some rows \<Rightarrow> take limit (sort_key (\<lambda>r. (er_timestamp r, er_id r))
         (filter (\<lambda>r. anchor - minutes window \<le> er_timestamp r \<and> er_timestamp r \<le> anchor
            \<and> wanted host (er_host r) \<and> wanted user (er_user r) \<and> wanted action (er_action r)
            \<and> wanted event_type (er_event_type r)) rows)))"

section \<open>What every detector fills in\<close>

definition detection_for :: "detector_env \<Rightarrow> string \<Rightarrow> event \<Rightarrow> detection" where
  "detection_for env det e = (let f = event_fingerprint (de_hash env) e in
     \<lparr>det_detector_id = det, det_detector_version = ''1.0.0'', det_event_id = f, det_event_ids = [f],
      det_timestamp = Some (e_timestamp e), det_first_seen = e_timestamp e, det_last_seen = e_timestamp e,
      det_event_type = e_event_type e, det_host_id = [], det_host_name = e_host e, det_user_id = [],
      det_username = e_user e, det_source_ip = [], det_destination_ip = [], det_title = [], det_description = [],
      det_severity = ''medium'', det_confidence = fl (5/10), det_mitre_tactic = [], det_mitre_technique = [],
      det_evidence = [], det_observables = [], det_status = ''new'', det_detection_id = []\<rparr>)"

definition ev :: "string \<Rightarrow> pyval \<Rightarrow> string \<Rightarrow> evidence" where
  "ev f v r = \<lparr>ev_field = f, ev_value = v, ev_reason = r\<rparr>"

definition observe :: "string \<Rightarrow> string \<Rightarrow> observable" where
  "observe t v = ObsDict [(''type'', VStr t), (''value'', VStr v)]"

definition constructed :: "detector_env \<Rightarrow> detection \<Rightarrow> py_error + detection option" where
  "constructed env d = (case detection_init (de_hash env) d of Inl x \<Rightarrow> Inl x | Inr d' \<Rightarrow> Inr (Some d'))"

definition bonus :: "bool \<Rightarrow> rat \<Rightarrow> rat \<Rightarrow> rat" where
  "bonus b x c = (if b then fadd c (fl x) else c)"

section \<open>D001: external RDP logon\<close>

definition REMOTE_INTERACTIVE_LOGON_TYPE :: int where "REMOTE_INTERACTIVE_LOGON_TYPE = 10"

definition rdp_source :: "event \<Rightarrow> string" where
  "rdp_source e = first_ip [map_of (e_network e) ''src_ip'', map_of (e_facts e) ''source_ip'', map_of (e_facts e) ''ip'']"

definition rdp_confidence :: "event \<Rightarrow> rat" where
  "rdp_confidence e = bonus (e_user e \<noteq> [] \<and> e_user e \<noteq> ''-'') (2/100)
     (bonus (e_host e \<noteq> [] \<and> e_host e \<noteq> ''-'') (2/100) (fadd (fadd (fl (70/100)) (fl (15/100))) (fl (10/100))))"

definition rdp_detection :: "detector_env \<Rightarrow> event \<Rightarrow> int \<Rightarrow> detection" where
  "rdp_detection env e n = (let ip = rdp_source e in
     (detection_for env ''D001'' e)\<lparr>
       det_detection_id := make_detection_id (de_hash env) ''D001'' [e_host e, e_user e, ip],
       det_source_ip := ip, det_title := ''External Remote RDP Logon'',
       det_description := ''Remote interactive logon (type '' @ py_str (VInt n) @ '') to '' @ e_host e @ '' as '' @ e_user e
         @ '' from external source '' @ ip @ ''.'',
       det_severity := ''high'', det_confidence := rdp_confidence e,
       det_mitre_tactic := ''Initial Access'', det_mitre_technique := ''T1133'',
       det_evidence := [ev ''logon_type'' (VInt n) ''Remote Interactive Logon (RDP)'',
         ev ''source_ip'' (VStr ip) ''Source classified as external/public'',
         ev ''host'' (VStr (e_host e)) ''Target endpoint'', ev ''user'' (VStr (e_user e)) ''Account used for remote logon''],
       det_observables := [observe ''ipv4-addr'' ip, observe ''user-account'' (e_user e), observe ''hostname'' (e_host e)]\<rparr>)"

definition external_rdp :: "detector_env \<Rightarrow> event \<Rightarrow> window_context \<Rightarrow> py_error + detection option" where
  "external_rdp env e ctx =
     (if e_action e \<noteq> ''logon'' then Inr None
      else case map_of (e_facts e) ''logon_type'' of
        None \<Rightarrow> Inr None
      | Some v \<Rightarrow>
          if v = JNull then Inr None
          else (case py_int v of
              Inl x \<Rightarrow> Inr None
            | Inr n \<Rightarrow>
                if n \<noteq> REMOTE_INTERACTIVE_LOGON_TYPE then Inr None
                else if rdp_source e = [] \<or> \<not> is_external (rdp_source e) then Inr None
                else constructed env (rdp_detection env e n)))"

section \<open>D002: brute force\<close>

definition FAILURE_THRESHOLD :: nat where "FAILURE_THRESHOLD = 10"
definition LOGON_WINDOW_MINUTES :: int where "LOGON_WINDOW_MINUTES = 15"
definition HIGH_COUNT :: nat where "HIGH_COUNT = 30"
definition ESCALATE_COUNT_WITH_SUCCESS :: nat where "ESCALATE_COUNT_WITH_SUCCESS = 20"

definition logon_window :: "event \<Rightarrow> window_context \<Rightarrow> string \<Rightarrow> event_row list" where
  "logon_window e ctx action = (case ctx of
       None \<Rightarrow> []
     | Some session \<Rightarrow> events_in_window session (e_timestamp e) LOGON_WINDOW_MINUTES (Some (e_host e)) (Some (e_user e))
         (Some action) None 10000)"

definition window_counts :: "event \<Rightarrow> window_context \<Rightarrow> nat \<times> event_row list" where
  "window_counts e ctx = (length (logon_window e ctx ''logon_failed''), logon_window e ctx ''logon'')"

definition event_stored :: "detector_env \<Rightarrow> event \<Rightarrow> window_context \<Rightarrow> bool" where
  "event_stored env e ctx = (case ctx of
       Some (Some rows) \<Rightarrow> event_fingerprint (de_hash env) e \<in> set (map er_fingerprint rows)
     | _ \<Rightarrow> False)"

definition failure_count :: "detector_env \<Rightarrow> event \<Rightarrow> window_context \<Rightarrow> nat" where
  "failure_count env e ctx = fst (window_counts e ctx) + (if event_stored env e ctx then 0 else 1)"

definition dict_or_empty :: "dict option \<Rightarrow> dict" where
  "dict_or_empty d = (case d of None \<Rightarrow> [] | Some x \<Rightarrow> x)"

definition row_ip :: "event_row \<Rightarrow> string" where
  "row_ip r = first_ip [map_of (dict_or_empty (er_network r)) ''src_ip'', map_of (dict_or_empty (er_facts r)) ''source_ip'']"

definition logon_sources :: "event \<Rightarrow> event_row list \<Rightarrow> string list" where
  "logon_sources e successes =
     (let before = pyset (filter (\<lambda>ip. ip \<noteq> []) (map row_ip successes));
          ip = first_ip [map_of (e_network e) ''src_ip'', map_of (e_facts e) ''source_ip''] in
      pyset (if ip = [] then before else before @ [ip]))"

definition brute_severity :: "nat \<Rightarrow> bool \<Rightarrow> string" where
  "brute_severity count success =
     (if HIGH_COUNT \<le> count \<or> (success \<and> ESCALATE_COUNT_WITH_SUCCESS \<le> count) then ''high'' else ''medium'')"

definition brute_confidence :: "nat \<Rightarrow> bool \<Rightarrow> rat" where
  "brute_confidence count success = bonus success (8/100)
     (min (fl (90/100)) (fadd (fl (60/100)) (fmul (fl (2/100)) (of_nat (count div FAILURE_THRESHOLD)))))"

definition brute_detection :: "detector_env \<Rightarrow> event \<Rightarrow> nat \<Rightarrow> event_row list \<Rightarrow> detection" where
  "brute_detection env e count successes =
     (let ips = logon_sources e successes; success = (successes \<noteq> []); d = detection_for env ''D002'' e in
      d\<lparr>det_detection_id := make_detection_id (de_hash env) ''D002'' [e_host e, e_user e],
        det_event_ids := map er_fingerprint successes @ [det_event_id d],
        det_source_ip := (case ips of [] \<Rightarrow> [] | ip # _ \<Rightarrow> ip),
        det_title := ''Brute Force - Repeated Authentication Failures'',
        det_description := dec count @ '' failed logons for '' @ e_user e @ ''@'' @ e_host e @ '' within ''
          @ py_str (VInt LOGON_WINDOW_MINUTES) @ '' minutes''
          @ (if success then ''; successful logon observed in the same window'' else []),
        det_severity := brute_severity count success, det_confidence := brute_confidence count success,
        det_mitre_tactic := ''Credential Access'', det_mitre_technique := ''T1110'',
        det_evidence :=
          [ev ''failed_logons'' (VInt (int count)) (''within '' @ py_str (VInt LOGON_WINDOW_MINUTES) @ '' minutes (threshold ''
              @ dec FAILURE_THRESHOLD @ '')''),
           ev ''window_minutes'' (VInt LOGON_WINDOW_MINUTES) ''defined evaluation window'',
           ev ''host'' (VStr (e_host e)) ''Target endpoint'', ev ''user'' (VStr (e_user e)) ''Target account'']
          @ (if ips = [] then [] else [ev ''source_ips'' (VStr (join '','' (take 5 ips))) ''Source addresses observed''])
          @ (if success then [ev ''successful_logon'' (VInt (int (length successes)))
               ''Successful login within window - escalation''] else []),
        det_observables := [observe ''user-account'' (e_user e), observe ''hostname'' (e_host e)]
          @ map (observe ''ipv4-addr'') ips\<rparr>)"

definition brute_force :: "detector_env \<Rightarrow> event \<Rightarrow> window_context \<Rightarrow> py_error + detection option" where
  "brute_force env e ctx =
     (if e_action e \<noteq> ''logon_failed'' then Inr None
      else let count = failure_count env e ctx in
           if count < FAILURE_THRESHOLD \<or> count mod FAILURE_THRESHOLD \<noteq> 0 then Inr None
           else constructed env (brute_detection env e count (snd (window_counts e ctx))))"

end
