(* ===== verification/Detectors_Process.thy ===== *)
theory Detectors_Process
  imports Detectors
begin

text \<open>
  The detectors over processes and files: D003 (suspicious PowerShell), D004 (Python from
  a user-writable path) and D005 (ransomware behavior), and the allow list of trusted
  tooling.
\<close>

text \<open>A path whose separator is the backslash.\<close>

definition win_path :: "string list \<Rightarrow> string" where
  "win_path parts = join [backslash] parts"

definition text_of :: "jval option list \<Rightarrow> string" where
  "text_of vs = jstr (or_chain vs (JStr []))"

section \<open>Trusted tooling\<close>

definition DEFAULT_TRUSTED_FRAGMENTS :: "string list" where
  "DEFAULT_TRUSTED_FRAGMENTS =
     [win_path [''AppData'', ''Local'', ''Temp'', ''opencode'', []], ''AppData/Local/Temp/opencode/'',
      win_path [''F:'', ''My Project'', ''Baraq'', []], ''F:/My Project/Baraq/'',
      win_path [[], ''Documents'', []], win_path [[], ''Desktop'', []], win_path [[], ''Repos'', []],
      win_path [[], ''Projects'', []]]"

definition trusted_patterns :: "string \<Rightarrow> rx_item list list" where
  "trusted_patterns extra = map (\<lambda>l. [RLit l])
     (DEFAULT_TRUSTED_FRAGMENTS @ filter (\<lambda>p. p \<noteq> []) (map py_strip (split_on (CHR '';'') extra)))"

definition is_trusted_agent_activity :: "detector_env \<Rightarrow> string list \<Rightarrow> bool" where
  "is_trusted_agent_activity env texts \<longleftrightarrow>
     (\<exists>t\<in>set texts. t \<noteq> [] \<and> rx_search (trusted_patterns (de_allow_paths env)) t)"

section \<open>D003: suspicious PowerShell\<close>

definition POWERSHELL_NAMES :: "string list" where
  "POWERSHELL_NAMES = [''powershell'', ''powershell.exe'', ''powershell_ise'', ''powershell_ise.exe'', ''pwsh'', ''pwsh.exe'']"

definition ENCODED_RE :: "rx_item list list" where
  "ENCODED_RE = [[RLit ''-enc'', ROpt ''oded'', ROpt ''command'', RBoundary]]"

definition ENCODED_B64_RE :: "rx_item list list" where
  "ENCODED_B64_RE = [[RLit ''frombase64string'']]"

definition DOWNLOAD_RE :: "rx_item list list" where
  "DOWNLOAD_RE =
     [[RLit ''invoke-webrequest''], [RBoundary, RLit ''iwr'', RBoundary], [RLit ''invoke-expression''],
      [RBoundary, RLit ''iex'', RBoundary], [RLit ''downloadstring''], [RLit ''downloadfile''], [RLit ''net.webclient''],
      [RBoundary, RLit ''curl'', RBoundary], [RBoundary, RLit ''wget'', RBoundary], [RLit ''start-bitstransfer'']]"

definition UNUSUAL_LOCATION_RE :: "rx_item list list" where
  "UNUSUAL_LOCATION_RE = map (\<lambda>l. [RLit l])
     [win_path [[], ''temp'', []], win_path [''appdata'', ''local'', ''temp''], win_path [''users'', ''public''], ''programdata'',
      ''/tmp/'', ''/var/tmp/'', ''/dev/shm'']"

definition HIDDEN_WINDOW_RE :: "rx_item list list" where
  "HIDDEN_WINDOW_RE =
     [[RLit ''-windowstyle'', RSpaces, RLit ''hidden''], [RLit ''-w'', RSpaces, RLit ''hidden'', RBoundary]]"

definition powershell_name :: "event \<Rightarrow> string" where
  "powershell_name e = py_lower (text_of [map_of (e_process e) ''name'', map_of (e_facts e) ''process_name''])"

definition powershell_line :: "event \<Rightarrow> string" where
  "powershell_line e = text_of [map_of (e_process e) ''command_line'', map_of (e_process e) ''cmdline'',
     map_of (e_facts e) ''command_line'', map_of (e_facts e) ''commandLine'', map_of (e_facts e) ''cmdline'']"

definition powershell_path :: "event \<Rightarrow> string" where
  "powershell_path e = text_of [map_of (e_process e) ''path'', map_of (e_facts e) ''path'']"

text \<open>Field, value and reason of each characteristic found.\<close>

definition characteristics :: "string \<Rightarrow> string \<Rightarrow> (string \<times> string \<times> string) list" where
  "characteristics line path =
     (if rx_search ENCODED_RE line \<or> rx_search ENCODED_B64_RE line
      then [(''encoded_command'', ''true'', ''Encoded/obfuscated command detected in command line'')] else [])
     @ (if rx_search DOWNLOAD_RE line
        then [(''script_download'', ''true'', ''PowerShell download/execute pattern in command line'')] else [])
     @ (if rx_search UNUSUAL_LOCATION_RE path \<or> rx_search HIDDEN_WINDOW_RE line
        then [(''unusual_location'', str_or path (take 80 line), ''Execution from unusual location / hidden window'')] else [])"

definition powershell_confidence :: "nat \<Rightarrow> rat" where
  "powershell_confidence n = min (fl (90/100)) (fadd (fl (55/100)) (fmul (fl (15/100)) (of_nat n)))"

definition powershell_detection :: "detector_env \<Rightarrow> event \<Rightarrow> (string \<times> string \<times> string) list \<Rightarrow> detection" where
  "powershell_detection env e cs = (let name = powershell_name e; n = length cs in
     (detection_for env ''D003'' e)\<lparr>
       det_title := ''Suspicious PowerShell'',
       det_description := ''PowerShell ('' @ name @ '') on '' @ e_host e @ '' by '' @ e_user e @ '' with '' @ dec n
         @ '' suspicious characteristic(s): '' @ join ''; '' (map (\<lambda>(f, v, r). r) cs),
       det_severity := (if 2 \<le> n then ''high'' else ''medium''), det_confidence := powershell_confidence n,
       det_mitre_tactic := ''Execution'', det_mitre_technique := ''T1059.001'',
       det_evidence := [ev ''process'' (VStr name) ''PowerShell process'', ev ''host'' (VStr (e_host e)) ''Target endpoint'',
           ev ''user'' (VStr (e_user e)) ''Account that started the process'']
         @ map (\<lambda>(f, v, r). ev f (VStr v) r) cs,
       det_observables := [observe ''process'' name, observe ''hostname'' (e_host e), observe ''user-account'' (e_user e)]\<rparr>)"

definition suspicious_powershell :: "detector_env \<Rightarrow> event \<Rightarrow> window_context \<Rightarrow> py_error + detection option" where
  "suspicious_powershell env e ctx =
     (if powershell_name e \<notin> set POWERSHELL_NAMES then Inr None
      else let line = powershell_line e; path = powershell_path e in
        if is_trusted_agent_activity env [line, path] then Inr None
        else let cs = characteristics line path in
          if cs = [] then Inr None else constructed env (powershell_detection env e cs))"

section \<open>D004: Python from a user-writable path\<close>

definition USER_WRITABLE_MARKERS :: "string list" where
  "USER_WRITABLE_MARKERS =
     [win_path [[], ''users'', []], ''/home/'', win_path [[], ''temp'', []], ''/tmp'', ''/var/tmp'', ''/dev/shm'', ''/run/user'',
      win_path [''appdata'', ''local'', ''temp''], win_path [[], ''appdata'', []]]"

definition SYSTEM_MARKERS :: "string list" where
  "SYSTEM_MARKERS =
     [win_path [[], ''windows'', ''system32''], win_path [[], ''windows'', []], ''/usr/'', ''/opt/'', ''/lib'', ''/bin'', ''/sbin'']"

definition TEMP_MARKERS :: "string list" where
  "TEMP_MARKERS = [win_path [[], ''temp'', []], ''/tmp'', ''/var/tmp'', win_path [''appdata'', ''local'', ''temp'']]"

definition is_python :: "string \<Rightarrow> bool" where
  "is_python name \<longleftrightarrow> starts_with ''python'' (py_lower name) \<or> py_lower name \<in> {''py.exe'', ''pyw.exe''}"

definition process_path :: "event \<Rightarrow> string" where
  "process_path e = text_of [map_of (e_process e) ''path'', map_of (e_process e) ''image'',
     map_of (e_facts e) ''path'', map_of (e_facts e) ''image'']"

definition mentions :: "string list \<Rightarrow> string \<Rightarrow> bool" where
  "mentions markers s \<longleftrightarrow> (\<exists>m\<in>set markers. contains m s)"

definition python_confidence :: "string \<Rightarrow> rat" where
  "python_confidence lowered =
     min (fl (85/100)) (fadd (fl (70/100)) (if mentions TEMP_MARKERS lowered then fl (10/100) else fl (5/100)))"

definition python_detection :: "detector_env \<Rightarrow> event \<Rightarrow> string \<Rightarrow> detection" where
  "python_detection env e name =
     (let path = process_path e;
          line = text_of [map_of (e_process e) ''command_line'', map_of (e_process e) ''cmdline'', map_of (e_facts e) ''command_line''];
          parent = text_of [map_of (e_process e) ''parent'', map_of (e_process e) ''parent_name'',
                     map_of (e_facts e) ''parent_process'', map_of (e_facts e) ''parent_name''] in
      (detection_for env ''D004'' e)\<lparr>
        det_title := ''Python Execution from User-Writable Path'',
        det_description := ''Python ('' @ name @ '') executed from user-writable path '' @ path @ '' on '' @ e_host e
          @ '' by '' @ e_user e @ ''.'',
        det_severity := ''medium'', det_confidence := python_confidence (py_lower path),
        det_mitre_tactic := ''Execution'', det_mitre_technique := ''T1059.006'',
        det_evidence :=
          [ev ''process'' (VStr name) ''Python interpreter'', ev ''path'' (VStr path) ''Execution path is user-writable'',
           ev ''user'' (VStr (e_user e)) ''Account that started the process'', ev ''host'' (VStr (e_host e)) ''Target endpoint'']
          @ (if parent = [] then [] else [ev ''parent_process'' (VStr parent) ''Parent process''])
          @ (if line = [] then [] else [ev ''command_line'' (VStr (take 200 line)) ''Full command line'']),
        det_observables := [observe ''process'' name, observe ''file'' path, observe ''hostname'' (e_host e),
          observe ''user-account'' (e_user e)]\<rparr>)"

definition python_writable_path :: "detector_env \<Rightarrow> event \<Rightarrow> window_context \<Rightarrow> py_error + detection option" where
  "python_writable_path env e ctx =
     (let name = text_of [map_of (e_process e) ''name'', map_of (e_facts e) ''process_name''];
          path = process_path e; lowered = py_lower path in
      if \<not> is_python name then Inr None
      else if path = [] then Inr None
      else if mentions SYSTEM_MARKERS lowered then Inr None
      else if \<not> mentions USER_WRITABLE_MARKERS lowered then Inr None
      else constructed env (python_detection env e name))"

section \<open>D005: ransomware behavior\<close>

definition FILE_THRESHOLD :: nat where "FILE_THRESHOLD = 20"
definition HIGH_RATE_COUNT :: nat where "HIGH_RATE_COUNT = 50"
definition FILE_WINDOW_MINUTES :: int where "FILE_WINDOW_MINUTES = 5"

definition is_file_modification :: "string \<Rightarrow> string \<Rightarrow> bool" where
  "is_file_modification action event_type =
     (if event_type = ''file''
      then mentions [''modify'', ''write'', ''create'', ''change'', ''rename''] (py_lower action)
      else mentions [''file_modify'', ''file_write'', ''file_create'', ''file_rename''] (py_lower action))"

text \<open>The facts of a stored row may be NULL; they are read only when the process carries
  no command line.\<close>

definition is_shadow_delete :: "string \<Rightarrow> dict \<Rightarrow> dict option \<Rightarrow> py_error + bool" where
  "is_shadow_delete action process facts =
     (let deletes = (\<lambda>line. contains ''vssadmin'' (py_lower line) \<and> contains ''delete'' (py_lower line)); a = py_lower action in
      if contains ''shadow'' a \<and> (contains ''delete'' a \<or> contains ''remove'' a) then Inr True
      else case map_of process ''command_line'' of
        Some v \<Rightarrow>
          if truthy v then Inr (deletes (jstr v))
          else (case facts of None \<Rightarrow> Inl (AttributeError ''get'')
                 | Some d \<Rightarrow> Inr (deletes (text_of [map_of d ''command_line''])))
      | None \<Rightarrow> (case facts of None \<Rightarrow> Inl (AttributeError ''get'')
                 | Some d \<Rightarrow> Inr (deletes (text_of [map_of d ''command_line'']))))"

fun any_do :: "('a \<Rightarrow> py_error + bool) \<Rightarrow> 'a list \<Rightarrow> py_error + bool" where
  "any_do f [] = Inr False"
| "any_do f (x # xs) = (case f x of Inl e \<Rightarrow> Inl e | Inr b \<Rightarrow> if b then Inr True else any_do f xs)"

definition file_window :: "event \<Rightarrow> event_row list option \<Rightarrow> event_row list" where
  "file_window e session = events_in_window session (e_timestamp e) FILE_WINDOW_MINUTES (Some (e_host e)) None None None 10000"

definition file_events :: "event_row list \<Rightarrow> event_row list" where
  "file_events window = filter (\<lambda>r. is_file_modification (er_action r) (er_event_type r)) window"

definition modification_count :: "detector_env \<Rightarrow> event \<Rightarrow> event_row list \<Rightarrow> nat" where
  "modification_count env e window = length (file_events window)
     + (if event_fingerprint (de_hash env) e \<in> set (map er_fingerprint (file_events window)) then 0 else 1)"

definition shadow_seen :: "event \<Rightarrow> event_row list \<Rightarrow> py_error + bool" where
  "shadow_seen e window =
     (case any_do (\<lambda>r. is_shadow_delete (er_action r) (dict_or_empty (er_process r)) (er_facts r)) window of
        Inl x \<Rightarrow> Inl x
      | Inr b \<Rightarrow> if b then Inr True else is_shadow_delete (e_action e) (e_process e) (Some (e_facts e)))"

text \<open>\<open>Counter(xs).most_common(1)\<close>: the first of the most frequent elements.\<close>

definition most_common :: "string list \<Rightarrow> string option" where
  "most_common xs = List.find (\<lambda>k. list_all (\<lambda>j. count_list xs j \<le> count_list xs k) xs) xs"

definition row_process :: "event_row \<Rightarrow> string" where
  "row_process r = jstr (or_chain [map_of (dict_or_empty (er_process r)) ''name''] (JStr ''-''))"

definition ransomware_confidence :: "nat \<Rightarrow> bool \<Rightarrow> rat" where
  "ransomware_confidence count shadow = bonus shadow (15/100) (bonus (HIGH_RATE_COUNT \<le> count) (15/100) (fl (60/100)))"

definition ransomware_detection :: "detector_env \<Rightarrow> event \<Rightarrow> event_row list \<Rightarrow> bool \<Rightarrow> detection" where
  "ransomware_detection env e window shadow =
     (let count = modification_count env e window; files = file_events window; d = detection_for env ''D005'' e;
          top = (case most_common (map row_process files) of None \<Rightarrow> ''-'' | Some p \<Rightarrow> p) in
      d\<lparr>det_username := [],
        det_event_ids := map er_fingerprint files @ [det_event_id d],
        det_title := ''Ransomware Behavior - Mass File Modification'',
        det_description := dec count @ '' file modifications on '' @ e_host e @ '' within ''
          @ py_str (VInt FILE_WINDOW_MINUTES) @ '' minutes'' @ (if shadow then ''; shadow copy deletion observed'' else []),
        det_severity := (if HIGH_RATE_COUNT \<le> count \<or> shadow then ''high'' else ''medium''),
        det_confidence := ransomware_confidence count shadow,
        det_mitre_tactic := ''Impact'', det_mitre_technique := ''T1486'',
        det_evidence :=
          [ev ''file_modifications'' (VInt (int count)) (''within '' @ py_str (VInt FILE_WINDOW_MINUTES) @ '' minutes (threshold ''
              @ dec FILE_THRESHOLD @ '')''),
           ev ''window_minutes'' (VInt FILE_WINDOW_MINUTES) ''defined evaluation window'',
           ev ''host'' (VStr (e_host e)) ''Target endpoint'',
           ev ''process'' (VStr top) ''Most frequent process performing modifications'']
          @ (if shadow then [ev ''shadow_copy_deletion'' (VBool True) ''Shadow copy deletion observed - recovery undermined'']
             else []),
        det_observables := [observe ''hostname'' (e_host e), observe ''process'' top]\<rparr>)"

definition ransomware_behavior :: "detector_env \<Rightarrow> event \<Rightarrow> window_context \<Rightarrow> py_error + detection option" where
  "ransomware_behavior env e ctx =
     (if \<not> is_file_modification (e_action e) (e_event_type e) then Inr None
      else case ctx of
        None \<Rightarrow> Inr None
      | Some session \<Rightarrow>
          let window = file_window e session; count = modification_count env e window in
          if count < FILE_THRESHOLD \<or> count mod FILE_THRESHOLD \<noteq> 0 then Inr None
          else case shadow_seen e window of
            Inl x \<Rightarrow> Inl x
          | Inr shadow \<Rightarrow> constructed env (ransomware_detection env e window shadow))"

end
