(* ===== verification/Detection_Engine.thy ===== *)
theory Detection_Engine
  imports Detectors_Process
begin

text \<open>
  The v2 detection engine (\<open>backend/detection/engine.py\<close>, \<open>registry.py\<close>, \<open>models.py\<close>) and
  the request that evaluates records (\<open>backend/api/detections.py\<close>): the registry of
  detectors, a run over events, and the table \<open>detections\<close> with one row per detection id.
\<close>

section \<open>Registry\<close>

record detector =
  dt_id :: string
  dt_version :: string
  dt_enabled :: bool
  dt_types :: "string list"
  dt_evaluate :: "event \<Rightarrow> window_context \<Rightarrow> py_error + detection option"

definition supports :: "detector \<Rightarrow> event \<Rightarrow> bool" where
  "supports d e \<longleftrightarrow> dt_types d = [] \<or> e_event_type e \<in> set (dt_types d)"

definition register_detector :: "detector list \<Rightarrow> detector \<Rightarrow> py_error + detector list" where
  "register_detector reg d = (if dt_id d \<in> set (map dt_id reg) then Inl (ValueError ''detector already registered'')
     else Inr (reg @ [d]))"

definition get_detector :: "detector list \<Rightarrow> string \<Rightarrow> detector option" where
  "get_detector reg i = List.find (\<lambda>d. dt_id d = i) reg"

definition enabled_detectors :: "detector list \<Rightarrow> detector list" where
  "enabled_detectors reg = filter dt_enabled reg"

definition detector_of :: "string \<Rightarrow> string list \<Rightarrow> (event \<Rightarrow> window_context \<Rightarrow> py_error + detection option) \<Rightarrow> detector" where
  "detector_of i types f = \<lparr>dt_id = i, dt_version = ''1.0.0'', dt_enabled = True, dt_types = types, dt_evaluate = f\<rparr>"

definition initial_detectors :: "detector_env \<Rightarrow> detector list" where
  "initial_detectors env =
     [detector_of ''D001'' [''authentication''] (external_rdp env), detector_of ''D002'' [''authentication''] (brute_force env),
      detector_of ''D003'' [''process''] (suspicious_powershell env),
      detector_of ''D004'' [''process''] (python_writable_path env), detector_of ''D005'' [] (ransomware_behavior env)]"

fun register_all :: "detector list \<Rightarrow> detector list \<Rightarrow> py_error + detector list" where
  "register_all reg [] = Inr reg"
| "register_all reg (d # ds) = (case register_detector reg d of Inl x \<Rightarrow> Inl x | Inr reg1 \<Rightarrow> register_all reg1 ds)"

definition build_default_registry :: "detector_env \<Rightarrow> py_error + detector list" where
  "build_default_registry env = register_all [] (initial_detectors env)"

section \<open>A run\<close>

text \<open>A detector that raises is skipped.\<close>

fun run_detectors :: "detector list \<Rightarrow> event \<Rightarrow> window_context \<Rightarrow> detection list" where
  "run_detectors [] e ctx = []"
| "run_detectors (d # ds) e ctx =
     (if \<not> supports d e then run_detectors ds e ctx
      else case dt_evaluate d e ctx of
        Inl x \<Rightarrow> run_detectors ds e ctx
      | Inr None \<Rightarrow> run_detectors ds e ctx
      | Inr (Some f) \<Rightarrow> f # run_detectors ds e ctx)"

definition run_detection :: "detector list \<Rightarrow> event \<Rightarrow> window_context \<Rightarrow> detection list" where
  "run_detection reg e ctx = run_detectors (enabled_detectors reg) e ctx"

definition run_detections :: "detector list \<Rightarrow> event list \<Rightarrow> window_context \<Rightarrow> detection list" where
  "run_detections reg es ctx = concat (map (\<lambda>e. run_detection reg e ctx) es)"

section \<open>The table of detections\<close>

record detection_row =
  dr_id :: nat
  dr_detection_id :: string
  dr_detector_id :: string
  dr_detector_version :: string
  dr_title :: string
  dr_description :: string
  dr_severity :: string
  dr_confidence :: rat
  dr_timestamp :: time
  dr_first_seen :: time
  dr_last_seen :: time
  dr_event_id :: string
  dr_event_ids :: "string list"
  dr_host_id :: string
  dr_host_name :: string
  dr_user_id :: string
  dr_username :: string
  dr_source_ip :: string
  dr_destination_ip :: string
  dr_mitre_tactic :: string
  dr_mitre_technique :: string
  dr_evidence :: "evidence list"
  dr_observables :: "(string \<times> pyval) list list"
  dr_status :: string
  dr_created_at :: time
  dr_updated_at :: time

record detection_db =
  ddb_rows :: "detection_row list"
  ddb_seq :: nat

text \<open>\<open>dict(o)\<close> of an observable.\<close>

fun observable_dict :: "observable \<Rightarrow> py_error + (string \<times> pyval) list" where
  "observable_dict (ObsDict kvs) = Inr kvs"
| "observable_dict (ObsStr s) = (if s = [] then Inr [] else Inl (ValueError ''dictionary update sequence element''))"

fun observable_dicts :: "observable list \<Rightarrow> py_error + (string \<times> pyval) list list" where
  "observable_dicts [] = Inr []"
| "observable_dicts (x # xs) = (case observable_dict x of Inl e \<Rightarrow> Inl e
     | Inr d \<Rightarrow> (case observable_dicts xs of Inl e \<Rightarrow> Inl e | Inr ds \<Rightarrow> Inr (d # ds)))"

definition refreshed_row :: "detection \<Rightarrow> (string \<times> pyval) list list \<Rightarrow> time \<Rightarrow> detection_row \<Rightarrow> detection_row" where
  "refreshed_row d obs wall r = r\<lparr>dr_severity := det_severity d, dr_confidence := det_confidence d, dr_title := det_title d,
     dr_description := det_description d, dr_evidence := det_evidence d, dr_observables := obs,
     dr_event_ids := pyset (dr_event_ids r @ det_event_ids d), dr_updated_at := wall,
     dr_first_seen := min (dr_first_seen r) (det_first_seen d), dr_last_seen := max (dr_last_seen r) (det_last_seen d)\<rparr>"

definition new_row :: "detection \<Rightarrow> time \<Rightarrow> (string \<times> pyval) list list \<Rightarrow> time \<Rightarrow> detection_row" where
  "new_row d ts obs wall =
     \<lparr>dr_id = 0, dr_detection_id = det_detection_id d, dr_detector_id = det_detector_id d,
      dr_detector_version = det_detector_version d, dr_title = det_title d, dr_description = det_description d,
      dr_severity = det_severity d, dr_confidence = det_confidence d, dr_timestamp = ts,
      dr_first_seen = det_first_seen d, dr_last_seen = det_last_seen d, dr_event_id = det_event_id d,
      dr_event_ids = det_event_ids d, dr_host_id = det_host_id d, dr_host_name = det_host_name d,
      dr_user_id = det_user_id d, dr_username = det_username d, dr_source_ip = det_source_ip d,
      dr_destination_ip = det_destination_ip d, dr_mitre_tactic = det_mitre_tactic d,
      dr_mitre_technique = det_mitre_technique d, dr_evidence = det_evidence d, dr_observables = obs,
      dr_status = det_status d, dr_created_at = wall, dr_updated_at = wall\<rparr>"

definition persist :: "engine_config \<Rightarrow> time \<Rightarrow> detection \<Rightarrow> detection_db \<Rightarrow> py_error + detection_db \<times> detection_row" where
  "persist cfg wall d db =
     (case ensure_not_production_db ''detection'' cfg of Inl x \<Rightarrow> Inl x | Inr _ \<Rightarrow>
     (case observable_dicts (det_observables d) of Inl x \<Rightarrow> Inl x | Inr obs \<Rightarrow>
     (case List.find (\<lambda>r. dr_detection_id r = det_detection_id d) (ddb_rows db) of
        Some r \<Rightarrow> Inr (db\<lparr>ddb_rows := update_row dr_id (dr_id r) (refreshed_row d obs wall) (ddb_rows db)\<rparr>,
                       refreshed_row d obs wall r)
      | None \<Rightarrow>
          (case det_timestamp d of
             None \<Rightarrow> Inl (IntegrityError ''detections.timestamp'')
           | Some ts \<Rightarrow> (let r = (new_row d ts obs wall)\<lparr>dr_id := Suc (ddb_seq db)\<rparr> in
               Inr (db\<lparr>ddb_rows := ddb_rows db @ [r], ddb_seq := Suc (ddb_seq db)\<rparr>, r))))))"

text \<open>Every detection is committed on its own: an exception keeps the ones before it.\<close>

fun persist_all :: "engine_config \<Rightarrow> time \<Rightarrow> detection list \<Rightarrow> detection_db \<Rightarrow> detection_db \<times> (py_error + detection_row list)" where
  "persist_all cfg wall [] db = (db, Inr [])"
| "persist_all cfg wall (d # ds) db = (case persist cfg wall d db of
       Inl x \<Rightarrow> (db, Inl x)
     | Inr (db1, r) \<Rightarrow> (case persist_all cfg wall ds db1 of
           (db2, Inl x) \<Rightarrow> (db2, Inl x) | (db2, Inr rs) \<Rightarrow> (db2, Inr (r # rs))))"

definition run_and_persist ::
  "engine_config \<Rightarrow> detector list \<Rightarrow> time \<Rightarrow> event list \<Rightarrow> window_context \<Rightarrow> detection_db
    \<Rightarrow> detection_db \<times> (py_error + detection_row list)" where
  "run_and_persist cfg reg wall es ctx db = persist_all cfg wall (run_detections reg es ctx) db"

section \<open>The evaluation request\<close>

text \<open>\<open>POST /api/detections/evaluate\<close>: the records are normalised without a fallback
  time and are not enriched.\<close>

fun evaluate_records ::
  "(string \<Rightarrow> time option) \<Rightarrow> engine_config \<Rightarrow> detector list \<Rightarrow> time \<Rightarrow> window_context \<Rightarrow> jval list \<Rightarrow> detection_db
    \<Rightarrow> detection_db \<times> (py_error + detection list)" where
  "evaluate_records parse_time cfg reg wall ctx [] db = (db, Inr [])"
| "evaluate_records parse_time cfg reg wall ctx (raw # raws) db =
     (case normalize_record parse_time raw None of
        Inl x \<Rightarrow> (db, Inl x)
      | Inr None \<Rightarrow> evaluate_records parse_time cfg reg wall ctx raws db
      | Inr (Some e) \<Rightarrow>
          (let found = run_detection reg e ctx in
           case persist_all cfg wall found db of
             (db1, Inl x) \<Rightarrow> (db1, Inl x)
           | (db1, Inr rs) \<Rightarrow>
               (case evaluate_records parse_time cfg reg wall ctx raws db1 of
                  (db2, Inl x) \<Rightarrow> (db2, Inl x) | (db2, Inr ds) \<Rightarrow> (db2, Inr (found @ ds)))))"

definition evaluate_telemetry ::
  "bool \<Rightarrow> (string \<Rightarrow> time option) \<Rightarrow> engine_config \<Rightarrow> detector list \<Rightarrow> time \<Rightarrow> event_db \<Rightarrow> jval list \<Rightarrow> detection_db
    \<Rightarrow> detection_db \<times> (py_error + detection list)" where
  "evaluate_telemetry enabled parse_time cfg reg wall events raws db =
     (if \<not> enabled then (db, Inr [])
      else evaluate_records parse_time cfg reg wall (Some (Some (edb_rows events))) raws db)"

end
