(* ===== verification/Keyed_Rows.thy ===== *)
theory Keyed_Rows
  imports Row_Store
begin

text \<open>
  The contract of a table with a serial id and a unique text column: the fingerprint of
  an event, the public id of a detection.  Rows are appended with the next number and
  never lose their key.
\<close>

locale keyed_rows = serial_rows rid set_id
  for rid :: "'r \<Rightarrow> nat" and set_id :: "nat \<Rightarrow> 'r \<Rightarrow> 'r" +
  fixes key :: "'r \<Rightarrow> string"
  assumes key_set_id: "key (set_id n r) = key r"
begin

definition table_ok :: "'r list \<Rightarrow> nat \<Rightarrow> bool" where
  "table_ok rs seq \<longleftrightarrow> ids_ok rs seq \<and> distinct (map key rs)"

fun numbered :: "nat \<Rightarrow> 'r list \<Rightarrow> 'r list" where
  "numbered n [] = []"
| "numbered n (r # rs) = set_id (Suc n) r # numbered (Suc n) rs"

lemma length_numbered [simp]: "length (numbered n rs) = length rs"
  by (induction rs arbitrary: n) auto

lemma key_numbered: "map key (numbered n rs) = map key rs"
  by (induction rs arbitrary: n) (simp_all add: key_set_id)

lemma table_ok_Nil: "table_ok [] n"
  by (simp add: table_ok_def ids_ok_Nil)

lemma table_ok_append: "table_ok rs seq \<Longrightarrow> key r \<notin> key ` set rs \<Longrightarrow> table_ok (rs @ [set_id (Suc seq) r]) (Suc seq)"
  using ids_ok_append [of rs seq "Suc seq" r] by (simp add: table_ok_def key_set_id)

lemma table_ok_numbered:
  "table_ok rs seq \<Longrightarrow> distinct (map key qs) \<Longrightarrow> key ` set qs \<inter> key ` set rs = {}
   \<Longrightarrow> table_ok (rs @ numbered seq qs) (seq + length qs)"
proof (induction qs arbitrary: rs seq)
  case (Cons q qs)
  have "table_ok (rs @ [set_id (Suc seq) q]) (Suc seq)"
    using table_ok_append [OF Cons.prems(1)] Cons.prems(3) by auto
  from Cons.IH [OF this] Cons.prems show ?case by (auto simp: key_set_id)
qed simp

lemma table_ok_update:
  "(\<And>r. rid (f r) = rid r \<and> key (f r) = key r) \<Longrightarrow> table_ok rs seq \<Longrightarrow> table_ok (update_row rid i f rs) seq"
  by (simp add: table_ok_def ids_ok_update map_update_row)

lemma keyed_unique: "table_ok rs seq \<Longrightarrow> a \<in> set rs \<Longrightarrow> b \<in> set rs \<Longrightarrow> key a = key b \<Longrightarrow> a = b"
  using distinct_map_inj [of key rs a b] by (simp add: table_ok_def)

lemma find_keyed: "table_ok rs seq \<Longrightarrow> r \<in> set rs \<Longrightarrow> List.find (\<lambda>q. key q = key r) rs = Some r"
proof -
  assume t: "table_ok rs seq" "r \<in> set rs"
  show ?thesis
  proof (cases "List.find (\<lambda>q. key q = key r) rs")
    case None
    with t(2) show ?thesis by (auto simp: find_None_iff')
  next
    case (Some q)
    from find_SomeD [OF this] have "q = r" using keyed_unique [OF t(1) _ t(2)] by blast
    with Some show ?thesis by simp
  qed
qed

end

end
