(* ===== verification/Detection_Props.thy ===== *)
theory Detection_Props
  imports Detection_Engine Keyed_Rows "HOL-Library.Sublist"
begin

text \<open>
  What the v2 detectors guarantee one by one, and the shape of what a run of the default
  registry returns.
\<close>

section \<open>Constructed detections\<close>

definition built :: "detector_env \<Rightarrow> detection \<Rightarrow> detection" where
  "built env d = d\<lparr>det_confidence := clamp_confidence (det_confidence d), det_event_ids := pyset (det_event_ids d),
     det_detection_id := (if det_detection_id d = []
       then make_detection_id (de_hash env) (det_detector_id d) [det_event_id d, det_title d] else det_detection_id d)\<rparr>"

lemma constructed_built:
  "det_severity d \<in> {''medium'', ''high''} \<Longrightarrow> det_status d = ''new'' \<Longrightarrow> constructed env d = Inr (Some (built env d))"
  by (auto simp: constructed_def detection_init_def built_def DETECTION_STATUSES_def)

text \<open>What a detection says about the event it was raised for.\<close>

definition reports :: "detector_env \<Rightarrow> event \<Rightarrow> detection \<Rightarrow> bool" where
  "reports env e d \<longleftrightarrow> detection_ok d \<and> det_severity d \<in> {''medium'', ''high''}
     \<and> det_event_id d = event_fingerprint (de_hash env) e \<and> det_event_id d \<in> set (det_event_ids d)
     \<and> det_timestamp d = Some (e_timestamp e) \<and> det_first_seen d = e_timestamp e \<and> det_last_seen d = e_timestamp e
     \<and> det_host_name d = e_host e \<and> (\<forall>o'\<in>set (det_observables d). \<exists>kvs. o' = ObsDict kvs)"

definition drafted :: "detector_env \<Rightarrow> event \<Rightarrow> detection \<Rightarrow> bool" where
  "drafted env e d \<longleftrightarrow> det_severity d \<in> {''medium'', ''high''} \<and> det_status d = ''new''
     \<and> det_event_id d = event_fingerprint (de_hash env) e \<and> det_event_id d \<in> set (det_event_ids d)
     \<and> det_timestamp d = Some (e_timestamp e) \<and> det_first_seen d = e_timestamp e \<and> det_last_seen d = e_timestamp e
     \<and> det_host_name d = e_host e \<and> (\<forall>o'\<in>set (det_observables d). \<exists>kvs. o' = ObsDict kvs)"

lemma reports_built: "drafted env e d \<Longrightarrow> reports env e (built env d)"
  using clamp_confidence_unit [of "det_confidence d"]
  by (auto simp: drafted_def reports_def built_def detection_ok_def DETECTION_STATUSES_def)

lemma constructed_drafted: "drafted env e d \<Longrightarrow> constructed env d = Inr (Some (built env d))"
  by (rule constructed_built) (simp_all add: drafted_def)

lemma rdp_drafted: "drafted env e (rdp_detection env e n)"
  by (simp add: drafted_def rdp_detection_def detection_for_def observe_def Let_def)

lemma brute_drafted: "drafted env e (brute_detection env e n rs)"
  by (auto simp: drafted_def brute_detection_def detection_for_def observe_def brute_severity_def Let_def)

lemma powershell_drafted: "drafted env e (powershell_detection env e cs)"
  by (auto simp: drafted_def powershell_detection_def detection_for_def observe_def Let_def)

lemma python_drafted: "drafted env e (python_detection env e n)"
  by (simp add: drafted_def python_detection_def detection_for_def observe_def Let_def)

lemma ransomware_drafted: "drafted env e (ransomware_detection env e w s)"
  by (auto simp: drafted_def ransomware_detection_def detection_for_def observe_def Let_def)

lemmas drafts = rdp_drafted brute_drafted powershell_drafted python_drafted ransomware_drafted

text \<open>Each detector returns nothing or the detection it drafts.\<close>

definition answers :: "detector_env \<Rightarrow> string \<Rightarrow> event \<Rightarrow> py_error + detection option \<Rightarrow> bool" where
  "answers env i e res \<longleftrightarrow> (\<forall>d. res = Inr (Some d) \<longrightarrow>
     (\<exists>d0. d = built env d0 \<and> drafted env e d0 \<and> det_detector_id d0 = i))"

lemma answers_None [simp]: "answers env i e (Inr None)"
  by (simp add: answers_def)

lemma answers_Inl [simp]: "answers env i e (Inl x)"
  by (simp add: answers_def)

lemma answers_constructed: "drafted env e d \<Longrightarrow> det_detector_id d = i \<Longrightarrow> answers env i e (constructed env d)"
  by (auto simp: answers_def constructed_drafted)

lemma draft_ids:
  "det_detector_id (rdp_detection env e n) = ''D001''" "det_detector_id (brute_detection env e m rs) = ''D002''"
  "det_detector_id (powershell_detection env e cs) = ''D003''" "det_detector_id (python_detection env e nm) = ''D004''"
  "det_detector_id (ransomware_detection env e w s) = ''D005''"
  by (simp_all add: rdp_detection_def brute_detection_def powershell_detection_def python_detection_def
      ransomware_detection_def detection_for_def Let_def)

lemma external_rdp_answers: "answers env ''D001'' e (external_rdp env e ctx)"
  unfolding external_rdp_def
  by (auto simp: answers_constructed drafts draft_ids split: option.splits sum.splits)

lemma brute_force_answers: "answers env ''D002'' e (brute_force env e ctx)"
  unfolding brute_force_def by (simp add: Let_def answers_constructed drafts draft_ids)

lemma powershell_answers: "answers env ''D003'' e (suspicious_powershell env e ctx)"
  unfolding suspicious_powershell_def by (simp add: Let_def answers_constructed drafts draft_ids)

lemma python_answers: "answers env ''D004'' e (python_writable_path env e ctx)"
  unfolding python_writable_path_def by (simp add: Let_def answers_constructed drafts draft_ids)

lemma ransomware_answers: "answers env ''D005'' e (ransomware_behavior env e ctx)"
  unfolding ransomware_behavior_def
  by (auto simp: Let_def answers_constructed drafts draft_ids split: option.splits sum.splits)

section \<open>A run of the registry\<close>

definition well_behaved :: "detector_env \<Rightarrow> detector \<Rightarrow> bool" where
  "well_behaved env d \<longleftrightarrow> (\<forall>e ctx. answers env (dt_id d) e (dt_evaluate d e ctx))"

lemma initial_well_behaved: "d \<in> set (initial_detectors env) \<Longrightarrow> well_behaved env d \<and> dt_enabled d"
  by (auto simp: initial_detectors_def detector_of_def well_behaved_def external_rdp_answers brute_force_answers
      powershell_answers python_answers ransomware_answers)

lemma run_detectors_shape:
  "list_all (well_behaved env) ds \<Longrightarrow>
     subseq (map det_detector_id (run_detectors ds e ctx)) (map dt_id ds)
     \<and> (\<forall>d\<in>set (run_detectors ds e ctx). reports env e d)"
proof (induction ds)
  case (Cons d ds)
  then have ih: "subseq (map det_detector_id (run_detectors ds e ctx)) (map dt_id ds)"
    "\<forall>f\<in>set (run_detectors ds e ctx). reports env e f" by simp_all
  have skip: "subseq (map det_detector_id (run_detectors ds e ctx)) (map dt_id (d # ds))"
    using ih(1) by (simp add: list_emb_Cons)
  show ?case
  proof (cases "\<exists>f. supports d e \<and> dt_evaluate d e ctx = Inr (Some f)")
    case True
    then obtain f where f: "supports d e" "dt_evaluate d e ctx = Inr (Some f)" by blast
    obtain d0 where d0: "f = built env d0" "drafted env e d0" "det_detector_id d0 = dt_id d"
      using Cons.prems f(2) unfolding well_behaved_def answers_def list.pred_inject by blast
    have "det_detector_id f = dt_id d" using d0 by (simp add: built_def)
    then show ?thesis using f ih reports_built [OF d0(2)] d0(1) by simp
  next
    case False
    then have "run_detectors (d # ds) e ctx = run_detectors ds e ctx"
      by (auto split: sum.splits option.splits)
    then show ?thesis using skip ih(2) by simp
  qed
qed simp

lemma default_registry: "build_default_registry env = Inr (initial_detectors env)"
  by (simp add: build_default_registry_def initial_detectors_def register_detector_def detector_of_def)

lemma enabled_initial: "enabled_detectors (initial_detectors env) = initial_detectors env"
  using initial_well_behaved by (auto simp: enabled_detectors_def filter_id_conv)

lemma run_initial:
  "subseq (map det_detector_id (run_detection (initial_detectors env) e ctx)) (map dt_id (initial_detectors env))
   \<and> (\<forall>d\<in>set (run_detection (initial_detectors env) e ctx). reports env e d)"
  unfolding run_detection_def enabled_initial
  by (rule run_detectors_shape) (simp add: list_all_iff initial_well_behaved)

lemma run_initial_reports: "d \<in> set (run_detection (initial_detectors env) e ctx) \<Longrightarrow> reports env e d"
  using run_initial by blast

section \<open>Counting\<close>

lemma length_events_in_window:
  "length (events_in_window (Some rows) anchor w host user action type limit)
     = min limit (length (filter (\<lambda>r. anchor - minutes w \<le> er_timestamp r \<and> er_timestamp r \<le> anchor
         \<and> wanted host (er_host r) \<and> wanted user (er_user r) \<and> wanted action (er_action r)
         \<and> wanted type (er_event_type r)) rows))"
  by (simp add: events_in_window_def min.commute)

text \<open>The stored rows of the last quarter of an hour for the host and user of an event.\<close>

definition recent_logons :: "event \<Rightarrow> string \<Rightarrow> event_row list \<Rightarrow> event_row list" where
  "recent_logons e action rows = filter (\<lambda>r. e_timestamp e - minutes 15 \<le> er_timestamp r \<and> er_timestamp r \<le> e_timestamp e
     \<and> er_host r = e_host e \<and> er_user r = e_user e \<and> er_action r = action) rows"

lemma failure_count_rows:
  "failure_count env e (Some (Some rows)) =
     min 10000 (length (recent_logons e ''logon_failed'' rows))
     + (if event_fingerprint (de_hash env) e \<in> er_fingerprint ` set rows then 0 else 1)"
  by (simp add: failure_count_def window_counts_def logon_window_def length_events_in_window recent_logons_def
      event_stored_def wanted_def LOGON_WINDOW_MINUTES_def)

lemma successes_rows:
  "snd (window_counts e (Some (Some rows))) = [] \<longleftrightarrow> recent_logons e ''logon'' rows = []"
proof -
  have "length (snd (window_counts e (Some (Some rows)))) = min 10000 (length (recent_logons e ''logon'' rows))"
    by (simp add: window_counts_def logon_window_def length_events_in_window recent_logons_def wanted_def
        LOGON_WINDOW_MINUTES_def)
  then show ?thesis by (metis length_0_conv min_0L min_0R min_def zero_neq_numeral)
qed

lemma no_success_without_rows: "failure_count env e None = 1" "failure_count env e (Some None) = 1"
  by (simp_all add: failure_count_def window_counts_def logon_window_def events_in_window_def event_stored_def)

section \<open>Enrichment changes the fingerprint\<close>

lemma length_join: "length (join sep xs) = sum_list (map length xs) + (length xs - 1) * length sep"
  by (induction sep xs rule: join.induct) auto

lemma sum_list_sort_key: "sum_list (map f (sort_key g xs)) = (sum_list (map f xs) :: nat)"
proof (induction xs)
  case (Cons x xs)
  have "sum_list (map f (insort_key g x ys)) = (f x + sum_list (map f ys) :: nat)" for ys
    by (induction ys) auto
  with Cons show ?case by simp
qed simp

lemma length_jdump_obj:
  "length (jdump (JObj kvs)) = 2 + sum_list (map (\<lambda>(k, v). length (json_str k) + 1 + length (jdump v)) kvs) + (length kvs - 1)"
proof -
  have "sum_list (map (\<lambda>(k, v). length (json_str k) + 1 + length v) (map (\<lambda>(k, v). (k, jdump v)) kvs))
      = sum_list (map (\<lambda>(k, v). length (json_str k) + 1 + length (jdump v)) kvs)"
    by (simp add: comp_def split_def)
  then show ?thesis
    by (simp add: json_obj_def length_join comp_def split_def sum_list_sort_key)
qed

lemma update_absent: "k \<notin> fst ` set kvs \<Longrightarrow> AList.update k v kvs = kvs @ [(k, v)]"
  by (induction kvs) auto

lemma jdump_grows:
  "k \<notin> fst ` set kvs \<Longrightarrow> length (jdump (JObj kvs)) < length (jdump (JObj (AList.update k v kvs)))"
  by (simp add: update_absent length_jdump_obj del: jdump.simps)

definition unenriched :: "event \<Rightarrow> bool" where
  "unenriched e \<longleftrightarrow> ''geo'' \<notin> fst ` set (e_facts e) \<and> ''intel'' \<notin> fst ` set (e_facts e)
     \<and> (\<exists>ip. map_of (e_facts e) ''source_ip'' = Some (JStr ip) \<and> ip \<noteq> [])"

lemma enrich_facts_longer:
  assumes "unenriched e"
  shows "length (jdump (JObj (e_facts e))) < length (jdump (JObj (e_facts (enrich inds e))))"
proof -
  obtain ip where ip: "map_of (e_facts e) ''source_ip'' = Some (JStr ip)" "ip \<noteq> []"
    using assms by (auto simp: unenriched_def)
  have g: "enrich_geo e = with_fact ''geo'' (JObj [(''ip'', JStr ip), (''status'', JStr ''unresolved'')]) e"
    using ip by (simp add: enrich_geo_def geo_address_def)
  let ?g = "enrich_geo e"
  have 1: "length (jdump (JObj (e_facts e))) < length (jdump (JObj (e_facts ?g)))"
    using assms jdump_grows unfolding g with_fact_def by (simp add: unenriched_def del: jdump.simps)
  have "''intel'' \<notin> fst ` set (e_facts ?g)"
    using assms unfolding g with_fact_def by (simp add: unenriched_def update_absent)
  then have "length (jdump (JObj (e_facts ?g))) \<le> length (jdump (JObj (e_facts (enrich_intel inds ?g))))"
    using jdump_grows [of "''intel''"] unfolding enrich_intel_def with_fact_def
    by (simp add: Let_def less_imp_le del: jdump.simps)
  with 1 show ?thesis by (simp add: enrich_def del: jdump.simps)
qed

lemma enrich_fields:
  "e_host (enrich inds e) = e_host e \<and> e_user (enrich inds e) = e_user e \<and> e_action (enrich inds e) = e_action e
   \<and> e_timestamp (enrich inds e) = e_timestamp e \<and> e_org (enrich inds e) = e_org e \<and> e_source (enrich inds e) = e_source e"
  by (simp add: enrich_def enrich_geo_def enrich_intel_def with_fact_def Let_def split: option.split)

lemma enrich_fingerprint:
  assumes "inj H" "unenriched e" shows "event_fingerprint H (enrich inds e) \<noteq> event_fingerprint H e"
proof
  assume "event_fingerprint H (enrich inds e) = event_fingerprint H e"
  then have "event_payload (enrich inds e) = event_payload e"
    using assms(1) by (simp add: event_fingerprint_def inj_eq)
  then have "jdump (JObj (e_facts (enrich inds e))) = jdump (JObj (e_facts e))"
    by (simp add: event_payload_def json_obj_def enrich_fields del: jdump.simps py_str.simps)
  with enrich_facts_longer [OF assms(2), of inds] show False by simp
qed

end
