(* ===== verification/Ingestion.thy ===== *)
theory Ingestion
  imports Telemetry Keyed_Rows "HOL-Library.Sublist"
begin

text \<open>
  What the ingestion of telemetry guarantees: the table of events keeps unique
  fingerprints, the counters account for every record, and replaying a batch whose
  records carry their time adds nothing.
\<close>

interpretation evs: keyed_rows er_id "\<lambda>n r. r\<lparr>er_id := n\<rparr>" er_fingerprint
  by unfold_locales auto

definition event_db_ok :: "event_db \<Rightarrow> bool" where
  "event_db_ok db \<longleftrightarrow> evs.table_ok (edb_rows db) (edb_seq db)"

lemma add_rows_numbered:
  "add_rows rs db = db\<lparr>edb_rows := edb_rows db @ evs.numbered (edb_seq db) rs, edb_seq := edb_seq db + length rs\<rparr>"
  by (induction rs arbitrary: db) simp_all

definition stored_keys :: "event_db \<Rightarrow> string set" where
  "stored_keys db = er_fingerprint ` set (edb_rows db)"

lemma stored_keys_add: "stored_keys (add_rows rs db) = stored_keys db \<union> er_fingerprint ` set rs"
  unfolding stored_keys_def add_rows_numbered
  by (simp add: image_Un) (metis evs.key_numbered image_set)

lemma add_rows_ok:
  "event_db_ok db \<Longrightarrow> distinct (map er_fingerprint rs) \<Longrightarrow> er_fingerprint ` set rs \<inter> stored_keys db = {}
   \<Longrightarrow> event_db_ok (add_rows rs db)"
  by (simp add: event_db_ok_def add_rows_numbered stored_keys_def evs.table_ok_numbered)

lemma add_rows_prefix: "prefix (edb_rows db) (edb_rows (add_rows rs db))"
  by (simp add: add_rows_numbered)

section \<open>The two loops\<close>

text \<open>The event a record contributes, if any.\<close>

definition event_of_record ::
  "(string \<Rightarrow> time option) \<Rightarrow> bool \<Rightarrow> string list \<Rightarrow> time \<Rightarrow> jval \<Rightarrow> event list" where
  "event_of_record pt enriched indicators wall raw = (case normalize_record pt raw (Some wall) of
       Inr (Some e) \<Rightarrow> [if enriched then enrich indicators e else e] | _ \<Rightarrow> [])"

abbreviation batch_events where
  "batch_events pt enriched indicators wall raws \<equiv> concat (map (event_of_record pt enriched indicators wall) raws)"

lemma read_record_step:
  "\<exists>st1. read_record pt enriched indicators wall (es, st) raw = (es @ event_of_record pt enriched indicators wall raw, st1)
     \<and> length (es @ event_of_record pt enriched indicators wall raw) + is_skipped st1 + is_failed st1
       = Suc (length es + is_skipped st + is_failed st)
     \<and> is_ingested st1 = is_ingested st \<and> is_duplicates st1 = is_duplicates st"
proof (cases "normalize_record pt raw (Some wall)")
  case (Inr o')
  then show ?thesis by (cases o') (simp_all add: read_record_def event_of_record_def)
qed (simp add: read_record_def event_of_record_def)

lemma read_batch:
  "foldl (read_record pt enriched indicators wall) (es, st) raws = (es', st') \<Longrightarrow>
     es' = es @ batch_events pt enriched indicators wall raws
     \<and> length es' + is_skipped st' + is_failed st' = length es + is_skipped st + is_failed st + length raws
     \<and> is_ingested st' = is_ingested st \<and> is_duplicates st' = is_duplicates st"
proof (induction raws arbitrary: es st)
  case (Cons raw raws)
  define es1 where "es1 = es @ event_of_record pt enriched indicators wall raw"
  obtain st1 where s1: "read_record pt enriched indicators wall (es, st) raw = (es1, st1)"
      "length es1 + is_skipped st1 + is_failed st1 = Suc (length es + is_skipped st + is_failed st)"
      "is_ingested st1 = is_ingested st" "is_duplicates st1 = is_duplicates st"
    unfolding es1_def using read_record_step [of pt enriched indicators wall es st raw] by blast
  have "foldl (read_record pt enriched indicators wall) (es1, st1) raws = (es', st')"
    using Cons.prems by (simp add: s1(1))
  note ih = Cons.IH [OF this]
  show ?case
    using ih [THEN conjunct1] ih [THEN conjunct2] s1(2-4) by (simp add: es1_def)
qed simp

lemma fresh_events_keys:
  "event_fingerprint H ` set (fresh_events H existing es) = event_fingerprint H ` set es - set existing
   \<and> distinct (map (event_fingerprint H) (fresh_events H existing es))
   \<and> length (fresh_events H existing es) \<le> length es"
  by (induction es arbitrary: existing) (force simp: Let_def)+

lemma row_of_event_key [simp]: "er_fingerprint (row_of_event H e) = event_fingerprint H e"
  by (simp add: row_of_event_def)

section \<open>One call\<close>

text \<open>Rows of other workers obey the same unique column.\<close>

definition rivals_ok :: "event_row list \<Rightarrow> event_db \<Rightarrow> bool" where
  "rivals_ok rivals db \<longleftrightarrow> distinct (map er_fingerprint rivals) \<and> er_fingerprint ` set rivals \<inter> stored_keys db = {}"

definition batch_fresh where
  "batch_fresh pt H enriched wall raws db = fresh_events H
     (filter (\<lambda>f. f \<in> set (map (event_fingerprint H) (batch_events pt enriched (edb_indicators db) wall raws)))
        (map er_fingerprint (edb_rows db)))
     (batch_events pt enriched (edb_indicators db) wall raws)"

lemma batch_fresh_keys:
  "event_fingerprint H ` set (batch_fresh pt H enriched wall raws db)
     = event_fingerprint H ` set (batch_events pt enriched (edb_indicators db) wall raws) - stored_keys db
   \<and> distinct (map (event_fingerprint H) (batch_fresh pt H enriched wall raws db))
   \<and> length (batch_fresh pt H enriched wall raws db) \<le> length (batch_events pt enriched (edb_indicators db) wall raws)"
  unfolding batch_fresh_def using fresh_events_keys [of H] by (auto simp: stored_keys_def)

lemma ingest_cases:
  assumes "ingest pt H cfg enriched wall rivals raws db = (db', res)"
  shows "(\<exists>x. res = Inl x \<and> db' = add_rows rivals db)
    \<or> (\<exists>st. res = Inr st
        \<and> db' = add_rows (map (row_of_event H) (batch_fresh pt H enriched wall raws db)) (add_rows rivals db)
        \<and> event_fingerprint H ` set (batch_fresh pt H enriched wall raws db) \<inter> er_fingerprint ` set rivals = {}
        \<and> is_normalized st = length (batch_events pt enriched (edb_indicators db) wall raws)
        \<and> is_ingested st = length (batch_fresh pt H enriched wall raws db)
        \<and> is_ingested st + is_duplicates st = is_normalized st
        \<and> is_normalized st + is_skipped st + is_failed st = length raws)"
proof (cases "raws = []")
  case True
  then show ?thesis using assms by (auto simp: ingest_def no_stats_def batch_fresh_def)
next
  case False
  obtain es st where f: "foldl (read_record pt enriched (edb_indicators db) wall) ([], no_stats) raws = (es, st)" by fastforce
  note r = read_batch [OF f, simplified]
  show ?thesis
  proof (cases "ensure_not_production_db ''telemetry'' cfg")
    case (Inl x)
    then show ?thesis using assms False by (auto simp: ingest_def)
  next
    case (Inr u)
    have es: "es = batch_events pt enriched (edb_indicators db) wall raws" using r by simp
    define fresh where "fresh = batch_fresh pt H enriched wall raws db"
    have k: "length fresh \<le> length es" unfolding fresh_def using batch_fresh_keys [of H] es by simp
    have un: "ingest pt H cfg enriched wall rivals raws db =
       (if es = [] then (add_rows rivals db, Inr (st\<lparr>is_normalized := 0\<rparr>))
        else if fresh = [] then (add_rows rivals db, Inr (st\<lparr>is_normalized := length es, is_duplicates := length es, is_ingested := 0\<rparr>))
        else if \<exists>e\<in>set fresh. event_fingerprint H e \<in> set (map er_fingerprint rivals)
        then (add_rows rivals db, Inl (IntegrityError ''v2_events.fingerprint''))
        else (add_rows (map (row_of_event H) fresh) (add_rows rivals db),
              Inr (st\<lparr>is_normalized := length es, is_duplicates := length es - length fresh, is_ingested := length fresh\<rparr>)))"
      unfolding ingest_def fresh_def batch_fresh_def es [symmetric] using False Inr f by (simp add: Let_def)
    have e0: "es = [] \<Longrightarrow> fresh = []" using k by simp
    show ?thesis
    proof (cases "es = [] \<or> fresh = []")
      case True
      then have "fresh = []" using e0 by blast
      then show ?thesis using assms r True unfolding un fresh_def [symmetric] es [symmetric]
        by (auto simp: no_stats_def split: if_splits)
    next
      case False
      have clash: "(\<exists>e\<in>set fresh. event_fingerprint H e \<in> set (map er_fingerprint rivals))
          \<longleftrightarrow> event_fingerprint H ` set fresh \<inter> er_fingerprint ` set rivals \<noteq> {}" by auto
      from False show ?thesis using assms r k unfolding un clash fresh_def [symmetric] es [symmetric]
        by (cases "event_fingerprint H ` set fresh \<inter> er_fingerprint ` set rivals = {}") (simp_all add: no_stats_def, auto)
    qed
  qed
qed

section \<open>Replay\<close>

text \<open>A record that carries its own time: the fallback of the batch does not matter.\<close>

definition timed :: "jval \<Rightarrow> bool" where
  "timed raw \<longleftrightarrow> map_of (as_dict raw) ''timestamp'' \<notin> {None, Some JNull}"

lemma record_time_timed: "v \<notin> {None, Some JNull} \<Longrightarrow> record_time pt fb1 v = record_time pt fb2 v"
  by (cases v; cases "the v") (auto simp: record_time_def)

lemma windows_time_timed: "timed raw \<Longrightarrow> windows_time pt (as_dict raw) fb1 = windows_time pt (as_dict raw) fb2"
proof -
  assume t: "timed raw"
  show ?thesis
  proof (cases "map_of (as_dict raw) ''time_created''")
    case None
    then show ?thesis using t record_time_timed [of _ pt fb1 fb2] by (simp add: windows_time_def timed_def)
  next
    case (Some v)
    then show ?thesis using t record_time_timed [of _ pt fb1 fb2]
      by (cases "truthy v"; cases v) (simp_all add: windows_time_def timed_def)
  qed
qed

lemma normalize_timed: "timed raw \<Longrightarrow> normalize_record pt raw fb1 = normalize_record pt raw fb2"
proof -
  assume t: "timed raw"
  have w: "windows_event pt raw fb1 = windows_event pt raw fb2"
    using windows_time_timed [OF t, of pt fb1 fb2] by (simp add: windows_event_def)
  have g: "generic_event pt raw fb1 = generic_event pt raw fb2"
    using record_time_timed [of "map_of (as_dict raw) ''timestamp''" pt fb1 fb2] t
    by (simp add: generic_event_def timed_def)
  show ?thesis by (simp add: normalize_record_def NORMALIZERS_def w g split: sum.splits)
qed

lemma batch_events_timed:
  "\<forall>raw\<in>set raws. timed raw \<Longrightarrow> batch_events pt en inds w1 raws = batch_events pt en inds w2 raws"
proof -
  assume t: "\<forall>raw\<in>set raws. timed raw"
  have "event_of_record pt en inds w1 raw = event_of_record pt en inds w2 raw" if "raw \<in> set raws" for raw
    using normalize_timed [of raw pt "Some w1" "Some w2"] t that by (simp add: event_of_record_def)
  then show ?thesis by (metis (mono_tags, lifting) map_eq_conv)
qed

lemma ingest_open:
  "ensure_not_production_db ''telemetry'' cfg = Inr u \<Longrightarrow>
     \<exists>st. ingest pt H cfg en wall [] raws db
           = (add_rows (map (row_of_event H) (batch_fresh pt H en wall raws db)) db, Inr st)"
proof -
  assume o: "ensure_not_production_db ''telemetry'' cfg = Inr u"
  obtain db' res where i: "ingest pt H cfg en wall [] raws db = (db', res)" by fastforce
  have "\<nexists>x. res = Inl x"
    using i o by (auto simp: ingest_def Let_def split: if_splits prod.splits)
  then show ?thesis using ingest_cases [OF i] i by auto
qed

section \<open>A record without a time\<close>

definition untimed_event :: "string \<Rightarrow> time \<Rightarrow> event" where
  "untimed_event a w = \<lparr>e_timestamp = w, e_host = ''-'', e_user = ''-'', e_source = ''unknown'', e_action = a,
     e_facts = [], e_org = [], e_raw = JObj [(''action'', JStr a)], e_integrity = ''complete'', e_event_id = [],
     e_event_type = derive_event_type a, e_destination = [], e_process = [], e_network = [], e_outcome = [],
     e_schema_version = ''1.1''\<rparr>"

lemma untimed_event_of:
  "event_of_record pt en inds w (JObj [(''action'', JStr a)]) = [untimed_event a w]"
proof -
  have "generic_event pt (JObj [(''action'', JStr a)]) (Some w) = Inr (untimed_event a w)"
    by (simp add: generic_event_def record_time_def py_dict_def text_field_def get_default_def untimed_event_def)
  moreover have "enrich inds (untimed_event a w) = untimed_event a w"
    by (simp add: enrich_def enrich_geo_def geo_address_def enrich_intel_def intel_ips_def untimed_event_def map_filter_simps)
  ultimately show ?thesis
    by (simp add: event_of_record_def normalize_record_def NORMALIZERS_def has_key_def)
qed

lemma untimed_fingerprint:
  "inj H \<Longrightarrow> event_fingerprint H (untimed_event a w) = event_fingerprint H (untimed_event a v)
     \<longleftrightarrow> event_millis w = event_millis v"
  by (auto simp: event_fingerprint_def event_payload_def untimed_event_def json_obj_def inj_eq
    simp del: py_str.simps)

section \<open>Properties\<close>

text \<open>C5: one call of the ingestion, whatever the records, the clock and the rows other
  workers commit meanwhile: fingerprints and ids stay unique, no stored event changes,
  an exception leaves nothing of the batch behind, and otherwise the counters account for
  every record and for every row that was added.\<close>

theorem ingest_keeps_store:
  assumes "event_db_ok db" "rivals_ok rivals db" "ingest pt H cfg en wall rivals raws db = (db', res)"
  shows "event_db_ok db' \<and> prefix (edb_rows db) (edb_rows db')
    \<and> (case res of
         Inl x \<Rightarrow> db' = add_rows rivals db
       | Inr st \<Rightarrow> length (edb_rows db') = length (edb_rows db) + length rivals + is_ingested st
           \<and> is_ingested st + is_duplicates st = is_normalized st
           \<and> is_normalized st + is_skipped st + is_failed st = length raws)"
proof -
  let ?fresh = "batch_fresh pt H en wall raws db" and ?after = "add_rows rivals db"
  have a: "event_db_ok ?after" using add_rows_ok assms(1,2) by (simp add: rivals_ok_def)
  from ingest_cases [OF assms(3)] show ?thesis
  proof (elim disjE exE conjE)
    fix x assume "res = Inl x" "db' = ?after"
    then show ?thesis using a add_rows_prefix by simp
  next
    fix st assume s: "res = Inr st" "db' = add_rows (map (row_of_event H) ?fresh) ?after"
      "event_fingerprint H ` set ?fresh \<inter> er_fingerprint ` set rivals = {}"
      "is_ingested st = length ?fresh" "is_ingested st + is_duplicates st = is_normalized st"
      "is_normalized st + is_skipped st + is_failed st = length raws"
    note k = batch_fresh_keys [of H pt en wall raws db]
    have dis: "event_fingerprint H ` set ?fresh \<inter> stored_keys ?after = {}"
      using k [THEN conjunct1] s(3) unfolding stored_keys_add by blast
    have keys: "er_fingerprint ` set (map (row_of_event H) ?fresh) = event_fingerprint H ` set ?fresh"
      by (simp add: image_image)
    have "event_db_ok db'" unfolding s(2)
      by (rule add_rows_ok [OF a]) (use k dis keys in \<open>simp_all add: comp_def\<close>)
    then show ?thesis using s(1,4-6) unfolding s(2) by (simp add: add_rows_numbered)
  qed
qed

text \<open>C24: replaying a batch whose records carry their time changes nothing, whenever it is
  replayed: the second call stores nothing and counts every normalised event as a
  duplicate.\<close>

theorem ingest_replay:
  assumes "ensure_not_production_db ''telemetry'' cfg = Inr ()" "\<forall>raw\<in>set raws. timed raw"
    and "ingest pt H cfg en wall1 [] raws db = (db1, res1)"
  shows "\<exists>st. ingest pt H cfg en wall2 [] raws db1 = (db1, Inr st)
    \<and> is_ingested st = 0 \<and> is_duplicates st = is_normalized st
    \<and> (\<exists>st1. res1 = Inr st1 \<and> is_normalized st = is_normalized st1)"
proof -
  let ?ev = "batch_events pt en (edb_indicators db) wall1 raws" and ?fr = "batch_fresh pt H en wall1 raws db"
  obtain st1 where r1: "db1 = add_rows (map (row_of_event H) ?fr) db" "res1 = Inr st1"
    using ingest_open [OF assms(1), of pt H en wall1 raws db] assms(3) by auto
  have inds: "edb_indicators db1 = edb_indicators db" by (simp add: r1 add_rows_numbered)
  have ev: "batch_events pt en (edb_indicators db1) wall2 raws = ?ev"
    using batch_events_timed [OF assms(2)] by (simp add: inds)
  have "event_fingerprint H ` set ?ev \<subseteq> stored_keys db1"
    using batch_fresh_keys [of H pt en wall1 raws db] by (auto simp: r1 stored_keys_add image_image)
  then have "event_fingerprint H ` set (batch_fresh pt H en wall2 raws db1) = {}"
    using batch_fresh_keys [of H pt en wall2 raws db1, THEN conjunct1] unfolding ev
    by (simp only: Diff_eq_empty_iff)
  then have none: "batch_fresh pt H en wall2 raws db1 = []" by simp
  obtain db2 st where r2: "ingest pt H cfg en wall2 [] raws db1 = (db2, Inr st)" "db2 = db1"
    using ingest_open [OF assms(1), of pt H en wall2 raws db1] none by auto
  obtain st' where "Inr st = (Inr st' :: py_error + ingest_stats)"
      "is_normalized st' = length (batch_events pt en (edb_indicators db1) wall2 raws)"
      "is_ingested st' = length (batch_fresh pt H en wall2 raws db1)" "is_ingested st' + is_duplicates st' = is_normalized st'"
    using ingest_cases [OF r2(1)] by blast
  then have "is_normalized st = length ?ev" "is_ingested st = 0" "is_duplicates st = is_normalized st"
    unfolding ev none by (simp_all only: sum.inject list.size)
  moreover have "is_normalized st1 = length ?ev"
    using ingest_cases [OF assms(3)] by (simp add: r1(2))
  ultimately show ?thesis using r2 r1(2) by simp
qed

text \<open>A record without a time takes the clock of the batch, so its fingerprint changes
  with the clock: the same record sent again in another millisecond is stored again,
  although the module documents that replaying the same records is always a no-op.\<close>

theorem untimed_replay_duplicates:
  assumes "ensure_not_production_db ''telemetry'' cfg = Inr ()" "inj H"
    and "event_millis wall1 \<noteq> event_millis wall2"
    and "raw = JObj [(''action'', JStr a)]" "edb_rows db = []"
    and "ingest pt H cfg en wall1 [] [raw] db = (db1, res1)" "ingest pt H cfg en wall2 [] [raw] db1 = (db2, res2)"
  shows "length (edb_rows db1) = 1 \<and> length (edb_rows db2) = 2"
proof -
  have ev: "event_of_record pt en inds w raw = [untimed_event a w]" for w inds
    by (simp add: assms(4) untimed_event_of)
  have inds: "edb_indicators db1 = edb_indicators db"
    using ingest_cases [OF assms(6)] by (auto simp: add_rows_numbered)
  have fr1: "batch_fresh pt H en wall1 [raw] db = [untimed_event a wall1]"
    using assms(5) by (simp add: batch_fresh_def ev Let_def)
  then have r1: "edb_rows db1 = evs.numbered (edb_seq db) [row_of_event H (untimed_event a wall1)]"
    using ingest_open [OF assms(1), of pt H en wall1 "[raw]" db] assms(5,6) by (auto simp: add_rows_numbered)
  have "event_fingerprint H (untimed_event a wall1) \<noteq> event_fingerprint H (untimed_event a wall2)"
    using untimed_fingerprint [OF assms(2)] assms(3) by simp
  then have fr2: "batch_fresh pt H en wall2 [raw] db1 = [untimed_event a wall2]"
    by (simp add: batch_fresh_def ev r1 Let_def)
  then show ?thesis
    using ingest_open [OF assms(1), of pt H en wall2 "[raw]" db1] assms(7) r1 by (auto simp: add_rows_numbered)
qed

section \<open>Concrete runs\<close>

definition empty_event_db :: event_db where
  "empty_event_db = \<lparr>edb_rows = [], edb_seq = 0, edb_indicators = []\<rparr>"

lemma empty_event_db_ok: "event_db_ok empty_event_db"
  by (simp add: event_db_ok_def empty_event_db_def evs.table_ok_Nil)

abbreviation sample_ingest :: "time \<Rightarrow> jval list \<Rightarrow> event_db \<Rightarrow> event_db \<times> (py_error + ingest_stats)" where
  "sample_ingest wall raws db \<equiv> ingest (\<lambda>_. Some 0) (\<lambda>s. s) dev_config True wall [] raws db"

definition timed_logon :: jval where
  "timed_logon = JObj [(''timestamp'', JStr ''1970-01-01''), (''action'', JStr ''logon'')]"

theorem ingest_keeps_store_witness:
  "event_db_ok (fst (sample_ingest 7 [timed_logon, JNull] empty_event_db))
   \<and> prefix [] (edb_rows (fst (sample_ingest 7 [timed_logon, JNull] empty_event_db)))"
  using ingest_keeps_store [of empty_event_db "[]" "\<lambda>_. Some 0" "\<lambda>s. s" dev_config True 7 "[timed_logon, JNull]"
      "fst (sample_ingest 7 [timed_logon, JNull] empty_event_db)" "snd (sample_ingest 7 [timed_logon, JNull] empty_event_db)"]
    empty_event_db_ok
  by (simp add: rivals_ok_def)

theorem ingest_replay_witness:
  "\<exists>st. sample_ingest 9 [timed_logon] (fst (sample_ingest 7 [timed_logon] empty_event_db))
      = (fst (sample_ingest 7 [timed_logon] empty_event_db), Inr st) \<and> is_ingested st = 0"
  using ingest_replay [of dev_config "[timed_logon]" "\<lambda>_. Some 0" "\<lambda>s. s" True 7 empty_event_db
      "fst (sample_ingest 7 [timed_logon] empty_event_db)" "snd (sample_ingest 7 [timed_logon] empty_event_db)" 9]
  by (auto simp: timed_def timed_logon_def)

lemma event_millis_samples: "event_millis 0 = 0" "event_millis 1000000 = 1000"
  using fl_int [of 1000]
  by (simp_all add: event_millis_def fdiv_def fmul_def truncate_rat_def)

theorem untimed_replay_duplicates_witness:
  "length (edb_rows (fst (sample_ingest 1000000 [JObj [(''action'', JStr ''logon'')]]
     (fst (sample_ingest 0 [JObj [(''action'', JStr ''logon'')]] empty_event_db))))) = 2"
  using untimed_replay_duplicates [of dev_config "\<lambda>s. s" 0 1000000 "JObj [(''action'', JStr ''logon'')]" "''logon''" empty_event_db
      "\<lambda>_. Some 0" True "fst (sample_ingest 0 [JObj [(''action'', JStr ''logon'')]] empty_event_db)"
      "snd (sample_ingest 0 [JObj [(''action'', JStr ''logon'')]] empty_event_db)"
      "fst (sample_ingest 1000000 [JObj [(''action'', JStr ''logon'')]]
         (fst (sample_ingest 0 [JObj [(''action'', JStr ''logon'')]] empty_event_db)))"
      "snd (sample_ingest 1000000 [JObj [(''action'', JStr ''logon'')]]
         (fst (sample_ingest 0 [JObj [(''action'', JStr ''logon'')]] empty_event_db)))"]
  by (simp add: event_millis_samples) (simp add: empty_event_db_def)

end
