(* ===== verification/Detector_Specs.thy ===== *)
theory Detector_Specs
  imports Detection_Props Ingestion
begin

text \<open>
  The properties of the detectors D001 and D002, of a run of the default registry, and of
  the way an event is counted when it was ingested before it is evaluated.
\<close>

section \<open>A run\<close>

text \<open>C32: the default registry holds D001 to D005; a run over any event returns at most
  one detection per detector, in this order; every detection is well formed, names the
  event by its fingerprint and time, carries dictionaries as observables and is medium or
  high, never critical.  A detector that raises only drops its own detection.\<close>

theorem detections_well_formed:
  "build_default_registry env = Inr (initial_detectors env)
   \<and> subseq (map det_detector_id (run_detection (initial_detectors env) e ctx)) [''D001'', ''D002'', ''D003'', ''D004'', ''D005'']
   \<and> list_all (reports env e) (run_detection (initial_detectors env) e ctx)"
  using default_registry run_initial [of env e ctx] by (auto simp: initial_detectors_def detector_of_def list_all_iff)

section \<open>D001\<close>

lemma classify_Nil: "classify_ip (Some (JStr [])) = ''invalid''"
  by (simp add: classify_ip_def py_strip_def)

lemma is_external_nonempty: "is_external s \<Longrightarrow> s \<noteq> []"
  using classify_Nil by (auto simp: is_external_def)

lemma built_fields [simp]:
  "det_severity (built env d) = det_severity d" "det_source_ip (built env d) = det_source_ip d"
  "det_mitre_technique (built env d) = det_mitre_technique d" "det_detector_id (built env d) = det_detector_id d"
  "det_event_ids (built env d) = pyset (det_event_ids d)" "det_username (built env d) = det_username d"
  by (simp_all add: built_def)

lemma built_named: "det_detection_id d \<noteq> [] \<Longrightarrow> det_detection_id (built env d) = det_detection_id d"
  by (simp add: built_def)

lemma make_detection_id_nonempty: "make_detection_id H i parts \<noteq> []"
  by (simp add: make_detection_id_def)

text \<open>A logon of the remote interactive type whose first valid address is external.\<close>

definition rdp_logon :: "event \<Rightarrow> bool" where
  "rdp_logon e \<longleftrightarrow> e_action e = ''logon'' \<and> map_of (e_facts e) ''logon_type'' \<notin> {None, Some JNull}
     \<and> py_int (get_default (e_facts e) ''logon_type'' JNull) = Inr 10 \<and> is_external (rdp_source e)"

lemma external_rdp_None: "\<not> rdp_logon e \<Longrightarrow> external_rdp env e ctx = Inr None"
  by (auto simp: rdp_logon_def external_rdp_def get_default_def REMOTE_INTERACTIVE_LOGON_TYPE_def
      split: option.splits sum.splits)

lemma external_rdp_Some: "rdp_logon e \<Longrightarrow> external_rdp env e ctx = Inr (Some (built env (rdp_detection env e 10)))"
  using is_external_nonempty [of "rdp_source e"] constructed_drafted [OF rdp_drafted]
  by (auto simp: rdp_logon_def external_rdp_def get_default_def REMOTE_INTERACTIVE_LOGON_TYPE_def)

text \<open>C26: D001 never raises; it reports exactly the logons of type 10 whose source is an
  external address, as high, with the source and a detection id built from host, user and
  source, and without looking at the stored events.\<close>

theorem external_rdp_spec:
  "case external_rdp env e ctx of
     Inl x \<Rightarrow> False
   | Inr None \<Rightarrow> \<not> rdp_logon e
   | Inr (Some d) \<Rightarrow> rdp_logon e \<and> reports env e d \<and> det_severity d = ''high'' \<and> det_mitre_technique d = ''T1133''
        \<and> det_source_ip d = rdp_source e \<and> det_username d = e_user e
        \<and> det_detection_id d = ''D001-'' @ take 12 (de_hash env (e_host e @ ''|'' @ e_user e @ ''|'' @ rdp_source e))"
proof (cases "rdp_logon e")
  case True
  let ?d = "rdp_detection env e 10"
  have "det_detection_id ?d = make_detection_id (de_hash env) ''D001'' [e_host e, e_user e, rdp_source e]"
    by (simp add: rdp_detection_def Let_def)
  then have id: "det_detection_id (built env ?d) = make_detection_id (de_hash env) ''D001'' [e_host e, e_user e, rdp_source e]"
    using built_named make_detection_id_nonempty by metis
  have f: "det_severity ?d = ''high''" "det_mitre_technique ?d = ''T1133''" "det_source_ip ?d = rdp_source e"
    "det_username ?d = e_user e"
    by (simp_all add: rdp_detection_def detection_for_def Let_def)
  show ?thesis
    using True f id reports_built [OF rdp_drafted [of env e 10]]
    by (simp add: external_rdp_Some make_detection_id_def)
next
  case False
  then show ?thesis by (simp add: external_rdp_None)
qed

section \<open>D002\<close>

lemma brute_fields:
  "det_severity (brute_detection env e n ss) = brute_severity n (ss \<noteq> [])"
  "det_username (brute_detection env e n ss) = e_user e"
  "det_detection_id (brute_detection env e n ss) = make_detection_id (de_hash env) ''D002'' [e_host e, e_user e]"
  by (simp_all add: brute_detection_def detection_for_def Let_def)

lemma brute_severity_10: "brute_severity 10 success = ''medium''"
  by (simp add: brute_severity_def HIGH_COUNT_def ESCALATE_COUNT_WITH_SUCCESS_def)

text \<open>C8: D002 never raises; over stored events it reports a failed logon exactly when the
  number of failed logons of the same host and user in the last 15 minutes is a positive
  multiple of ten (the event itself is added when its fingerprint is not stored); the
  report is high from 30 failures, or from 20 with a successful logon in the window, and
  all campaigns of a host and user share one detection id.\<close>

theorem brute_force_spec:
  "(let n = min 10000 (length (recent_logons e ''logon_failed'' rows))
             + (if event_fingerprint (de_hash env) e \<in> er_fingerprint ` set rows then 0 else 1);
        fires = (e_action e = ''logon_failed'' \<and> 10 \<le> n \<and> 10 dvd n)
    in case brute_force env e (Some (Some rows)) of
         Inl x \<Rightarrow> False
       | Inr None \<Rightarrow> \<not> fires
       | Inr (Some d) \<Rightarrow> fires \<and> reports env e d \<and> det_username d = e_user e
            \<and> det_severity d = (if 30 \<le> n \<or> (recent_logons e ''logon'' rows \<noteq> [] \<and> 20 \<le> n) then ''high'' else ''medium'')
            \<and> det_detection_id d = ''D002-'' @ take 12 (de_hash env (e_host e @ ''|'' @ e_user e)))"
proof -
  define n where "n = failure_count env e (Some (Some rows))"
  define ss where "ss = snd (window_counts e (Some (Some rows)))"
  let ?d = "brute_detection env e n ss" and ?fires = "e_action e = ''logon_failed'' \<and> 10 \<le> n \<and> 10 dvd n"
  have run: "brute_force env e (Some (Some rows)) = (if ?fires then constructed env ?d else Inr None)"
    by (auto simp: brute_force_def n_def ss_def Let_def FAILURE_THRESHOLD_def dvd_eq_mod_eq_0 not_less)
  have id: "det_detection_id (built env ?d) = make_detection_id (de_hash env) ''D002'' [e_host e, e_user e]"
    using built_named [of ?d env] make_detection_id_nonempty unfolding brute_fields by blast
  have ss: "(ss = []) = (recent_logons e ''logon'' rows = [])" by (simp add: ss_def successes_rows)
  have f: "det_severity ?d = (if 30 \<le> n \<or> (recent_logons e ''logon'' rows \<noteq> [] \<and> 20 \<le> n) then ''high'' else ''medium'')"
    "det_username ?d = e_user e"
    by (simp_all add: brute_fields brute_severity_def HIGH_COUNT_def ESCALATE_COUNT_WITH_SUCCESS_def ss)
  show ?thesis
    unfolding Let_def failure_count_rows [symmetric] n_def [symmetric] run
    using f id reports_built [OF brute_drafted [of env e n ss]]
    by (cases ?fires) (simp_all add: constructed_drafted [OF brute_drafted] make_detection_id_def)
qed

section \<open>Evaluation after ingestion\<close>

text \<open>C33: the evaluation request does not enrich its records, the ingestion does, and the
  fingerprint covers the enriched facts.  So a failed logon with a source address that was
  ingested before it is evaluated is not recognised as stored: it is counted as a row and
  once more as a new event, and the threshold of ten failures is met by nine.\<close>

theorem ingested_failure_counts_twice:
  assumes "inj (de_hash env)" "e_action e = ''logon_failed''" "unenriched e"
    and "row = row_of_event (de_hash env) (enrich indicators e)"
    and "event_fingerprint (de_hash env) e \<notin> er_fingerprint ` set others"
    and "length (recent_logons e ''logon_failed'' (row # others)) = 9"
  shows "row \<in> set (recent_logons e ''logon_failed'' (row # others))
    \<and> (\<exists>d. brute_force env e (Some (Some (row # others))) = Inr (Some d) \<and> det_severity d = ''medium'')"
proof -
  have "row \<in> set (recent_logons e ''logon_failed'' (row # others))"
    using assms(2) by (simp add: recent_logons_def assms(4) row_of_event_def enrich_fields minutes_def)
  moreover have "er_fingerprint row \<noteq> event_fingerprint (de_hash env) e"
    using enrich_fingerprint [OF assms(1,3)] by (simp add: assms(4) row_of_event_def)
  then have n: "failure_count env e (Some (Some (row # others))) = 10"
    using assms(5,6) by (auto simp: failure_count_rows)
  then have "brute_force env e (Some (Some (row # others)))
      = constructed env (brute_detection env e 10 (snd (window_counts e (Some (Some (row # others))))))"
    using assms(2) by (simp add: brute_force_def FAILURE_THRESHOLD_def)
  ultimately show ?thesis
    by (simp add: constructed_drafted [OF brute_drafted] brute_fields brute_severity_10)
qed

definition plain_env :: detector_env where
  "plain_env = \<lparr>de_hash = (\<lambda>s. s), de_allow_paths = []\<rparr>"

definition failed_logon :: event where
  "failed_logon = (untimed_event ''logon_failed'' 0)\<lparr>e_facts := [(''source_ip'', JStr ''8.8.8.8'')]\<rparr>"

definition other_failures :: "event_row list" where
  "other_failures = map (\<lambda>i. (row_of_event (\<lambda>s. s) failed_logon)\<lparr>er_fingerprint := dec i\<rparr>) [0..<8]"

lemma failed_logon_facts: "event_fingerprint (\<lambda>s. s) failed_logon \<notin> er_fingerprint ` set other_failures"
proof -
  have "length (dec i) = 1" if "i < 8" for i using that by (simp add: dec.simps [of i])
  moreover have "length (event_fingerprint (\<lambda>s. s) failed_logon) \<noteq> 1"
    by (simp add: event_fingerprint_def event_payload_def json_obj_def)
  ultimately show ?thesis by (auto simp: other_failures_def)
qed

theorem ingested_failure_counts_twice_witness:
  "\<exists>d. brute_force plain_env failed_logon
     (Some (Some (row_of_event (\<lambda>s. s) (enrich [] failed_logon) # other_failures))) = Inr (Some d) \<and> det_severity d = ''medium''"
proof -
  let ?row = "row_of_event (\<lambda>s. s) (enrich [] failed_logon)"
  have fields: "e_action failed_logon = ''logon_failed''" "e_timestamp failed_logon = 0"
    by (simp_all add: failed_logon_def untimed_event_def)
  have "recent_logons failed_logon ''logon_failed'' (?row # other_failures) = ?row # other_failures"
    by (auto simp: recent_logons_def other_failures_def filter_id_conv row_of_event_def enrich_fields fields minutes_def)
  then have "length (recent_logons failed_logon ''logon_failed'' (?row # other_failures)) = 9"
    by (simp add: other_failures_def)
  moreover have "unenriched failed_logon" by (simp add: unenriched_def failed_logon_def)
  ultimately show ?thesis
    using ingested_failure_counts_twice [of plain_env failed_logon ?row "[]" other_failures] failed_logon_facts fields(1)
    by (simp add: plain_env_def)
qed

section \<open>Private IPv6 addresses\<close>

lemma v6_in: "p \<le> 16 \<Longrightarrow> ip_in (V6 n) (v6_net h p) \<longleftrightarrow> n div 2 ^ 112 div 2 ^ (16 - p) = h div 2 ^ (16 - p)"
proof -
  assume p: "p \<le> 16"
  have "128 - p = 112 + (16 - p)" using p by simp
  then have split: "(2 :: nat) ^ (128 - p) = 2 ^ 112 * 2 ^ (16 - p)" by (simp only: power_add)
  have "n div 2 ^ (128 - p) = n div 2 ^ 112 div 2 ^ (16 - p)" for n :: nat
    unfolding split by (rule div_mult2_eq)
  then show ?thesis by (simp add: v6_net_def)
qed

lemma v6_outside:
  assumes "p \<le> 16" "lo \<le> n div 2 ^ 112" "n div 2 ^ 112 \<le> hi"
    and "h div 2 ^ (16 - p) < lo div 2 ^ (16 - p) \<or> hi div 2 ^ (16 - p) < h div 2 ^ (16 - p)"
  shows "\<not> ip_in (V6 n) (v6_net h p)"
  using assms(4) div_le_mono [OF assms(2), of "2 ^ (16 - p)"] div_le_mono [OF assms(3), of "2 ^ (16 - p)"]
  unfolding v6_in [OF assms(1)] by linarith

lemma v6_not_v4: "\<not> ip_in (V6 n) (v4_net a b p)"
  by (simp add: v4_net_def)

text \<open>The evidence helpers know the private ranges of IPv4 only: every unique local
  IPv6 address (\<open>fc00::/7\<close>), the private range of IPv6, is classified as external, and D001
  reports the internal logon as an external one.\<close>

theorem unique_local_is_external:
  assumes "ip_address (py_strip s) = Some (V6 n)" "0xfc00 * 2 ^ 112 \<le> n" "n < 0xfe00 * 2 ^ 112"
  shows "is_external s"
proof -
  have "n div 2 ^ 112 < 0xfe00" using assms(3) by (intro less_mult_imp_div_less)
  then have m: "0xfc00 \<le> n div 2 ^ 112" "n div 2 ^ 112 \<le> 0xfdff"
    using assms(2) by (simp_all only: less_eq_div_iff_mult_less_eq zero_less_power zero_less_numeral)
  have big: "n \<noteq> 0" "n \<noteq> 1" using assms(2) by auto
  have "py_strip s \<noteq> []"
  proof
    assume "py_strip s = []"
    moreover have "ip_address [] = None" by (simp add: ip_address_def parse_ipv4_def parse_ipv6_def parse_ipv6_int_def)
    ultimately show False using assms(1) by simp
  qed
  moreover have "\<not> ip_loopback (V6 n)" "\<not> ip_unspecified (V6 n)"
    using big by (simp_all add: ip_loopback_def ip_unspecified_def v6_not_v4)
  moreover have "\<not> ip_link_local (V6 n)" "\<not> ip_multicast (V6 n)"
    by (simp_all add: ip_link_local_def ip_multicast_def v6_not_v4 v6_outside [OF _ m] del: ip_in.simps)
  moreover have "\<not> ip_reserved (V6 n)"
    by (simp add: ip_reserved_def V6_RESERVED_def v6_not_v4 v6_outside [OF _ m] del: ip_in.simps)
  ultimately show ?thesis
    using assms(1) by (simp add: is_external_def classify_ip_def PRIVATE_NETS_def v6_not_v4)
qed

lemma sample_address: "ip_address ''fd12::1'' = Some (V6 (0xfd12 * 2 ^ 112 + 1))"
proof -
  have parts: "split_on (CHR '':'') ''fd12::1'' = [''fd12'', [], ''1'']" "split_on (CHR ''.'') ''fd12::1'' = [''fd12::1'']"
      "partition_at (CHR ''%'') ''fd12::1'' = (''fd12::1'', None)" by simp_all
  have gaps: "inner_gaps [''fd12'', [], ''1''] = [1]" by (simp add: inner_gaps_def)
  have hex: "hextets [''fd12''] = Some [0xfd12]" "hextets [''1''] = Some [1]"
    by (simp_all add: hextets_def parse_hextet_def hex_val_def)
  have "parse_ipv6_parts [''fd12'', [], ''1''] = Some [0xfd12, 0, 0, 0, 0, 0, 0, 1]"
    by (simp add: parse_ipv6_parts_def gaps hex) (simp add: numeral_eq_Suc)
  then have v6: "parse_ipv6_int ''fd12::1'' = Some (0xfd12 * 2 ^ 112 + 1)"
    unfolding parse_ipv6_int_def parts(1) Let_def by simp
  have v4: "parse_ipv4 ''fd12::1'' = None" by (simp add: parse_ipv4_def parts(2) del: split_on.simps)
  show ?thesis
    by (simp add: ip_address_def v4 parse_ipv6_def parts(3) v6 del: split_on.simps partition_at.simps)
qed

theorem unique_local_is_external_witness: "is_external ''fd12::1''"
proof -
  have "py_strip ''fd12::1'' = ''fd12::1''" by code_simp
  moreover have "ip_address ''fd12::1'' = Some (V6 (0xfd12 * 2 ^ 112 + 1))" by (rule sample_address)
  ultimately show ?thesis
    using unique_local_is_external [of "''fd12::1''" "0xfd12 * 2 ^ 112 + 1"] by simp
qed

end
