(* ===== verification/Process_Specs.thy ===== *)
theory Process_Specs
  imports Detector_Specs
begin

text \<open>
  The properties of the detectors over processes and files: what silences D003, when D004
  reports, and when D005 reports or raises, over the rows of the table.
\<close>

section \<open>D003\<close>

lemma trusted_mention:
  assumes "l \<in> set DEFAULT_TRUSTED_FRAGMENTS" "t \<in> set texts" "contains (py_lower l) (py_lower t)" "l \<noteq> []"
  shows "is_trusted_agent_activity env texts"
proof -
  have "t \<noteq> []" using assms(3,4) by auto
  moreover have "rx_search (trusted_patterns (de_allow_paths env)) t"
    unfolding trusted_patterns_def search_literals using assms(1,3) by auto
  ultimately show ?thesis using assms(2) unfolding is_trusted_agent_activity_def by blast
qed

text \<open>The allow list for trusted tooling is a substring test over the whole command line
  and holds the plain fragment \<open>\Documents\\<close>: a command line that mentions it anywhere,
  in whatever case, is never reported by D003, however many suspicious characteristics it has.\<close>

theorem documents_mention_silences:
  assumes "py_lower doc = py_lower (win_path [[], ''Documents'', []])"
  shows "suspicious_powershell env (e\<lparr>e_process := [(''name'', JStr name), (''command_line'', JStr (a @ doc @ b))]\<rparr>) ctx = Inr None"
proof -
  let ?e = "e\<lparr>e_process := [(''name'', JStr name), (''command_line'', JStr (a @ doc @ b))]\<rparr>"
  have "doc \<noteq> []" using assms by (auto simp: win_path_def py_lower_def)
  then have line: "powershell_line ?e = a @ doc @ b" by (simp add: powershell_line_def text_of_def)
  have "contains (py_lower (win_path [[], ''Documents'', []])) (py_lower (a @ doc @ b))"
    unfolding contains_split using assms by (metis py_lower_append)
  moreover have "win_path [[], ''Documents'', []] \<in> set DEFAULT_TRUSTED_FRAGMENTS"
    "win_path [[], ''Documents'', []] \<noteq> []"
    by (simp_all add: DEFAULT_TRUSTED_FRAGMENTS_def) (simp add: win_path_def)
  ultimately have "is_trusted_agent_activity env [powershell_line ?e, powershell_path ?e]"
    unfolding line by (intro trusted_mention) auto
  then show ?thesis unfolding suspicious_powershell_def Let_def by (simp only: if_True if_cancel)
qed

theorem documents_mention_silences_witness:
  "suspicious_powershell plain_env (failed_logon\<lparr>e_process := [(''name'', JStr ''powershell.exe''), (''command_line'',
      JStr (''powershell -EncodedCommand aQBlAHgA # '' @ win_path [[], ''Documents'', []] @ ''''))]\<rparr>) None = Inr None"
  by (rule documents_mention_silences) simp

section \<open>D004\<close>

text \<open>D004 never raises; it reports exactly the Python processes whose path names a
  user-writable place and none of the system markers.  The markers \<open>/bin\<close>, \<open>/lib\<close> and
  \<open>/sbin\<close> are searched anywhere in the path, so an interpreter in a \<open>bin\<close> directory under
  a home directory is not reported.\<close>

theorem python_writable_path_spec:
  "(let name = text_of [map_of (e_process e) ''name'', map_of (e_facts e) ''process_name'']; path = py_lower (process_path e);
        fires = (is_python name \<and> path \<noteq> [] \<and> mentions USER_WRITABLE_MARKERS path \<and> \<not> mentions SYSTEM_MARKERS path)
    in case python_writable_path env e ctx of
         Inl x \<Rightarrow> False
       | Inr None \<Rightarrow> \<not> fires
       | Inr (Some d) \<Rightarrow> fires \<and> reports env e d \<and> det_severity d = ''medium'' \<and> det_username d = e_user e)
   \<and> mentions SYSTEM_MARKERS (''/home/u/bin/'' @ s)"
proof -
  have sev: "det_severity (python_detection env e n) = ''medium''" "det_username (python_detection env e n) = e_user e" for n
    by (simp_all add: python_detection_def detection_for_def Let_def)
  have "contains ''/bin'' (''/home/u/bin/'' @ s)" by (simp add: starts_with_def)
  then have "mentions SYSTEM_MARKERS (''/home/u/bin/'' @ s)" unfolding mentions_def SYSTEM_MARKERS_def by simp
  moreover note rep = reports_built [OF python_drafted [of env e]]
  ultimately show ?thesis
    unfolding python_writable_path_def Let_def
    by (simp add: constructed_drafted [OF python_drafted] rep sev)
qed

section \<open>D005\<close>

text \<open>The conditions of D005, written down from what it promises and not from its code:
  which stored events are in reach (at most 10000 of the host within five minutes, the
  oldest first), which of them modify files, which delete shadow copies, and which cannot
  be searched for such a deletion.\<close>

definition near_rows :: "event \<Rightarrow> event_row list \<Rightarrow> event_row list" where
  "near_rows e rows = take 10000 (sort_key (\<lambda>r. (er_timestamp r, er_id r))
     (filter (\<lambda>r. er_host r = e_host e \<and> e_timestamp e - minutes 5 \<le> er_timestamp r \<and> er_timestamp r \<le> e_timestamp e) rows))"

definition modifies_file :: "string \<Rightarrow> string \<Rightarrow> bool" where
  "modifies_file action event_type \<longleftrightarrow> list_ex (\<lambda>k. contains k (py_lower action))
     (if event_type = ''file'' then [''modify'', ''write'', ''create'', ''change'', ''rename'']
      else [''file_modify'', ''file_write'', ''file_create'', ''file_rename''])"

definition shadow_action :: "string \<Rightarrow> bool" where
  "shadow_action action \<longleftrightarrow> contains ''shadow'' (py_lower action)
     \<and> (contains ''delete'' (py_lower action) \<or> contains ''remove'' (py_lower action))"

definition shadow_line :: "string \<Rightarrow> bool" where
  "shadow_line line \<longleftrightarrow> contains ''vssadmin'' (py_lower line) \<and> contains ''delete'' (py_lower line)"

definition deletes_shadows :: "string \<Rightarrow> dict \<Rightarrow> dict \<Rightarrow> bool" where
  "deletes_shadows action process facts \<longleftrightarrow> shadow_action action
     \<or> shadow_line (text_of [map_of process ''command_line'', map_of facts ''command_line''])"

definition row_deletes_shadows :: "event_row \<Rightarrow> bool" where
  "row_deletes_shadows r \<longleftrightarrow> deletes_shadows (er_action r) (dict_or_empty (er_process r)) (dict_or_empty (er_facts r))"

definition unreadable_row :: "event_row \<Rightarrow> bool" where
  "unreadable_row r \<longleftrightarrow> er_facts r = None \<and> \<not> shadow_action (er_action r)
     \<and> (case map_of (dict_or_empty (er_process r)) ''command_line'' of None \<Rightarrow> True | Some v \<Rightarrow> \<not> truthy v)"

text \<open>The code meets them.\<close>

lemma near_rows_window: "file_window e (Some rows) = near_rows e rows"
  unfolding file_window_def near_rows_def events_in_window_def FILE_WINDOW_MINUTES_def wanted_def
  by (simp add: conj_ac)

lemma modifies_file_code: "is_file_modification a ty = modifies_file a ty"
  by (simp add: is_file_modification_def modifies_file_def mentions_def list_ex_iff)

lemma text_of_command:
  "text_of [x, y] = (case x of Some v \<Rightarrow> if truthy v then jstr v else text_of [y] | None \<Rightarrow> text_of [y])"
  by (simp add: text_of_def split: option.split)

lemma is_shadow_delete_alt:
  "is_shadow_delete a p facts = (if shadow_action a then Inr True
     else case (case map_of p ''command_line'' of None \<Rightarrow> None | Some v \<Rightarrow> if truthy v then Some v else None) of
       Some v \<Rightarrow> Inr (shadow_line (jstr v))
     | None \<Rightarrow> (case facts of None \<Rightarrow> Inl (AttributeError ''get'')
         | Some d \<Rightarrow> Inr (shadow_line (text_of [map_of d ''command_line'']))))"
  unfolding is_shadow_delete_def Let_def shadow_action_def [symmetric] shadow_line_def [symmetric]
  by (simp split: option.split)

lemma is_shadow_delete_readable: "is_shadow_delete a p (Some f) = Inr (deletes_shadows a p f)"
  by (cases "map_of p ''command_line''") (simp_all add: is_shadow_delete_alt deletes_shadows_def text_of_command)

lemma not_shadow_line_Nil: "\<not> shadow_line (text_of [])" "\<not> shadow_line (text_of [None])"
  by (simp_all add: shadow_line_def text_of_def py_lower_def)

lemma is_shadow_delete_row:
  "is_shadow_delete (er_action r) (dict_or_empty (er_process r)) (er_facts r)
   = (if unreadable_row r then Inl (AttributeError ''get'') else Inr (row_deletes_shadows r))"
proof (cases "er_facts r")
  case None
  then show ?thesis
    using not_shadow_line_Nil
    by (cases "map_of (dict_or_empty (er_process r)) ''command_line''")
      (simp_all add: is_shadow_delete_alt unreadable_row_def row_deletes_shadows_def deletes_shadows_def
        text_of_command dict_or_empty_def [of None])
next
  case (Some f)
  then show ?thesis
    by (simp add: is_shadow_delete_readable unreadable_row_def row_deletes_shadows_def dict_or_empty_def [of "Some f"])
qed

lemma unreadable_not_deleting: "unreadable_row r \<Longrightarrow> \<not> row_deletes_shadows r"
  using not_shadow_line_Nil
  by (auto simp: unreadable_row_def row_deletes_shadows_def deletes_shadows_def text_of_command dict_or_empty_def
      split: option.splits)

lemma any_do_search:
  assumes "\<And>r. f r = (if U r then Inl x else Inr (P r))" "\<And>r. U r \<Longrightarrow> \<not> P r"
  shows "any_do f rs = (if list_ex U (takeWhile (\<lambda>r. \<not> P r) rs) then Inl x else Inr (list_ex P rs))"
  using assms by (induction rs) auto

lemma shadow_seen_search:
  "shadow_seen e w = (if list_ex unreadable_row (takeWhile (\<lambda>r. \<not> row_deletes_shadows r) w) then Inl (AttributeError ''get'')
     else Inr (list_ex row_deletes_shadows w \<or> deletes_shadows (e_action e) (e_process e) (e_facts e)))"
proof -
  have "any_do (\<lambda>r. is_shadow_delete (er_action r) (dict_or_empty (er_process r)) (er_facts r)) w
    = (if list_ex unreadable_row (takeWhile (\<lambda>r. \<not> row_deletes_shadows r) w) then Inl (AttributeError ''get'')
       else Inr (list_ex row_deletes_shadows w))"
    by (rule any_do_search) (simp_all only: is_shadow_delete_row unreadable_not_deleting not_False_eq_True)
  then show ?thesis by (simp add: shadow_seen_def is_shadow_delete_readable)
qed

lemma multiple_of_20: "20 dvd n \<Longrightarrow> 50 \<le> n \<longleftrightarrow> 60 \<le> (n :: nat)"
  by presburger

text \<open>C16: over stored events D005 reports a file modification exactly when the file
  modifications among the events of the same host in the last five minutes (the event
  itself is added when its fingerprint is not among them) reach a positive multiple of
  twenty.  The report names these events; it is high exactly from sixty modifications on
  (fifty is not a multiple of twenty) or when one of the events, or the event itself,
  deletes shadow copies, by its action or by its command line.  It raises, in place of
  the report, exactly when the search for such a deletion meets a row without facts and
  without a command line before it meets a deletion.\<close>

theorem ransomware_behavior_spec:
  "(let window = near_rows e rows;
        changed = filter (\<lambda>r. modifies_file (er_action r) (er_event_type r)) window;
        n = length changed + (if event_fingerprint (de_hash env) e \<in> er_fingerprint ` set changed then 0 else 1);
        fires = (modifies_file (e_action e) (e_event_type e) \<and> 20 \<le> n \<and> 20 dvd n);
        blocked = list_ex unreadable_row (takeWhile (\<lambda>r. \<not> row_deletes_shadows r) window);
        shadow = (list_ex row_deletes_shadows window \<or> deletes_shadows (e_action e) (e_process e) (e_facts e))
    in case ransomware_behavior env e (Some (Some rows)) of
         Inl x \<Rightarrow> fires \<and> blocked \<and> x = AttributeError ''get''
       | Inr None \<Rightarrow> \<not> fires
       | Inr (Some d) \<Rightarrow> fires \<and> \<not> blocked \<and> reports env e d \<and> det_username d = []
            \<and> set (det_event_ids d) = insert (event_fingerprint (de_hash env) e) (er_fingerprint ` set changed)
            \<and> det_severity d = (if 60 \<le> n \<or> shadow then ''high'' else ''medium''))"
proof -
  define w where "w = near_rows e rows"
  define changed where "changed = filter (\<lambda>r. modifies_file (er_action r) (er_event_type r)) w"
  define n where "n = length changed + (if event_fingerprint (de_hash env) e \<in> er_fingerprint ` set changed then 0 else 1 :: nat)"
  define blocked where "blocked = list_ex unreadable_row (takeWhile (\<lambda>r. \<not> row_deletes_shadows r) w)"
  define shadow where "shadow = (list_ex row_deletes_shadows w \<or> deletes_shadows (e_action e) (e_process e) (e_facts e))"
  have window: "file_window e (Some rows) = w" by (simp add: near_rows_window w_def)
  have files: "file_events w = changed" by (simp add: file_events_def changed_def modifies_file_code)
  have count: "modification_count env e w = n" by (simp add: modification_count_def files n_def)
  have seen: "shadow_seen e w = (if blocked then Inl (AttributeError ''get'') else Inr shadow)"
    by (simp add: shadow_seen_search blocked_def shadow_def)
  have fields: "det_severity (ransomware_detection env e w s) = (if 50 \<le> n \<or> s then ''high'' else ''medium'')"
    "det_username (ransomware_detection env e w s) = []"
    "det_event_ids (ransomware_detection env e w s) = map er_fingerprint changed @ [event_fingerprint (de_hash env) e]" for s
    by (simp_all add: ransomware_detection_def Let_def count HIGH_RATE_COUNT_def files detection_for_def)
  let ?fires = "modifies_file (e_action e) (e_event_type e) \<and> 20 \<le> n \<and> 20 dvd n"
  have run: "ransomware_behavior env e (Some (Some rows)) =
     (if \<not> ?fires then Inr None else if blocked then Inl (AttributeError ''get'')
      else Inr (Some (built env (ransomware_detection env e w shadow))))"
    by (auto simp: ransomware_behavior_def modifies_file_code window count seen Let_def FILE_THRESHOLD_def dvd_eq_mod_eq_0
        constructed_drafted [OF ransomware_drafted])
  show ?thesis
    unfolding Let_def w_def [symmetric] changed_def [symmetric] n_def [symmetric] blocked_def [symmetric]
      shadow_def [symmetric] run
    using multiple_of_20 [of n]
    by (cases ?fires; cases blocked) (simp_all add: fields reports_built [OF ransomware_drafted])
qed

end
