(* ===== verification/Detection_Store.thy ===== *)
theory Detection_Store
  imports Detector_Specs Alert_Engine
begin

text \<open>
  The table of detections as a keyed table: what \<open>persist\<close> keeps, what a batch leaves
  behind, and the pipeline from telemetry to alerts, in which every raised detection arrives.  Then two ways in which records are
  read differently from what their senders expect.
\<close>

interpretation dts: keyed_rows dr_id "\<lambda>n r. r\<lparr>dr_id := n\<rparr>" dr_detection_id
  by unfold_locales auto

definition detection_row_ok :: "detection_row \<Rightarrow> bool" where
  "detection_row_ok r \<longleftrightarrow> dr_first_seen r \<le> dr_last_seen r \<and> sorted (dr_event_ids r) \<and> distinct (dr_event_ids r)
     \<and> dr_severity r \<in> set severities \<and> 0 \<le> dr_confidence r \<and> dr_confidence r \<le> 1"

definition detection_db_ok :: "detection_db \<Rightarrow> bool" where
  "detection_db_ok db \<longleftrightarrow> dts.table_ok (ddb_rows db) (ddb_seq db) \<and> (\<forall>r\<in>set (ddb_rows db). detection_row_ok r)"

definition storable :: "detection \<Rightarrow> bool" where
  "storable d \<longleftrightarrow> detection_ok d \<and> det_first_seen d \<le> det_last_seen d \<and> det_timestamp d \<noteq> None
     \<and> (\<forall>o'\<in>set (det_observables d). \<exists>kvs. o' = ObsDict kvs)"

lemma reports_storable: "reports env e d \<Longrightarrow> storable d"
  by (auto simp: reports_def storable_def)

text \<open>The row of a detection holds its events and its period; a row only ever grows.\<close>

definition row_covers :: "detection_row \<Rightarrow> detection \<Rightarrow> bool" where
  "row_covers r d \<longleftrightarrow> dr_detection_id r = det_detection_id d \<and> set (det_event_ids d) \<subseteq> set (dr_event_ids r)
     \<and> dr_first_seen r \<le> det_first_seen d \<and> det_last_seen d \<le> dr_last_seen r"

definition widened :: "detection_row \<Rightarrow> detection_row \<Rightarrow> bool" where
  "widened q r \<longleftrightarrow> dr_id r = dr_id q \<and> dr_detection_id r = dr_detection_id q \<and> dr_created_at r = dr_created_at q
     \<and> set (dr_event_ids q) \<subseteq> set (dr_event_ids r) \<and> dr_first_seen r \<le> dr_first_seen q \<and> dr_last_seen q \<le> dr_last_seen r"

definition all_widened :: "detection_db \<Rightarrow> detection_db \<Rightarrow> bool" where
  "all_widened db db' \<longleftrightarrow> (\<forall>q\<in>set (ddb_rows db). \<exists>r\<in>set (ddb_rows db'). widened q r)"

lemma widened_self: "widened r r"
  by (simp add: widened_def)

lemma widened_trans: "widened a b \<Longrightarrow> widened b c \<Longrightarrow> widened a c"
  unfolding widened_def by auto

lemma all_widened_trans: "all_widened a b \<Longrightarrow> all_widened b c \<Longrightarrow> all_widened a c"
  unfolding all_widened_def using widened_trans by blast

lemma row_covers_widened: "row_covers q d \<Longrightarrow> widened q r \<Longrightarrow> row_covers r d"
  unfolding row_covers_def widened_def by auto

lemma observable_dicts_total: "\<forall>o'\<in>set os. \<exists>kvs. o' = ObsDict kvs \<Longrightarrow> \<exists>ds. observable_dicts os = Inr ds"
  by (induction os) auto

lemma refreshed_row_ok: "detection_row_ok r \<Longrightarrow> storable d \<Longrightarrow> detection_row_ok (refreshed_row d obs wall r)"
  by (auto simp: detection_row_ok_def storable_def detection_ok_def refreshed_row_def)

lemma refreshed_row_widened: "widened r (refreshed_row d obs wall r)"
  by (auto simp: widened_def refreshed_row_def)

lemma refreshed_row_covers: "dr_detection_id r = det_detection_id d \<Longrightarrow> row_covers (refreshed_row d obs wall r) d"
  by (auto simp: row_covers_def refreshed_row_def)

lemma new_row_ok: "storable d \<Longrightarrow> detection_row_ok (new_row d ts obs wall) \<and> row_covers (new_row d ts obs wall) d"
  by (auto simp: detection_row_ok_def storable_def detection_ok_def new_row_def row_covers_def)

abbreviation detection_ids :: "detection_db \<Rightarrow> string set" where
  "detection_ids db \<equiv> dr_detection_id ` set (ddb_rows db)"

lemma all_widened_update:
  assumes "\<And>r. widened r (f r)"
  shows "all_widened db (db\<lparr>ddb_rows := update_row dr_id i f (ddb_rows db)\<rparr>)"
  unfolding all_widened_def
proof
  fix q assume "q \<in> set (ddb_rows db)"
  then have "(if dr_id q = i then f q else q) \<in> set (ddb_rows (db\<lparr>ddb_rows := update_row dr_id i f (ddb_rows db)\<rparr>))"
    by (auto simp: update_row_def)
  moreover have "widened q (if dr_id q = i then f q else q)" using assms widened_self by simp
  ultimately show "\<exists>r\<in>set (ddb_rows (db\<lparr>ddb_rows := update_row dr_id i f (ddb_rows db)\<rparr>)). widened q r" by blast
qed

lemma persist_total:
  assumes "ensure_not_production_db ''detection'' cfg = Inr ()" "detection_db_ok db" "storable d"
  shows "\<exists>db' r. persist cfg wall d db = Inr (db', r) \<and> detection_db_ok db' \<and> r \<in> set (ddb_rows db') \<and> row_covers r d
    \<and> all_widened db db' \<and> detection_ids db' = insert (det_detection_id d) (detection_ids db)"
proof -
  obtain obs where obs: "observable_dicts (det_observables d) = Inr obs"
    using observable_dicts_total assms(3) unfolding storable_def by blast
  show ?thesis
  proof (cases "List.find (\<lambda>r. dr_detection_id r = det_detection_id d) (ddb_rows db)")
    case None
    obtain ts where ts: "det_timestamp d = Some ts" using assms(3) by (auto simp: storable_def)
    let ?n = "new_row d ts obs wall" and ?r = "(new_row d ts obs wall)\<lparr>dr_id := Suc (ddb_seq db)\<rparr>"
    let ?db = "db\<lparr>ddb_rows := ddb_rows db @ [?r], ddb_seq := Suc (ddb_seq db)\<rparr>"
    have p: "persist cfg wall d db = Inr (?db, ?r)" using assms(1) obs None ts by (simp add: persist_def Let_def)
    have id: "dr_detection_id ?n = det_detection_id d" by (simp add: new_row_def)
    have r: "detection_row_ok ?r" "row_covers ?r d"
      using new_row_ok [OF assms(3), of ts obs wall] by (simp_all add: detection_row_ok_def row_covers_def)
    have "dr_detection_id ?n \<notin> detection_ids db" using None id by (auto simp: find_None_iff')
    then have "detection_db_ok ?db"
      using assms(2) r(1) dts.table_ok_append [of "ddb_rows db" "ddb_seq db" ?n] by (simp add: detection_db_ok_def)
    moreover have "all_widened db ?db" using widened_self by (auto simp: all_widened_def)
    ultimately show ?thesis using p r(2) id by auto
  next
    case (Some q)
    let ?f = "refreshed_row d obs wall"
    let ?db = "db\<lparr>ddb_rows := update_row dr_id (dr_id q) ?f (ddb_rows db)\<rparr>"
    have q: "q \<in> set (ddb_rows db)" "dr_detection_id q = det_detection_id d" using find_SomeD [OF Some] by auto
    have p: "persist cfg wall d db = Inr (?db, ?f q)" using assms(1) obs Some by (simp add: persist_def)
    have keep: "dr_id (?f r) = dr_id r \<and> dr_detection_id (?f r) = dr_detection_id r" for r by (simp add: refreshed_row_def)
    have t: "dts.table_ok (ddb_rows ?db) (ddb_seq ?db)"
      using dts.table_ok_update [of ?f] keep assms(2) by (simp add: detection_db_ok_def)
    have in': "?f q \<in> set (ddb_rows ?db)" using q(1) by (auto simp: update_row_def)
    have "detection_db_ok ?db"
      using t assms(2) refreshed_row_ok [OF _ assms(3)] by (auto simp: detection_db_ok_def set_update_row)
    moreover have "all_widened db ?db"
      by (rule all_widened_update) (rule refreshed_row_widened)
    moreover have "map dr_detection_id (ddb_rows ?db) = map dr_detection_id (ddb_rows db)"
      using map_update_row [of dr_id "dr_id q" dr_detection_id ?f "ddb_rows db"] keep by simp
    then have "detection_ids ?db = detection_ids db" using arg_cong [where f = set] by (metis list.set_map)
    ultimately show ?thesis using p in' q refreshed_row_covers [OF q(2)] by (metis image_eqI insert_absorb)
  qed
qed

lemma persist_all_total:
  assumes "ensure_not_production_db ''detection'' cfg = Inr ()"
  shows "detection_db_ok db \<Longrightarrow> list_all storable ds \<Longrightarrow> \<exists>db' rs. persist_all cfg wall ds db = (db', Inr rs)
    \<and> detection_db_ok db' \<and> length rs = length ds \<and> all_widened db db'
    \<and> detection_ids db' = detection_ids db \<union> set (map det_detection_id ds)
    \<and> (\<forall>d\<in>set ds. \<exists>r\<in>set (ddb_rows db'). row_covers r d)"
proof (induction ds arbitrary: db)
  case Nil
  then show ?case using widened_self by (auto simp: all_widened_def)
next
  case (Cons d ds)
  obtain db1 r where 1: "persist cfg wall d db = Inr (db1, r)" "detection_db_ok db1" "r \<in> set (ddb_rows db1)" "row_covers r d"
      "all_widened db db1" "detection_ids db1 = insert (det_detection_id d) (detection_ids db)"
    using persist_total [OF assms Cons.prems(1), of d wall] Cons.prems(2) unfolding list.pred_inject by blast
  obtain db2 rs where 2: "persist_all cfg wall ds db1 = (db2, Inr rs)" "detection_db_ok db2" "length rs = length ds"
      "all_widened db1 db2" "detection_ids db2 = detection_ids db1 \<union> set (map det_detection_id ds)"
      "\<forall>d\<in>set ds. \<exists>r\<in>set (ddb_rows db2). row_covers r d"
    using Cons.IH [OF 1(2)] Cons.prems(2) unfolding list.pred_inject by blast
  have "\<exists>r\<in>set (ddb_rows db2). row_covers r d"
    using 1(3,4) 2(4) row_covers_widened unfolding all_widened_def by blast
  then show ?case using 1 2 all_widened_trans [OF 1(5) 2(4)] by auto
qed

section \<open>What a run raises and what surfaces\<close>

text \<open>The detections an event raises, detector by detector; a detector looks at the events of
  its types only.\<close>

definition raises :: "detector_env \<Rightarrow> window_context \<Rightarrow> event \<Rightarrow> detection \<Rightarrow> bool" where
  "raises env ctx e d \<longleftrightarrow>
     (e_event_type e = ''authentication'' \<and> (external_rdp env e ctx = Inr (Some d) \<or> brute_force env e ctx = Inr (Some d)))
     \<or> (e_event_type e = ''process'' \<and> (suspicious_powershell env e ctx = Inr (Some d) \<or> python_writable_path env e ctx = Inr (Some d)))
     \<or> ransomware_behavior env e ctx = Inr (Some d)"

lemma in_run_detectors:
  "d \<in> set (run_detectors ds e ctx) \<longleftrightarrow> (\<exists>x\<in>set ds. supports x e \<and> dt_evaluate x e ctx = Inr (Some d))"
  by (induction ds) (auto split: sum.splits option.splits)

lemma in_run_detections:
  "d \<in> set (run_detections (initial_detectors env) es ctx) \<longleftrightarrow> (\<exists>e\<in>set es. raises env ctx e d)"
proof -
  have "d \<in> set (run_detection (initial_detectors env) e ctx) \<longleftrightarrow> raises env ctx e d" for e
    unfolding run_detection_def enabled_initial in_run_detectors
    by (auto simp: initial_detectors_def detector_of_def supports_def raises_def)
  then show ?thesis by (simp add: run_detections_def)
qed

text \<open>A detection surfaces when the policy admits it and no rule suppresses it.\<close>

definition surfaces :: "alert_db \<Rightarrow> time \<Rightarrow> detection \<Rightarrow> bool" where
  "surfaces db now d \<longleftrightarrow> el_eligible (evaluate_detection d) \<and> is_suppressed db d now = None"

definition alert_covers :: "(string \<Rightarrow> string) \<Rightarrow> time \<Rightarrow> alert \<Rightarrow> detection \<Rightarrow> bool" where
  "alert_covers H now a d \<longleftrightarrow> al_fingerprint a = alert_fingerprint H d \<and> det_detection_id d \<in> set (al_detection_ids a)
     \<and> detection_time d now \<le> al_last_seen a"

definition alert_grown :: "alert \<Rightarrow> alert \<Rightarrow> bool" where
  "alert_grown a b \<longleftrightarrow> al_fingerprint b = al_fingerprint a \<and> set (al_detection_ids a) \<subseteq> set (al_detection_ids b)
     \<and> al_last_seen a \<le> al_last_seen b"

definition alerts_grown :: "alert_db \<Rightarrow> alert_db \<Rightarrow> bool" where
  "alerts_grown db db' \<longleftrightarrow> (\<forall>a\<in>set (adb_alerts db). \<exists>b\<in>set (adb_alerts db'). alert_grown a b)"

definition rule_scopes :: "alert_db \<Rightarrow> (time \<times> (string \<times> string) list) list" where
  "rule_scopes db = map (\<lambda>r. (sr_expires_at r, sr_scope r)) (adb_rules db)"

lemma alert_grown_self: "alert_grown a a"
  by (simp add: alert_grown_def)

lemma alert_grown_trans: "alert_grown a b \<Longrightarrow> alert_grown b c \<Longrightarrow> alert_grown a c"
  by (auto simp: alert_grown_def)

lemma alerts_grown_trans: "alerts_grown x y \<Longrightarrow> alerts_grown y z \<Longrightarrow> alerts_grown x z"
  unfolding alerts_grown_def using alert_grown_trans by blast

lemma alert_covers_grown: "alert_covers H now a d \<Longrightarrow> alert_grown a b \<Longrightarrow> alert_covers H now b d"
  unfolding alert_covers_def alert_grown_def by auto

lemma surfaces_scopes:
  assumes "rule_scopes db' = rule_scopes db"
  shows "surfaces db' now d = surfaces db now d"
proof -
  define q where "q = (\<lambda>(x :: time, s). x \<le> now \<or> \<not> sup_matches (undefined\<lparr>sr_scope := s\<rparr>) d)"
  have "(now < sr_expires_at r \<longrightarrow> \<not> sup_matches r d) = q (sr_expires_at r, sr_scope r)" for r
    by (auto simp: q_def sup_matches_def Let_def)
  then have "is_suppressed db d now = None \<longleftrightarrow> (\<forall>x\<in>set (rule_scopes db). q x)" for db
    by (simp add: is_suppressed_None rule_scopes_def)
  then show ?thesis using assms by (simp add: surfaces_def)
qed

lemma process_detection_surfaces:
  assumes ok: "alert_db_ok db" and p: "process_detection cfg H wall db d now0 actor = Inr (db', r)"
  shows "alerts_grown db db' \<and> rule_scopes db' = rule_scopes db
    \<and> (r \<noteq> None \<longleftrightarrow> surfaces db (now_or wall now0) d)
    \<and> (r \<noteq> None \<longrightarrow> (\<exists>a\<in>set (adb_alerts db'). alert_covers H (now_or wall now0) a d))"
  using p
proof (cases rule: process_detection_cases)
  case ineligible
  then show ?thesis using alert_grown_self by (auto simp: alerts_grown_def surfaces_def)
next
  case (suppressed rule)
  then show ?thesis
    using alert_grown_self
    by (auto simp: alerts_grown_def surfaces_def rule_scopes_def count_suppressed_def alert_audit_record_def update_row_def)
next
  case (merged a)
  let ?t = "detection_time d (now_or wall now0)"
  let ?m = "merged_alert wall ?t d a"
  have a: "a \<in> set (adb_alerts db)" "mergeable (alert_fingerprint H d) (det_detector_id d) (now_or wall now0) a"
    using find_existing_Some [OF merged(3)] by auto
  have alerts: "adb_alerts db' = update_row al_id (al_id a) (\<lambda>_. ?m) (adb_alerts db)"
    using merged(4) by (simp add: merge_detection_def Let_def)
  have row: "b = a" if "b \<in> set (adb_alerts db)" "al_id b = al_id a" for b
    using als.same_row [OF alert_db_okD(1) [OF ok] that(1) a(1)] that(2) .
  have m: "alert_grown a ?m" "alert_covers H (now_or wall now0) ?m d"
    using a(2) by (auto simp: alert_grown_def alert_covers_def merged_alert_detection_ids mergeable_def)
  have "alerts_grown db db'"
    unfolding alerts_grown_def
  proof
    fix b assume b: "b \<in> set (adb_alerts db)"
    have "(if al_id b = al_id a then ?m else b) \<in> set (adb_alerts db')"
      unfolding alerts set_update_row using b by blast
    moreover have "alert_grown b (if al_id b = al_id a then ?m else b)" using row [OF b] m(1) alert_grown_self by auto
    ultimately show "\<exists>c\<in>set (adb_alerts db'). alert_grown b c" by blast
  qed
  moreover have "?m \<in> set (adb_alerts db')" unfolding alerts set_update_row using a(1) by auto
  moreover have "rule_scopes db' = rule_scopes db"
    using merged(4) by (simp add: rule_scopes_def merge_detection_def Let_def)
  ultimately show ?thesis using merged(1,2,5) m(2) by (auto simp: surfaces_def)
next
  case created
  then show ?thesis
    using alert_grown_self
    by (auto simp: alerts_grown_def surfaces_def rule_scopes_def create_alert_def Let_def alert_covers_def new_alert_def)
qed

lemma occurrences_grow:
  "process_detections cfg H wall db ds now0 actor = Inr (db', as)
   \<Longrightarrow> length (adb_occurrences db') = length (adb_occurrences db) + length as"
proof (induction ds arbitrary: db as)
  case (Cons d ds)
  from Cons.prems obtain db1 r as1 where s:
    "process_detection cfg H wall db d now0 actor = Inr (db1, r)"
    "process_detections cfg H wall db1 ds now0 actor = Inr (db', as1)"
    "as = (case r of None \<Rightarrow> as1 | Some a \<Rightarrow> a # as1)"
    by (auto split: sum.splits)
  then show ?case using process_detection_occurrences [OF s(1)] Cons.IH [OF s(2)] by (auto split: option.splits)
qed simp

lemma process_detections_surface:
  "alert_db_ok db \<Longrightarrow> list_all detection_ok ds \<Longrightarrow> process_detections cfg H wall db ds now0 actor = Inr (db', as)
   \<Longrightarrow> alerts_grown db db' \<and> length as = length (filter (surfaces db (now_or wall now0)) ds)
     \<and> (\<forall>d\<in>set ds. surfaces db (now_or wall now0) d \<longrightarrow> (\<exists>a\<in>set (adb_alerts db'). alert_covers H (now_or wall now0) a d))"
proof (induction ds arbitrary: db as)
  case Nil
  then show ?case using alert_grown_self by (auto simp: alerts_grown_def)
next
  case (Cons d ds)
  from Cons.prems(3) obtain db1 r as1 where s:
    "process_detection cfg H wall db d now0 actor = Inr (db1, r)"
    "process_detections cfg H wall db1 ds now0 actor = Inr (db', as1)"
    "as = (case r of None \<Rightarrow> as1 | Some a \<Rightarrow> a # as1)"
    by (auto split: sum.splits)
  note one = process_detection_surfaces [OF Cons.prems(1) s(1)]
  have "alert_db_ok db1" using process_detection_keeps_ok [OF Cons.prems(1) _ s(1)] Cons.prems(2) by simp
  note ih = Cons.IH [OF this _ s(2)]
  have same: "surfaces db1 (now_or wall now0) = surfaces db (now_or wall now0)"
    using surfaces_scopes one by (intro ext) blast
  have g: "alerts_grown db1 db'" using ih Cons.prems(2) by simp
  have "\<exists>a\<in>set (adb_alerts db'). alert_covers H (now_or wall now0) a d" if "surfaces db (now_or wall now0) d"
    using that one g alert_covers_grown unfolding alerts_grown_def by metis
  moreover have "length as = length (filter (surfaces db (now_or wall now0)) (d # ds))"
    using ih Cons.prems(2) one s(3) by (cases r) (simp_all add: same)
  ultimately show ?case using ih Cons.prems(2) one g alerts_grown_trans by (simp add: same) blast
qed

section \<open>Properties\<close>

text \<open>C6: storing a batch of detections always succeeds and keeps one row per detection id;
  afterwards every detection of the batch has a row that holds all its events and covers
  its period, no id appears that was neither stored nor in the batch, and every older row
  is still there, with at least its events and its period.\<close>

theorem detections_persisted:
  assumes "ensure_not_production_db ''detection'' cfg = Inr ()" "detection_db_ok db" "list_all storable ds"
  shows "\<exists>db' rs. persist_all cfg wall ds db = (db', Inr rs) \<and> detection_db_ok db' \<and> length rs = length ds
    \<and> distinct (map dr_detection_id (ddb_rows db'))
    \<and> detection_ids db' = detection_ids db \<union> set (map det_detection_id ds)
    \<and> (\<forall>d\<in>set ds. \<exists>r\<in>set (ddb_rows db'). row_covers r d) \<and> all_widened db db'"
proof -
  obtain db' rs where p: "persist_all cfg wall ds db = (db', Inr rs)" "detection_db_ok db'" "length rs = length ds"
      "all_widened db db'" "detection_ids db' = detection_ids db \<union> set (map det_detection_id ds)"
      "\<forall>d\<in>set ds. \<exists>r\<in>set (ddb_rows db'). row_covers r d"
    using persist_all_total [OF assms(1-3), of wall] by blast
  moreover have "distinct (map dr_detection_id (ddb_rows db'))"
    using p(2) by (simp add: detection_db_ok_def dts.table_ok_def)
  ultimately show ?thesis by blast
qed

text \<open>C18: the pipeline from stored events to alerts: outside production, a run of the
  default registry over any events is stored and alerted without an exception, and the
  detections and the alerts stay consistent tables.  Nothing is lost on the way: every
  detection that one of the five detectors raises for one of the events is held by a
  stored row, with its events and its time; and when the policy admits it and no rule
  suppresses it, an alert with its fingerprint lists it and has been seen as late as it.
  Nothing is made up: no other detection id is stored, and there is exactly one new
  occurrence for each raised detection that surfaces.\<close>

theorem events_to_alerts:
  assumes "cfg_database cfg \<noteq> ''sentinel'' \<or> cfg_allow_prod cfg" "detection_db_ok ddb" "alert_db_ok adb"
  shows "\<exists>ddb' rs adb' as. run_and_persist cfg (initial_detectors env) wall es ctx ddb = (ddb', Inr rs)
    \<and> process_detections cfg (de_hash env) wall adb (run_detections (initial_detectors env) es ctx) clock actor = Inr (adb', as)
    \<and> detection_db_ok ddb' \<and> alert_db_ok adb'
    \<and> (\<forall>e\<in>set es. \<forall>d. raises env ctx e d \<longrightarrow>
         (\<exists>r\<in>set (ddb_rows ddb'). row_covers r d)
       \<and> (surfaces adb (now_or wall clock) d \<longrightarrow> (\<exists>a\<in>set (adb_alerts adb'). alert_covers (de_hash env) (now_or wall clock) a d)))
    \<and> detection_ids ddb' = detection_ids ddb \<union> {det_detection_id d | d e. e \<in> set es \<and> raises env ctx e d}
    \<and> length (adb_occurrences adb') = length (adb_occurrences adb)
        + length (filter (surfaces adb (now_or wall clock)) (run_detections (initial_detectors env) es ctx))"
proof -
  let ?ds = "run_detections (initial_detectors env) es ctx" and ?now = "now_or wall clock"
  have gate: "ensure_not_production_db n cfg = Inr ()" for n
    using assms(1) by (auto simp: ensure_not_production_db_def PRODUCTION_DB_NAME_def)
  have reports: "\<exists>e. reports env e d" if "d \<in> set ?ds" for d
    using that unfolding run_detections_def by (auto dest: run_initial_reports)
  have storable: "list_all storable ?ds"
    unfolding list_all_iff using reports reports_storable by blast
  then have ok: "list_all detection_ok ?ds" by (simp add: list_all_iff storable_def)
  obtain ddb' rs where p: "persist_all cfg wall ?ds ddb = (ddb', Inr rs)" "detection_db_ok ddb'"
      "\<forall>d\<in>set ?ds. \<exists>r\<in>set (ddb_rows ddb'). row_covers r d"
      "detection_ids ddb' = detection_ids ddb \<union> set (map det_detection_id ?ds)"
    using persist_all_total [OF gate assms(2) storable, of wall] by blast
  obtain adb' as where a: "process_detections cfg (de_hash env) wall adb ?ds clock actor = Inr (adb', as)"
    using process_detections_total [OF gate] by blast
  note surf = process_detections_surface [OF assms(3) ok a]
  have covered: "(\<exists>r\<in>set (ddb_rows ddb'). row_covers r d)
      \<and> (surfaces adb ?now d \<longrightarrow> (\<exists>a\<in>set (adb_alerts adb'). alert_covers (de_hash env) ?now a d))"
    if "e \<in> set es" "raises env ctx e d" for e d
  proof -
    have "d \<in> set ?ds" using that by (auto simp: in_run_detections)
    then show ?thesis using p(3) surf by blast
  qed
  have ids: "set (map det_detection_id ?ds) = {det_detection_id d | d e. e \<in> set es \<and> raises env ctx e d}"
  proof -
    have "set ?ds = {d. \<exists>e\<in>set es. raises env ctx e d}" using in_run_detections by blast
    then show ?thesis unfolding set_map by auto
  qed
  have occ: "length (adb_occurrences adb') = length (adb_occurrences adb) + length as"
    using a occurrences_grow by blast
  show ?thesis
    using p(1,2,4) a process_detections_keeps_ok [OF assms(3) ok a] covered occ surf unfolding run_and_persist_def ids
    by (intro exI [of _ ddb'] exI [of _ rs] exI [of _ adb'] exI [of _ as]) simp
qed

text \<open>A canonical record that carries a numeric \<open>event_id\<close> is taken for a Windows record:
  its own action, its facts and its structured fields are dropped, and the event is called
  after the number.\<close>

theorem numeric_event_id_loses_action:
  assumes "map_of d ''event_id'' = Some v" "py_int v = Inr n" "n \<notin> {4624, 4625}"
    and "map_of d ''event_data'' = None" "windows_time pt d fallback = Inr ts"
  shows "\<exists>e. normalize_record pt (JObj d) fallback = Inr (Some e) \<and> e_action e = ''event_'' @ py_str (VInt n)
    \<and> e_facts e = [] \<and> e_network e = []"
proof -
  have f: "windows_facts n [] = []" "windows_network [] = []"
    using assms(3) by (simp_all add: windows_facts_def logon_event_def present_def windows_network_def)
  have "\<exists>e. windows_event pt (JObj d) fallback = Inr e \<and> e_action e = ''event_'' @ py_str (VInt n)
      \<and> e_facts e = [] \<and> e_network e = []"
    using assms f by (simp add: windows_event_def get_default_def py_dict_def present_def)
  then show ?thesis using assms(1) by (auto simp: normalize_record_def NORMALIZERS_def has_key_def)
qed

text \<open>A record without a time is ingested with the clock of the batch, but the evaluation
  request has no fallback: it fails with an exception the normaliser does not tolerate, and
  the records after it are not evaluated.\<close>

theorem evaluate_needs_time:
  assumes "map_of d ''action'' = Some a" "map_of d ''timestamp'' = None"
    and "map_of d ''event_id'' = None" "map_of d ''facts'' = None" "map_of d ''process'' = None" "map_of d ''network'' = None"
  shows "evaluate_telemetry True pt cfg reg wall events (JObj d # raws) db = (db, Inl (AttributeError ''tzinfo''))
    \<and> (\<exists>e. normalize_record pt (JObj d) (Some wall) = Inr (Some e) \<and> e_timestamp e = wall \<and> e_action e = jstr a)"
proof -
  have "generic_event pt (JObj d) None = Inl (AttributeError ''tzinfo'')"
    using assms by (simp add: generic_event_def record_time_def)
  moreover have "\<exists>e. generic_event pt (JObj d) (Some wall) = Inr e \<and> e_timestamp e = wall \<and> e_action e = jstr a"
    using assms by (simp add: generic_event_def record_time_def py_dict_def text_field_def get_default_def)
  ultimately show ?thesis
    using assms(1,3) by (auto simp: evaluate_telemetry_def normalize_record_def NORMALIZERS_def has_key_def)
qed

section \<open>Concrete runs\<close>

definition empty_detection_db :: detection_db where
  "empty_detection_db = \<lparr>ddb_rows = [], ddb_seq = 0\<rparr>"

lemma empty_detection_db_ok: "detection_db_ok empty_detection_db"
  by (simp add: detection_db_ok_def empty_detection_db_def dts.table_ok_Nil)

definition sample_report :: detection where
  "sample_report = built plain_env (rdp_detection plain_env failed_logon 10)"

lemma sample_storable: "storable sample_report"
  unfolding sample_report_def by (rule reports_storable [OF reports_built [OF rdp_drafted]])

theorem detections_persisted_witness:
  "\<exists>db' rs. persist_all dev_config 5 [sample_report, sample_report] empty_detection_db = (db', Inr rs)
     \<and> dr_detection_id ` set (ddb_rows db') = {det_detection_id sample_report}
     \<and> distinct (map dr_detection_id (ddb_rows db'))"
  using detections_persisted [of dev_config empty_detection_db "[sample_report, sample_report]" 5]
    empty_detection_db_ok sample_storable
  by (auto simp: empty_detection_db_def)

text \<open>A remote logon from a public address.\<close>

definition rdp_event :: event where
  "rdp_event = (untimed_event ''logon'' 0)\<lparr>e_event_type := ''authentication'', e_host := ''srv1'', e_user := ''root'',
     e_facts := [(''logon_type'', JInt 10), (''source_ip'', JStr ''8.8.8.8'')]\<rparr>"

lemma public_address: "ip_address ''8.8.8.8'' = Some (V4 134744072)"
proof -
  have s: "split_on (CHR ''.'') ''8.8.8.8'' = [''8'', ''8'', ''8'', ''8'']" by simp
  have o8: "parse_octet ''8'' = Some 8" by (simp add: parse_octet_def is_digit_def dec_val_def)
  have "parse_ipv4 ''8.8.8.8'' = Some 134744072" unfolding parse_ipv4_def s Let_def by (simp add: o8)
  then show ?thesis by (simp add: ip_address_def)
qed

lemma public_external: "classify_ip (Some (JStr ''8.8.8.8'')) = ''external''"
proof -
  have "py_strip ''8.8.8.8'' = ''8.8.8.8''" by code_simp
  then show ?thesis
    by (simp add: classify_ip_def public_address as_str_def ip_loopback_def ip_link_local_def ip_reserved_def V6_RESERVED_def
        ip_multicast_def ip_unspecified_def PRIVATE_NETS_def v4_net_def v6_net_def)
qed

lemma rdp_event_logon: "rdp_logon rdp_event" "rdp_source rdp_event = ''8.8.8.8''"
proof -
  show s: "rdp_source rdp_event = ''8.8.8.8''"
    using public_external by (simp add: rdp_source_def rdp_event_def untimed_event_def classify_ip_def as_str_def)
  show "rdp_logon rdp_event"
    using public_external unfolding rdp_logon_def s
    by (simp add: is_external_def rdp_event_def untimed_event_def get_default_def)
qed

theorem events_to_alerts_witness:
  "\<exists>ddb' rs adb' as. run_and_persist dev_config (initial_detectors plain_env) 0 [rdp_event] None empty_detection_db = (ddb', Inr rs)
    \<and> process_detections dev_config (\<lambda>s. s) 0 empty_alert_db
        (run_detections (initial_detectors plain_env) [rdp_event] None) (Some 0) ''system'' = Inr (adb', as)
    \<and> detection_ids ddb' = {''D001-srv1|root|8.''}
    \<and> (\<exists>a\<in>set (adb_alerts adb'). ''D001-srv1|root|8.'' \<in> set (al_detection_ids a)) \<and> length (adb_occurrences adb') = 1"
proof -
  let ?d = "built plain_env (rdp_detection plain_env rdp_event 10)"
  have e: "e_event_type rdp_event = ''authentication''" "e_action rdp_event = ''logon''" "e_host rdp_event = ''srv1''"
    "e_user rdp_event = ''root''" by (simp_all add: rdp_event_def untimed_event_def)
  have d1: "external_rdp plain_env rdp_event None = Inr (Some ?d)" using external_rdp_Some [OF rdp_event_logon(1)] .
  have d2: "brute_force plain_env rdp_event None = Inr None" by (simp add: brute_force_def e)
  have d5: "ransomware_behavior plain_env rdp_event None = Inr None" by (simp add: ransomware_behavior_def)
  have run: "run_detections (initial_detectors plain_env) [rdp_event] None = [?d]"
    using enabled_initial [of plain_env]
    by (simp add: run_detections_def run_detection_def) (simp add: initial_detectors_def detector_of_def supports_def e d1 d2 d5)
  have raised: "raises plain_env None rdp_event ?d" by (simp add: raises_def e(1) d1)
  have only: "{det_detection_id d | d e. e \<in> set [rdp_event] \<and> raises plain_env None e d} = {det_detection_id ?d}"
  proof -
    have "raises plain_env None rdp_event d \<longleftrightarrow> d = ?d" for d
      using in_run_detections [of d plain_env "[rdp_event]" None] unfolding run by simp
    then show ?thesis by auto
  qed
  have id: "det_detection_id ?d = ''D001-srv1|root|8.''"
    by (simp add: built_def rdp_detection_def Let_def make_detection_id_def e rdp_event_logon(2) plain_env_def)
  have f: "det_detector_id ?d = ''D001''" "det_severity ?d = ''high''" "det_confidence ?d = clamp_confidence (rdp_confidence rdp_event)"
    by (simp_all add: built_def rdp_detection_def detection_for_def Let_def)
  have "el_eligible (evaluate_detection ?d)"
    unfolding eligible_iff f using clamp_confidence_unit [of "rdp_confidence rdp_event"] by (simp add: cfg ALERT_POLICIES_def)
  then have s: "surfaces empty_alert_db (now_or 0 (Some 0)) ?d"
    by (simp add: surfaces_def is_suppressed_def empty_alert_db_def)
  have cfg: "cfg_database dev_config \<noteq> ''sentinel'' \<or> cfg_allow_prod dev_config" by (simp add: dev_config_def)
  obtain ddb' rs adb' as where r: "run_and_persist dev_config (initial_detectors plain_env) 0 [rdp_event] None empty_detection_db = (ddb', Inr rs)"
      "process_detections dev_config (\<lambda>s. s) 0 empty_alert_db
        (run_detections (initial_detectors plain_env) [rdp_event] None) (Some 0) ''system'' = Inr (adb', as)"
      "\<exists>a\<in>set (adb_alerts adb'). alert_covers (\<lambda>s. s) (now_or 0 (Some 0)) a ?d"
      "detection_ids ddb' = detection_ids empty_detection_db \<union> {det_detection_id ?d}"
      "length (adb_occurrences adb') = length (adb_occurrences empty_alert_db) + 1"
    using events_to_alerts [OF cfg empty_detection_db_ok alert_db_ok_empty,
      where env = plain_env and es = "[rdp_event]" and ctx = None and wall = 0 and clock = "Some 0" and actor = "''system''"]
      raised s unfolding only run by (auto simp: plain_env_def)
  then show ?thesis using id by (auto simp: alert_covers_def empty_detection_db_def empty_alert_db_def)
qed

theorem numeric_event_id_loses_action_witness:
  "\<exists>e. normalize_record (\<lambda>_. Some 0) (JObj [(''event_id'', JInt 7), (''action'', JStr ''logon''), (''timestamp'', JStr ''t'')]) None
      = Inr (Some e) \<and> e_action e = ''event_7''"
proof -
  have "py_str (VInt 7) = ''7''" by (simp add: dec.simps digit_def) (simp add: char_of_def bit_iff_odd)
  then show ?thesis
    using numeric_event_id_loses_action [of "[(''event_id'', JInt 7), (''action'', JStr ''logon''), (''timestamp'', JStr ''t'')]"
        "JInt 7" 7 "\<lambda>_. Some 0" None 0]
    by (auto simp: windows_time_def record_time_def simp del: py_str.simps)
qed

theorem evaluate_needs_time_witness:
  "evaluate_telemetry True (\<lambda>_. Some 0) dev_config (initial_detectors plain_env) 0 empty_event_db
     [JObj [(''action'', JStr ''logon'')]] empty_detection_db = (empty_detection_db, Inl (AttributeError ''tzinfo''))"
  using evaluate_needs_time [of "[(''action'', JStr ''logon'')]" "JStr ''logon''" "\<lambda>_. Some 0" dev_config
      "initial_detectors plain_env" 0 empty_event_db "[]" empty_detection_db]
  by simp

end
