(* ===== verification/Py_Dec.thy ===== *)
theory Py_Dec
  imports Prelude Py_Ip
begin

text \<open>Decimal numerals as text: digits only, so that no operation on strings changes them.\<close>

lemma is_digit_digit: "d < 10 \<Longrightarrow> is_digit (digit d)"
  by (simp add: is_digit_def of_char_digit)

lemma dec_digits: "list_all is_digit (dec n)" "dec n \<noteq> []"
proof -
  have "list_all is_digit (dec n) \<and> dec n \<noteq> []"
  proof (induction n rule: dec.induct)
    case (1 n)
    then show ?case by (cases "n < 10") (simp_all add: dec.simps [of n] is_digit_digit)
  qed
  then show "list_all is_digit (dec n)" "dec n \<noteq> []" by simp_all
qed

lemma dec_digit: "c \<in> set (dec n) \<Longrightarrow> is_digit c"
  using dec_digits(1) [of n] by (simp add: list_all_iff)

lemma py_lower_dec [simp]: "py_lower (dec n) = dec n"
proof -
  have "lower_char c = c" if "is_digit c" for c using that by (auto simp: is_digit_def lower_char_def Let_def)
  then show ?thesis using dec_digit [of _ n] by (auto simp: py_lower_def intro: map_idI)
qed

lemma dropWhile_none: "(\<And>c. c \<in> set s \<Longrightarrow> \<not> P c) \<Longrightarrow> dropWhile P s = s"
  by (cases s) auto

lemma py_strip_dec [simp]: "py_strip (dec n) = dec n"
proof -
  have "\<not> is_space c" if "is_digit c" for c using that by (auto simp: is_digit_def is_space_def Let_def)
  then have "\<not> is_space c" if "c \<in> set (dec n)" for c using dec_digit [OF that] by simp
  then show ?thesis using dropWhile_none [of "dec n" is_space] dropWhile_none [of "rev (dec n)" is_space]
    by (simp add: py_strip_def)
qed

lemma partition_at_none: "c \<notin> set s \<Longrightarrow> partition_at c s = (s, None)"
  by (induction s) auto

end
