(* ===== verification/Vuln_Scan.thy ===== *)
theory Vuln_Scan
  imports Json Py_Dec
begin

text \<open>
  The vulnerability scanner: versions (\<open>backend/vulnscan/version.py\<close>), the matching of
  installed products against the CVE list (\<open>engine.py\<close>) and the collector that reports
  each finding once (\<open>backend/collectors/vulnscan.py\<close>).  The inventory and the CVE list
  are arguments: they are read from the registry and from a data file, with scores that are
  numbers (a score that is no number, or not a number in the sense of IEEE 754, is left out).
\<close>

section \<open>Versions\<close>

text \<open>A token is the pair \<open>(0, word)\<close> or \<open>(1, number)\<close>; pairs compare from the left.\<close>

datatype vtoken = Word string | Num nat

instantiation vtoken :: linorder
begin

fun less_vtoken :: "vtoken \<Rightarrow> vtoken \<Rightarrow> bool" where
  "less_vtoken (Word s) (Word t) = (s < t)"
| "less_vtoken (Word s) (Num n) = True"
| "less_vtoken (Num m) (Word t) = False"
| "less_vtoken (Num m) (Num n) = (m < n)"

definition less_eq_vtoken :: "vtoken \<Rightarrow> vtoken \<Rightarrow> bool" where
  "less_eq_vtoken x y = (x < y \<or> x = y)"

instance
proof
  fix x y z :: vtoken
  show "x < y \<longleftrightarrow> x \<le> y \<and> \<not> y \<le> x" by (cases x; cases y) (auto simp: less_eq_vtoken_def)
  show "x \<le> x" by (simp add: less_eq_vtoken_def)
  show "x \<le> z" if "x \<le> y" "y \<le> z"
    using that by (cases x; cases y; cases z) (auto simp: less_eq_vtoken_def)
  show "x = y" if "x \<le> y" "y \<le> x" using that by (cases x; cases y) (auto simp: less_eq_vtoken_def)
  show "x \<le> y \<or> y \<le> x" by (cases x; cases y) (auto simp: less_eq_vtoken_def)
qed

end

definition is_letter :: "char \<Rightarrow> bool" where
  "is_letter c = (let n = (of_char c :: nat) in (65 \<le> n \<and> n \<le> 90) \<or> (97 \<le> n \<and> n \<le> 122))"

text \<open>\<open>findall\<close> of a run of digits or a run of letters.\<close>

function scan_tokens :: "string \<Rightarrow> vtoken list" where
  "scan_tokens [] = []"
| "scan_tokens (c # s) =
     (if is_digit c then Num (dec_val (takeWhile is_digit (c # s))) # scan_tokens (dropWhile is_digit s)
      else if is_letter c then Word (takeWhile is_letter (c # s)) # scan_tokens (dropWhile is_letter s)
      else scan_tokens s)"
  by pat_completeness auto
termination
  by (relation "measure length") (auto simp: le_imp_less_Suc length_dropWhile_le)

definition version_tokens :: "string \<Rightarrow> vtoken list" where
  "version_tokens version = scan_tokens (py_lower version)"

fun first_difference :: "(vtoken \<times> vtoken) list \<Rightarrow> int option" where
  "first_difference [] = None"
| "first_difference ((left, right) # ps) =
     (if left \<noteq> right then Some (if left < right then - 1 else 1) else first_difference ps)"

definition compare_versions :: "string \<Rightarrow> string \<Rightarrow> int" where
  "compare_versions a b = (let ta = version_tokens a; tb = version_tokens b in
     case first_difference (zip ta tb) of
       Some d \<Rightarrow> d
     | None \<Rightarrow> of_bool (length tb < length ta) - of_bool (length ta < length tb))"

definition version_lt :: "string \<Rightarrow> string \<Rightarrow> bool" where
  "version_lt installed upper_exclusive \<longleftrightarrow> compare_versions installed upper_exclusive < 0"

definition version_in :: "string \<Rightarrow> string \<Rightarrow> string \<Rightarrow> bool" where
  "version_in installed lower_inclusive upper_exclusive \<longleftrightarrow>
     0 \<le> compare_versions installed lower_inclusive \<and> compare_versions installed upper_exclusive < 0"

section \<open>Matching\<close>

text \<open>An entry of the CVE list and a product of the inventory; None is a missing key.\<close>

record cve =
  cve_id :: "string option"
  cve_match :: "string option"
  cve_version_lt :: "string option"
  cve_cvss :: "rat option"
  cve_severity :: "string option"
  cve_description :: "string option"
  cve_remediation :: "string option"

record product =
  pd_name :: "string option"
  pd_version :: "string option"

record vuln_finding =
  vf_product :: string
  vf_version :: string
  vf_cve_id :: string
  vf_cvss :: rat
  vf_severity :: string
  vf_description :: string
  vf_remediation :: string

definition text_or :: "string option \<Rightarrow> string \<Rightarrow> string" where
  "text_or v d = (case v of None \<Rightarrow> d | Some s \<Rightarrow> s)"

definition cve_applies :: "string \<Rightarrow> string \<Rightarrow> cve \<Rightarrow> bool" where
  "cve_applies product_name version c =
     (let name = py_lower product_name; needle = py_lower (text_or (cve_match c) []) in
      if needle = [] \<or> \<not> contains needle name then False
      else let upper = text_or (cve_version_lt c) [] in
      if upper \<noteq> [] \<and> upper \<noteq> ''999.0'' then version \<noteq> [] \<and> version_lt version upper
      else True)"

definition match_product :: "string \<Rightarrow> string \<Rightarrow> cve list \<Rightarrow> cve list" where
  "match_product product_name version cves = filter (cve_applies product_name version) cves"

definition vuln_finding_of :: "string \<Rightarrow> string \<Rightarrow> cve \<Rightarrow> py_error + vuln_finding" where
  "vuln_finding_of name version c =
     (case cve_id c of
        None \<Rightarrow> Inl (KeyError ''cve_id'')
      | Some i \<Rightarrow> Inr \<lparr>vf_product = name, vf_version = version, vf_cve_id = i,
          vf_cvss = (case cve_cvss c of None \<Rightarrow> 0 | Some x \<Rightarrow> x),
          vf_severity = text_or (cve_severity c) ''medium'',
          vf_description = text_or (cve_description c) [],
          vf_remediation = text_or (cve_remediation c) []\<rparr>)"

fun findings_of :: "string \<Rightarrow> string \<Rightarrow> cve list \<Rightarrow> py_error + vuln_finding list" where
  "findings_of name version [] = Inr []"
| "findings_of name version (c # cs) =
     (case vuln_finding_of name version c of Inl e \<Rightarrow> Inl e | Inr f \<Rightarrow>
     (case findings_of name version cs of Inl e \<Rightarrow> Inl e | Inr fs \<Rightarrow> Inr (f # fs)))"

fun product_findings :: "product list \<Rightarrow> cve list \<Rightarrow> py_error + vuln_finding list" where
  "product_findings [] cves = Inr []"
| "product_findings (p # ps) cves =
     (let name = text_or (pd_name p) []; version = text_or (pd_version p) [] in
      case findings_of name version (match_product name version cves) of Inl e \<Rightarrow> Inl e | Inr fs \<Rightarrow>
     (case product_findings ps cves of Inl e \<Rightarrow> Inl e | Inr gs \<Rightarrow> Inr (fs @ gs)))"

text \<open>\<open>sort\<close> with \<open>reverse=True\<close> keeps the order of equal keys.\<close>

definition scan_inventory :: "product list \<Rightarrow> cve list \<Rightarrow> py_error + vuln_finding list" where
  "scan_inventory products cves =
     map_sum id (sort_key (\<lambda>f. - vf_cvss f)) (product_findings products cves)"

section \<open>The collector\<close>

text \<open>\<open>_seen\<close> holds the pairs of product and CVE already reported.\<close>

type_synonym seen_pairs = "(string \<times> string) list"

definition finding_key :: "vuln_finding \<Rightarrow> string \<times> string" where
  "finding_key f = (vf_product f, vf_cve_id f)"

fun unseen_findings :: "seen_pairs \<Rightarrow> vuln_finding list \<Rightarrow> vuln_finding list \<times> seen_pairs" where
  "unseen_findings seen [] = ([], seen)"
| "unseen_findings seen (f # fs) =
     (if finding_key f \<in> set seen then unseen_findings seen fs
      else (case unseen_findings (finding_key f # seen) fs of (gs, seen') \<Rightarrow> (f # gs, seen')))"

definition vuln_collect ::
  "bool \<Rightarrow> product list \<Rightarrow> cve list \<Rightarrow> seen_pairs \<Rightarrow> py_error + vuln_finding list \<times> seen_pairs" where
  "vuln_collect windows products cves seen =
     (if \<not> windows then Inr ([], seen)
      else map_sum id (unseen_findings seen) (scan_inventory products cves))"

section \<open>The order of versions\<close>

lemma first_difference_compare:
  "(case first_difference (zip xs ys) of
      Some d \<Rightarrow> d | None \<Rightarrow> of_bool (length ys < length xs) - of_bool (length xs < length ys))
   = (if xs < ys then - 1 else if xs = ys then 0 else 1)"
proof (induction xs arbitrary: ys)
  case Nil
  then show ?case by (cases ys) auto
next
  case (Cons x xs)
  show ?case
  proof (cases ys)
    case (Cons y l)
    then show ?thesis using Cons.IH [of l]
      by (cases "x = y") (simp_all split del: split_of_bool if_split cong: if_cong option.case_cong)
  qed simp
qed

lemma compare_versions_less:
  "compare_versions a b =
     (if version_tokens a < version_tokens b then - 1 else if version_tokens a = version_tokens b then 0 else 1)"
  by (simp add: compare_versions_def Let_def first_difference_compare)

lemma version_lt_less: "version_lt a b \<longleftrightarrow> version_tokens a < version_tokens b"
  by (simp add: version_lt_def compare_versions_less)

lemma version_lt_trans: "version_lt a b \<Longrightarrow> version_lt b c \<Longrightarrow> version_lt a c"
  unfolding version_lt_less by (rule less_trans)

text \<open>A run of digits or letters is read as a whole.\<close>

lemma scan_dec:
  assumes "rest = [] \<or> \<not> is_digit (hd rest)"
  shows "scan_tokens (dec n @ rest) = Num n # scan_tokens rest"
proof -
  obtain c s where cs: "dec n = c # s" using dec_digits(2) by (cases "dec n") auto
  have d: "is_digit c" "list_all is_digit s" using dec_digits(1) [of n] cs by simp_all
  have t: "takeWhile is_digit (c # s @ rest) = c # s" "dropWhile is_digit (s @ rest) = rest"
    using assms d by (cases rest; simp add: list_all_iff takeWhile_append2 dropWhile_append2)+
  have "scan_tokens (c # s @ rest) = Num (dec_val (c # s)) # scan_tokens rest"
    using d(1) by (simp only: scan_tokens.simps t if_True)
  then show ?thesis using cs dec_val_dec [of n] by simp
qed

text \<open>The version \<open>n1.n2.n3\<close> and its tokens.\<close>

definition dotted :: "nat list \<Rightarrow> string" where
  "dotted ns = join ''.'' (map dec ns)"

lemma lower_dot: "py_lower ''.'' = ''.''"
  by (simp add: py_lower_def lower_char_def)

lemma py_lower_dotted: "py_lower (dotted ns) = dotted ns"
proof -
  have "py_lower (join sep ss) = join (py_lower sep) (map py_lower ss)" for sep ss
    by (induction sep ss rule: join.induct) simp_all
  then show ?thesis by (simp add: dotted_def lower_dot comp_def)
qed

lemma scan_dotted:
  assumes "rest = [] \<or> \<not> is_digit (hd rest)"
  shows "scan_tokens (dotted ns @ rest) = map Num ns @ scan_tokens rest"
proof (induction ns rule: induct_list012)
  case (2 n)
  then show ?case using scan_dec [OF assms] by (simp add: dotted_def)
next
  case (3 m n ns)
  have dot: "\<not> is_digit (CHR ''.'')" "\<not> is_letter (CHR ''.'')" by (simp_all add: is_digit_def is_letter_def)
  have "scan_tokens (dec m @ CHR ''.'' # dotted (n # ns) @ rest) = Num m # scan_tokens (dotted (n # ns) @ rest)"
    using scan_dec [of "CHR ''.'' # dotted (n # ns) @ rest" m] dot by simp
  then show ?case using 3 by (simp add: dotted_def)
qed (simp add: dotted_def)

lemma dotted_tokens: "version_tokens (dotted ns) = map Num ns"
  using scan_dotted [of "[]" ns] by (simp add: version_tokens_def py_lower_dotted)

lemma map_Num_less: "map Num ms < map Num ns \<longleftrightarrow> ms < ns"
proof (induction ms arbitrary: ns)
  case (Cons m ms)
  then show ?case by (cases ns) auto
qed (case_tac ns, auto)

lemma map_Num_eq: "map Num ms = map Num ns \<longleftrightarrow> ms = ns"
  by (rule inj_map_eq_map) (simp add: inj_def)

text \<open>C35: versions are linearly ordered, numbers by value: on dotted numbers the comparison
  is the lexicographic order of the numbers, so that 1.10 follows 1.9; on all versions
  \<open>compare_versions\<close> is the sign of one linear order of the token lists.\<close>

theorem compare_versions_order:
  "compare_versions a b =
     (if version_tokens a < version_tokens b then - 1 else if version_tokens a = version_tokens b then 0 else 1)
   \<and> compare_versions (dotted ms) (dotted ns) = (if ms < ns then - 1 else if ms = ns then 0 else 1)"
  by (simp add: compare_versions_less dotted_tokens map_Num_less map_Num_eq)

text \<open>A pre-release of a version counts as later than the version: with any suffix that
  holds a letter or a digit and does not begin with a digit, the first fixed version is not
  below itself, and a candidate of it that still has the flaw is not reported.\<close>

theorem prerelease_counts_as_fixed:
  assumes "scan_tokens (py_lower suffix) \<noteq> []" "\<not> is_digit (hd (py_lower suffix))"
  shows "version_lt (dotted ns) (dotted ns @ suffix) \<and> \<not> version_lt (dotted ns @ suffix) (dotted ns)"
proof -
  have "version_tokens (dotted ns @ suffix) = map Num ns @ scan_tokens (py_lower suffix)"
    using scan_dotted [of "py_lower suffix" ns] assms(2) by (simp add: version_tokens_def py_lower_dotted)
  moreover have "xs < xs @ ys" if "ys \<noteq> []" for xs ys :: "vtoken list"
    using that by (induction xs) (auto simp: neq_Nil_conv)
  ultimately have "version_lt (dotted ns) (dotted ns @ suffix)"
    using assms(1) by (simp add: version_lt_less dotted_tokens)
  then show ?thesis using version_lt_less by (metis less_asym)
qed

lemma prerelease_counts_as_fixed_witness: "\<not> version_lt (dotted [2, 15, 0] @ ''-rc1'') (dotted [2, 15, 0])"
proof -
  have "scan_tokens (py_lower ''-rc1'') \<noteq> []" "\<not> is_digit (hd (py_lower ''-rc1''))"
    by (simp_all add: py_lower_def lower_char_def is_digit_def is_letter_def)
  from prerelease_counts_as_fixed [OF this] show ?thesis by blast
qed

section \<open>Scans\<close>

lemma match_product_older:
  assumes "version_lt v w" "v \<noteq> []" "c \<in> set (match_product name w cves)"
  shows "c \<in> set (match_product name v cves)"
  using assms version_lt_trans [of v w] by (auto simp: match_product_def cve_applies_def Let_def split: if_splits)

text \<open>The findings in the order of products and entries, for entries that carry an id.\<close>

definition finding_for :: "product \<Rightarrow> cve \<Rightarrow> vuln_finding" where
  "finding_for p c = \<lparr>vf_product = text_or (pd_name p) [], vf_version = text_or (pd_version p) [],
     vf_cve_id = text_or (cve_id c) [], vf_cvss = (case cve_cvss c of None \<Rightarrow> 0 | Some x \<Rightarrow> x),
     vf_severity = text_or (cve_severity c) ''medium'', vf_description = text_or (cve_description c) [],
     vf_remediation = text_or (cve_remediation c) []\<rparr>"

definition applicable :: "product \<Rightarrow> cve list \<Rightarrow> cve list" where
  "applicable p cves = match_product (text_or (pd_name p) []) (text_or (pd_version p) []) cves"

definition all_findings :: "product list \<Rightarrow> cve list \<Rightarrow> vuln_finding list" where
  "all_findings ps cves = concat (map (\<lambda>p. map (finding_for p) (applicable p cves)) ps)"

lemma vuln_finding_of_for:
  "vuln_finding_of (text_or (pd_name p) []) (text_or (pd_version p) []) c =
     (if cve_id c = None then Inl (KeyError ''cve_id'') else Inr (finding_for p c))"
  by (auto simp: vuln_finding_of_def finding_for_def text_or_def)

lemma findings_of_for:
  "findings_of (text_or (pd_name p) []) (text_or (pd_version p) []) cs =
     (if None \<in> cve_id ` set cs then Inl (KeyError ''cve_id'') else Inr (map (finding_for p) cs))"
  by (induction cs) (simp_all add: vuln_finding_of_for image_iff)

lemma product_findings_all:
  "product_findings ps cves =
     (if \<exists>p\<in>set ps. None \<in> cve_id ` set (applicable p cves) then Inl (KeyError ''cve_id'')
      else Inr (all_findings ps cves))"
  by (induction ps) (auto simp: Let_def findings_of_for all_findings_def applicable_def)

text \<open>C36: a scan reports exactly the pairs of a product and an entry that applies to it, once
  each, by falling score, entries of one score in the order of the inventory and the list; it
  fails exactly when an entry that applies has no id.\<close>

theorem scan_inventory_spec:
  "case scan_inventory ps cves of
     Inl e \<Rightarrow> e = KeyError ''cve_id'' \<and> None \<in> (\<Union>p\<in>set ps. cve_id ` set (applicable p cves))
   | Inr fs \<Rightarrow> None \<notin> (\<Union>p\<in>set ps. cve_id ` set (applicable p cves))
        \<and> sorted_wrt (\<lambda>f g. vf_cvss g \<le> vf_cvss f) fs
        \<and> (\<forall>x. filter (\<lambda>f. vf_cvss f = x) fs = filter (\<lambda>f. vf_cvss f = x) (all_findings ps cves))"
proof -
  have "sorted (map (\<lambda>f. - vf_cvss f) (sort_key (\<lambda>f. - vf_cvss f) gs))" for gs :: "vuln_finding list"
    by simp
  then have s: "sorted_wrt (\<lambda>f g. vf_cvss g \<le> vf_cvss f) (sort_key (\<lambda>f. - vf_cvss f) gs)"
    for gs :: "vuln_finding list"
    by (simp add: sorted_map)
  have st: "filter (\<lambda>f. vf_cvss f = x) (sort_key (\<lambda>f. - vf_cvss f) gs) = filter (\<lambda>f. vf_cvss f = x) gs" for x gs
    using sort_key_stable [of "\<lambda>f. - vf_cvss f" "- x" gs] by simp
  show ?thesis by (auto simp: scan_inventory_def product_findings_all s st)
qed

section \<open>Reporting once\<close>

lemma unseen_findings_spec:
  assumes "unseen_findings seen fs = (gs, seen')"
  shows "set seen' = set seen \<union> finding_key ` set fs \<and> distinct (map finding_key gs)
     \<and> finding_key ` set gs = finding_key ` set fs - set seen"
  using assms
proof (induction fs arbitrary: seen gs seen')
  case (Cons f fs)
  show ?case
  proof (cases "finding_key f \<in> set seen")
    case True
    then show ?thesis using Cons by auto
  next
    case False
    obtain hs s where 1: "unseen_findings (finding_key f # seen) fs = (hs, s)" by fastforce
    then have "gs = f # hs" "seen' = s" using Cons.prems False by simp_all
    then show ?thesis using Cons.IH [OF 1] False by auto
  qed
qed simp

text \<open>Any number of collections, whatever the inventories are.\<close>

fun collections :: "(product list \<times> cve list) list \<Rightarrow> seen_pairs \<Rightarrow> vuln_finding list" where
  "collections [] seen = []"
| "collections ((ps, cves) # runs) seen =
     (case vuln_collect True ps cves seen of
        Inl e \<Rightarrow> collections runs seen
      | Inr (fs, seen') \<Rightarrow> fs @ collections runs seen')"

text \<open>Over any sequence of collections, failed ones included, no pair of a product and
  a CVE is reported twice.\<close>

theorem findings_reported_once:
  "distinct (map finding_key (collections runs seen)) \<and> finding_key ` set (collections runs seen) \<inter> set seen = {}"
proof (induction runs seen rule: collections.induct)
  case (2 ps cves runs seen)
  show ?case
  proof (cases "vuln_collect True ps cves seen")
    case (Inr r)
    obtain fs seen' where r: "r = (fs, seen')" by (cases r)
    then obtain gs where "unseen_findings seen gs = (fs, seen')"
      using Inr by (auto simp: vuln_collect_def map_sum_def split: sum.splits)
    from unseen_findings_spec [OF this] show ?thesis using 2(2) [OF Inr r [symmetric]] Inr r by auto
  qed (use 2(1) in simp)
qed simp

end
