(* ===== verification/Sliding_Window.thy ===== *)
theory Sliding_Window
  imports Complex_Main
begin

text \<open>
  The contract of a counter of events in a sliding window: the times of a key are kept, and
  an event is only recorded when the window that ends with it is not full.  The limiter of
  requests and the two counters of failed logins provide it.
\<close>

lemma length_filter_mono: "(\<And>x. P x \<Longrightarrow> Q x) \<Longrightarrow> length (filter P xs) \<le> length (filter Q xs)"
  by (induction xs) auto

definition window_count :: "rat \<Rightarrow> rat \<Rightarrow> rat list \<Rightarrow> nat" where
  "window_count w u ts = length (filter (\<lambda>t. u - w < t \<and> t \<le> u) ts)"

locale sliding_window =
  fixes times :: "'s \<Rightarrow> string \<Rightarrow> rat list"
    and full :: "rat \<Rightarrow> string \<Rightarrow> 's \<Rightarrow> bool"
    and record_time :: "rat \<Rightarrow> string \<Rightarrow> 's \<Rightarrow> 's"
    and roomy :: "'s \<Rightarrow> bool"
    and most :: nat
    and window :: rat
  assumes full_iff: "full now k s \<longleftrightarrow> most \<le> length (filter (\<lambda>t. now - window < t) (times s k))"
    and times_record: "roomy s \<Longrightarrow> times (record_time now k s) j = (if j = k then times s k @ [now] else times s j)"
begin

definition bounded :: "'s \<Rightarrow> bool" where
  "bounded s \<longleftrightarrow> (\<forall>k u. window_count window u (times s k) \<le> most)"

lemma boundedD: "bounded s \<Longrightarrow> window_count window u (times s k) \<le> most"
  by (simp add: bounded_def)

lemma bounded_empty: "(\<And>k. times s k = []) \<Longrightarrow> bounded s"
  by (simp add: bounded_def window_count_def)

lemma bounded_record:
  assumes "bounded s" "roomy s" "\<not> full now k s"
  shows "bounded (record_time now k s)"
  unfolding bounded_def
proof (intro allI)
  fix j u
  show "window_count window u (times (record_time now k s) j) \<le> most"
  proof (cases "j = k \<and> now \<le> u")
    case True
    have "window_count window u (times s k) \<le> length (filter (\<lambda>t. now - window < t) (times s k))"
      unfolding window_count_def by (rule length_filter_mono) (use True in auto)
    moreover have "length (filter (\<lambda>t. now - window < t) (times s k)) < most" using assms(3) by (simp add: full_iff)
    ultimately show ?thesis using True by (simp add: times_record [OF assms(2)] window_count_def)
  next
    case False
    then show ?thesis
      using boundedD [OF assms(1), of u j] boundedD [OF assms(1), of u k]
      by (auto simp: times_record [OF assms(2)] window_count_def)
  qed
qed

end

end
