(* ===== verification/Rate_Limit.thy ===== *)
theory Rate_Limit
  imports Py_Dec Sliding_Window
begin

text \<open>
  The sliding-window limiter of requests (\<open>backend/rate_limit.py\<close>).  The clock is read
  twice per request: by the periodic cleanup and for the request itself.  Readings are
  seconds; differences of readings between \<open>2 ^ 30\<close> and \<open>2 ^ 31\<close> seconds are exact in
  binary64, so that rationals stand for them.
\<close>

section \<open>Requests and clients\<close>

record http_request =
  hr_path :: string
  hr_agent_key :: "string option"
  hr_authorization :: "string option"
  hr_forwarded_for :: "string option"
  hr_client_host :: "string option"

definition exempt_paths :: "string list" where
  "exempt_paths = [''/api/health'', ''/docs'', ''/redoc'', ''/openapi.json'']"

definition header_text :: "string option \<Rightarrow> string" where
  "header_text h = (case h of None \<Rightarrow> [] | Some s \<Rightarrow> s)"

definition get_client_id :: "http_request \<Rightarrow> string" where
  "get_client_id r =
     (let api_key = str_or (header_text (hr_agent_key r)) (header_text (hr_authorization r)) in
      if api_key \<noteq> [] then ''key:'' @ take 16 api_key
      else let forwarded = header_text (hr_forwarded_for r) in
      if forwarded \<noteq> [] then ''ip:'' @ py_strip (fst (partition_at (CHR '','') forwarded))
      else ''ip:'' @ (case hr_client_host r of None \<Rightarrow> ''unknown'' | Some h \<Rightarrow> h))"

section \<open>The limiter\<close>

record limiter =
  rl_per_minute :: int
  rl_burst :: int
  rl_requests :: "string \<rightharpoonup> rat list"
  rl_cleanup_interval :: rat
  rl_last_cleanup :: rat

definition limiter_init :: "int \<Rightarrow> int \<Rightarrow> rat \<Rightarrow> limiter" where
  "limiter_init per_minute burst now =
     \<lparr>rl_per_minute = per_minute, rl_burst = burst, rl_requests = Map.empty,
      rl_cleanup_interval = 60, rl_last_cleanup = now\<rparr>"

text \<open>Reading a \<open>defaultdict(list)\<close>.\<close>

definition stamps :: "limiter \<Rightarrow> string \<Rightarrow> rat list" where
  "stamps st c = (case rl_requests st c of None \<Rightarrow> [] | Some ts \<Rightarrow> ts)"

definition cleanup :: "rat \<Rightarrow> limiter \<Rightarrow> limiter" where
  "cleanup now st =
     (if now - rl_last_cleanup st < rl_cleanup_interval st then st
      else st\<lparr>rl_last_cleanup := now,
        rl_requests := (\<lambda>c. case rl_requests st c of
            None \<Rightarrow> None
          | Some ts \<Rightarrow> (case filter (\<lambda>t. now - 120 < t) ts of [] \<Rightarrow> None | ts' \<Rightarrow> Some ts'))\<rparr>)"

datatype outcome = Exempt | Limited | Passed

definition dispatch :: "rat \<Rightarrow> rat \<Rightarrow> http_request \<Rightarrow> limiter \<Rightarrow> limiter \<times> outcome" where
  "dispatch sweep now r st =
     (if hr_path r \<in> set exempt_paths then (st, Exempt)
      else let st1 = cleanup sweep st; c = get_client_id r;
               recent = filter (\<lambda>t. now - 60 < t) (stamps st1 c);
               st2 = st1\<lparr>rl_requests := (rl_requests st1)(c \<mapsto> recent)\<rparr>
           in if rl_burst st \<le> int (length recent) then (st2, Limited)
              else (st2\<lparr>rl_requests := (rl_requests st2)(c \<mapsto> recent @ [now])\<rparr>, Passed))"

text \<open>The headers are computed when the answer comes back, from the state of that moment:
  limit, remaining requests, time of the reset.\<close>

definition rate_headers :: "rat \<Rightarrow> http_request \<Rightarrow> limiter \<Rightarrow> int \<times> int \<times> int" where
  "rate_headers now r st =
     (rl_burst st, max 0 (rl_burst st - int (length (stamps st (get_client_id r)))), \<lfloor>now + 60\<rfloor>)"

text \<open>A sequence of requests: the two readings of the clock and the request.\<close>

type_synonym arrival = "rat \<times> rat \<times> http_request"

fun limiter_run :: "limiter \<Rightarrow> arrival list \<Rightarrow> limiter \<times> outcome list" where
  "limiter_run st [] = (st, [])"
| "limiter_run st ((sweep, now, r) # as) =
     (case dispatch sweep now r st of (st1, d) \<Rightarrow> case limiter_run st1 as of (st2, ds) \<Rightarrow> (st2, d # ds))"

section \<open>What the limiter implements\<close>

text \<open>The reference keeps every request that passed and forgets none.\<close>

type_synonym pass_log = "(string \<times> rat) list"

definition times_of :: "pass_log \<Rightarrow> string \<Rightarrow> rat list" where
  "times_of l c = map snd (filter (\<lambda>p. fst p = c) l)"

definition passes :: "int \<Rightarrow> pass_log \<Rightarrow> rat \<Rightarrow> http_request \<Rightarrow> bool" where
  "passes burst l now r \<longleftrightarrow> int (length (filter (\<lambda>t. now - 60 < t) (times_of l (get_client_id r)))) < burst"

definition reference_step :: "int \<Rightarrow> pass_log \<Rightarrow> rat \<Rightarrow> http_request \<Rightarrow> pass_log \<times> outcome" where
  "reference_step burst l now r =
     (if hr_path r \<in> set exempt_paths then (l, Exempt)
      else if passes burst l now r then (l @ [(get_client_id r, now)], Passed) else (l, Limited))"

fun reference_run :: "int \<Rightarrow> pass_log \<Rightarrow> arrival list \<Rightarrow> pass_log \<times> outcome list" where
  "reference_run burst l [] = (l, [])"
| "reference_run burst l ((sweep, now, r) # as) =
     (case reference_step burst l now r of (l1, d) \<Rightarrow>
      case reference_run burst l1 as of (l2, ds) \<Rightarrow> (l2, d # ds))"

lemma run_Cons:
  "snd (limiter_run st ((sweep, now, r) # as))
     = snd (dispatch sweep now r st) # snd (limiter_run (fst (dispatch sweep now r st)) as)"
  "fst (reference_run burst l ((sweep, now, r) # as))
     = fst (reference_run burst (fst (reference_step burst l now r)) as)"
  "snd (reference_run burst l ((sweep, now, r) # as))
     = snd (reference_step burst l now r) # snd (reference_run burst (fst (reference_step burst l now r)) as)"
  by (simp_all split: prod.split)

declare limiter_run.simps(2) [simp del] reference_run.simps(2) [simp del] run_Cons [simp]

text \<open>The clock does not go back.\<close>

fun clock_forward :: "rat \<Rightarrow> arrival list \<Rightarrow> bool" where
  "clock_forward t [] = True"
| "clock_forward t ((sweep, now, r) # as) = (t \<le> sweep \<and> sweep \<le> now \<and> clock_forward now as)"

text \<open>What the two states agree on at the time \<open>t\<close>: the requests of the last minute, and of
  the minute before any later time.\<close>

definition agrees :: "rat \<Rightarrow> limiter \<Rightarrow> pass_log \<Rightarrow> bool" where
  "agrees t st l \<longleftrightarrow> (\<forall>c u. t \<le> u \<longrightarrow>
     filter (\<lambda>x. u - 60 < x) (stamps st c) = filter (\<lambda>x. u - 60 < x) (times_of l c))"

lemma agrees_later: "agrees t st l \<Longrightarrow> t \<le> u \<Longrightarrow> agrees u st l"
  by (auto simp: agrees_def)

lemma filter_weaker: "(\<And>x. Q x \<Longrightarrow> P x) \<Longrightarrow> filter Q (filter P xs) = filter Q xs"
  by (induction xs) auto

lemma stamps_cleanup: "stamps (cleanup now st) c = (if now - rl_last_cleanup st < rl_cleanup_interval st then stamps st c
     else filter (\<lambda>t. now - 120 < t) (stamps st c))"
  by (auto simp: stamps_def cleanup_def split: option.split list.split)

lemma stamps_update: "stamps (st\<lparr>rl_requests := (rl_requests st)(c \<mapsto> ts)\<rparr>) d = (if d = c then ts else stamps st d)"
  by (simp add: stamps_def)

lemma cleanup_burst [simp]: "rl_burst (cleanup now st) = rl_burst st"
  by (simp add: cleanup_def)

lemma agrees_cleanup:
  assumes "agrees t st l" "t \<le> now"
  shows "agrees now (cleanup now st) l"
proof -
  have "filter (\<lambda>x. u - 60 < x) (filter (\<lambda>x. now - 120 < x) xs) = filter (\<lambda>x. u - 60 < x) xs" if "now \<le> u" for u xs
    by (rule filter_weaker) (use that in simp)
  then show ?thesis using assms by (simp add: agrees_def stamps_cleanup)
qed

lemma agrees_trim:
  assumes "agrees now st l" "ts = filter (\<lambda>x. now - 60 < x) (stamps st c)"
  shows "agrees now (st\<lparr>rl_requests := (rl_requests st)(c \<mapsto> ts)\<rparr>) l"
proof -
  have "filter (\<lambda>x. u - 60 < x) (filter (\<lambda>x. now - 60 < x) xs) = filter (\<lambda>x. u - 60 < x) xs" if "now \<le> u" for u xs
    by (rule filter_weaker) (use that in simp)
  then show ?thesis using assms by (simp add: agrees_def stamps_update)
qed

lemma agrees_record:
  assumes "agrees now st l" "ts = filter (\<lambda>x. now - 60 < x) (stamps st c)"
  shows "agrees now (st\<lparr>rl_requests := (rl_requests st)(c \<mapsto> ts @ [now])\<rparr>) (l @ [(c, now)])"
  unfolding agrees_def
proof (intro allI impI)
  fix d u assume u: "now \<le> u"
  have "filter (\<lambda>x. u - 60 < x) (if d = c then ts else stamps st d) = filter (\<lambda>x. u - 60 < x) (times_of l d)"
    using agrees_trim [OF assms] u unfolding agrees_def stamps_update by blast
  then show "filter (\<lambda>x. u - 60 < x) (stamps (st\<lparr>rl_requests := (rl_requests st)(c \<mapsto> ts @ [now])\<rparr>) d)
      = filter (\<lambda>x. u - 60 < x) (times_of (l @ [(c, now)]) d)"
    by (cases "d = c") (simp_all add: stamps_update times_of_def)
qed

lemma dispatch_reference:
  assumes "agrees t st l" "t \<le> sweep" "sweep \<le> now"
  shows "\<exists>st1 l1 d. dispatch sweep now r st = (st1, d) \<and> reference_step (rl_burst st) l now r = (l1, d)
     \<and> agrees now st1 l1 \<and> rl_burst st1 = rl_burst st"
proof -
  let ?c = "get_client_id r" and ?st = "cleanup sweep st"
  let ?ts = "filter (\<lambda>x. now - 60 < x) (stamps ?st ?c)"
  have a: "agrees now ?st l" using agrees_later [OF agrees_cleanup [OF assms(1,2)] assms(3)] .
  then have "?ts = filter (\<lambda>x. now - 60 < x) (times_of l ?c)" by (simp add: agrees_def)
  then have p: "passes (rl_burst st) l now r \<longleftrightarrow> int (length ?ts) < rl_burst st" by (simp add: passes_def)
  show ?thesis
    using p agrees_trim [OF a refl, of ?c] agrees_record [OF a refl, of ?c] agrees_later [OF assms(1)] assms(2,3)
    by (simp add: dispatch_def reference_step_def Let_def)
qed

lemma limiter_refines:
  assumes "clock_forward t as"
  shows "snd (limiter_run (limiter_init per_minute burst t) as) = snd (reference_run burst [] as)"
proof -
  have "snd (limiter_run st as) = snd (reference_run (rl_burst st) l as)"
    if "agrees t st l" "clock_forward t as" for st l t
    using that
  proof (induction as arbitrary: st l t)
    case (Cons a as)
    obtain sweep now r where a: "a = (sweep, now, r)" by (cases a)
    from dispatch_reference [of t st l sweep now r] Cons.prems a
    obtain st1 l1 d where d: "dispatch sweep now r st = (st1, d)" "reference_step (rl_burst st) l now r = (l1, d)"
        "agrees now st1 l1" "rl_burst st1 = rl_burst st" by auto
    have "clock_forward now as" using Cons.prems(2) a by simp
    with Cons.IH [OF d(3)] d(4) show ?case by (simp add: a d(1,2))
  qed simp
  moreover have "agrees t (limiter_init per_minute burst t) []"
    by (simp add: agrees_def limiter_init_def stamps_def times_of_def)
  ultimately show ?thesis using assms by (simp add: limiter_init_def)
qed

text \<open>C23: as long as the clock does not go back, the limiter decides like one that keeps
  every request: trimming the list of a client and the periodic removal of old entries are
  never seen, whatever the requests and the burst are.\<close>

theorem limiter_refines_reference:
  assumes "clock_forward t as"
  shows "snd (limiter_run (limiter_init per_minute burst t) as) = snd (reference_run burst [] as)"
  using assms by (rule limiter_refines)

text \<open>Three requests of one client within the burst of two: the third is refused.\<close>

definition plain_request :: http_request where
  "plain_request = \<lparr>hr_path = ''/api/alerts'', hr_agent_key = None, hr_authorization = None,
     hr_forwarded_for = None, hr_client_host = Some ''10.0.0.1''\<rparr>"

lemma limiter_refines_reference_witness:
  "snd (limiter_run (limiter_init 60 2 0) [(1, 1, plain_request), (2, 2, plain_request), (3, 3, plain_request)])
     = [Passed, Passed, Limited]"
  by (subst limiter_refines_reference)
    (simp_all add: reference_step_def passes_def times_of_def exempt_paths_def plain_request_def get_client_id_def header_text_def)

section \<open>Limits\<close>

text \<open>The times of the requests of a client that passed.\<close>

definition passed_times :: "string \<Rightarrow> arrival list \<Rightarrow> outcome list \<Rightarrow> rat list" where
  "passed_times c as ds = map (\<lambda>((_, now, _), _). now)
     (filter (\<lambda>((_, _, r), d). d = Passed \<and> get_client_id r = c) (zip as ds))"

lemma reference_log:
  "times_of (fst (reference_run burst l as)) c = times_of l c @ passed_times c as (snd (reference_run burst l as))"
proof (induction as arbitrary: l)
  case (Cons a as)
  obtain sweep now r where a: "a = (sweep, now, r)" by (cases a)
  show ?case
    using Cons.IH [of "fst (reference_step burst l now r)"]
    by (simp add: a reference_step_def passed_times_def times_of_def)
qed (simp add: passed_times_def)

interpretation rlw: sliding_window times_of
  "\<lambda>now c l. \<not> int (length (filter (\<lambda>t. now - 60 < t) (times_of l c))) < burst" "\<lambda>now c l. l @ [(c, now)]"
  "\<lambda>_. True" "nat burst" 60 for burst
  by unfold_locales (auto simp: times_of_def)

lemma reference_bounded: "rlw.bounded burst l \<Longrightarrow> rlw.bounded burst (fst (reference_run burst l as))"
proof (induction as arbitrary: l)
  case (Cons a as)
  obtain sweep now r where a: "a = (sweep, now, r)" by (cases a)
  have "rlw.bounded burst (fst (reference_step burst l now r))"
    using Cons.prems rlw.bounded_record [of burst l now "get_client_id r"] by (simp add: reference_step_def passes_def)
  from Cons.IH [OF this] show ?case by (simp add: a)
qed simp

text \<open>In every window of sixty seconds at most \<open>burst\<close> requests of a client pass.\<close>

theorem window_limit:
  assumes "clock_forward t as" "0 \<le> burst"
  shows "int (length (filter (\<lambda>x. u - 60 < x \<and> x \<le> u)
     (passed_times c as (snd (limiter_run (limiter_init per_minute burst t) as))))) \<le> burst"
proof -
  have "rlw.bounded burst (fst (reference_run burst [] as))"
    by (intro reference_bounded rlw.bounded_empty) (simp add: times_of_def)
  then have "window_count 60 u (times_of (fst (reference_run burst [] as)) c) \<le> nat burst" by (rule rlw.boundedD)
  then show ?thesis
    using assms(2) unfolding reference_log limiter_refines [OF assms(1)] by (simp add: times_of_def window_count_def)
qed

lemma window_limit_witness:
  "int (length (filter (\<lambda>x. 3 - 60 < x \<and> x \<le> 3) (passed_times ''ip:10.0.0.1''
     [(1, 1, plain_request), (2, 2, plain_request), (3, 3, plain_request)]
     (snd (limiter_run (limiter_init 60 2 0) [(1, 1, plain_request), (2, 2, plain_request), (3, 3, plain_request)])))))
   \<le> 2"
  by (rule window_limit) simp_all

section \<open>Who is a client\<close>

text \<open>The client of a bearer token is named by its first nine characters, and a JWT begins
  with \<open>eyJhbGciO\<close>, the encoding of its first field: all users who present such a token
  share one burst.\<close>

theorem bearer_tokens_share_burst:
  "get_client_id (r\<lparr>hr_agent_key := None, hr_authorization := Some (''Bearer eyJhbGciO'' @ rest)\<rparr>)
     = ''key:Bearer eyJhbGciO''"
  by (simp add: get_client_id_def header_text_def)

lemma distinct_clients_pass:
  assumes "0 < burst" "distinct (map (\<lambda>(_, _, r). get_client_id r) as)"
    "fst ` set l \<inter> (\<lambda>(_, _, r). get_client_id r) ` set as = {}"
  shows "Limited \<notin> set (snd (reference_run burst l as))"
  using assms
proof (induction as arbitrary: l)
  case (Cons a as)
  obtain sweep now r where a: "a = (sweep, now, r)" by (cases a)
  have "p \<notin> set l" if "fst p = get_client_id r" for p using Cons.prems(3) that by (force simp: a)
  then have "times_of l (get_client_id r) = []" by (auto simp: times_of_def filter_empty_conv)
  then have d: "snd (reference_step burst l now r) \<noteq> Limited"
    using assms(1) by (simp add: reference_step_def passes_def)
  have "fst ` set (fst (reference_step burst l now r)) \<inter> (\<lambda>(_, _, r). get_client_id r) ` set as = {}"
    using Cons.prems(2,3) by (auto simp: a reference_step_def)
  with Cons.IH [of "fst (reference_step burst l now r)"] Cons.prems d show ?case by (simp add: a)
qed simp

lemma dec_no_comma: "CHR '','' \<notin> set (dec n)"
  using dec_digit [of "CHR '',''" n] by (auto simp: is_digit_def)

text \<open>A request that names its own origin in \<open>X-Forwarded-For\<close>.\<close>

definition forged :: "nat \<Rightarrow> http_request" where
  "forged i = plain_request\<lparr>hr_forwarded_for := Some (dec i)\<rparr>"

text \<open>The origin is taken from a header the client writes: one that names another origin
  in every request is never limited, however many requests it sends at one moment.\<close>

theorem forged_origin_evades_limit:
  assumes "0 < burst"
  shows "Limited \<notin> set (snd (limiter_run (limiter_init per_minute burst t) (map (\<lambda>i. (t, t, forged i)) [0..<n])))"
proof -
  let ?as = "map (\<lambda>i. (t, t, forged i)) [0..<n]"
  have id: "get_client_id (forged i) = ''ip:'' @ dec i" for i
    by (simp add: forged_def plain_request_def get_client_id_def header_text_def dec_digits(2) partition_at_none
        dec_no_comma)
  have "clock_forward t (map (\<lambda>i. (t, t, forged i)) is)" for "is" by (induction "is") simp_all
  moreover have "distinct (map (\<lambda>(_, _, r). get_client_id r) ?as)"
    by (simp add: comp_def id distinct_map inj_on_def)
  ultimately show ?thesis using distinct_clients_pass [OF assms, of ?as "[]"] by (simp add: limiter_refines)
qed

lemma forged_origin_evades_limit_witness:
  "Limited \<notin> set (snd (limiter_run (limiter_init 60 10 0) (map (\<lambda>i. (0, 0, forged i)) [0..<100])))"
  by (rule forged_origin_evades_limit) simp

end
