(* ===== verification/Rate_Gate.thy ===== *)
theory Rate_Gate
  imports Py_Dec "HOL-Library.AList"
begin

text \<open>
  The rate gate that the program runs in front of its routes (\<open>backend/main.py\<close> with
  \<open>rate_increment\<close> of \<open>backend/redis.py\<close>, on a single node without Redis): a counter per
  client and window, started by the first request of the window.
\<close>

section \<open>Counters\<close>

type_synonym rate_buckets = "(string \<times> rat \<times> nat) list"

definition rate_increment :: "rat \<Rightarrow> string \<Rightarrow> rat \<Rightarrow> rate_buckets \<Rightarrow> rate_buckets \<times> nat \<times> rat" where
  "rate_increment window key now tbl =
     (let (start0, count0) = (case map_of tbl key of None \<Rightarrow> (now, 0) | Some b \<Rightarrow> b);
          (start, count) = (if window \<le> now - start0 then (now, 0) else (start0, count0))
      in (AList.update key (start, Suc count) tbl, Suc count, window - (now - start)))"

definition rate_cleanup :: "rate_buckets \<Rightarrow> rate_buckets" where
  "rate_cleanup tbl = (if 10000 < length tbl then [] else tbl)"

section \<open>The gate\<close>

record gate_config =
  API_RATE_LIMIT :: int
  API_RATE_BURST :: int

definition RATE_WINDOW_SECONDS :: rat where "RATE_WINDOW_SECONDS = 60"

definition client_identity :: "string \<Rightarrow> string option \<Rightarrow> string option \<Rightarrow> string" where
  "client_identity ip api_key authorization =
     (let key = str_or (case api_key of None \<Rightarrow> [] | Some k \<Rightarrow> k)
                  (take 32 (case authorization of None \<Rightarrow> [] | Some a \<Rightarrow> a)) in
      if key \<noteq> [] then ip @ '':'' @ take 16 key else ip)"

definition rate_allowed :: "gate_config \<Rightarrow> rat \<Rightarrow> string \<Rightarrow> rate_buckets \<Rightarrow> rate_buckets \<times> bool \<times> int" where
  "rate_allowed cfg now identity tbl =
     (if API_RATE_LIMIT cfg \<le> 0 then (tbl, True, 0)
      else (case rate_increment RATE_WINDOW_SECONDS identity now tbl of (tbl1, count, remaining) \<Rightarrow>
        if API_RATE_BURST cfg < int count then (tbl1, False, max 1 (\<lfloor>remaining\<rfloor> + 1))
        else (rate_cleanup tbl1, True, 0)))"

fun gate_run :: "gate_config \<Rightarrow> (rat \<times> string) list \<Rightarrow> rate_buckets \<Rightarrow> rate_buckets \<times> bool list" where
  "gate_run cfg [] tbl = (tbl, [])"
| "gate_run cfg ((now, identity) # rs) tbl =
     (case rate_allowed cfg now identity tbl of (tbl1, ok, _) \<Rightarrow>
      case gate_run cfg rs tbl1 of (tbl2, oks) \<Rightarrow> (tbl2, ok # oks))"

lemma gate_run_append:
  "gate_run cfg (rs @ ss) tbl =
     (case gate_run cfg rs tbl of (tbl1, oks) \<Rightarrow> case gate_run cfg ss tbl1 of (tbl2, oks') \<Rightarrow> (tbl2, oks @ oks'))"
  by (induction cfg rs tbl rule: gate_run.induct) (auto split: prod.splits)

section \<open>Windows\<close>

lemma allowed_in_window:
  assumes "0 < API_RATE_LIMIT cfg" "int (Suc n) \<le> API_RATE_BURST cfg" "now - start < 60"
  shows "rate_allowed cfg now c [(c, start, n)] = ([(c, start, Suc n)], True, 0)"
  using assms by (simp add: rate_allowed_def rate_increment_def RATE_WINDOW_SECONDS_def rate_cleanup_def)

lemma run_in_window:
  assumes "0 < API_RATE_LIMIT cfg" "int (n + m) \<le> API_RATE_BURST cfg" "now - start < 60"
  shows "gate_run cfg (replicate m (now, c)) [(c, start, n)] = ([(c, start, n + m)], replicate m True)"
  using assms(2)
proof (induction m arbitrary: n)
  case (Suc m)
  then show ?case using allowed_in_window [OF assms(1) _ assms(3), of n c] by simp
qed simp

lemma first_of_window:
  assumes "0 < API_RATE_LIMIT cfg" "1 \<le> API_RATE_BURST cfg" "60 \<le> now - start"
  shows "rate_allowed cfg now c [(c, start, n)] = ([(c, now, Suc 0)], True, 0)"
  using assms by (simp add: rate_allowed_def rate_increment_def RATE_WINDOW_SECONDS_def rate_cleanup_def)

text \<open>The window does not slide: one request opens it, and close to its end and right
  after it a client passes twice the burst less one request within a second.\<close>

theorem twice_the_burst_at_the_border:
  assumes "0 < API_RATE_LIMIT cfg" "API_RATE_BURST cfg = int (Suc b)"
  shows "snd (gate_run cfg ((t, c) # replicate b (t + 59, c) @ replicate (Suc b) (t + 60, c)) [])
     = replicate (2 * Suc b) True"
proof -
  have 1: "rate_allowed cfg t c [] = ([(c, t, Suc 0)], True, 0)"
    using assms by (simp add: rate_allowed_def rate_increment_def RATE_WINDOW_SECONDS_def rate_cleanup_def)
  have 2: "gate_run cfg (replicate b (t + 59, c)) [(c, t, Suc 0)] = ([(c, t, Suc b)], replicate b True)"
    using run_in_window [OF assms(1), of "Suc 0" b "t + 59" t c] assms(2) by simp
  have 3: "rate_allowed cfg (t + 60) c [(c, t, Suc b)] = ([(c, t + 60, Suc 0)], True, 0)"
    by (rule first_of_window [OF assms(1)]) (simp_all add: assms(2))
  have 4: "gate_run cfg (replicate b (t + 60, c)) [(c, t + 60, Suc 0)] = ([(c, t + 60, Suc b)], replicate b True)"
    using run_in_window [OF assms(1), of "Suc 0" b "t + 60" "t + 60" c] assms(2) by simp
  have "snd (gate_run cfg ((t, c) # replicate b (t + 59, c) @ replicate (Suc b) (t + 60, c)) [])
      = replicate (Suc b) True @ replicate (Suc b) True"
    by (simp add: 1 2 3 4 gate_run_append)
  then show ?thesis by (simp only: mult_2 replicate_add)
qed

lemma twice_the_burst_at_the_border_witness:
  "snd (gate_run \<lparr>API_RATE_LIMIT = 600, API_RATE_BURST = 900\<rparr>
     ((0, ''10.0.0.1'') # replicate 899 (0 + 59, ''10.0.0.1'') @ replicate (Suc 899) (0 + 60, ''10.0.0.1'')) [])
   = replicate (2 * Suc 899) True"
  by (rule twice_the_burst_at_the_border) simp_all

section \<open>Identities\<close>

text \<open>The key of a request is part of its identity, whatever the key is: two keys that
  differ in their first sixteen characters give two counters to one address, although the
  address is there to prevent this.\<close>

theorem spoofed_keys_count_apart:
  assumes "k \<noteq> []" "k' \<noteq> []"
  shows "client_identity ip (Some k) auth = client_identity ip (Some k') auth' \<longleftrightarrow> take 16 k = take 16 k'"
  using assms by (auto simp: client_identity_def str_or_def)

lemma spoofed_keys_count_apart_witness:
  "client_identity ''10.0.0.1'' (Some ''a'') None \<noteq> client_identity ''10.0.0.1'' (Some ''b'') None"
  using spoofed_keys_count_apart [of "''a''" "''b''" "''10.0.0.1''" None None] by simp

end
