(* ===== verification/Login_Guard.thy ===== *)
theory Login_Guard
  imports Py_Dec Sliding_Window "HOL-Library.AList"
begin

text \<open>
  The limits in front of the login (\<open>backend/redis.py\<close>, \<open>backend/api/auth.py\<close>) on a single
  node, where no Redis is configured and the counters are dictionaries of the process.  The
  check of the password, of the challenge and of the code are answers from outside.  The
  clock is monotonic; its differences are taken as exact.
\<close>

section \<open>Counters of failures\<close>

type_synonym failures = "(string \<times> rat list) list"

definition failures_of :: "failures \<Rightarrow> string \<Rightarrow> rat list" where
  "failures_of tbl key = (case map_of tbl key of None \<Rightarrow> [] | Some ts \<Rightarrow> ts)"

definition lockout_check :: "failures \<Rightarrow> string \<Rightarrow> nat \<Rightarrow> rat \<Rightarrow> rat \<Rightarrow> bool \<times> rat" where
  "lockout_check tbl key max_attempts window now =
     (let fs = filter (\<lambda>t. now - t < window) (failures_of tbl key) in
      if max_attempts \<le> length fs then (True, window - (now - hd fs)) else (False, 0))"

definition oldest :: "rat list \<Rightarrow> rat" where
  "oldest ts = (case ts of [] \<Rightarrow> 0 | t # _ \<Rightarrow> t)"

text \<open>Beyond ten thousand keys the older half is dropped.\<close>

definition evict :: "failures \<Rightarrow> failures" where
  "evict tbl =
     (if 10000 < length tbl
      then let gone = map fst (take (length tbl div 2) (sort_key (\<lambda>kv. oldest (snd kv)) tbl))
           in filter (\<lambda>kv. fst kv \<notin> set gone) tbl
      else tbl)"

definition lockout_record :: "rat \<Rightarrow> string \<Rightarrow> failures \<Rightarrow> failures" where
  "lockout_record now key tbl = evict (AList.update key (failures_of tbl key @ [now]) tbl)"

definition lockout_clear :: "string \<Rightarrow> failures \<Rightarrow> failures" where
  "lockout_clear key tbl = AList.delete key tbl"

section \<open>Login and second factor\<close>

record guard =
  gd_lockout :: failures
  gd_account :: failures

definition LOGIN_MAX_ATTEMPTS :: nat where "LOGIN_MAX_ATTEMPTS = 5"
definition LOGIN_WINDOW_SECONDS :: rat where "LOGIN_WINDOW_SECONDS = 300"
definition ACCOUNT_MAX_ATTEMPTS :: nat where "ACCOUNT_MAX_ATTEMPTS = 10"
definition ACCOUNT_LOCKOUT_SECONDS :: rat where "ACCOUNT_LOCKOUT_SECONDS = 600"

definition ip_key :: "string \<Rightarrow> string" where
  "ip_key ip = ''ip:'' @ ip"

definition ip_locked :: "rat \<Rightarrow> string \<Rightarrow> guard \<Rightarrow> bool" where
  "ip_locked now ip g = fst (lockout_check (gd_lockout g) (ip_key ip) LOGIN_MAX_ATTEMPTS LOGIN_WINDOW_SECONDS now)"

definition account_locked :: "rat \<Rightarrow> string \<Rightarrow> guard \<Rightarrow> bool" where
  "account_locked now username g =
     fst (lockout_check (gd_account g) (py_lower username) ACCOUNT_MAX_ATTEMPTS ACCOUNT_LOCKOUT_SECONDS now)"

definition record_login_failure :: "rat \<Rightarrow> string \<Rightarrow> string \<Rightarrow> guard \<Rightarrow> guard" where
  "record_login_failure now ip username g =
     g\<lparr>gd_lockout := lockout_record now (ip_key ip) (gd_lockout g),
       gd_account := (if username = [] then gd_account g else lockout_record now (py_lower username) (gd_account g))\<rparr>"

definition clear_login_rate_limit :: "string \<Rightarrow> string \<Rightarrow> guard \<Rightarrow> guard" where
  "clear_login_rate_limit ip username g =
     g\<lparr>gd_lockout := lockout_clear (ip_key ip) (gd_lockout g),
       gd_account := (if username = [] then gd_account g else lockout_clear (py_lower username) (gd_account g))\<rparr>"

datatype login_answer = TooMany | Unauthorized | Challenge | Granted

text \<open>\<open>password_ok\<close>: the user exists and the password, here or by LDAP, is right.\<close>

definition login :: "rat \<Rightarrow> string \<Rightarrow> string \<Rightarrow> bool \<Rightarrow> bool \<Rightarrow> bool \<Rightarrow> guard \<Rightarrow> guard \<times> login_answer" where
  "login now ip body_username password_ok active totp g =
     (let username = py_strip body_username in
      if ip_locked now ip g then (g, TooMany)
      else if account_locked now username g then (g, TooMany)
      else if \<not> password_ok then (record_login_failure now ip username g, Unauthorized)
      else if \<not> active then (record_login_failure now ip username g, Unauthorized)
      else (clear_login_rate_limit ip username g, if totp then Challenge else Granted))"

text \<open>\<open>sub\<close> is the name in the challenge (empty without one), \<open>username\<close> that of the account.\<close>

definition mfa_verify ::
  "rat \<Rightarrow> string \<Rightarrow> bool \<Rightarrow> string \<Rightarrow> bool \<Rightarrow> string \<Rightarrow> bool \<Rightarrow> guard \<Rightarrow> guard \<times> login_answer" where
  "mfa_verify now ip challenge_ok sub user_ok username code_ok g =
     (if ip_locked now ip g then (g, TooMany)
      else if \<not> challenge_ok then (record_login_failure now ip sub g, Unauthorized)
      else if \<not> user_ok then (record_login_failure now ip sub g, Unauthorized)
      else if \<not> code_ok then (record_login_failure now ip username g, Unauthorized)
      else (clear_login_rate_limit ip username g, Granted))"

text \<open>The registration asks the same counter of the address, and never adds to it.\<close>

definition register_allowed :: "rat \<Rightarrow> string \<Rightarrow> guard \<Rightarrow> bool" where
  "register_allowed now ip g \<longleftrightarrow> \<not> ip_locked now ip g"

text \<open>Sequences of requests.\<close>

datatype auth_request =
    Login rat string string bool bool bool
  | Verify rat string bool string bool string bool

fun auth_step :: "auth_request \<Rightarrow> guard \<Rightarrow> guard \<times> login_answer" where
  "auth_step (Login now ip username password_ok active totp) g = login now ip username password_ok active totp g"
| "auth_step (Verify now ip challenge_ok sub user_ok username code_ok) g =
     mfa_verify now ip challenge_ok sub user_ok username code_ok g"

fun auth_run :: "guard \<Rightarrow> auth_request list \<Rightarrow> guard \<times> login_answer list" where
  "auth_run g [] = (g, [])"
| "auth_run g (r # rs) = (case auth_step r g of (g1, a) \<Rightarrow> case auth_run g1 rs of (g2, as) \<Rightarrow> (g2, a # as))"

definition empty_guard :: guard where
  "empty_guard = \<lparr>gd_lockout = [], gd_account = []\<rparr>"

section \<open>Guessing a password\<close>

lemma failures_record:
  assumes "length tbl < 10000"
  shows "failures_of (lockout_record now key tbl) k = (if k = key then failures_of tbl key @ [now] else failures_of tbl k)"
    "length (lockout_record now key tbl) \<le> Suc (length tbl)"
proof -
  have n: "length (AList.update key v tbl) \<le> Suc (length tbl)" for v by (induction tbl) auto
  then have "\<not> 10000 < length (AList.update key v tbl)" for v using assms n [of v] by linarith
  then have e: "lockout_record now key tbl = AList.update key (failures_of tbl key @ [now]) tbl"
    by (simp add: lockout_record_def evict_def)
  show "failures_of (lockout_record now key tbl) k = (if k = key then failures_of tbl key @ [now] else failures_of tbl k)"
    unfolding e by (simp add: failures_of_def update_conv')
  show "length (lockout_record now key tbl) \<le> Suc (length tbl)" unfolding e by (rule n)
qed

interpretation lgw: sliding_window failures_of "\<lambda>now key tbl. fst (lockout_check tbl key most window now)"
  lockout_record "\<lambda>tbl. length tbl < 10000" most window for most window
  by unfold_locales (simp_all add: failures_record lockout_check_def Let_def less_diff_eq diff_less_eq add.commute)

text \<open>Wrong passwords: time, address and name of each request; the times of those that were
  checked against the account, or came from the address.\<close>

type_synonym guess = "rat \<times> string \<times> string"

definition guesses :: "guess list \<Rightarrow> auth_request list" where
  "guesses gs = map (\<lambda>(now, ip, username). Login now ip username False True False) gs"

definition checked_times :: "(guess \<Rightarrow> bool) \<Rightarrow> guess list \<Rightarrow> login_answer list \<Rightarrow> rat list" where
  "checked_times P gs as = map (fst \<circ> fst) (filter (\<lambda>(g, a). a = Unauthorized \<and> P g) (zip gs as))"

definition names_account :: "string \<Rightarrow> guess \<Rightarrow> bool" where
  "names_account account = (\<lambda>(_, _, username). py_strip username \<noteq> [] \<and> py_lower (py_strip username) = account)"

definition comes_from :: "string \<Rightarrow> guess \<Rightarrow> bool" where
  "comes_from address = (\<lambda>(_, ip, _). ip = address)"

definition bounded_guard :: "guard \<Rightarrow> bool" where
  "bounded_guard g \<longleftrightarrow> lgw.bounded LOGIN_MAX_ATTEMPTS LOGIN_WINDOW_SECONDS (gd_lockout g)
     \<and> lgw.bounded ACCOUNT_MAX_ATTEMPTS ACCOUNT_LOCKOUT_SECONDS (gd_account g)"

lemma wrong_login:
  assumes "bounded_guard g" "length (gd_lockout g) < 10000" "length (gd_account g) < 10000"
    "login now ip u False True False g = (g1, a)"
  shows "bounded_guard g1" "length (gd_lockout g1) \<le> Suc (length (gd_lockout g))"
    "length (gd_account g1) \<le> Suc (length (gd_account g))"
    "failures_of (gd_lockout g1) (ip_key j) = failures_of (gd_lockout g) (ip_key j) @ (if a = Unauthorized \<and> ip = j then [now] else [])"
    "failures_of (gd_account g1) k = failures_of (gd_account g) k
       @ (if a = Unauthorized \<and> py_strip u \<noteq> [] \<and> py_lower (py_strip u) = k then [now] else [])"
proof -
  note r = failures_record [OF assms(2)] failures_record [OF assms(3)]
  note b = lgw.bounded_record [OF _ assms(2)] lgw.bounded_record [OF _ assms(3)]
  consider "g1 = g" "a = TooMany" | "a = Unauthorized" "g1 = record_login_failure now ip (py_strip u) g"
      "\<not> ip_locked now ip g" "\<not> account_locked now (py_strip u) g"
    using assms(4) by (auto simp: login_def Let_def split: if_splits)
  note c = this
  show "bounded_guard g1"
    using c assms(1) b by cases (auto simp: bounded_guard_def record_login_failure_def ip_locked_def account_locked_def)
  show "length (gd_lockout g1) \<le> Suc (length (gd_lockout g))" "length (gd_account g1) \<le> Suc (length (gd_account g))"
    using c r by (cases; simp add: record_login_failure_def)+
  show "failures_of (gd_lockout g1) (ip_key j) = failures_of (gd_lockout g) (ip_key j) @ (if a = Unauthorized \<and> ip = j then [now] else [])"
    using c by cases (auto simp: record_login_failure_def r ip_key_def)
  show "failures_of (gd_account g1) k = failures_of (gd_account g) k
      @ (if a = Unauthorized \<and> py_strip u \<noteq> [] \<and> py_lower (py_strip u) = k then [now] else [])"
    using c by cases (auto simp: record_login_failure_def r)
qed

lemma guess_run:
  assumes "bounded_guard g" "length (gd_lockout g) + length gs \<le> 10000" "length (gd_account g) + length gs \<le> 10000"
    "auth_run g (guesses gs) = (g', as)"
  shows "bounded_guard g' \<and> failures_of (gd_lockout g') (ip_key j) = failures_of (gd_lockout g) (ip_key j) @ checked_times (comes_from j) gs as
     \<and> failures_of (gd_account g') k = failures_of (gd_account g) k @ checked_times (names_account k) gs as"
  using assms
proof (induction gs arbitrary: g as)
  case Nil
  then show ?case by (simp add: guesses_def checked_times_def)
next
  case (Cons x gs)
  obtain now ip u where x: "x = (now, ip, u)" by (cases x)
  obtain g1 a where 1: "login now ip u False True False g = (g1, a)" by fastforce
  obtain bs where 2: "auth_run g1 (guesses gs) = (g', bs)" "as = a # bs"
    using Cons.prems(4) 1 by (auto simp: guesses_def x split: prod.splits)
  have len: "length (gd_lockout g) < 10000" "length (gd_account g) < 10000" using Cons.prems(2,3) by auto
  note w = wrong_login [OF Cons.prems(1) len 1]
  show ?case
    using Cons.IH [OF w(1) _ _ 2(1)] Cons.prems(2,3) w(2-5)
    by (auto simp: 2(2) x checked_times_def comes_from_def names_account_def)
qed

text \<open>C22: however an attacker spreads ten thousand wrong passwords over time, addresses and
  spellings of the name, in any ten minutes at most ten are checked against one account, and
  in any five minutes at most five from one address.\<close>

theorem password_guesses_bounded:
  assumes "length gs \<le> 10000"
  shows "length (filter (\<lambda>t. u - 600 < t \<and> t \<le> u) (checked_times (names_account k) gs (snd (auth_run empty_guard (guesses gs))))) \<le> 10
    \<and> length (filter (\<lambda>t. u - 300 < t \<and> t \<le> u) (checked_times (comes_from j) gs (snd (auth_run empty_guard (guesses gs))))) \<le> 5"
proof -
  obtain g as where run: "auth_run empty_guard (guesses gs) = (g, as)" by fastforce
  have "bounded_guard empty_guard"
    by (simp add: bounded_guard_def empty_guard_def lgw.bounded_empty failures_of_def)
  from guess_run [OF this _ _ run] assms have "bounded_guard g"
    "failures_of (gd_lockout g) (ip_key j) = checked_times (comes_from j) gs as"
    "failures_of (gd_account g) k = checked_times (names_account k) gs as"
    by (auto simp: empty_guard_def failures_of_def)
  then show ?thesis
    using lgw.boundedD [of LOGIN_MAX_ATTEMPTS LOGIN_WINDOW_SECONDS "gd_lockout g" u "ip_key j"]
      lgw.boundedD [of ACCOUNT_MAX_ATTEMPTS ACCOUNT_LOCKOUT_SECONDS "gd_account g" u k]
    by (simp add: run bounded_guard_def window_count_def LOGIN_MAX_ATTEMPTS_def LOGIN_WINDOW_SECONDS_def
        ACCOUNT_MAX_ATTEMPTS_def ACCOUNT_LOCKOUT_SECONDS_def)
qed

lemma password_guesses_bounded_witness:
  "length (filter (\<lambda>t. 100 - 600 < t \<and> t \<le> 100) (checked_times (names_account ''root'')
     (map (\<lambda>i. (of_nat i, dec i, ''root'')) [0..<50])
     (snd (auth_run empty_guard (guesses (map (\<lambda>i. (of_nat i, dec i, ''root'')) [0..<50])))))) \<le> 10"
  by (rule password_guesses_bounded [THEN conjunct1]) simp

section \<open>Guessing a code\<close>

text \<open>Who knows the password: one login, one wrong code, and again.\<close>

definition code_guess :: "string \<Rightarrow> string \<Rightarrow> rat \<Rightarrow> auth_request list" where
  "code_guess ip user now = [Login now ip user True True True, Verify now ip True user True user False]"

lemma login_clears:
  assumes "py_strip user = user" "user \<noteq> []"
    "g \<in> {empty_guard, \<lparr>gd_lockout = [(ip_key ip, [t])], gd_account = [(py_lower user, [t])]\<rparr>}"
  shows "login now ip user True True True g = (empty_guard, Challenge)"
  using assms by (auto simp: login_def ip_locked_def account_locked_def lockout_check_def failures_of_def
      clear_login_rate_limit_def lockout_clear_def empty_guard_def LOGIN_MAX_ATTEMPTS_def ACCOUNT_MAX_ATTEMPTS_def Let_def split: if_splits)

lemma code_guess_step:
  assumes "py_strip user = user" "user \<noteq> []"
  shows "mfa_verify now ip True user True user False empty_guard
     = (\<lparr>gd_lockout = [(ip_key ip, [now])], gd_account = [(py_lower user, [now])]\<rparr>, Unauthorized)"
  using assms by (simp add: mfa_verify_def ip_locked_def lockout_check_def failures_of_def record_login_failure_def
      lockout_record_def evict_def empty_guard_def LOGIN_MAX_ATTEMPTS_def Let_def)

text \<open>C29: the password alone clears the counters of the address and of the account, before the
  second factor is asked: whoever knows the password can try codes from one address without
  ever being locked out by these counters, whatever the times of the attempts.  (The gate in
  front of all requests, \<open>Rate_Gate\<close>, lies outside: it limits every client alike.)\<close>

theorem second_factor_unlimited:
  assumes "py_strip user = user" "user \<noteq> []"
  shows "snd (auth_run empty_guard (concat (map (code_guess ip user) ts)))
     = concat (map (\<lambda>t. [Challenge, Unauthorized]) ts)"
proof -
  have "snd (auth_run g (concat (map (code_guess ip user) ts))) = concat (map (\<lambda>t. [Challenge, Unauthorized]) ts)"
    if "g \<in> {empty_guard, \<lparr>gd_lockout = [(ip_key ip, [t])], gd_account = [(py_lower user, [t])]\<rparr>}" for g t
    using that
  proof (induction ts arbitrary: g t)
    case (Cons now ts)
    show ?case
      using login_clears [OF assms Cons.prems, of now] code_guess_step [OF assms, of now ip]
        Cons.IH [of "\<lparr>gd_lockout = [(ip_key ip, [now])], gd_account = [(py_lower user, [now])]\<rparr>" now]
      by (auto simp: code_guess_def split: prod.split)
  qed simp
  from this [of empty_guard] show ?thesis by simp
qed

lemma second_factor_unlimited_witness:
  "TooMany \<notin> set (snd (auth_run empty_guard (concat (map (code_guess ''10.0.0.9'' ''root'') (replicate 1000 0)))))"
proof -
  have "py_strip ''root'' = ''root''" by (simp add: py_strip_def is_space_def)
  from second_factor_unlimited [OF this list.distinct(2), of "''10.0.0.9''" "replicate 1000 0"]
  have "snd (auth_run empty_guard (concat (map (code_guess ''10.0.0.9'' ''root'') (replicate 1000 0))))
      = concat (map (\<lambda>t. [Challenge, Unauthorized]) (replicate 1000 (0 :: rat)))" .
  moreover have "TooMany \<notin> set (concat (map (\<lambda>t. [Challenge, Unauthorized]) ts))" for ts :: "rat list" by auto
  ultimately show ?thesis by metis
qed

end
