(* ===== verification/Audit_Chain.thy ===== *)
theory Audit_Chain
  imports Prelude "HOL-Library.Countable"
begin

text \<open>
  The audit trail of the program (\<open>backend/audit.py\<close>, the table \<open>audit_log\<close> of
  \<open>backend/database/models.py\<close>): rows chained by a digest.  \<open>H\<close> is SHA-256 in hexadecimal and
  \<open>stamp\<close> prints an instant in UTC without its microseconds.
\<close>

section \<open>Entries\<close>

record audit_entry =
  ae_id :: nat
  ae_actor :: string
  ae_action :: string
  ae_entity_type :: string
  ae_entity_id :: string
  ae_detail :: string
  ae_ip :: string
  ae_created_at :: time
  ae_prev_hash :: string
  ae_hash :: string

definition GENESIS_HASH :: string where
  "GENESIS_HASH = replicate 64 (CHR ''0'')"

text \<open>The text of an entry after a given hash; \<open>canonical\<close> takes the stored one.\<close>

definition chain_text :: "(time \<Rightarrow> string) \<Rightarrow> string \<Rightarrow> audit_entry \<Rightarrow> string" where
  "chain_text stamp prev e = join ''|'' [prev, ae_actor e, ae_action e, ae_entity_type e, ae_entity_id e,
     ae_detail e, ae_ip e, stamp (ae_created_at e)]"

definition canonical :: "(time \<Rightarrow> string) \<Rightarrow> audit_entry \<Rightarrow> string" where
  "canonical stamp e = chain_text stamp (ae_prev_hash e) e"

section \<open>Writing\<close>

record audit_table =
  at_rows :: "audit_entry list"
  at_seq :: nat
  at_write_failures :: nat

text \<open>The last hash, as a writer reads it.\<close>

definition read_prev :: "audit_table \<Rightarrow> string" where
  "read_prev db = (if at_rows db = [] then GENESIS_HASH else str_or (ae_hash (last (at_rows db))) GENESIS_HASH)"

definition new_entry ::
  "(string \<Rightarrow> string) \<Rightarrow> (time \<Rightarrow> string) \<Rightarrow> string \<Rightarrow> time \<Rightarrow> string \<Rightarrow> string \<Rightarrow> string \<Rightarrow> string \<Rightarrow> string \<Rightarrow> string
    \<Rightarrow> audit_entry" where
  "new_entry H stamp prev now actor action entity_type entity_id detail ip =
     (let e = \<lparr>ae_id = 0, ae_actor = take 64 actor, ae_action = take 64 action, ae_entity_type = take 32 entity_type,
        ae_entity_id = take 64 entity_id, ae_detail = take 2000 detail, ae_ip = take 64 ip, ae_created_at = now,
        ae_prev_hash = prev, ae_hash = []\<rparr>
      in e\<lparr>ae_hash := H (canonical stamp e)\<rparr>)"

definition insert_entry :: "audit_entry \<Rightarrow> audit_table \<Rightarrow> audit_table" where
  "insert_entry e db = db\<lparr>at_rows := at_rows db @ [e\<lparr>ae_id := Suc (at_seq db)\<rparr>], at_seq := Suc (at_seq db)\<rparr>"

definition record_failure :: "audit_table \<Rightarrow> audit_table" where
  "record_failure db = db\<lparr>at_write_failures := Suc (at_write_failures db)\<rparr>"

text \<open>\<open>log_action\<close>; \<open>committed\<close> tells whether the database accepted the row, \<open>forwarded\<close> whether the
  copy for the system log could be sent.\<close>

definition log_action ::
  "(string \<Rightarrow> string) \<Rightarrow> (time \<Rightarrow> string) \<Rightarrow> bool \<Rightarrow> bool \<Rightarrow> time \<Rightarrow> string \<Rightarrow> string \<Rightarrow> string \<Rightarrow> string \<Rightarrow> string \<Rightarrow> string
    \<Rightarrow> audit_table \<Rightarrow> audit_table \<times> audit_entry option" where
  "log_action H stamp committed forwarded now actor action entity_type entity_id detail ip db =
     (let e = new_entry H stamp (read_prev db) now actor action entity_type entity_id detail ip in
      if committed then ((if forwarded then insert_entry e db else record_failure (insert_entry e db)), Some (e\<lparr>ae_id := Suc (at_seq db)\<rparr>))
      else (record_failure db, None))"

section \<open>Verifying\<close>

fun first_broken :: "(string \<Rightarrow> string) \<Rightarrow> (time \<Rightarrow> string) \<Rightarrow> string \<Rightarrow> audit_entry list \<Rightarrow> nat option" where
  "first_broken H stamp prev [] = None"
| "first_broken H stamp prev (e # es) =
     (if ae_hash e \<noteq> H (chain_text stamp prev e) then Some (ae_id e) else first_broken H stamp (ae_hash e) es)"

record chain_report =
  cr_ok :: bool
  cr_checked :: nat
  cr_broken_at :: "nat option"

definition verify_chain :: "(string \<Rightarrow> string) \<Rightarrow> (time \<Rightarrow> string) \<Rightarrow> audit_table \<Rightarrow> chain_report" where
  "verify_chain H stamp db = (let b = first_broken H stamp GENESIS_HASH (at_rows db) in
     \<lparr>cr_ok = (b = None), cr_checked = length (at_rows db), cr_broken_at = b\<rparr>)"

section \<open>Chains\<close>

definition chain_ok :: "(string \<Rightarrow> string) \<Rightarrow> (time \<Rightarrow> string) \<Rightarrow> string \<Rightarrow> audit_entry list \<Rightarrow> bool" where
  "chain_ok H stamp prev es \<longleftrightarrow> first_broken H stamp prev es = None"

definition end_hash :: "string \<Rightarrow> audit_entry list \<Rightarrow> string" where
  "end_hash prev es = (if es = [] then prev else ae_hash (last es))"

lemma verify_ok: "cr_ok (verify_chain H stamp db) \<longleftrightarrow> chain_ok H stamp GENESIS_HASH (at_rows db)"
  by (simp add: verify_chain_def chain_ok_def Let_def)

lemma chain_ok_append:
  "chain_ok H stamp prev (es @ fs) \<longleftrightarrow> chain_ok H stamp prev es \<and> chain_ok H stamp (end_hash prev es) fs"
  by (induction es arbitrary: prev) (simp_all add: chain_ok_def end_hash_def)

lemma chain_ok_single [simp]: "chain_ok H stamp prev [e] \<longleftrightarrow> ae_hash e = H (chain_text stamp prev e)"
  by (simp add: chain_ok_def)

lemma chain_ok_Nil [simp]: "chain_ok H stamp prev []"
  by (simp add: chain_ok_def)

lemma end_hash_simps [simp]: "end_hash prev [] = prev" "end_hash prev (es @ [e]) = ae_hash e"
  by (simp_all add: end_hash_def)

lemma read_prev_end: "(\<And>s. H s \<noteq> []) \<Longrightarrow> chain_ok H stamp GENESIS_HASH (at_rows db) \<Longrightarrow> read_prev db = end_hash GENESIS_HASH (at_rows db)"
  by (cases "at_rows db" rule: rev_cases) (auto simp: read_prev_def str_or_def chain_ok_append)

lemma chain_text_id [simp]: "chain_text stamp prev (e\<lparr>ae_id := i\<rparr>) = chain_text stamp prev e"
  by (simp add: chain_text_def)

lemma new_entry_chain_ok:
  "ae_hash (new_entry H stamp prev now actor action ty i detail ip)
     = H (chain_text stamp prev (new_entry H stamp prev now actor action ty i detail ip))"
  by (simp add: new_entry_def canonical_def chain_text_def Let_def)

text \<open>What is assumed of the digest: two texts have two digests, a digest is not empty, is not
  the genesis value and has no separator in it.\<close>

definition digest :: "(string \<Rightarrow> string) \<Rightarrow> bool" where
  "digest H \<longleftrightarrow> inj H \<and> (\<forall>s. H s \<noteq> []) \<and> (\<forall>s. H s \<noteq> GENESIS_HASH) \<and> (\<forall>s. CHR ''|'' \<notin> set (H s))"

text \<open>The texts of one after the other, each with the hash before it.\<close>

fun chain_texts :: "(time \<Rightarrow> string) \<Rightarrow> string \<Rightarrow> audit_entry list \<Rightarrow> string list" where
  "chain_texts stamp prev [] = []"
| "chain_texts stamp prev (e # es) = chain_text stamp prev e # chain_texts stamp (ae_hash e) es"

lemma chain_texts_append:
  "chain_texts stamp prev (es @ fs) = chain_texts stamp prev es @ chain_texts stamp (end_hash prev es) fs"
  by (induction es arbitrary: prev) (simp_all add: end_hash_def)

lemma append_sep_eq: "s @ c # x = t @ c # y \<Longrightarrow> c \<notin> set s \<Longrightarrow> c \<notin> set t \<Longrightarrow> s = t"
  by (induction s arbitrary: t) (case_tac t; auto)+

lemma chain_text_prev:
  assumes "chain_text stamp p e = chain_text stamp q f" "CHR ''|'' \<notin> set p" "CHR ''|'' \<notin> set q"
  shows "p = q"
  using append_sep_eq [of p "CHR ''|''" _ q] assms by (simp add: chain_text_def)

lemma end_hash_clean: "digest H \<Longrightarrow> chain_ok H stamp GENESIS_HASH es \<Longrightarrow> CHR ''|'' \<notin> set (end_hash GENESIS_HASH es)"
  by (cases es rule: rev_cases) (auto simp: digest_def chain_ok_append GENESIS_HASH_def)

lemma chains_determined:
  assumes "digest H" "chain_ok H stamp GENESIS_HASH es" "chain_ok H stamp GENESIS_HASH fs"
    "end_hash GENESIS_HASH es = end_hash GENESIS_HASH fs"
  shows "chain_texts stamp GENESIS_HASH es = chain_texts stamp GENESIS_HASH fs"
  using assms(2-4)
proof (induction es arbitrary: fs rule: rev_induct)
  case Nil
  then show ?case using assms(1) by (cases fs rule: rev_cases) (auto simp: chain_ok_append digest_def, metis)
next
  case (snoc e es)
  show ?case
  proof (cases fs rule: rev_cases)
    case Nil
    then show ?thesis using snoc.prems assms(1) by (auto simp: chain_ok_append digest_def)
  next
    case (snoc gs f)
    let ?p = "end_hash GENESIS_HASH es" and ?q = "end_hash GENESIS_HASH gs"
    have c: "chain_ok H stamp GENESIS_HASH es" "chain_ok H stamp GENESIS_HASH gs"
      and "H (chain_text stamp ?p e) = H (chain_text stamp ?q f)"
      using snoc.prems snoc by (auto simp: chain_ok_append)
    then have t: "chain_text stamp ?p e = chain_text stamp ?q f" using assms(1) by (simp add: digest_def inj_eq)
    have "?p = ?q" using chain_text_prev [OF t] end_hash_clean [OF assms(1)] c by blast
    then show ?thesis using snoc.IH [OF c] t snoc by (simp add: chain_texts_append)
  qed
qed

section \<open>What the chain gives\<close>

text \<open>A trail written by one writer at a time.\<close>

inductive logged :: "(string \<Rightarrow> string) \<Rightarrow> (time \<Rightarrow> string) \<Rightarrow> audit_table \<Rightarrow> audit_table \<Rightarrow> bool"
  for H stamp where
  log_step: "logged H stamp db (fst (log_action H stamp committed forwarded now actor action ty i detail ip db))"

lemma log_action_chain_ok:
  assumes "\<And>s. H s \<noteq> []" "chain_ok H stamp GENESIS_HASH (at_rows db)"
  shows "chain_ok H stamp GENESIS_HASH (at_rows (fst (log_action H stamp committed forwarded now actor action ty i detail ip db)))"
  using assms read_prev_end [OF assms]
  by (simp add: log_action_def insert_entry_def record_failure_def chain_ok_append new_entry_chain_ok Let_def)

lemma log_action_rows:
  "\<exists>f. at_rows (fst (log_action H stamp committed forwarded now actor action ty i detail ip db)) = at_rows db @ f"
  by (simp add: log_action_def insert_entry_def record_failure_def Let_def)

text \<open>A digest with the assumed properties, and a trail of two entries.\<close>

definition tally :: "string \<Rightarrow> string" where
  "tally s = replicate (Suc (to_nat s)) (CHR ''x'')"

lemma tally_digest: "digest tally"
proof -
  have "inj tally" by (rule injI) (metis Suc_inject from_nat_to_nat length_replicate tally_def)
  moreover have "tally s \<noteq> GENESIS_HASH" for s
  proof
    assume "tally s = GENESIS_HASH"
    then have "hd (tally s) = hd GENESIS_HASH" by simp
    then show False by (simp add: tally_def GENESIS_HASH_def)
  qed
  ultimately show ?thesis by (auto simp: digest_def tally_def)
qed

definition sample_trail :: "audit_table \<Rightarrow> audit_table" where
  "sample_trail db = fst (log_action tally (\<lambda>t. []) True True 2 ''bob'' ''login'' ''user'' ''2'' [] []
     (fst (log_action tally (\<lambda>t. []) True True 1 ''alice'' ''login'' ''user'' ''1'' [] [] db)))"

definition empty_trail :: audit_table where
  "empty_trail = \<lparr>at_rows = [], at_seq = 0, at_write_failures = 0\<rparr>"

lemma sample_logged: "(logged tally (\<lambda>t. []))\<^sup>*\<^sup>* empty_trail (sample_trail empty_trail)"
  unfolding sample_trail_def
  by (rule rtranclp.rtrancl_into_rtrancl, rule r_into_rtranclp, rule log_step, rule log_step)

lemma empty_trail_ok: "cr_ok (verify_chain H stamp empty_trail)"
  by (simp add: verify_ok empty_trail_def)

lemma tally_nonempty: "tally s \<noteq> []"
  by (simp add: tally_def)

lemma sample_trail_ok: "cr_ok (verify_chain tally (\<lambda>t. []) (sample_trail empty_trail))"
  unfolding verify_ok sample_trail_def
  by (intro log_action_chain_ok tally_nonempty) (simp add: empty_trail_def)

text \<open>C15: the trail that the program writes verifies, failed writes included: entries are only
  appended, each chained to the one before.\<close>

theorem written_trail_verifies:
  assumes "(logged H stamp)\<^sup>*\<^sup>* db db'" "\<And>s. H s \<noteq> []" "cr_ok (verify_chain H stamp db)"
  shows "cr_ok (verify_chain H stamp db') \<and> (\<exists>es. at_rows db' = at_rows db @ es)"
  using assms(1,3) unfolding verify_ok
proof (induction rule: rtranclp_induct)
  case (step v w)
  have v: "chain_ok H stamp GENESIS_HASH (at_rows v)" using step(3) [OF step(4)] by blast
  from step(2) have "chain_ok H stamp GENESIS_HASH (at_rows w) \<and> (\<exists>f. at_rows w = at_rows v @ f)"
  proof cases
    case (log_step committed forwarded now actor action ty i detail ip)
    show ?thesis unfolding log_step by (intro conjI log_action_chain_ok [OF assms(2) v] log_action_rows)
  qed
  then show ?case using step(3) [OF step(4)] by auto
qed simp

lemma written_trail_verifies_witness: "cr_ok (verify_chain tally (\<lambda>t. []) (sample_trail empty_trail))"
  using written_trail_verifies [OF sample_logged tally_nonempty empty_trail_ok] by blast

text \<open>C30: two trails that verify and end in the same hash hold, entry by entry, the same texts:
  against a hash that was kept elsewhere no entry can be edited, removed, added or moved.\<close>

theorem anchored_trail_is_fixed:
  assumes "digest H" "cr_ok (verify_chain H stamp db)" "cr_ok (verify_chain H stamp db')"
    "end_hash GENESIS_HASH (at_rows db) = end_hash GENESIS_HASH (at_rows db')"
  shows "chain_texts stamp GENESIS_HASH (at_rows db) = chain_texts stamp GENESIS_HASH (at_rows db')"
  by (rule chains_determined [OF assms(1) assms(2,3) [unfolded verify_ok] assms(4)])

lemma anchored_trail_is_fixed_witness:
  "chain_texts (\<lambda>t. []) GENESIS_HASH (at_rows (sample_trail empty_trail))
     = chain_texts (\<lambda>t. []) GENESIS_HASH (at_rows (sample_trail (empty_trail\<lparr>at_write_failures := 5\<rparr>)))"
proof -
  let ?db = "empty_trail\<lparr>at_write_failures := 5\<rparr>"
  have rows: "at_rows (sample_trail ?db) = at_rows (sample_trail empty_trail)"
    by (simp add: sample_trail_def log_action_def insert_entry_def empty_trail_def read_prev_def Let_def)
  then have ok: "cr_ok (verify_chain tally (\<lambda>t. []) (sample_trail ?db))" using sample_trail_ok by (simp add: verify_ok)
  from anchored_trail_is_fixed [OF tally_digest sample_trail_ok this] rows show ?thesis by simp
qed

text \<open>Nothing is kept elsewhere: after the newest entries are deleted, all of them if one
  likes, the trail still verifies.\<close>

theorem deleting_the_newest_is_unnoticed:
  assumes "cr_ok (verify_chain H stamp db)"
  shows "verify_chain H stamp (db\<lparr>at_rows := take n (at_rows db)\<rparr>)
     = \<lparr>cr_ok = True, cr_checked = min n (length (at_rows db)), cr_broken_at = None\<rparr>"
proof -
  have "chain_ok H stamp GENESIS_HASH (take n (at_rows db) @ drop n (at_rows db))" using assms by (simp add: verify_ok)
  then have "chain_ok H stamp GENESIS_HASH (take n (at_rows db))" unfolding chain_ok_append by simp
  then show ?thesis by (simp add: verify_chain_def chain_ok_def min.commute)
qed

lemma deleting_the_newest_is_unnoticed_witness:
  "cr_ok (verify_chain tally (\<lambda>t. []) ((sample_trail empty_trail)\<lparr>at_rows := []\<rparr>))"
  using deleting_the_newest_is_unnoticed [OF sample_trail_ok, of 0] by simp

text \<open>The fields are joined by a bar that they may hold themselves: text can be moved from
  the name of the actor to the action (or across any other border) without a trace.\<close>

theorem moved_border_is_unnoticed:
  assumes "ae_actor e = actor @ ''|'' @ rest"
  shows "verify_chain H stamp (db\<lparr>at_rows := es @ e\<lparr>ae_actor := actor, ae_action := rest @ ''|'' @ ae_action e\<rparr> # fs\<rparr>)
     = verify_chain H stamp (db\<lparr>at_rows := es @ e # fs\<rparr>)"
proof -
  define e' where "e' = e\<lparr>ae_actor := actor, ae_action := rest @ ''|'' @ ae_action e\<rparr>"
  have t: "chain_text stamp prev e' = chain_text stamp prev e" "ae_hash e' = ae_hash e" "ae_id e' = ae_id e" for prev
    using assms by (simp_all add: e'_def chain_text_def)
  have "first_broken H stamp prev (es @ e' # fs) = first_broken H stamp prev (es @ e # fs)" for prev
    by (induction es arbitrary: prev) (simp_all add: t)
  then show ?thesis unfolding e'_def [symmetric] by (simp add: verify_chain_def)
qed

section \<open>Two writers\<close>

lemma hash_not_repeated:
  assumes "digest H" "chain_ok H stamp GENESIS_HASH (es @ [e])"
  shows "ae_hash e \<noteq> end_hash GENESIS_HASH es"
proof
  assume "ae_hash e = end_hash GENESIS_HASH es"
  then have "chain_texts stamp GENESIS_HASH (es @ [e]) = chain_texts stamp GENESIS_HASH es"
    using chains_determined [OF assms(1,2), of es] assms(2) by (simp add: chain_ok_append)
  then show False by (simp add: chain_texts_append)
qed

text \<open>C31: the last hash is read without a lock: of two writers that read it before either has
  inserted, the second breaks the chain, and the trail is reported as tampered with although
  nobody touched it.\<close>

theorem concurrent_writers_break_chain:
  assumes "digest H" "cr_ok (verify_chain H stamp db)"
    "e1 = new_entry H stamp (read_prev db) t1 actor1 action1 ty1 i1 detail1 ip1"
    "e2 = new_entry H stamp (read_prev db) t2 actor2 action2 ty2 i2 detail2 ip2"
  shows "cr_broken_at (verify_chain H stamp (insert_entry e2 (insert_entry e1 db))) = Some (Suc (Suc (at_seq db)))"
proof -
  let ?rows = "at_rows db" and ?e1 = "e1\<lparr>ae_id := Suc (at_seq db)\<rparr>" and ?e2 = "e2\<lparr>ae_id := Suc (Suc (at_seq db))\<rparr>"
  have c: "chain_ok H stamp GENESIS_HASH ?rows" using assms(2) by (simp add: verify_ok)
  have p: "read_prev db = end_hash GENESIS_HASH ?rows"
    using read_prev_end [OF _ c] assms(1) by (simp add: digest_def)
  have c1: "chain_ok H stamp GENESIS_HASH (?rows @ [?e1])"
    using c p by (simp add: chain_ok_append assms(3) new_entry_chain_ok)
  have n: "ae_hash ?e1 \<noteq> end_hash GENESIS_HASH ?rows" by (rule hash_not_repeated [OF assms(1) c1])
  have "ae_hash ?e2 \<noteq> H (chain_text stamp (ae_hash ?e1) ?e2)"
  proof
    assume "ae_hash ?e2 = H (chain_text stamp (ae_hash ?e1) ?e2)"
    then have "chain_text stamp (read_prev db) e2 = chain_text stamp (ae_hash ?e1) e2"
      using assms(1) new_entry_chain_ok by (simp add: assms(4) digest_def inj_eq)
    from chain_text_prev [OF this] show False
      using n p end_hash_clean [OF assms(1) c] end_hash_clean [OF assms(1) c1] by simp
  qed
  moreover have "first_broken H stamp GENESIS_HASH ((?rows @ [?e1]) @ es) = first_broken H stamp (ae_hash ?e1) es" for es
  proof -
    have "first_broken H stamp prev (xs @ es) = first_broken H stamp (end_hash prev xs) es" if "chain_ok H stamp prev xs" for prev xs
      using that by (induction xs arbitrary: prev) (auto simp: chain_ok_def end_hash_def split: if_splits)
    from this [OF c1] show ?thesis by simp
  qed
  ultimately show ?thesis by (simp add: verify_chain_def insert_entry_def Let_def)
qed

lemma concurrent_writers_break_chain_witness:
  "cr_broken_at (verify_chain tally (\<lambda>t. [])
     (insert_entry (new_entry tally (\<lambda>t. []) (read_prev empty_trail) 1 ''bob'' ''login'' [] [] [] [])
       (insert_entry (new_entry tally (\<lambda>t. []) (read_prev empty_trail) 1 ''alice'' ''login'' [] [] [] []) empty_trail)))
   = Some 2"
  using concurrent_writers_break_chain [OF tally_digest empty_trail_ok refl refl] by (simp add: empty_trail_def)

end
