(* ===== verification/Approval.thy ===== *)
theory Approval
  imports Json Py_Dec
begin

text \<open>
  The approval of destructive response actions (\<open>backend/response/approval.py\<close>), its
  requests (\<open>backend/api/approval.py\<close>, \<open>backend/api/alerts.py\<close>) and the gates in front of
  an action (\<open>alerts.py\<close>, \<open>backend/automation/playbooks.py\<close>).  The functions take from
  outside: \<open>isoformat\<close> prints an instant, \<open>expiry\<close> reads a printed instant (its errors are those
  of \<open>fromisoformat\<close> and of the comparison with an aware time), \<open>uid\<close> is the start of a
  fresh UUID.  One reading of the clock stands for all of one operation.  The file holds
  the dumped records; an item is None when pydantic refuses it.
\<close>

section \<open>Parameters of an action\<close>

text \<open>Equality of two values of Python: numbers by value, dictionaries in any order.\<close>

fun jnum :: "jval \<Rightarrow> rat option" where
  "jnum (JBool b) = Some (if b then 1 else 0)"
| "jnum (JInt n) = Some (of_int n)"
| "jnum (JFloat v t) = Some v"
| "jnum v = None"

fun jeq :: "jval \<Rightarrow> jval \<Rightarrow> bool" where
  "jeq (JList xs) (JList ys) = list_all2 jeq xs ys"
| "jeq (JObj d) (JObj e) = (length d = length e \<and>
     list_all (\<lambda>(k, v). case map_of e k of None \<Rightarrow> False | Some w \<Rightarrow> jeq v w) d)"
| "jeq JNull JNull = True"
| "jeq (JStr s) (JStr t) = (s = t)"
| "jeq v w = (jnum v \<noteq> None \<and> jnum v = jnum w)"

section \<open>Records\<close>

datatype approval_status = PENDING | APPROVED | REJECTED | EXPIRED

record approval_request =
  aq_action_type :: string
  aq_action_params :: dict
  aq_requested_by :: string
  aq_justification :: string
  aq_approvers_required :: int
  aq_expires_in_minutes :: int

record approval =
  ap_id :: string
  ap_action_type :: string
  ap_action_params :: dict
  ap_requested_by :: string
  ap_justification :: string
  ap_status :: approval_status
  ap_approvers_required :: int
  ap_approvals :: "string list"
  ap_rejections :: "string list"
  ap_created_at :: string
  ap_expires_at :: string
  ap_resolved_at :: "string option"

text \<open>The constructor fills a missing time of creation; for a missing time of expiry it reads
  \<open>self.expires_in_minutes\<close>, which is a field of the request and not of the record.\<close>

definition approval_init :: "(time \<Rightarrow> string) \<Rightarrow> time \<Rightarrow> approval \<Rightarrow> py_error + approval" where
  "approval_init isoformat now r =
     (let r1 = (if ap_created_at r = [] then r\<lparr>ap_created_at := isoformat now\<rparr> else r) in
      if ap_expires_at r1 = [] then Inl (AttributeError ''expires_in_minutes'') else Inr r1)"

definition is_expired :: "(string \<Rightarrow> py_error + time) \<Rightarrow> time \<Rightarrow> approval \<Rightarrow> py_error + bool" where
  "is_expired expiry now r =
     (if ap_status r \<noteq> PENDING then Inr False
      else case expiry (ap_expires_at r) of Inl e \<Rightarrow> Inl e | Inr t \<Rightarrow> Inr (t < now))"

section \<open>The workflow and its file\<close>

record workflow =
  aw_pending :: "(string \<times> approval) list"
  aw_file :: "approval option list option"

fun load_items ::
  "(time \<Rightarrow> string) \<Rightarrow> (string \<Rightarrow> py_error + time) \<Rightarrow> time \<Rightarrow> approval option list
    \<Rightarrow> (string \<times> approval) list \<Rightarrow> py_error + (string \<times> approval) list" where
  "load_items isoformat expiry now [] pending = Inr pending"
| "load_items isoformat expiry now (None # items) pending = load_items isoformat expiry now items pending"
| "load_items isoformat expiry now (Some r # items) pending =
     (case approval_init isoformat now r of
        Inl _ \<Rightarrow> load_items isoformat expiry now items pending
      | Inr r1 \<Rightarrow> (case is_expired expiry now r1 of
            Inl e \<Rightarrow> Inl e
          | Inr x \<Rightarrow> load_items isoformat expiry now items
              (if \<not> x \<and> ap_status r1 = PENDING then AList.update (ap_id r1) r1 pending else pending)))"

text \<open>\<open>ApprovalWorkflow()\<close> at the start of the process.\<close>

definition load_workflow ::
  "(time \<Rightarrow> string) \<Rightarrow> (string \<Rightarrow> py_error + time) \<Rightarrow> time \<Rightarrow> approval option list option \<Rightarrow> py_error + workflow" where
  "load_workflow isoformat expiry now file =
     (case file of
        None \<Rightarrow> Inr \<lparr>aw_pending = [], aw_file = file\<rparr>
      | Some items \<Rightarrow> map_sum id (\<lambda>p. \<lparr>aw_pending = p, aw_file = file\<rparr>) (load_items isoformat expiry now items []))"

definition save_workflow :: "workflow \<Rightarrow> workflow" where
  "save_workflow w = w\<lparr>aw_file := Some (map (\<lambda>p. Some (snd p)) (aw_pending w))\<rparr>"

definition put_approval :: "approval \<Rightarrow> workflow \<Rightarrow> workflow" where
  "put_approval r w = save_workflow (w\<lparr>aw_pending := AList.update (ap_id r) r (aw_pending w)\<rparr>)"

section \<open>Operations\<close>

definition find_approval :: "approval_status \<Rightarrow> string \<Rightarrow> dict \<Rightarrow> workflow \<Rightarrow> approval option" where
  "find_approval s action params w = List.find
     (\<lambda>r. ap_action_type r = action \<and> jeq (JObj (ap_action_params r)) (JObj params) \<and> ap_status r = s)
     (map snd (aw_pending w))"

definition is_approved :: "string \<Rightarrow> dict \<Rightarrow> workflow \<Rightarrow> bool" where
  "is_approved action params w \<longleftrightarrow> find_approval APPROVED action params w \<noteq> None"

definition pending_for :: "string \<Rightarrow> dict \<Rightarrow> workflow \<Rightarrow> approval option" where
  "pending_for action params w = find_approval PENDING action params w"

definition list_pending :: "workflow \<Rightarrow> approval list" where
  "list_pending w = filter (\<lambda>r. ap_status r = PENDING) (map snd (aw_pending w))"

definition create_request ::
  "(time \<Rightarrow> string) \<Rightarrow> time \<Rightarrow> string \<Rightarrow> approval_request \<Rightarrow> workflow \<Rightarrow> workflow \<times> (py_error + approval)" where
  "create_request isoformat now uid q w =
     (case find_approval APPROVED (aq_action_type q) (aq_action_params q) w of
        Some r \<Rightarrow> (w, Inr r)
      | None \<Rightarrow>
          (case approval_init isoformat now \<lparr>ap_id = uid, ap_action_type = aq_action_type q,
              ap_action_params = aq_action_params q, ap_requested_by = aq_requested_by q,
              ap_justification = aq_justification q, ap_status = PENDING,
              ap_approvers_required = aq_approvers_required q, ap_approvals = [], ap_rejections = [],
              ap_created_at = [], ap_expires_at = [], ap_resolved_at = None\<rparr> of
             Inl e \<Rightarrow> (w, Inl e)
           | Inr r \<Rightarrow> (put_approval r w, Inr r)))"

text \<open>The printed form of a status, a member of a string enumeration.\<close>

definition status_text :: "approval_status \<Rightarrow> string" where
  "status_text s = (case s of PENDING \<Rightarrow> ''ApprovalStatus.PENDING'' | APPROVED \<Rightarrow> ''ApprovalStatus.APPROVED''
     | REJECTED \<Rightarrow> ''ApprovalStatus.REJECTED'' | EXPIRED \<Rightarrow> ''ApprovalStatus.EXPIRED'')"

text \<open>The record a decision may be taken on.\<close>

definition open_request :: "string \<Rightarrow> workflow \<Rightarrow> py_error + approval" where
  "open_request rid w =
     (case map_of (aw_pending w) rid of
        None \<Rightarrow> Inl (ValueError (''Request '' @ rid @ '' not found''))
      | Some r \<Rightarrow> if ap_status r \<noteq> PENDING
          then Inl (ValueError (''Request '' @ rid @ '' is '' @ status_text (ap_status r)))
          else Inr r)"

definition approved_by :: "string \<Rightarrow> string \<Rightarrow> approval \<Rightarrow> approval" where
  "approved_by stamp approver r =
     (let r1 = (if approver \<in> set (ap_approvals r) then r
                else r\<lparr>ap_approvals := ap_approvals r @ [approver]\<rparr>) in
      if ap_approvers_required r1 \<le> int (length (ap_approvals r1))
      then r1\<lparr>ap_status := APPROVED, ap_resolved_at := Some stamp\<rparr> else r1)"

definition approve ::
  "(time \<Rightarrow> string) \<Rightarrow> (string \<Rightarrow> py_error + time) \<Rightarrow> time \<Rightarrow> string \<Rightarrow> string \<Rightarrow> workflow
    \<Rightarrow> workflow \<times> (py_error + approval)" where
  "approve isoformat expiry now rid approver w =
     (case open_request rid w of
        Inl e \<Rightarrow> (w, Inl e)
      | Inr r \<Rightarrow>
          (case is_expired expiry now r of
             Inl e \<Rightarrow> (w, Inl e)
           | Inr True \<Rightarrow> (put_approval (r\<lparr>ap_status := EXPIRED, ap_resolved_at := Some (isoformat now)\<rparr>) w,
               Inl (ValueError (''Request '' @ rid @ '' has expired'')))
           | Inr False \<Rightarrow>
               if approver = ap_requested_by r
               then (w, Inl (ValueError ''Approver must be a different user than the requester''))
               else (put_approval (approved_by (isoformat now) approver r) w,
                     Inr (approved_by (isoformat now) approver r))))"

definition rejected_by :: "string \<Rightarrow> string \<Rightarrow> string \<Rightarrow> approval \<Rightarrow> approval" where
  "rejected_by stamp approver reason r = r\<lparr>ap_status := REJECTED,
     ap_rejections := ap_rejections r @ [approver @ '': '' @ reason], ap_resolved_at := Some stamp\<rparr>"

definition reject ::
  "(time \<Rightarrow> string) \<Rightarrow> time \<Rightarrow> string \<Rightarrow> string \<Rightarrow> string \<Rightarrow> workflow \<Rightarrow> workflow \<times> (py_error + approval)" where
  "reject isoformat now rid approver reason w =
     (case open_request rid w of
        Inl e \<Rightarrow> (w, Inl e)
      | Inr r \<Rightarrow> (put_approval (rejected_by (isoformat now) approver reason r) w,
                  Inr (rejected_by (isoformat now) approver reason r)))"

section \<open>Requests over HTTP\<close>

text \<open>A \<open>ValueError\<close> becomes status 400, any other error is not caught.\<close>

fun http_error :: "py_error \<Rightarrow> py_error" where
  "http_error (ValueError m) = HTTPException 400"
| "http_error e = e"

text \<open>\<open>backend/api/approval.py\<close>.\<close>

definition approve_request ::
  "(time \<Rightarrow> string) \<Rightarrow> (string \<Rightarrow> py_error + time) \<Rightarrow> time \<Rightarrow> string \<Rightarrow> string \<Rightarrow> workflow
    \<Rightarrow> workflow \<times> (py_error + approval)" where
  "approve_request isoformat expiry now rid approver w =
     map_prod id (map_sum http_error id) (approve isoformat expiry now rid (str_or approver ''admin'') w)"

definition reject_request ::
  "(time \<Rightarrow> string) \<Rightarrow> time \<Rightarrow> string \<Rightarrow> string \<Rightarrow> string \<Rightarrow> workflow \<Rightarrow> workflow \<times> (py_error + approval)" where
  "reject_request isoformat now rid approver reason w =
     map_prod id (map_sum http_error id) (reject isoformat now rid (str_or approver ''admin'') reason w)"

definition get_approval_status :: "string \<Rightarrow> workflow \<Rightarrow> py_error + approval" where
  "get_approval_status rid w =
     (case map_of (aw_pending w) rid of None \<Rightarrow> Inl (HTTPException 404) | Some r \<Rightarrow> Inr r)"

text \<open>\<open>backend/api/alerts.py\<close>: the body names the approver (1 to 64 characters) and a reason of
  at most 500; the authenticated caller, \<open>actor\<close>, appears in the audit log only.\<close>

record approval_audit =
  av_actor :: string
  av_action :: string
  av_request :: string
  av_detail :: string

definition valid_decision :: "string \<Rightarrow> string \<Rightarrow> bool" where
  "valid_decision approver reason \<longleftrightarrow> 1 \<le> length approver \<and> length approver \<le> 64 \<and> length reason \<le> 500"

definition approve_soar_request ::
  "(time \<Rightarrow> string) \<Rightarrow> (string \<Rightarrow> py_error + time) \<Rightarrow> time \<Rightarrow> string \<Rightarrow> string \<Rightarrow> string \<Rightarrow> string \<Rightarrow> workflow
    \<Rightarrow> workflow \<times> (py_error + approval_status \<times> approval_audit)" where
  "approve_soar_request isoformat expiry now actor rid approver reason w =
     (if \<not> valid_decision approver reason then (w, Inl (HTTPException 422))
      else map_prod id (map_sum http_error (\<lambda>r. (ap_status r, \<lparr>av_actor = actor, av_action = ''soar.approve'',
          av_request = rid, av_detail = ''approved by '' @ py_strip approver @ '': '' @ reason\<rparr>)))
        (approve isoformat expiry now rid (py_strip approver) w))"

definition reject_soar_request ::
  "(time \<Rightarrow> string) \<Rightarrow> time \<Rightarrow> string \<Rightarrow> string \<Rightarrow> string \<Rightarrow> string \<Rightarrow> workflow
    \<Rightarrow> workflow \<times> (py_error + approval_status \<times> approval_audit)" where
  "reject_soar_request isoformat now actor rid approver reason w =
     (if \<not> valid_decision approver reason then (w, Inl (HTTPException 422))
      else map_prod id (map_sum http_error (\<lambda>r. (ap_status r, \<lparr>av_actor = actor, av_action = ''soar.reject'',
          av_request = rid, av_detail = ''rejected by '' @ py_strip approver @ '': '' @ reason\<rparr>)))
        (reject isoformat now rid (py_strip approver) reason w))"

section \<open>The gates\<close>

definition DESTRUCTIVE_ACTIONS :: "string list" where
  "DESTRUCTIVE_ACTIONS = [''block_ip'', ''kill_process'', ''quarantine'', ''isolate'', ''disable_account'']"

definition action_params :: "string \<Rightarrow> string \<Rightarrow> dict" where
  "action_params action target = [(''action'', JStr action), (''target'', JStr target)]"

datatype gate_answer = Proceed | Awaiting string

text \<open>\<open>take_action\<close>: with no request on record it would create one, but the justification is
  read from \<open>body.note\<close>, and the body has no such field.\<close>

definition take_action_gate :: "string \<Rightarrow> string \<Rightarrow> workflow \<Rightarrow> py_error + gate_answer" where
  "take_action_gate action target w =
     (if action \<notin> set DESTRUCTIVE_ACTIONS then Inr Proceed
      else let params = action_params action target in
      if is_approved action params w then Inr Proceed
      else (case pending_for action params w of
              None \<Rightarrow> Inl (AttributeError ''note'')
            | Some r \<Rightarrow> Inr (Awaiting (ap_id r))))"

text \<open>\<open>_execute_one\<close> within the \<open>try\<close> of \<open>run_playbook\<close>: \<open>enabled\<close> is the flag of the deployment,
  \<open>execute\<close> runs an action that passed.  The creation of a request reads \<open>triggered_by\<close>, a name
  that this function does not have.\<close>

definition execute_step ::
  "bool \<Rightarrow> (string \<Rightarrow> string \<Rightarrow> string \<times> string) \<Rightarrow> string \<Rightarrow> string \<Rightarrow> workflow \<Rightarrow> string \<times> string" where
  "execute_step enabled execute action target w =
     (if action \<notin> set DESTRUCTIVE_ACTIONS then execute action target
      else if \<not> enabled
      then (''success'', ''SIMULATED '' @ action @ '' on '' @ repr_str target @
              '' - destructive SOAR actions disabled (BARAQ_SOAR_DESTRUCTIVE_ACTIONS_ENABLED=0).'')
      else let params = action_params action target in
      if is_approved action params w then execute action target
      else (case pending_for action params w of
              None \<Rightarrow> (''failed'', ''error: name '' @ repr_str ''triggered_by'' @ '' is not defined'')
            | Some r \<Rightarrow> (''pending_approval'', ''Destructive action '' @ action @ '' requires approval (request #''
                          @ ap_id r @ '') before execution'')))"

definition playbook_status :: "string list \<Rightarrow> string" where
  "playbook_status statuses =
     (if list_all (\<lambda>s. s = ''success'') statuses then ''completed''
      else if list_all (\<lambda>s. s = ''failed'') statuses then ''failed'' else ''partial'')"

definition run_playbook ::
  "bool \<Rightarrow> (string \<Rightarrow> string \<Rightarrow> string \<times> string) \<Rightarrow> (string \<times> string) list \<Rightarrow> workflow
    \<Rightarrow> (string \<times> string \<times> string) list \<times> string" where
  "run_playbook enabled execute steps w =
     (let results = map (\<lambda>(action, target). (action, execute_step enabled execute action target w)) steps
      in (results, playbook_status (map (\<lambda>(_, s, _). s) results)))"

end
