(* ===== verification/Approval_Props.thy ===== *)
theory Approval_Props
  imports Approval
begin

text \<open>
  What the approval workflow promises: no destructive action passes a gate without an
  approval by someone else, decisions are final, a restart keeps what is open; and what
  becomes of these promises in the program, where no request can be created and the name of
  the approver is not that of the caller.
\<close>

section \<open>The steps of a process\<close>

inductive approval_step ::
  "(time \<Rightarrow> string) \<Rightarrow> (string \<Rightarrow> py_error + time) \<Rightarrow> workflow \<Rightarrow> workflow \<Rightarrow> bool"
  for isoformat expiry where
  create_step: "approval_step isoformat expiry w (fst (create_request isoformat now uid q w))"
| approve_step: "approval_step isoformat expiry w (fst (approve isoformat expiry now rid approver w))"
| reject_step: "approval_step isoformat expiry w (fst (reject isoformat now rid approver reason w))"
| restart_step: "load_workflow isoformat expiry now (aw_file w) = Inr w' \<Longrightarrow> approval_step isoformat expiry w w'"

abbreviation approval_run where
  "approval_run isoformat expiry \<equiv> (approval_step isoformat expiry)\<^sup>*\<^sup>*"

text \<open>A record without a time of expiry cannot be constructed, so no request is created.\<close>

lemma create_request_cases:
  "create_request isoformat now uid q w = (w, case find_approval APPROVED (aq_action_type q) (aq_action_params q) w of
     None \<Rightarrow> Inl (AttributeError ''expires_in_minutes'') | Some r \<Rightarrow> Inr r)"
  by (simp add: create_request_def approval_init_def Let_def split: option.split)

section \<open>The invariant\<close>

definition approval_ok :: "approval \<Rightarrow> bool" where
  "approval_ok r \<longleftrightarrow> distinct (ap_approvals r) \<and> ap_requested_by r \<notin> set (ap_approvals r)
     \<and> (ap_status r = APPROVED \<longrightarrow> ap_approvals r \<noteq> [] \<and> ap_approvers_required r \<le> int (length (ap_approvals r)))"

definition pending_ok :: "(string \<times> approval) list \<Rightarrow> bool" where
  "pending_ok p \<longleftrightarrow> distinct (map fst p) \<and> (\<forall>(k, r)\<in>set p. ap_id r = k \<and> approval_ok r)"

definition workflow_ok :: "workflow \<Rightarrow> bool" where
  "workflow_ok w \<longleftrightarrow> pending_ok (aw_pending w)
     \<and> (case aw_file w of None \<Rightarrow> True | Some items \<Rightarrow> \<forall>r. Some r \<in> set items \<longrightarrow> approval_ok r)"

lemma pending_okD: "pending_ok p \<Longrightarrow> map_of p k = Some r \<Longrightarrow> ap_id r = k \<and> approval_ok r"
  unfolding pending_ok_def by (blast dest: map_of_SomeD)

lemma set_update: "set (AList.update k v al) \<subseteq> insert (k, v) (set al)"
  by (induction al) auto

lemma pending_ok_update:
  assumes "pending_ok p" "approval_ok r"
  shows "pending_ok (AList.update (ap_id r) r p)"
  unfolding pending_ok_def
proof (intro conjI ballI)
  show "distinct (map fst (AList.update (ap_id r) r p))" using assms(1) by (simp add: pending_ok_def distinct_update)
  fix x assume "x \<in> set (AList.update (ap_id r) r p)"
  then have "x = (ap_id r, r) \<or> x \<in> set p" using set_update by fastforce
  then show "case x of (k, r) \<Rightarrow> ap_id r = k \<and> approval_ok r" using assms by (auto simp: pending_ok_def)
qed

lemma put_approval_ok: "workflow_ok w \<Longrightarrow> approval_ok r \<Longrightarrow> workflow_ok (put_approval r w)"
  using pending_ok_update [of "aw_pending w" r]
  by (fastforce simp: workflow_ok_def put_approval_def save_workflow_def pending_ok_def)

lemma approved_by_ok:
  "approval_ok r \<Longrightarrow> ap_status r = PENDING \<Longrightarrow> approver \<noteq> ap_requested_by r \<Longrightarrow> approval_ok (approved_by s approver r)"
  by (auto simp: approval_ok_def approved_by_def Let_def)

lemma load_items_ok:
  "load_items isoformat expiry now items p = Inr p' \<Longrightarrow> (\<And>r. Some r \<in> set items \<Longrightarrow> approval_ok r) \<Longrightarrow> pending_ok p
     \<Longrightarrow> pending_ok p'"
proof (induction isoformat expiry now items p rule: load_items.induct)
  case (3 isoformat expiry now r items p)
  have ok: "approval_ok r1" if "approval_init isoformat now r = Inr r1" for r1
    using that 3(4) [of r] by (auto simp: approval_init_def approval_ok_def Let_def split: if_splits)
  show ?case
  proof (cases "approval_init isoformat now r")
    case (Inl e)
    then show ?thesis using 3(1) [OF Inl] 3(3,5) 3(4) by auto
  next
    case (Inr r1)
    then obtain x where x: "is_expired expiry now r1 = Inr x"
        "load_items isoformat expiry now items (if \<not> x \<and> ap_status r1 = PENDING then AList.update (ap_id r1) r1 p else p) = Inr p'"
      using 3(3) by (auto split: sum.splits)
    have "pending_ok (if \<not> x \<and> ap_status r1 = PENDING then AList.update (ap_id r1) r1 p else p)"
      using pending_ok_update [OF 3(5) ok [OF Inr]] 3(5) by simp
    then show ?thesis using 3(2) [OF Inr x] 3(4) by auto
  qed
qed auto

lemma load_workflow_ok:
  assumes "load_workflow isoformat expiry now (aw_file w) = Inr w'" "workflow_ok w"
  shows "workflow_ok w'"
proof (cases "aw_file w")
  case None
  then show ?thesis using assms by (auto simp: load_workflow_def workflow_ok_def pending_ok_def)
next
  case (Some items)
  then obtain p where p: "load_items isoformat expiry now items [] = Inr p" "w' = \<lparr>aw_pending = p, aw_file = aw_file w\<rparr>"
    using assms(1) by (auto simp: load_workflow_def map_sum_def split: sum.splits)
  have "pending_ok p" by (rule load_items_ok [OF p(1)]) (use assms(2) Some in \<open>auto simp: workflow_ok_def pending_ok_def\<close>)
  then show ?thesis using assms(2) by (simp add: p(2) workflow_ok_def)
qed

lemma open_requestD:
  "open_request rid w = Inr r \<Longrightarrow> map_of (aw_pending w) rid = Some r \<and> ap_status r = PENDING"
  by (auto simp: open_request_def split: option.splits if_splits)

lemma approve_ok:
  assumes "workflow_ok w"
  shows "workflow_ok (fst (approve isoformat expiry now rid approver w))"
proof (cases "open_request rid w")
  case (Inr r)
  have r: "approval_ok r" "ap_status r = PENDING"
    using open_requestD [OF Inr] assms pending_okD by (auto simp: workflow_ok_def)
  have "approval_ok (r\<lparr>ap_status := EXPIRED, ap_resolved_at := s\<rparr>)" for s using r by (simp add: approval_ok_def)
  then show ?thesis
    using assms Inr approved_by_ok [OF r] by (auto simp: approve_def intro: put_approval_ok split: sum.split bool.split)
qed (use assms in \<open>simp add: approve_def\<close>)

lemma reject_ok:
  assumes "workflow_ok w"
  shows "workflow_ok (fst (reject isoformat now rid approver reason w))"
proof (cases "open_request rid w")
  case (Inr r)
  then have "approval_ok (rejected_by (isoformat now) approver reason r)"
    using open_requestD [OF Inr] assms pending_okD by (auto simp: workflow_ok_def approval_ok_def rejected_by_def)
  then show ?thesis using assms Inr by (simp add: reject_def put_approval_ok)
qed (use assms in \<open>simp add: reject_def\<close>)

lemma approval_step_ok: "approval_step isoformat expiry w w' \<Longrightarrow> workflow_ok w \<Longrightarrow> workflow_ok w'"
  by (induction rule: approval_step.induct) (auto simp: create_request_cases approve_ok reject_ok load_workflow_ok)

lemma approval_run_ok: "approval_run isoformat expiry w w' \<Longrightarrow> workflow_ok w \<Longrightarrow> workflow_ok w'"
  by (induction rule: rtranclp_induct) (auto intro: approval_step_ok)

section \<open>Two persons\<close>

lemma take_action_gate_approved:
  assumes "take_action_gate action target w = Inr Proceed" "action \<in> set DESTRUCTIVE_ACTIONS"
  obtains rid r where "(rid, r) \<in> set (aw_pending w)" "ap_action_type r = action" "ap_status r = APPROVED"
    "jeq (JObj (ap_action_params r)) (JObj (action_params action target))"
proof -
  have "find_approval APPROVED action (action_params action target) w \<noteq> None"
    using assms by (auto simp: take_action_gate_def Let_def is_approved_def split: if_splits option.splits)
  then obtain r where "r \<in> snd ` set (aw_pending w)" "ap_action_type r = action" "ap_status r = APPROVED"
      "jeq (JObj (ap_action_params r)) (JObj (action_params action target))"
    by (auto simp: find_approval_def find_None_iff)
  then show ?thesis using that by (metis imageE prod.collapse)
qed

lemma action_params_same: "jeq (JObj (action_params a t)) (JObj (action_params a t))"
  by (simp add: action_params_def)

lemma gate_opens:
  assumes "(rid, r) \<in> set (aw_pending w)" "ap_action_type r = action" "ap_action_params r = action_params action target"
    "ap_status r = APPROVED"
  shows "take_action_gate action target w = Inr Proceed"
proof -
  have "find_approval APPROVED action (action_params action target) w \<noteq> None"
  proof
    assume "find_approval APPROVED action (action_params action target) w = None"
    then have "\<not> (ap_action_type r = action \<and> jeq (JObj (ap_action_params r)) (JObj (action_params action target))
        \<and> ap_status r = APPROVED)"
      using assms(1) unfolding find_approval_def find_None_iff by force
    then show False using assms(2-4) action_params_same [of action target] by simp
  qed
  then show ?thesis by (simp add: take_action_gate_def is_approved_def Let_def)
qed

text \<open>C11: whatever is requested, approved, rejected or restarted, a destructive action passes
  the gate only on a record for exactly this action and target that was approved under as many
  distinct names as it requires, at least one, none of them the name of the requester.\<close>

theorem two_person_rule:
  assumes "approval_run isoformat expiry w w'" "workflow_ok w" "action \<in> set DESTRUCTIVE_ACTIONS"
    "take_action_gate action target w' = Inr Proceed"
  shows "\<exists>(rid, r)\<in>set (aw_pending w'). ap_action_type r = action
     \<and> jeq (JObj (ap_action_params r)) (JObj (action_params action target))
     \<and> ap_approvals r \<noteq> [] \<and> ap_approvers_required r \<le> int (length (ap_approvals r))
     \<and> distinct (ap_approvals r) \<and> ap_requested_by r \<notin> set (ap_approvals r)"
proof -
  have ok: "pending_ok (aw_pending w')" using approval_run_ok [OF assms(1,2)] by (simp add: workflow_ok_def)
  obtain rid r where r: "(rid, r) \<in> set (aw_pending w')" "ap_action_type r = action" "ap_status r = APPROVED"
      "jeq (JObj (ap_action_params r)) (JObj (action_params action target))"
    using take_action_gate_approved [OF assms(4,3)] .
  have "approval_ok r" using ok r(1) by (auto simp: pending_ok_def)
  then show ?thesis using r by (intro bexI [OF _ r(1)]) (simp add: approval_ok_def)
qed


text \<open>One approval on record.\<close>

definition sample_approval :: approval where
  "sample_approval = \<lparr>ap_id = ''1a2b3c4d'', ap_action_type = ''block_ip'',
     ap_action_params = action_params ''block_ip'' ''8.8.8.8'', ap_requested_by = ''alice'', ap_justification = [],
     ap_status = PENDING, ap_approvers_required = 1, ap_approvals = [], ap_rejections = [],
     ap_created_at = ''t0'', ap_expires_at = ''t1'', ap_resolved_at = None\<rparr>"

definition sample_workflow :: workflow where
  "sample_workflow = \<lparr>aw_pending = [(''1a2b3c4d'', sample_approval)], aw_file = None\<rparr>"

lemma sample_workflow_ok: "workflow_ok sample_workflow"
  by (simp add: workflow_ok_def pending_ok_def approval_ok_def sample_workflow_def sample_approval_def)

lemma sample_decision:
  "approve (\<lambda>t. ''now'') (\<lambda>s. Inr 10) 5 ''1a2b3c4d'' ''bob'' sample_workflow
     = (put_approval (approved_by ''now'' ''bob'' sample_approval) sample_workflow,
        Inr (approved_by ''now'' ''bob'' sample_approval))"
  by (simp add: approve_def open_request_def sample_workflow_def sample_approval_def is_expired_def)

lemma sample_gate:
  "take_action_gate ''block_ip'' ''8.8.8.8'' (put_approval (approved_by ''now'' ''bob'' sample_approval) sample_workflow)
     = Inr Proceed"
  by (rule gate_opens [of "''1a2b3c4d''" "approved_by ''now'' ''bob'' sample_approval"])
    (simp_all add: put_approval_def save_workflow_def sample_workflow_def sample_approval_def approved_by_def)

lemma two_person_rule_witness:
  "\<exists>w. approval_run (\<lambda>t. ''now'') (\<lambda>s. Inr 10) sample_workflow w
     \<and> (\<exists>(rid, r)\<in>set (aw_pending w). ap_action_type r = ''block_ip'' \<and> ap_approvals r \<noteq> [])"
proof -
  let ?w = "put_approval (approved_by ''now'' ''bob'' sample_approval) sample_workflow"
  have r: "approval_run (\<lambda>t. ''now'') (\<lambda>s. Inr 10) sample_workflow ?w"
    using approve_step [of "\<lambda>t. ''now''" "\<lambda>s. Inr 10" sample_workflow 5 "''1a2b3c4d''" "''bob''"] sample_decision by auto
  have "''block_ip'' \<in> set DESTRUCTIVE_ACTIONS" by (simp add: DESTRUCTIVE_ACTIONS_def)
  from two_person_rule [OF r sample_workflow_ok this sample_gate] r show ?thesis by fastforce
qed

text \<open>C28: the rule holds for names only: the approver is what the body of the request says and
  the caller is not compared with it.  Whoever requested an action can approve it alone by
  writing any other name; the gate is open afterwards, and the audit log names the requester.\<close>

theorem requester_approves_alone:
  assumes "workflow_ok w" "map_of (aw_pending w) rid = Some r" "ap_status r = PENDING" "ap_approvers_required r \<le> 1"
    "expiry (ap_expires_at r) = Inr t" "now \<le> t"
    "ap_action_type r = action" "ap_action_params r = action_params action target"
    "valid_decision name reason" "py_strip name \<noteq> ap_requested_by r"
  shows "case approve_soar_request isoformat expiry now (ap_requested_by r) rid name reason w of
     (w', answer) \<Rightarrow> take_action_gate action target w' = Inr Proceed
       \<and> (\<exists>a. answer = Inr (APPROVED, a) \<and> av_actor a = ap_requested_by r)"
proof -
  let ?r = "approved_by (isoformat now) (py_strip name) r"
  have id: "ap_id r = rid" using assms(1,2) pending_okD by (auto simp: workflow_ok_def)
  have s: "ap_status ?r = APPROVED" "ap_id ?r = rid" "ap_action_type ?r = action"
    "ap_action_params ?r = action_params action target"
    using assms(4,7,8) id by (cases "ap_approvals r"; auto simp: approved_by_def Let_def)+
  have a: "approve isoformat expiry now rid (py_strip name) w = (put_approval ?r w, Inr ?r)"
    using assms(2,3,5,6,10) by (simp add: approve_def open_request_def is_expired_def)
  have "map_of (aw_pending (put_approval ?r w)) rid = Some ?r"
    by (simp add: put_approval_def save_workflow_def update_conv' s(2))
  then have "take_action_gate action target (put_approval ?r w) = Inr Proceed"
    using map_of_SomeD s gate_opens by metis
  then show ?thesis using assms(9) by (simp add: approve_soar_request_def a s(1))
qed

lemma requester_approves_alone_witness:
  "\<exists>a. snd (approve_soar_request (\<lambda>t. ''now'') (\<lambda>s. Inr 10) 5 ''alice'' ''1a2b3c4d'' ''x'' [] sample_workflow)
     = Inr (APPROVED, a) \<and> av_actor a = ''alice''"
proof -
  have m: "map_of (aw_pending sample_workflow) ''1a2b3c4d'' = Some sample_approval" by (simp add: sample_workflow_def)
  have "valid_decision ''x'' []" "py_strip ''x'' \<noteq> ap_requested_by sample_approval"
    by (simp_all add: valid_decision_def py_strip_def is_space_def sample_approval_def)
  from requester_approves_alone [OF sample_workflow_ok m _ _ _ _ _ _ this, where isoformat = "\<lambda>t. ''now''" and expiry = "\<lambda>s. Inr 10" and now = 5 and t = 10
        and action = "''block_ip''" and target = "''8.8.8.8''"]
  show ?thesis by (simp add: sample_approval_def split: prod.splits)
qed

section \<open>Decisions are final\<close>

lemma put_approval_other: "ap_id r \<noteq> k \<Longrightarrow> map_of (aw_pending (put_approval r w)) k = map_of (aw_pending w) k"
  by (simp add: put_approval_def save_workflow_def update_conv')

text \<open>A decision is final: while the process runs no request changes a record that is
  approved, rejected or expired, and a decision on it answers the status it has.\<close>

theorem decided_is_final:
  assumes "workflow_ok w" "map_of (aw_pending w) k = Some r" "ap_status r \<noteq> PENDING"
  shows "map_of (aw_pending (fst (create_request isoformat now uid q w))) k = Some r
    \<and> map_of (aw_pending (fst (approve isoformat expiry now rid approver w))) k = Some r
    \<and> map_of (aw_pending (fst (reject isoformat now rid approver reason w))) k = Some r
    \<and> snd (approve isoformat expiry now k approver w) = Inl (ValueError (''Request '' @ k @ '' is '' @ status_text (ap_status r)))
    \<and> snd (reject isoformat now k approver reason w) = Inl (ValueError (''Request '' @ k @ '' is '' @ status_text (ap_status r)))"
proof (intro conjI)
  have other: "ap_id s \<noteq> k" if "open_request rid w = Inr s" for s
  proof -
    have "map_of (aw_pending w) rid = Some s" "ap_status s = PENDING" using open_requestD [OF that] by simp_all
    moreover have "ap_id s = rid" using pending_okD assms(1) calculation(1) by (auto simp: workflow_ok_def)
    ultimately show ?thesis using assms(2,3) by auto
  qed
  show "map_of (aw_pending (fst (create_request isoformat now uid q w))) k = Some r"
    using assms(2) by (simp add: create_request_cases)
  show "map_of (aw_pending (fst (approve isoformat expiry now rid approver w))) k = Some r"
    using assms(2) other
    by (auto simp: approve_def put_approval_other approved_by_def Let_def split: sum.split bool.split)
  show "map_of (aw_pending (fst (reject isoformat now rid approver reason w))) k = Some r"
    using assms(2) other by (auto simp: reject_def put_approval_other rejected_by_def split: sum.split)
qed (use assms in \<open>simp_all add: approve_def reject_def open_request_def\<close>)

lemma decided_is_final_witness:
  "\<exists>r. map_of (aw_pending (fst (reject (\<lambda>t. ''now'') 6 ''1a2b3c4d'' ''carol'' []
      (put_approval (approved_by ''now'' ''bob'' sample_approval) sample_workflow)))) ''1a2b3c4d'' = Some r
     \<and> ap_status r = APPROVED"
proof -
  let ?r = "approved_by ''now'' ''bob'' sample_approval" and ?w = "put_approval (approved_by ''now'' ''bob'' sample_approval) sample_workflow"
  have "approval_ok ?r" by (rule approved_by_ok) (simp_all add: approval_ok_def sample_approval_def)
  then have "workflow_ok ?w" using put_approval_ok [OF sample_workflow_ok] by blast
  moreover have "map_of (aw_pending ?w) ''1a2b3c4d'' = Some ?r" and s: "ap_status ?r = APPROVED"
    by (simp_all add: put_approval_def save_workflow_def sample_workflow_def sample_approval_def approved_by_def)
  ultimately show ?thesis using decided_is_final [of ?w "''1a2b3c4d''" ?r] by (simp add: s)
qed

section \<open>Restarts\<close>

lemma update_fresh: "k \<notin> fst ` set al \<Longrightarrow> AList.update k v al = al @ [(k, v)]"
  by (induction al) auto

definition complete_record :: "(string \<Rightarrow> py_error + time) \<Rightarrow> approval \<Rightarrow> bool" where
  "complete_record expiry r \<longleftrightarrow> ap_created_at r \<noteq> [] \<and> ap_expires_at r \<noteq> [] \<and> (\<exists>t. expiry (ap_expires_at r) = Inr t)"

definition still_open :: "(string \<Rightarrow> py_error + time) \<Rightarrow> time \<Rightarrow> approval \<Rightarrow> bool" where
  "still_open expiry now r \<longleftrightarrow> ap_status r = PENDING \<and> is_expired expiry now r = Inr False"

lemma load_saved:
  assumes "pending_ok (p @ q)" "\<forall>(k, r)\<in>set q. complete_record expiry r"
  shows "load_items isoformat expiry now (map (\<lambda>x. Some (snd x)) q) p = Inr (p @ filter (\<lambda>x. still_open expiry now (snd x)) q)"
  using assms
proof (induction q arbitrary: p)
  case (Cons x q)
  obtain k r where x: "x = (k, r)" by (cases x)
  have r: "approval_init isoformat now r = Inr r" "\<exists>b. is_expired expiry now r = Inr b"
    using Cons.prems(2) by (auto simp: x complete_record_def approval_init_def is_expired_def)
  have k: "ap_id r = k" "k \<notin> fst ` set p" using Cons.prems(1) by (auto simp: x pending_ok_def)
  have keep: "pending_ok (p @ q)" "pending_ok ((p @ [x]) @ q)" using Cons.prems(1) by (auto simp: pending_ok_def)
  show ?case
    using r Cons.IH [OF keep(1)] Cons.IH [OF keep(2)] Cons.prems(2)
    by (auto simp: x k update_fresh still_open_def)
qed simp

text \<open>C38: a restart finds in the saved file exactly the requests that are pending and not yet
  expired, unchanged and in their order; approvals are not kept, so an approved action must be
  requested again.\<close>

theorem restart_keeps_open_requests:
  assumes "workflow_ok w" "\<forall>(k, r)\<in>set (aw_pending w). complete_record expiry r"
  shows "map_sum id aw_pending (load_workflow isoformat expiry now (aw_file (save_workflow w)))
     = Inr (filter (\<lambda>x. still_open expiry now (snd x)) (aw_pending w))"
  using load_saved [of "[]" "aw_pending w" expiry isoformat now] assms
  by (simp add: load_workflow_def save_workflow_def workflow_ok_def)

lemma restart_keeps_open_requests_witness:
  "map_sum id aw_pending (load_workflow (\<lambda>t. ''now'') (\<lambda>s. Inr 10) 20 (aw_file (save_workflow sample_workflow))) = Inr []"
proof -
  have "\<forall>(k, r)\<in>set (aw_pending sample_workflow). complete_record (\<lambda>s. Inr 10) r"
    by (simp add: sample_workflow_def sample_approval_def complete_record_def)
  from restart_keeps_open_requests [OF sample_workflow_ok this] show ?thesis
    by (simp add: sample_workflow_def sample_approval_def still_open_def is_expired_def)
qed

section \<open>The program as it stands\<close>

lemma nothing_on_record:
  assumes "approval_run isoformat expiry w0 w" "aw_pending w0 = []" "aw_file w0 = None"
  shows "aw_pending w = [] \<and> aw_file w = None"
  using assms
proof (induction rule: rtranclp_induct)
  case (step v w)
  then have v: "aw_pending v = []" "aw_file v = None" by auto
  from step(2) show ?case
    by cases (use v in \<open>auto simp: create_request_cases approve_def reject_def open_request_def load_workflow_def\<close>)
qed simp

text \<open>C27: started without a file of requests the workflow stays empty for ever: no request can
  be created, an analyst's destructive action ends in an uncaught error, a playbook's in a
  failed step, and nothing is ever there to be approved.\<close>

theorem approvals_never_start:
  assumes "approval_run isoformat expiry \<lparr>aw_pending = [], aw_file = None\<rparr> w" "action \<in> set DESTRUCTIVE_ACTIONS"
  shows "take_action_gate action target w = Inl (AttributeError ''note'')
    \<and> fst (execute_step True execute action target w) = ''failed''
    \<and> create_request isoformat now uid q w = (w, Inl (AttributeError ''expires_in_minutes''))
    \<and> list_pending w = []"
  using nothing_on_record [OF assms(1)] assms(2)
  by (simp add: take_action_gate_def execute_step_def create_request_cases list_pending_def is_approved_def
      pending_for_def find_approval_def Let_def)

lemma approvals_never_start_witness:
  "take_action_gate ''isolate'' ''PC-1'' \<lparr>aw_pending = [], aw_file = None\<rparr> = Inl (AttributeError ''note'')"
  by (rule approvals_never_start [THEN conjunct1, of "\<lambda>t. []" "\<lambda>s. Inr 0"]) (simp_all add: DESTRUCTIVE_ACTIONS_def)

end
