(* ===== verification/Spec2Isabelle.thy ===== *)
theory Spec2Isabelle
  imports Alert_Desk Group_Workers Corr_Candidates Corr_Complete Incident_Life Incident_Metrics Risk_Again Risk_Bands
    Process_Specs Detection_Store Vuln_Scan Rate_Limit Rate_Gate Login_Guard Audit_Chain Approval_Props
begin

text \<open>
  BARAQ: a verification of its second pipeline and of the guards around it.

  \<^bold>\<open>The program.\<close>  BARAQ is a security operations platform.  Its second pipeline (v2) turns
  telemetry into incidents in stages, each with its own tables and its own audit rows:

  \<^item> telemetry (\<open>backend/telemetry\<close>): a raw record is normalised to an event, enriched and stored
    once per fingerprint;
  \<^item> detection (\<open>backend/detection\<close>): the detectors D001 to D005 look at one event and the events
    stored around it; what they report is stored once per detection id;
  \<^item> alerting (\<open>backend/alerting\<close>): a detection that a policy admits becomes an alert or is merged
    into a recent one, unless a rule suppresses it; analysts move alerts along a lifecycle;
  \<^item> aggregation (\<open>backend/aggregation\<close>): alerts of one behavior form a group, which lives as long
    as alerts arrive within its window;
  \<^item> correlation (\<open>backend/correlation\<close>): groups that match a rule are joined to findings;
  \<^item> incidents (\<open>backend/incidents\<close>): findings and groups that satisfy a policy open an incident,
    once per fingerprint;
  \<^item> entity risk (\<open>backend/risk\<close>): alerts, groups and findings leave factors on hosts, users and
    addresses, from which a score is computed.

  Each stage reads the rows of the stages before it and never writes them.  Around the pipeline
  stand the vulnerability scanner, the approval of response actions, the limits in front of
  requests and logins, and the chained audit trail.

  \<^bold>\<open>Theories and sources.\<close>

  \<^item> Shared: \<open>Py_Float\<close> (binary64 as rounded rationals), \<open>Py_String\<close>, \<open>Py_Dec\<close>, \<open>Py_Ip\<close> (the part of
    \<open>ipaddress\<close> used, Python 3.12), \<open>Py_Regex\<close> (the part of \<open>re\<close> used), \<open>Json\<close> (request values as
    Python objects), \<open>Sql_Like\<close>, \<open>Prelude\<close> (time, errors, rows, the gate that keeps the engines off the
    production database).
  \<^item> Interfaces: \<open>Row_Store\<close> (\<open>serial_rows\<close>: growing ids; \<open>lifecycle\<close> and \<open>terminal_lifecycle\<close>:
    status machines; \<open>claimed_rows\<close>: at most one live row per fingerprint), \<open>Keyed_Rows\<close> (one row per
    key for ever), \<open>Sliding_Window\<close> (bounded counters).  They are interpreted by the alerts,
    groups, findings, incidents, risk records, events, detections, the limiter and the login
    counters, in the theories of these components.
  \<^item> Telemetry: \<open>Telemetry\<close> (\<open>contract.py\<close>, \<open>normalization/base.py\<close>, \<open>enrichment/base.py\<close>,
    \<open>ingestion/pipeline.py\<close>, \<open>models.py\<close>), \<open>Ingestion\<close> (properties).
  \<^item> Detection: \<open>Detection\<close> (\<open>contract.py\<close>), \<open>Detectors\<close> and \<open>Detectors_Process\<close> (\<open>evidence.py\<close>,
    \<open>context.py\<close>, \<open>fp_filters.py\<close>, \<open>detectors/d001\<close> to \<open>d005\<close>), \<open>Detection_Engine\<close> (\<open>engine.py\<close>,
    \<open>registry.py\<close>, \<open>models.py\<close>, the evaluation request of \<open>api/detections.py\<close>); \<open>Detection_Props\<close>,
    \<open>Detector_Specs\<close>, \<open>Process_Specs\<close>, \<open>Detection_Store\<close> (properties).
  \<^item> Alerting: \<open>Alert_Policy\<close> (\<open>eligibility.py\<close>, \<open>lifecycle.py\<close>), \<open>Alert_Store\<close> (\<open>models.py\<close>,
    \<open>fingerprint.py\<close>, \<open>suppression.py\<close>, \<open>audit.py\<close>), \<open>Alert_Engine\<close> (\<open>deduplication.py\<close>,
    \<open>engine.py\<close>), \<open>Alert_Desk\<close> (\<open>api/alerting.py\<close>, \<open>feedback.py\<close>).
  \<^item> Aggregation: \<open>Group_Policy\<close> (\<open>contract.py\<close>, \<open>grouping.py\<close>, \<open>windows.py\<close>, \<open>fingerprint.py\<close>,
    \<open>lifecycle.py\<close>), \<open>Group_Evidence\<close> (\<open>evidence.py\<close>), \<open>Group_Engine\<close> (\<open>engine.py\<close>, \<open>models.py\<close>,
    \<open>audit.py\<close>); \<open>Group_Invariant\<close>, \<open>Group_Props\<close>, \<open>Group_Workers\<close> (properties; the last one
    runs the statements of several workers interleaved on one database).
  \<^item> Correlation: \<open>Corr_Policy\<close>, \<open>Corr_Rules\<close> (\<open>rules\<close>, \<open>registry.py\<close>, \<open>edges.py\<close>), \<open>Corr_Candidates\<close>
    (\<open>candidates.py\<close>), \<open>Corr_Engine\<close> (\<open>engine.py\<close> and its tables); \<open>Corr_Invariant\<close>, \<open>Corr_Run\<close>,
    \<open>Corr_Props\<close>, \<open>Corr_Complete\<close> (properties).
  \<^item> Incidents: \<open>Incident_Policy\<close> (\<open>contract.py\<close>, \<open>lifecycle.py\<close>, \<open>registry.py\<close>, \<open>fingerprint.py\<close>,
    \<open>config.py\<close>), \<open>Incident_Store\<close> (\<open>models.py\<close>, \<open>audit.py\<close>, \<open>evidence.py\<close>), \<open>Incident_Engine\<close>
    (\<open>engine.py\<close>, \<open>investigation.py\<close>), \<open>Incident_Desk\<close> (\<open>api/incidents_v2.py\<close>, \<open>metrics.py\<close>,
    \<open>eligibility.py\<close>); \<open>Incident_Scores\<close>, \<open>Incident_Invariant\<close>, \<open>Incident_Create\<close>, \<open>Incident_Props\<close>,
    \<open>Incident_Life\<close>, \<open>Incident_Metrics\<close> (properties).
  \<^item> Risk: \<open>Risk_Policy\<close> (\<open>contract.py\<close>, \<open>registry.py\<close>), \<open>Risk_Calc\<close> (\<open>calculator.py\<close>), \<open>Risk_Store\<close> and
    \<open>Risk_Engine\<close> (\<open>models.py\<close>, \<open>audit.py\<close>, \<open>engine.py\<close>); \<open>Risk_Score\<close>, \<open>Risk_Bands\<close>, \<open>Risk_Writes\<close>,
    \<open>Risk_Ops\<close>, \<open>Risk_Invariant\<close>, \<open>Risk_Total\<close>, \<open>Risk_Props\<close>, \<open>Risk_Life\<close>, \<open>Risk_Ingest\<close>, \<open>Risk_Again\<close>
    (properties).
  \<^item> Guards: \<open>Vuln_Scan\<close> (\<open>backend/vulnscan\<close>, \<open>collectors/vulnscan.py\<close>), \<open>Rate_Limit\<close>
    (\<open>rate_limit.py\<close>), \<open>Rate_Gate\<close> (\<open>main.py\<close>, \<open>redis.py\<close>), \<open>Login_Guard\<close> (\<open>redis.py\<close>, \<open>api/auth.py\<close>),
    \<open>Audit_Chain\<close> (\<open>audit.py\<close>, the table of \<open>database/models.py\<close>), \<open>Approval\<close> and \<open>Approval_Props\<close>
    (\<open>response/approval.py\<close>, \<open>api/approval.py\<close>, the gates of \<open>api/alerts.py\<close> and
    \<open>automation/playbooks.py\<close>).
\<close>

text \<open>
  \<^bold>\<open>State and operations.\<close>  A table is the list of its rows in the order of their ids; a database is
  a record of tables with the last number of each sequence.  An operation is a function that
  takes the tables and returns the new ones, or an error of \<open>py_error\<close> where the code raises;
  where the code changes something and raises afterwards, both are returned.  Objects of a
  session that run ahead of their rows (the correlation engine does not flush) are a list of
  their own.  A session that is rolled back returns to the tables it began with.

  \<^bold>\<open>What is passed in.\<close>  \<open>H\<close> is SHA-256 in hexadecimal; where a theorem needs it to be injective or to
  print without a bar, this is a hypothesis with a witness.  \<open>wall\<close>, \<open>now\<close> and \<open>took\<close> are readings of
  the clock (microseconds since the epoch, except in the limiters, where they are seconds).
  \<open>parse_time\<close> and \<open>isoformat\<close> stand for \<open>datetime.fromisoformat\<close> and its inverse, \<open>pw\<close> for the power
  of one half of the C library (\<open>half_power\<close> states what is used of it), \<open>so\<close> for the order in which
  a Python set is iterated, \<open>others\<close> and rivals for rows that other sessions commit meanwhile.
  Strings are lists of code points below 256; the keys of JSON objects are strings.

  \<^bold>\<open>Fuel and termination.\<close>  The loop that claims a group tries twice and the one that claims a
  risk record five times, as the code does; on consistent tables the first attempt succeeds
  unless a rival interferes, and the theorems on these claims show that it returns a record.  All other functions are total, by structural
  recursion or a measure.

  \<^bold>\<open>What the lemmas show.\<close>  Of every store: an invariant (unique fingerprints or keys, counters that
  agree with the dependent rows, statuses within the lifecycle, rows that refer to existing
  rows) kept by every operation, and so by every sequence of them.  Of every decision: its
  exact condition (the detectors, the rules, the policies, the calculator, the comparison of
  versions, the gates).  Of the engines: the outcome of each call on every branch, what a
  repetition adds, that a run by one worker succeeds, what interleaved workers can lose.
  Refinements: incidents implement a register of fingerprints and statuses, the inactivity
  passes implement a reference definition, the limiter implements one that forgets nothing.
  Round trips: a created incident is read back whole, a restart reads back the open requests.
  Interleaving: a step of \<open>Group_Workers\<close> is one query of a worker, or its transaction from the
  first row it locks to the commit, on what the others have committed (READ COMMITTED); the
  rows it loaded may be stale, and its updates write the columns it changed.  A worker left
  alone does what \<open>process_alert\<close> does (\<open>worker_alone\<close>), so both descriptions agree.
  Several theorems record what the code does although a comment, a test or its purpose says
  otherwise; the text before each of them says so.

  \<^bold>\<open>Not modelled.\<close>  The first pipeline (the v1 rules, its correlation, its alert table and the
  scores, clusters and stories over it): pattern tables and SQL aggregates that v2 does not
  call.  Collectors, agents, response commands, message buses, web sockets, LDAP, OIDC and
  vault: input and output.  The machine-learning modules: training and inference by
  scikit-learn and numpy.  The front end.  Of the modelled files, the functions that only
  format a row for an answer or a report.  Widths of columns other than those the code cuts
  itself, failures of the database other than the conflicts named, and the Redis branch of the
  counters (a server's semantics).  Two sessions that insert the same detection id at once
  (the losing transaction fails as a whole), workers of the aggregation with several alerts in
  one transaction or beside the inactivity pass, deadlocks, scores of the CVE list that are no
  numbers, and the limit of 4300 digits of \<open>int\<close>.
\<close>

end
